(* ===== verification/Prelude.thy ===== *)
theory Prelude
  imports Complex_Main
begin

text \<open>
  Shared vocabulary of the development.

  \<^item> The runtime the TypeScript code computes with: decimal.js results are exact results
    rounded to the configured number of significant digits, a JavaScript number is an
    IEEE double, a \<open>Decimal(18,4)\<close> column keeps four fractional digits.  None of the
    three is code of the repository, so each is a field of the record \<open>runtime\<close>, an argument
    of every definition that computes with it; what the code relies on is the locale
    \<open>numeric_runtime\<close>, which is interpreted on a concrete runtime.
  \<^item> Database tables as lists of rows: \<open>upd_where\<close> is an UPDATE, \<open>sum_where\<close> a SUM
    aggregate, \<open>List.find\<close> a findFirst.
  \<^item> The named collections \<open>table_simps\<close> and \<open>money_simps\<close> that carry the component proofs.
\<close>

named_theorems table_simps \<open>facts about table updates, lookups and aggregates\<close>
named_theorems money_simps \<open>exactness and sign facts of decimal arithmetic\<close>

section \<open>The numeric runtime\<close>

type_synonym uuid = nat
type_synonym timestamp = int

record runtime =
  rnd :: "rat \<Rightarrow> rat"
  js :: "rat \<Rightarrow> rat"
  num4 :: "rat \<Rightarrow> rat"
  nadd :: "rat \<Rightarrow> rat \<Rightarrow> rat"
  nsub :: "rat \<Rightarrow> rat \<Rightarrow> rat"
  nmul :: "rat \<Rightarrow> rat \<Rightarrow> rat"
  ndiv :: "rat \<Rightarrow> rat \<Rightarrow> rat"
  now :: timestamp
  dayStart :: "timestamp \<Rightarrow> timestamp"
  monthStart :: "timestamp \<Rightarrow> timestamp"

text \<open>Decimal arithmetic: the exact result, rounded by the library.\<close>

definition dadd :: "runtime \<Rightarrow> rat \<Rightarrow> rat \<Rightarrow> rat" where
  "dadd R x y = rnd R (x + y)"

definition dsub :: "runtime \<Rightarrow> rat \<Rightarrow> rat \<Rightarrow> rat" where
  "dsub R x y = rnd R (x - y)"

definition dmul :: "runtime \<Rightarrow> rat \<Rightarrow> rat \<Rightarrow> rat" where
  "dmul R x y = rnd R (x * y)"

definition ddiv :: "runtime \<Rightarrow> rat \<Rightarrow> rat \<Rightarrow> rat" where
  "ddiv R x y = rnd R (x / y)"

lemmas dec_defs = dadd_def dsub_def dmul_def ddiv_def

text \<open>Rounding to \<open>k\<close> decimal places: ties away from zero, and ties to even.\<close>

definition half_away :: "nat \<Rightarrow> rat \<Rightarrow> rat" where
  "half_away k x =
     (if 0 \<le> x then of_int \<lfloor>x * 10 ^ k + 1 / 2\<rfloor> / 10 ^ k
      else - (of_int \<lfloor>- x * 10 ^ k + 1 / 2\<rfloor> / 10 ^ k))"

definition half_even_int :: "rat \<Rightarrow> int" where
  "half_even_int x =
     (let f = \<lfloor>x\<rfloor>; d = x - of_int f
      in if d < 1 / 2 then f else if 1 / 2 < d then f + 1
      else if even f then f else f + 1)"

definition half_even :: "nat \<Rightarrow> rat \<Rightarrow> rat" where
  "half_even k x = of_int (half_even_int (x * 10 ^ k)) / 10 ^ k"

text \<open>\<open>places k x\<close>: at most \<open>k\<close> fractional digits; \<open>sig n x\<close>: a decimal fraction of at most \<open>n\<close>
  digits in all.\<close>

definition places :: "nat \<Rightarrow> rat \<Rightarrow> bool" where
  "places k x \<longleftrightarrow> of_int \<lfloor>x * 10 ^ k\<rfloor> = x * 10 ^ k"

definition sig :: "nat \<Rightarrow> rat \<Rightarrow> bool" where
  "sig d x \<longleftrightarrow> (\<exists>k n. x * 10 ^ k = of_int n \<and> \<bar>n\<bar> < 10 ^ d)"

lemma placesI: "x * 10 ^ k = of_int n \<Longrightarrow> places k x"
  by (simp add: places_def)

lemma placesE:
  assumes "places k x"
  obtains n :: int where "x * 10 ^ k = of_int n" and "x = of_int n / 10 ^ k"
proof -
  have "x * 10 ^ k = of_int \<lfloor>x * 10 ^ k\<rfloor>"
    using assms unfolding places_def by (rule sym)
  moreover from this have "x = of_int \<lfloor>x * 10 ^ k\<rfloor> / 10 ^ k"
    by (simp add: field_simps)
  ultimately show ?thesis by (rule that)
qed

lemma places_0 [simp]: "places k 0"
  by (simp add: places_def)

lemma places_add [money_simps]:
  assumes "places k x" and "places k y"
  shows "places k (x + y)"
proof -
  from assms obtain m n :: int where "x * 10 ^ k = of_int m" "y * 10 ^ k = of_int n"
    by (auto elim!: placesE)
  then have "(x + y) * 10 ^ k = of_int (m + n)" by (simp add: distrib_right)
  then show ?thesis by (rule placesI)
qed

lemma places_minus [money_simps]: "places k x \<Longrightarrow> places k (- x)"
  by (erule placesE, rule placesI [where n = "- n" for n]) simp

lemma places_diff [money_simps]: "places k x \<Longrightarrow> places k y \<Longrightarrow> places k (x - y)"
  using places_add [of k x "- y"] places_minus [of k y] by simp

lemma places_mono: "places j x \<Longrightarrow> j \<le> k \<Longrightarrow> places k x"
proof (erule placesE)
  fix n :: int
  assume n: "x * 10 ^ j = of_int n" and "j \<le> k"
  then have "x * 10 ^ k = of_int (n * 10 ^ (k - j))"
    by (simp flip: n add: mult.assoc power_add [symmetric])
  then show "places k x" by (rule placesI)
qed

lemma places_mult [money_simps]:
  assumes "places j x" and "places k y"
  shows "places (j + k) (x * y)"
proof -
  from assms obtain m n :: int where "x * 10 ^ j = of_int m" "y * 10 ^ k = of_int n"
    by (auto elim!: placesE)
  then have "x * y * 10 ^ (j + k) = of_int (m * n)"
    by (simp add: power_add) (metis mult.assoc mult.commute)
  then show ?thesis by (rule placesI)
qed

lemma places_div100 [money_simps]: "places k x \<Longrightarrow> places (k + 2) (x / 100)"
  by (erule placesE, rule placesI) (simp add: power_add)

lemma places_numeral [simp]: "places k (numeral w)"
  by (rule placesI [where n = "numeral w * 10 ^ k"]) simp

lemma places_1 [simp]: "places k 1"
  by (rule placesI [where n = "10 ^ k"]) simp

lemma places_sig:
  assumes "places k x" and "\<bar>x\<bar> * 10 ^ k < 10 ^ d"
  shows "sig d x"
proof -
  from assms(1) obtain n :: int where n: "x * 10 ^ k = of_int n" by (rule placesE)
  then have "\<bar>x * 10 ^ k\<bar> = of_int \<bar>n\<bar>" by simp
  then have "of_int \<bar>n\<bar> = \<bar>x\<bar> * 10 ^ k" by (simp add: abs_mult)
  with assms(2) have "of_int \<bar>n\<bar> < (of_int (10 ^ d) :: rat)" by simp
  then have "\<bar>n\<bar> < 10 ^ d" by (simp only: of_int_less_iff)
  with n show ?thesis by (auto simp: sig_def)
qed

text \<open>A value half-way between two neighbouring values of four places.\<close>

definition tie4 :: "rat \<Rightarrow> bool" where
  "tie4 x \<longleftrightarrow> \<not> places 4 x \<and> places 4 (2 * x)"

lemma tie4_shift: "places 4 b \<Longrightarrow> tie4 (b + x) \<longleftrightarrow> tie4 x"
proof -
  assume b: "places 4 b"
  have b2: "places 4 (2 * b)" using places_add [OF b b] by simp
  have "places 4 (b + x) \<longleftrightarrow> places 4 x"
    using places_add [OF b, of x] places_diff [of 4 "b + x" b] b by auto
  moreover have "places 4 (2 * (b + x)) \<longleftrightarrow> places 4 (2 * x)"
    using places_add [OF b2, of "2 * x"] places_diff [of 4 "2 * (b + x)" "2 * b"] b2
    by (auto simp: distrib_left)
  ultimately show ?thesis by (simp add: tie4_def)
qed

subsection \<open>What the code relies on\<close>

text \<open>
  The laws: a value of at most twenty significant digits survives a decimal operation
  unchanged, rounding is monotone and keeps the sign (decimal.js, default configuration); a column with
  scale four holds four places, keeps what has four places, is monotone, and adding a stored
  nonnegative value commutes with rounding, as does subtracting a value that is not half-way
  (ties away from zero, PostgreSQL).  A JavaScript
  number stands for the shortest decimal that reads back as it, which is what \<open>new Decimal(n)\<close>
  and printing use: a decimal of at most fifteen digits survives \<open>toNumber\<close>, the conversion is
  monotone, and so are the operators \<open>+\<close> and \<open>-\<close> on numbers (\<open>nadd\<close>, \<open>nsub\<close>; \<open>nmul\<close> and
  \<open>ndiv\<close> are \<open>*\<close> and \<open>/\<close>).
\<close>

locale numeric_runtime =
  fixes R :: runtime
  assumes rnd_exact: "sig 20 x \<Longrightarrow> rnd R x = x"
    and rnd_mono: "x \<le> y \<Longrightarrow> rnd R x \<le> rnd R y"
    and rnd_sign: "rnd R x < 0 \<longleftrightarrow> x < 0"
    and num4_places: "places 4 (num4 R x)"
    and num4_exact: "places 4 x \<Longrightarrow> num4 R x = x"
    and num4_mono: "x \<le> y \<Longrightarrow> num4 R x \<le> num4 R y"
    and num4_shift: "places 4 b \<Longrightarrow> 0 \<le> b \<Longrightarrow> 0 \<le> x \<Longrightarrow> num4 R (b + x) = b + num4 R x"
    and num4_diff:
      "places 4 b \<Longrightarrow> 0 \<le> x \<Longrightarrow> x \<le> b \<Longrightarrow> \<not> tie4 x \<Longrightarrow> num4 R (b - x) = b - num4 R x"
    and js_exact: "sig 15 x \<Longrightarrow> js R x = x"
    and js_mono: "x \<le> y \<Longrightarrow> js R x \<le> js R y"
    and nadd_mono: "x \<le> x' \<Longrightarrow> y \<le> y' \<Longrightarrow> nadd R x y \<le> nadd R x' y'"
    and nadd_0: "nadd R x 0 = x"
    and nsub_mono: "x \<le> x' \<Longrightarrow> y' \<le> y \<Longrightarrow> nsub R x y \<le> nsub R x' y'"
    and nsub_self: "nsub R x x = 0"
begin

lemma sig_0: "sig d 0"
  by (auto simp: sig_def intro: exI [of _ 0])

lemma rnd_0 [simp]: "rnd R 0 = 0"
  by (rule rnd_exact [OF sig_0])

lemma rnd_nonneg: "0 \<le> x \<Longrightarrow> 0 \<le> rnd R x"
  using rnd_mono [of 0 x] by simp

lemma rnd_nonpos: "x \<le> 0 \<Longrightarrow> rnd R x \<le> 0"
  using rnd_mono [of x 0] by simp

lemma num4_0 [simp]: "num4 R 0 = 0"
  by (simp add: num4_exact)

lemma num4_nonneg: "0 \<le> x \<Longrightarrow> 0 \<le> num4 R x"
  using num4_mono [of 0 x] by simp

lemma js_0 [simp]: "js R 0 = 0"
  by (rule js_exact [OF sig_0])

lemma nsub_nonneg: "y \<le> x \<Longrightarrow> 0 \<le> nsub R x y"
  using nsub_mono [of y x y y] nsub_self [of y] by simp

lemma nsub_nonpos: "x \<le> y \<Longrightarrow> nsub R x y \<le> 0"
  using nsub_mono [of x x x y] nsub_self [of x] by simp

lemma dadd_nonneg: "0 \<le> x \<Longrightarrow> 0 \<le> y \<Longrightarrow> 0 \<le> dadd R x y"
  by (simp add: dadd_def rnd_nonneg)

lemma dmul_nonneg: "0 \<le> x \<Longrightarrow> 0 \<le> y \<Longrightarrow> 0 \<le> dmul R x y"
  by (simp add: dmul_def rnd_nonneg)

lemma ddiv_nonneg: "0 \<le> x \<Longrightarrow> 0 \<le> y \<Longrightarrow> 0 \<le> ddiv R x y"
  by (simp add: ddiv_def rnd_nonneg)

lemma dsub_nonneg: "y \<le> x \<Longrightarrow> 0 \<le> dsub R x y"
  by (simp add: dsub_def rnd_nonneg)

lemma rnd_places: "places k x \<Longrightarrow> \<bar>x\<bar> * 10 ^ k < 10 ^ 20 \<Longrightarrow> rnd R x = x"
  by (intro rnd_exact places_sig)

lemma js_places: "places k x \<Longrightarrow> \<bar>x\<bar> * 10 ^ k < 10 ^ 15 \<Longrightarrow> js R x = x"
  by (intro js_exact places_sig)

end

lemmas runtime_nonneg =
  numeric_runtime.dadd_nonneg numeric_runtime.dmul_nonneg numeric_runtime.ddiv_nonneg
  numeric_runtime.dsub_nonneg

subsection \<open>A concrete runtime\<close>

text \<open>
  Exact decimals and doubles over a PostgreSQL column of scale four: the instance the closed
  evaluations run on, and the proof that the laws above are consistent.
\<close>

lemma half_away_scaled:
  "half_away k x * 10 ^ k =
     (if 0 \<le> x then of_int \<lfloor>x * 10 ^ k + 1 / 2\<rfloor> else of_int (- \<lfloor>- x * 10 ^ k + 1 / 2\<rfloor>))"
  by (simp add: half_away_def)

lemma half_away_places: "places k (half_away k x)"
  by (rule placesI [where n =
        "if 0 \<le> x then \<lfloor>x * 10 ^ k + 1 / 2\<rfloor> else - \<lfloor>- x * 10 ^ k + 1 / 2\<rfloor>"])
    (simp add: half_away_scaled)

lemma floor_int_half: "\<lfloor>of_int n + 1 / 2 :: rat\<rfloor> = n"
  by linarith

lemma half_away_exact: "places k x \<Longrightarrow> half_away k x = x"
proof (erule placesE)
  fix n :: int
  assume n: "x * 10 ^ k = of_int n" "x = of_int n / 10 ^ k"
  have "- x * 10 ^ k = of_int (- n)" using n(1) by simp
  with n floor_int_half [of n] floor_int_half [of "- n"] show "half_away k x = x"
    by (simp add: half_away_def)
qed

lemma half_away_shift:
  assumes "places k b" and "0 \<le> b" and "0 \<le> x"
  shows "half_away k (b + x) = b + half_away k x"
proof -
  from assms(1) obtain n :: int where n: "b * 10 ^ k = of_int n" "b = of_int n / 10 ^ k"
    by (rule placesE)
  have "(b + x) * 10 ^ k + 1 / 2 = of_int n + (x * 10 ^ k + 1 / 2)"
    using n(1) by (simp add: distrib_right)
  then have "\<lfloor>(b + x) * 10 ^ k + 1 / 2\<rfloor> = n + \<lfloor>x * 10 ^ k + 1 / 2\<rfloor>"
    by (simp only: int_add_floor)
  with assms n(2) show ?thesis by (simp add: half_away_def add_divide_distrib)
qed

lemma half_away_diff:
  assumes "places 4 b" and "0 \<le> x" and "x \<le> b" and "\<not> tie4 x"
  shows "half_away 4 (b - x) = b - half_away 4 x"
proof -
  define y where "y = x * 10 ^ 4"
  from assms(1) obtain n :: int where n: "b * 10 ^ 4 = of_int n" "b = of_int n / 10 ^ 4"
    by (rule placesE)
  have no_tie: "y - 1 / 2 \<noteq> of_int m" for m :: int
  proof
    assume m: "y - 1 / 2 = of_int m"
    then have "2 * x * 10 ^ 4 = of_int (2 * m + 1)" by (simp add: y_def field_simps)
    then have "places 4 (2 * x)" by (rule placesI)
    moreover have "\<not> places 4 x"
    proof
      assume "places 4 x"
      then obtain k :: int where "x * 10 ^ 4 = of_int k" by (rule placesE)
      with m have "of_int (2 * k) = (of_int (2 * m + 1) :: rat)" by (simp add: y_def field_simps)
      then have "2 * k = 2 * m + 1" by (simp only: of_int_eq_iff)
      then show False by presburger
    qed
    ultimately show False using assms(4) by (simp add: tie4_def)
  qed
  have "\<lfloor>1 / 2 - y\<rfloor> = - \<lfloor>y + 1 / 2\<rfloor>"
  proof -
    have "y - 1 / 2 \<noteq> of_int \<lfloor>y - 1 / 2\<rfloor>" by (rule no_tie)
    then have "\<lfloor>- (y - 1 / 2)\<rfloor> = - \<lfloor>y - 1 / 2\<rfloor> - 1" by linarith
    moreover have "\<lfloor>y + 1 / 2\<rfloor> = \<lfloor>y - 1 / 2\<rfloor> + 1" by linarith
    ultimately show ?thesis by simp
  qed
  moreover have "(b - x) * 10 ^ 4 + 1 / 2 = of_int n + (1 / 2 - y)"
    using n(1) by (simp add: y_def left_diff_distrib)
  ultimately have "\<lfloor>(b - x) * 10 ^ 4 + 1 / 2\<rfloor> = n - \<lfloor>y + 1 / 2\<rfloor>"
    by (simp only: int_add_floor) linarith
  with assms(2,3) n(2) show ?thesis by (simp add: half_away_def y_def diff_divide_distrib)
qed

lemma half_away_nonneg: "0 \<le> x \<Longrightarrow> 0 \<le> half_away k x"
  by (simp add: half_away_def)

lemma half_away_minus: "half_away k (- x) = - half_away k x"
proof (cases "x = 0")
  case True
  have "\<lfloor>1 / 2 :: rat\<rfloor> = 0" by linarith
  with True show ?thesis by (simp add: half_away_def)
qed (auto simp: half_away_def)

lemma half_away_mono: "x \<le> y \<Longrightarrow> half_away k x \<le> half_away k y"
proof -
  assume le: "x \<le> y"
  have pos: "half_away k a \<le> half_away k b" if "0 \<le> a" "a \<le> b" for a b :: rat
    using that by (auto simp: half_away_def intro!: divide_right_mono floor_mono mult_right_mono)
  consider "0 \<le> x" | "x < 0" "0 \<le> y" | "y < 0" using le by linarith
  then show ?thesis
  proof cases
    case 2
    then have "0 \<le> half_away k (- x)" and "0 \<le> half_away k y"
      by (auto intro: half_away_nonneg)
    then show ?thesis by (simp add: half_away_minus)
  next
    case 3
    with le pos [of "- y" "- x"] show ?thesis by (simp add: half_away_minus)
  qed (use le pos in blast)
qed

definition pg_runtime :: "timestamp \<Rightarrow> runtime" where
  "pg_runtime t = \<lparr>rnd = (\<lambda>x. x), js = (\<lambda>x. x), num4 = half_away 4,
     nadd = (+), nsub = (-), nmul = (*), ndiv = (/), now = t,
     dayStart = (\<lambda>s. s - s mod 86400000), monthStart = (\<lambda>s. s - s mod 2592000000)\<rparr>"

interpretation pg: numeric_runtime "pg_runtime t"
  by unfold_locales
    (simp_all add: pg_runtime_def half_away_places half_away_exact half_away_mono half_away_shift half_away_diff)

section \<open>JSON columns\<close>

text \<open>
  A Prisma \<open>Json\<close> value as the services receive it.  \<open>JDec x\<close> is the string a decimal prints as
  (\<open>Decimal.toString\<close>), which \<open>new Decimal\<close> and a cast to numeric read back exactly; any other
  string is \<open>JStr\<close>.  \<open>jfield\<close> reads a property, absent or not; \<open>jspread\<close> is \<open>{...a, ...b}\<close>.
\<close>

datatype json = JNull | JBool bool | JNum rat | JDec rat | JStr string | JArr "json list"
  | JObj "(string \<times> json) list"

fun jfield :: "string \<Rightarrow> json \<Rightarrow> json" where
  "jfield f (JObj kvs) = (case map_of kvs f of None \<Rightarrow> JNull | Some v \<Rightarrow> v)"
| "jfield f _ = JNull"

fun jnum :: "json \<Rightarrow> rat option" where
  "jnum (JNum x) = Some x"
| "jnum _ = None"

fun jdec :: "json \<Rightarrow> rat option" where
  "jdec (JNum x) = Some x"
| "jdec (JDec x) = Some x"
| "jdec _ = None"

definition jspread :: "(string \<times> json) list \<Rightarrow> (string \<times> json) list \<Rightarrow> (string \<times> json) list" where
  "jspread a b = filter (\<lambda>(k, v). map_of b k = None) a @ b"

lemma map_of_jspread: "map_of (jspread a b) k = (case map_of b k of None \<Rightarrow> map_of a k | Some v \<Rightarrow> Some v)"
proof -
  have "map_of (filter (\<lambda>(k, v). map_of b k = None) a) k = (if map_of b k = None then map_of a k else None)"
    by (induction a) auto
  then show ?thesis by (auto simp: jspread_def map_add_def split: option.splits)
qed

text \<open>The decimal digits of a generated key, for keys built by string templates.\<close>

definition digit_char :: "nat \<Rightarrow> char" where
  "digit_char d = char_of (48 + d)"

fun uuid_str :: "uuid \<Rightarrow> string" where
  "uuid_str n = (if n < 10 then [digit_char n] else uuid_str (n div 10) @ [digit_char (n mod 10)])"

declare uuid_str.simps [simp del]

lemma digit_char_inj: "a < 10 \<Longrightarrow> b < 10 \<Longrightarrow> digit_char a = digit_char b \<Longrightarrow> a = b"
proof -
  assume "a < 10" "b < 10" "digit_char a = digit_char b"
  then have "of_char (digit_char a) = (of_char (digit_char b) :: nat)" by simp
  with \<open>a < 10\<close> \<open>b < 10\<close> show "a = b" by (simp add: digit_char_def of_char_of)
qed

lemma uuid_str_nonempty: "uuid_str n \<noteq> []"
  by (subst uuid_str.simps) simp

lemma uuid_str_inj: "uuid_str m = uuid_str n \<Longrightarrow> m = n"
proof (induction m arbitrary: n rule: uuid_str.induct)
  case (1 m)
  show ?case
  proof (cases "m < 10 \<longleftrightarrow> n < 10")
    case True
    show ?thesis
    proof (cases "m < 10")
      case small: True
      with True "1.prems" show ?thesis by (auto simp: uuid_str.simps [of m] uuid_str.simps [of n] digit_char_inj)
    next
      case large: False
      with True "1.prems" have "uuid_str (m div 10) = uuid_str (n div 10)"
        and "digit_char (m mod 10) = digit_char (n mod 10)"
        by (auto simp: uuid_str.simps [of m] uuid_str.simps [of n])
      then have "m div 10 = n div 10" and "m mod 10 = n mod 10"
        using "1.IH" large by (auto intro: digit_char_inj)
      then show ?thesis by (metis div_mult_mod_eq)
    qed
  next
    case False
    with "1.prems" uuid_str_nonempty [of "m div 10"] uuid_str_nonempty [of "n div 10"] show ?thesis
      by (auto simp: uuid_str.simps [of m] uuid_str.simps [of n] Cons_eq_append_conv split: if_splits)
  qed
qed

section \<open>Tables\<close>

definition upd_where :: "('a \<Rightarrow> bool) \<Rightarrow> ('a \<Rightarrow> 'a) \<Rightarrow> 'a list \<Rightarrow> 'a list" where
  "upd_where P f xs = map (\<lambda>r. if P r then f r else r) xs"

definition sum_where :: "('a \<Rightarrow> bool) \<Rightarrow> ('a \<Rightarrow> rat) \<Rightarrow> 'a list \<Rightarrow> rat" where
  "sum_where P f xs = sum_list (map f (filter P xs))"

lemma upd_where_Nil [table_simps]: "upd_where P f [] = []"
  by (simp add: upd_where_def)

lemma upd_where_Cons [table_simps]:
  "upd_where P f (x # xs) = (if P x then f x else x) # upd_where P f xs"
  by (simp add: upd_where_def)

lemma length_upd_where [simp]: "length (upd_where P f xs) = length xs"
  by (simp add: upd_where_def)

lemma set_upd_where: "set (upd_where P f xs) = f ` {x \<in> set xs. P x} \<union> {x \<in> set xs. \<not> P x}"
  by (auto simp: upd_where_def)

lemma upd_where_id: "(\<And>x. x \<in> set xs \<Longrightarrow> \<not> P x) \<Longrightarrow> upd_where P f xs = xs"
  by (induction xs) (auto simp: upd_where_def)

lemma map_upd_where [table_simps]:
  "(\<And>x. P x \<Longrightarrow> g (f x) = g x) \<Longrightarrow> map g (upd_where P f xs) = map g xs"
  by (induction xs) (auto simp: upd_where_def)

lemma sum_where_Nil [simp]: "sum_where P f [] = 0"
  by (simp add: sum_where_def)

lemma sum_where_Cons [table_simps]:
  "sum_where P f (x # xs) = (if P x then f x else 0) + sum_where P f xs"
  by (simp add: sum_where_def)

lemma sum_where_append [simp]:
  "sum_where P f (xs @ ys) = sum_where P f xs + sum_where P f ys"
  by (simp add: sum_where_def)

lemma sum_where_nonneg: "(\<And>x. x \<in> set xs \<Longrightarrow> P x \<Longrightarrow> 0 \<le> f x) \<Longrightarrow> 0 \<le> sum_where P f xs"
  by (induction xs) (auto simp: table_simps)

lemma places_sum_where: "(\<And>x. x \<in> set xs \<Longrightarrow> places k (f x)) \<Longrightarrow> places k (sum_where P f xs)"
  by (induction xs) (auto simp: table_simps intro: places_add)

lemma sum_where_cong:
  "(\<And>x. x \<in> set xs \<Longrightarrow> P x = Q x) \<Longrightarrow> (\<And>x. x \<in> set xs \<Longrightarrow> Q x \<Longrightarrow> f x = g x) \<Longrightarrow>
     sum_where P f xs = sum_where Q g xs"
  by (induction xs) (auto simp: table_simps)

text \<open>Updating one row, found by a key that is unique in the table.\<close>

lemma find_key_Some:
  assumes "List.find (\<lambda>x. k x = i) xs = Some r"
  shows "r \<in> set xs" and "k r = i"
  using assms by (auto simp: find_Some_iff)

lemma find_key_distinct:
  assumes "distinct (map k xs)" and "r \<in> set xs"
  shows "List.find (\<lambda>x. k x = k r) xs = Some r"
  using assms by (induction xs) (auto simp: image_iff)

lemma upd_unique_sum:
  assumes "distinct (map k xs)" and "r \<in> set xs" and "k r = i"
  shows "sum_where Q g (upd_where (\<lambda>x. k x = i) f xs) =
     sum_where Q g xs - (if Q r then g r else 0) + (if Q (f r) then g (f r) else 0)"
  using assms
proof (induction xs)
  case (Cons x xs)
  show ?case
  proof (cases "x = r")
    case True
    with Cons.prems have "upd_where (\<lambda>x. k x = i) f xs = xs"
      by (intro upd_where_id) (auto simp: image_iff)
    with True Cons.prems show ?thesis by (simp add: table_simps)
  next
    case False
    with Cons show ?thesis by (auto simp: table_simps)
  qed
qed simp

lemma find_upd_where [table_simps]:
  assumes "\<And>x. k (f x) = k x"
  shows "List.find (\<lambda>x. k x = j) (upd_where (\<lambda>x. k x = i) f xs) =
     map_option (\<lambda>x. if j = i then f x else x) (List.find (\<lambda>x. k x = j) xs)"
  by (induction xs) (auto simp: upd_where_def assms)

lemma find_append [table_simps]:
  "List.find P (xs @ ys) = (case List.find P xs of None \<Rightarrow> List.find P ys | Some x \<Rightarrow> Some x)"
  by (induction xs) auto

lemma find_None [table_simps]: "List.find P xs = None \<longleftrightarrow> (\<forall>x \<in> set xs. \<not> P x)"
  by (auto simp: find_None_iff)

end
