(* ===== verification/Money.thy ===== *)
theory Money
  imports Prelude
begin

text \<open>
  The \<open>Money\<close> value object of \<^verbatim>\<open>src/shared/money/money.ts\<close>: an amount kept to four decimal
  places (ties to even) with a currency code.  A \<open>Decimal.Value\<close> is a finite number, an infinity or
  not a number (the sign of an infinity never shows in a result); the thrown \<open>Error\<close>s are values of \<open>money_error\<close>.  The amount is a rational number,
  so decimal.js's negative zero (observable only through \<open>isNegative\<close>) is not represented and
  \<open>isNegative\<close> is left out.
\<close>

section \<open>Model\<close>

datatype currency = MWK | USD

datatype decimal_value = Finite rat | Infinite | NotANumber

datatype money_error = InvalidAmount | CurrencyMismatch currency currency | DivideByZero

record money =
  amount :: rat
  currency :: currency

definition money_of :: "decimal_value \<Rightarrow> currency \<Rightarrow> money_error + money" where
  "money_of v c =
     (case v of
        Finite x \<Rightarrow> Inr \<lparr>amount = half_even 4 x, currency = c\<rparr>
      | _ \<Rightarrow> Inl InvalidAmount)"

definition money_zero :: "currency \<Rightarrow> money_error + money" where
  "money_zero c = money_of (Finite 0) c"

definition fromPersistence :: "decimal_value \<Rightarrow> currency \<Rightarrow> money_error + money" where
  "fromPersistence v c = money_of v c"

definition assertSameCurrency :: "money \<Rightarrow> money \<Rightarrow> money_error option" where
  "assertSameCurrency m n =
     (if currency m \<noteq> currency n then Some (CurrencyMismatch (currency m) (currency n)) else None)"

definition money_add :: "runtime \<Rightarrow> money \<Rightarrow> money \<Rightarrow> money_error + money" where
  "money_add R m n =
     (case assertSameCurrency m n of
        Some e \<Rightarrow> Inl e
      | None \<Rightarrow> money_of (Finite (dadd R (amount m) (amount n))) (currency m))"

definition money_subtract :: "runtime \<Rightarrow> money \<Rightarrow> money \<Rightarrow> money_error + money" where
  "money_subtract R m n =
     (case assertSameCurrency m n of
        Some e \<Rightarrow> Inl e
      | None \<Rightarrow> money_of (Finite (dsub R (amount m) (amount n))) (currency m))"

text \<open>A product with a non-finite factor is infinite or, when the amount is zero, not a number; \<open>of\<close> throws
  for both.\<close>

definition money_multiply :: "runtime \<Rightarrow> money \<Rightarrow> decimal_value \<Rightarrow> money_error + money" where
  "money_multiply R m v =
     (case v of
        Finite f \<Rightarrow> money_of (Finite (dmul R (amount m) f)) (currency m)
      | Infinite \<Rightarrow> money_of (if amount m = 0 then NotANumber else Infinite) (currency m)
      | NotANumber \<Rightarrow> money_of NotANumber (currency m))"

text \<open>A finite amount divided by an infinity is zero.\<close>

definition money_divide :: "runtime \<Rightarrow> money \<Rightarrow> decimal_value \<Rightarrow> money_error + money" where
  "money_divide R m v =
     (case v of
        Finite d \<Rightarrow> if d = 0 then Inl DivideByZero else money_of (Finite (ddiv R (amount m) d)) (currency m)
      | Infinite \<Rightarrow> money_of (Finite 0) (currency m)
      | NotANumber \<Rightarrow> money_of NotANumber (currency m))"

definition money_isZero :: "money \<Rightarrow> bool" where
  "money_isZero m \<longleftrightarrow> amount m = 0"

definition isGreaterThan :: "money \<Rightarrow> money \<Rightarrow> money_error + bool" where
  "isGreaterThan m n =
     (case assertSameCurrency m n of Some e \<Rightarrow> Inl e | None \<Rightarrow> Inr (amount m > amount n))"

definition isGreaterThanOrEqual :: "money \<Rightarrow> money \<Rightarrow> money_error + bool" where
  "isGreaterThanOrEqual m n =
     (case assertSameCurrency m n of Some e \<Rightarrow> Inl e | None \<Rightarrow> Inr (amount m \<ge> amount n))"

definition isLessThan :: "money \<Rightarrow> money \<Rightarrow> money_error + bool" where
  "isLessThan m n =
     (case assertSameCurrency m n of Some e \<Rightarrow> Inl e | None \<Rightarrow> Inr (amount m < amount n))"

definition money_equals :: "money \<Rightarrow> money \<Rightarrow> bool" where
  "money_equals m n \<longleftrightarrow> currency m = currency n \<and> amount m = amount n"

text \<open>The decimal a display or persistence string denotes.\<close>

definition toPersistence :: "money \<Rightarrow> rat" where
  "toPersistence m = half_away 4 (amount m)"

definition toDisplayString :: "money \<Rightarrow> rat" where
  "toDisplayString m = half_even 2 (amount m)"

definition wf_money :: "money \<Rightarrow> bool" where
  "wf_money m \<longleftrightarrow> places 4 (amount m)"

section \<open>Lemmas\<close>

lemmas money_defs = money_of_def money_zero_def fromPersistence_def money_add_def money_subtract_def
  money_multiply_def money_divide_def assertSameCurrency_def

lemma half_even_places [money_simps]: "places k (half_even k x)"
  by (rule placesI [where n = "half_even_int (x * 10 ^ k)"]) (simp add: half_even_def)

lemma half_even_int_of_int [simp]: "half_even_int (of_int n) = n"
  by (simp add: half_even_int_def Let_def)

lemma half_even_exact [money_simps]: "places k x \<Longrightarrow> half_even k x = x"
  by (erule placesE) (simp add: half_even_def)

lemma half_even_int_close: "\<bar>of_int (half_even_int x) - x\<bar> \<le> (1 / 2 :: rat)"
proof -
  have "of_int \<lfloor>x\<rfloor> \<le> x" and "x < of_int \<lfloor>x\<rfloor> + 1" by linarith+
  then show ?thesis by (auto simp: half_even_int_def Let_def abs_le_iff)
qed

lemma half_even_close: "\<bar>half_even k x - x\<bar> \<le> 1 / (2 * 10 ^ k)"
proof -
  have "\<bar>half_even k x - x\<bar> * 10 ^ k = \<bar>(half_even k x - x) * 10 ^ k\<bar>"
    by (simp add: abs_mult)
  also have "\<dots> = \<bar>of_int (half_even_int (x * 10 ^ k)) - x * 10 ^ k\<bar>"
    by (simp add: half_even_def left_diff_distrib)
  also have "\<dots> \<le> 1 / 2" by (rule half_even_int_close)
  finally show ?thesis by (simp add: field_simps)
qed

lemma money_of_wf: "money_of v c = Inr m \<Longrightarrow> wf_money m"
  by (auto simp: money_of_def wf_money_def half_even_places split: decimal_value.splits)

lemma money_op_wf:
  shows "money_add R m n = Inr r \<Longrightarrow> wf_money r"
    and "money_subtract R m n = Inr r \<Longrightarrow> wf_money r"
    and "money_multiply R m v = Inr r \<Longrightarrow> wf_money r"
    and "money_divide R m d = Inr r \<Longrightarrow> wf_money r"
  by (auto simp: money_add_def money_subtract_def money_multiply_def money_divide_def
      split: option.splits if_splits decimal_value.splits dest: money_of_wf)

context numeric_runtime
begin

lemma rnd_places4: "places 4 x \<Longrightarrow> \<bar>x\<bar> < 10 ^ 16 \<Longrightarrow> rnd R x = x"
  by (intro rnd_exact places_sig [of 4]) auto

lemma money_add_exact:
  assumes "wf_money m" "wf_money n" "currency m = currency n" "\<bar>amount m + amount n\<bar> < 10 ^ 16"
  shows "money_add R m n = Inr \<lparr>amount = amount m + amount n, currency = currency m\<rparr>"
  using assms
  by (simp add: money_defs dadd_def wf_money_def rnd_places4 places_add half_even_exact)

lemma money_subtract_exact:
  assumes "wf_money m" "wf_money n" "currency m = currency n" "\<bar>amount m - amount n\<bar> < 10 ^ 16"
  shows "money_subtract R m n = Inr \<lparr>amount = amount m - amount n, currency = currency m\<rparr>"
  using assms
  by (simp add: money_defs dsub_def wf_money_def rnd_places4 places_diff half_even_exact)

lemma money_roundtrip:
  assumes "wf_money m" "wf_money n" "currency m = currency n"
    "\<bar>amount m\<bar> < 10 ^ 15" "\<bar>amount n\<bar> < 10 ^ 15"
  shows "\<exists>s. money_add R m n = Inr s \<and> money_subtract R s n = Inr m"
proof -
  let ?s = "\<lparr>amount = amount m + amount n, currency = currency m\<rparr>"
  have "\<bar>amount m + amount n\<bar> < 10 ^ 16" using assms(4,5) by simp
  then have "money_add R m n = Inr ?s" using assms by (intro money_add_exact)
  moreover have "money_subtract R ?s n = Inr m"
    using assms by (subst money_subtract_exact) (auto simp: wf_money_def places_add)
  ultimately show ?thesis by blast
qed

end

section \<open>Properties\<close>

text \<open>C35. Money is a value of at most four decimal places whatever it was built from: every
  successful construction, sum, difference, product and quotient is well-formed, a construction
  is within half a unit of the fourth place of its argument, and a mismatch of currencies or a
  zero divisor is an error, never a value.\<close>

theorem money_closed:
  "(money_of v c = Inr m \<longrightarrow> wf_money m \<and> (\<exists>x. v = Finite x \<and> \<bar>amount m - x\<bar> \<le> 1 / 20000)) \<and>
   (money_add R a b = Inr r \<longrightarrow> wf_money r \<and> currency a = currency b) \<and>
   (money_subtract R a b = Inr r \<longrightarrow> wf_money r \<and> currency a = currency b) \<and>
   (money_multiply R a v = Inr r \<longrightarrow> wf_money r \<and> (\<exists>f. v = Finite f)) \<and>
   (money_divide R a d = Inr r \<longrightarrow> wf_money r \<and> d \<noteq> Finite 0 \<and> d \<noteq> NotANumber)"
  using half_even_close [of 4]
  by (auto simp: money_op_wf money_of_wf)
    (auto simp: money_defs split: decimal_value.splits if_splits option.splits)

theorem money_closed_witness:
  "money_of (Finite (123456 / 100000)) MWK = Inr \<lparr>amount = 12346 / 10000, currency = MWK\<rparr> \<and>
   \<bar>12346 / 10000 - 123456 / 100000 :: rat\<bar> \<le> 1 / 20000"
proof -
  have h: "money_of (Finite (123456 / 100000)) MWK = Inr \<lparr>amount = 12346 / 10000, currency = MWK\<rparr>"
    by code_simp
  then show ?thesis using money_closed [of "Finite (123456 / 100000)" MWK] by auto
qed

text \<open>Adding and then subtracting the same amount of the same currency gives back the original
  money exactly: no drift across a round trip, for every pair of amounts below ten to the
  fifteen.\<close>

lemma money_add_subtract_roundtrip:
  assumes "numeric_runtime R" and "wf_money m" and "wf_money n" and "currency m = currency n"
    and "\<bar>amount m\<bar> < 10 ^ 15" and "\<bar>amount n\<bar> < 10 ^ 15"
  shows "\<exists>s. money_add R m n = Inr s \<and> money_subtract R s n = Inr m"
  using numeric_runtime.money_roundtrip [OF assms] .

end
