(* ===== verification/OrderLifecycle.thy ===== *)
theory OrderLifecycle
  imports Prelude
begin

text \<open>
  The order state machine of \<^verbatim>\<open>src/modules/trading/domain/order-lifecycle.ts\<close>: the status enum,
  the table of allowed transitions with its guard functions, and the three status sets the
  services consult.  \<open>lc_run\<close> is the set of status histories the table allows, newest status
  first.
\<close>

section \<open>Model\<close>

datatype OrderLifecycleStatus =
    DRAFT | PENDING_VALIDATION | VALIDATED | SUBMITTED | ACCEPTED | PARTIALLY_FILLED | FILLED
  | PENDING_SETTLEMENT | SETTLED | COMPLETED | REJECTED | CANCELLED | EXPIRED

fun TRANSITIONS :: "OrderLifecycleStatus \<Rightarrow> OrderLifecycleStatus list" where
  "TRANSITIONS DRAFT = [PENDING_VALIDATION, CANCELLED]"
| "TRANSITIONS PENDING_VALIDATION = [VALIDATED, REJECTED, CANCELLED]"
| "TRANSITIONS VALIDATED = [SUBMITTED, REJECTED, CANCELLED]"
| "TRANSITIONS SUBMITTED = [ACCEPTED, REJECTED, CANCELLED, EXPIRED]"
| "TRANSITIONS ACCEPTED = [PARTIALLY_FILLED, FILLED, CANCELLED, EXPIRED]"
| "TRANSITIONS PARTIALLY_FILLED = [PARTIALLY_FILLED, FILLED, CANCELLED]"
| "TRANSITIONS FILLED = [PENDING_SETTLEMENT]"
| "TRANSITIONS PENDING_SETTLEMENT = [SETTLED]"
| "TRANSITIONS SETTLED = [COMPLETED]"
| "TRANSITIONS COMPLETED = []"
| "TRANSITIONS REJECTED = []"
| "TRANSITIONS CANCELLED = []"
| "TRANSITIONS EXPIRED = []"

definition CANCELLABLE_STATES :: "OrderLifecycleStatus list" where
  "CANCELLABLE_STATES = [DRAFT, PENDING_VALIDATION, VALIDATED, SUBMITTED]"

definition TERMINAL_STATES :: "OrderLifecycleStatus list" where
  "TERMINAL_STATES = [COMPLETED, REJECTED, CANCELLED, EXPIRED]"

definition ACTIVE_STATES :: "OrderLifecycleStatus list" where
  "ACTIVE_STATES = [DRAFT, PENDING_VALIDATION, VALIDATED, SUBMITTED, ACCEPTED, PARTIALLY_FILLED]"

definition canTransition :: "OrderLifecycleStatus \<Rightarrow> OrderLifecycleStatus \<Rightarrow> bool" where
  "canTransition from_s to_s \<longleftrightarrow> to_s \<in> set (TRANSITIONS from_s)"

text \<open>\<open>assertTransition\<close> throws an \<open>Error\<close> that names both states.\<close>

datatype transition_error = InvalidTransition OrderLifecycleStatus OrderLifecycleStatus

definition assertTransition ::
  "OrderLifecycleStatus \<Rightarrow> OrderLifecycleStatus \<Rightarrow> transition_error + unit" where
  "assertTransition from_s to_s =
     (if \<not> canTransition from_s to_s then Inl (InvalidTransition from_s to_s) else Inr ())"

section \<open>Histories\<close>

inductive lc_run :: "OrderLifecycleStatus list \<Rightarrow> bool" where
  start: "lc_run [DRAFT]"
| step: "lc_run (s # h) \<Longrightarrow> canTransition s t \<Longrightarrow> lc_run (t # s # h)"

inductive_cases lc_run_ConsE: "lc_run (t # h)"

code_pred lc_run .

text \<open>The statuses a history must already contain when it reaches a status.\<close>

fun must_pass :: "OrderLifecycleStatus \<Rightarrow> OrderLifecycleStatus set" where
  "must_pass DRAFT = {}"
| "must_pass PENDING_VALIDATION = {DRAFT}"
| "must_pass VALIDATED = {DRAFT, PENDING_VALIDATION}"
| "must_pass SUBMITTED = {DRAFT, PENDING_VALIDATION, VALIDATED}"
| "must_pass ACCEPTED = {DRAFT, PENDING_VALIDATION, VALIDATED, SUBMITTED}"
| "must_pass PARTIALLY_FILLED = {DRAFT, PENDING_VALIDATION, VALIDATED, SUBMITTED, ACCEPTED}"
| "must_pass FILLED = {DRAFT, PENDING_VALIDATION, VALIDATED, SUBMITTED, ACCEPTED}"
| "must_pass PENDING_SETTLEMENT =
     {DRAFT, PENDING_VALIDATION, VALIDATED, SUBMITTED, ACCEPTED, FILLED}"
| "must_pass SETTLED =
     {DRAFT, PENDING_VALIDATION, VALIDATED, SUBMITTED, ACCEPTED, FILLED, PENDING_SETTLEMENT}"
| "must_pass COMPLETED =
     {DRAFT, PENDING_VALIDATION, VALIDATED, SUBMITTED, ACCEPTED, FILLED, PENDING_SETTLEMENT, SETTLED}"
| "must_pass REJECTED = {DRAFT, PENDING_VALIDATION}"
| "must_pass CANCELLED = {DRAFT}"
| "must_pass EXPIRED = {DRAFT, PENDING_VALIDATION, VALIDATED, SUBMITTED}"

text \<open>A rank that every transition but the repeated partial fill increases.\<close>

fun rank :: "OrderLifecycleStatus \<Rightarrow> nat" where
  "rank DRAFT = 0"
| "rank PENDING_VALIDATION = 1"
| "rank VALIDATED = 2"
| "rank SUBMITTED = 3"
| "rank ACCEPTED = 4"
| "rank PARTIALLY_FILLED = 5"
| "rank FILLED = 6"
| "rank PENDING_SETTLEMENT = 7"
| "rank SETTLED = 8"
| "rank COMPLETED = 9"
| "rank REJECTED = 9"
| "rank CANCELLED = 9"
| "rank EXPIRED = 9"

lemma canTransition_must_pass:
  "canTransition s t \<Longrightarrow> must_pass t \<subseteq> insert s (must_pass s)"
  by (cases s) (auto simp: canTransition_def)

lemma canTransition_rank:
  "canTransition s t \<Longrightarrow> rank s < rank t \<or> s = PARTIALLY_FILLED \<and> t = PARTIALLY_FILLED"
  by (cases s) (auto simp: canTransition_def)

lemma lc_run_nonempty: "lc_run h \<Longrightarrow> h \<noteq> []"
  by (induction rule: lc_run.induct) auto

lemma lc_run_must_pass: "lc_run h \<Longrightarrow> must_pass (hd h) \<subseteq> set (tl h)"
  by (induction rule: lc_run.induct) (auto dest!: canTransition_must_pass)

lemma lc_run_suffix: "lc_run (h @ s # h') \<Longrightarrow> lc_run (s # h')"
proof (induction h)
  case (Cons t h)
  then have "lc_run (t # h @ s # h')" by simp
  then have "lc_run (h @ s # h')" by (rule lc_run_ConsE) auto
  then show ?case by (rule Cons.IH)
qed simp

lemma lc_run_member_must_pass:
  assumes "lc_run h" and "s \<in> set h"
  shows "must_pass s \<subseteq> set h"
proof -
  from assms(2) obtain a b where h: "h = a @ s # b" by (auto simp: in_set_conv_decomp)
  with assms(1) have "lc_run (s # b)" by (auto dest: lc_run_suffix)
  from lc_run_must_pass [OF this] h show ?thesis by auto
qed

text \<open>Bounded progress: the history without its repeated partial fills has at most ten entries.\<close>

lemma lc_run_length:
  "lc_run h \<Longrightarrow> length (filter (\<lambda>s. s \<noteq> PARTIALLY_FILLED) h) \<le> Suc (rank (hd h))"
proof (induction rule: lc_run.induct)
  case (step s h t)
  from canTransition_rank [OF step.hyps(2)] step.IH show ?case by auto
qed simp

text \<open>Only the newest status of a history can be terminal.\<close>

lemma lc_run_tl_not_terminal: "lc_run h \<Longrightarrow> \<forall>s \<in> set (tl h). s \<notin> set TERMINAL_STATES"
proof (induction rule: lc_run.induct)
  case (step s h t)
  then have "s \<notin> set TERMINAL_STATES"
    by (cases s) (auto simp: canTransition_def TERMINAL_STATES_def)
  with step.IH show ?case by auto
qed simp

section \<open>Properties\<close>

text \<open>C33. The life cycle is safe along every history the table allows: an order that is settled or
  completed has been validated, submitted, accepted by the broker and filled; a terminal status is
  never left; and once the entries \<open>PARTIALLY_FILLED\<close>, which may repeat without limit, are left out,
  a history has at most ten entries.\<close>

theorem order_history_safe:
  assumes "lc_run h"
  shows "(SETTLED \<in> set h \<or> COMPLETED \<in> set h \<longrightarrow>
        {VALIDATED, SUBMITTED, ACCEPTED, FILLED, PENDING_SETTLEMENT} \<subseteq> set h) \<and>
      (\<forall>s \<in> set (tl h). s \<notin> set TERMINAL_STATES) \<and>
      length (filter (\<lambda>s. s \<noteq> PARTIALLY_FILLED) h) \<le> 10"
proof (intro conjI)
  show "SETTLED \<in> set h \<or> COMPLETED \<in> set h \<longrightarrow>
      {VALIDATED, SUBMITTED, ACCEPTED, FILLED, PENDING_SETTLEMENT} \<subseteq> set h"
    using lc_run_member_must_pass [OF assms, of SETTLED] lc_run_member_must_pass [OF assms, of COMPLETED]
    by auto
  show "\<forall>s \<in> set (tl h). s \<notin> set TERMINAL_STATES"
    using assms by (rule lc_run_tl_not_terminal)
  have "rank (hd h) \<le> 9" by (cases "hd h") auto
  with lc_run_length [OF assms]
  show "length (filter (\<lambda>s. s \<noteq> PARTIALLY_FILLED) h) \<le> 10" by simp
qed

theorem order_history_safe_witness:
  "let h = [SETTLED, PENDING_SETTLEMENT, FILLED, PARTIALLY_FILLED, PARTIALLY_FILLED, ACCEPTED, SUBMITTED, VALIDATED,
      PENDING_VALIDATION, DRAFT]
   in lc_run h \<and> {VALIDATED, SUBMITTED, ACCEPTED, FILLED, PENDING_SETTLEMENT} \<subseteq> set h \<and>
     set (tl h) \<inter> set TERMINAL_STATES = {} \<and> length (filter (\<lambda>s. s \<noteq> PARTIALLY_FILLED) h) \<le> 10"
proof -
  let ?h = "[SETTLED, PENDING_SETTLEMENT, FILLED, PARTIALLY_FILLED, PARTIALLY_FILLED, ACCEPTED, SUBMITTED, VALIDATED,
      PENDING_VALIDATION, DRAFT]"
  have h: "lc_run ?h" by (intro lc_run.intros) (auto simp: canTransition_def)
  have "SETTLED \<in> set ?h" by simp
  with order_history_safe [OF h] h show ?thesis unfolding Let_def by blast
qed

text \<open>The three status sets agree with the transition table: a status has no successor exactly
  when it is listed as terminal, every cancellable status may move to \<open>CANCELLED\<close> (so the
  assertion in \<open>cancelOrder\<close> never fires), active and terminal statuses are disjoint, and an
  active status is one from which \<open>CANCELLED\<close> is allowed.\<close>

lemma status_sets_consistent:
  "(s \<in> set TERMINAL_STATES \<longleftrightarrow> (\<forall>t. \<not> canTransition s t)) \<and>
   (s \<notin> set CANCELLABLE_STATES \<or> assertTransition s CANCELLED = Inr ()) \<and>
   (s \<in> set ACTIVE_STATES \<longleftrightarrow> canTransition s CANCELLED) \<and>
   \<not> (s \<in> set ACTIVE_STATES \<and> s \<in> set TERMINAL_STATES)"
  by (cases s)
    (auto simp: canTransition_def assertTransition_def CANCELLABLE_STATES_def TERMINAL_STATES_def
      ACTIVE_STATES_def)

end
