(* ===== verification/TtlCache.thy ===== *)
theory TtlCache
  imports Prelude
begin

text \<open>
  The contract of the short-lived policy caches.  \<open>FeePolicyService\<close>, \<open>RiskPolicyService\<close> and
  \<open>PlatformFeeService\<close> each keep the last resolved configuration for sixty seconds and re-read the
  database afterwards or after an invalidation.  The locale states that contract once, with the
  client facts (freshness, stability, effect of an invalidation); each service's theory
  interprets it on its own code.
\<close>

definition CACHE_TTL_MS :: timestamp where
  "CACHE_TTL_MS = 60000"

locale ttl_cache =
  fixes cached :: "'c \<Rightarrow> 'k \<Rightarrow> ('v \<times> timestamp) option"
    and load :: "'src \<Rightarrow> 'k \<Rightarrow> 'v"
    and fetch :: "'src \<Rightarrow> 'c \<Rightarrow> timestamp \<Rightarrow> 'k \<Rightarrow> 'v \<times> 'c"
    and drop_key :: "'c \<Rightarrow> 'k \<Rightarrow> 'c"
    and cacheable :: "'k \<Rightarrow> bool"
  assumes fetch_hit:
      "cacheable k \<Longrightarrow> cached c k = Some (v, s) \<Longrightarrow> t - s < CACHE_TTL_MS \<Longrightarrow> fetch src c t k = (v, c)"
    and fetch_expired:
      "cacheable k \<Longrightarrow> cached c k = Some (v, s) \<Longrightarrow> \<not> t - s < CACHE_TTL_MS \<Longrightarrow>
        fst (fetch src c t k) = load src k \<and> cached (snd (fetch src c t k)) k = Some (load src k, t)"
    and fetch_miss:
      "cacheable k \<Longrightarrow> cached c k = None \<Longrightarrow>
        fst (fetch src c t k) = load src k \<and> cached (snd (fetch src c t k)) k = Some (load src k, t)"
    and fetch_uncacheable: "\<not> cacheable k \<Longrightarrow> fetch src c t k = (load src k, c)"
    and cached_drop: "cached (drop_key c k) k = None"
begin

text \<open>A result is what the database holds now, or what was resolved less than a minute ago.\<close>

lemma fetch_fresh:
  obtains "fst (fetch src c t k) = load src k"
  | v s where "cached c k = Some (v, s)" "t - s < CACHE_TTL_MS" "fst (fetch src c t k) = v"
proof (cases "cacheable k")
  case True
  show ?thesis
  proof (cases "cached c k")
    case None
    with True fetch_miss that(1) show ?thesis by blast
  next
    case (Some p)
    obtain v s where p: "p = (v, s)" by (cases p)
    show ?thesis
    proof (cases "t - s < CACHE_TTL_MS")
      case hit: True
      then have "fetch src c t k = (v, c)" using True Some p by (intro fetch_hit) auto
      with hit Some p that(2) show ?thesis by simp
    next
      case False
      with True Some p fetch_expired that(1) show ?thesis by blast
    qed
  qed
next
  case False
  with fetch_uncacheable that(1) show ?thesis by simp
qed

lemma fetch_after_drop: "fst (fetch src (drop_key c k) t k) = load src k"
  using fetch_miss [of k "drop_key c k"] fetch_uncacheable cached_drop by (cases "cacheable k") auto

lemma fetch_stable:
  assumes "cacheable k" and "cached c k = None \<or> (\<exists>v s. cached c k = Some (v, s) \<and> \<not> t - s < CACHE_TTL_MS)"
    and "t \<le> t'" and "t' - t < CACHE_TTL_MS"
  shows "fst (fetch src' (snd (fetch src c t k)) t' k) = fst (fetch src c t k)"
proof -
  have "fst (fetch src c t k) = load src k" and c: "cached (snd (fetch src c t k)) k = Some (load src k, t)"
    using assms(1,2) fetch_miss fetch_expired by blast+
  moreover have "fetch src' (snd (fetch src c t k)) t' k = (load src k, snd (fetch src c t k))"
    using assms(1,4) c by (intro fetch_hit)
  ultimately show ?thesis by simp
qed

end

end
