(* ===== verification/Fees.thy ===== *)
theory Fees
  imports TtlCache
begin

text \<open>
  The fee authority: \<^verbatim>\<open>src/modules/trading/domain/trading-fee.calculator.ts\<close> (commission tiers and
  statutory levies of a trade), \<^verbatim>\<open>src/modules/brokers/services/fee-policy.service.ts\<close> (the
  broker's schedule, its cache and the deposit fee) and
  \<^verbatim>\<open>src/modules/brokers/services/platform-fee.service.ts\<close> (the platform's cut of a commission).
  Configuration tables are lookup functions; the caches are explicit state.
\<close>

section \<open>Trading fees\<close>

datatype side = BUY | SELL

record TradingFees =
  brokerCommission :: rat
  secLevy :: rat
  mseLevy :: rat
  withholdingTax :: rat
  totalFees :: rat
  grossValue :: rat
  totalCost :: rat

record StatutoryLevies =
  secPct :: rat
  msePct :: rat
  withholdingPct :: rat

definition DEFAULT_STATUTORY_LEVIES :: StatutoryLevies where
  "DEFAULT_STATUTORY_LEVIES = \<lparr>secPct = 1 / 10, msePct = 1 / 10, withholdingPct = 0\<rparr>"

definition pctOf :: "runtime \<Rightarrow> rat \<Rightarrow> rat \<Rightarrow> rat" where
  "pctOf R gross pct = dmul R gross (ddiv R pct 100)"

record CommissionTier =
  minAmount :: rat
  maxAmount :: "rat option"
  ratePct :: rat
  minFee :: "rat option"

definition DEFAULT_COMMISSION_TIERS :: "CommissionTier list" where
  "DEFAULT_COMMISSION_TIERS =
     [\<lparr>minAmount = 0, maxAmount = None, ratePct = 17 / 10, minFee = Some 500\<rparr>]"

definition in_tier :: "rat \<Rightarrow> CommissionTier \<Rightarrow> bool" where
  "in_tier g t \<longleftrightarrow> g \<ge> minAmount t \<and> (case maxAmount t of None \<Rightarrow> True | Some m \<Rightarrow> g < m)"

text \<open>\<open>find(...) ?? schedule[schedule.length - 1]\<close>; the schedule is never empty where it is used.\<close>

definition select_tier :: "rat \<Rightarrow> CommissionTier list \<Rightarrow> CommissionTier" where
  "select_tier g schedule =
     (case List.find (in_tier g) schedule of Some t \<Rightarrow> t | None \<Rightarrow> last schedule)"

definition commissionForGross :: "runtime \<Rightarrow> rat \<Rightarrow> CommissionTier list \<Rightarrow> bool \<Rightarrow> rat" where
  "commissionForGross R gv tiers enabled =
     (if \<not> enabled then 0
      else
        let schedule = (if tiers \<noteq> [] then tiers else DEFAULT_COMMISSION_TIERS);
            gross = js R gv;
            tier = select_tier gross schedule;
            commission = dmul R gv (ddiv R (ratePct tier) 100)
        in case minFee tier of
             Some f \<Rightarrow> if commission < f then f else commission
           | None \<Rightarrow> commission)"

definition calculateTradingFees ::
  "runtime \<Rightarrow> rat \<Rightarrow> rat \<Rightarrow> side \<Rightarrow> CommissionTier list \<times> bool \<Rightarrow> StatutoryLevies \<Rightarrow> TradingFees" where
  "calculateTradingFees R price quantity sd commissionSchedule levies =
     (let gv = dmul R price quantity;
          bc = commissionForGross R gv (fst commissionSchedule) (snd commissionSchedule);
          sec = pctOf R gv (secPct levies);
          mse = pctOf R gv (msePct levies);
          wht = (if sd = SELL then pctOf R gv (withholdingPct levies) else 0);
          tf = dadd R (dadd R (dadd R bc sec) mse) wht;
          tc = (if sd = BUY then dadd R gv tf else dsub R gv tf)
      in \<lparr>brokerCommission = bc, secLevy = sec, mseLevy = mse, withholdingTax = wht,
          totalFees = tf, grossValue = gv, totalCost = tc\<rparr>)"

section \<open>Fee policy\<close>

datatype FeeKind = FIXED | PERCENT

record BrokerFeeConfig =
  cfg_commissionEnabled :: bool
  cfg_commissionTiers :: json
  cfg_depositFeeEnabled :: bool
  cfg_depositFeeKind :: FeeKind
  cfg_depositFeeValue :: rat
  cfg_depositFeeDescription :: "string option"
  cfg_secLevyPct :: rat
  cfg_mseLevyPct :: rat
  cfg_withholdingTaxPct :: rat

record ResolvedFeePolicy =
  fp_brokerId :: "uuid option"
  commissionEnabled :: bool
  commissionTiers :: "CommissionTier list"
  depositFeeEnabled :: bool
  depositFeeKind :: FeeKind
  depositFeeValue :: rat
  depositFeeDescription :: "string option"
  statutoryLevies :: StatutoryLevies

record DepositFeeBreakdown =
  grossAmount :: rat
  processingFee :: rat
  netAmount :: rat
  description :: "string option"

text \<open>
  An element of the JSON array is kept when \<open>minAmount\<close> and \<open>ratePct\<close> are numbers; the sort on
  \<open>minAmount\<close> is stable.  \<open>maxAmount\<close> and \<open>minFee\<close> are written as numbers or null.
\<close>

definition tier_of_json :: "json \<Rightarrow> CommissionTier option" where
  "tier_of_json j =
     (case (jnum (jfield ''minAmount'' j), jnum (jfield ''ratePct'' j)) of
        (Some lo, Some r) \<Rightarrow>
          Some \<lparr>minAmount = lo, maxAmount = jnum (jfield ''maxAmount'' j), ratePct = r,
            minFee = jnum (jfield ''minFee'' j)\<rparr>
      | _ \<Rightarrow> None)"

definition parseTiers :: "json \<Rightarrow> CommissionTier list" where
  "parseTiers raw =
     (case raw of
        JArr xs \<Rightarrow> sort_key minAmount (List.map_filter tier_of_json xs)
      | _ \<Rightarrow> [])"

definition default_fee_policy :: "uuid option \<Rightarrow> ResolvedFeePolicy" where
  "default_fee_policy b =
     \<lparr>fp_brokerId = b, commissionEnabled = True, commissionTiers = DEFAULT_COMMISSION_TIERS,
      depositFeeEnabled = False, depositFeeKind = PERCENT, depositFeeValue = 0,
      depositFeeDescription = None, statutoryLevies = DEFAULT_STATUTORY_LEVIES\<rparr>"

type_synonym fee_configs = "uuid \<Rightarrow> BrokerFeeConfig option"
type_synonym fee_cache = "uuid option \<Rightarrow> (ResolvedFeePolicy \<times> timestamp) option"

definition resolve_fee_policy :: "runtime \<Rightarrow> fee_configs \<Rightarrow> uuid option \<Rightarrow> ResolvedFeePolicy" where
  "resolve_fee_policy R cfgs brokerId =
     (case brokerId of
        None \<Rightarrow> default_fee_policy None
      | Some b \<Rightarrow>
          (case cfgs b of
             None \<Rightarrow> default_fee_policy (Some b)
           | Some cfg \<Rightarrow>
               (let tiers = parseTiers (cfg_commissionTiers cfg)
                in \<lparr>fp_brokerId = Some b, commissionEnabled = cfg_commissionEnabled cfg,
                    commissionTiers = (if tiers \<noteq> [] then tiers else DEFAULT_COMMISSION_TIERS),
                    depositFeeEnabled = cfg_depositFeeEnabled cfg,
                    depositFeeKind = cfg_depositFeeKind cfg,
                    depositFeeValue = cfg_depositFeeValue cfg,
                    depositFeeDescription = cfg_depositFeeDescription cfg,
                    statutoryLevies = \<lparr>secPct = js R (cfg_secLevyPct cfg),
                      msePct = js R (cfg_mseLevyPct cfg),
                      withholdingPct = js R (cfg_withholdingTaxPct cfg)\<rparr>\<rparr>)))"

definition fee_invalidate :: "fee_cache \<Rightarrow> uuid option \<Rightarrow> fee_cache" where
  "fee_invalidate cache brokerId = cache(brokerId := None)"

definition fee_forBroker ::
  "runtime \<Rightarrow> fee_configs \<Rightarrow> fee_cache \<Rightarrow> uuid option \<Rightarrow> ResolvedFeePolicy \<times> fee_cache" where
  "fee_forBroker R cfgs cache brokerId =
     (let load = resolve_fee_policy R cfgs brokerId
      in case cache brokerId of
           Some (policy, s) \<Rightarrow>
             if now R - s < CACHE_TTL_MS then (policy, cache)
             else (load, cache(brokerId := Some (load, now R)))
         | None \<Rightarrow> (load, cache(brokerId := Some (load, now R))))"

text \<open>\<open>users u\<close> is the user's row projected to \<open>brokerId\<close>: absent user or unassigned broker give null.\<close>

definition fee_forUser ::
  "runtime \<Rightarrow> fee_configs \<Rightarrow> (uuid \<Rightarrow> uuid option option) \<Rightarrow> fee_cache \<Rightarrow> uuid \<Rightarrow>
     ResolvedFeePolicy \<times> fee_cache" where
  "fee_forUser R cfgs users cache u =
     fee_forBroker R cfgs cache (case users u of None \<Rightarrow> None | Some b \<Rightarrow> b)"

definition tradingFees_of_policy ::
  "runtime \<Rightarrow> ResolvedFeePolicy \<Rightarrow> rat \<Rightarrow> rat \<Rightarrow> side \<Rightarrow> TradingFees" where
  "tradingFees_of_policy R policy price quantity sd =
     calculateTradingFees R price quantity sd (commissionTiers policy, commissionEnabled policy)
       (statutoryLevies policy)"

definition tradingFeesForUser ::
  "runtime \<Rightarrow> fee_configs \<Rightarrow> (uuid \<Rightarrow> uuid option option) \<Rightarrow> fee_cache \<Rightarrow> uuid \<Rightarrow> rat \<Rightarrow> rat \<Rightarrow> side \<Rightarrow>
     TradingFees \<times> fee_cache" where
  "tradingFeesForUser R cfgs users cache u price quantity sd =
     (let (policy, cache') = fee_forUser R cfgs users cache u
      in (tradingFees_of_policy R policy price quantity sd, cache'))"

definition depositBreakdown :: "runtime \<Rightarrow> ResolvedFeePolicy \<Rightarrow> rat \<Rightarrow> DepositFeeBreakdown" where
  "depositBreakdown R policy gross =
     (if \<not> depositFeeEnabled policy \<or> depositFeeValue policy \<le> 0
      then \<lparr>grossAmount = gross, processingFee = 0, netAmount = gross, description = None\<rparr>
      else
        let fee = (if depositFeeKind policy = PERCENT
                   then dmul R gross (ddiv R (depositFeeValue policy) 100)
                   else min (depositFeeValue policy) gross)
        in \<lparr>grossAmount = gross, processingFee = fee, netAmount = dsub R gross fee,
            description = depositFeeDescription policy\<rparr>)"

section \<open>Platform fee\<close>

text \<open>The \<open>platformConfig\<close> row projected to its rate, and the service's one-slot cache.\<close>

type_synonym platform_cache = "(rat \<times> timestamp) option"

definition platform_ratePct :: "runtime \<Rightarrow> rat option \<Rightarrow> platform_cache \<Rightarrow> rat \<times> platform_cache" where
  "platform_ratePct R row cache =
     (let load = (case row of Some r \<Rightarrow> r | None \<Rightarrow> 0)
      in case cache of
           Some (r, t) \<Rightarrow>
             if now R - t < CACHE_TTL_MS then (r, cache) else (load, Some (load, now R))
         | None \<Rightarrow> (load, Some (load, now R)))"

definition fee_of_rate :: "runtime \<Rightarrow> rat \<Rightarrow> rat \<Rightarrow> rat" where
  "fee_of_rate R rate bc =
     (if rate \<le> 0 \<or> bc \<le> 0 then 0 else half_away 4 (ddiv R (dmul R bc rate) 100))"

definition feeForCommission :: "runtime \<Rightarrow> rat option \<Rightarrow> platform_cache \<Rightarrow> rat \<Rightarrow> rat \<times> platform_cache" where
  "feeForCommission R row cache bc =
     (let (rate, cache') = platform_ratePct R row cache in (fee_of_rate R rate bc, cache'))"

definition setRate :: "runtime \<Rightarrow> rat option \<Rightarrow> platform_cache \<Rightarrow> rat \<Rightarrow> rat option \<times> platform_cache" where
  "setRate R row cache r = (Some (num4 R r), None)"

section \<open>The caches meet the contract\<close>

interpretation fee_cache: ttl_cache
  "\<lambda>c k. c k" "\<lambda>(R, cfgs) k. resolve_fee_policy R cfgs k"
  "\<lambda>(R, cfgs) c t k. fee_forBroker (R\<lparr>now := t\<rparr>) cfgs c k" fee_invalidate "\<lambda>_. True"
  by unfold_locales (auto simp: fee_forBroker_def fee_invalidate_def resolve_fee_policy_def Let_def
      split: option.splits)

interpretation platform_cache: ttl_cache
  "\<lambda>c (k::unit). c" "\<lambda>(R, row) k. case row of Some r \<Rightarrow> r | None \<Rightarrow> 0"
  "\<lambda>(R, row) c t k. platform_ratePct (R\<lparr>now := t\<rparr>) row c" "\<lambda>c k. None" "\<lambda>_. True"
  by unfold_locales (auto simp: platform_ratePct_def Let_def split: option.splits)

section \<open>Tier schedules\<close>

text \<open>A schedule as a broker writes it: the first tier starts at \<open>m\<close>, each next one where the
  previous ends, and the last is open-ended.\<close>

fun contiguous_from :: "rat \<Rightarrow> CommissionTier list \<Rightarrow> bool" where
  "contiguous_from m [] = False"
| "contiguous_from m [t] = (minAmount t = m \<and> maxAmount t = None)"
| "contiguous_from m (t # ts) =
     (minAmount t = m \<and>
      (case maxAmount t of None \<Rightarrow> False | Some M \<Rightarrow> m < M \<and> contiguous_from M ts))"

lemma contiguous_lower: "contiguous_from m ts \<Longrightarrow> t \<in> set ts \<Longrightarrow> m \<le> minAmount t"
proof (induction m ts rule: contiguous_from.induct)
  case (3 m t' u ts)
  then obtain M where "maxAmount t' = Some M" "m < M" "contiguous_from M (u # ts)" "minAmount t' = m"
    by (auto split: option.splits)
  with 3 show ?case by (auto dest: less_le_trans [THEN less_imp_le])
qed auto

lemma contiguous_select:
  "contiguous_from m ts \<Longrightarrow> m \<le> g \<Longrightarrow>
     \<exists>t. List.find (in_tier g) ts = Some t \<and> (\<forall>u \<in> set ts. in_tier g u \<longrightarrow> u = t)"
proof (induction m ts rule: contiguous_from.induct)
  case (3 m t u ts)
  then obtain M where M: "maxAmount t = Some M" "m < M" "contiguous_from M (u # ts)" "minAmount t = m"
    by (auto split: option.splits)
  show ?case
  proof (cases "g < M")
    case True
    have "\<not> in_tier g v" if "v \<in> set (u # ts)" for v
      using contiguous_lower [OF M(3) that] True by (auto simp: in_tier_def)
    with True M "3.prems"(2) show ?thesis by (auto simp: in_tier_def)
  next
    case False
    then have "\<not> in_tier g t" using M by (simp add: in_tier_def)
    moreover have "\<exists>v. List.find (in_tier g) (u # ts) = Some v \<and> (\<forall>w \<in> set (u # ts). in_tier g w \<longrightarrow> w = v)"
      using "3.IH" M False by auto
    ultimately show ?thesis by auto
  qed
qed (auto simp: in_tier_def)

lemma parseTiers_sorted: "sorted (map minAmount (parseTiers j))"
  by (cases j) (auto simp: parseTiers_def)

lemma resolve_tiers_nonempty: "commissionTiers (resolve_fee_policy R cfgs b) \<noteq> []"
  by (auto simp: resolve_fee_policy_def default_fee_policy_def DEFAULT_COMMISSION_TIERS_def Let_def
      split: option.splits)

section \<open>Exactness\<close>

text \<open>
  The reference: the trade's figures over exact rational arithmetic.  \<open>trade_in_range\<close> bounds what the
  validation service lets through: four-place prices, whole shares, at most fifty million
  Kwacha gross.  \<open>tier_ok\<close> and \<open>levies_ok\<close> are narrower than the settings form, which takes any
  number up to a hundred as a rate: rates of at most two places, floors of four places up to a million.
\<close>

definition exact_commission :: "rat \<Rightarrow> CommissionTier list \<Rightarrow> bool \<Rightarrow> rat" where
  "exact_commission gross tiers enabled =
     (if \<not> enabled then 0
      else let t = select_tier gross (if tiers \<noteq> [] then tiers else DEFAULT_COMMISSION_TIERS)
           in max (case minFee t of None \<Rightarrow> 0 | Some f \<Rightarrow> f) (gross * ratePct t / 100))"

definition pct_ok :: "rat \<Rightarrow> bool" where
  "pct_ok p \<longleftrightarrow> places 2 p \<and> 0 \<le> p \<and> p \<le> 100"

definition tier_ok :: "CommissionTier \<Rightarrow> bool" where
  "tier_ok t \<longleftrightarrow> pct_ok (ratePct t) \<and>
     (case minFee t of None \<Rightarrow> True | Some f \<Rightarrow> places 4 f \<and> 0 \<le> f \<and> f \<le> 1000000)"

definition levies_ok :: "StatutoryLevies \<Rightarrow> bool" where
  "levies_ok l \<longleftrightarrow> pct_ok (secPct l) \<and> pct_ok (msePct l) \<and> pct_ok (withholdingPct l)"

definition trade_in_range :: "rat \<Rightarrow> rat \<Rightarrow> bool" where
  "trade_in_range price quantity \<longleftrightarrow>
     places 4 price \<and> places 0 quantity \<and> 0 \<le> price \<and> 0 \<le> quantity \<and> price * quantity \<le> 50000000"

lemma default_tier_ok: "t \<in> set DEFAULT_COMMISSION_TIERS \<Longrightarrow> tier_ok t"
proof -
  have "places 2 (17 / 10)" by (rule placesI [where n = 170]) simp
  then show "t \<in> set DEFAULT_COMMISSION_TIERS \<Longrightarrow> tier_ok t"
    by (auto simp: DEFAULT_COMMISSION_TIERS_def tier_ok_def pct_ok_def)
qed

lemma select_tier_in: "ts \<noteq> [] \<Longrightarrow> select_tier g ts \<in> set ts"
  by (auto simp: select_tier_def find_Some_iff split: option.splits)

lemma schedule_tier_ok:
  assumes "\<forall>t \<in> set ts. tier_ok t"
  shows "tier_ok (select_tier g (if ts \<noteq> [] then ts else DEFAULT_COMMISSION_TIERS))"
proof (cases "ts = []")
  case True
  then show ?thesis
    using select_tier_in [of DEFAULT_COMMISSION_TIERS g] default_tier_ok
    by (simp add: DEFAULT_COMMISSION_TIERS_def)
next
  case False
  then show ?thesis using assms select_tier_in [of ts g] by simp
qed

lemma pct_bound: "0 \<le> gross \<Longrightarrow> pct_ok p \<Longrightarrow> gross * p / 100 \<le> gross \<and> 0 \<le> gross * p / 100"
  using mult_left_mono [of p 100 gross] by (auto simp: pct_ok_def)

context numeric_runtime
begin

lemma gross_exact:
  assumes "trade_in_range price quantity"
  shows "dmul R price quantity = price * quantity" and "places 4 (price * quantity)"
    and "0 \<le> price * quantity" and "price * quantity \<le> 50000000"
    and "js R (price * quantity) = price * quantity"
proof -
  have p: "places 4 (price * quantity)"
    using assms places_mult [of 4 price 0 quantity] by (simp add: trade_in_range_def)
  have b: "0 \<le> price * quantity" "price * quantity \<le> 50000000"
    using assms by (simp_all add: trade_in_range_def)
  from p b show "dmul R price quantity = price * quantity"
    by (auto simp: dmul_def intro!: rnd_places [of 4])
  from p b show "js R (price * quantity) = price * quantity"
    by (auto intro!: js_places [of 4])
qed (use assms places_mult [of 4 price 0 quantity] in \<open>simp_all add: trade_in_range_def\<close>)

lemma pctOf_exact:
  assumes "places 4 gross" "0 \<le> gross" "gross \<le> 50000000" "pct_ok p"
  shows "pctOf R gross p = gross * p / 100" and "places 8 (gross * p / 100)"
proof -
  have p4: "places 4 (p / 100)" using assms(4) places_div100 [of 2 p] by (simp add: pct_ok_def)
  have "\<bar>p / 100\<bar> * 10 ^ 4 < 10 ^ 20" using assms(4) by (simp add: pct_ok_def)
  with p4 have 1: "ddiv R p 100 = p / 100" unfolding ddiv_def by (rule rnd_places)
  show p8: "places 8 (gross * p / 100)" using places_mult [OF assms(1) p4] by simp
  have "\<bar>gross * p / 100\<bar> * 10 ^ 8 < 10 ^ 20" using pct_bound [OF assms(2,4)] assms(3) by simp
  with p8 have "rnd R (gross * p / 100) = gross * p / 100" by (rule rnd_places)
  then show "pctOf R gross p = gross * p / 100"
    unfolding pctOf_def dmul_def 1 times_divide_eq_right .
qed

lemma commission_exact:
  assumes "places 4 gross" "0 \<le> gross" "gross \<le> 50000000" "\<forall>t \<in> set ts. tier_ok t"
    and "js R gross = gross"
  shows "commissionForGross R gross ts e = exact_commission gross ts e"
    and "places 8 (exact_commission gross ts e)"
    and "0 \<le> exact_commission gross ts e" and "exact_commission gross ts e \<le> 51000000"
proof -
  let ?t = "select_tier gross (if ts \<noteq> [] then ts else DEFAULT_COMMISSION_TIERS)"
  have ok: "tier_ok ?t" by (rule schedule_tier_ok [OF assms(4)])
  then have r: "pct_ok (ratePct ?t)" by (simp add: tier_ok_def)
  note x = pctOf_exact [OF assms(1-3) r] pct_bound [OF assms(2) r]
  show "commissionForGross R gross ts e = exact_commission gross ts e"
    using x(1,3) unfolding commissionForGross_def exact_commission_def pctOf_def assms(5) Let_def
    by (auto split: option.splits)
  show "places 8 (exact_commission gross ts e)"
    using x(2) ok places_mono [of 4 _ 8]
    unfolding exact_commission_def Let_def tier_ok_def
    by (auto simp: max_def split: option.splits)
  show "0 \<le> exact_commission gross ts e" and "exact_commission gross ts e \<le> 51000000"
    using x(3) assms(3) ok unfolding exact_commission_def Let_def tier_ok_def
    by (auto simp: max_def split: option.splits)
qed

lemma rnd_fee_sum: "places 8 x \<Longrightarrow> \<bar>x\<bar> < 10 ^ 12 \<Longrightarrow> rnd R x = x"
  by (rule rnd_places [of 8]) simp_all

lemma fee_sums:
  assumes "places 8 c" "places 8 s" "places 8 m" "places 8 w" "places 8 g"
    and "0 \<le> c \<and> c \<le> 51000000" "0 \<le> s \<and> s \<le> g" "0 \<le> m \<and> m \<le> g" "0 \<le> w \<and> w \<le> g"
    and "g \<le> 50000000"
  shows "dadd R (dadd R (dadd R c s) m) w = c + s + m + w"
    and "dadd R g (c + s + m + w) = g + (c + s + m + w)"
    and "dsub R g (c + s + m + w) = g - (c + s + m + w)"
proof -
  have "rnd R (c + s) = c + s" "rnd R (c + s + m) = c + s + m" "rnd R (c + s + m + w) = c + s + m + w"
    using assms by (auto intro!: rnd_fee_sum places_add)
  then show "dadd R (dadd R (dadd R c s) m) w = c + s + m + w" by (simp add: dadd_def)
  show "dadd R g (c + s + m + w) = g + (c + s + m + w)"
    unfolding dadd_def using assms by (intro rnd_fee_sum places_add) auto
  show "dsub R g (c + s + m + w) = g - (c + s + m + w)"
    unfolding dsub_def using assms by (intro rnd_fee_sum places_diff places_add) auto
qed

lemma fees_exact:
  assumes range: "trade_in_range price quantity" and tiers: "\<forall>t \<in> set ts. tier_ok t" and lev: "levies_ok l"
  defines "g \<equiv> price * quantity"
  shows "calculateTradingFees R price quantity sd (ts, e) l =
    (let c = exact_commission g ts e; s = g * secPct l / 100; m = g * msePct l / 100;
         w = (if sd = SELL then g * withholdingPct l / 100 else 0)
     in \<lparr>brokerCommission = c, secLevy = s, mseLevy = m, withholdingTax = w,
         totalFees = c + s + m + w, grossValue = g,
         totalCost = (if sd = BUY then g + (c + s + m + w) else g - (c + s + m + w))\<rparr>)"
proof -
  note g = gross_exact [OF range, folded g_def]
  note c = commission_exact [OF g(2-4) tiers g(5), of e]
  have l: "pct_ok (secPct l)" "pct_ok (msePct l)" "pct_ok (withholdingPct l)"
    using lev by (simp_all add: levies_ok_def)
  note s = pctOf_exact [OF g(2-4) l(1)] and m = pctOf_exact [OF g(2-4) l(2)]
    and w = pctOf_exact [OF g(2-4) l(3)]
  define W where "W = (if sd = SELL then g * withholdingPct l / 100 else 0)"
  have W: "places 8 W" "0 \<le> W \<and> W \<le> g"
    using w(2) pct_bound [OF g(3) l(3)] g(3) by (auto simp: W_def)
  have W_eq: "(if sd = SELL then pctOf R g (withholdingPct l) else 0) = W"
    unfolding W_def w(1) ..
  have cb: "0 \<le> exact_commission g ts e \<and> exact_commission g ts e \<le> 51000000" using c(3,4) by simp
  have sb: "0 \<le> g * secPct l / 100 \<and> g * secPct l / 100 \<le> g"
    and mb: "0 \<le> g * msePct l / 100 \<and> g * msePct l / 100 \<le> g"
    using pct_bound [OF g(3) l(1)] pct_bound [OF g(3) l(2)] by blast+
  have g8: "places 8 g" using places_mono [OF g(2)] by simp
  note sums = fee_sums [OF c(2) s(2) m(2) W(1) g8 cb sb mb W(2) g(4)]
  show ?thesis
    unfolding calculateTradingFees_def Let_def g(1) fst_conv snd_conv c(1) s(1) m(1) W_eq sums
      W_def [symmetric] ..
qed

lemma deposit_exact:
  assumes "places 4 gross" "0 \<le> gross" "gross \<le> 10 ^ 9" "places 4 (depositFeeValue p)"
    "depositFeeKind p = PERCENT \<longrightarrow> depositFeeValue p \<le> 100"
  shows "netAmount (depositBreakdown R p gross) = gross - processingFee (depositBreakdown R p gross)"
    and "0 \<le> processingFee (depositBreakdown R p gross)"
    and "processingFee (depositBreakdown R p gross) \<le> gross"
    and "places 10 (processingFee (depositBreakdown R p gross))"
proof -
  let ?v = "depositFeeValue p"
  have pv: "places 6 (?v / 100)" using places_div100 [OF assms(4)] by simp
  have r: "gross * (?v / 100) \<le> gross \<and> 0 \<le> gross * (?v / 100)" if "0 < ?v" "?v \<le> 100"
    using that assms(2) mult_left_mono [of ?v 100 gross] by simp
  have f: "dmul R gross (ddiv R ?v 100) = gross * (?v / 100)" if "0 < ?v" "?v \<le> 100"
  proof -
    have "\<bar>?v / 100\<bar> * 10 ^ 6 < 10 ^ 20" using that by simp
    with pv have "ddiv R ?v 100 = ?v / 100" unfolding ddiv_def by (rule rnd_places)
    moreover have "rnd R (gross * (?v / 100)) = gross * (?v / 100)"
      using places_mult [OF assms(1) pv] r [OF that] assms(3) by (intro rnd_places [of 10]) simp_all
    ultimately show ?thesis by (simp only: dmul_def)
  qed
  have d: "dsub R gross x = gross - x" if "places 10 x" "0 \<le> x" "x \<le> gross" for x
    unfolding dsub_def using that assms(1-3) places_mono [OF assms(1), of 10]
    by (intro rnd_places [of 10]) (simp_all add: places_diff)
  define F where "F = dmul R gross (ddiv R ?v 100)"
  have F: "places 10 F" "0 \<le> F" "F \<le> gross" if "0 < ?v" "?v \<le> 100"
    using places_mult [OF assms(1) pv] r [OF that] unfolding F_def f [OF that] by simp_all
  have mp: "places 10 (min ?v gross)"
    using assms(1,4) places_mono [of 4 _ 10] by (simp add: min_def)
  show "netAmount (depositBreakdown R p gross) = gross - processingFee (depositBreakdown R p gross)"
    using d [OF F(1)] F d [OF mp] assms(2,5)
    by (auto simp: depositBreakdown_def Let_def F_def [symmetric])
  show "0 \<le> processingFee (depositBreakdown R p gross)"
    and "processingFee (depositBreakdown R p gross) \<le> gross"
    and "places 10 (processingFee (depositBreakdown R p gross))"
    using F mp assms(2,5) by (auto simp: depositBreakdown_def Let_def F_def [symmetric])
qed

end

section \<open>Properties\<close>

text \<open>The tier of a schedule for a gross value, said without the code's search: the first whose half-open
  range holds the value, or the last tier when none does.\<close>

definition tier_applies :: "rat \<Rightarrow> CommissionTier list \<Rightarrow> CommissionTier \<Rightarrow> bool" where
  "tier_applies g ts t \<longleftrightarrow>
     (let holds = (\<lambda>u. minAmount u \<le> g \<and> (\<forall>m. maxAmount u = Some m \<longrightarrow> g < m))
      in (\<exists>i < length ts. ts ! i = t \<and> holds t \<and> (\<forall>j < i. \<not> holds (ts ! j))) \<or>
         ((\<forall>u \<in> set ts. \<not> holds u) \<and> ts \<noteq> [] \<and> t = ts ! (length ts - 1)))"

lemma select_tier_applies:
  assumes "ts \<noteq> []"
  shows "tier_applies g ts (select_tier g ts)"
proof -
  have h: "(minAmount u \<le> g \<and> (\<forall>m. maxAmount u = Some m \<longrightarrow> g < m)) = in_tier g u" for u
    by (auto simp: in_tier_def split: option.splits)
  show ?thesis
    using assms
    by (auto simp: tier_applies_def Let_def h select_tier_def find_None_iff find_Some_iff last_conv_nth split: option.splits)
qed

text \<open>C31. Fee arithmetic is exact for a four-place price, whole shares and at most fifty million Kwacha
  gross, under a schedule whose rates have at most two places (at most a hundred percent) and whose
  floors have at most four places and are at most a million: the calculator returns the rational
  figures, namely the commission of the first tier whose half-open range holds the gross value (the
  last tier when none does) with that tier's floor, the two levies, withholding tax on a sale only,
  their sum, and gross plus fees for a buyer or gross minus fees for a seller.\<close>

theorem trading_fees_exact:
  assumes "numeric_runtime R" and "trade_in_range price quantity"
    and "\<forall>t \<in> set ts. tier_ok t" and "levies_ok l"
  shows "\<exists>t. tier_applies (price * quantity) (if ts = [] then DEFAULT_COMMISSION_TIERS else ts) t \<and>
    calculateTradingFees R price quantity sd (ts, e) l =
    (let g = price * quantity;
         c = (if e then max (case minFee t of None \<Rightarrow> 0 | Some f \<Rightarrow> f) (g * ratePct t / 100) else 0);
         s = g * secPct l / 100; m = g * msePct l / 100;
         w = (if sd = SELL then g * withholdingPct l / 100 else 0)
     in \<lparr>brokerCommission = c, secLevy = s, mseLevy = m, withholdingTax = w,
         totalFees = c + s + m + w, grossValue = g,
         totalCost = (if sd = BUY then g + (c + s + m + w) else g - (c + s + m + w))\<rparr>)"
proof -
  let ?ts = "if ts \<noteq> [] then ts else DEFAULT_COMMISSION_TIERS"
  have "?ts \<noteq> []" by (simp add: DEFAULT_COMMISSION_TIERS_def)
  from select_tier_applies [OF this, of "price * quantity"]
  have "tier_applies (price * quantity) (if ts = [] then DEFAULT_COMMISSION_TIERS else ts)
      (select_tier (price * quantity) ?ts)" by (simp split: if_splits)
  with numeric_runtime.fees_exact [OF assms, of sd e] show ?thesis
    by (intro exI [of _ "select_tier (price * quantity) ?ts"]) (simp add: Let_def exact_commission_def)
qed

text \<open>A gross value on the boundary of two tiers is charged at the upper tier's rate.\<close>

theorem trading_fees_exact_witness:
  "totalCost (calculateTradingFees (pg_runtime 0) 100 1000 SELL
     ([\<lparr>minAmount = 0, maxAmount = Some 100000, ratePct = 2, minFee = None\<rparr>,
       \<lparr>minAmount = 100000, maxAmount = None, ratePct = 1, minFee = Some 500\<rparr>], True) DEFAULT_STATUTORY_LEVIES) = 98800"
proof -
  let ?ts = "[\<lparr>minAmount = 0, maxAmount = Some 100000, ratePct = 2, minFee = None\<rparr>,
       \<lparr>minAmount = 100000, maxAmount = None, ratePct = 1, minFee = Some 500\<rparr>]"
  have 1: "trade_in_range 100 1000" by (simp add: trade_in_range_def)
  have 2: "levies_ok DEFAULT_STATUTORY_LEVIES"
    by (simp add: levies_ok_def pct_ok_def DEFAULT_STATUTORY_LEVIES_def places_def)
  have 3: "\<forall>t \<in> set ?ts. tier_ok t" by (simp add: tier_ok_def pct_ok_def)
  from trading_fees_exact [OF pg.numeric_runtime_axioms 1 3 2, of 0 SELL True] obtain t where
    t: "tier_applies 100000 ?ts t" and
    f: "totalCost (calculateTradingFees (pg_runtime 0) 100 1000 SELL (?ts, True) DEFAULT_STATUTORY_LEVIES) =
      99800 - max (case minFee t of None \<Rightarrow> 0 | Some f \<Rightarrow> f) (1000 * ratePct t)"
    by (auto simp: Let_def DEFAULT_STATUTORY_LEVIES_def)
  from t have "t = ?ts ! 1" by (auto simp: tier_applies_def Let_def less_Suc_eq nth_Cons')
  with f show ?thesis by simp
qed

text \<open>Tiers are half-open and leave no gap: in a contiguous schedule that starts at zero every
  non-negative gross value falls in exactly one tier, that tier is the one the commission uses, and
  a value on a boundary falls in the upper tier.\<close>

lemma tier_selection_unique:
  assumes "contiguous_from 0 ts" and "0 \<le> g"
  shows "select_tier g ts \<in> set ts \<and> in_tier g (select_tier g ts) \<and>
     (\<forall>u \<in> set ts. in_tier g u \<longrightarrow> u = select_tier g ts)"
proof -
  obtain t where t: "List.find (in_tier g) ts = Some t" "\<forall>u \<in> set ts. in_tier g u \<longrightarrow> u = t"
    using contiguous_select [OF assms] by blast
  have "t \<in> set ts" "in_tier g t" using t(1) by (auto simp: find_Some_iff)
  moreover have "select_tier g ts = t" using t(1) by (simp add: select_tier_def)
  ultimately show ?thesis using t(2) by blast
qed

text \<open>The deposit breakdown conserves money: what the payer is charged is the net credit plus the
  processing fee, and the fee is neither negative nor above the charge, for a fixed fee and for a
  percentage of at most one hundred.\<close>

lemma deposit_breakdown_conserves:
  assumes "numeric_runtime R" and "places 4 gross" and "0 \<le> gross" and "gross \<le> 10 ^ 9"
    and "places 4 (depositFeeValue p)"
    and "depositFeeKind p = PERCENT \<longrightarrow> depositFeeValue p \<le> 100"
  shows "let b = depositBreakdown R p gross
    in grossAmount b = gross \<and> netAmount b + processingFee b = gross \<and>
       0 \<le> processingFee b \<and> processingFee b \<le> gross"
proof -
  have "grossAmount (depositBreakdown R p gross) = gross"
    by (simp add: depositBreakdown_def Let_def)
  with numeric_runtime.deposit_exact [OF assms(1-6)] show ?thesis by (simp add: Let_def)
qed

text \<open>A fee change takes effect within a minute: after the settings screen invalidates a broker's
  entry the next resolution reads the database, and without an invalidation a resolved policy is
  the database's current one or one that was resolved less than sixty seconds ago.\<close>

lemma fee_policy_fresh:
  "fst (fee_forBroker R cfgs (fee_invalidate cache b) b) = resolve_fee_policy R cfgs b \<and>
   (fst (fee_forBroker R cfgs cache b) = resolve_fee_policy R cfgs b \<or>
    (\<exists>s. cache b = Some (fst (fee_forBroker R cfgs cache b), s) \<and> now R - s < CACHE_TTL_MS))"
proof
  have upd: "R\<lparr>now := now R\<rparr> = R" by simp
  show "fst (fee_forBroker R cfgs (fee_invalidate cache b) b) = resolve_fee_policy R cfgs b"
    using fee_cache.fetch_after_drop [of "(R, cfgs)" cache b "now R"] by simp
  show "fst (fee_forBroker R cfgs cache b) = resolve_fee_policy R cfgs b \<or>
    (\<exists>s. cache b = Some (fst (fee_forBroker R cfgs cache b), s) \<and> now R - s < CACHE_TTL_MS)"
    by (rule fee_cache.fetch_fresh [of "(R, cfgs)" cache "now R" b]) auto
qed

end
