(* ===== verification/Store.thy ===== *)
theory Store
  imports OrderLifecycle Fees
begin

text \<open>
  The database the services share: one record per table row (the columns the services read or
  write), one list per table in insertion order, and the queries and updates of
  \<^verbatim>\<open>src/modules/wallet/repositories/wallet.repository.ts\<close>; the trading repository's are in
  \<open>TradingRepo\<close>.  \<open>db_uid\<close> supplies the generated
  primary keys.  A \<open>Decimal(18,4)\<close> column is written through \<open>num4\<close>.  Emitted events are
  appended to \<open>db_outbox\<close>; the event listeners are separate operations.  The three cache fields
  are the memory of the policy services, which the same requests read and write.

  An operation inside a database transaction returns \<open>err + db \<times> 'a\<close>: an exception leaves no
  state behind, which is the rollback.  An operation outside a transaction returns
  \<open>(err + 'a) \<times> db\<close>: writes made before an exception stay.
\<close>

section \<open>Rows\<close>

datatype role = CUSTOMER | SUPER_ADMIN | COMPLIANCE_OFFICER | FINANCE_OFFICER | CUSTOMER_SUPPORT
  | MARKET_OPERATIONS | AUDITOR | BROKER

datatype kyc_status = KYC_NOT_SUBMITTED | KYC_PENDING | KYC_APPROVED | KYC_REJECTED
  | KYC_ADDITIONAL_DOCS | KYC_MANUAL_REVIEW

datatype tx_type = DEPOSIT | WITHDRAWAL | TRADE_BUY | TRADE_SELL | DIVIDEND_CREDIT
  | DIVIDEND_REINVESTMENT | FEE | REVERSAL | ADJUSTMENT

datatype tx_status = TX_PENDING | TX_PROCESSING | TX_COMPLETED | TX_FAILED | TX_REVERSED | TX_CANCELLED

datatype account_type = USER_WALLET | PLATFORM_CASH | PLATFORM_FEE_REVENUE | PLATFORM_SUSPENSE
  | EXCHANGE_SETTLEMENT

datatype direction = DEBIT | CREDIT

datatype res_status = ACTIVE | CONSUMED | RELEASED | RES_EXPIRED

datatype order_type = MARKET | LIMIT

text \<open>
  Exceptions: the HTTP class with the message.  A message built from figures is a constructor
  that carries them.
\<close>

datatype deposit_reason =
    TooManyDeposits "rat option" "rat option"
  | MaxPerDeposit rat rat
  | DailyLimit rat rat rat
  | MonthlyLimit rat rat rat

datatype msg =
    Msg string
  | RiskMsg "deposit_reason option"
  | FrozenMsg "string option"
  | InsufficientMsg rat rat
  | TransitionMsg OrderLifecycleStatus OrderLifecycleStatus
  | StatusMsg OrderLifecycleStatus
  | LimitMsg rat rat
  | SharesMsg rat rat rat

datatype err =
    BadRequest msg
  | NotFound msg
  | Forbidden msg
  | Conflict msg
  | Validation msg
  | InternalServerError msg
  | Unavailable msg
  | PlainError msg
  | PrismaError string

record user =
  u_id :: uuid
  u_role :: role
  u_brokerId :: "uuid option"
  u_kycStatus :: kyc_status
  u_deletedAt :: "timestamp option"

record broker =
  b_id :: uuid
  b_isActive :: bool

record wallet =
  w_id :: uuid
  w_userId :: uuid
  w_brokerId :: "uuid option"
  w_balance :: rat
  w_currency :: string
  w_isFrozen :: bool
  w_frozenReason :: "string option"
  w_dailyDepositLimit :: rat
  w_version :: nat

type_synonym metadata = "(string \<times> json) list"

record transaction =
  t_id :: uuid
  t_walletId :: uuid
  t_brokerId :: "uuid option"
  t_type :: tx_type
  t_status :: tx_status
  t_amount :: rat
  t_currency :: string
  t_idempotencyKey :: "string option"
  t_relatedOrderId :: "uuid option"
  t_metadata :: metadata
  t_processedAt :: "timestamp option"
  t_createdAt :: timestamp

record ledger_entry =
  l_id :: uuid
  l_transactionId :: uuid
  l_walletId :: "uuid option"
  l_accountType :: account_type
  l_direction :: direction
  l_amount :: rat
  l_balanceAfter :: rat
  l_createdAt :: timestamp

record reservation =
  r_id :: uuid
  r_walletId :: uuid
  r_orderId :: "uuid option"
  r_amount :: rat
  r_status :: res_status
  r_expiresAt :: "timestamp option"
  r_releasedAt :: "timestamp option"
  r_consumedAt :: "timestamp option"

record wallet_snapshot =
  ws_walletId :: uuid
  ws_snapshotDate :: timestamp
  ws_balance :: rat
  ws_reservedAmount :: rat
  ws_availableAmount :: rat

record stock =
  s_id :: uuid
  s_symbol :: string
  s_name :: string
  s_isActive :: bool

record stock_price =
  p_stockId :: uuid
  p_closePrice :: rat
  p_tradedAt :: timestamp

record order =
  o_id :: uuid
  o_userId :: uuid
  o_brokerId :: "uuid option"
  o_stockId :: uuid
  o_side :: side
  o_type :: order_type
  o_status :: OrderLifecycleStatus
  o_quantity :: rat
  o_filledQuantity :: rat
  o_limitPrice :: "rat option"
  o_averageFillPrice :: "rat option"
  o_totalFees :: rat
  o_totalCost :: rat
  o_idempotencyKey :: "string option"
  o_rejectionReason :: "msg option"
  o_brokerRef :: "string option"
  o_validatedAt :: "timestamp option"
  o_submittedAt :: "timestamp option"
  o_acceptedAt :: "timestamp option"
  o_filledAt :: "timestamp option"
  o_settledAt :: "timestamp option"
  o_cancelledAt :: "timestamp option"
  o_createdAt :: timestamp

record trade =
  tr_id :: uuid
  tr_orderId :: uuid
  tr_quantity :: rat
  tr_price :: rat
  tr_fee :: rat
  tr_commission :: rat
  tr_levies :: rat
  tr_platformFee :: rat
  tr_createdAt :: timestamp

record order_execution =
  ex_orderId :: uuid
  ex_quantity :: rat
  ex_price :: rat
  ex_fee :: rat
  ex_brokerRef :: string

record holding =
  h_userId :: uuid
  h_stockId :: uuid
  h_brokerId :: "uuid option"
  h_quantity :: rat
  h_averageCost :: rat

record settlement_record =
  sr_id :: uuid
  sr_tradeId :: uuid
  sr_status :: string
  sr_settlementDate :: timestamp
  sr_settledAt :: "timestamp option"

record trade_audit =
  a_orderId :: uuid
  a_userId :: uuid
  a_action :: string
  a_fromStatus :: "OrderLifecycleStatus option"
  a_toStatus :: "OrderLifecycleStatus option"

record OrderExecutedEvent =
  ev_orderId :: uuid
  ev_userId :: uuid
  ev_stockId :: uuid
  ev_stockSymbol :: string
  ev_side :: side
  ev_quantity :: rat
  ev_price :: rat
  ev_totalFees :: rat
  ev_totalCost :: rat
  ev_tradeId :: uuid

datatype event =
    OrderCreatedEvent uuid uuid string side rat order_type
  | OrderRejectedEvent uuid uuid msg
  | OrderCancelledEvent uuid uuid string
  | OrderExecuted OrderExecutedEvent
  | TradeSettledEvent uuid uuid uuid uuid string side rat rat uuid
  | WalletUpdated uuid tx_type rat rat
  | WithdrawalRejected uuid rat string
  | DividendPaid uuid uuid uuid rat rat rat
  | SplitApplied uuid uuid int int rat rat
  | BonusIssued uuid uuid rat rat

record DepositLimitRule =
  dr_enabled :: bool
  dr_method :: "string option"
  dr_kycStatus :: "string option"
  dr_perTransactionMax :: "rat option"
  dr_dailyMax :: "rat option"
  dr_monthlyMax :: "rat option"
  dr_velocityMaxCount :: "rat option"
  dr_velocityWindowMinutes :: "rat option"

record BrokerRiskConfig =
  rc_concentrationEnabled :: bool
  rc_maxPositionPct :: rat
  rc_warnPositionPct :: "rat option"
  rc_depositRules :: json

record ResolvedRiskPolicy =
  rp_brokerId :: "uuid option"
  concentrationEnabled :: bool
  maxPositionPct :: rat
  warnPositionPct :: "rat option"
  depositRules :: "DepositLimitRule list"

record platform_config =
  pc_platformCommissionPct :: rat
  pc_defaultBrokerId :: "uuid option"

text \<open>Treasury bills, corporate actions and saved cards.\<close>

datatype investment_status = INV_PENDING | INV_ACTIVE | INV_MATURED | INV_CANCELLED

record treasury_product =
  tp_id :: uuid
  tp_label :: string
  tp_tenorDays :: int
  tp_yieldPercent :: rat
  tp_minAmount :: rat
  tp_maxAmount :: "rat option"
  tp_currency :: string
  tp_riskLevel :: string
  tp_auctionDate :: "timestamp option"
  tp_issueDate :: "timestamp option"
  tp_maturityDate :: "timestamp option"
  tp_status :: string
  tp_isActive :: bool

record treasury_investment =
  ti_id :: uuid
  ti_userId :: uuid
  ti_productId :: uuid
  ti_status :: investment_status
  ti_amount :: rat
  ti_yieldPercent :: rat
  ti_earnings :: rat
  ti_maturityValue :: rat
  ti_maturityDate :: timestamp
  ti_createdAt :: timestamp

datatype action_type = CA_DIVIDEND | CA_STOCK_SPLIT | CA_REVERSE_SPLIT | CA_BONUS_ISSUE | CA_RIGHTS_ISSUE
  | CA_MERGER | CA_DELISTING

datatype action_status = CA_ANNOUNCED | CA_PENDING | CA_PROCESSING | CA_COMPLETED | CA_CANCELLED

datatype dividend_status = DV_ANNOUNCED | DV_PROCESSING | DV_CREDITED | DV_REINVESTED | DV_FAILED

text \<open>A title is free text or is built from the figure of a dividend.\<close>

datatype action_title = DividendTitle rat | TitleText string

record corporate_action =
  ca_id :: uuid
  ca_stockId :: uuid
  ca_type :: action_type
  ca_title :: action_title
  ca_description :: "string option"
  ca_status :: action_status
  ca_effectiveDate :: timestamp
  ca_processedAt :: "timestamp option"
  ca_createdAt :: timestamp

record dividend =
  dv_id :: uuid
  dv_corporateActionId :: uuid
  dv_stockId :: uuid
  dv_amountPerShare :: rat
  dv_withholdingTaxPct :: rat
  dv_exDividendDate :: timestamp
  dv_recordDate :: timestamp
  dv_paymentDate :: timestamp
  dv_status :: dividend_status
  dv_createdAt :: timestamp

record dividend_distribution =
  dd_id :: uuid
  dd_dividendId :: uuid
  dd_userId :: uuid
  dd_quantityHeld :: rat
  dd_grossAmount :: rat
  dd_taxWithheld :: rat
  dd_netAmount :: rat
  dd_reinvested :: bool
  dd_status :: dividend_status
  dd_processedAt :: "timestamp option"
  dd_createdAt :: timestamp

text \<open>A split and a bonus issue have the same columns; \<open>rt_price\<close> is the subscription price of a rights
  issue.\<close>

record share_ratio =
  rt_id :: uuid
  rt_corporateActionId :: uuid
  rt_stockId :: uuid
  rt_ratioFrom :: int
  rt_ratioTo :: int
  rt_price :: "rat option"
  rt_from :: timestamp
  rt_effective :: timestamp

record saved_card =
  sc_id :: uuid
  sc_userId :: uuid
  sc_last4 :: string
  sc_cardBrand :: string
  sc_cardholderName :: string
  sc_expiryMonth :: string
  sc_expiryYear :: string
  sc_cardNumberEncrypted :: "string option"
  sc_gatewayToken :: "string option"
  sc_tokenBrokerId :: "uuid option"
  sc_isDefault :: bool
  sc_createdAt :: timestamp

record payment_config =
  pm_provider :: string
  pm_baseUrl :: "string option"
  pm_apiVersion :: int
  pm_environment :: string
  pm_merchantId :: "string option"
  pm_apiPasswordEnc :: "string option"
  pm_isEnabled :: bool
  pm_require3ds :: bool

record db =
  db_uid :: nat
  db_users :: "user list"
  db_brokers :: "broker list"
  db_wallets :: "wallet list"
  db_transactions :: "transaction list"
  db_ledger :: "ledger_entry list"
  db_reservations :: "reservation list"
  db_walletSnapshots :: "wallet_snapshot list"
  db_stocks :: "stock list"
  db_prices :: "stock_price list"
  db_marketCalendar :: "(timestamp \<times> string) list"
  db_orders :: "order list"
  db_trades :: "trade list"
  db_executions :: "order_execution list"
  db_holdings :: "holding list"
  db_settlements :: "settlement_record list"
  db_audits :: "trade_audit list"
  db_platformConfig :: "platform_config option"
  db_feeConfigs :: "(uuid \<times> BrokerFeeConfig) list"
  db_riskConfigs :: "(uuid \<times> BrokerRiskConfig) list"
  db_feeCache :: fee_cache
  db_riskCache :: "uuid \<Rightarrow> (ResolvedRiskPolicy \<times> timestamp) option"
  db_platformCache :: platform_cache
  db_outbox :: "event list"
  db_products :: "treasury_product list"
  db_investments :: "treasury_investment list"
  db_actions :: "corporate_action list"
  db_dividends :: "dividend list"
  db_distributions :: "dividend_distribution list"
  db_splits :: "share_ratio list"
  db_bonuses :: "share_ratio list"
  db_rights :: "share_ratio list"
  db_savedCards :: "saved_card list"
  db_paymentConfigs :: "(uuid \<times> payment_config) list"

definition empty_db :: db where
  "empty_db =
     \<lparr>db_uid = 100, db_users = [], db_brokers = [], db_wallets = [], db_transactions = [],
      db_ledger = [], db_reservations = [], db_walletSnapshots = [], db_stocks = [], db_prices = [], db_marketCalendar = [],
      db_orders = [], db_trades = [], db_executions = [], db_holdings = [], db_settlements = [],
      db_audits = [], db_platformConfig = None, db_feeConfigs = [], db_riskConfigs = [],
      db_feeCache = (\<lambda>_. None), db_riskCache = (\<lambda>_. None), db_platformCache = None,
      db_outbox = [], db_products = [], db_investments = [], db_actions = [], db_dividends = [],
      db_distributions = [], db_splits = [], db_bonuses = [], db_rights = [], db_savedCards = [],
      db_paymentConfigs = []\<rparr>"

abbreviation emit :: "event \<Rightarrow> db \<Rightarrow> db" where
  "emit e s \<equiv> s\<lparr>db_outbox := db_outbox s @ [e]\<rparr>"

text \<open>A \<open>Date\<close> column keeps the UTC day of a timestamp.\<close>

definition date_only :: "timestamp \<Rightarrow> timestamp" where
  "date_only t = t div 86400000 * 86400000"

definition findUser :: "db \<Rightarrow> uuid \<Rightarrow> user option" where
  "findUser s u = List.find (\<lambda>x. u_id x = u) (db_users s)"

definition findBroker :: "db \<Rightarrow> uuid \<Rightarrow> broker option" where
  "findBroker s b = List.find (\<lambda>x. b_id x = b) (db_brokers s)"

text \<open>\<open>user?.brokerId ?? null\<close>\<close>

definition brokerIdOf :: "db \<Rightarrow> uuid \<Rightarrow> uuid option" where
  "brokerIdOf s u = (case findUser s u of None \<Rightarrow> None | Some x \<Rightarrow> u_brokerId x)"

text \<open>\<open>FeePolicyService.forUser\<close> and \<open>tradingFeesForUser\<close> over the tables and the service's cache.\<close>

definition feePolicyForUser :: "runtime \<Rightarrow> db \<Rightarrow> uuid \<Rightarrow> ResolvedFeePolicy \<times> db" where
  "feePolicyForUser R s u =
     (let (p, c) = fee_forUser R (map_of (db_feeConfigs s)) (\<lambda>x. map_option u_brokerId (findUser s x))
            (db_feeCache s) u
      in (p, s\<lparr>db_feeCache := c\<rparr>))"

definition tradingFeesFor :: "runtime \<Rightarrow> db \<Rightarrow> uuid \<Rightarrow> rat \<Rightarrow> rat \<Rightarrow> side \<Rightarrow> TradingFees \<times> db" where
  "tradingFeesFor R s u price quantity sd =
     (let (f, c) = tradingFeesForUser R (map_of (db_feeConfigs s))
            (\<lambda>x. map_option u_brokerId (findUser s x)) (db_feeCache s) u price quantity sd
      in (f, s\<lparr>db_feeCache := c\<rparr>))"

definition platformFeeFor :: "runtime \<Rightarrow> db \<Rightarrow> rat \<Rightarrow> rat \<times> db" where
  "platformFeeFor R s bc =
     (let (f, c) = feeForCommission R (map_option pc_platformCommissionPct (db_platformConfig s))
            (db_platformCache s) bc
      in (f, s\<lparr>db_platformCache := c\<rparr>))"

section \<open>Broker placement\<close>

text \<open>\<^verbatim>\<open>src/modules/auth/services/identity.service.ts\<close>, \<open>resolveDefaultBrokerId\<close> and \<open>ensureBroker\<close>.\<close>

definition resolveDefaultBrokerId :: "db \<Rightarrow> uuid option" where
  "resolveDefaultBrokerId s =
     (case db_platformConfig s of
        None \<Rightarrow> None
      | Some cfg \<Rightarrow>
          (case pc_defaultBrokerId cfg of
             None \<Rightarrow> None
           | Some b \<Rightarrow>
               (case findBroker s b of
                  None \<Rightarrow> None
                | Some br \<Rightarrow> if b_isActive br then Some b else None)))"

definition ensureBroker :: "db \<Rightarrow> uuid \<Rightarrow> bool \<times> db" where
  "ensureBroker s u =
     (case findUser s u of
        None \<Rightarrow> (False, s)
      | Some x \<Rightarrow>
          if u_deletedAt x \<noteq> None then (False, s)
          else if u_role x \<noteq> CUSTOMER then (True, s)
          else if u_brokerId x \<noteq> None then (True, s)
          else
            (case resolveDefaultBrokerId s of
               None \<Rightarrow> (False, s)
             | Some b \<Rightarrow>
                 (True,
                  s\<lparr>db_users := upd_where (\<lambda>y. u_id y = u \<and> u_brokerId y = None)
                        (\<lambda>y. y\<lparr>u_brokerId := Some b\<rparr>) (db_users s),
                    db_wallets := upd_where (\<lambda>w. w_userId w = u \<and> w_brokerId w = None)
                        (\<lambda>w. w\<lparr>w_brokerId := Some b\<rparr>) (db_wallets s)\<rparr>)))"

section \<open>Wallet repository\<close>

definition findWalletByUserId :: "db \<Rightarrow> uuid \<Rightarrow> wallet option" where
  "findWalletByUserId s u = List.find (\<lambda>w. w_userId w = u) (db_wallets s)"

definition findWalletById :: "db \<Rightarrow> uuid \<Rightarrow> wallet option" where
  "findWalletById s i = List.find (\<lambda>w. w_id w = i) (db_wallets s)"

definition new_wallet :: "uuid \<Rightarrow> uuid \<Rightarrow> string \<Rightarrow> uuid option \<Rightarrow> wallet" where
  "new_wallet i u cur b =
     \<lparr>w_id = i, w_userId = u, w_brokerId = b, w_balance = 0, w_currency = cur, w_isFrozen = False,
      w_frozenReason = None, w_dailyDepositLimit = 5000000, w_version = 0\<rparr>"

text \<open>One wallet per user: the unique index on \<open>userId\<close> makes a second \<open>create\<close> throw P2002.\<close>

definition createWallet :: "db \<Rightarrow> uuid \<Rightarrow> string \<Rightarrow> err + db \<times> uuid" where
  "createWallet s u cur =
     (if findWalletByUserId s u \<noteq> None then Inl (PrismaError ''P2002'')
      else Inr (s\<lparr>db_uid := Suc (db_uid s),
             db_wallets := db_wallets s @ [new_wallet (db_uid s) u cur (brokerIdOf s u)]\<rparr>, db_uid s))"

text \<open>
  \<open>wallet.update({ where: { id, version }, data: { balance: { increment }, version: { increment: 1 } } })\<close>:
  Prisma throws P2025 when no row matches.  A decrement is the increment of the negated amount.
\<close>

definition walletIncrement :: "runtime \<Rightarrow> db \<Rightarrow> uuid \<Rightarrow> nat \<Rightarrow> rat \<Rightarrow> err + db" where
  "walletIncrement R s i ver delta =
     (if \<exists>w \<in> set (db_wallets s). w_id w = i \<and> w_version w = ver
      then Inr (s\<lparr>db_wallets := upd_where (\<lambda>w. w_id w = i)
             (\<lambda>w. w\<lparr>w_balance := num4 R (w_balance w + delta), w_version := Suc (w_version w)\<rparr>)
             (db_wallets s)\<rparr>)
      else Inl (PrismaError ''P2025''))"

definition updateWalletBalance :: "runtime \<Rightarrow> db \<Rightarrow> uuid \<Rightarrow> rat \<Rightarrow> nat \<Rightarrow> err + db" where
  "updateWalletBalance R s i newBalance ver =
     (if \<exists>w \<in> set (db_wallets s). w_id w = i \<and> w_version w = ver
      then Inr (s\<lparr>db_wallets := upd_where (\<lambda>w. w_id w = i)
             (\<lambda>w. w\<lparr>w_balance := num4 R newBalance, w_version := Suc (w_version w)\<rparr>) (db_wallets s)\<rparr>)
      else Inl (PrismaError ''P2025''))"

definition freezeWallet :: "db \<Rightarrow> uuid \<Rightarrow> string \<Rightarrow> err + db" where
  "freezeWallet s i reason =
     (if findWalletById s i = None then Inl (PrismaError ''P2025'')
      else Inr (s\<lparr>db_wallets := upd_where (\<lambda>w. w_id w = i)
         (\<lambda>w. w\<lparr>w_isFrozen := True, w_frozenReason := Some reason\<rparr>) (db_wallets s)\<rparr>))"

definition unfreezeWallet :: "db \<Rightarrow> uuid \<Rightarrow> err + db" where
  "unfreezeWallet s i =
     (if findWalletById s i = None then Inl (PrismaError ''P2025'')
      else Inr (s\<lparr>db_wallets := upd_where (\<lambda>w. w_id w = i)
         (\<lambda>w. w\<lparr>w_isFrozen := False, w_frozenReason := None\<rparr>) (db_wallets s)\<rparr>))"

text \<open>The unique index on \<open>(walletId, idempotencyKey)\<close>: a second row with a key throws P2002; rows
  without a key never clash.\<close>

definition tx_key_taken :: "db \<Rightarrow> uuid \<Rightarrow> string option \<Rightarrow> bool" where
  "tx_key_taken s wid key \<longleftrightarrow>
     key \<noteq> None \<and> (\<exists>t \<in> set (db_transactions s). t_walletId t = wid \<and> t_idempotencyKey t = key)"

definition insertTransaction ::
  "runtime \<Rightarrow> db \<Rightarrow> uuid \<Rightarrow> uuid option \<Rightarrow> tx_type \<Rightarrow> tx_status \<Rightarrow> rat \<Rightarrow> string option \<Rightarrow> uuid option \<Rightarrow>
     metadata \<Rightarrow> timestamp option \<Rightarrow> err + db \<times> uuid" where
  "insertTransaction R s wid broker ty st amt key oid meta proc =
     (if tx_key_taken s wid key then Inl (PrismaError ''P2002'')
      else Inr (s\<lparr>db_uid := Suc (db_uid s),
        db_transactions := db_transactions s @
          [\<lparr>t_id = db_uid s, t_walletId = wid, t_brokerId = broker, t_type = ty, t_status = st,
            t_amount = num4 R amt, t_currency = ''MWK'', t_idempotencyKey = key,
            t_relatedOrderId = oid, t_metadata = meta, t_processedAt = proc,
            t_createdAt = now R\<rparr>]\<rparr>, db_uid s))"

text \<open>\<open>createTransaction\<close> without an explicit broker stamps the wallet owner's broker.\<close>

definition createTransaction ::
  "runtime \<Rightarrow> db \<Rightarrow> uuid \<Rightarrow> tx_type \<Rightarrow> rat \<Rightarrow> string option \<Rightarrow> uuid option \<Rightarrow> metadata \<Rightarrow> err + db \<times> uuid" where
  "createTransaction R s wid ty amt key oid meta =
     (let broker = (case findWalletById s wid of None \<Rightarrow> None | Some w \<Rightarrow> brokerIdOf s (w_userId w))
      in insertTransaction R s wid broker ty TX_PENDING amt key oid meta None)"

definition updateTransaction :: "db \<Rightarrow> uuid \<Rightarrow> (transaction \<Rightarrow> transaction) \<Rightarrow> db" where
  "updateTransaction s i f = s\<lparr>db_transactions := upd_where (\<lambda>t. t_id t = i) f (db_transactions s)\<rparr>"

definition findTransactionById :: "db \<Rightarrow> uuid \<Rightarrow> transaction option" where
  "findTransactionById s i = List.find (\<lambda>t. t_id t = i) (db_transactions s)"

definition findTransactionByIdempotencyKey :: "db \<Rightarrow> uuid \<Rightarrow> string \<Rightarrow> transaction option" where
  "findTransactionByIdempotencyKey s wid key =
     List.find (\<lambda>t. t_walletId t = wid \<and> t_idempotencyKey t = Some key) (db_transactions s)"

text \<open>\<open>orderBy: { createdAt: 'desc' }, take, skip\<close>, with the total count.\<close>

definition page_desc :: "('a \<Rightarrow> timestamp) \<Rightarrow> nat \<Rightarrow> nat \<Rightarrow> 'a list \<Rightarrow> 'a list" where
  "page_desc key limit offset xs = take limit (drop offset (sort_key (\<lambda>x. - key x) xs))"

definition findUserTransactions :: "db \<Rightarrow> uuid \<Rightarrow> nat \<Rightarrow> nat \<Rightarrow> transaction list \<times> nat" where
  "findUserTransactions s wid limit offset =
     (let rows = filter (\<lambda>t. t_walletId t = wid \<and> t_status t = TX_COMPLETED) (db_transactions s)
      in (page_desc t_createdAt limit offset rows, length rows))"

definition createLedgerEntry ::
  "runtime \<Rightarrow> db \<Rightarrow> uuid \<Rightarrow> uuid option \<Rightarrow> account_type \<Rightarrow> direction \<Rightarrow> rat \<Rightarrow> rat \<Rightarrow> db" where
  "createLedgerEntry R s tid wid acct dir amt after =
     s\<lparr>db_uid := Suc (db_uid s),
       db_ledger := db_ledger s @
         [\<lparr>l_id = db_uid s, l_transactionId = tid, l_walletId = wid, l_accountType = acct,
           l_direction = dir, l_amount = num4 R amt, l_balanceAfter = num4 R after,
           l_createdAt = now R\<rparr>]\<rparr>"

definition findLedgerEntriesForWallet :: "db \<Rightarrow> uuid \<Rightarrow> nat \<Rightarrow> nat \<Rightarrow> ledger_entry list" where
  "findLedgerEntriesForWallet s wid limit offset =
     page_desc l_createdAt limit offset (filter (\<lambda>l. l_walletId l = Some wid) (db_ledger s))"

definition pending_of :: "uuid \<Rightarrow> tx_type \<Rightarrow> transaction \<Rightarrow> bool" where
  "pending_of wid ty t \<longleftrightarrow> t_walletId t = wid \<and> t_type t = ty \<and> t_status t \<in> {TX_PENDING, TX_PROCESSING}"

definition sumPendingTransactions :: "db \<Rightarrow> uuid \<Rightarrow> rat \<times> rat" where
  "sumPendingTransactions s wid =
     (sum_where (pending_of wid DEPOSIT) t_amount (db_transactions s),
      sum_where (pending_of wid WITHDRAWAL) t_amount (db_transactions s))"

definition wallet_entry :: "uuid \<Rightarrow> direction \<Rightarrow> ledger_entry \<Rightarrow> bool" where
  "wallet_entry wid dir l \<longleftrightarrow>
     l_walletId l = Some wid \<and> l_accountType l = USER_WALLET \<and> l_direction l = dir"

definition sumLedgerBalance :: "runtime \<Rightarrow> db \<Rightarrow> uuid \<Rightarrow> rat" where
  "sumLedgerBalance R s wid =
     dsub R (sum_where (wallet_entry wid CREDIT) l_amount (db_ledger s))
       (sum_where (wallet_entry wid DEBIT) l_amount (db_ledger s))"

definition createReservation ::
  "runtime \<Rightarrow> db \<Rightarrow> uuid \<Rightarrow> uuid option \<Rightarrow> rat \<Rightarrow> timestamp option \<Rightarrow> uuid \<times> db" where
  "createReservation R s wid oid amt expires =
     (db_uid s,
      s\<lparr>db_uid := Suc (db_uid s),
        db_reservations := db_reservations s @
          [\<lparr>r_id = db_uid s, r_walletId = wid, r_orderId = oid, r_amount = num4 R amt,
            r_status = ACTIVE, r_expiresAt = expires, r_releasedAt = None, r_consumedAt = None\<rparr>]\<rparr>)"

definition active_of :: "uuid \<Rightarrow> reservation \<Rightarrow> bool" where
  "active_of wid r \<longleftrightarrow> r_walletId r = wid \<and> r_status r = ACTIVE"

definition findActiveReservations :: "db \<Rightarrow> uuid \<Rightarrow> reservation list" where
  "findActiveReservations s wid = filter (active_of wid) (db_reservations s)"

definition findReservationByOrderId :: "db \<Rightarrow> uuid \<Rightarrow> reservation option" where
  "findReservationByOrderId s oid =
     List.find (\<lambda>r. r_orderId r = Some oid \<and> r_status r = ACTIVE) (db_reservations s)"

definition sumActiveReservations :: "db \<Rightarrow> uuid \<Rightarrow> rat" where
  "sumActiveReservations s wid = sum_where (active_of wid) r_amount (db_reservations s)"

definition repo_consumeReservation :: "runtime \<Rightarrow> db \<Rightarrow> uuid \<Rightarrow> db" where
  "repo_consumeReservation R s i =
     s\<lparr>db_reservations := upd_where (\<lambda>r. r_id r = i)
         (\<lambda>r. r\<lparr>r_status := CONSUMED, r_consumedAt := Some (now R)\<rparr>) (db_reservations s)\<rparr>"

definition repo_releaseReservation :: "runtime \<Rightarrow> db \<Rightarrow> uuid \<Rightarrow> db" where
  "repo_releaseReservation R s i =
     s\<lparr>db_reservations := upd_where (\<lambda>r. r_id r = i)
         (\<lambda>r. r\<lparr>r_status := RELEASED, r_releasedAt := Some (now R)\<rparr>) (db_reservations s)\<rparr>"

definition stale :: "runtime \<Rightarrow> reservation \<Rightarrow> bool" where
  "stale R r \<longleftrightarrow> r_status r = ACTIVE \<and> (case r_expiresAt r of None \<Rightarrow> False | Some e \<Rightarrow> e < now R)"

definition expireReservations :: "runtime \<Rightarrow> db \<Rightarrow> db" where
  "expireReservations R s =
     s\<lparr>db_reservations := upd_where (stale R)
         (\<lambda>r. r\<lparr>r_status := RES_EXPIRED, r_releasedAt := Some (now R)\<rparr>) (db_reservations s)\<rparr>"

definition upsertSnapshot :: "runtime \<Rightarrow> db \<Rightarrow> uuid \<Rightarrow> timestamp \<Rightarrow> rat \<Rightarrow> rat \<Rightarrow> rat \<Rightarrow> db" where
  "upsertSnapshot R s wid date bal res avail =
     (let same = (\<lambda>x. ws_walletId x = wid \<and> ws_snapshotDate x = date)
      in s\<lparr>db_walletSnapshots :=
           (if \<exists>x \<in> set (db_walletSnapshots s). same x
            then upd_where same
              (\<lambda>x. x\<lparr>ws_balance := num4 R bal, ws_reservedAmount := num4 R res,
                 ws_availableAmount := num4 R avail\<rparr>) (db_walletSnapshots s)
            else db_walletSnapshots s @
              [\<lparr>ws_walletId = wid, ws_snapshotDate = date, ws_balance = num4 R bal,
                ws_reservedAmount = num4 R res, ws_availableAmount = num4 R avail\<rparr>])\<rparr>)"

definition findSnapshots :: "db \<Rightarrow> uuid \<Rightarrow> nat \<Rightarrow> wallet_snapshot list" where
  "findSnapshots s wid limit =
     page_desc ws_snapshotDate limit 0 (filter (\<lambda>x. ws_walletId x = wid) (db_walletSnapshots s))"

end
