(* ===== verification/RiskPolicy.thy ===== *)
theory RiskPolicy
  imports Store
begin

text \<open>
  Broker risk constraints: \<^verbatim>\<open>src/modules/brokers/services/risk-policy.service.ts\<close>.  The policy of a
  broker with its cache, the concentration check on a purchase and the deposit check that combines
  the broker's rules with the wallet's own daily limit.  The investor-facing sentences are
  constructors that carry the figures the sentence quotes.
\<close>

section \<open>Policies\<close>

fun jstr :: "json \<Rightarrow> string option" where
  "jstr (JStr x) = Some x"
| "jstr _ = None"

text \<open>\<open>Number(v)\<close> of a setting: a number, a boolean, or a string that is a decimal literal.  Null, absent
  and empty fields stand for no limit.  Any other string or value is not a number in the code; the
  model has no such limit and reads it as none.\<close>

definition dec_digit :: "char \<Rightarrow> bool" where
  "dec_digit c \<longleftrightarrow> 48 \<le> (of_char c :: nat) \<and> (of_char c :: nat) \<le> 57"

definition dec_value :: "string \<Rightarrow> rat" where
  "dec_value ds = foldl (\<lambda>n c. 10 * n + of_nat (of_char c - 48)) 0 ds"

definition decimal_literal :: "string \<Rightarrow> rat option" where
  "decimal_literal cs =
     (let neg = (case cs of c # _ \<Rightarrow> c = CHR ''-'' | [] \<Rightarrow> False);
          ds = (if neg then tl cs else cs);
          whole = takeWhile dec_digit ds;
          rest = dropWhile dec_digit ds;
          frac = (case rest of c # r \<Rightarrow> r | [] \<Rightarrow> []);
          v = dec_value whole + dec_value frac / 10 ^ length frac
      in if (whole = [] \<and> frac = []) \<or> \<not> list_all dec_digit frac \<or> (rest \<noteq> [] \<and> hd rest \<noteq> CHR ''.'') then None
         else Some (if neg then - v else v))"

fun js_limit :: "json \<Rightarrow> rat option" where
  "js_limit (JNum x) = Some x"
| "js_limit (JBool b) = Some (if b then 1 else 0)"
| "js_limit (JStr cs) = decimal_literal cs"
| "js_limit _ = None"

text \<open>A configured object becomes a rule, and so does a nested array, which has none of the fields; anything
  else in the array is skipped.\<close>

definition deposit_rule_of :: "json \<Rightarrow> DepositLimitRule" where
  "deposit_rule_of r =
     \<lparr>dr_enabled = (jfield ''enabled'' r \<noteq> JBool False),
      dr_method = jstr (jfield ''method'' r),
      dr_kycStatus = jstr (jfield ''kycStatus'' r),
      dr_perTransactionMax = js_limit (jfield ''perTransactionMax'' r),
      dr_dailyMax = js_limit (jfield ''dailyMax'' r),
      dr_monthlyMax = js_limit (jfield ''monthlyMax'' r),
      dr_velocityMaxCount = js_limit (jfield ''velocityMaxCount'' r),
      dr_velocityWindowMinutes = js_limit (jfield ''velocityWindowMinutes'' r)\<rparr>"

fun parseDepositRule :: "json \<Rightarrow> DepositLimitRule option" where
  "parseDepositRule (JObj kvs) = Some (deposit_rule_of (JObj kvs))"
| "parseDepositRule (JArr xs) = Some (deposit_rule_of (JArr xs))"
| "parseDepositRule _ = None"

definition parseDepositRules :: "json \<Rightarrow> DepositLimitRule list" where
  "parseDepositRules j = (case j of JArr xs \<Rightarrow> List.map_filter parseDepositRule xs | _ \<Rightarrow> [])"

definition default_risk_policy :: "uuid option \<Rightarrow> ResolvedRiskPolicy" where
  "default_risk_policy b =
     \<lparr>rp_brokerId = b, concentrationEnabled = False, maxPositionPct = 100, warnPositionPct = None,
      depositRules = []\<rparr>"

definition resolve_risk_policy :: "(uuid \<Rightarrow> BrokerRiskConfig option) \<Rightarrow> uuid option \<Rightarrow> ResolvedRiskPolicy" where
  "resolve_risk_policy cfgs brokerId =
     (case brokerId of
        None \<Rightarrow> default_risk_policy None
      | Some b \<Rightarrow>
          (case cfgs b of
             None \<Rightarrow> default_risk_policy (Some b)
           | Some row \<Rightarrow>
               \<lparr>rp_brokerId = Some b, concentrationEnabled = rc_concentrationEnabled row,
                maxPositionPct = rc_maxPositionPct row, warnPositionPct = rc_warnPositionPct row,
                depositRules = parseDepositRules (rc_depositRules row)\<rparr>))"

type_synonym risk_cache = "uuid \<Rightarrow> (ResolvedRiskPolicy \<times> timestamp) option"

definition risk_invalidate :: "risk_cache \<Rightarrow> uuid \<Rightarrow> risk_cache" where
  "risk_invalidate cache b = cache(b := None)"

definition risk_forBroker ::
  "(uuid \<Rightarrow> BrokerRiskConfig option) \<Rightarrow> risk_cache \<Rightarrow> timestamp \<Rightarrow> uuid option \<Rightarrow>
     ResolvedRiskPolicy \<times> risk_cache" where
  "risk_forBroker cfgs cache t brokerId =
     (let load = resolve_risk_policy cfgs brokerId
      in case brokerId of
           None \<Rightarrow> (load, cache)
         | Some b \<Rightarrow>
             (case cache b of
                Some (policy, s) \<Rightarrow>
                  if t - s < CACHE_TTL_MS then (policy, cache)
                  else (load, cache(b := Some (load, t)))
              | None \<Rightarrow> (load, cache(b := Some (load, t)))))"

interpretation risk_cache: ttl_cache
  "\<lambda>c k. case k of None \<Rightarrow> None | Some b \<Rightarrow> c b" resolve_risk_policy risk_forBroker
  "\<lambda>c k. case k of None \<Rightarrow> c | Some b \<Rightarrow> risk_invalidate c b" "\<lambda>k. k \<noteq> None"
  by unfold_locales (auto simp: risk_forBroker_def risk_invalidate_def Let_def split: option.splits)

definition riskPolicyForUser :: "runtime \<Rightarrow> db \<Rightarrow> uuid \<Rightarrow> ResolvedRiskPolicy \<times> db" where
  "riskPolicyForUser R s u =
     (let (p, c) = risk_forBroker (map_of (db_riskConfigs s)) (db_riskCache s) (now R) (brokerIdOf s u)
      in (p, s\<lparr>db_riskCache := c\<rparr>))"

section \<open>Concentration\<close>

datatype concentration_status = OK | WARNING | BLOCKED

record ConcentrationCheck =
  cc_enabled :: bool
  cc_maxPct :: rat
  cc_warnPct :: "rat option"
  cc_currentPct :: rat
  cc_postOrderPct :: rat
  cc_maxAdditionalValue :: "rat option"
  cc_status :: concentration_status

definition latestPrice :: "db \<Rightarrow> uuid \<Rightarrow> rat option" where
  "latestPrice s sid =
     (case page_desc p_tradedAt 1 0 (filter (\<lambda>p. p_stockId p = sid) (db_prices s)) of
        [] \<Rightarrow> None | p # _ \<Rightarrow> Some (p_closePrice p))"

text \<open>One round of the loop over the holdings: the value of all positions and of this stock's.\<close>

definition add_position :: "runtime \<Rightarrow> db \<Rightarrow> uuid \<Rightarrow> holding \<Rightarrow> rat \<times> rat \<Rightarrow> rat \<times> rat" where
  "add_position R s sid h acc =
     (case latestPrice s (h_stockId h) of
        None \<Rightarrow> acc
      | Some price \<Rightarrow>
          (let v = dmul R (h_quantity h) price
           in (dadd R (fst acc) v, if h_stockId h = sid then dadd R (snd acc) v else snd acc)))"

definition js_round2 :: "runtime \<Rightarrow> rat \<Rightarrow> rat" where
  "js_round2 R x = ndiv R (of_int \<lfloor>nmul R x 100 + 1 / 2\<rfloor>) 100"

definition checkBuyConcentration :: "runtime \<Rightarrow> db \<Rightarrow> uuid \<Rightarrow> uuid \<Rightarrow> rat \<Rightarrow> ConcentrationCheck \<times> db" where
  "checkBuyConcentration R s userId stockId orderGross =
     (let (policy, s') = riskPolicyForUser R s userId
      in if \<not> concentrationEnabled policy
         then (\<lparr>cc_enabled = False, cc_maxPct = 100, cc_warnPct = None, cc_currentPct = 0,
                cc_postOrderPct = 0, cc_maxAdditionalValue = None, cc_status = OK\<rparr>, s')
         else
           let hs = filter (\<lambda>h. h_userId h = userId \<and> h_quantity h > 0) (db_holdings s);
               (holdingsValue, positionValue) = fold (add_position R s stockId) hs (0, 0);
               cash = (case findWalletByUserId s userId of None \<Rightarrow> 0 | Some w \<Rightarrow> w_balance w);
               totalAssets = dadd R holdingsValue cash;
               postPosition = dadd R positionValue orderGross;
               currentPct = (if totalAssets > 0
                 then js R (dmul R (ddiv R positionValue totalAssets) 100) else 0);
               postPct = (if totalAssets > 0
                 then js R (dmul R (ddiv R postPosition totalAssets) 100) else 100);
               maxPct = js R (maxPositionPct policy);
               warnPct = map_option (js R) (warnPositionPct policy);
               L = ndiv R maxPct 100;
               maxAdditional = (if L < 1
                 then Some (max 0 (ndiv R
                   (of_int \<lfloor>nmul R (nsub R (nmul R L (js R totalAssets)) (js R positionValue)) 100\<rfloor>) 100))
                 else None);
               status = (if postPct > nadd R maxPct (1 / 10 ^ 9) then BLOCKED
                 else case warnPct of Some w \<Rightarrow> if postPct > w then WARNING else OK | None \<Rightarrow> OK)
           in (\<lparr>cc_enabled = True, cc_maxPct = maxPct, cc_warnPct = warnPct,
                cc_currentPct = js_round2 R currentPct, cc_postOrderPct = js_round2 R postPct,
                cc_maxAdditionalValue = maxAdditional, cc_status = status\<rparr>, s'))"

section \<open>Deposit limits\<close>

record DepositCheck =
  dc_allowed :: bool
  dc_reason :: "deposit_reason option"
  dc_perTransactionMax :: "rat option"
  dc_dailyLimit :: "rat option"
  dc_dailyUsed :: rat
  dc_dailyRemaining :: "rat option"
  dc_monthlyLimit :: "rat option"
  dc_monthlyUsed :: rat
  dc_monthlyRemaining :: "rat option"
  dc_velocityMaxCount :: "rat option"
  dc_velocityWindowMinutes :: "rat option"
  dc_velocityUsed :: rat
  dc_maxAllowedNow :: "rat option"

fun kyc_name :: "kyc_status \<Rightarrow> string" where
  "kyc_name KYC_NOT_SUBMITTED = ''NOT_SUBMITTED''"
| "kyc_name KYC_PENDING = ''PENDING''"
| "kyc_name KYC_APPROVED = ''APPROVED''"
| "kyc_name KYC_REJECTED = ''REJECTED''"
| "kyc_name KYC_ADDITIONAL_DOCS = ''ADDITIONAL_DOCS''"
| "kyc_name KYC_MANUAL_REVIEW = ''MANUAL_REVIEW''"

text \<open>A JavaScript string is truthy when it is present and not empty.\<close>

definition truthy :: "string option \<Rightarrow> bool" where
  "truthy x \<longleftrightarrow> x \<noteq> None \<and> x \<noteq> Some []"

definition rule_applies :: "string option \<Rightarrow> string \<Rightarrow> DepositLimitRule \<Rightarrow> bool" where
  "rule_applies method kyc r \<longleftrightarrow>
     dr_enabled r \<and>
     \<not> (truthy (dr_method r) \<and> truthy method \<and> dr_method r \<noteq> method) \<and>
     \<not> (truthy (dr_method r) \<and> \<not> truthy method) \<and>
     \<not> (truthy (dr_kycStatus r) \<and> dr_kycStatus r \<noteq> Some kyc)"

definition usage_row :: "uuid \<Rightarrow> transaction \<Rightarrow> bool" where
  "usage_row wid t \<longleftrightarrow> t_walletId t = wid \<and> t_type t = DEPOSIT \<and> t_status t \<in> {TX_PENDING, TX_COMPLETED}"

text \<open>\<open>metadata->>'processingFee'\<close>, zero when absent.\<close>

definition meta_fee :: "transaction \<Rightarrow> rat" where
  "meta_fee t = (case jdec (jfield ''processingFee'' (JObj (t_metadata t))) of None \<Rightarrow> 0 | Some x \<Rightarrow> x)"

definition grossSum :: "runtime \<Rightarrow> db \<Rightarrow> uuid option \<Rightarrow> timestamp \<Rightarrow> rat" where
  "grossSum R s wid since =
     (case wid of
        None \<Rightarrow> 0
      | Some i \<Rightarrow> js R (sum_where (\<lambda>t. usage_row i t \<and> t_createdAt t \<ge> since)
            (\<lambda>t. t_amount t + meta_fee t) (db_transactions s)))"

definition minOf :: "rat option list \<Rightarrow> rat option" where
  "minOf xs = (case List.map_filter id xs of [] \<Rightarrow> None | y # ys \<Rightarrow> Some (foldl min y ys))"

definition velocity_count :: "runtime \<Rightarrow> db \<Rightarrow> uuid option \<Rightarrow> rat \<Rightarrow> nat" where
  "velocity_count R s wid window =
     (case wid of
        None \<Rightarrow> 0
      | Some i \<Rightarrow> length (filter (\<lambda>t. usage_row i t \<and>
            t_createdAt t \<ge> \<lfloor>of_int (now R) - window * 60000\<rfloor>) (db_transactions s)))"

record velocity =
  v_maxCount :: "rat option"
  v_window :: "rat option"
  v_used :: rat
  v_violated :: bool

definition velocity_step :: "runtime \<Rightarrow> db \<Rightarrow> uuid option \<Rightarrow> DepositLimitRule \<Rightarrow> velocity \<Rightarrow> velocity" where
  "velocity_step R s wid r v =
     (case (dr_velocityMaxCount r, dr_velocityWindowMinutes r) of
        (Some m, Some win) \<Rightarrow>
          (let count = of_nat (velocity_count R s wid win);
               tighter = (case v_maxCount v of None \<Rightarrow> True
                 | Some vm \<Rightarrow> nsub R m count < nsub R vm (v_used v));
               v' = (if tighter then v\<lparr>v_maxCount := Some m, v_window := Some win, v_used := count\<rparr> else v)
           in v'\<lparr>v_violated := v_violated v \<or> count \<ge> m\<rparr>)
      | _ \<Rightarrow> v)"

definition remaining_of :: "runtime \<Rightarrow> rat option \<Rightarrow> rat \<Rightarrow> rat option" where
  "remaining_of R limit used = map_option (\<lambda>l. max 0 (nsub R l used)) limit"

definition deposit_verdict ::
  "rat \<Rightarrow> velocity \<Rightarrow> rat option \<Rightarrow> rat option \<Rightarrow> rat \<Rightarrow> rat option \<Rightarrow> rat option \<Rightarrow> rat \<Rightarrow> rat option \<Rightarrow>
     deposit_reason option" where
  "deposit_verdict amt v perTx dLim dUsed dRem mLim mUsed mRem =
     (if amt > 0 then
        if v_violated v then Some (TooManyDeposits (v_maxCount v) (v_window v))
        else if perTx \<noteq> None \<and> amt > the perTx then Some (MaxPerDeposit (the perTx) amt)
        else if dRem \<noteq> None \<and> amt > the dRem then Some (DailyLimit (the dLim) dUsed (the dRem))
        else if mRem \<noteq> None \<and> amt > the mRem then Some (MonthlyLimit (the mLim) mUsed (the mRem))
        else None
      else None)"

definition applicable_rules :: "db \<Rightarrow> ResolvedRiskPolicy \<Rightarrow> uuid \<Rightarrow> string option \<Rightarrow> DepositLimitRule list" where
  "applicable_rules s policy u method =
     filter (rule_applies method
       (case findUser s u of None \<Rightarrow> ''NOT_SUBMITTED'' | Some x \<Rightarrow> kyc_name (u_kycStatus x)))
       (depositRules policy)"

definition checkDeposit :: "runtime \<Rightarrow> db \<Rightarrow> uuid \<Rightarrow> rat \<Rightarrow> string option \<Rightarrow> DepositCheck \<times> db" where
  "checkDeposit R s u amt0 method =
     (let (policy, s') = riskPolicyForUser R s u;
          wallet = findWalletByUserId s u;
          wid = map_option w_id wallet;
          dailyUsed = grossSum R s wid (dayStart R (now R));
          monthlyUsed = grossSum R s wid (monthStart R (now R));
          applicable = applicable_rules s policy u method;
          perTx = minOf (map dr_perTransactionMax applicable);
          dailyLimit = minOf (map dr_dailyMax applicable @ [map_option (js R \<circ> w_dailyDepositLimit) wallet]);
          monthlyLimit = minOf (map dr_monthlyMax applicable);
          v = fold (velocity_step R s wid) applicable
                \<lparr>v_maxCount = None, v_window = None, v_used = 0, v_violated = False\<rparr>;
          dailyRemaining = remaining_of R dailyLimit dailyUsed;
          monthlyRemaining = remaining_of R monthlyLimit monthlyUsed;
          reason = deposit_verdict (js R amt0) v perTx dailyLimit dailyUsed dailyRemaining
                     monthlyLimit monthlyUsed monthlyRemaining
      in (\<lparr>dc_allowed = (reason = None), dc_reason = reason, dc_perTransactionMax = perTx,
           dc_dailyLimit = dailyLimit, dc_dailyUsed = dailyUsed, dc_dailyRemaining = dailyRemaining,
           dc_monthlyLimit = monthlyLimit, dc_monthlyUsed = monthlyUsed,
           dc_monthlyRemaining = monthlyRemaining, dc_velocityMaxCount = v_maxCount v,
           dc_velocityWindowMinutes = v_window v, dc_velocityUsed = v_used v,
           dc_maxAllowedNow = minOf [perTx, dailyRemaining, monthlyRemaining]\<rparr>, s'))"

section \<open>Lemmas\<close>

lemma foldl_min:
  fixes y :: rat
  shows "foldl min y ys \<in> insert y (set ys) \<and> (\<forall>z \<in> insert y (set ys). foldl min y ys \<le> z)"
proof (induction ys arbitrary: y)
  case (Cons x ys)
  from Cons [of "min y x"] show ?case by (auto simp: min_def split: if_splits)
qed simp

lemma set_map_filter_id: "set (List.map_filter id xs) = {x. Some x \<in> set xs}"
  by (induction xs) (auto simp: List.map_filter_simps split: option.splits)

lemma Some_in_map: "Some x \<in> set (map f rs) \<longleftrightarrow> (\<exists>r \<in> set rs. f r = Some x)"
  by (induction rs) auto

lemma minOf_None: "minOf xs = None \<longleftrightarrow> (\<forall>x. Some x \<notin> set xs)"
  using set_map_filter_id [of xs] by (auto simp: minOf_def split: list.splits)

lemma minOf_Some: "minOf xs = Some m \<Longrightarrow> Some m \<in> set xs \<and> (\<forall>x. Some x \<in> set xs \<longrightarrow> m \<le> x)"
proof -
  assume m: "minOf xs = Some m"
  then obtain y ys where ys: "List.map_filter id xs = y # ys" "m = foldl min y ys"
    by (auto simp: minOf_def split: list.splits)
  then have "{x. Some x \<in> set xs} = insert y (set ys)"
    using set_map_filter_id [of xs] by simp
  with foldl_min [of y ys] ys(2) show ?thesis by blast
qed

text \<open>A bound under the most restrictive of several limits is a bound under each of them, also
  through a monotone map such as \<open>limit - used\<close>.\<close>

lemma minOf_bound:
  fixes f :: "rat \<Rightarrow> rat"
  assumes "\<And>x y. x \<le> y \<Longrightarrow> f x \<le> f y"
  shows "(\<forall>m. minOf xs = Some m \<longrightarrow> a \<le> f m) \<longleftrightarrow> (\<forall>x. Some x \<in> set xs \<longrightarrow> a \<le> f x)"
proof (cases "minOf xs")
  case None
  with minOf_None [of xs] show ?thesis by simp
next
  case (Some m)
  note m = minOf_Some [OF this]
  have "a \<le> f x" if "a \<le> f m" and "Some x \<in> set xs" for x
    using m that assms [of m x] by auto
  with m Some show ?thesis by auto
qed

definition velocity_exceeded :: "runtime \<Rightarrow> db \<Rightarrow> uuid option \<Rightarrow> DepositLimitRule \<Rightarrow> bool" where
  "velocity_exceeded R s wid r \<longleftrightarrow>
     (\<exists>m win. dr_velocityMaxCount r = Some m \<and> dr_velocityWindowMinutes r = Some win \<and>
        m \<le> of_nat (velocity_count R s wid win))"

lemma velocity_step_violated:
  "v_violated (velocity_step R s wid r v) \<longleftrightarrow> v_violated v \<or> velocity_exceeded R s wid r"
  by (auto simp: velocity_step_def velocity_exceeded_def Let_def split: option.splits)

lemma velocity_fold_violated:
  "v_violated (fold (velocity_step R s wid) rs v) \<longleftrightarrow>
     v_violated v \<or> (\<exists>r \<in> set rs. velocity_exceeded R s wid r)"
  by (induction rs arbitrary: v) (auto simp: velocity_step_violated)

text \<open>The rule of the service in one line each: what a deposit of \<open>a\<close> must satisfy under a rule, given
  what the wallet has already used today and this month.\<close>

definition rule_allows :: "runtime \<Rightarrow> db \<Rightarrow> uuid option \<Rightarrow> rat \<Rightarrow> DepositLimitRule \<Rightarrow> bool" where
  "rule_allows R s wid a r \<longleftrightarrow>
     \<not> velocity_exceeded R s wid r \<and>
     (\<forall>l. dr_perTransactionMax r = Some l \<longrightarrow> a \<le> l) \<and>
     (\<forall>l. dr_dailyMax r = Some l \<longrightarrow> a \<le> nsub R l (grossSum R s wid (dayStart R (now R)))) \<and>
     (\<forall>l. dr_monthlyMax r = Some l \<longrightarrow> a \<le> nsub R l (grossSum R s wid (monthStart R (now R))))"

lemma deposit_verdict_None:
  "0 < amt \<Longrightarrow> deposit_verdict amt v perTx dLim dUsed dRem mLim mUsed mRem = None \<longleftrightarrow>
     \<not> v_violated v \<and> (\<forall>l. perTx = Some l \<longrightarrow> amt \<le> l) \<and> (\<forall>l. dRem = Some l \<longrightarrow> amt \<le> l) \<and>
     (\<forall>l. mRem = Some l \<longrightarrow> amt \<le> l)"
  by (auto simp: deposit_verdict_def)

lemma remaining_bound:
  "0 < a \<Longrightarrow> (\<forall>l. remaining_of R limit used = Some l \<longrightarrow> a \<le> l) \<longleftrightarrow>
     (\<forall>l. limit = Some l \<longrightarrow> a \<le> nsub R l used)"
  by (cases limit) (auto simp: remaining_of_def)

lemma minOf3_bound:
  "(\<forall>m. minOf [x, y, z] = Some m \<longrightarrow> a \<le> m) \<longleftrightarrow>
     (\<forall>m. x = Some m \<longrightarrow> a \<le> m) \<and> (\<forall>m. y = Some m \<longrightarrow> a \<le> m) \<and> (\<forall>m. z = Some m \<longrightarrow> a \<le> m)"
  using minOf_bound [of "\<lambda>x. x" "[x, y, z]" a] by auto

definition check_rules :: "runtime \<Rightarrow> db \<Rightarrow> uuid \<Rightarrow> string option \<Rightarrow> DepositLimitRule list" where
  "check_rules R s u method = applicable_rules s (fst (riskPolicyForUser R s u)) u method"

lemma checkDeposit_allowed:
  "0 < js R a \<Longrightarrow> dc_allowed (fst (checkDeposit R s u a method)) \<longleftrightarrow>
     (\<forall>r \<in> set (check_rules R s u method).
        \<not> velocity_exceeded R s (map_option w_id (findWalletByUserId s u)) r) \<and>
     (\<forall>m. dc_maxAllowedNow (fst (checkDeposit R s u b method)) = Some m \<longrightarrow> js R a \<le> m)"
  by (simp add: checkDeposit_def check_rules_def Let_def split_beta deposit_verdict_None
      minOf3_bound velocity_fold_violated)

context numeric_runtime
begin

lemma nsub_bound:
  "(\<forall>m. minOf xs = Some m \<longrightarrow> a \<le> nsub R m used) \<longleftrightarrow> (\<forall>x. Some x \<in> set xs \<longrightarrow> a \<le> nsub R x used)"
  by (rule minOf_bound) (rule nsub_mono, auto)

lemma checkDeposit_rules:
  assumes "0 < js R a"
  shows "dc_allowed (fst (checkDeposit R s u a method)) \<longleftrightarrow>
     (\<forall>r \<in> set (check_rules R s u method).
        rule_allows R s (map_option w_id (findWalletByUserId s u)) (js R a) r) \<and>
     (\<forall>w. findWalletByUserId s u = Some w \<longrightarrow>
        js R a \<le> nsub R (js R (w_dailyDepositLimit w)) (grossSum R s (Some (w_id w)) (dayStart R (now R))))"
proof -
  have *: "(\<forall>m. minOf xs = Some m \<longrightarrow> js R a \<le> m) \<longleftrightarrow> (\<forall>x. Some x \<in> set xs \<longrightarrow> js R a \<le> x)" for xs
    by (rule minOf_bound)
  let ?rs = "check_rules R s u method" and ?w = "findWalletByUserId s u"
  have "dc_allowed (fst (checkDeposit R s u a method)) \<longleftrightarrow>
      (\<forall>r \<in> set ?rs. \<not> velocity_exceeded R s (map_option w_id ?w) r) \<and>
      (\<forall>x. Some x \<in> set (map dr_perTransactionMax ?rs) \<longrightarrow> js R a \<le> x) \<and>
      (\<forall>x. Some x \<in> set (map dr_dailyMax ?rs) \<or> Some x = map_option (js R \<circ> w_dailyDepositLimit) ?w \<longrightarrow>
         js R a \<le> nsub R x (grossSum R s (map_option w_id ?w) (dayStart R (now R)))) \<and>
      (\<forall>x. Some x \<in> set (map dr_monthlyMax ?rs) \<longrightarrow>
         js R a \<le> nsub R x (grossSum R s (map_option w_id ?w) (monthStart R (now R))))"
    using assms
    by (simp add: checkDeposit_def check_rules_def Let_def split_beta deposit_verdict_None
        remaining_bound nsub_bound * velocity_fold_violated del: set_map) auto
  also have "\<dots> \<longleftrightarrow> (\<forall>r \<in> set ?rs. rule_allows R s (map_option w_id ?w) (js R a) r) \<and>
      (\<forall>w. ?w = Some w \<longrightarrow> js R a \<le> nsub R (js R (w_dailyDepositLimit w))
         (grossSum R s (Some (w_id w)) (dayStart R (now R))))"
    unfolding Some_in_map rule_allows_def by (cases ?w) (auto; blast)+
  finally show ?thesis .
qed

end

section \<open>Properties\<close>

text \<open>C32. The deposit check combines every bound and the most restrictive one wins: a positive deposit
  is allowed exactly when each applicable broker rule allows it (its count of deposits in the
  window is not reached, the amount is within its per-deposit limit and within what is left of its
  daily and monthly limits) and it is within what is left of the wallet's own daily limit.\<close>

theorem deposit_check_most_restrictive:
  assumes "numeric_runtime R" and "0 < js R a"
  shows "dc_allowed (fst (checkDeposit R s u a method)) \<longleftrightarrow>
     (\<forall>r \<in> set (check_rules R s u method).
        rule_allows R s (map_option w_id (findWalletByUserId s u)) (js R a) r) \<and>
     (\<forall>w. findWalletByUserId s u = Some w \<longrightarrow>
        js R a \<le> nsub R (js R (w_dailyDepositLimit w)) (grossSum R s (Some (w_id w)) (dayStart R (now R))))"
  using assms by (rule numeric_runtime.checkDeposit_rules)

definition sample_limits_db :: db where
  "sample_limits_db = empty_db
     \<lparr>db_users := [\<lparr>u_id = 1, u_role = CUSTOMER, u_brokerId = Some 7, u_kycStatus = KYC_APPROVED,
        u_deletedAt = None\<rparr>],
      db_wallets := [new_wallet 2 1 ''MWK'' (Some 7)],
      db_riskConfigs := [(7, \<lparr>rc_concentrationEnabled = False, rc_maxPositionPct = 100,
        rc_warnPositionPct = None,
        rc_depositRules = JArr [JObj [(''dailyMax'', JNum 9000)],
          JObj [(''perTransactionMax'', JNum 4000), (''method'', JStr ''CARD'')]]\<rparr>)]\<rparr>"

theorem deposit_check_most_restrictive_witness:
  "dc_allowed (fst (checkDeposit (pg_runtime 0) sample_limits_db 1 4000 (Some ''CARD''))) \<and>
   length (check_rules (pg_runtime 0) sample_limits_db 1 (Some ''CARD'')) = 2 \<and>
   rule_allows (pg_runtime 0) sample_limits_db (Some 2) 4000
     (check_rules (pg_runtime 0) sample_limits_db 1 (Some ''CARD'') ! 1) \<and>
   \<not> dc_allowed (fst (checkDeposit (pg_runtime 0) sample_limits_db 1 4001 (Some ''CARD'')))"
proof -
  have a: "0 < js (pg_runtime 0) 4000" and j: "js (pg_runtime 0) 4000 = 4000" by code_simp+
  have b: "dc_allowed (fst (checkDeposit (pg_runtime 0) sample_limits_db 1 4000 (Some ''CARD''))) \<and>
    \<not> dc_allowed (fst (checkDeposit (pg_runtime 0) sample_limits_db 1 4001 (Some ''CARD'')))"
    by code_simp
  have l: "length (check_rules (pg_runtime 0) sample_limits_db 1 (Some ''CARD'')) = 2" by code_simp
  have w: "map_option w_id (findWalletByUserId sample_limits_db 1) = Some 2" by code_simp
  from b deposit_check_most_restrictive [OF pg.numeric_runtime_axioms a, of sample_limits_db 1 "Some ''CARD''"]
  have "\<forall>r \<in> set (check_rules (pg_runtime 0) sample_limits_db 1 (Some ''CARD'')).
      rule_allows (pg_runtime 0) sample_limits_db (Some 2) 4000 r"
    unfolding w j by blast
  with l b show ?thesis by simp
qed

text \<open>The preview matches the decision: what the check reports as the largest amount allowed now,
  for whatever amount it is asked about, zero included, decides every later positive amount on the
  same state together with the deposit counts.\<close>

lemma deposit_preview_matches:
  assumes "0 < js R a"
  shows "dc_allowed (fst (checkDeposit R s u a method)) \<longleftrightarrow>
     (\<forall>r \<in> set (check_rules R s u method).
        \<not> velocity_exceeded R s (map_option w_id (findWalletByUserId s u)) r) \<and>
     (\<forall>m. dc_maxAllowedNow (fst (checkDeposit R s u 0 method)) = Some m \<longrightarrow> js R a \<le> m)"
  using assms by (rule checkDeposit_allowed)

end
