(* ===== verification/Ledger.thy ===== *)
theory Ledger
  imports RiskPolicy
begin

text \<open>
  The double-entry discipline.  Every service that moves money writes ledger entries (legs) for one
  transaction and adjusts one wallet's denormalised balance in the same database transaction.
  This theory holds the posting of legs, the invariant \<open>books_ok\<close> (each wallet's balance is the
  sum of its ledger entries, each transaction's debits equal its credits, entries belong to
  completed transactions) and the contract \<open>money_movement\<close> under which a posting keeps the
  invariant.  The wallet, trading and dividend theories interpret the contract on their postings.
\<close>

section \<open>Posting\<close>

type_synonym leg = "uuid option \<times> account_type \<times> direction \<times> rat \<times> rat"

text \<open>The \<open>ledgerEntry.create\<close> calls of one transaction, in order.\<close>

fun post_legs :: "runtime \<Rightarrow> uuid \<Rightarrow> leg list \<Rightarrow> db \<Rightarrow> db" where
  "post_legs R tid [] s = s"
| "post_legs R tid ((wid, acct, dir, amt, after) # ls) s =
     post_legs R tid ls (createLedgerEntry R s tid wid acct dir amt after)"

fun leg_entries :: "runtime \<Rightarrow> uuid \<Rightarrow> nat \<Rightarrow> leg list \<Rightarrow> ledger_entry list" where
  "leg_entries R tid i [] = []"
| "leg_entries R tid i ((wid, acct, dir, amt, after) # ls) =
     \<lparr>l_id = i, l_transactionId = tid, l_walletId = wid, l_accountType = acct, l_direction = dir,
      l_amount = num4 R amt, l_balanceAfter = num4 R after, l_createdAt = now R\<rparr>
     # leg_entries R tid (Suc i) ls"

lemma post_legs_eq:
  "post_legs R tid ls s =
     s\<lparr>db_uid := db_uid s + length ls, db_ledger := db_ledger s @ leg_entries R tid (db_uid s) ls\<rparr>"
  by (induction R tid ls s rule: post_legs.induct) (simp_all add: createLedgerEntry_def)

section \<open>The books\<close>

definition wallet_ledger :: "ledger_entry list \<Rightarrow> uuid \<Rightarrow> rat" where
  "wallet_ledger ls wid =
     sum_where (wallet_entry wid CREDIT) l_amount ls - sum_where (wallet_entry wid DEBIT) l_amount ls"

definition tx_total :: "direction \<Rightarrow> ledger_entry list \<Rightarrow> uuid \<Rightarrow> rat" where
  "tx_total dir ls tid = sum_where (\<lambda>l. l_transactionId l = tid \<and> l_direction l = dir) l_amount ls"

text \<open>What a pending transaction must look like for its completion to balance: a nonnegative amount
  that fits the column and, when a processing fee is recorded, one of at most ten places.\<close>

definition pending_ok :: "transaction \<Rightarrow> bool" where
  "pending_ok t \<longleftrightarrow>
     (t_status t = TX_PENDING \<longrightarrow>
        places 4 (t_amount t) \<and> 0 \<le> t_amount t \<and> t_amount t < 10 ^ 14 \<and>
        (case jdec (jfield ''processingFee'' (JObj (t_metadata t))) of
           None \<Rightarrow> True
         | Some f \<Rightarrow> places 10 f \<and> 0 \<le> f \<and> (f = 0 \<or> t_amount t + f < 10 ^ 10)))"

definition wallets_ok :: "db \<Rightarrow> bool" where
  "wallets_ok s \<longleftrightarrow>
     distinct (map w_id (db_wallets s)) \<and> distinct (map w_userId (db_wallets s)) \<and>
     (\<forall>w \<in> set (db_wallets s). w_id w < db_uid s \<and> places 4 (w_balance w) \<and>
        w_balance w = wallet_ledger (db_ledger s) (w_id w))"

definition transactions_ok :: "db \<Rightarrow> bool" where
  "transactions_ok s \<longleftrightarrow>
     distinct (map t_id (db_transactions s)) \<and>
     (\<forall>t \<in> set (db_transactions s). t_id t < db_uid s \<and> t_walletId t \<in> w_id ` set (db_wallets s) \<and>
        pending_ok t)"

definition ledger_ok :: "db \<Rightarrow> bool" where
  "ledger_ok s \<longleftrightarrow>
     (\<forall>l \<in> set (db_ledger s). places 4 (l_amount l) \<and>
        (\<exists>t \<in> set (db_transactions s). t_id t = l_transactionId l \<and> t_status t = TX_COMPLETED) \<and>
        (\<forall>w. l_walletId l = Some w \<longrightarrow> w \<in> w_id ` set (db_wallets s))) \<and>
     (\<forall>tid. tx_total DEBIT (db_ledger s) tid = tx_total CREDIT (db_ledger s) tid)"

definition books_ok :: "db \<Rightarrow> bool" where
  "books_ok s \<longleftrightarrow> wallets_ok s \<and> transactions_ok s \<and> ledger_ok s"

definition solvent :: "db \<Rightarrow> bool" where
  "solvent s \<longleftrightarrow> (\<forall>w \<in> set (db_wallets s). 0 \<le> w_balance w)"

lemmas books_defs = books_ok_def wallets_ok_def transactions_ok_def ledger_ok_def

lemma wallet_ledger_append:
  "wallet_ledger (xs @ ys) wid = wallet_ledger xs wid + wallet_ledger ys wid"
  by (simp add: wallet_ledger_def)

lemma tx_total_append: "tx_total d (xs @ ys) tid = tx_total d xs tid + tx_total d ys tid"
  by (simp add: tx_total_def)

lemma sum_where_none: "(\<And>x. x \<in> set xs \<Longrightarrow> \<not> P x) \<Longrightarrow> sum_where P f xs = 0"
  by (induction xs) (auto simp: table_simps)

lemma wallet_ledger_other:
  "(\<And>l. l \<in> set ls \<Longrightarrow> l_walletId l \<noteq> Some wid) \<Longrightarrow> wallet_ledger ls wid = 0"
  unfolding wallet_ledger_def
  by (subst (1 2) sum_where_none) (auto simp: wallet_entry_def)

lemma tx_total_other:
  "(\<And>l. l \<in> set ls \<Longrightarrow> l_transactionId l \<noteq> tid) \<Longrightarrow> tx_total d ls tid = 0"
  unfolding tx_total_def by (rule sum_where_none) auto

subsection \<open>Lookups\<close>

lemma findWalletById_Some:
  "findWalletById s i = Some w \<Longrightarrow> w \<in> set (db_wallets s) \<and> w_id w = i"
  by (auto simp: findWalletById_def find_Some_iff)

lemma findWalletByUserId_Some:
  "findWalletByUserId s u = Some w \<Longrightarrow> w \<in> set (db_wallets s) \<and> w_userId w = u"
  by (auto simp: findWalletByUserId_def find_Some_iff)

lemma findWalletByUserId_None:
  "findWalletByUserId s u = None \<longleftrightarrow> (\<forall>w \<in> set (db_wallets s). w_userId w \<noteq> u)"
  by (simp add: findWalletByUserId_def find_None)

lemma findTransactionById_Some:
  "findTransactionById s i = Some t \<Longrightarrow> t \<in> set (db_transactions s) \<and> t_id t = i"
  by (auto simp: findTransactionById_def find_Some_iff)

lemma wallets_ok_unique:
  "wallets_ok s \<Longrightarrow> w \<in> set (db_wallets s) \<Longrightarrow> v \<in> set (db_wallets s) \<Longrightarrow> w_id w = w_id v \<Longrightarrow> w = v"
  by (auto simp: wallets_ok_def distinct_map dest: inj_onD)

subsection \<open>What the invariant depends on\<close>

text \<open>A change to anything but wallets, transactions and ledger keeps the books.\<close>

lemma books_cong:
  assumes "db_wallets s' = db_wallets s" "db_transactions s' = db_transactions s"
    "db_ledger s' = db_ledger s" "db_uid s \<le> db_uid s'"
  shows "books_ok s \<Longrightarrow> books_ok s'"
  using assms(4) unfolding books_defs assms(1-3) by (auto intro: less_le_trans)

text \<open>Changes of wallet columns other than the identity and the balance.\<close>

lemma books_wallet_update:
  assumes "books_ok s" and "\<And>w. w_id (f w) = w_id w" "\<And>w. w_userId (f w) = w_userId w"
    "\<And>w. w_balance (f w) = w_balance w"
  shows "books_ok (s\<lparr>db_wallets := upd_where P f (db_wallets s)\<rparr>)"
proof -
  have "map w_id (upd_where P f (db_wallets s)) = map w_id (db_wallets s)"
    "map w_userId (upd_where P f (db_wallets s)) = map w_userId (db_wallets s)"
    by (simp_all add: map_upd_where assms(2,3))
  moreover from this(1) have "w_id ` set (upd_where P f (db_wallets s)) = w_id ` set (db_wallets s)"
    by (metis set_map)
  moreover have "\<forall>w \<in> set (upd_where P f (db_wallets s)). \<exists>v \<in> set (db_wallets s).
      w_id w = w_id v \<and> w_balance w = w_balance v"
    using assms(2,4) by (auto simp: set_upd_where)
  ultimately show ?thesis using assms(1) unfolding books_defs by (simp; metis)
qed

text \<open>A new pending transaction for an existing wallet.\<close>

lemma insertTransaction_Inr:
  "insertTransaction R s wid b ty st amt key oid meta proc = Inr (s', i) \<Longrightarrow>
     i = db_uid s \<and> \<not> tx_key_taken s wid key \<and> s' = s\<lparr>db_uid := Suc (db_uid s),
        db_transactions := db_transactions s @
          [\<lparr>t_id = db_uid s, t_walletId = wid, t_brokerId = b, t_type = ty, t_status = st,
            t_amount = num4 R amt, t_currency = ''MWK'', t_idempotencyKey = key,
            t_relatedOrderId = oid, t_metadata = meta, t_processedAt = proc,
            t_createdAt = now R\<rparr>]\<rparr>"
  by (auto simp: insertTransaction_def split: if_splits)

lemma books_new_transaction:
  assumes "books_ok s" and "t_id t = db_uid s" and "t_walletId t \<in> w_id ` set (db_wallets s)" and "pending_ok t"
  shows "books_ok (s\<lparr>db_uid := Suc (db_uid s), db_transactions := db_transactions s @ [t]\<rparr>)"
  using assms unfolding books_defs by (auto simp: less_Suc_eq)

lemma books_new_wallet:
  assumes "books_ok s" and "\<forall>w \<in> set (db_wallets s). w_userId w \<noteq> u"
  shows "books_ok (s\<lparr>db_uid := Suc (db_uid s), db_wallets := db_wallets s @ [new_wallet (db_uid s) u cur b]\<rparr>)"
proof -
  have "wallet_ledger (db_ledger s) (db_uid s) = 0"
    using assms(1) unfolding books_defs by (intro wallet_ledger_other) fastforce
  moreover have "db_uid s \<notin> w_id ` set (db_wallets s)" using assms(1) unfolding books_defs by auto
  ultimately show ?thesis using assms unfolding books_defs
    by (auto simp: less_Suc_eq new_wallet_def)
qed

text \<open>An update of transaction rows that keeps identities, leaves completed rows completed and leaves
  pending rows well formed.\<close>

lemma books_transaction_update:
  assumes "books_ok s" and "\<And>t. t_id (f t) = t_id t" "\<And>t. t_walletId (f t) = t_walletId t"
    and "\<And>t. t \<in> set (db_transactions s) \<Longrightarrow> P t \<Longrightarrow> pending_ok (f t)"
    and "\<And>t. t \<in> set (db_transactions s) \<Longrightarrow> P t \<Longrightarrow> t_status t = TX_COMPLETED \<Longrightarrow> t_status (f t) = TX_COMPLETED"
  shows "books_ok (s\<lparr>db_transactions := upd_where P f (db_transactions s)\<rparr>)"
proof -
  let ?T = "upd_where P f (db_transactions s)"
  have ids: "map t_id ?T = map t_id (db_transactions s)"
    by (simp add: map_upd_where assms(2))
  have rows: "\<exists>t' \<in> set ?T. t_id t' = t_id t \<and> t_status t' = TX_COMPLETED"
    if "t \<in> set (db_transactions s)" "t_status t = TX_COMPLETED" for t
    using that assms(2,5) by (cases "P t") (auto simp: set_upd_where)
  have old: "t_id t < db_uid s \<and> t_walletId t \<in> w_id ` set (db_wallets s) \<and> pending_ok t"
    if "t \<in> set ?T" for t
    using that assms(1-4) by (auto simp: set_upd_where books_defs)
  show ?thesis using assms(1) ids rows old unfolding books_defs by (simp; metis)
qed

section \<open>Money movements\<close>

definition leg_wallet :: "runtime \<Rightarrow> uuid \<Rightarrow> leg list \<Rightarrow> rat" where
  "leg_wallet R wid ls = wallet_ledger (leg_entries R 0 0 ls) wid"

definition leg_total :: "runtime \<Rightarrow> direction \<Rightarrow> leg list \<Rightarrow> rat" where
  "leg_total R dir ls = tx_total dir (leg_entries R 0 0 ls) 0"

lemma wallet_ledger_Cons:
  "wallet_ledger (l # ls) wid =
     (if l_walletId l = Some wid \<and> l_accountType l = USER_WALLET
      then (if l_direction l = CREDIT then l_amount l else - l_amount l) else 0) + wallet_ledger ls wid"
  by (cases "l_direction l") (auto simp: wallet_ledger_def wallet_entry_def table_simps)

lemma tx_total_Cons:
  "tx_total dir (l # ls) tid =
     (if l_transactionId l = tid \<and> l_direction l = dir then l_amount l else 0) + tx_total dir ls tid"
  by (simp add: tx_total_def table_simps)

lemma wallet_ledger_Nil [simp]: "wallet_ledger [] wid = 0"
  by (simp add: wallet_ledger_def)

lemma tx_total_Nil [simp]: "tx_total dir [] tid = 0"
  by (simp add: tx_total_def)

lemma leg_entries_wallet: "wallet_ledger (leg_entries R tid i ls) wid = leg_wallet R wid ls"
proof -
  have "wallet_ledger (leg_entries R tid i ls) wid = wallet_ledger (leg_entries R tid' i' ls) wid"
    for tid i tid' i'
    by (induction R tid i ls arbitrary: i' rule: leg_entries.induct) (auto simp: wallet_ledger_Cons)
  then show ?thesis by (simp add: leg_wallet_def)
qed

lemma leg_entries_total:
  "tx_total dir (leg_entries R tid i ls) k = (if k = tid then leg_total R dir ls else 0)"
proof -
  have "tx_total dir (leg_entries R tid i ls) k = (if k = tid then tx_total dir (leg_entries R 0 i' ls) 0 else 0)"
    for i i'
    by (induction R tid i ls arbitrary: i' rule: leg_entries.induct) (auto simp: tx_total_Cons)
  then show ?thesis unfolding leg_total_def .
qed

lemma leg_entries_set:
  "l \<in> set (leg_entries R tid i ls) \<Longrightarrow>
     l_transactionId l = tid \<and> (\<exists>x. l_amount l = num4 R x) \<and> l_walletId l \<in> fst ` set ls"
  by (induction R tid i ls rule: leg_entries.induct) (auto simp: image_iff)

text \<open>
  The contract of a posting \<open>legs x\<close> against the wallet \<open>wid x\<close>: debits equal credits and the wallet's
  legs add up to the change of its balance; no other wallet is touched.
\<close>

locale money_movement =
  fixes rt :: "'x \<Rightarrow> runtime"
    and wid :: "'x \<Rightarrow> uuid"
    and legs :: "'x \<Rightarrow> leg list"
    and change :: "'x \<Rightarrow> rat"
    and valid :: "'x \<Rightarrow> bool"
  assumes runtime: "valid x \<Longrightarrow> numeric_runtime (rt x)"
    and balanced: "valid x \<Longrightarrow> leg_total (rt x) DEBIT (legs x) = leg_total (rt x) CREDIT (legs x)"
    and effect: "valid x \<Longrightarrow> leg_wallet (rt x) (wid x) (legs x) = change x"
    and own: "valid x \<Longrightarrow> fst ` set (legs x) \<subseteq> {None, Some (wid x)}"
begin

lemma post_ledger_ok:
  assumes "books_ok s" and "valid x" and "wid x \<in> w_id ` set (db_wallets s)"
    and "w_id ` set (db_wallets s') = w_id ` set (db_wallets s)"
    and "db_ledger s' = db_ledger s @ leg_entries (rt x) tid i (legs x)"
    and "\<forall>l \<in> set (db_ledger s'). \<exists>t \<in> set (db_transactions s'). t_id t = l_transactionId l \<and> t_status t = TX_COMPLETED"
  shows "ledger_ok s'"
proof -
  have "places 4 (l_amount l) \<and> (\<forall>w. l_walletId l = Some w \<longrightarrow> w \<in> w_id ` set (db_wallets s'))"
    if "l \<in> set (db_ledger s')" for l
  proof (cases "l \<in> set (db_ledger s)")
    case True
    with assms(1,4) show ?thesis by (simp add: books_defs)
  next
    case False
    with that assms(5) have "l \<in> set (leg_entries (rt x) tid i (legs x))" by simp
    from leg_entries_set [OF this] own [OF assms(2)] assms(3,4) numeric_runtime.num4_places [OF runtime [OF assms(2)]]
    show ?thesis by auto
  qed
  moreover have "tx_total DEBIT (db_ledger s') k = tx_total CREDIT (db_ledger s') k" for k
    using assms(1) balanced [OF assms(2)]
    by (simp add: assms(5) tx_total_append leg_entries_total books_defs)
  ultimately show ?thesis using assms(6) by (simp add: ledger_ok_def)
qed

lemma post_wallets_ok:
  assumes "books_ok s" and "valid x" and "v \<in> set (db_wallets s)" and "w_id v = wid x"
    and "db_wallets s' = upd_where (\<lambda>w. w_id w = wid x) f (db_wallets s)"
    and "\<And>w. w_id (f w) = w_id w" "\<And>w. w_userId (f w) = w_userId w" and "w_balance (f v) = w_balance v + change x"
    and "db_ledger s' = db_ledger s @ leg_entries (rt x) tid i (legs x)" and "db_uid s \<le> db_uid s'"
  shows "wallets_ok s'"
proof -
  have ok: "wallets_ok s" using assms(1) by (simp add: books_ok_def)
  have led: "wallet_ledger (db_ledger s') k =
      wallet_ledger (db_ledger s) k + (if k = wid x then change x else 0)" for k
  proof (cases "k = wid x")
    case True
    with effect [OF assms(2)] show ?thesis
      by (simp add: assms(9) wallet_ledger_append leg_entries_wallet)
  next
    case False
    then have "wallet_ledger (leg_entries (rt x) tid i (legs x)) k = 0"
      using own [OF assms(2)] by (intro wallet_ledger_other) (auto dest!: leg_entries_set)
    with False show ?thesis by (simp add: assms(9) wallet_ledger_append)
  qed
  have pl: "places 4 (change x)"
    unfolding effect [OF assms(2), symmetric] leg_wallet_def wallet_ledger_def
    by (intro places_diff places_sum_where)
      (auto dest!: leg_entries_set simp: numeric_runtime.num4_places [OF runtime [OF assms(2)]])
  have row: "w_id w < db_uid s' \<and> places 4 (w_balance w) \<and> w_balance w = wallet_ledger (db_ledger s') (w_id w)"
    if "w \<in> set (db_wallets s')" for w
  proof -
    from that consider w' where "w' \<in> set (db_wallets s)" "w_id w' = wid x" "w = f w'"
      | "w \<in> set (db_wallets s)" "w_id w \<noteq> wid x"
      by (auto simp: assms(5) set_upd_where)
    then show ?thesis
    proof cases
      case 1
      then have "w' = v" using wallets_ok_unique [OF ok] assms(3,4) by simp
      with 1 ok pl assms(6,8,10) show ?thesis by (auto simp: led wallets_ok_def places_add)
    next
      case 2
      with ok assms(10) show ?thesis by (auto simp: led wallets_ok_def)
    qed
  qed
  have "map w_id (db_wallets s') = map w_id (db_wallets s)" "map w_userId (db_wallets s') = map w_userId (db_wallets s)"
    unfolding assms(5) by (simp_all add: map_upd_where assms(6,7))
  with ok have "distinct (map w_id (db_wallets s'))" "distinct (map w_userId (db_wallets s'))"
    by (simp_all add: wallets_ok_def)
  with row show ?thesis unfolding wallets_ok_def by blast
qed

text \<open>The whole posting: legs, balance, and a transaction table in which the transaction is completed.\<close>

lemma post_keeps_books:
  assumes "books_ok s" and "valid x" and "v \<in> set (db_wallets s)" and "w_id v = wid x"
    and "db_wallets s' = upd_where (\<lambda>w. w_id w = wid x) f (db_wallets s)"
    and "\<And>w. w_id (f w) = w_id w" "\<And>w. w_userId (f w) = w_userId w" and "w_balance (f v) = w_balance v + change x"
    and "db_ledger s' = db_ledger s @ leg_entries (rt x) tid i (legs x)" and "db_uid s \<le> db_uid s'"
    and "transactions_ok s'"
    and "\<And>k. k = tid \<or> (\<exists>t \<in> set (db_transactions s). t_id t = k \<and> t_status t = TX_COMPLETED) \<Longrightarrow>
        \<exists>t \<in> set (db_transactions s'). t_id t = k \<and> t_status t = TX_COMPLETED"
  shows "books_ok s'"
proof -
  have "map w_id (db_wallets s') = map w_id (db_wallets s)"
    unfolding assms(5) by (simp add: map_upd_where assms(6))
  then have ids: "w_id ` set (db_wallets s') = w_id ` set (db_wallets s)" by (metis set_map)
  have "\<exists>t \<in> set (db_transactions s'). t_id t = l_transactionId l \<and> t_status t = TX_COMPLETED"
    if "l \<in> set (db_ledger s')" for l
  proof (rule assms(12))
    show "l_transactionId l = tid \<or>
        (\<exists>t \<in> set (db_transactions s). t_id t = l_transactionId l \<and> t_status t = TX_COMPLETED)"
      using that assms(1) leg_entries_set by (fastforce simp: assms(9) books_defs)
  qed
  moreover have "wid x \<in> w_id ` set (db_wallets s)" using assms(3) by (simp flip: assms(4))
  ultimately have "ledger_ok s'"
    using ids by (intro post_ledger_ok [OF assms(1,2) _ _ assms(9)]) auto
  moreover have "wallets_ok s'" by (rule post_wallets_ok [OF assms(1-10)])
  ultimately show ?thesis using assms(11) by (simp add: books_ok_def)
qed

end

subsection \<open>The two shapes of a posting's transaction\<close>

text \<open>The transaction existed and is marked completed, or it is created completed.\<close>

lemma complete_transactions_ok:
  assumes "books_ok s" and "t \<in> set (db_transactions s)" and "t_id t = tid"
    and "db_transactions s' = upd_where (\<lambda>t. t_id t = tid) f (db_transactions s)"
    and "\<And>t. t_id (f t) = t_id t" "\<And>t. t_walletId (f t) = t_walletId t" "\<And>t. t_status (f t) = TX_COMPLETED"
    and "w_id ` set (db_wallets s') = w_id ` set (db_wallets s)" and "db_uid s \<le> db_uid s'"
  shows "transactions_ok s'"
    and "k = tid \<or> (\<exists>t \<in> set (db_transactions s). t_id t = k \<and> t_status t = TX_COMPLETED) \<Longrightarrow>
        \<exists>t \<in> set (db_transactions s'). t_id t = k \<and> t_status t = TX_COMPLETED"
proof -
  have "map t_id (db_transactions s') = map t_id (db_transactions s)"
    unfolding assms(4) by (simp add: map_upd_where assms(5))
  moreover have "t_id t < db_uid s' \<and> t_walletId t \<in> w_id ` set (db_wallets s') \<and> pending_ok t"
    if "t \<in> set (db_transactions s')" for t
    using that assms(1,9) unfolding assms(4,8)
    by (auto simp: set_upd_where books_defs assms(5-7) pending_ok_def [of "f _"] intro: less_le_trans)
  ultimately show "transactions_ok s'"
    using assms(1) by (simp add: books_ok_def transactions_ok_def)
  show "\<exists>t \<in> set (db_transactions s'). t_id t = k \<and> t_status t = TX_COMPLETED"
    if "k = tid \<or> (\<exists>t \<in> set (db_transactions s). t_id t = k \<and> t_status t = TX_COMPLETED)"
  proof -
    from that assms(2,3) obtain r where r: "r \<in> set (db_transactions s)" "t_id r = k"
      "k = tid \<or> t_status r = TX_COMPLETED" by blast
    have "(if k = tid then f r else r) \<in> set (db_transactions s')"
      using r by (auto simp: assms(4) set_upd_where)
    with r show ?thesis using assms(5,7) by (metis (full_types))
  qed
qed

lemma create_transactions_ok:
  assumes "books_ok s" and "db_transactions s' = db_transactions s @ [t]"
    and "t_id t = tid" "db_uid s \<le> tid" "tid < db_uid s'" "t_status t = TX_COMPLETED"
    and "t_walletId t \<in> w_id ` set (db_wallets s)"
    and "w_id ` set (db_wallets s') = w_id ` set (db_wallets s)"
  shows "transactions_ok s'"
    and "k = tid \<or> (\<exists>t \<in> set (db_transactions s). t_id t = k \<and> t_status t = TX_COMPLETED) \<Longrightarrow>
        \<exists>t \<in> set (db_transactions s'). t_id t = k \<and> t_status t = TX_COMPLETED"
  using assms by (auto simp: books_defs pending_ok_def [of t])

end
