(* ===== verification/Wallet.thy ===== *)
theory Wallet
  imports Money Ledger
begin

text \<open>
  The wallet module: \<^verbatim>\<open>src/modules/wallet/services/\<close>.  The calculator, the balance, reservation and
  statement services and the wallet service with every handler that moves money or changes a
  transaction's state.  Descriptions, references and log records are not part of the rows.
\<close>

section \<open>Calculator\<close>

record WalletSummary =
  sm_walletId :: uuid
  sm_currency :: string
  totalBalance :: rat
  reservedBalance :: rat
  availableBalance :: rat
  pendingDeposits :: rat
  pendingWithdrawals :: rat
  sm_isFrozen :: bool
  sm_frozenReason :: "string option"

definition calculateSummary ::
  "runtime \<Rightarrow> uuid \<Rightarrow> string \<Rightarrow> rat \<Rightarrow> rat \<Rightarrow> rat \<Rightarrow> rat \<Rightarrow> bool \<Rightarrow> string option \<Rightarrow> WalletSummary" where
  "calculateSummary R wid cur ledgerBalance reservedAmount pendDep pendWith frozen reason =
     (let available = dsub R (dsub R ledgerBalance reservedAmount) pendWith
      in \<lparr>sm_walletId = wid, sm_currency = cur, totalBalance = js R ledgerBalance,
          reservedBalance = js R reservedAmount, availableBalance = max (js R available) 0,
          pendingDeposits = js R pendDep, pendingWithdrawals = js R pendWith,
          sm_isFrozen = frozen, sm_frozenReason = reason\<rparr>)"

definition hasSufficientFunds :: "runtime \<Rightarrow> rat \<Rightarrow> rat \<Rightarrow> rat \<Rightarrow> bool" where
  "hasSufficientFunds R ledgerBalance reservedAmount requiredAmount \<longleftrightarrow>
     dsub R ledgerBalance reservedAmount \<ge> requiredAmount"

definition calculateNewBalance :: "runtime \<Rightarrow> rat \<Rightarrow> rat \<Rightarrow> direction \<Rightarrow> rat" where
  "calculateNewBalance R currentBalance amt dir =
     (if dir = CREDIT then dadd R currentBalance amt else dsub R currentBalance amt)"

section \<open>Balances\<close>

definition getWalletSummary :: "runtime \<Rightarrow> db \<Rightarrow> uuid \<Rightarrow> err + WalletSummary" where
  "getWalletSummary R s u =
     (case findWalletByUserId s u of
        None \<Rightarrow> Inl (NotFound (Msg ''Wallet not found. Please contact support.''))
      | Some w \<Rightarrow>
          (let (deposits, withdrawals) = sumPendingTransactions s (w_id w)
           in Inr (calculateSummary R (w_id w) (w_currency w) (w_balance w)
                (sumActiveReservations s (w_id w)) deposits withdrawals
                (w_isFrozen w) (w_frozenReason w))))"

record BalanceView =
  bv_balance :: rat
  bv_availableBalance :: rat
  bv_reservedBalance :: rat
  bv_currency :: string
  bv_isFrozen :: bool

definition getBalance :: "runtime \<Rightarrow> db \<Rightarrow> uuid \<Rightarrow> err + BalanceView" where
  "getBalance R s u =
     (case getWalletSummary R s u of
        Inl e \<Rightarrow> Inl e
      | Inr m \<Rightarrow> Inr \<lparr>bv_balance = totalBalance m, bv_availableBalance = availableBalance m,
           bv_reservedBalance = reservedBalance m, bv_currency = sm_currency m,
           bv_isFrozen = sm_isFrozen m\<rparr>)"

definition ensureWallet :: "db \<Rightarrow> uuid \<Rightarrow> err + db \<times> uuid" where
  "ensureWallet s u =
     (case findWalletByUserId s u of
        Some w \<Rightarrow> Inr (s, w_id w)
      | None \<Rightarrow> createWallet s u ''MWK'')"

definition validateWalletActive :: "db \<Rightarrow> uuid \<Rightarrow> err + unit" where
  "validateWalletActive s u =
     (case findWalletByUserId s u of
        None \<Rightarrow> Inl (NotFound (Msg ''Wallet not found''))
      | Some w \<Rightarrow> if w_isFrozen w then Inl (Forbidden (FrozenMsg (w_frozenReason w))) else Inr ())"

record Reconciliation =
  rec_walletBalance :: rat
  rec_ledgerBalance :: rat
  rec_discrepancy :: rat

definition reconcile :: "runtime \<Rightarrow> db \<Rightarrow> uuid \<Rightarrow> err + Reconciliation" where
  "reconcile R s u =
     (case findWalletByUserId s u of
        None \<Rightarrow> Inl (NotFound (Msg ''Wallet not found''))
      | Some w \<Rightarrow>
          (let ledgerBalance = sumLedgerBalance R s (w_id w)
           in Inr \<lparr>rec_walletBalance = js R (w_balance w), rec_ledgerBalance = js R ledgerBalance,
                   rec_discrepancy = js R (dsub R (w_balance w) ledgerBalance)\<rparr>))"

section \<open>Reservations\<close>

text \<open>The hold's expiry: the requested minutes, twenty-four hours when absent or zero.\<close>

definition reservation_expiry :: "runtime \<Rightarrow> rat option \<Rightarrow> timestamp" where
  "reservation_expiry R minutes =
     (case minutes of
        Some m \<Rightarrow> if m \<noteq> 0 then now R + \<lfloor>m * 60000\<rfloor> else now R + 24 * 60 * 60000
      | None \<Rightarrow> now R + 24 * 60 * 60000)"

definition reserveFunds :: "runtime \<Rightarrow> db \<Rightarrow> uuid \<Rightarrow> uuid \<Rightarrow> rat \<Rightarrow> rat option \<Rightarrow> err + db \<times> uuid" where
  "reserveFunds R s u orderId amt expiresInMinutes =
     (case findWalletByUserId s u of
        None \<Rightarrow> Inl (NotFound (Msg ''Wallet not found''))
      | Some w \<Rightarrow>
          if w_isFrozen w then Inl (BadRequest (Msg ''Wallet is frozen''))
          else
            (case findReservationByOrderId s orderId of
               Some r \<Rightarrow> Inr (s, r_id r)
             | None \<Rightarrow>
                 (let available = dsub R (w_balance w) (sumActiveReservations s (w_id w))
                  in if available < amt then Inl (BadRequest (InsufficientMsg (js R available) amt))
                     else
                       (let (i, s') = createReservation R s (w_id w) (Some orderId) amt
                                        (Some (reservation_expiry R expiresInMinutes))
                        in Inr (s', i)))))"

definition consumeReservation :: "runtime \<Rightarrow> db \<Rightarrow> uuid \<Rightarrow> db" where
  "consumeReservation R s orderId =
     (case findReservationByOrderId s orderId of
        None \<Rightarrow> s
      | Some r \<Rightarrow> repo_consumeReservation R s (r_id r))"

definition releaseReservation :: "runtime \<Rightarrow> db \<Rightarrow> uuid \<Rightarrow> db" where
  "releaseReservation R s orderId =
     (case findReservationByOrderId s orderId of
        None \<Rightarrow> s
      | Some r \<Rightarrow> repo_releaseReservation R s (r_id r))"

definition getActiveReservations ::
  "runtime \<Rightarrow> db \<Rightarrow> uuid \<Rightarrow> (uuid \<times> uuid option \<times> rat \<times> res_status \<times> timestamp option) list \<times> rat" where
  "getActiveReservations R s u =
     (case findWalletByUserId s u of
        None \<Rightarrow> ([], 0)
      | Some w \<Rightarrow>
          (let rs = findActiveReservations s (w_id w)
           in (map (\<lambda>r. (r_id r, r_orderId r, js R (r_amount r), r_status r, r_expiresAt r)) rs,
               js R (foldl (dadd R) 0 (map r_amount rs)))))"

definition onOrderCancelled :: "runtime \<Rightarrow> db \<Rightarrow> uuid \<Rightarrow> db" where
  "onOrderCancelled R s orderId = releaseReservation R s orderId"

definition onOrderRejected :: "runtime \<Rightarrow> db \<Rightarrow> uuid \<Rightarrow> db" where
  "onOrderRejected R s orderId = releaseReservation R s orderId"

definition expireStaleReservations :: "runtime \<Rightarrow> db \<Rightarrow> db" where
  "expireStaleReservations R s = expireReservations R s"

section \<open>Statements\<close>

datatype statement_direction = IN | OUT | OTHER

fun getDirection :: "tx_type \<Rightarrow> statement_direction" where
  "getDirection DEPOSIT = IN"
| "getDirection TRADE_SELL = IN"
| "getDirection DIVIDEND_CREDIT = IN"
| "getDirection REVERSAL = IN"
| "getDirection WITHDRAWAL = OUT"
| "getDirection TRADE_BUY = OUT"
| "getDirection FEE = OUT"
| "getDirection DIVIDEND_REINVESTMENT = OTHER"
| "getDirection ADJUSTMENT = OTHER"

record StatementEntry =
  se_id :: uuid
  se_type :: tx_type
  se_amount :: rat
  se_currency :: string
  se_status :: tx_status
  se_direction :: statement_direction
  se_relatedOrderId :: "uuid option"
  se_createdAt :: timestamp

definition getStatement :: "runtime \<Rightarrow> db \<Rightarrow> uuid \<Rightarrow> nat \<Rightarrow> nat \<Rightarrow> err + StatementEntry list \<times> nat" where
  "getStatement R s u limit offset =
     (case findWalletByUserId s u of
        None \<Rightarrow> Inl (NotFound (Msg ''Wallet not found''))
      | Some w \<Rightarrow>
          (let (txs, total) = findUserTransactions s (w_id w) limit offset
           in Inr (map (\<lambda>t. \<lparr>se_id = t_id t, se_type = t_type t, se_amount = js R (t_amount t),
                se_currency = t_currency t, se_status = t_status t,
                se_direction = getDirection (t_type t), se_relatedOrderId = t_relatedOrderId t,
                se_createdAt = t_createdAt t\<rparr>) txs, total)))"

definition getLedgerHistory ::
  "runtime \<Rightarrow> db \<Rightarrow> uuid \<Rightarrow> nat \<Rightarrow> err + (uuid \<times> uuid \<times> tx_type option \<times> direction \<times> rat \<times> rat) list" where
  "getLedgerHistory R s u limit =
     (case findWalletByUserId s u of
        None \<Rightarrow> Inl (NotFound (Msg ''Wallet not found''))
      | Some w \<Rightarrow>
          Inr (map (\<lambda>e. (l_id e, l_transactionId e,
                 map_option t_type (findTransactionById s (l_transactionId e)), l_direction e,
                 js R (l_amount e), js R (l_balanceAfter e)))
               (findLedgerEntriesForWallet s (w_id w) limit 0)))"

definition getBalanceHistory ::
  "runtime \<Rightarrow> db \<Rightarrow> uuid \<Rightarrow> nat \<Rightarrow> err + (timestamp \<times> rat \<times> rat \<times> rat) list" where
  "getBalanceHistory R s u limit =
     (case findWalletByUserId s u of
        None \<Rightarrow> Inl (NotFound (Msg ''Wallet not found''))
      | Some w \<Rightarrow>
          Inr (rev (map (\<lambda>x. (ws_snapshotDate x, js R (ws_balance x), js R (ws_reservedAmount x),
                 js R (ws_availableAmount x))) (findSnapshots s (w_id w) limit))))"

section \<open>Deposits\<close>

record DepositPreview =
  pv_grossAmount :: rat
  pv_processingFee :: rat
  pv_netAmount :: rat
  pv_feeDescription :: "string option"
  pv_limits :: DepositCheck

definition previewDeposit ::
  "runtime \<Rightarrow> db \<Rightarrow> uuid \<Rightarrow> decimal_value \<Rightarrow> string option \<Rightarrow> (err + DepositPreview) \<times> db" where
  "previewDeposit R s u value meth =
     (case value of
        Finite amt \<Rightarrow>
          if amt \<le> 0 then (Inl (BadRequest (Msg ''Deposit amount must be positive'')), s)
          else
            let (policy, s1) = feePolicyForUser R s u;
                breakdown = depositBreakdown R policy amt;
                (risk, s2) = checkDeposit R s1 u amt meth
            in (Inr \<lparr>pv_grossAmount = js R (grossAmount breakdown),
                  pv_processingFee = js R (processingFee breakdown),
                  pv_netAmount = js R (netAmount breakdown),
                  pv_feeDescription = description breakdown, pv_limits = risk\<rparr>, s2)
      | _ \<Rightarrow> (Inl (BadRequest (Msg ''Deposit amount must be positive'')), s))"

text \<open>The depositor's broker: refused when a customer has none or an inactive one.\<close>

definition depositor_check :: "db \<Rightarrow> uuid \<Rightarrow> err option" where
  "depositor_check s u =
     (case findUser s u of
        None \<Rightarrow> None
      | Some x \<Rightarrow>
          if u_role x = CUSTOMER then
            (case u_brokerId x of
               None \<Rightarrow> Some (BadRequest (Msg ''BROKER_REQUIRED''))
             | Some b \<Rightarrow>
                 (case findBroker s b of
                    None \<Rightarrow> None
                  | Some br \<Rightarrow> if \<not> b_isActive br
                      then Some (BadRequest (Msg ''Your broker is currently unavailable. Contact support.''))
                      else None))
          else None)"

definition deposit_metadata :: "metadata \<Rightarrow> DepositFeeBreakdown \<Rightarrow> metadata" where
  "deposit_metadata meta b =
     jspread (jspread meta [(''grossAmount'', JDec (grossAmount b)),
         (''processingFee'', JDec (processingFee b)), (''netAmount'', JDec (netAmount b))])
       (case description b of None \<Rightarrow> [] | Some [] \<Rightarrow> [] | Some d \<Rightarrow> [(''feeDescription'', JStr d)])"

text \<open>The idempotency lookup of both initiations: an empty or absent key skips it.\<close>

definition existing_by_key :: "db \<Rightarrow> uuid \<Rightarrow> string option \<Rightarrow> transaction option" where
  "existing_by_key s wid key =
     (case key of None \<Rightarrow> None | Some [] \<Rightarrow> None | Some k \<Rightarrow> findTransactionByIdempotencyKey s wid k)"

definition initiateDeposit ::
  "runtime \<Rightarrow> db \<Rightarrow> uuid \<Rightarrow> rat \<Rightarrow> string option \<Rightarrow> metadata \<Rightarrow> string option \<Rightarrow>
     (err + uuid \<times> tx_status) \<times> db" where
  "initiateDeposit R s0 u amt key meta meth =
     (let (placed, s) = ensureBroker s0 u
      in case depositor_check s u of
           Some e \<Rightarrow> (Inl e, s)
         | None \<Rightarrow>
             (case ensureWallet s u of
                Inl e \<Rightarrow> (Inl e, s)
              | Inr (s1, wid) \<Rightarrow>
                  (case findWalletById s1 wid of
                     None \<Rightarrow> (Inl (NotFound (Msg ''Wallet not found'')), s1)
                   | Some w \<Rightarrow>
                       if w_isFrozen w then (Inl (BadRequest (FrozenMsg (w_frozenReason w))), s1)
                       else if amt \<le> 0 then (Inl (BadRequest (Msg ''Deposit amount must be positive'')), s1)
                       else
                         let (risk, s2) = checkDeposit R s1 u amt meth
                         in if \<not> dc_allowed risk then (Inl (BadRequest (RiskMsg (dc_reason risk))), s2)
                            else
                              case existing_by_key s2 (w_id w) key of
                                Some t \<Rightarrow> (Inr (t_id t, t_status t), s2)
                              | None \<Rightarrow>
                                  (let (policy, s3) = feePolicyForUser R s2 u;
                                       breakdown = depositBreakdown R policy amt
                                   in case createTransaction R s3 (w_id w) DEPOSIT (netAmount breakdown) key None
                                             (deposit_metadata meta breakdown) of
                                        Inl e \<Rightarrow> (Inl e, s3)
                                      | Inr (s4, i) \<Rightarrow> (Inr (i, TX_PENDING), s4)))))"

definition getDepositStatusByTxRef ::
  "runtime \<Rightarrow> db \<Rightarrow> uuid \<Rightarrow> string \<Rightarrow> (err + tx_status \<times> rat \<times> timestamp) \<times> db" where
  "getDepositStatusByTxRef R s u txRef =
     (case ensureWallet s u of
        Inl e \<Rightarrow> (Inl e, s)
      | Inr (s1, wid) \<Rightarrow>
          (case findTransactionByIdempotencyKey s1 wid txRef of
             None \<Rightarrow> (Inl (NotFound (Msg ''Payment not found'')), s1)
           | Some t \<Rightarrow> (Inr (t_status t, js R (t_amount t),
               case t_processedAt t of Some p \<Rightarrow> p | None \<Rightarrow> t_createdAt t), s1)))"

definition pending_deposit :: "string \<Rightarrow> transaction \<Rightarrow> bool" where
  "pending_deposit txRef t \<longleftrightarrow>
     t_idempotencyKey t = Some txRef \<and> t_type t = DEPOSIT \<and> t_status t = TX_PENDING"

definition markDepositFailed :: "db \<Rightarrow> string \<Rightarrow> db" where
  "markDepositFailed s txRef =
     s\<lparr>db_transactions := upd_where (pending_deposit txRef) (\<lambda>t. t\<lparr>t_status := TX_FAILED\<rparr>)
         (db_transactions s)\<rparr>"

definition attachDepositMetadata :: "db \<Rightarrow> string \<Rightarrow> metadata \<Rightarrow> db" where
  "attachDepositMetadata s txRef patch =
     (case List.find (pending_deposit txRef) (db_transactions s) of
        None \<Rightarrow> s
      | Some t \<Rightarrow> updateTransaction s (t_id t) (\<lambda>x. x\<lparr>t_metadata := jspread (t_metadata t) patch\<rparr>))"

definition getDepositForUser :: "db \<Rightarrow> uuid \<Rightarrow> string \<Rightarrow> transaction option" where
  "getDepositForUser s u txRef =
     List.find (\<lambda>t. t_idempotencyKey t = Some txRef \<and> t_type t = DEPOSIT \<and>
       map_option w_userId (findWalletById s (t_walletId t)) = Some u) (db_transactions s)"

section \<open>Withdrawals\<close>

definition available_for_withdrawal :: "runtime \<Rightarrow> db \<Rightarrow> wallet \<Rightarrow> rat" where
  "available_for_withdrawal R s w =
     dsub R (dsub R (w_balance w) (sumActiveReservations s (w_id w)))
       (sum_where (pending_of (w_id w) WITHDRAWAL) t_amount (db_transactions s))"

definition initiateWithdrawal ::
  "runtime \<Rightarrow> db \<Rightarrow> uuid \<Rightarrow> rat \<Rightarrow> string option \<Rightarrow> (err + uuid \<times> tx_status) \<times> db" where
  "initiateWithdrawal R s u amt key =
     (case ensureWallet s u of
        Inl e \<Rightarrow> (Inl e, s)
      | Inr (s1, wid) \<Rightarrow>
          (case findWalletById s1 wid of
             None \<Rightarrow> (Inl (NotFound (Msg ''Wallet not found'')), s1)
           | Some w \<Rightarrow>
               if w_isFrozen w then (Inl (BadRequest (FrozenMsg (w_frozenReason w))), s1)
               else if amt \<le> 0 then (Inl (BadRequest (Msg ''Withdrawal amount must be positive'')), s1)
               else
                 let available = available_for_withdrawal R s1 w
                 in if available < amt
                    then (Inl (BadRequest (InsufficientMsg (js R available) amt)), s1)
                    else
                      case existing_by_key s1 (w_id w) key of
                        Some t \<Rightarrow> (Inr (t_id t, t_status t), s1)
                      | None \<Rightarrow>
                          (case createTransaction R s1 (w_id w) WITHDRAWAL amt key None [] of
                             Inl e \<Rightarrow> (Inl e, s1)
                           | Inr (s2, i) \<Rightarrow> (Inr (i, TX_PENDING), s2))))"

definition rejectWithdrawal :: "runtime \<Rightarrow> db \<Rightarrow> uuid \<Rightarrow> string \<Rightarrow> (err + unit) \<times> db" where
  "rejectWithdrawal R s tid reason =
     (case findTransactionById s tid of
        None \<Rightarrow> (Inl (NotFound (Msg ''Withdrawal not found'')), s)
      | Some t \<Rightarrow>
          if t_type t \<noteq> WITHDRAWAL then (Inl (NotFound (Msg ''Withdrawal not found'')), s)
          else if t_status t \<noteq> TX_PENDING then (Inl (BadRequest (Msg ''Withdrawal already processed'')), s)
          else
            let s1 = updateTransaction s tid (\<lambda>x. x\<lparr>t_status := TX_FAILED, t_processedAt := Some (now R),
                   t_metadata := jspread (t_metadata t) [(''rejectionReason'', JStr reason)]\<rparr>)
            in (case findWalletById s (t_walletId t) of
                  None \<Rightarrow> (Inl (PlainError (Msg ''wallet'')), s1)
                | Some w \<Rightarrow> (Inr (), emit (WithdrawalRejected (w_userId w) (js R (t_amount t)) reason) s1)))"

section \<open>Completion\<close>

text \<open>
  The body of each completion transaction.  \<open>new Decimal(meta.processingFee ?? 0)\<close> throws on a value
  that is not a number.
\<close>

definition meta_processingFee :: "transaction \<Rightarrow> err + rat" where
  "meta_processingFee t =
     (let v = jfield ''processingFee'' (JObj (t_metadata t))
      in case jdec v of
           Some x \<Rightarrow> Inr x
         | None \<Rightarrow> if v = JNull then Inr 0 else Inl (PlainError (Msg ''DecimalError'')))"

definition deposit_legs :: "runtime \<Rightarrow> wallet \<Rightarrow> transaction \<Rightarrow> rat \<Rightarrow> leg list" where
  "deposit_legs R w t fee =
     [(Some (w_id w), USER_WALLET, CREDIT, t_amount t, dadd R (w_balance w) (t_amount t)),
      (None, PLATFORM_CASH, DEBIT, dadd R (t_amount t) fee, 0)]
     @ (if fee > 0 then [(None, PLATFORM_FEE_REVENUE, CREDIT, fee, 0)] else [])"

definition completed :: "runtime \<Rightarrow> transaction \<Rightarrow> transaction" where
  "completed R t = t\<lparr>t_status := TX_COMPLETED, t_processedAt := Some (now R)\<rparr>"

definition depositTx :: "runtime \<Rightarrow> db \<Rightarrow> uuid \<Rightarrow> err + db" where
  "depositTx R s tid =
     (case findTransactionById s tid of
        None \<Rightarrow> Inl (PrismaError ''P2025'')
      | Some t \<Rightarrow>
          if t_status t \<noteq> TX_PENDING then Inl (BadRequest (Msg ''Transaction already processed''))
          else
            (case findWalletById s (t_walletId t) of
               None \<Rightarrow> Inl (PrismaError ''P2025'')
             | Some w \<Rightarrow>
                 (case meta_processingFee t of
                    Inl e \<Rightarrow> Inl e
                  | Inr fee \<Rightarrow>
                      (case walletIncrement R (post_legs R tid (deposit_legs R w t fee) s)
                              (w_id w) (w_version w) (t_amount t) of
                         Inl e \<Rightarrow> Inl e
                       | Inr s1 \<Rightarrow> Inr (updateTransaction s1 tid (completed R))))))"

text \<open>After the commit the row is read back and the wallet event emitted.\<close>

definition emit_wallet_updated :: "runtime \<Rightarrow> tx_type \<Rightarrow> uuid \<Rightarrow> db \<Rightarrow> db" where
  "emit_wallet_updated R ty tid s =
     (case findTransactionById s tid of
        None \<Rightarrow> s
      | Some t \<Rightarrow>
          (case findWalletById s (t_walletId t) of
             None \<Rightarrow> s
           | Some w \<Rightarrow> emit (WalletUpdated (w_userId w) ty (js R (t_amount t)) (js R (w_balance w))) s))"

definition processDeposit :: "runtime \<Rightarrow> db \<Rightarrow> uuid \<Rightarrow> (err + unit) \<times> db" where
  "processDeposit R s tid =
     (case depositTx R s tid of
        Inl e \<Rightarrow> (Inl e, s)
      | Inr s1 \<Rightarrow> (Inr (), emit_wallet_updated R DEPOSIT tid s1))"

definition withdrawal_legs :: "runtime \<Rightarrow> wallet \<Rightarrow> transaction \<Rightarrow> leg list" where
  "withdrawal_legs R w t =
     [(Some (w_id w), USER_WALLET, DEBIT, t_amount t, dsub R (w_balance w) (t_amount t)),
      (None, PLATFORM_CASH, CREDIT, t_amount t, 0)]"

definition withdrawalTx :: "runtime \<Rightarrow> db \<Rightarrow> uuid \<Rightarrow> err + db" where
  "withdrawalTx R s tid =
     (case findTransactionById s tid of
        None \<Rightarrow> Inl (PrismaError ''P2025'')
      | Some t \<Rightarrow>
          if t_status t \<noteq> TX_PENDING then Inl (BadRequest (Msg ''Transaction already processed''))
          else
            (case findWalletById s (t_walletId t) of
               None \<Rightarrow> Inl (PrismaError ''P2025'')
             | Some w \<Rightarrow>
                 if dsub R (w_balance w) (t_amount t) < 0
                 then Inl (BadRequest (Msg ''Insufficient funds for withdrawal''))
                 else
                   (case walletIncrement R (post_legs R tid (withdrawal_legs R w t) s)
                           (w_id w) (w_version w) (- t_amount t) of
                      Inl e \<Rightarrow> Inl e
                    | Inr s1 \<Rightarrow> Inr (updateTransaction s1 tid (completed R)))))"

definition processWithdrawal :: "runtime \<Rightarrow> db \<Rightarrow> uuid \<Rightarrow> (err + unit) \<times> db" where
  "processWithdrawal R s tid =
     (case withdrawalTx R s tid of
        Inl e \<Rightarrow> (Inl e, s)
      | Inr s1 \<Rightarrow> (Inr (), emit_wallet_updated R WITHDRAWAL tid s1))"

definition settleWithdrawal :: "runtime \<Rightarrow> db \<Rightarrow> uuid \<Rightarrow> (err + unit) \<times> db" where
  "settleWithdrawal R s tid = processWithdrawal R s tid"

definition onDepositCompleted :: "runtime \<Rightarrow> db \<Rightarrow> uuid \<Rightarrow> (err + unit) \<times> db" where
  "onDepositCompleted R s tid = processDeposit R s tid"

definition onWithdrawalCompleted :: "runtime \<Rightarrow> db \<Rightarrow> uuid \<Rightarrow> (err + unit) \<times> db" where
  "onWithdrawalCompleted R s tid = processWithdrawal R s tid"

text \<open>
  \<open>submitBuyOrder\<close> is the trading service wired in after bootstrap (\<open>setTradingService\<close>), absent until
  then.  Its exceptions are caught and logged; the writes it made before throwing stay.
\<close>

definition processPaymentByTxRef ::
  "runtime \<Rightarrow> (db \<Rightarrow> uuid \<Rightarrow> string \<Rightarrow> rat \<Rightarrow> string \<Rightarrow> kyc_status \<Rightarrow> db) option \<Rightarrow> db \<Rightarrow> string \<Rightarrow>
     (err + unit) \<times> db" where
  "processPaymentByTxRef R submitBuyOrder s txRef =
     (case List.find (pending_deposit txRef) (db_transactions s) of
        None \<Rightarrow> (Inr (), s)
      | Some t \<Rightarrow>
          (case processDeposit R s (t_id t) of
             (Inl e, s1) \<Rightarrow> (Inl e, s1)
           | (Inr _, s1) \<Rightarrow>
               (let meta = JObj (t_metadata t)
                in if jfield ''purpose'' meta = JStr ''BUY_SHARES'' then
                     (case (jfield ''stockSymbol'' meta, jnum (jfield ''quantity'' meta),
                            findWalletById s (t_walletId t), submitBuyOrder) of
                        (JStr symbol, Some q, Some w, Some submit) \<Rightarrow>
                          if symbol = [] \<or> q = 0 then (Inr (), s1)
                          else (Inr (), submit s1 (w_userId w) symbol q (txRef @ ''-BUY'')
                            (case findUser s1 (w_userId w) of Some x \<Rightarrow> u_kycStatus x | None \<Rightarrow> KYC_APPROVED))
                      | _ \<Rightarrow> (Inr (), s1))
                   else (Inr (), s1))))"

definition processDepositByTxRef ::
  "runtime \<Rightarrow> (db \<Rightarrow> uuid \<Rightarrow> string \<Rightarrow> rat \<Rightarrow> string \<Rightarrow> kyc_status \<Rightarrow> db) option \<Rightarrow> db \<Rightarrow> string \<Rightarrow>
     (err + unit) \<times> db" where
  "processDepositByTxRef R submitBuyOrder s txRef = processPaymentByTxRef R submitBuyOrder s txRef"

definition snapshot_one :: "runtime \<Rightarrow> timestamp \<Rightarrow> uuid \<Rightarrow> db \<Rightarrow> db" where
  "snapshot_one R today wid s =
     (case findWalletById s wid of
        None \<Rightarrow> s
      | Some w \<Rightarrow>
          (let reserved = sumActiveReservations s wid;
               available = dsub R (w_balance w) reserved
           in upsertSnapshot R s wid today (w_balance w) reserved
                (if available < 0 then 0 else available)))"

definition dailySnapshot :: "runtime \<Rightarrow> db \<Rightarrow> db" where
  "dailySnapshot R s = fold (snapshot_one R (dayStart R (now R))) (map w_id (db_wallets s)) s"

section \<open>The postings balance\<close>

definition deposit_valid :: "runtime \<times> wallet \<times> transaction \<times> rat \<Rightarrow> bool" where
  "deposit_valid = (\<lambda>(R, w, t, fee). numeric_runtime R \<and> places 4 (t_amount t) \<and> 0 \<le> t_amount t \<and>
     t_amount t < 10 ^ 14 \<and> places 10 fee \<and> 0 \<le> fee \<and> (fee = 0 \<or> t_amount t + fee < 10 ^ 10))"

lemma deposit_gross_split:
  assumes "deposit_valid (R, w, t, fee)"
  shows "num4 R (dadd R (t_amount t) fee) = t_amount t + num4 R fee"
proof -
  have "rnd R (t_amount t + fee) = t_amount t + fee"
  proof (cases "fee = 0")
    case True
    then show ?thesis using assms numeric_runtime.rnd_places [of R 4 "t_amount t"]
      by (simp add: deposit_valid_def)
  next
    case False
    then show ?thesis using assms places_mono [of 4 "t_amount t" 10]
      by (intro numeric_runtime.rnd_places [of R 10]) (auto simp: deposit_valid_def places_add)
  qed
  then have "dadd R (t_amount t) fee = t_amount t + fee" by (simp add: dadd_def)
  with assms show ?thesis by (simp add: deposit_valid_def numeric_runtime.num4_shift)
qed

interpretation deposit_move: money_movement
  "\<lambda>(R, w, t, fee). R" "\<lambda>(R, w, t, fee). w_id w" "\<lambda>(R, w, t, fee). deposit_legs R w t fee"
  "\<lambda>(R, w, t, fee). t_amount t" deposit_valid
proof (rule money_movement.intro)
  fix x :: "runtime \<times> wallet \<times> transaction \<times> rat"
  obtain R w t fee where x: "x = (R, w, t, fee)" by (cases x)
  assume v: "deposit_valid x"
  then have N: "numeric_runtime R" and p: "places 4 (t_amount t)" "0 \<le> fee"
    by (auto simp: x deposit_valid_def)
  note legs = deposit_legs_def leg_total_def leg_wallet_def tx_total_Cons wallet_ledger_Cons
    deposit_gross_split [OF v [unfolded x]] numeric_runtime.num4_exact [OF N p(1)]
  show "numeric_runtime (case x of (R, w, t, fee) \<Rightarrow> R)" using N by (simp add: x)
  show "leg_total (case x of (R, w, t, fee) \<Rightarrow> R) DEBIT (case x of (R, w, t, fee) \<Rightarrow> deposit_legs R w t fee) =
      leg_total (case x of (R, w, t, fee) \<Rightarrow> R) CREDIT (case x of (R, w, t, fee) \<Rightarrow> deposit_legs R w t fee)"
    using p(2) numeric_runtime.num4_0 [OF N] by (simp add: x legs)
  show "leg_wallet (case x of (R, w, t, fee) \<Rightarrow> R) (case x of (R, w, t, fee) \<Rightarrow> w_id w)
      (case x of (R, w, t, fee) \<Rightarrow> deposit_legs R w t fee) = (case x of (R, w, t, fee) \<Rightarrow> t_amount t)"
    by (simp add: x legs)
  show "fst ` set (case x of (R, w, t, fee) \<Rightarrow> deposit_legs R w t fee)
      \<subseteq> {None, Some (case x of (R, w, t, fee) \<Rightarrow> w_id w)}"
    by (auto simp: x deposit_legs_def)
qed

definition withdrawal_valid :: "runtime \<times> wallet \<times> transaction \<Rightarrow> bool" where
  "withdrawal_valid = (\<lambda>(R, w, t). numeric_runtime R \<and> places 4 (t_amount t))"

interpretation withdrawal_move: money_movement
  "\<lambda>(R, w, t). R" "\<lambda>(R, w, t). w_id w" "\<lambda>(R, w, t). withdrawal_legs R w t"
  "\<lambda>(R, w, t). - t_amount t" withdrawal_valid
  by (rule money_movement.intro)
    (auto simp: withdrawal_valid_def withdrawal_legs_def leg_total_def leg_wallet_def tx_total_Cons
      wallet_ledger_Cons numeric_runtime.num4_exact)

section \<open>Completions\<close>

lemma walletIncrement_Inr:
  "walletIncrement R s i ver d = Inr s' \<Longrightarrow>
     s' = s\<lparr>db_wallets := upd_where (\<lambda>w. w_id w = i)
        (\<lambda>w. w\<lparr>w_balance := num4 R (w_balance w + d), w_version := Suc (w_version w)\<rparr>) (db_wallets s)\<rparr>"
  by (auto simp: walletIncrement_def split: if_splits)

definition bump :: "runtime \<Rightarrow> rat \<Rightarrow> wallet \<Rightarrow> wallet" where
  "bump R d w = w\<lparr>w_balance := num4 R (w_balance w + d), w_version := Suc (w_version w)\<rparr>"

lemma bump_simps [simp]:
  "w_id (bump R d w) = w_id w" "w_userId (bump R d w) = w_userId w"
  "w_balance (bump R d w) = num4 R (w_balance w + d)" "w_isFrozen (bump R d w) = w_isFrozen w"
  by (simp_all add: bump_def)

lemma completed_simps [simp]:
  "t_id (completed R t) = t_id t" "t_walletId (completed R t) = t_walletId t"
  "t_status (completed R t) = TX_COMPLETED" "t_amount (completed R t) = t_amount t"
  by (simp_all add: completed_def)

text \<open>What a successful completion did, for both directions.\<close>

definition completion ::
  "runtime \<Rightarrow> db \<Rightarrow> db \<Rightarrow> transaction \<Rightarrow> wallet \<Rightarrow> leg list \<Rightarrow> rat \<Rightarrow> bool" where
  "completion R s s' t w legs d \<longleftrightarrow>
     t_status t = TX_PENDING \<and> findTransactionById s (t_id t) = Some t \<and>
     findWalletById s (t_walletId t) = Some w \<and>
     s' = s\<lparr>db_uid := db_uid s + length legs,
        db_ledger := db_ledger s @ leg_entries R (t_id t) (db_uid s) legs,
        db_wallets := upd_where (\<lambda>v. w_id v = w_id w) (bump R d) (db_wallets s),
        db_transactions := upd_where (\<lambda>x. t_id x = t_id t) (completed R) (db_transactions s)\<rparr>"

lemma depositTx_Inr:
  assumes "depositTx R s tid = Inr s'"
  shows "\<exists>t w fee. t_id t = tid \<and> meta_processingFee t = Inr fee \<and>
     completion R s s' t w (deposit_legs R w t fee) (t_amount t)"
proof -
  from assms obtain t w fee s1 where *: "findTransactionById s tid = Some t" "t_status t = TX_PENDING"
    "findWalletById s (t_walletId t) = Some w" "meta_processingFee t = Inr fee"
    "walletIncrement R (post_legs R tid (deposit_legs R w t fee) s) (w_id w) (w_version w) (t_amount t) = Inr s1"
    "s' = updateTransaction s1 tid (completed R)"
    by (auto simp: depositTx_def split: option.splits sum.splits if_splits)
  from findTransactionById_Some [OF *(1)] have id: "t_id t = tid" by simp
  from walletIncrement_Inr [OF *(5)] *(1-3,6) id
  have "completion R s s' t w (deposit_legs R w t fee) (t_amount t)"
    by (simp add: completion_def post_legs_eq updateTransaction_def bump_def [abs_def])
  with id *(4) show ?thesis by blast
qed

lemma withdrawalTx_Inr:
  assumes "withdrawalTx R s tid = Inr s'"
  shows "\<exists>t w. t_id t = tid \<and> \<not> dsub R (w_balance w) (t_amount t) < 0 \<and>
     completion R s s' t w (withdrawal_legs R w t) (- t_amount t)"
proof -
  from assms obtain t w s1 where *: "findTransactionById s tid = Some t" "t_status t = TX_PENDING"
    "findWalletById s (t_walletId t) = Some w" "\<not> dsub R (w_balance w) (t_amount t) < 0"
    "walletIncrement R (post_legs R tid (withdrawal_legs R w t) s) (w_id w) (w_version w) (- t_amount t) = Inr s1"
    "s' = updateTransaction s1 tid (completed R)"
    by (auto simp: withdrawalTx_def split: option.splits sum.splits if_splits)
  from findTransactionById_Some [OF *(1)] have id: "t_id t = tid" by simp
  from walletIncrement_Inr [OF *(5)] *(1-3,6) id
  have "completion R s s' t w (withdrawal_legs R w t) (- t_amount t)"
    by (simp add: completion_def post_legs_eq updateTransaction_def bump_def [abs_def])
  with id *(4) show ?thesis by blast
qed

lemma completion_pending_ok:
  assumes "books_ok s" and "completion R s s' t w legs d"
  shows "pending_ok t" and "places 4 (t_amount t)" and "0 \<le> t_amount t" and "places 4 (w_balance w)"
    and "w \<in> set (db_wallets s)" and "t \<in> set (db_transactions s)"
proof -
  have t: "t \<in> set (db_transactions s)" "t_status t = TX_PENDING" and w: "w \<in> set (db_wallets s)"
    using assms(2) by (auto simp: completion_def dest: findTransactionById_Some findWalletById_Some)
  show "pending_ok t" using assms(1) t by (simp add: books_defs)
  with t show "places 4 (t_amount t)" and "0 \<le> t_amount t" by (auto simp: pending_ok_def)
  show "places 4 (w_balance w)" using assms(1) w unfolding books_ok_def wallets_ok_def by blast
qed (use assms(2) in \<open>auto simp: completion_def dest: findTransactionById_Some findWalletById_Some\<close>)

lemma completion_wallet_ids:
  "completion R s s' t w legs d \<Longrightarrow> w_id ` set (db_wallets s') = w_id ` set (db_wallets s)"
proof -
  assume "completion R s s' t w legs d"
  then have "map w_id (db_wallets s') = map w_id (db_wallets s)"
    by (simp add: completion_def map_upd_where)
  then show ?thesis by (metis set_map)
qed

lemma completion_transactions:
  assumes "books_ok s" and "completion R s s' t w legs d"
  shows "transactions_ok s'"
    and "k = t_id t \<or> (\<exists>t \<in> set (db_transactions s). t_id t = k \<and> t_status t = TX_COMPLETED) \<Longrightarrow>
        \<exists>t \<in> set (db_transactions s'). t_id t = k \<and> t_status t = TX_COMPLETED"
proof -
  have *: "db_transactions s' = upd_where (\<lambda>x. t_id x = t_id t) (completed R) (db_transactions s)"
    "db_uid s \<le> db_uid s'"
    using assms(2) by (simp_all add: completion_def)
  note c = complete_transactions_ok [OF assms(1) completion_pending_ok(6) [OF assms] refl *(1) _ _ _
      completion_wallet_ids [OF assms(2)] *(2)]
  show "transactions_ok s'" by (rule c(1)) simp_all
  show "k = t_id t \<or> (\<exists>t \<in> set (db_transactions s). t_id t = k \<and> t_status t = TX_COMPLETED) \<Longrightarrow>
        \<exists>t \<in> set (db_transactions s'). t_id t = k \<and> t_status t = TX_COMPLETED"
    by (rule c(2)) simp_all
qed

context money_movement
begin

lemma completion_keeps_books:
  assumes "books_ok s" and "completion (rt x) s s' t w (legs x) (change x)" and "valid x" and "wid x = w_id w"
  shows "books_ok s'"
proof (rule post_keeps_books [OF assms(1,3) completion_pending_ok(5) [OF assms(1,2)]])
  note c = assms(2) [unfolded completion_def]
  have ch: "places 4 (change x)"
    unfolding effect [OF assms(3), symmetric] leg_wallet_def wallet_ledger_def
    by (intro places_diff places_sum_where)
      (auto dest!: leg_entries_set simp: numeric_runtime.num4_places [OF runtime [OF assms(3)]])
  show "db_wallets s' = upd_where (\<lambda>v. w_id v = wid x) (bump (rt x) (change x)) (db_wallets s)"
    using c assms(4) by simp
  show "w_balance (bump (rt x) (change x) w) = w_balance w + change x"
    using numeric_runtime.num4_exact [OF runtime [OF assms(3)]] ch completion_pending_ok(4) [OF assms(1,2)]
    by (simp add: places_add)
  show "db_ledger s' = db_ledger s @ leg_entries (rt x) (t_id t) (db_uid s) (legs x)" "db_uid s \<le> db_uid s'"
    using c by simp_all
qed (use assms(4) completion_transactions [OF assms(1,2)] in simp_all)

end

lemma emit_wallet_updated_cong:
  "db_wallets (emit_wallet_updated R ty tid s) = db_wallets s"
  "db_transactions (emit_wallet_updated R ty tid s) = db_transactions s"
  "db_ledger (emit_wallet_updated R ty tid s) = db_ledger s"
  "db_uid (emit_wallet_updated R ty tid s) = db_uid s"
  "db_reservations (emit_wallet_updated R ty tid s) = db_reservations s"
  by (simp_all add: emit_wallet_updated_def split: option.splits)

lemma books_emit_wallet_updated [simp]: "books_ok s \<Longrightarrow> books_ok (emit_wallet_updated R ty tid s)"
  by (rule books_cong) (simp_all add: emit_wallet_updated_cong)

lemma depositTx_keeps_books:
  assumes "numeric_runtime R" and "books_ok s" and "depositTx R s tid = Inr s'"
  shows "books_ok s'"
proof -
  from depositTx_Inr [OF assms(3)] obtain t w fee where *: "meta_processingFee t = Inr fee"
    and c: "completion R s s' t w (deposit_legs R w t fee) (t_amount t)" by blast
  have "deposit_valid (R, w, t, fee)"
    using completion_pending_ok [OF assms(2) c] c * assms(1)
    by (auto simp: deposit_valid_def pending_ok_def meta_processingFee_def completion_def Let_def
        split: option.splits if_splits)
  then show ?thesis
    using deposit_move.completion_keeps_books [of s "(R, w, t, fee)" s' t w] assms(2) c by simp
qed

lemma withdrawalTx_keeps_books:
  assumes "numeric_runtime R" and "books_ok s" and "withdrawalTx R s tid = Inr s'"
  shows "books_ok s'"
proof -
  from withdrawalTx_Inr [OF assms(3)] obtain t w where
    c: "completion R s s' t w (withdrawal_legs R w t) (- t_amount t)" by blast
  have "withdrawal_valid (R, w, t)"
    using completion_pending_ok(2) [OF assms(2) c] assms(1) by (simp add: withdrawal_valid_def)
  then show ?thesis
    using withdrawal_move.completion_keeps_books [of s "(R, w, t)" s' t w] assms(2) c by simp
qed

section \<open>The other handlers keep the books\<close>

lemma fee_forBroker_cache:
  "snd (fee_forBroker R cfgs c b) = c \<or>
   snd (fee_forBroker R cfgs c b) = c(b := Some (resolve_fee_policy R cfgs b, now R))"
  by (auto simp: fee_forBroker_def Let_def split: option.splits)

lemma feePolicyForUser_state: "\<exists>c. snd (feePolicyForUser R s u) = s\<lparr>db_feeCache := c\<rparr>"
  by (auto simp: feePolicyForUser_def split_beta Let_def)

lemma riskPolicyForUser_state: "\<exists>c. snd (riskPolicyForUser R s u) = s\<lparr>db_riskCache := c\<rparr>"
  by (auto simp: riskPolicyForUser_def split_beta Let_def)

lemma checkDeposit_state: "\<exists>c. snd (checkDeposit R s u a m) = s\<lparr>db_riskCache := c\<rparr>"
  using riskPolicyForUser_state [of R s u] by (simp add: checkDeposit_def Let_def split_beta)

text \<open>Two states that agree on everything but the policy caches, for frame conditions.\<close>

definition tables_eq :: "db \<Rightarrow> db \<Rightarrow> bool" where
  "tables_eq s s' \<longleftrightarrow> (\<exists>f r p. s' = s\<lparr>db_feeCache := f, db_riskCache := r, db_platformCache := p\<rparr>)"

lemma tables_eqI: "s' = s\<lparr>db_feeCache := f, db_riskCache := r, db_platformCache := p\<rparr> \<Longrightarrow> tables_eq s s'"
  unfolding tables_eq_def by blast

lemma tables_eq_refl [simp]: "tables_eq s s"
  by (rule tables_eqI [where f = "db_feeCache s" and r = "db_riskCache s" and p = "db_platformCache s"]) simp

lemma tables_eq_trans [trans]:
  assumes "tables_eq s s'" and "tables_eq s' s''"
  shows "tables_eq s s''"
proof -
  from assms obtain f r p where "s'' = s\<lparr>db_feeCache := f, db_riskCache := r, db_platformCache := p\<rparr>"
    unfolding tables_eq_def by auto
  then show ?thesis by (rule tables_eqI)
qed

lemma tables_eq_fields:
  assumes "tables_eq s s'"
  shows "db_wallets s' = db_wallets s" "db_transactions s' = db_transactions s"
    "db_ledger s' = db_ledger s" "db_uid s' = db_uid s" "db_reservations s' = db_reservations s"
    "db_users s' = db_users s" "db_orders s' = db_orders s" "db_holdings s' = db_holdings s"
    "db_trades s' = db_trades s" "db_outbox s' = db_outbox s" "db_settlements s' = db_settlements s"
  using assms by (auto simp: tables_eq_def)

lemma tables_eq_books: "tables_eq s s' \<Longrightarrow> books_ok s' \<longleftrightarrow> books_ok s"
  by (auto simp: tables_eq_fields intro: books_cong [of s' s] books_cong [of s s'])

lemma tables_eq_feePolicy: "tables_eq s (snd (feePolicyForUser R s u))"
proof -
  obtain c where "snd (feePolicyForUser R s u) = s\<lparr>db_feeCache := c\<rparr>"
    using feePolicyForUser_state by blast
  then show ?thesis by (intro tables_eqI [where f = c and r = "db_riskCache s" and p = "db_platformCache s"]) simp
qed

lemma tables_eq_checkDeposit: "tables_eq s (snd (checkDeposit R s u a m))"
proof -
  obtain c where "snd (checkDeposit R s u a m) = s\<lparr>db_riskCache := c\<rparr>"
    using checkDeposit_state by blast
  then show ?thesis by (intro tables_eqI [where f = "db_feeCache s" and r = c and p = "db_platformCache s"]) simp
qed

lemma ensureBroker_books: "books_ok s \<Longrightarrow> books_ok (snd (ensureBroker s u))"
proof -
  assume b: "books_ok s"
  have "books_ok (s\<lparr>db_users := us, db_wallets := upd_where P (\<lambda>w. w\<lparr>w_brokerId := Some x\<rparr>) (db_wallets s)\<rparr>)"
    for us P x
    using books_wallet_update [OF b, of "\<lambda>w. w\<lparr>w_brokerId := Some x\<rparr>" P]
    by (rule books_cong [rotated -1]) simp_all
  with b show ?thesis by (auto simp: ensureBroker_def split: option.splits)
qed

lemma ensureBroker_fees:
  "db_feeCache (snd (ensureBroker s u)) = db_feeCache s" "db_feeConfigs (snd (ensureBroker s u)) = db_feeConfigs s"
  by (simp_all add: ensureBroker_def split: option.split)

lemma ensureWallet_Inr:
  assumes "ensureWallet s u = Inr (s', i)"
  shows "books_ok s \<Longrightarrow> books_ok s'" and "i \<in> w_id ` set (db_wallets s')"
    and "db_transactions s' = db_transactions s" and "db_reservations s' = db_reservations s"
    and "db_feeCache s' = db_feeCache s" and "db_feeConfigs s' = db_feeConfigs s"
  using assms findWalletByUserId_None [of s u]
  by (auto simp: ensureWallet_def createWallet_def new_wallet_def intro!: books_new_wallet [unfolded new_wallet_def]
      dest: findWalletByUserId_Some split: option.splits if_splits)

lemma createTransaction_books:
  assumes "createTransaction R s wid ty amt key oid meta = Inr (s', i)" and "books_ok s"
    and "wid \<in> w_id ` set (db_wallets s)"
    and "\<And>t. t_amount t = num4 R amt \<Longrightarrow> t_metadata t = meta \<Longrightarrow> pending_ok t"
  shows "books_ok s'"
  using assms unfolding createTransaction_def Let_def
  by (auto dest!: insertTransaction_Inr intro!: books_new_transaction)

subsection \<open>Fee configuration\<close>

definition fee_policy_ok :: "ResolvedFeePolicy \<Rightarrow> bool" where
  "fee_policy_ok p \<longleftrightarrow> places 4 (depositFeeValue p) \<and> (depositFeeKind p = PERCENT \<longrightarrow> depositFeeValue p \<le> 100)"

definition fee_state_ok :: "db \<Rightarrow> bool" where
  "fee_state_ok s \<longleftrightarrow>
     (\<forall>b p t. db_feeCache s b = Some (p, t) \<longrightarrow> fee_policy_ok p) \<and>
     (\<forall>b c. map_of (db_feeConfigs s) b = Some c \<longrightarrow>
        places 4 (cfg_depositFeeValue c) \<and> (cfg_depositFeeKind c = PERCENT \<longrightarrow> cfg_depositFeeValue c \<le> 100))"

lemma resolve_fee_policy_ok:
  "(\<And>b c. cfgs b = Some c \<Longrightarrow> places 4 (cfg_depositFeeValue c) \<and>
      (cfg_depositFeeKind c = PERCENT \<longrightarrow> cfg_depositFeeValue c \<le> 100)) \<Longrightarrow>
     fee_policy_ok (resolve_fee_policy R cfgs b)"
  by (auto simp: resolve_fee_policy_def default_fee_policy_def fee_policy_ok_def Let_def split: option.splits)

lemma feePolicyForUser_ok: "fee_state_ok s \<Longrightarrow> fee_policy_ok (fst (feePolicyForUser R s u))"
proof -
  assume ok: "fee_state_ok s"
  let ?b = "case map_option u_brokerId (findUser s u) of None \<Rightarrow> None | Some b \<Rightarrow> b"
  have "fst (feePolicyForUser R s u) = fst (fee_forBroker R (map_of (db_feeConfigs s)) (db_feeCache s) ?b)"
    by (simp add: feePolicyForUser_def fee_forUser_def split_beta Let_def)
  moreover have "fee_policy_ok (resolve_fee_policy R (map_of (db_feeConfigs s)) ?b)"
    using ok by (intro resolve_fee_policy_ok) (auto simp: fee_state_ok_def)
  ultimately show ?thesis
    using ok by (auto simp: fee_forBroker_def Let_def fee_state_ok_def split: option.splits)
qed

subsection \<open>Initiations\<close>

lemma deposit_metadata_fee:
  "jfield ''processingFee'' (JObj (deposit_metadata meta b)) = JDec (processingFee b)"
  by (auto simp: deposit_metadata_def map_of_jspread split: option.splits list.splits)

lemma deposit_pending_ok:
  assumes "numeric_runtime R" and "fee_policy_ok p" and "places 4 a" "0 < a" "a \<le> 10 ^ 9"
    and "t_amount t = num4 R (netAmount (depositBreakdown R p a))"
    and "t_metadata t = deposit_metadata meta (depositBreakdown R p a)"
  shows "pending_ok t"
proof -
  let ?b = "depositBreakdown R p a"
  have e: "netAmount ?b = a - processingFee ?b" "0 \<le> processingFee ?b" "processingFee ?b \<le> a"
    "places 10 (processingFee ?b)"
    using numeric_runtime.deposit_exact [OF assms(1), of a p] assms(2-5)
    by (simp_all add: fee_policy_ok_def)
  have "0 \<le> num4 R (netAmount ?b)" using e numeric_runtime.num4_nonneg [OF assms(1)] by simp
  moreover have "num4 R (netAmount ?b) \<le> num4 R a"
    using e by (intro numeric_runtime.num4_mono [OF assms(1)]) simp
  moreover have "num4 R a = a" by (rule numeric_runtime.num4_exact [OF assms(1,3)])
  ultimately show ?thesis
    using assms e numeric_runtime.num4_places [OF assms(1)] deposit_metadata_fee [of meta ?b]
    by (simp add: pending_ok_def)
qed

lemma withdrawal_pending_ok:
  assumes "numeric_runtime R" and "places 4 a" "0 < a" "a < 10 ^ 14" "t_amount t = num4 R a" "t_metadata t = []"
  shows "pending_ok t"
  using assms numeric_runtime.num4_exact [OF assms(1,2)] by (simp add: pending_ok_def)

lemma initiateDeposit_books:
  assumes "numeric_runtime R" and "books_ok s" and "fee_state_ok s" and "places 4 a" "0 < a" "a \<le> 10 ^ 9"
  shows "books_ok (snd (initiateDeposit R s u a key meta meth))"
proof -
  obtain ok s1 where eb: "ensureBroker s u = (ok, s1)" by (cases "ensureBroker s u")
  have b1: "books_ok s1" using ensureBroker_books [OF assms(2), of u] eb by simp
  have f1: "fee_state_ok s1"
    using assms(3) eb ensureBroker_fees [of s u] by (simp add: fee_state_ok_def)
  show ?thesis
  proof (cases "depositor_check s1 u")
    case (Some e)
    with eb b1 show ?thesis by (simp add: initiateDeposit_def)
  next
    case None
    show ?thesis
    proof (cases "ensureWallet s1 u")
      case (Inl e)
      with eb b1 None show ?thesis by (simp add: initiateDeposit_def)
    next
      case (Inr q)
      then obtain s2 wid where w: "ensureWallet s1 u = Inr (s2, wid)" by (cases q) auto
      have b2: "books_ok s2" using ensureWallet_Inr(1) [OF w b1] .
      obtain risk s3 where rk: "checkDeposit R s2 u a meth = (risk, s3)" by (cases "checkDeposit R s2 u a meth")
      have t3: "tables_eq s2 s3" using tables_eq_checkDeposit [of s2 R u a meth] rk by simp
      obtain p s4 where fp: "feePolicyForUser R s3 u = (p, s4)" by (cases "feePolicyForUser R s3 u")
      have t4: "tables_eq s2 s4" using t3 tables_eq_feePolicy [of s3 R u] fp by (auto intro: tables_eq_trans)
      have b3: "books_ok s3" using b2 tables_eq_books [OF t3] by simp
      have b4: "books_ok s4" using b2 tables_eq_books [OF t4] by simp
      have "fee_state_ok s3"
        using f1 rk checkDeposit_state [of R s2 u a meth] ensureWallet_Inr(5,6) [OF w]
        unfolding fee_state_ok_def by force
      then have p: "fee_policy_ok p" using feePolicyForUser_ok [of s3 R u] fp by simp
      have "books_ok s5" if "createTransaction R s4 wid DEPOSIT (netAmount (depositBreakdown R p a)) key None
          (deposit_metadata meta (depositBreakdown R p a)) = Inr (s5, i)" for s5 i
        using that b4 ensureWallet_Inr(2) [OF w] tables_eq_fields(1) [OF t4]
        by (intro createTransaction_books [OF that b4])
          (auto intro: deposit_pending_ok [OF assms(1) p assms(4-6)])
      with None w rk fp b2 b3 b4 eb show ?thesis
        by (auto simp: initiateDeposit_def Let_def dest: findWalletById_Some split: option.splits sum.splits)
    qed
  qed
qed

lemma initiateWithdrawal_books:
  assumes "numeric_runtime R" and "books_ok s" and "places 4 a" "0 < a" "a < 10 ^ 14"
  shows "books_ok (snd (initiateWithdrawal R s u a key))"
proof (cases "ensureWallet s u")
  case (Inl e)
  with assms(2) show ?thesis by (simp add: initiateWithdrawal_def)
next
  case (Inr q)
  then obtain s2 wid where w: "ensureWallet s u = Inr (s2, wid)" by (cases q) auto
  have b2: "books_ok s2" using ensureWallet_Inr(1) [OF w assms(2)] .
  have "books_ok s3" if "createTransaction R s2 wid WITHDRAWAL a key None [] = Inr (s3, i)" for s3 i
    using ensureWallet_Inr(2) [OF w]
    by (intro createTransaction_books [OF that b2]) (auto intro: withdrawal_pending_ok [OF assms(1,3-5)])
  with w b2 show ?thesis
    by (auto simp: initiateWithdrawal_def Let_def dest: findWalletById_Some split: option.splits sum.splits)
qed

subsection \<open>Status changes and holds\<close>

lemma markDepositFailed_books: "books_ok s \<Longrightarrow> books_ok (markDepositFailed s txRef)"
  unfolding markDepositFailed_def
  by (rule books_transaction_update) (auto simp: pending_deposit_def pending_ok_def)

lemma rejectWithdrawal_books: "books_ok s \<Longrightarrow> books_ok (snd (rejectWithdrawal R s tid reason))"
proof -
  assume b: "books_ok s"
  have "books_ok (updateTransaction s tid (\<lambda>x. x\<lparr>t_status := TX_FAILED, t_processedAt := p, t_metadata := m\<rparr>))"
    if "findTransactionById s tid = Some t" "t_status t = TX_PENDING" for t p m
  proof -
    have "r = t" if "r \<in> set (db_transactions s)" "t_id r = tid" for r
      using that \<open>findTransactionById s tid = Some t\<close> b find_key_distinct [of t_id "db_transactions s" r]
      by (simp add: findTransactionById_def books_defs)
    with that(2) show ?thesis unfolding updateTransaction_def
      by (intro books_transaction_update [OF b]) (auto simp: pending_ok_def)
  qed
  then show ?thesis using b
    by (auto simp: rejectWithdrawal_def Let_def intro: books_cong split: option.splits)
qed

lemma attachDepositMetadata_books:
  assumes "books_ok s" and "map_of patch ''processingFee'' = None"
  shows "books_ok (attachDepositMetadata s txRef patch)"
proof (cases "List.find (pending_deposit txRef) (db_transactions s)")
  case None
  with assms show ?thesis by (simp add: attachDepositMetadata_def)
next
  case (Some t)
  then have t: "t \<in> set (db_transactions s)" by (auto simp: find_Some_iff)
  have u: "r = t" if "r \<in> set (db_transactions s)" "t_id r = t_id t" for r
    using that t assms(1) by (auto simp: books_defs distinct_map dest: inj_onD)
  have p: "pending_ok t" using t assms(1) by (simp add: books_defs)
  have "books_ok (s\<lparr>db_transactions := upd_where (\<lambda>x. t_id x = t_id t)
      (\<lambda>x. x\<lparr>t_metadata := jspread (t_metadata t) patch\<rparr>) (db_transactions s)\<rparr>)"
    using p assms(2)
    by (intro books_transaction_update [OF assms(1)])
      (auto dest!: u simp: pending_ok_def map_of_jspread split: option.splits)
  with Some show ?thesis by (simp add: attachDepositMetadata_def updateTransaction_def)
qed

lemma reservation_ops_books:
  "books_ok s \<Longrightarrow> books_ok (consumeReservation R s oid)"
  "books_ok s \<Longrightarrow> books_ok (releaseReservation R s oid)"
  "books_ok s \<Longrightarrow> books_ok (expireStaleReservations R s)"
  by (rule books_cong; simp add: consumeReservation_def releaseReservation_def expireStaleReservations_def
      expireReservations_def repo_consumeReservation_def repo_releaseReservation_def split: option.split)+

lemma reserveFunds_books: "reserveFunds R s u oid amt e = Inr (s', i) \<Longrightarrow> books_ok s \<Longrightarrow> books_ok s'"
  by (rule books_cong [of s' s])
    (auto simp: reserveFunds_def createReservation_def Let_def split: option.splits if_splits)

lemma dailySnapshot_books: "books_ok s \<Longrightarrow> books_ok (dailySnapshot R s)"
proof -
  have "books_ok s \<Longrightarrow> books_ok (snapshot_one R d i s)" for s d i
    by (rule books_cong [of _ s]) (simp_all add: snapshot_one_def upsertSnapshot_def Let_def split: option.split)
  then have "books_ok s \<Longrightarrow> books_ok (fold (snapshot_one R d) is s)" for d "is" s
    by (induction "is" arbitrary: s) auto
  then show "books_ok s \<Longrightarrow> books_ok (dailySnapshot R s)" by (simp add: dailySnapshot_def)
qed

section \<open>Sample states\<close>

text \<open>A customer with one wallet and a pending card deposit of 975 net of a fee of 25; the same bank
  after the deposit was confirmed; and after the customer asked for 400 of it back.\<close>

definition sample_user :: user where
  "sample_user = \<lparr>u_id = 1, u_role = CUSTOMER, u_brokerId = Some 7, u_kycStatus = KYC_APPROVED,
     u_deletedAt = None\<rparr>"

definition bank0 :: db where
  "bank0 = empty_db\<lparr>db_users := [sample_user], db_wallets := [new_wallet 2 1 ''MWK'' (Some 7)],
     db_transactions := [\<lparr>t_id = 3, t_walletId = 2, t_brokerId = Some 7, t_type = DEPOSIT,
       t_status = TX_PENDING, t_amount = 975, t_currency = ''MWK'', t_idempotencyKey = Some ''ref'',
       t_relatedOrderId = None, t_metadata = [(''processingFee'', JDec 25)], t_processedAt = None,
       t_createdAt = 0\<rparr>]\<rparr>"

definition bank1 :: db where
  "bank1 = snd (processDeposit (pg_runtime 5) bank0 3)"

definition bank2 :: db where
  "bank2 = snd (initiateWithdrawal (pg_runtime 6) bank1 1 400 (Some ''w1''))"

lemma bank0_books: "books_ok bank0"
  by (simp add: bank0_def empty_db_def new_wallet_def books_defs pending_ok_def)

lemma processDeposit_books: "numeric_runtime R \<Longrightarrow> books_ok s \<Longrightarrow> books_ok (snd (processDeposit R s tid))"
  by (auto simp: processDeposit_def split: sum.splits dest: depositTx_keeps_books)

lemma processWithdrawal_books: "numeric_runtime R \<Longrightarrow> books_ok s \<Longrightarrow> books_ok (snd (processWithdrawal R s tid))"
  by (auto simp: processWithdrawal_def split: sum.splits dest: withdrawalTx_keeps_books)

lemma bank1_books: "books_ok bank1"
  unfolding bank1_def by (rule processDeposit_books [OF pg.numeric_runtime_axioms bank0_books])

lemma bank2_books: "books_ok bank2"
  unfolding bank2_def
  by (rule initiateWithdrawal_books [OF pg.numeric_runtime_axioms bank1_books]) simp_all

section \<open>Properties\<close>

lemma findWalletById_upd:
  assumes "\<And>v. w_id (f v) = w_id v"
  shows "List.find (\<lambda>v. w_id v = i) (upd_where (\<lambda>v. w_id v = j) f ws) =
     map_option (\<lambda>v. if i = j then f v else v) (List.find (\<lambda>v. w_id v = i) ws)"
  by (rule find_upd_where) (rule assms)

lemma completion_effect:
  assumes "numeric_runtime R" and "books_ok s" and "completion R s s' t w legs d" and "places 4 d"
  shows "findWalletById s' (w_id w) = Some (w\<lparr>w_balance := w_balance w + d, w_version := Suc (w_version w)\<rparr>)"
    and "i \<noteq> w_id w \<Longrightarrow> findWalletById s' i = findWalletById s i"
    and "findTransactionById s' (t_id t) = Some (completed R t)"
    and "findTransactionById s (t_id t) = Some t" and "t_status t = TX_PENDING"
    and "findWalletById s (t_walletId t) = Some w"
proof -
  note c = assms(3) [unfolded completion_def]
  have "w_id w = t_walletId t" using c findWalletById_Some by blast
  then have w: "List.find (\<lambda>v. w_id v = w_id w) (db_wallets s) = Some w"
    using c by (simp add: findWalletById_def)
  have "num4 R (w_balance w + d) = w_balance w + d"
    using completion_pending_ok(4) [OF assms(2,3)] assms(4) numeric_runtime.num4_exact [OF assms(1)]
    by (simp add: places_add)
  with c w show "findWalletById s' (w_id w) = Some (w\<lparr>w_balance := w_balance w + d, w_version := Suc (w_version w)\<rparr>)"
    by (simp add: findWalletById_def findWalletById_upd bump_def)
  show "i \<noteq> w_id w \<Longrightarrow> findWalletById s' i = findWalletById s i"
    using c by (simp add: findWalletById_def findWalletById_upd option.map_ident)
  show "findTransactionById s' (t_id t) = Some (completed R t)"
    using c by (simp add: findTransactionById_def find_upd_where)
qed (use assms(3) in \<open>simp_all add: completion_def\<close>)

lemma emit_wallet_updated_find:
  "findWalletById (emit_wallet_updated R ty tid s) i = findWalletById s i"
  "findTransactionById (emit_wallet_updated R ty tid s) i = findTransactionById s i"
  by (simp_all add: findWalletById_def findTransactionById_def emit_wallet_updated_cong)

text \<open>C5. A confirmed deposit credits its wallet exactly once.  When \<open>processDeposit\<close> succeeds the
  transaction was pending and is now completed, its wallet's balance has grown by exactly the
  transaction's amount, every other wallet is untouched and the books still balance (gross into
  platform cash, net to the wallet, fee to revenue); running it again fails and changes nothing.\<close>

theorem deposit_credits_once:
  assumes "numeric_runtime R" and "books_ok s" and "processDeposit R s tid = (Inr (), s')"
  shows "\<exists>t w. findTransactionById s tid = Some t \<and> t_status t = TX_PENDING \<and>
     findWalletById s (t_walletId t) = Some w \<and>
     findTransactionById s' tid = Some (completed R t) \<and>
     findWalletById s' (w_id w) =
       Some (w\<lparr>w_balance := w_balance w + t_amount t, w_version := Suc (w_version w)\<rparr>) \<and>
     (\<forall>i. i = w_id w \<or> findWalletById s' i = findWalletById s i) \<and>
     books_ok s' \<and>
     processDeposit R' s' tid = (Inl (BadRequest (Msg ''Transaction already processed'')), s')"
proof -
  from assms(3) obtain s1 where d: "depositTx R s tid = Inr s1"
    and s': "s' = emit_wallet_updated R DEPOSIT tid s1"
    by (auto simp: processDeposit_def split: sum.splits)
  from depositTx_Inr [OF d] obtain t w fee where id: "t_id t = tid"
    and c: "completion R s s1 t w (deposit_legs R w t fee) (t_amount t)" by blast
  note e = completion_effect [OF assms(1,2) c completion_pending_ok(2) [OF assms(2) c]]
  have b: "books_ok s'" using depositTx_keeps_books [OF assms(1,2) d] s' by simp
  have "findTransactionById s' tid = Some (completed R t)"
    using e(3) id s' by (simp add: emit_wallet_updated_find)
  moreover from this
  have "processDeposit R' s' tid = (Inl (BadRequest (Msg ''Transaction already processed'')), s')"
    by (simp add: processDeposit_def depositTx_def)
  ultimately show ?thesis
    using e id b s' by (intro exI [of _ t] exI [of _ w]) (auto simp: emit_wallet_updated_find)
qed

theorem deposit_credits_once_witness:
  "fst (processDeposit (pg_runtime 5) bank0 3) = Inr () \<and>
   map_option w_balance (findWalletById (snd (processDeposit (pg_runtime 5) bank0 3)) 2) = Some 975 \<and>
   fst (processDeposit (pg_runtime 9) (snd (processDeposit (pg_runtime 5) bank0 3)) 3)
     = Inl (BadRequest (Msg ''Transaction already processed''))"
proof -
  let ?s = "snd (processDeposit (pg_runtime 5) bank0 3)"
  have f: "fst (processDeposit (pg_runtime 5) bank0 3) = Inr ()" by code_simp
  have g: "map_option w_balance (findWalletById ?s 2) = Some 975" by code_simp
  from f have "processDeposit (pg_runtime 5) bank0 3 = (Inr (), ?s)" by (metis prod.collapse)
  from deposit_credits_once [OF pg.numeric_runtime_axioms bank0_books this, of "pg_runtime 9"] f g
  show ?thesis by auto
qed

text \<open>C6. A settled withdrawal debits its wallet exactly once and never overdraws it.  When
  \<open>processWithdrawal\<close> succeeds the transaction was pending and is now completed, its wallet's balance
  has fallen by exactly the amount and is not negative, every other wallet is untouched and the
  books still balance; running it again fails and changes nothing.\<close>

theorem withdrawal_debits_once:
  assumes "numeric_runtime R" and "books_ok s" and "processWithdrawal R s tid = (Inr (), s')"
  shows "\<exists>t w. findTransactionById s tid = Some t \<and> t_status t = TX_PENDING \<and>
     findWalletById s (t_walletId t) = Some w \<and>
     findTransactionById s' tid = Some (completed R t) \<and>
     findWalletById s' (w_id w) =
       Some (w\<lparr>w_balance := w_balance w - t_amount t, w_version := Suc (w_version w)\<rparr>) \<and>
     0 \<le> w_balance w - t_amount t \<and>
     (\<forall>i. i = w_id w \<or> findWalletById s' i = findWalletById s i) \<and>
     books_ok s' \<and>
     processWithdrawal R' s' tid = (Inl (BadRequest (Msg ''Transaction already processed'')), s')"
proof -
  from assms(3) obtain s1 where d: "withdrawalTx R s tid = Inr s1"
    and s': "s' = emit_wallet_updated R WITHDRAWAL tid s1"
    by (auto simp: processWithdrawal_def split: sum.splits)
  from withdrawalTx_Inr [OF d] obtain t w where id: "t_id t = tid"
    and nn: "\<not> dsub R (w_balance w) (t_amount t) < 0"
    and c: "completion R s s1 t w (withdrawal_legs R w t) (- t_amount t)" by blast
  note e = completion_effect [OF assms(1,2) c places_minus [OF completion_pending_ok(2) [OF assms(2) c]]]
  have b: "books_ok s'" using withdrawalTx_keeps_books [OF assms(1,2) d] s' by simp
  have "0 \<le> w_balance w - t_amount t"
    using nn numeric_runtime.rnd_sign [OF assms(1)] by (simp add: dsub_def not_less)
  moreover have "findTransactionById s' tid = Some (completed R t)"
    using e(3) id s' by (simp add: emit_wallet_updated_find)
  moreover from this
  have "processWithdrawal R' s' tid = (Inl (BadRequest (Msg ''Transaction already processed'')), s')"
    by (simp add: processWithdrawal_def withdrawalTx_def)
  ultimately show ?thesis
    using e id b s' by (intro exI [of _ t] exI [of _ w]) (auto simp: emit_wallet_updated_find)
qed

theorem withdrawal_debits_once_witness:
  "fst (processWithdrawal (pg_runtime 7) bank2 103) = Inr () \<and>
   map_option w_balance (findWalletById (snd (processWithdrawal (pg_runtime 7) bank2 103)) 2) = Some 575 \<and>
   fst (processWithdrawal (pg_runtime 9) (snd (processWithdrawal (pg_runtime 7) bank2 103)) 103)
     = Inl (BadRequest (Msg ''Transaction already processed''))"
proof -
  let ?s = "snd (processWithdrawal (pg_runtime 7) bank2 103)"
  have f: "fst (processWithdrawal (pg_runtime 7) bank2 103) = Inr ()" by code_simp
  have g: "map_option w_balance (findWalletById ?s 2) = Some 575" by code_simp
  from f have "processWithdrawal (pg_runtime 7) bank2 103 = (Inr (), ?s)" by (metis prod.collapse)
  from withdrawal_debits_once [OF pg.numeric_runtime_axioms bank2_books this, of "pg_runtime 9"] f g
  show ?thesis by auto
qed

text \<open>What reconciliation computes, whatever state the books are in.\<close>

lemma reconcile_figures:
  assumes "numeric_runtime R" and "findWalletByUserId s u = Some w"
    and "places 4 (w_balance w)" and "\<forall>l \<in> set (db_ledger s). places 4 (l_amount l)"
    and "\<bar>w_balance w\<bar> < 10 ^ 10" and "\<bar>wallet_ledger (db_ledger s) (w_id w)\<bar> < 10 ^ 10"
  shows "\<exists>r. reconcile R s u = Inr r \<and> rec_discrepancy r = w_balance w - wallet_ledger (db_ledger s) (w_id w) \<and>
     rec_walletBalance r = w_balance w \<and> rec_ledgerBalance r = wallet_ledger (db_ledger s) (w_id w)"
proof -
  let ?l = "wallet_ledger (db_ledger s) (w_id w)"
  have sw: "places 4 (sum_where P l_amount xs)" if "\<forall>l \<in> set xs. places 4 (l_amount l)" for P xs
    using that by (induction xs) (auto simp: sum_where_def intro: places_add)
  have pl: "places 4 ?l" using sw [OF assms(4)] by (simp add: wallet_ledger_def places_diff)
  have j: "js R x = x" if "places 4 x" "\<bar>x\<bar> < 10 ^ 11" for x
    using that by (intro numeric_runtime.js_places [OF assms(1), of 4]) simp_all
  have "sumLedgerBalance R s (w_id w) = ?l"
    using assms(6) pl numeric_runtime.rnd_places4 [OF assms(1), of ?l]
    by (simp add: sumLedgerBalance_def dsub_def wallet_ledger_def)
  moreover have d: "places 4 (w_balance w - ?l)" "\<bar>w_balance w - ?l\<bar> < 10 ^ 11"
    using assms(3,5,6) pl by (auto intro: places_diff)
  moreover have "dsub R (w_balance w) ?l = w_balance w - ?l"
    using d unfolding dsub_def by (intro numeric_runtime.rnd_places4 [OF assms(1)]) simp_all
  ultimately show ?thesis using assms(2,3,5,6) pl j by (simp add: reconcile_def Let_def)
qed

text \<open>A failure signal never claws money back: marking a deposit failed and rejecting a withdrawal
  leave every wallet and every ledger entry as they were, touch only pending rows, and the only
  status they write is \<open>FAILED\<close>.\<close>

lemma failure_moves_no_money:
  assumes "books_ok s"
    and "s' = markDepositFailed s txRef \<or> s' = snd (rejectWithdrawal R s tid reason)"
  shows "db_wallets s' = db_wallets s \<and> db_ledger s' = db_ledger s \<and>
     length (db_transactions s') = length (db_transactions s) \<and>
     (\<forall>i < length (db_transactions s). db_transactions s' ! i = db_transactions s ! i \<or>
        t_status (db_transactions s ! i) = TX_PENDING \<and> t_status (db_transactions s' ! i) = TX_FAILED)"
  using assms(2)
proof
  assume "s' = markDepositFailed s txRef"
  then show ?thesis by (auto simp: markDepositFailed_def upd_where_def pending_deposit_def)
next
  assume r: "s' = snd (rejectWithdrawal R s tid reason)"
  show ?thesis
  proof (cases "s' = s")
    case False
    with r obtain t m p where t: "findTransactionById s tid = Some t" "t_status t = TX_PENDING"
      and s': "db_wallets s' = db_wallets s" "db_ledger s' = db_ledger s"
        "db_transactions s' = upd_where (\<lambda>x. t_id x = tid)
          (\<lambda>x. x\<lparr>t_status := TX_FAILED, t_processedAt := p, t_metadata := m\<rparr>) (db_transactions s)"
      by (auto simp: rejectWithdrawal_def updateTransaction_def Let_def split: option.splits if_splits)
    have "t_status x = TX_PENDING" if "x \<in> set (db_transactions s)" "t_id x = tid" for x
      using that t assms(1) find_key_distinct [of t_id "db_transactions s" x]
      by (simp add: findTransactionById_def books_defs)
    then show ?thesis using s' by (auto simp: upd_where_def)
  qed simp
qed

subsection \<open>Holds and availability\<close>

text \<open>The figures the availability checks subtract all fit their columns.\<close>

definition holds_ok :: "db \<Rightarrow> bool" where
  "holds_ok s \<longleftrightarrow> (\<forall>r \<in> set (db_reservations s). places 4 (r_amount r))"

definition small_wallet :: "db \<Rightarrow> wallet \<Rightarrow> bool" where
  "small_wallet s w \<longleftrightarrow>
     \<bar>w_balance w\<bar> < 10 ^ 14 \<and> \<bar>sumActiveReservations s (w_id w)\<bar> < 10 ^ 14 \<and>
     \<bar>sum_where (pending_of (w_id w) WITHDRAWAL) t_amount (db_transactions s)\<bar> < 10 ^ 14"

lemma sumActiveReservations_places: "holds_ok s \<Longrightarrow> places 4 (sumActiveReservations s wid)"
  unfolding sumActiveReservations_def holds_ok_def by (rule places_sum_where) blast

lemma available_reserve_exact:
  assumes "numeric_runtime R" and "books_ok s" and "holds_ok s" and "w \<in> set (db_wallets s)" and "small_wallet s w"
  shows "dsub R (w_balance w) (sumActiveReservations s (w_id w)) = w_balance w - sumActiveReservations s (w_id w)"
    and "places 4 (w_balance w - sumActiveReservations s (w_id w))"
proof -
  have "places 4 (w_balance w)" using assms(2,4) unfolding books_ok_def wallets_ok_def by blast
  then show p: "places 4 (w_balance w - sumActiveReservations s (w_id w))"
    using sumActiveReservations_places [OF assms(3)] by (intro places_diff)
  show "dsub R (w_balance w) (sumActiveReservations s (w_id w)) = w_balance w - sumActiveReservations s (w_id w)"
    unfolding dsub_def
  proof (rule numeric_runtime.rnd_places4 [OF assms(1) p])
    show "\<bar>w_balance w - sumActiveReservations s (w_id w)\<bar> < 10 ^ 16"
      using assms(5) by (simp add: small_wallet_def) linarith
  qed
qed

lemma reserveFunds_Inr:
  assumes "reserveFunds R s u oid amt e = Inr (s', i)"
  obtains w r where "findWalletByUserId s u = Some w" "\<not> w_isFrozen w"
      "findReservationByOrderId s oid = Some r" "s' = s" "i = r_id r"
  | w where "findWalletByUserId s u = Some w" "\<not> w_isFrozen w" "findReservationByOrderId s oid = None"
      "\<not> dsub R (w_balance w) (sumActiveReservations s (w_id w)) < amt"
      "(i, s') = createReservation R s (w_id w) (Some oid) amt (Some (reservation_expiry R e))"
  using assms by (auto simp: reserveFunds_def Let_def split_beta split: option.splits if_splits)

text \<open>C9. Holds never exceed the money they hold: when \<open>reserveFunds\<close> succeeds, the user's wallet is not
  frozen, the order has exactly one answer (the returned hold, which a repeated call returns
  again without writing anything), and if a new hold was placed the wallet's active holds,
  including the new one, are within its balance.\<close>

theorem reserve_never_overcommits:
  assumes "numeric_runtime R" and "books_ok s" and "holds_ok s"
    and "findWalletByUserId s u = Some w" and "small_wallet s w"
    and "reserveFunds R s u oid amt e = Inr (s', i)"
  shows "\<not> w_isFrozen w \<and> reserveFunds R' s' u oid amt' e' = Inr (s', i) \<and>
     (s' = s \<or> sumActiveReservations s' (w_id w) = sumActiveReservations s (w_id w) + num4 R amt \<and>
        sumActiveReservations s' (w_id w) \<le> w_balance w)"
  using assms(6)
proof (cases rule: reserveFunds_Inr)
  case (1 v r)
  with assms(4) show ?thesis by (simp add: reserveFunds_def)
next
  case (2 v)
  with assms(4) have v: "v = w" by simp
  have w: "w \<in> set (db_wallets s)" using findWalletByUserId_Some [OF assms(4)] by simp
  note ex = available_reserve_exact [OF assms(1-3) w assms(5)]
  have s': "s' = snd (createReservation R s (w_id w) (Some oid) amt (Some (reservation_expiry R e)))"
    "i = db_uid s"
    using 2(5) v by (auto simp: createReservation_def)
  have sum: "sumActiveReservations s' (w_id w) = sumActiveReservations s (w_id w) + num4 R amt"
    by (simp add: s'(1) createReservation_def sumActiveReservations_def active_of_def table_simps)
  have "num4 R amt \<le> num4 R (w_balance w - sumActiveReservations s (w_id w))"
    using 2(4) v ex(1) by (intro numeric_runtime.num4_mono [OF assms(1)]) simp
  then have le: "num4 R amt \<le> w_balance w - sumActiveReservations s (w_id w)"
    using numeric_runtime.num4_exact [OF assms(1) ex(2)] by simp
  have "findReservationByOrderId s' oid = Some \<lparr>r_id = i, r_walletId = w_id w, r_orderId = Some oid,
      r_amount = num4 R amt, r_status = ACTIVE, r_expiresAt = Some (reservation_expiry R e),
      r_releasedAt = None, r_consumedAt = None\<rparr>"
    using 2(3) by (simp add: s' createReservation_def findReservationByOrderId_def find_append)
  moreover have "findWalletByUserId s' u = Some w"
    using assms(4) by (simp add: s'(1) createReservation_def findWalletByUserId_def)
  ultimately show ?thesis using 2(2) v sum le by (simp add: reserveFunds_def)
qed

theorem reserve_never_overcommits_witness:
  "\<exists>s'. reserveFunds (pg_runtime 6) bank1 1 50 975 None = Inr (s', 103) \<and>
      reserveFunds (pg_runtime 8) s' 1 50 975 None = Inr (s', 103) \<and> sumActiveReservations s' 2 \<le> 975"
proof -
  have f: "map_option (\<lambda>w. (w_id w, w_balance w)) (findWalletByUserId bank1 1) = Some (2, 975)" by code_simp
  then obtain w where w: "findWalletByUserId bank1 1 = Some w" and b: "w_balance w = 975" "w_id w = 2" by auto
  have z: "sumActiveReservations bank1 2 = 0 \<and>
      sum_where (pending_of 2 WITHDRAWAL) t_amount (db_transactions bank1) = 0" by code_simp
  have h: "holds_ok bank1" unfolding holds_ok_def by code_simp
  have sm: "small_wallet bank1 w" using z by (simp add: small_wallet_def b)
  have "map_sum id snd (reserveFunds (pg_runtime 6) bank1 1 50 975 None) = Inr 103" by code_simp
  then obtain s' where r: "reserveFunds (pg_runtime 6) bank1 1 50 975 None = Inr (s', 103)"
    by (cases "reserveFunds (pg_runtime 6) bank1 1 50 975 None") auto
  from reserve_never_overcommits [OF pg.numeric_runtime_axioms bank1_books h w sm r, of "pg_runtime 8" 975 None]
    r b z show ?thesis by auto
qed

text \<open>What the wallet screen shows as available is what a withdrawal is checked against: for an
  unfrozen wallet and an amount of four places, the request passes the funds check exactly when
  the amount is at most the displayed available balance.\<close>

lemma available_matches_withdrawal:
  assumes "numeric_runtime R" and "books_ok s" and "holds_ok s"
    and "findWalletByUserId s u = Some w" and "\<not> w_isFrozen w" and "small_wallet s w"
    and "0 < amt" and "\<bar>w_balance w\<bar> + \<bar>sumActiveReservations s (w_id w)\<bar>
      + \<bar>sum_where (pending_of (w_id w) WITHDRAWAL) t_amount (db_transactions s)\<bar> < 10 ^ 11"
    and "\<forall>t \<in> set (db_transactions s). places 4 (t_amount t)"
  shows "\<exists>m. getWalletSummary R s u = Inr m \<and>
     (amt \<le> availableBalance m \<longleftrightarrow>
        fst (initiateWithdrawal R s u amt key) \<noteq>
          Inl (BadRequest (InsufficientMsg (js R (available_for_withdrawal R s w)) amt)))"
proof -
  let ?r = "sumActiveReservations s (w_id w)"
    and ?p = "sum_where (pending_of (w_id w) WITHDRAWAL) t_amount (db_transactions s)"
  have w: "w \<in> set (db_wallets s)" using findWalletByUserId_Some [OF assms(4)] by simp
  note ex = available_reserve_exact [OF assms(1-3) w assms(6)]
  have pp: "places 4 ?p" using assms(9) by (intro places_sum_where) blast
  have pa: "places 4 (w_balance w - ?r - ?p)" using ex(2) pp by (rule places_diff)
  have "dsub R (w_balance w - ?r) ?p = w_balance w - ?r - ?p"
    unfolding dsub_def using assms(8) by (intro numeric_runtime.rnd_places4 [OF assms(1) pa]) simp
  then have av: "available_for_withdrawal R s w = w_balance w - ?r - ?p"
    by (simp add: available_for_withdrawal_def ex(1))
  have "js R (w_balance w - ?r - ?p) = w_balance w - ?r - ?p"
    using assms(8) by (intro numeric_runtime.js_places [OF assms(1) pa]) simp
  then have m: "\<exists>m. getWalletSummary R s u = Inr m \<and> availableBalance m = max (w_balance w - ?r - ?p) 0"
    using assms(4) av
    by (simp add: getWalletSummary_def sumPendingTransactions_def calculateSummary_def Let_def
        available_for_withdrawal_def)
  have e: "ensureWallet s u = Inr (s, w_id w)" using assms(4) by (simp add: ensureWallet_def)
  have f: "findWalletById s (w_id w) = Some w"
    using w assms(2) find_key_distinct [of w_id "db_wallets s" w] by (simp add: findWalletById_def books_defs)
  have "amt \<le> w_balance w - ?r - ?p \<longleftrightarrow> fst (initiateWithdrawal R s u amt key) \<noteq>
      Inl (BadRequest (InsufficientMsg (js R (available_for_withdrawal R s w)) amt))"
    using assms(5,7) e f av
    by (auto simp: initiateWithdrawal_def Let_def createTransaction_def insertTransaction_def
        split: option.splits sum.splits if_splits)
  with m assms(7) show ?thesis by auto
qed

end
