(* ===== verification/TradingRepo.thy ===== *)
theory TradingRepo
  imports Ledger
begin

text \<open>
  The queries and updates of \<^verbatim>\<open>src/modules/trading/repositories/trading.repository.ts\<close> over the
  shared database.  Joined relations are separate lookups.  An update by primary key is only
  called with a key that was just read, so its missing-row exception has no branch here.
\<close>

definition getCurrentKycStatus :: "db \<Rightarrow> uuid \<Rightarrow> kyc_status option" where
  "getCurrentKycStatus s u = map_option u_kycStatus (findUser s u)"

definition getLatestClosePrice :: "db \<Rightarrow> uuid \<Rightarrow> rat option" where
  "getLatestClosePrice s sid = latestPrice s sid"

section \<open>Orders\<close>

definition order_key_taken :: "db \<Rightarrow> uuid \<Rightarrow> string option \<Rightarrow> bool" where
  "order_key_taken s u key \<longleftrightarrow>
     key \<noteq> None \<and> (\<exists>o' \<in> set (db_orders s). o_userId o' = u \<and> o_idempotencyKey o' = key)"

definition new_order ::
  "runtime \<Rightarrow> uuid \<Rightarrow> uuid \<Rightarrow> uuid option \<Rightarrow> uuid \<Rightarrow> side \<Rightarrow> order_type \<Rightarrow> rat \<Rightarrow> rat option \<Rightarrow>
     string option \<Rightarrow> order" where
  "new_order R i u b sid sd ty qty limitP key =
     \<lparr>o_id = i, o_userId = u, o_brokerId = b, o_stockId = sid, o_side = sd, o_type = ty,
      o_status = DRAFT, o_quantity = num4 R qty, o_filledQuantity = 0,
      o_limitPrice = map_option (num4 R) limitP, o_averageFillPrice = None, o_totalFees = 0,
      o_totalCost = 0, o_idempotencyKey = key, o_rejectionReason = None, o_brokerRef = None,
      o_validatedAt = None, o_submittedAt = None, o_acceptedAt = None, o_filledAt = None,
      o_settledAt = None, o_cancelledAt = None, o_createdAt = now R\<rparr>"

text \<open>The unique index on \<open>(userId, idempotencyKey)\<close> makes a second order with a key throw P2002.\<close>

definition repo_createOrder ::
  "runtime \<Rightarrow> db \<Rightarrow> uuid \<Rightarrow> uuid \<Rightarrow> side \<Rightarrow> order_type \<Rightarrow> rat \<Rightarrow> rat option \<Rightarrow> string option \<Rightarrow>
     err + db \<times> order" where
  "repo_createOrder R s u sid sd ty qty limitP key =
     (if order_key_taken s u key then Inl (PrismaError ''P2002'')
      else
        (let o' = new_order R (db_uid s) u (brokerIdOf s u) sid sd ty qty limitP key
         in Inr (s\<lparr>db_uid := Suc (db_uid s), db_orders := db_orders s @ [o']\<rparr>, o')))"

definition findOrderById :: "db \<Rightarrow> uuid \<Rightarrow> order option" where
  "findOrderById s i = List.find (\<lambda>x. o_id x = i) (db_orders s)"

definition findOrderByIdempotencyKey :: "db \<Rightarrow> uuid \<Rightarrow> string \<Rightarrow> order option" where
  "findOrderByIdempotencyKey s u key =
     List.find (\<lambda>x. o_userId x = u \<and> o_idempotencyKey x = Some key) (db_orders s)"

text \<open>\<open>extra\<close> is the update of the further columns.\<close>

definition updateOrderStatus :: "db \<Rightarrow> uuid \<Rightarrow> OrderLifecycleStatus \<Rightarrow> (order \<Rightarrow> order) \<Rightarrow> db" where
  "updateOrderStatus s i st extra =
     s\<lparr>db_orders := upd_where (\<lambda>x. o_id x = i) (\<lambda>x. extra (x\<lparr>o_status := st\<rparr>)) (db_orders s)\<rparr>"

record order_filter =
  of_status :: "OrderLifecycleStatus option"
  of_side :: "side option"
  of_limit :: "nat option"
  of_offset :: "nat option"
  of_exclude :: "OrderLifecycleStatus list"

definition no_filter :: order_filter where
  "no_filter = \<lparr>of_status = None, of_side = None, of_limit = None, of_offset = None, of_exclude = []\<rparr>"

definition order_matches :: "uuid \<Rightarrow> order_filter \<Rightarrow> order \<Rightarrow> bool" where
  "order_matches u f x \<longleftrightarrow>
     o_userId x = u \<and>
     (case of_status f of Some st \<Rightarrow> o_status x = st | None \<Rightarrow> o_status x \<notin> set (of_exclude f)) \<and>
     (case of_side f of Some sd \<Rightarrow> o_side x = sd | None \<Rightarrow> True)"

definition findUserOrders :: "db \<Rightarrow> uuid \<Rightarrow> order_filter \<Rightarrow> order list \<times> nat" where
  "findUserOrders s u f =
     (let rows = filter (order_matches u f) (db_orders s)
      in (page_desc o_createdAt (case of_limit f of Some l \<Rightarrow> l | None \<Rightarrow> 20)
            (case of_offset f of Some k \<Rightarrow> k | None \<Rightarrow> 0) rows,
          length rows))"

text \<open>Oldest submission first; every parked order has its \<open>submittedAt\<close>.\<close>

definition findPendingBrokerOrders :: "db \<Rightarrow> nat \<Rightarrow> order list" where
  "findPendingBrokerOrders s limit =
     take limit (sort_key (\<lambda>x. case o_submittedAt x of Some t \<Rightarrow> t | None \<Rightarrow> 0)
       (filter (\<lambda>x. o_status x = SUBMITTED) (db_orders s)))"

section \<open>Trades and executions\<close>

definition createTrade ::
  "runtime \<Rightarrow> db \<Rightarrow> uuid \<Rightarrow> rat \<Rightarrow> rat \<Rightarrow> rat \<Rightarrow> rat \<Rightarrow> rat \<Rightarrow> rat \<Rightarrow> uuid \<times> db" where
  "createTrade R s oid qty price fee commission levies pfee =
     (db_uid s,
      s\<lparr>db_uid := Suc (db_uid s),
        db_trades := db_trades s @
          [\<lparr>tr_id = db_uid s, tr_orderId = oid, tr_quantity = num4 R qty, tr_price = num4 R price,
            tr_fee = num4 R fee, tr_commission = num4 R commission, tr_levies = num4 R levies,
            tr_platformFee = num4 R pfee, tr_createdAt = now R\<rparr>]\<rparr>)"

definition createOrderExecution :: "runtime \<Rightarrow> db \<Rightarrow> uuid \<Rightarrow> rat \<Rightarrow> rat \<Rightarrow> rat \<Rightarrow> string \<Rightarrow> db" where
  "createOrderExecution R s oid qty price fee ref =
     s\<lparr>db_executions := db_executions s @
         [\<lparr>ex_orderId = oid, ex_quantity = num4 R qty, ex_price = num4 R price, ex_fee = num4 R fee,
           ex_brokerRef = ref\<rparr>]\<rparr>"

definition findUserTrades :: "db \<Rightarrow> uuid \<Rightarrow> nat \<Rightarrow> nat \<Rightarrow> trade list" where
  "findUserTrades s u limit offset =
     page_desc tr_createdAt limit offset
       (filter (\<lambda>t. map_option o_userId (findOrderById s (tr_orderId t)) = Some u) (db_trades s))"

section \<open>Holdings\<close>

definition holding_at :: "uuid \<Rightarrow> uuid \<Rightarrow> holding \<Rightarrow> bool" where
  "holding_at u sid h \<longleftrightarrow> h_userId h = u \<and> h_stockId h = sid"

definition findUserHolding :: "db \<Rightarrow> uuid \<Rightarrow> uuid \<Rightarrow> holding option" where
  "findUserHolding s u sid = List.find (holding_at u sid) (db_holdings s)"

definition findUserHoldings :: "db \<Rightarrow> uuid \<Rightarrow> (holding \<times> rat option) list" where
  "findUserHoldings s u =
     map (\<lambda>h. (h, latestPrice s (h_stockId h)))
       (filter (\<lambda>h. h_userId h = u \<and> h_quantity h > 0) (db_holdings s))"

definition upsertHolding :: "runtime \<Rightarrow> db \<Rightarrow> uuid \<Rightarrow> uuid \<Rightarrow> rat \<Rightarrow> rat \<Rightarrow> db" where
  "upsertHolding R s u sid delta avg =
     (case findUserHolding s u sid of
        Some h \<Rightarrow>
          (let q = dadd R (h_quantity h) delta
           in s\<lparr>db_holdings := upd_where (holding_at u sid)
                (\<lambda>x. x\<lparr>h_quantity := num4 R (if q < 0 then 0 else q), h_averageCost := num4 R avg\<rparr>)
                (db_holdings s)\<rparr>)
      | None \<Rightarrow>
          s\<lparr>db_holdings := db_holdings s @
              [\<lparr>h_userId = u, h_stockId = sid, h_brokerId = None, h_quantity = num4 R delta,
                h_averageCost = num4 R avg\<rparr>]\<rparr>)"

section \<open>Settlement records, ledger and audit\<close>

definition createSettlementRecord :: "db \<Rightarrow> uuid \<Rightarrow> timestamp \<Rightarrow> err + db \<times> uuid" where
  "createSettlementRecord s tid date =
     (if \<exists>x \<in> set (db_settlements s). sr_tradeId x = tid then Inl (PrismaError ''P2002'')
      else Inr (s\<lparr>db_uid := Suc (db_uid s), db_settlements := db_settlements s @
        [\<lparr>sr_id = db_uid s, sr_tradeId = tid, sr_status = ''PENDING'', sr_settlementDate = date,
          sr_settledAt = None\<rparr>]\<rparr>, db_uid s))"

definition settleRecord :: "runtime \<Rightarrow> db \<Rightarrow> uuid \<Rightarrow> db" where
  "settleRecord R s i =
     s\<lparr>db_settlements := upd_where (\<lambda>x. sr_id x = i)
         (\<lambda>x. x\<lparr>sr_status := ''SETTLED'', sr_settledAt := Some (now R)\<rparr>) (db_settlements s)\<rparr>"

definition createTransactionWithLedger ::
  "runtime \<Rightarrow> db \<Rightarrow> uuid \<Rightarrow> tx_type \<Rightarrow> rat \<Rightarrow> uuid \<Rightarrow> string option \<Rightarrow> leg list \<Rightarrow> err + db \<times> uuid" where
  "createTransactionWithLedger R s wid ty amt oid key legs =
     (let broker = (case findOrderById s oid of None \<Rightarrow> None | Some x \<Rightarrow> o_brokerId x)
      in case insertTransaction R s wid broker ty TX_COMPLETED amt key (Some oid) [] (Some (now R)) of
           Inl e \<Rightarrow> Inl e
         | Inr (s1, tid) \<Rightarrow> Inr (post_legs R tid legs s1, tid))"

lemma createTransactionWithLedger_Inr:
  assumes "createTransactionWithLedger R s wid ty amt oid key legs = Inr (s', tid)"
  shows "tid = db_uid s" and "db_uid s' = Suc (db_uid s) + length legs"
    and "\<exists>t. db_transactions s' = db_transactions s @ [t] \<and> t_id t = db_uid s \<and> t_walletId t = wid \<and>
       t_status t = TX_COMPLETED \<and> t_idempotencyKey t = key \<and> t_amount t = num4 R amt"
    and "db_ledger s' = db_ledger s @ leg_entries R (db_uid s) (Suc (db_uid s)) legs"
    and "db_wallets s' = db_wallets s" and "db_holdings s' = db_holdings s" and "db_orders s' = db_orders s"
  using assms unfolding createTransactionWithLedger_def Let_def
  by (auto simp: post_legs_eq dest!: insertTransaction_Inr split: sum.splits)

definition createTradeAudit ::
  "db \<Rightarrow> uuid \<Rightarrow> uuid \<Rightarrow> string \<Rightarrow> OrderLifecycleStatus option \<Rightarrow> OrderLifecycleStatus option \<Rightarrow> db" where
  "createTradeAudit s oid u action from_s to_s =
     s\<lparr>db_audits := db_audits s @
         [\<lparr>a_orderId = oid, a_userId = u, a_action = action, a_fromStatus = from_s, a_toStatus = to_s\<rparr>]\<rparr>"

section \<open>Market data\<close>

definition upper_char :: "char \<Rightarrow> char" where
  "upper_char c =
     (let n = of_char c :: nat in if 97 \<le> n \<and> n \<le> 122 then char_of (n - 32) else c)"

definition findStockBySymbol :: "db \<Rightarrow> string \<Rightarrow> stock option" where
  "findStockBySymbol s symbol = List.find (\<lambda>x. s_symbol x = map upper_char symbol) (db_stocks s)"

definition findStockById :: "db \<Rightarrow> uuid \<Rightarrow> stock option" where
  "findStockById s i = List.find (\<lambda>x. s_id x = i) (db_stocks s)"

definition findMarketCalendarToday :: "runtime \<Rightarrow> db \<Rightarrow> string option" where
  "findMarketCalendarToday R s = map_of (db_marketCalendar s) (dayStart R (now R))"

end
