(* ===== verification/Orders.thy ===== *)
theory Orders
  imports Wallet TradingRepo
begin

text \<open>
  The order pipeline of \<^verbatim>\<open>src/modules/trading/services/\<close>: market hours and ticks, pre-trade
  validation, platform risk guards, the order service, the broker gateway with its two adapters,
  the execution engine and the trading service that composes them.  Settlement, which reacts to
  the execution event, is in \<open>Settlement\<close>.
\<close>

section \<open>Market\<close>

definition getUTCHours :: "timestamp \<Rightarrow> int" where
  "getUTCHours t = (t div 3600000) mod 24"

text \<open>The epoch was a Thursday; Sunday is 0.\<close>

definition getUTCDay :: "timestamp \<Rightarrow> int" where
  "getUTCDay t = (t div 86400000 + 4) mod 7"

definition is_digit :: "char \<Rightarrow> bool" where
  "is_digit c \<longleftrightarrow> of_char c \<ge> (48 :: nat) \<and> of_char c \<le> (57 :: nat)"

definition digits_value :: "string \<Rightarrow> int" where
  "digits_value ds = foldl (\<lambda>n c. 10 * n + (int (of_char c) - 48)) 0 ds"

text \<open>\<open>parseInt(time.split(':')[0], 10) || d\<close> for a time written with digits: no digits give NaN, and
  NaN and zero both give the default.\<close>

definition parse_hour :: "string \<Rightarrow> int \<Rightarrow> int" where
  "parse_hour time d =
     (let ds = takeWhile is_digit (takeWhile (\<lambda>c. c \<noteq> CHR '':'') time)
      in if ds = [] \<or> digits_value ds = 0 then d else digits_value ds)"

record market_config =
  openTime :: string
  closeTime :: string

definition isMarketOpen :: "runtime \<Rightarrow> market_config \<Rightarrow> db \<Rightarrow> bool" where
  "isMarketOpen R cfg s =
     (let catHour = (getUTCHours (now R) + 2) mod 24;
          catDay = getUTCDay (now R)
      in if catDay = 0 \<or> catDay = 6 then False
         else if findMarketCalendarToday R s = Some ''HOLIDAY'' then False
         else if findMarketCalendarToday R s = Some ''HALTED'' then False
         else catHour \<ge> parse_hour (openTime cfg) 10 \<and> catHour < parse_hour (closeTime cfg) 14)"

definition getCurrentPrice :: "db \<Rightarrow> uuid \<Rightarrow> rat option" where
  "getCurrentPrice s sid = (case findStockById s sid of None \<Rightarrow> None | Some _ \<Rightarrow> latestPrice s sid)"

definition getTickSize :: "rat \<Rightarrow> rat" where
  "getTickSize price =
     (if price < 10 then 1 / 100 else if price < 100 then 5 / 100 else if price < 1000 then 1 / 10 else 1)"

text \<open>\<open>mod\<close> is the remainder of the truncated quotient.\<close>

definition dmod :: "rat \<Rightarrow> rat \<Rightarrow> rat" where
  "dmod x y = (let q = x / y in x - y * of_int (if 0 \<le> q then \<lfloor>q\<rfloor> else \<lceil>q\<rceil>))"

definition isValidTickPrice :: "rat \<Rightarrow> bool" where
  "isValidTickPrice price \<longleftrightarrow> dmod price (getTickSize price) = 0"

section \<open>Validation\<close>

definition MIN_ORDER_QUANTITY :: rat where
  "MIN_ORDER_QUANTITY = 1"

definition MAX_ORDER_VALUE_MWK :: rat where
  "MAX_ORDER_VALUE_MWK = 50000000"

definition checkStockActive :: "db \<Rightarrow> uuid \<Rightarrow> err + rat" where
  "checkStockActive s sid =
     (case findStockById s sid of
        None \<Rightarrow> Inl (BadRequest (Msg ''This stock is not available for trading''))
      | Some st \<Rightarrow>
          if \<not> s_isActive st then Inl (BadRequest (Msg ''This stock is not available for trading''))
          else
            (case latestPrice s sid of
               None \<Rightarrow> Inl (BadRequest (Msg ''No price data available for this stock''))
             | Some p \<Rightarrow> Inr p))"

definition checkKycStatus :: "kyc_status \<Rightarrow> err + unit" where
  "checkKycStatus k =
     (if k \<noteq> KYC_APPROVED then Inl (BadRequest (Msg ''Your account must be verified'')) else Inr ())"

definition checkAccountNotFrozen :: "db \<Rightarrow> uuid \<Rightarrow> err + unit" where
  "checkAccountNotFrozen s u =
     (case findWalletByUserId s u of
        None \<Rightarrow> Inl (BadRequest (Msg ''No wallet found. Please contact support.''))
      | Some w \<Rightarrow> if w_isFrozen w then Inl (BadRequest (FrozenMsg (w_frozenReason w))) else Inr ())"

definition checkMinimumQuantity :: "rat \<Rightarrow> err + unit" where
  "checkMinimumQuantity q =
     (if q < MIN_ORDER_QUANTITY then Inl (BadRequest (Msg ''Minimum order quantity'')) else Inr ())"

definition checkMaxOrderValue :: "rat \<Rightarrow> err + unit" where
  "checkMaxOrderValue g =
     (if g > MAX_ORDER_VALUE_MWK then Inl (BadRequest (LimitMsg MAX_ORDER_VALUE_MWK g)) else Inr ())"

definition getOrderPrice :: "order_type \<Rightarrow> rat option \<Rightarrow> rat \<Rightarrow> err + rat" where
  "getOrderPrice ty limitPrice latest =
     (if ty = LIMIT then
        (case limitPrice of
           None \<Rightarrow> Inl (BadRequest (Msg ''Limit orders must specify a valid price''))
         | Some p \<Rightarrow> if p \<le> 0 then Inl (BadRequest (Msg ''Limit orders must specify a valid price''))
                     else Inr p)
      else Inr latest)"

definition checkSufficientFunds :: "runtime \<Rightarrow> db \<Rightarrow> uuid \<Rightarrow> rat \<Rightarrow> err + unit" where
  "checkSufficientFunds R s u cost =
     (case findWalletByUserId s u of
        None \<Rightarrow> Inl (BadRequest (Msg ''Wallet not found''))
      | Some w \<Rightarrow>
          (let available = available_for_withdrawal R s w
           in if available < cost then Inl (BadRequest (InsufficientMsg (js R available) (js R cost)))
              else Inr ()))"

text \<open>Sell orders that still hold shares back; \<open>excl\<close> leaves out the order under validation.\<close>

definition open_sell :: "uuid \<Rightarrow> uuid \<Rightarrow> uuid option \<Rightarrow> order \<Rightarrow> bool" where
  "open_sell u sid excl x \<longleftrightarrow>
     o_userId x = u \<and> o_stockId x = sid \<and> o_side x = SELL \<and>
     o_status x \<in> {PENDING_VALIDATION, VALIDATED, SUBMITTED, ACCEPTED, PARTIALLY_FILLED} \<and>
     Some (o_id x) \<noteq> excl"

definition committed_shares :: "db \<Rightarrow> uuid \<Rightarrow> uuid \<Rightarrow> uuid option \<Rightarrow> rat" where
  "committed_shares s u sid excl = sum_where (open_sell u sid excl) o_quantity (db_orders s)"

definition checkSufficientShares :: "runtime \<Rightarrow> db \<Rightarrow> uuid \<Rightarrow> uuid \<Rightarrow> rat \<Rightarrow> uuid option \<Rightarrow> err + unit" where
  "checkSufficientShares R s u sid qty excl =
     (let held = (case findUserHolding s u sid of None \<Rightarrow> 0 | Some h \<Rightarrow> h_quantity h);
          committed = committed_shares s u sid excl;
          availableShares = max (dsub R held committed) 0
      in if availableShares \<ge> qty then Inr ()
         else if held \<le> 0 then Inl (BadRequest (Msg ''You do not hold any shares of this stock to sell.''))
         else if committed > 0 then Inl (BadRequest (SharesMsg held committed availableShares))
         else Inl (BadRequest (SharesMsg held 0 qty)))"

record order_check =
  oc_userId :: uuid
  oc_stockId :: uuid
  oc_side :: side
  oc_type :: order_type
  oc_quantity :: rat
  oc_limitPrice :: "rat option"
  oc_kyc :: kyc_status
  oc_orderId :: "uuid option"

definition validate :: "runtime \<Rightarrow> db \<Rightarrow> order_check \<Rightarrow> (err + rat \<times> TradingFees) \<times> db" where
  "validate R s c =
     (case checkStockActive s (oc_stockId c) of
        Inl e \<Rightarrow> (Inl e, s)
      | Inr latest \<Rightarrow>
          (case checkKycStatus (oc_kyc c) of
             Inl e \<Rightarrow> (Inl e, s)
           | Inr _ \<Rightarrow>
               (case checkAccountNotFrozen s (oc_userId c) of
                  Inl e \<Rightarrow> (Inl e, s)
                | Inr _ \<Rightarrow>
                    (case checkMinimumQuantity (oc_quantity c) of
                       Inl e \<Rightarrow> (Inl e, s)
                     | Inr _ \<Rightarrow>
                         (case getOrderPrice (oc_type c) (oc_limitPrice c) latest of
                            Inl e \<Rightarrow> (Inl e, s)
                          | Inr price \<Rightarrow>
                              (let (fees, s1) = tradingFeesFor R s (oc_userId c) price (oc_quantity c) (oc_side c)
                               in case checkMaxOrderValue (grossValue fees) of
                                    Inl e \<Rightarrow> (Inl e, s1)
                                  | Inr _ \<Rightarrow>
                                      if oc_side c = BUY then
                                        (case checkSufficientFunds R s1 (oc_userId c) (totalCost fees) of
                                           Inl e \<Rightarrow> (Inl e, s1)
                                         | Inr _ \<Rightarrow>
                                             (let (cc, s2) = checkBuyConcentration R s1 (oc_userId c)
                                                    (oc_stockId c) (grossValue fees)
                                              in if cc_status cc = BLOCKED
                                                 then (Inl (BadRequest (Msg ''concentration limit'')), s2)
                                                 else (Inr (price, fees), s2)))
                                      else
                                        (case checkSufficientShares R s1 (oc_userId c) (oc_stockId c)
                                                (oc_quantity c) (oc_orderId c) of
                                           Inl e \<Rightarrow> (Inl e, s1)
                                         | Inr _ \<Rightarrow> (Inr (price, fees), s1))))))))"

section \<open>Platform risk guards\<close>

definition DAILY_TRADE_LIMIT_MWK :: rat where
  "DAILY_TRADE_LIMIT_MWK = 10000000"

definition MAX_SINGLE_ORDER_MWK :: rat where
  "MAX_SINGLE_ORDER_MWK = 5000000"

definition MAX_ORDERS_PER_HOUR :: nat where
  "MAX_ORDERS_PER_HOUR = 20"

definition checkSingleOrderLimit :: "rat \<Rightarrow> err + unit" where
  "checkSingleOrderLimit g =
     (if g > MAX_SINGLE_ORDER_MWK then Inl (BadRequest (LimitMsg MAX_SINGLE_ORDER_MWK g)) else Inr ())"

definition todayVolume :: "runtime \<Rightarrow> db \<Rightarrow> uuid \<Rightarrow> rat" where
  "todayVolume R s u =
     foldl (\<lambda>sum x. dadd R sum (o_totalCost x)) 0
       (filter (\<lambda>x. o_createdAt x \<ge> dayStart R (now R) \<and> o_status x \<notin> {CANCELLED, REJECTED, EXPIRED})
          (fst (findUserOrders s u (no_filter\<lparr>of_limit := Some 100\<rparr>))))"

definition checkDailyTradingLimit :: "runtime \<Rightarrow> db \<Rightarrow> uuid \<Rightarrow> rat \<Rightarrow> err + unit" where
  "checkDailyTradingLimit R s u g =
     (if dadd R (todayVolume R s u) g > DAILY_TRADE_LIMIT_MWK
      then Inl (BadRequest (LimitMsg DAILY_TRADE_LIMIT_MWK (js R (todayVolume R s u)))) else Inr ())"

definition checkOrderVelocity :: "runtime \<Rightarrow> db \<Rightarrow> uuid \<Rightarrow> err + unit" where
  "checkOrderVelocity R s u =
     (let recent = filter (\<lambda>x. o_createdAt x \<ge> now R - 60 * 60 * 1000)
            (fst (findUserOrders s u (no_filter\<lparr>of_limit := Some (MAX_ORDERS_PER_HOUR + 1)\<rparr>)))
      in if length recent \<ge> MAX_ORDERS_PER_HOUR
         then Inl (BadRequest (Msg ''Too many orders'')) else Inr ())"

definition risk_check :: "runtime \<Rightarrow> db \<Rightarrow> uuid \<Rightarrow> rat \<Rightarrow> err + unit" where
  "risk_check R s u gross =
     (case checkSingleOrderLimit gross of
        Inl e \<Rightarrow> Inl e
      | Inr _ \<Rightarrow>
          (case checkDailyTradingLimit R s u gross of
             Inl e \<Rightarrow> Inl e
           | Inr _ \<Rightarrow> checkOrderVelocity R s u))"

section \<open>Order service\<close>

record order_dto =
  d_stockSymbol :: string
  d_side :: side
  d_quantity :: rat
  d_orderType :: order_type
  d_limitPrice :: "rat option"
  d_idempotencyKey :: "string option"

text \<open>\<open>x ? new Decimal(x) : undefined\<close>\<close>

definition truthy_price :: "rat option \<Rightarrow> rat option" where
  "truthy_price p = (case p of Some x \<Rightarrow> if x = 0 then None else Some x | None \<Rightarrow> None)"

definition createOrder :: "runtime \<Rightarrow> db \<Rightarrow> uuid \<Rightarrow> order_dto \<Rightarrow> err + db \<times> order" where
  "createOrder R s u d =
     (case (if truthy (d_idempotencyKey d) then findOrderByIdempotencyKey s u (the (d_idempotencyKey d)) else None) of
        Some existing \<Rightarrow> Inr (s, existing)
      | None \<Rightarrow>
          (case findStockBySymbol s (d_stockSymbol d) of
             None \<Rightarrow> Inl (NotFound (Msg ''Stock not found''))
           | Some st \<Rightarrow>
               (case repo_createOrder R s u (s_id st) (d_side d) (d_orderType d) (d_quantity d)
                       (truthy_price (d_limitPrice d)) (d_idempotencyKey d) of
                  Inl e \<Rightarrow> Inl e
                | Inr (s1, x) \<Rightarrow>
                    Inr (createTradeAudit s1 (o_id x) u ''ORDER_CREATED'' None (Some DRAFT), x))))"

text \<open>\<open>assertTransition\<close> throws a plain \<open>Error\<close>.\<close>

definition assert_step :: "OrderLifecycleStatus \<Rightarrow> OrderLifecycleStatus \<Rightarrow> err + unit" where
  "assert_step a b =
     (case assertTransition a b of Inl _ \<Rightarrow> Inl (PlainError (TransitionMsg a b)) | Inr _ \<Rightarrow> Inr ())"

definition order_cancelOrder :: "runtime \<Rightarrow> db \<Rightarrow> uuid \<Rightarrow> uuid \<Rightarrow> err + db" where
  "order_cancelOrder R s u oid =
     (case findOrderById s oid of
        None \<Rightarrow> Inl (NotFound (Msg ''Order not found''))
      | Some x \<Rightarrow>
          if o_userId x \<noteq> u then Inl (NotFound (Msg ''Order not found''))
          else if o_status x \<notin> set CANCELLABLE_STATES then Inl (Conflict (StatusMsg (o_status x)))
          else
            (case assert_step (o_status x) CANCELLED of
               Inl e \<Rightarrow> Inl e
             | Inr _ \<Rightarrow>
                 Inr (createTradeAudit
                   (updateOrderStatus s oid CANCELLED (\<lambda>x. x\<lparr>o_cancelledAt := Some (now R)\<rparr>))
                   oid u ''ORDER_CANCELLED'' (Some (o_status x)) (Some CANCELLED))))"

definition getOrderHistory :: "db \<Rightarrow> uuid \<Rightarrow> order_filter \<Rightarrow> order list \<times> nat" where
  "getOrderHistory s u f = findUserOrders s u f"

definition order_getOrderDetail :: "db \<Rightarrow> uuid \<Rightarrow> uuid \<Rightarrow> err + order" where
  "order_getOrderDetail s u oid =
     (case findOrderById s oid of
        None \<Rightarrow> Inl (NotFound (Msg ''Order not found''))
      | Some x \<Rightarrow> if o_userId x \<noteq> u then Inl (NotFound (Msg ''Order not found'')) else Inr x)"

section \<open>Broker gateway\<close>

record BrokerOrderSubmission =
  bs_orderId :: uuid
  bs_stockSymbol :: string
  bs_side :: side
  bs_type :: order_type
  bs_quantity :: rat
  bs_limitPrice :: "rat option"
  bs_estimatedPrice :: rat

datatype fill_status = FULL_FILL | PARTIAL_FILL | FILL_REJECTED

record BrokerFillResult =
  bf_brokerRef :: string
  bf_filledQuantity :: rat
  bf_fillPrice :: rat
  bf_status :: fill_status
  bf_rejectionReason :: "string option"

text \<open>Both adapters fill at once at the estimated price; \<open>ref\<close> is the generated reference.\<close>

definition sandbox_submitOrder :: "string \<Rightarrow> BrokerOrderSubmission \<Rightarrow> BrokerFillResult" where
  "sandbox_submitOrder ref x =
     \<lparr>bf_brokerRef = ''SBX-'' @ ref, bf_filledQuantity = bs_quantity x, bf_fillPrice = bs_estimatedPrice x,
      bf_status = FULL_FILL, bf_rejectionReason = None\<rparr>"

definition mse_submitOrder :: "string \<Rightarrow> BrokerOrderSubmission \<Rightarrow> BrokerFillResult" where
  "mse_submitOrder ref x =
     \<lparr>bf_brokerRef = ''MSE-'' @ ref, bf_filledQuantity = bs_quantity x, bf_fillPrice = bs_estimatedPrice x,
      bf_status = FULL_FILL, bf_rejectionReason = None\<rparr>"

type_synonym adapter = "BrokerOrderSubmission \<Rightarrow> BrokerFillResult"

definition gateway_submitOrder :: "adapter \<Rightarrow> BrokerOrderSubmission \<Rightarrow> BrokerFillResult" where
  "gateway_submitOrder ad x = ad x"

section \<open>Execution engine\<close>

datatype exec_result = ExecRejected | Executed OrderLifecycleStatus uuid TradingFees

definition order_symbol :: "db \<Rightarrow> order \<Rightarrow> string" where
  "order_symbol s x = (case findStockById s (o_stockId x) of None \<Rightarrow> [] | Some st \<Rightarrow> s_symbol st)"

definition submission_of :: "runtime \<Rightarrow> db \<Rightarrow> order \<Rightarrow> rat \<Rightarrow> BrokerOrderSubmission" where
  "submission_of R s x price =
     \<lparr>bs_orderId = o_id x, bs_stockSymbol = order_symbol s x, bs_side = o_side x, bs_type = o_type x,
      bs_quantity = js R (o_quantity x), bs_limitPrice = map_option (js R) (o_limitPrice x),
      bs_estimatedPrice = js R price\<rparr>"

text \<open>After a rejection by the broker, and after a fill.\<close>

definition record_rejection :: "db \<Rightarrow> order \<Rightarrow> BrokerFillResult \<Rightarrow> db" where
  "record_rejection s x f =
     (let reason = Msg (case bf_rejectionReason f of Some r \<Rightarrow> r | None \<Rightarrow> ''Rejected by broker'');
          s1 = updateOrderStatus s (o_id x) REJECTED (\<lambda>y. y\<lparr>o_rejectionReason := Some reason\<rparr>);
          s2 = createTradeAudit s1 (o_id x) (o_userId x) ''ORDER_REJECTED_BY_BROKER'' (Some ACCEPTED) (Some REJECTED)
      in emit (OrderRejectedEvent (o_id x) (o_userId x) reason) s2)"

definition executed_event ::
  "runtime \<Rightarrow> db \<Rightarrow> order \<Rightarrow> BrokerFillResult \<Rightarrow> TradingFees \<Rightarrow> uuid \<Rightarrow> OrderExecutedEvent" where
  "executed_event R s x f fees tradeId =
     \<lparr>ev_orderId = o_id x, ev_userId = o_userId x, ev_stockId = o_stockId x, ev_stockSymbol = order_symbol s x,
      ev_side = o_side x, ev_quantity = js R (bf_filledQuantity f), ev_price = js R (bf_fillPrice f),
      ev_totalFees = js R (totalFees fees), ev_totalCost = js R (totalCost fees), ev_tradeId = tradeId\<rparr>"

definition record_fill :: "runtime \<Rightarrow> db \<Rightarrow> order \<Rightarrow> BrokerFillResult \<Rightarrow> exec_result \<times> db" where
  "record_fill R s x f =
     (let price = bf_fillPrice f; qty = bf_filledQuantity f;
          (fees, s1) = tradingFeesFor R s (o_userId x) price qty (o_side x);
          (pfee, s2) = platformFeeFor R s1 (brokerCommission fees);
          (tradeId, s3) = createTrade R s2 (o_id x) qty price (totalFees fees) (brokerCommission fees)
             (dadd R (dadd R (secLevy fees) (mseLevy fees)) (withholdingTax fees)) pfee;
          s4 = createOrderExecution R s3 (o_id x) qty price (totalFees fees) (bf_brokerRef f);
          isFull = (qty \<ge> o_quantity x);
          st = (if isFull then FILLED else PARTIALLY_FILLED);
          s5 = updateOrderStatus s4 (o_id x) st (\<lambda>y. y\<lparr>o_filledQuantity := num4 R qty,
                 o_averageFillPrice := Some (num4 R price), o_totalFees := num4 R (totalFees fees),
                 o_totalCost := num4 R (totalCost fees),
                 o_filledAt := (if isFull then Some (now R) else o_filledAt y)\<rparr>);
          s6 = createTradeAudit s5 (o_id x) (o_userId x)
                 (if isFull then ''ORDER_FILLED'' else ''ORDER_PARTIALLY_FILLED'') (Some ACCEPTED) (Some st)
      in (Executed st tradeId fees, emit (OrderExecuted (executed_event R s x f fees tradeId)) s6))"

definition execute :: "runtime \<Rightarrow> adapter \<Rightarrow> db \<Rightarrow> uuid \<Rightarrow> rat \<Rightarrow> (err + exec_result) \<times> db" where
  "execute R ad s oid estimatedPrice =
     (case findOrderById s oid of
        None \<Rightarrow> (Inl (InternalServerError (Msg ''Order not found during execution'')), s)
      | Some x \<Rightarrow>
          (case (if o_status x = SUBMITTED then Inr () else assert_step (o_status x) SUBMITTED) of
             Inl e \<Rightarrow> (Inl e, s)
           | Inr _ \<Rightarrow>
               (let s1 = (if o_status x = SUBMITTED then s
                          else updateOrderStatus s oid SUBMITTED (\<lambda>y. y\<lparr>o_submittedAt := Some (now R)\<rparr>));
                    s2 = createTradeAudit s1 oid (o_userId x) ''ORDER_SUBMITTED_TO_BROKER''
                           (Some (o_status x)) (Some SUBMITTED);
                    f = gateway_submitOrder ad (submission_of R s2 x estimatedPrice);
                    s3 = updateOrderStatus s2 oid ACCEPTED
                           (\<lambda>y. y\<lparr>o_brokerRef := Some (bf_brokerRef f), o_acceptedAt := Some (now R)\<rparr>)
                in if bf_status f = FILL_REJECTED then (Inr ExecRejected, record_rejection s3 x f)
                   else (let (r, s4) = record_fill R s3 x f in (Inr r, s4)))))"

section \<open>Trading service\<close>

subsection \<open>Quotes\<close>

datatype quote_detail =
    BuyQuote rat rat bool ConcentrationCheck
  | SellQuote rat rat rat bool

record OrderQuote =
  q_symbol :: string
  q_stockName :: string
  q_side :: side
  q_quantity :: rat
  q_pricePerShare :: rat
  q_grossValue :: rat
  q_commission :: rat
  q_secLevy :: rat
  q_mseLevy :: rat
  q_withholdingTax :: rat
  q_totalFees :: rat
  q_cashAvailable :: rat
  q_detail :: quote_detail

definition cash_available :: "runtime \<Rightarrow> db \<Rightarrow> uuid \<Rightarrow> rat" where
  "cash_available R s u =
     (case findWalletByUserId s u of
        None \<Rightarrow> 0
      | Some w \<Rightarrow> max (available_for_withdrawal R s w) 0)"

definition quoteOrder :: "runtime \<Rightarrow> db \<Rightarrow> uuid \<Rightarrow> string \<Rightarrow> rat \<Rightarrow> side \<Rightarrow> (err + OrderQuote) \<times> db" where
  "quoteOrder R s u symbol qty sd =
     (case findStockBySymbol s symbol of
        None \<Rightarrow> (Inl (NotFound (Msg ''Stock'')), s)
      | Some st \<Rightarrow>
          if \<not> s_isActive st then (Inl (NotFound (Msg ''Stock'')), s)
          else
            (case latestPrice s (s_id st) of
               None \<Rightarrow> (Inl (Validation (Msg ''No price data available for this stock'')), s)
             | Some price \<Rightarrow>
                 if qty \<le> 0 then (Inl (Validation (Msg ''Quantity must be positive'')), s)
                 else
                   let (fees, s1) = tradingFeesFor R s u price qty sd;
                       cash = cash_available R s1 u;
                       quote = (\<lambda>detail. \<lparr>q_symbol = s_symbol st, q_stockName = s_name st, q_side = sd,
                         q_quantity = js R qty, q_pricePerShare = js R price,
                         q_grossValue = js R (grossValue fees), q_commission = js R (brokerCommission fees),
                         q_secLevy = js R (secLevy fees), q_mseLevy = js R (mseLevy fees),
                         q_withholdingTax = js R (withholdingTax fees), q_totalFees = js R (totalFees fees),
                         q_cashAvailable = js R cash, q_detail = detail\<rparr>)
                   in if sd = BUY then
                        (let (cc, s2) = checkBuyConcentration R s1 u (s_id st) (grossValue fees)
                         in (Inr (quote (BuyQuote (js R (totalCost fees)) (js R (dsub R cash (totalCost fees)))
                               (cash \<ge> totalCost fees) cc)), s2))
                      else
                        (let held = (case findUserHolding s1 u (s_id st) of None \<Rightarrow> 0 | Some h \<Rightarrow> h_quantity h);
                             available = max (dsub R held (committed_shares s1 u (s_id st) None)) 0
                         in (Inr (quote (SellQuote (js R (totalCost fees)) (js R held) (js R available)
                               (available \<ge> qty))), s1))))"

subsection \<open>Responses\<close>

datatype order_message = BeingProcessed | WhenMarketOpens | AlreadyWithBroker | AlreadyDone side bool

datatype response_status = QUEUED | StoredStatus OrderLifecycleStatus

record OrderResponse =
  rs_id :: uuid
  rs_stockId :: uuid
  rs_symbol :: string
  rs_side :: side
  rs_type :: order_type
  rs_quantity :: rat
  rs_price :: rat
  rs_totalAmount :: rat
  rs_status :: response_status
  rs_queued :: bool
  rs_marketOpen :: bool
  rs_message :: order_message
  rs_totalCost :: rat
  rs_createdAt :: timestamp
  rs_executedAt :: "timestamp option"

text \<open>\<open>toFixed(k)\<close> rounds half away from zero.\<close>

definition buildContractResponse ::
  "runtime \<Rightarrow> db \<Rightarrow> order \<Rightarrow> rat \<Rightarrow> bool \<Rightarrow> order_message \<Rightarrow> rat option \<Rightarrow> bool \<Rightarrow> OrderResponse" where
  "buildContractResponse R s x cost queued message estimated isOpen =
     (let fillPrice = (case o_averageFillPrice x of Some p \<Rightarrow> p
            | None \<Rightarrow> (case estimated of Some p \<Rightarrow> p | None \<Rightarrow> 0));
          gross = dmul R (o_quantity x) fillPrice
      in \<lparr>rs_id = o_id x, rs_stockId = o_stockId x, rs_symbol = order_symbol s x, rs_side = o_side x,
          rs_type = o_type x, rs_quantity = half_away 0 (o_quantity x), rs_price = half_away 2 fillPrice,
          rs_totalAmount = half_away 2 gross,
          rs_status = (if queued then QUEUED else StoredStatus (o_status x)), rs_queued = queued,
          rs_marketOpen = isOpen, rs_message = message, rs_totalCost = half_away 2 cost,
          rs_createdAt = o_createdAt x, rs_executedAt = o_filledAt x\<rparr>)"

definition http_error :: "err \<Rightarrow> msg option" where
  "http_error e =
     (case e of BadRequest m \<Rightarrow> Some m | NotFound m \<Rightarrow> Some m | Forbidden m \<Rightarrow> Some m | Conflict m \<Rightarrow> Some m
      | Validation m \<Rightarrow> Some m | InternalServerError m \<Rightarrow> Some m | Unavailable m \<Rightarrow> Some m | PlainError _ \<Rightarrow> None | PrismaError _ \<Rightarrow> None)"

definition generic_reason :: msg where
  "generic_reason = Msg ''This order could not be processed. Please try again.''"

definition userFacingRejectionReason :: "err \<Rightarrow> msg" where
  "userFacingRejectionReason e =
     (case http_error e of
        Some (Msg txt) \<Rightarrow> if \<forall>c \<in> set txt. c = CHR '' '' then generic_reason else Msg txt
      | Some m \<Rightarrow> m
      | None \<Rightarrow> generic_reason)"

definition replayExistingOrder ::
  "runtime \<Rightarrow> market_config \<Rightarrow> db \<Rightarrow> order \<Rightarrow> side \<Rightarrow> err + OrderResponse" where
  "replayExistingOrder R cfg s x sd =
     (let full = (case findOrderById s (o_id x) of Some y \<Rightarrow> y | None \<Rightarrow> x)
      in if o_status x = REJECTED
         then Inl (BadRequest (case o_rejectionReason full of Some m \<Rightarrow> m | None \<Rightarrow> generic_reason))
         else if o_status x = CANCELLED \<or> o_status x = EXPIRED
         then Inl (BadRequest (StatusMsg (o_status x)))
         else
           (let queued = (o_status x \<in> set ACTIVE_STATES)
            in Inr (buildContractResponse R s full (o_totalCost full) queued
                 (if queued then AlreadyWithBroker else AlreadyDone sd (o_status x = COMPLETED)) None
                 (isMarketOpen R cfg s))))"

subsection \<open>Submission\<close>

text \<open>
  The body of the \<open>try\<close>: validation, risk guards, the hold on a buyer's funds and the queue for the
  broker.  Each exception leaves the state written so far.
\<close>

definition reserve_step :: "runtime \<Rightarrow> db \<Rightarrow> uuid \<Rightarrow> uuid \<Rightarrow> side \<Rightarrow> TradingFees \<Rightarrow> err + db" where
  "reserve_step R s u oid sd fees =
     (if sd = BUY then
        (case reserveFunds R s u oid (js R (totalCost fees)) (Some (7 * 24 * 60)) of
           Inl e \<Rightarrow> Inl e
         | Inr (s1, _) \<Rightarrow> Inr (createTradeAudit s1 oid u ''FUNDS_RESERVED'' None None))
      else Inr s)"

definition queue_step :: "runtime \<Rightarrow> db \<Rightarrow> uuid \<Rightarrow> order \<Rightarrow> order_dto \<Rightarrow> db" where
  "queue_step R s u x d =
     (let s1 = updateOrderStatus s (o_id x) SUBMITTED (\<lambda>y. y\<lparr>o_submittedAt := Some (now R)\<rparr>);
          s2 = createTradeAudit s1 (o_id x) u ''ORDER_QUEUED_FOR_BROKER'' (Some VALIDATED) (Some SUBMITTED)
      in emit (OrderCreatedEvent (o_id x) u (d_stockSymbol d) (d_side d) (d_quantity d) (d_orderType d)) s2)"

definition check_of :: "order \<Rightarrow> order_dto \<Rightarrow> uuid \<Rightarrow> kyc_status \<Rightarrow> order_check" where
  "check_of x d u kyc =
     \<lparr>oc_userId = u, oc_stockId = o_stockId x, oc_side = d_side d, oc_type = d_orderType d,
      oc_quantity = d_quantity d, oc_limitPrice = truthy_price (d_limitPrice d), oc_kyc = kyc,
      oc_orderId = Some (o_id x)\<rparr>"

definition pipeline ::
  "runtime \<Rightarrow> db \<Rightarrow> uuid \<Rightarrow> order \<Rightarrow> order_dto \<Rightarrow> kyc_status \<Rightarrow> (err + rat \<times> TradingFees) \<times> db" where
  "pipeline R s u x d kyc =
     (case assert_step (o_status x) PENDING_VALIDATION of
        Inl e \<Rightarrow> (Inl e, s)
      | Inr _ \<Rightarrow>
          (case validate R (updateOrderStatus s (o_id x) PENDING_VALIDATION id) (check_of x d u kyc) of
             (Inl e, s1) \<Rightarrow> (Inl e, s1)
           | (Inr (price, fees), s1) \<Rightarrow>
               if d_side d = SELL \<and> totalCost fees \<le> 0
               then (Inl (BadRequest (LimitMsg (totalFees fees) (grossValue fees))), s1)
               else
                 (case assert_step PENDING_VALIDATION VALIDATED of
                    Inl e \<Rightarrow> (Inl e, s1)
                  | Inr _ \<Rightarrow>
                      (let s2 = updateOrderStatus s1 (o_id x) VALIDATED (\<lambda>y. y\<lparr>o_validatedAt := Some (now R),
                             o_totalFees := num4 R (totalFees fees), o_totalCost := num4 R (totalCost fees)\<rparr>);
                           s3 = createTradeAudit s2 (o_id x) u ''ORDER_VALIDATED'' (Some PENDING_VALIDATION) (Some VALIDATED)
                       in case risk_check R s3 u (grossValue fees) of
                            Inl e \<Rightarrow> (Inl e, s3)
                          | Inr _ \<Rightarrow>
                              (let s4 = createTradeAudit s3 (o_id x) u ''RISK_CHECK_PASSED'' None None
                               in case reserve_step R s4 u (o_id x) (d_side d) fees of
                                    Inl e \<Rightarrow> (Inl e, s4)
                                  | Inr s5 \<Rightarrow>
                                      (case assert_step VALIDATED SUBMITTED of
                                         Inl e \<Rightarrow> (Inl e, s5)
                                       | Inr _ \<Rightarrow> (Inr (price, fees), queue_step R s5 u x d)))))))"

text \<open>The \<open>catch\<close>: the order is rejected unless it already rests in a terminal state.\<close>

definition reject_failed :: "db \<Rightarrow> uuid \<Rightarrow> uuid \<Rightarrow> err \<Rightarrow> err \<times> db" where
  "reject_failed s u oid e =
     (let reason = userFacingRejectionReason e;
          s1 = (case findOrderById s oid of
                  None \<Rightarrow> s
                | Some x \<Rightarrow>
                    if o_status x \<in> {REJECTED, CANCELLED, EXPIRED, COMPLETED} then s
                    else emit (OrderRejectedEvent oid u reason)
                      (createTradeAudit (updateOrderStatus s oid REJECTED (\<lambda>y. y\<lparr>o_rejectionReason := Some reason\<rparr>))
                         oid u ''ORDER_REJECTED'' (Some (o_status x)) (Some REJECTED)))
      in (if http_error e \<noteq> None then e else BadRequest reason, s1))"

definition trader_check :: "db \<Rightarrow> uuid \<Rightarrow> err option" where
  "trader_check s u =
     (case findUser s u of
        None \<Rightarrow> None
      | Some x \<Rightarrow>
          if u_role x = CUSTOMER then
            (case u_brokerId x of
               None \<Rightarrow> Some (Validation (Msg ''BROKER_REQUIRED''))
             | Some b \<Rightarrow>
                 (case findBroker s b of
                    None \<Rightarrow> None
                  | Some br \<Rightarrow> if \<not> b_isActive br
                      then Some (Validation (Msg ''Your broker is currently unavailable. Contact support.''))
                      else None))
          else None)"

definition submitOrder ::
  "runtime \<Rightarrow> market_config \<Rightarrow> db \<Rightarrow> uuid \<Rightarrow> order_dto \<Rightarrow> kyc_status \<Rightarrow> (err + OrderResponse) \<times> db" where
  "submitOrder R cfg s0 u d userKyc =
     (let kyc = (case getCurrentKycStatus s0 u of Some k \<Rightarrow> k | None \<Rightarrow> userKyc);
          (placed, s) = ensureBroker s0 u
      in case trader_check s u of
           Some e \<Rightarrow> (Inl e, s)
         | None \<Rightarrow>
             (case createOrder R s u d of
                Inl e \<Rightarrow> (Inl e, s)
              | Inr (s1, x) \<Rightarrow>
                  if o_status x \<noteq> DRAFT then (replayExistingOrder R cfg s1 x (d_side d), s1)
                  else
                    (case pipeline R s1 u x d kyc of
                       (Inl e, s2) \<Rightarrow> (let (e', s3) = reject_failed s2 u (o_id x) e in (Inl e', s3))
                     | (Inr (price, fees), s2) \<Rightarrow>
                         (let y = (case findOrderById s2 (o_id x) of Some y \<Rightarrow> y | None \<Rightarrow> x);
                              isOpen = isMarketOpen R cfg s2
                          in (Inr (buildContractResponse R s2 y (totalCost fees) True
                                (if isOpen then BeingProcessed else WhenMarketOpens) (Some price) isOpen), s2)))))"

definition submitBuyOrder ::
  "runtime \<Rightarrow> market_config \<Rightarrow> db \<Rightarrow> uuid \<Rightarrow> order_dto \<Rightarrow> kyc_status \<Rightarrow> (err + OrderResponse) \<times> db" where
  "submitBuyOrder R cfg s u d kyc = submitOrder R cfg s u (d\<lparr>d_side := BUY\<rparr>) kyc"

definition submitSellOrder ::
  "runtime \<Rightarrow> market_config \<Rightarrow> db \<Rightarrow> uuid \<Rightarrow> order_dto \<Rightarrow> kyc_status \<Rightarrow> (err + OrderResponse) \<times> db" where
  "submitSellOrder R cfg s u d kyc = submitOrder R cfg s u (d\<lparr>d_side := SELL\<rparr>) kyc"

subsection \<open>Execution and cancellation\<close>

definition executeQueuedOrder :: "runtime \<Rightarrow> adapter \<Rightarrow> db \<Rightarrow> uuid \<Rightarrow> (err + exec_result) \<times> db" where
  "executeQueuedOrder R ad s oid =
     (case findOrderById s oid of
        None \<Rightarrow> (Inl (NotFound (Msg ''Order'')), s)
      | Some x \<Rightarrow>
          if o_status x \<noteq> SUBMITTED then (Inl (Conflict (StatusMsg (o_status x))), s)
          else
            (case (if o_type x = LIMIT \<and> o_limitPrice x \<noteq> None then o_limitPrice x
                   else getLatestClosePrice s (o_stockId x)) of
               None \<Rightarrow> (Inl (Validation (Msg ''No market price available for this stock'')), s)
             | Some price \<Rightarrow>
                 execute R ad (createTradeAudit s oid (o_userId x) ''ORDER_EXECUTED_BY_BROKER''
                   (Some SUBMITTED) (Some SUBMITTED)) oid price))"

definition cancelOrder :: "runtime \<Rightarrow> db \<Rightarrow> uuid \<Rightarrow> uuid \<Rightarrow> (err + unit) \<times> db" where
  "cancelOrder R s u oid =
     (case order_cancelOrder R s u oid of
        Inl e \<Rightarrow> (Inl e, s)
      | Inr s1 \<Rightarrow> (Inr (), emit (OrderCancelledEvent oid u ''User requested cancellation'') s1))"

subsection \<open>Histories\<close>

record TradeRow =
  tw_id :: uuid
  tw_quantity :: rat
  tw_price :: rat
  tw_fee :: rat
  tw_createdAt :: timestamp

record OrderView =
  ov_id :: uuid
  ov_stockSymbol :: string
  ov_stockName :: string
  ov_side :: side
  ov_type :: order_type
  ov_status :: OrderLifecycleStatus
  ov_quantity :: rat
  ov_filledQuantity :: rat
  ov_limitPrice :: "rat option"
  ov_averageFillPrice :: "rat option"
  ov_totalFees :: rat
  ov_totalCost :: rat
  ov_brokerRef :: "string option"
  ov_rejectionReason :: "msg option"
  ov_validatedAt :: "timestamp option"
  ov_submittedAt :: "timestamp option"
  ov_filledAt :: "timestamp option"
  ov_settledAt :: "timestamp option"
  ov_cancelledAt :: "timestamp option"
  ov_createdAt :: timestamp
  ov_trades :: "TradeRow list"

definition order_trades :: "db \<Rightarrow> order \<Rightarrow> trade list" where
  "order_trades s x = filter (\<lambda>t. tr_orderId t = o_id x) (db_trades s)"

definition formatOrderResponse :: "runtime \<Rightarrow> db \<Rightarrow> order \<Rightarrow> OrderView" where
  "formatOrderResponse R s x =
     \<lparr>ov_id = o_id x, ov_stockSymbol = order_symbol s x,
      ov_stockName = (case findStockById s (o_stockId x) of Some st \<Rightarrow> s_name st | None \<Rightarrow> []),
      ov_side = o_side x, ov_type = o_type x, ov_status = o_status x,
      ov_quantity = js R (o_quantity x), ov_filledQuantity = js R (o_filledQuantity x),
      ov_limitPrice = map_option (js R) (o_limitPrice x),
      ov_averageFillPrice = map_option (js R) (o_averageFillPrice x),
      ov_totalFees = js R (o_totalFees x), ov_totalCost = js R (o_totalCost x),
      ov_brokerRef = o_brokerRef x, ov_rejectionReason = o_rejectionReason x,
      ov_validatedAt = o_validatedAt x, ov_submittedAt = o_submittedAt x, ov_filledAt = o_filledAt x,
      ov_settledAt = o_settledAt x, ov_cancelledAt = o_cancelledAt x, ov_createdAt = o_createdAt x,
      ov_trades = map (\<lambda>t. \<lparr>tw_id = tr_id t, tw_quantity = js R (tr_quantity t), tw_price = js R (tr_price t),
         tw_fee = js R (tr_fee t), tw_createdAt = tr_createdAt t\<rparr>) (order_trades s x)\<rparr>"

definition getOrders :: "runtime \<Rightarrow> db \<Rightarrow> uuid \<Rightarrow> order_filter \<Rightarrow> OrderView list \<times> nat \<times> nat \<times> nat" where
  "getOrders R s u f =
     (let (xs, total) = getOrderHistory s u f
      in (map (formatOrderResponse R s) xs, total,
          (case of_limit f of Some l \<Rightarrow> l | None \<Rightarrow> 20), (case of_offset f of Some k \<Rightarrow> k | None \<Rightarrow> 0)))"

definition getOrderDetail :: "runtime \<Rightarrow> db \<Rightarrow> uuid \<Rightarrow> uuid \<Rightarrow> err + OrderView" where
  "getOrderDetail R s u oid =
     (case order_getOrderDetail s u oid of Inl e \<Rightarrow> Inl e | Inr x \<Rightarrow> Inr (formatOrderResponse R s x))"

text \<open>
  The last fallback of \<open>executedAt\<close> is the row's automatic \<open>updatedAt\<close> column, which the tables here do
  not carry: it is the value \<open>LastUpdate\<close>.
\<close>

datatype executed_at = At timestamp | LastUpdate | NotExecuted

record TradeHistoryRow =
  th_id :: uuid
  th_stockId :: uuid
  th_symbol :: string
  th_side :: side
  th_type :: order_type
  th_quantity :: rat
  th_price :: rat
  th_totalAmount :: rat
  th_status :: OrderLifecycleStatus
  th_queued :: bool
  th_rejectionReason :: "msg option"
  th_totalCost :: rat
  th_createdAt :: timestamp
  th_executedAt :: executed_at

definition trade_history_row :: "runtime \<Rightarrow> db \<Rightarrow> order \<Rightarrow> TradeHistoryRow" where
  "trade_history_row R s x =
     (let price = (case o_averageFillPrice x of Some p \<Rightarrow> p
            | None \<Rightarrow> (case o_limitPrice x of Some p \<Rightarrow> p | None \<Rightarrow> 0));
          cost = (if o_totalCost x > 0 then o_totalCost x
                  else dadd R (dmul R (o_quantity x) price) (o_totalFees x));
          executed = (order_trades s x \<noteq> [])
      in \<lparr>th_id = o_id x, th_stockId = o_stockId x, th_symbol = order_symbol s x, th_side = o_side x,
          th_type = o_type x, th_quantity = half_away 0 (o_quantity x), th_price = half_away 2 price,
          th_totalAmount = half_away 2 (dsub R cost (o_totalFees x)), th_status = o_status x,
          th_queued = (o_status x = SUBMITTED), th_rejectionReason = o_rejectionReason x,
          th_totalCost = half_away 2 cost, th_createdAt = o_createdAt x,
          th_executedAt = (case o_filledAt x of Some t \<Rightarrow> At t
            | None \<Rightarrow> (case o_settledAt x of Some t \<Rightarrow> At t
               | None \<Rightarrow> if executed then LastUpdate else NotExecuted))\<rparr>)"

definition getTradeHistory :: "runtime \<Rightarrow> db \<Rightarrow> uuid \<Rightarrow> nat \<Rightarrow> nat \<Rightarrow> TradeHistoryRow list \<times> nat" where
  "getTradeHistory R s u limit offset =
     (let rows = map (trade_history_row R s) (fst (findUserOrders s u
            (no_filter\<lparr>of_limit := Some limit, of_offset := Some offset, of_exclude := [DRAFT, PENDING_VALIDATION]\<rparr>)))
      in (rows, length rows))"

subsection \<open>The wallet's trading dependency\<close>

text \<open>What \<open>processPaymentByTxRef\<close> calls once the trading service is wired in.\<close>

definition wired_buy ::
  "runtime \<Rightarrow> market_config \<Rightarrow> db \<Rightarrow> uuid \<Rightarrow> string \<Rightarrow> rat \<Rightarrow> string \<Rightarrow> kyc_status \<Rightarrow> db" where
  "wired_buy R cfg s u symbol qty key kyc =
     snd (submitBuyOrder R cfg s u \<lparr>d_stockSymbol = symbol, d_side = BUY, d_quantity = qty,
       d_orderType = MARKET, d_limitPrice = None, d_idempotencyKey = Some key\<rparr> kyc)"

section \<open>Frames\<close>

text \<open>Steps of the pipeline leave the money tables alone.\<close>

definition money_eq :: "db \<Rightarrow> db \<Rightarrow> bool" where
  "money_eq s s' \<longleftrightarrow>
     db_wallets s' = db_wallets s \<and> db_transactions s' = db_transactions s \<and> db_ledger s' = db_ledger s \<and>
     db_uid s \<le> db_uid s'"

lemma money_eq_refl [simp]: "money_eq s s"
  by (simp add: money_eq_def)

lemma money_eq_trans [trans]: "money_eq s s' \<Longrightarrow> money_eq s' s'' \<Longrightarrow> money_eq s s''"
  by (auto simp: money_eq_def)

lemma money_eq_books: "money_eq s s' \<Longrightarrow> books_ok s \<Longrightarrow> books_ok s'"
  by (rule books_cong [of s' s]) (auto simp: money_eq_def)

lemma tables_eq_money: "tables_eq s s' \<Longrightarrow> money_eq s s'"
  by (simp add: tables_eq_fields money_eq_def)

lemma tables_eq_tradingFees: "tables_eq s (snd (tradingFeesFor R s u p q sd))"
  by (rule tables_eqI [where f = "snd (tradingFeesForUser R (map_of (db_feeConfigs s))
        (\<lambda>x. map_option u_brokerId (findUser s x)) (db_feeCache s) u p q sd)"
        and r = "db_riskCache s" and p = "db_platformCache s"])
    (simp add: tradingFeesFor_def split_beta Let_def)

lemma tables_eq_platformFee: "tables_eq s (snd (platformFeeFor R s c))"
  by (rule tables_eqI [where f = "db_feeCache s" and r = "db_riskCache s"
        and p = "snd (feeForCommission R (map_option pc_platformCommissionPct (db_platformConfig s)) (db_platformCache s) c)"])
    (simp add: platformFeeFor_def split_beta Let_def)

lemma tables_eq_concentration: "tables_eq s (snd (checkBuyConcentration R s u sid g))"
proof -
  obtain c where "snd (riskPolicyForUser R s u) = s\<lparr>db_riskCache := c\<rparr>"
    using riskPolicyForUser_state by blast
  then have "snd (checkBuyConcentration R s u sid g) = s\<lparr>db_riskCache := c\<rparr>"
    by (simp add: checkBuyConcentration_def split_beta Let_def)
  then show ?thesis
    by (intro tables_eqI [where f = "db_feeCache s" and r = c and p = "db_platformCache s"]) simp
qed

lemma tables_eq_validate: "tables_eq s (snd (validate R s c))"
proof -
  have 1: "tables_eq s (snd (tradingFeesFor R s v p q sd))" for v p q sd by (rule tables_eq_tradingFees)
  have 2: "tables_eq s (snd (checkBuyConcentration R (snd (tradingFeesFor R s v p q sd)) u sid g))"
    for v p q sd u sid g
    by (rule tables_eq_trans [OF 1 tables_eq_concentration])
  show ?thesis unfolding validate_def Let_def split_beta
    by (auto simp: 1 2 split: sum.split)
qed

lemma money_eq_steps [simp]:
  "money_eq s (updateOrderStatus s' i st f) \<longleftrightarrow> money_eq s s'"
  "money_eq s (createTradeAudit s' i u a x y) \<longleftrightarrow> money_eq s s'"
  "money_eq s (emit e s') \<longleftrightarrow> money_eq s s'"
  "money_eq s (createOrderExecution R s' i q p fee r) \<longleftrightarrow> money_eq s s'"
  by (simp_all add: money_eq_def updateOrderStatus_def createTradeAudit_def createOrderExecution_def)

lemma money_eq_createTrade: "money_eq s s' \<Longrightarrow> money_eq s (snd (createTrade R s' i q p fee b c d))"
  by (simp add: money_eq_def createTrade_def)

lemma money_eq_reserve: "reserveFunds R s u oid a e = Inr (s', i) \<Longrightarrow> money_eq s s'"
  by (auto simp: reserveFunds_def createReservation_def Let_def money_eq_def split: option.splits if_splits)

lemma money_eq_reserve_step: "reserve_step R s u oid sd fees = Inr s' \<Longrightarrow> money_eq s s'"
  by (auto simp: reserve_step_def createTradeAudit_def money_eq_def dest!: money_eq_reserve
      split: if_splits sum.splits)

lemma money_eq_pipeline: "money_eq s (snd (pipeline R s u x d kyc))"
proof -
  let ?s0 = "updateOrderStatus s (o_id x) PENDING_VALIDATION id"
  obtain r s1 where v: "validate R ?s0 (check_of x d u kyc) = (r, s1)"
    by (cases "validate R ?s0 (check_of x d u kyc)")
  have "money_eq ?s0 s1"
    using tables_eq_money [OF tables_eq_validate [of ?s0 R "check_of x d u kyc"]] v by simp
  then have m1: "money_eq s s1" by (rule money_eq_trans [rotated]) simp
  have m2: "money_eq s s5"
    if "reserve_step R (createTradeAudit (createTradeAudit (updateOrderStatus s1 i st f) j w a b c) j' w' a' b' c')
      u k sd fees = Inr s5" for s5 i st f j w a b c j' w' a' b' c' k sd fees
    by (rule money_eq_trans [OF _ money_eq_reserve_step [OF that]]) (simp add: m1)
  then show ?thesis
    unfolding pipeline_def Let_def v
    by (auto simp: m1 queue_step_def Let_def dest: m2 split: sum.split)
qed

lemma money_eq_reject_failed: "money_eq s (snd (reject_failed s u oid e))"
  by (simp add: reject_failed_def Let_def money_eq_def updateOrderStatus_def createTradeAudit_def
      split: option.split)

lemma createOrder_money: "createOrder R s u d = Inr (s', x) \<Longrightarrow> money_eq s s'"
  by (auto simp: createOrder_def repo_createOrder_def money_eq_def createTradeAudit_def Let_def
      split: option.splits sum.splits if_splits)

text \<open>The four ways a submission ends.\<close>

definition live_kyc :: "db \<Rightarrow> uuid \<Rightarrow> kyc_status \<Rightarrow> kyc_status" where
  "live_kyc s u kyc = (case getCurrentKycStatus s u of Some k \<Rightarrow> k | None \<Rightarrow> kyc)"

lemma submitOrder_cases:
  fixes R cfg s u d kyc
  defines "s1 \<equiv> snd (ensureBroker s u)" and "k \<equiv> live_kyc s u kyc"
  obtains (early) e where "submitOrder R cfg s u d kyc = (Inl e, s1)"
  | (replay) s2 x where "createOrder R s1 u d = Inr (s2, x)" "o_status x \<noteq> DRAFT"
      "submitOrder R cfg s u d kyc = (replayExistingOrder R cfg s2 x (d_side d), s2)"
  | (failed) s2 x e s3 where "createOrder R s1 u d = Inr (s2, x)" "o_status x = DRAFT"
      "pipeline R s2 u x d k = (Inl e, s3)"
      "submitOrder R cfg s u d kyc =
         (Inl (fst (reject_failed s3 u (o_id x) e)), snd (reject_failed s3 u (o_id x) e))"
  | (queued) s2 x price fees s3 r where "createOrder R s1 u d = Inr (s2, x)" "o_status x = DRAFT"
      "pipeline R s2 u x d k = (Inr (price, fees), s3)" "submitOrder R cfg s u d kyc = (Inr r, s3)"
proof -
  have e: "ensureBroker s u = (fst (ensureBroker s u), s1)" by (simp add: s1_def)
  show thesis
  proof (cases "trader_check s1 u")
    case (Some er)
    then have "submitOrder R cfg s u d kyc = (Inl er, s1)"
      by (subst submitOrder_def, subst e) (simp add: Let_def)
    then show thesis by (rule early)
  next
    case None
    show thesis
    proof (cases "createOrder R s1 u d")
      case (Inl er)
      with None have "submitOrder R cfg s u d kyc = (Inl er, s1)"
        by (subst submitOrder_def, subst e) (simp add: Let_def)
      then show thesis by (rule early)
    next
      case (Inr q)
      then obtain s2 x where c: "createOrder R s1 u d = Inr (s2, x)" by (cases q) auto
      have sub: "submitOrder R cfg s u d kyc =
          (if o_status x \<noteq> DRAFT then (replayExistingOrder R cfg s2 x (d_side d), s2)
           else case pipeline R s2 u x d k of
             (Inl e, s3) \<Rightarrow> (let (e', s3) = reject_failed s3 u (o_id x) e in (Inl e', s3))
           | (Inr (price, fees), s3) \<Rightarrow>
               (let y = (case findOrderById s3 (o_id x) of Some y \<Rightarrow> y | None \<Rightarrow> x);
                    isOpen = isMarketOpen R cfg s3
                in (Inr (buildContractResponse R s3 y (totalCost fees) True
                      (if isOpen then BeingProcessed else WhenMarketOpens) (Some price) isOpen), s3)))"
        using None c by (subst submitOrder_def, subst e) (simp add: Let_def k_def live_kyc_def)
      show thesis
      proof (cases "o_status x = DRAFT")
        case False
        with sub show thesis by (intro replay [OF c]) simp_all
      next
        case draft: True
        obtain r s3 where p: "pipeline R s2 u x d k = (r, s3)" by (cases "pipeline R s2 u x d k")
        show thesis
        proof (cases r)
          case (Inl er)
          with p sub draft show thesis by (intro failed [OF c draft]) (simp_all add: split_beta)
        next
          case (Inr pf)
          with p sub draft show thesis
            by (intro queued [OF c draft, of "fst pf" "snd pf" s3]) (simp_all add: split_beta Let_def)
        qed
      qed
    qed
  qed
qed

lemma submitOrder_books:
  assumes "books_ok s"
  shows "books_ok (snd (submitOrder R cfg s u d kyc))"
proof -
  have b1: "books_ok (snd (ensureBroker s u))" by (rule ensureBroker_books [OF assms])
  have b2: "books_ok s2" if "createOrder R (snd (ensureBroker s u)) u d = Inr (s2, x)" for s2 x
    using money_eq_books [OF createOrder_money [OF that] b1] .
  have b3: "books_ok s3" if "createOrder R (snd (ensureBroker s u)) u d = Inr (s2, x)"
    "pipeline R s2 u x d k = (r, s3)" for s2 x k r s3
    using money_eq_books [OF money_eq_pipeline [of s2 R u x d k] b2 [OF that(1)]] that(2) by simp
  show ?thesis
    by (cases rule: submitOrder_cases [where R = R and cfg = cfg and s = s and u = u and d = d and kyc = kyc])
      (auto simp: b1 dest: b2 b3 intro: money_eq_books [OF money_eq_reject_failed])
qed

lemma money_eq_record_fill: "money_eq s s' \<Longrightarrow> money_eq s (snd (record_fill R s' x f))"
proof -
  assume m: "money_eq s s'"
  let ?t = "tradingFeesFor R s' (o_userId x) (bf_fillPrice f) (bf_filledQuantity f) (o_side x)"
  let ?p = "platformFeeFor R (snd ?t) (brokerCommission (fst ?t))"
  have "money_eq s (snd ?p)"
    using m tables_eq_money [OF tables_eq_trans [OF tables_eq_tradingFees tables_eq_platformFee]]
    by (rule money_eq_trans)
  then show ?thesis
    by (simp add: record_fill_def Let_def split_beta money_eq_createTrade)
qed

lemma money_eq_execute: "money_eq s (snd (execute R ad s oid p))"
  unfolding execute_def Let_def split_beta
  by (auto intro!: money_eq_record_fill simp: record_rejection_def Let_def split: option.split sum.split)

lemma executeQueuedOrder_books: "books_ok s \<Longrightarrow> books_ok (snd (executeQueuedOrder R ad s oid))"
proof -
  assume b: "books_ok s"
  have "books_ok (snd (execute R ad (createTradeAudit s i u a x y) oid p))" for i u a x y p
    using b by (intro money_eq_books [OF money_eq_trans [OF _ money_eq_execute], of s]) simp_all
  with b show ?thesis by (auto simp: executeQueuedOrder_def split: option.split)
qed

lemma cancelOrder_books: "books_ok s \<Longrightarrow> books_ok (snd (cancelOrder R s u oid))"
  by (rule books_cong [of _ s])
    (auto simp: cancelOrder_def order_cancelOrder_def updateOrderStatus_def createTradeAudit_def
      split: sum.splits option.splits if_splits)

section \<open>Orders through the pipeline\<close>

lemma findOrderById_Some: "findOrderById s i = Some x \<Longrightarrow> x \<in> set (db_orders s) \<and> o_id x = i"
  by (auto simp: findOrderById_def find_Some_iff)

lemma findOrderById_update:
  assumes "\<And>x. o_id (f x) = o_id x"
  shows "findOrderById (updateOrderStatus s i st f) j =
     map_option (\<lambda>x. if j = i then f (x\<lparr>o_status := st\<rparr>) else x) (findOrderById s j)"
  unfolding findOrderById_def updateOrderStatus_def by (simp add: find_upd_where assms)

lemma findOrderById_frame [simp]:
  "findOrderById (createTradeAudit s i u a x y) j = findOrderById s j"
  "findOrderById (emit e s) j = findOrderById s j"
  "findOrderById (createOrderExecution R s i q p fee r) j = findOrderById s j"
  "findOrderById (snd (createTrade R s i q p fee b c d)) j = findOrderById s j"
  by (simp_all add: findOrderById_def createTradeAudit_def createOrderExecution_def createTrade_def)

lemma findOrderById_tables: "tables_eq s s' \<Longrightarrow> findOrderById s' j = findOrderById s j"
  by (simp add: findOrderById_def tables_eq_fields)

lemma record_fill_order:
  assumes "findOrderById s (o_id x) = Some y"
  shows "map_option o_status (findOrderById (snd (record_fill R s x f)) (o_id x)) =
      Some (if bf_filledQuantity f \<ge> o_quantity x then FILLED else PARTIALLY_FILLED)"
    and "j \<noteq> o_id x \<Longrightarrow> findOrderById (snd (record_fill R s x f)) j = findOrderById s j"
proof -
  let ?t = "tradingFeesFor R s (o_userId x) (bf_fillPrice f) (bf_filledQuantity f) (o_side x)"
  let ?p = "platformFeeFor R (snd ?t) (brokerCommission (fst ?t))"
  have *: "findOrderById (snd ?p) i = findOrderById s i" for i
    by (rule findOrderById_tables [OF tables_eq_trans [OF tables_eq_tradingFees tables_eq_platformFee]])
  show "map_option o_status (findOrderById (snd (record_fill R s x f)) (o_id x)) =
      Some (if bf_filledQuantity f \<ge> o_quantity x then FILLED else PARTIALLY_FILLED)"
    using assms by (simp add: record_fill_def Let_def split_beta findOrderById_update *)
  show "j \<noteq> o_id x \<Longrightarrow> findOrderById (snd (record_fill R s x f)) j = findOrderById s j"
    by (simp add: record_fill_def Let_def split_beta findOrderById_update * option.map_ident)
qed

lemma execute_order:
  assumes "findOrderById s oid = Some x" and "execute R ad s oid p = (Inr r, s')"
  shows "\<exists>st \<in> {FILLED, PARTIALLY_FILLED, REJECTED}.
      map_option o_status (findOrderById s' oid) = Some st"
    and "j \<noteq> oid \<Longrightarrow> findOrderById s' j = findOrderById s j"
proof -
  have id: "o_id x = oid" using findOrderById_Some [OF assms(1)] by simp
  define s1 where "s1 = (if o_status x = SUBMITTED then s
      else updateOrderStatus s oid SUBMITTED (\<lambda>y. y\<lparr>o_submittedAt := Some (now R)\<rparr>))"
  define s2 where "s2 = createTradeAudit s1 oid (o_userId x) ''ORDER_SUBMITTED_TO_BROKER'' (Some (o_status x)) (Some SUBMITTED)"
  define f where "f = gateway_submitOrder ad (submission_of R s2 x p)"
  define s3 where "s3 = updateOrderStatus s2 oid ACCEPTED
      (\<lambda>y. y\<lparr>o_brokerRef := Some (bf_brokerRef f), o_acceptedAt := Some (now R)\<rparr>)"
  have f3: "\<exists>y. findOrderById s3 oid = Some y" "j \<noteq> oid \<Longrightarrow> findOrderById s3 j = findOrderById s j" for j
    using assms(1) by (simp_all add: s3_def s2_def s1_def findOrderById_update option.map_ident)
  have s': "s' = (if bf_status f = FILL_REJECTED then record_rejection s3 x f else snd (record_fill R s3 x f))"
    using assms by (auto simp: execute_def Let_def split_beta s1_def s2_def s3_def f_def split: sum.splits if_splits)
  obtain y where y: "findOrderById s3 (o_id x) = Some y" using f3(1) id by auto
  show "\<exists>st \<in> {FILLED, PARTIALLY_FILLED, REJECTED}. map_option o_status (findOrderById s' oid) = Some st"
    using record_fill_order(1) [OF y, of R f] y id
    by (auto simp: s' record_rejection_def Let_def findOrderById_update)
  show "j \<noteq> oid \<Longrightarrow> findOrderById s' j = findOrderById s j"
    using record_fill_order(2) [OF y, of j R f] f3(2) [of j] id
    by (auto simp: s' record_rejection_def Let_def findOrderById_update option.map_ident)
qed

lemma assert_step_draft [simp]:
  "assert_step DRAFT PENDING_VALIDATION = Inr ()" "assert_step PENDING_VALIDATION VALIDATED = Inr ()"
  "assert_step VALIDATED SUBMITTED = Inr ()"
  by (simp_all add: assert_step_def assertTransition_def canTransition_def)

lemma reservations_frame [simp]:
  "db_reservations (updateOrderStatus s i st f) = db_reservations s"
  "db_reservations (createTradeAudit s i u a x y) = db_reservations s"
  by (simp_all add: updateOrderStatus_def createTradeAudit_def)

lemma findReservation_cong:
  "db_reservations s' = db_reservations s \<Longrightarrow> findReservationByOrderId s' oid = findReservationByOrderId s oid"
  by (simp add: findReservationByOrderId_def)

lemma reserve_step_Inr:
  assumes "reserve_step R s u oid sd fees = Inr s'"
  shows "findOrderById s' i = findOrderById s i"
    and "sd = BUY \<Longrightarrow> \<exists>r. findReservationByOrderId s' oid = Some r"
proof -
  have "findOrderById s1 i = findOrderById s i \<and> (\<exists>r. findReservationByOrderId s1 oid = Some r)"
    if "reserveFunds R s u oid a e = Inr (s1, j)" for a e s1 j
    using that by (rule reserveFunds_Inr)
      (auto simp: createReservation_def findReservationByOrderId_def findOrderById_def find_append)
  then show "findOrderById s' i = findOrderById s i"
    and "sd = BUY \<Longrightarrow> \<exists>r. findReservationByOrderId s' oid = Some r"
    using assms findReservation_cong [of "createTradeAudit _ _ _ _ _ _" _ oid]
    by (auto simp: reserve_step_def split: if_splits sum.splits)
qed

text \<open>The states the pipeline passes through, for a draft order.\<close>

lemma pipeline_draft:
  assumes "o_status x = DRAFT" and "findOrderById s (o_id x) = Some y"
  shows "pipeline R s u x d k = (Inr (price, fees), s') \<Longrightarrow>
      fst (validate R (updateOrderStatus s (o_id x) PENDING_VALIDATION id) (check_of x d u k)) = Inr (price, fees) \<and>
      map_option o_status (findOrderById s' (o_id x)) = Some SUBMITTED \<and>
      (d_side d = BUY \<longrightarrow> (\<exists>r. findReservationByOrderId s' (o_id x) = Some r))"
    and "pipeline R s u x d k = (Inl e, s') \<Longrightarrow>
      db_reservations s' = db_reservations s \<and>
      (\<exists>st \<in> {PENDING_VALIDATION, VALIDATED}. map_option o_status (findOrderById s' (o_id x)) = Some st)"
proof -
  let ?s0 = "updateOrderStatus s (o_id x) PENDING_VALIDATION id"
  obtain r s1 where v: "validate R ?s0 (check_of x d u k) = (r, s1)"
    by (cases "validate R ?s0 (check_of x d u k)")
  have t: "tables_eq ?s0 s1" using tables_eq_validate [of ?s0 R "check_of x d u k"] v by simp
  have r1: "db_reservations s1 = db_reservations s" using tables_eq_fields(5) [OF t] by simp
  have f1: "findOrderById s1 (o_id x) = Some (y\<lparr>o_status := PENDING_VALIDATION\<rparr>)"
    using findOrderById_tables [OF t] assms(2) by (simp add: findOrderById_update)
  define s3 where "s3 F = createTradeAudit (updateOrderStatus s1 (o_id x) VALIDATED (\<lambda>y. y\<lparr>o_validatedAt := Some (now R),
      o_totalFees := num4 R (totalFees F), o_totalCost := num4 R (totalCost F)\<rparr>)) (o_id x) u
      ''ORDER_VALIDATED'' (Some PENDING_VALIDATION) (Some VALIDATED)" for F :: TradingFees
  have f3: "map_option o_status (findOrderById (s3 F) (o_id x)) = Some VALIDATED"
    "db_reservations (s3 F) = db_reservations s" for F
    using f1 r1 by (simp_all add: s3_def findOrderById_update)
  have p: "pipeline R s u x d k = (case r of Inl e \<Rightarrow> (Inl e, s1)
      | Inr (price, fees) \<Rightarrow>
          if d_side d = SELL \<and> totalCost fees \<le> 0
          then (Inl (BadRequest (LimitMsg (totalFees fees) (grossValue fees))), s1)
          else (case risk_check R (s3 fees) u (grossValue fees) of
            Inl e \<Rightarrow> (Inl e, s3 fees)
          | Inr _ \<Rightarrow>
              (let s4 = createTradeAudit (s3 fees) (o_id x) u ''RISK_CHECK_PASSED'' None None
               in case reserve_step R s4 u (o_id x) (d_side d) fees of
                 Inl e \<Rightarrow> (Inl e, s4)
               | Inr s5 \<Rightarrow> (Inr (price, fees), queue_step R s5 u x d))))"
    using assms(1) by (simp add: pipeline_def v s3_def Let_def split: sum.split)
  show "fst (validate R ?s0 (check_of x d u k)) = Inr (price, fees) \<and>
      map_option o_status (findOrderById s' (o_id x)) = Some SUBMITTED \<and>
      (d_side d = BUY \<longrightarrow> (\<exists>r. findReservationByOrderId s' (o_id x) = Some r))"
    if "pipeline R s u x d k = (Inr (price, fees), s')"
  proof -
    from that p obtain s5 where r: "r = Inr (price, fees)" and s5: "reserve_step R
        (createTradeAudit (s3 fees) (o_id x) u ''RISK_CHECK_PASSED'' None None) u (o_id x) (d_side d) fees = Inr s5"
      and s': "s' = queue_step R s5 u x d"
      by (auto simp: Let_def split: sum.splits if_splits)
    have "findOrderById s5 (o_id x) = findOrderById (s3 fees) (o_id x)"
      using reserve_step_Inr(1) [OF s5] by simp
    then have "map_option o_status (findOrderById s' (o_id x)) = Some SUBMITTED"
      using f3(1) [of fees] by (auto simp: s' queue_step_def Let_def findOrderById_update)
    moreover have "findReservationByOrderId s' (o_id x) = findReservationByOrderId s5 (o_id x)"
      by (rule findReservation_cong) (simp add: s' queue_step_def Let_def)
    ultimately show ?thesis using v r reserve_step_Inr(2) [OF s5] by auto
  qed
  show "db_reservations s' = db_reservations s \<and>
      (\<exists>st \<in> {PENDING_VALIDATION, VALIDATED}. map_option o_status (findOrderById s' (o_id x)) = Some st)"
    if "pipeline R s u x d k = (Inl e, s')"
  proof -
    from that p have "s' = s1 \<or> (\<exists>F. s' = s3 F) \<or>
        (\<exists>F. s' = createTradeAudit (s3 F) (o_id x) u ''RISK_CHECK_PASSED'' None None)"
      by (auto simp: Let_def split: sum.splits if_splits)
    then show ?thesis using f1 r1 f3 by auto
  qed
qed

section \<open>Broker adapters\<close>

text \<open>
  The contract the execution engine has from its adapter in the current deployment: an order is
  filled at once, in full, at the price it was submitted with.
\<close>

locale instant_fill =
  fixes ad :: adapter
  assumes fills: "bf_status (ad x) = FULL_FILL" "bf_filledQuantity (ad x) = bs_quantity x"
    "bf_fillPrice (ad x) = bs_estimatedPrice x"
begin

lemma execute_fills:
  assumes "findOrderById s oid = Some x" and "o_status x = SUBMITTED" and "o_quantity x \<le> js R (o_quantity x)"
  shows "\<exists>fees tradeId s'. execute R ad s oid p = (Inr (Executed FILLED tradeId fees), s') \<and>
     map_option o_status (findOrderById s' oid) = Some FILLED \<and>
     (\<exists>ev. db_outbox s' = db_outbox s @ [OrderExecuted ev] \<and> ev_tradeId ev = tradeId \<and>
        ev_orderId ev = oid \<and> ev_userId ev = o_userId x \<and> ev_stockId ev = o_stockId x \<and> ev_side ev = o_side x \<and>
        ev_quantity ev = js R (js R (o_quantity x)) \<and> ev_price ev = js R (js R p) \<and>
        ev_totalFees ev = js R (totalFees fees) \<and> ev_totalCost ev = js R (totalCost fees) \<and>
        fees = fst (tradingFeesFor R s (o_userId x) (js R p) (js R (o_quantity x)) (o_side x)))"
proof -
  have id: "o_id x = oid" using findOrderById_Some [OF assms(1)] by simp
  define s2 where "s2 = createTradeAudit s oid (o_userId x) ''ORDER_SUBMITTED_TO_BROKER'' (Some SUBMITTED) (Some SUBMITTED)"
  define f where "f = ad (submission_of R s2 x p)"
  define s3 where "s3 = updateOrderStatus s2 oid ACCEPTED
      (\<lambda>y. y\<lparr>o_brokerRef := Some (bf_brokerRef f), o_acceptedAt := Some (now R)\<rparr>)"
  have f: "bf_status f = FULL_FILL" "bf_filledQuantity f = js R (o_quantity x)" "bf_fillPrice f = js R p"
    by (simp_all add: f_def fills submission_of_def)
  have e: "execute R ad s oid p = (Inr (fst (record_fill R s3 x f)), snd (record_fill R s3 x f))"
    using assms(1,2) f(1)
    by (simp add: execute_def Let_def split_beta s2_def s3_def f_def gateway_submitOrder_def)
  obtain y where "findOrderById s3 (o_id x) = Some y"
    using assms(1) id by (simp add: s3_def s2_def findOrderById_update)
  note st = record_fill_order(1) [OF this, of R f]
  let ?t = "tradingFeesFor R s3 (o_userId x) (js R p) (js R (o_quantity x)) (o_side x)"
  let ?p = "platformFeeFor R (snd ?t) (brokerCommission (fst ?t))"
  have ob: "db_outbox (snd ?p) = db_outbox s"
    using tables_eq_fields(10) [OF tables_eq_trans [OF tables_eq_tradingFees tables_eq_platformFee]]
    by (simp add: s3_def s2_def updateOrderStatus_def createTradeAudit_def)
  have fees: "fst ?t = fst (tradingFeesFor R s (o_userId x) (js R p) (js R (o_quantity x)) (o_side x))"
    by (simp add: tradingFeesFor_def s3_def s2_def updateOrderStatus_def createTradeAudit_def findUser_def
        split_beta Let_def)
  have "fst (record_fill R s3 x f) = Executed FILLED (db_uid (snd ?p)) (fst ?t)"
    using assms(3) by (simp add: record_fill_def Let_def split_beta f createTrade_def)
  moreover have "db_outbox (snd (record_fill R s3 x f)) =
      db_outbox s @ [OrderExecuted (executed_event R s3 x f (fst ?t) (db_uid (snd ?p)))]"
    by (simp add: record_fill_def Let_def split_beta f createTrade_def createTradeAudit_def updateOrderStatus_def
        createOrderExecution_def ob)
  ultimately show ?thesis
    using e st assms(3) id fees f by (auto simp: executed_event_def)
qed

end

interpretation sandbox: instant_fill "sandbox_submitOrder ref"
  by unfold_locales (simp_all add: sandbox_submitOrder_def)

interpretation mse: instant_fill "mse_submitOrder ref"
  by unfold_locales (simp_all add: mse_submitOrder_def)

section \<open>Sample exchange\<close>

text \<open>The bank of one deposit with an active broker and one listed stock at 10 Kwacha; an order to buy
  ten shares; the same exchange with the order queued.\<close>

definition exchange0 :: db where
  "exchange0 = bank1\<lparr>db_brokers := [\<lparr>b_id = 7, b_isActive = True\<rparr>],
     db_stocks := [\<lparr>s_id = 60, s_symbol = ''TNM'', s_name = ''TNM Plc'', s_isActive = True\<rparr>],
     db_prices := [\<lparr>p_stockId = 60, p_closePrice = 10, p_tradedAt = 0\<rparr>]\<rparr>"

definition sample_cfg :: market_config where
  "sample_cfg = \<lparr>openTime = ''10:00'', closeTime = ''14:00''\<rparr>"

definition sample_dto :: order_dto where
  "sample_dto = \<lparr>d_stockSymbol = ''tnm'', d_side = BUY, d_quantity = 10, d_orderType = MARKET,
     d_limitPrice = None, d_idempotencyKey = Some ''k1''\<rparr>"

definition exchange1 :: db where
  "exchange1 = snd (submitOrder (pg_runtime 10) sample_cfg exchange0 1 sample_dto KYC_PENDING)"

section \<open>Properties\<close>

text \<open>C11. A queued order is executed at most once, whatever the broker adapter answers: a successful
  execution started from a \<open>SUBMITTED\<close> order, leaves it filled, partially filled or rejected and
  every other order untouched, moves no money by itself, and a second execution is refused with
  a conflict and changes nothing.\<close>

theorem execution_once:
  assumes "executeQueuedOrder R ad s oid = (Inr r, s')"
  shows "map_option o_status (findOrderById s oid) = Some SUBMITTED \<and>
     (\<exists>st \<in> {FILLED, PARTIALLY_FILLED, REJECTED}. map_option o_status (findOrderById s' oid) = Some st \<and>
        executeQueuedOrder R' ad' s' oid = (Inl (Conflict (StatusMsg st)), s')) \<and>
     (\<forall>j. j = oid \<or> findOrderById s' j = findOrderById s j) \<and> money_eq s s'"
proof -
  from assms obtain x p where x: "findOrderById s oid = Some x" "o_status x = SUBMITTED"
    and e: "execute R ad (createTradeAudit s oid (o_userId x) ''ORDER_EXECUTED_BY_BROKER''
        (Some SUBMITTED) (Some SUBMITTED)) oid p = (Inr r, s')" (is "execute R ad ?s0 oid p = _")
    by (auto simp: executeQueuedOrder_def split: option.splits if_splits)
  have x0: "findOrderById ?s0 oid = Some x" using x by simp
  from execute_order(1) [OF x0 e] obtain st where st: "st \<in> {FILLED, PARTIALLY_FILLED, REJECTED}"
    and o': "map_option o_status (findOrderById s' oid) = Some st" by blast
  have "executeQueuedOrder R' ad' s' oid = (Inl (Conflict (StatusMsg st)), s')"
    using o' st by (auto simp: executeQueuedOrder_def)
  moreover have "money_eq ?s0 s'" using money_eq_execute [of ?s0 R ad oid p] e by simp
  then have "money_eq s s'" by (rule money_eq_trans [rotated]) simp
  ultimately show ?thesis using x st o' execute_order(2) [OF x0 e] by auto
qed

theorem execution_once_witness:
  "\<exists>r s'. executeQueuedOrder (pg_runtime 11) (sandbox_submitOrder ''1'') exchange1 103 = (Inr r, s') \<and>
     map_option o_status (findOrderById s' 103) = Some FILLED \<and>
     executeQueuedOrder (pg_runtime 12) (mse_submitOrder ''2'') s' 103 = (Inl (Conflict (StatusMsg FILLED)), s')"
proof -
  let ?e = "executeQueuedOrder (pg_runtime 11) (sandbox_submitOrder ''1'') exchange1 103"
  have st: "map_option o_status (findOrderById (snd ?e) 103) = Some FILLED" by code_simp
  have "case fst ?e of Inl _ \<Rightarrow> False | Inr _ \<Rightarrow> True" by code_simp
  then obtain r where "?e = (Inr r, snd ?e)" by (cases ?e) (auto split: sum.splits)
  from execution_once [OF this, of "pg_runtime 12" "mse_submitOrder ''2''"] this st show ?thesis by auto
qed

text \<open>The share of the user's assets a stock would make up after a purchase, in percent: positions at the
  latest prices plus the wallet's cash, and all of it when there are no assets.\<close>

definition buy_exposure :: "runtime \<Rightarrow> db \<Rightarrow> uuid \<Rightarrow> uuid \<Rightarrow> rat \<Rightarrow> rat" where
  "buy_exposure R s u sid gross =
     (let values = fold (add_position R s sid) (filter (\<lambda>h. h_userId h = u \<and> h_quantity h > 0) (db_holdings s)) (0, 0);
          assets = dadd R (fst values) (case findWalletByUserId s u of None \<Rightarrow> 0 | Some w \<Rightarrow> w_balance w)
      in if assets > 0 then js R (dmul R (ddiv R (dadd R (snd values) gross) assets) 100) else 100)"

lemma concentration_within:
  assumes "cc_status (fst (checkBuyConcentration R s u sid g)) \<noteq> BLOCKED"
    and "concentrationEnabled (fst (riskPolicyForUser R s u))"
  shows "buy_exposure R s u sid g \<le> nadd R (js R (maxPositionPct (fst (riskPolicyForUser R s u)))) (1 / 10 ^ 9)"
  using assms by (auto simp: checkBuyConcentration_def buy_exposure_def split_beta Let_def not_less split: if_splits)

lemma tradingFees_cache: "\<exists>c. snd (tradingFeesFor R s u p q sd) = s\<lparr>db_feeCache := c\<rparr>"
  by (auto simp: tradingFeesFor_def split_beta Let_def)

lemma exposure_cache:
  "fst (riskPolicyForUser R (s\<lparr>db_feeCache := c\<rparr>) u) = fst (riskPolicyForUser R s u)"
  "buy_exposure R (s\<lparr>db_feeCache := c\<rparr>) u sid g = buy_exposure R s u sid g"
proof -
  have "add_position R (s\<lparr>db_feeCache := c\<rparr>) = add_position R s"
    by (intro ext) (simp add: add_position_def latestPrice_def)
  then show "buy_exposure R (s\<lparr>db_feeCache := c\<rparr>) u sid g = buy_exposure R s u sid g"
    by (simp add: buy_exposure_def findWalletByUserId_def)
  show "fst (riskPolicyForUser R (s\<lparr>db_feeCache := c\<rparr>) u) = fst (riskPolicyForUser R s u)"
    by (simp add: riskPolicyForUser_def brokerIdOf_def findUser_def split_beta Let_def)
qed

text \<open>C12. Validation is sound: an order that passes comes from a verified user with an unfrozen wallet, is
  for an active stock that has a price, at least one share and at most fifty million Kwacha.  A limit
  order is priced at its own positive limit, a market order at the stock's latest price.  A purchase
  is covered by what is available after holds and pending withdrawals, and where the broker limits
  concentration it keeps the stock within the limit (to a thousand-millionth of a percent); a sale
  is covered by the shares not committed to other open sales.  The fees are the owning broker's, and
  nothing but policy caches was written.\<close>

theorem validation_sound:
  assumes "validate R s c = (Inr (price, fees), s')"
  shows "oc_kyc c = KYC_APPROVED \<and> 1 \<le> oc_quantity c \<and> grossValue fees \<le> 50000000 \<and>
     (\<exists>st. findStockById s (oc_stockId c) = Some st \<and> s_isActive st) \<and>
     (\<exists>latest. latestPrice s (oc_stockId c) = Some latest \<and>
        (if oc_type c = LIMIT then oc_limitPrice c = Some price \<and> 0 < price else price = latest)) \<and>
     (\<exists>w. findWalletByUserId s (oc_userId c) = Some w \<and> \<not> w_isFrozen w \<and>
        (oc_side c = SELL \<or> totalCost fees \<le> available_for_withdrawal R s w)) \<and>
     (let policy = fst (riskPolicyForUser R s (oc_userId c))
      in oc_side c = BUY \<and> concentrationEnabled policy \<longrightarrow>
        buy_exposure R s (oc_userId c) (oc_stockId c) (grossValue fees) \<le> nadd R (js R (maxPositionPct policy)) (1 / 10 ^ 9)) \<and>
     (oc_side c = BUY \<or> oc_quantity c \<le> dsub R
        (case findUserHolding s (oc_userId c) (oc_stockId c) of None \<Rightarrow> 0 | Some h \<Rightarrow> h_quantity h)
        (committed_shares s (oc_userId c) (oc_stockId c) (oc_orderId c))) \<and>
     fees = fst (tradingFeesFor R s (oc_userId c) price (oc_quantity c) (oc_side c)) \<and> tables_eq s s'"
proof -
  let ?s1 = "snd (tradingFeesFor R s (oc_userId c) price (oc_quantity c) (oc_side c))"
  note t1 = tables_eq_fields [OF tables_eq_tradingFees [of s R "oc_userId c" price "oc_quantity c" "oc_side c"]]
  have cong: "findWalletByUserId ?s1 u = findWalletByUserId s u"
    "available_for_withdrawal R ?s1 w = available_for_withdrawal R s w"
    "findUserHolding ?s1 u i = findUserHolding s u i" "committed_shares ?s1 u i e = committed_shares s u i e"
    for u w i e
    by (simp_all add: findWalletByUserId_def available_for_withdrawal_def sumActiveReservations_def
        findUserHolding_def committed_shares_def t1)
  from assms obtain latest where *: "checkStockActive s (oc_stockId c) = Inr latest"
    "checkKycStatus (oc_kyc c) = Inr ()" "checkAccountNotFrozen s (oc_userId c) = Inr ()"
    "checkMinimumQuantity (oc_quantity c) = Inr ()" "checkMaxOrderValue (grossValue fees) = Inr ()"
    "fees = fst (tradingFeesFor R s (oc_userId c) price (oc_quantity c) (oc_side c))"
    "oc_side c = BUY \<Longrightarrow> checkSufficientFunds R ?s1 (oc_userId c) (totalCost fees) = Inr ()"
    "oc_side c \<noteq> BUY \<Longrightarrow> checkSufficientShares R ?s1 (oc_userId c) (oc_stockId c) (oc_quantity c) (oc_orderId c) = Inr ()"
    "getOrderPrice (oc_type c) (oc_limitPrice c) latest = Inr price"
    "oc_side c = BUY \<Longrightarrow> cc_status (fst (checkBuyConcentration R ?s1 (oc_userId c) (oc_stockId c) (grossValue fees))) \<noteq> BLOCKED"
    unfolding validate_def Let_def split_beta
    by (auto split: sum.splits if_splits)
  have q: "1 \<le> oc_quantity c"
    using *(4) by (auto simp: checkMinimumQuantity_def MIN_ORDER_QUANTITY_def split: if_splits)
  have "oc_quantity c \<le> dsub R
        (case findUserHolding s (oc_userId c) (oc_stockId c) of None \<Rightarrow> 0 | Some h \<Rightarrow> h_quantity h)
        (committed_shares s (oc_userId c) (oc_stockId c) (oc_orderId c))" if "oc_side c \<noteq> BUY"
    using *(8) [OF that] q unfolding checkSufficientShares_def Let_def cong by (auto split: if_splits)
  moreover have "\<exists>w. findWalletByUserId s (oc_userId c) = Some w \<and> \<not> w_isFrozen w \<and>
        (oc_side c = SELL \<or> totalCost fees \<le> available_for_withdrawal R s w)"
    using *(3,7) unfolding checkAccountNotFrozen_def checkSufficientFunds_def Let_def cong
    by (cases "oc_side c") (auto split: option.splits if_splits)
  moreover have "\<exists>st. findStockById s (oc_stockId c) = Some st \<and> s_isActive st" "oc_kyc c = KYC_APPROVED"
    "grossValue fees \<le> 50000000"
    using *(1,2,5) by (auto simp: checkStockActive_def checkKycStatus_def checkMaxOrderValue_def
        MAX_ORDER_VALUE_MWK_def split: option.splits if_splits)
  moreover have "\<exists>latest. latestPrice s (oc_stockId c) = Some latest \<and>
      (if oc_type c = LIMIT then oc_limitPrice c = Some price \<and> 0 < price else price = latest)"
    using *(1,9) by (auto simp: checkStockActive_def getOrderPrice_def split: option.splits if_splits)
  moreover have "buy_exposure R s (oc_userId c) (oc_stockId c) (grossValue fees)
        \<le> nadd R (js R (maxPositionPct (fst (riskPolicyForUser R s (oc_userId c))))) (1 / 10 ^ 9)"
    if "oc_side c = BUY" "concentrationEnabled (fst (riskPolicyForUser R s (oc_userId c)))"
  proof -
    obtain k where k: "?s1 = s\<lparr>db_feeCache := k\<rparr>" using tradingFees_cache by blast
    show ?thesis using concentration_within [OF *(10) [OF that(1)]] that(2) unfolding k exposure_cache by simp
  qed
  ultimately show ?thesis using q *(6) tables_eq_validate [of s R c] assms by (cases "oc_side c") (simp_all add: Let_def)
qed

theorem validation_sound_witness:
  "\<exists>price fees s' w. validate (pg_runtime 9) exchange0 \<lparr>oc_userId = 1, oc_stockId = 60, oc_side = BUY, oc_type = MARKET,
      oc_quantity = 10, oc_limitPrice = None, oc_kyc = KYC_APPROVED, oc_orderId = None\<rparr> = (Inr (price, fees), s') \<and>
    findWalletByUserId exchange0 1 = Some w \<and> totalCost fees \<le> available_for_withdrawal (pg_runtime 9) exchange0 w"
proof -
  let ?c = "\<lparr>oc_userId = 1, oc_stockId = 60, oc_side = BUY, oc_type = MARKET,
      oc_quantity = 10, oc_limitPrice = None, oc_kyc = KYC_APPROVED, oc_orderId = None\<rparr>"
  have "case fst (validate (pg_runtime 9) exchange0 ?c) of Inl _ \<Rightarrow> False | Inr _ \<Rightarrow> True" by code_simp
  then obtain price fees where v: "validate (pg_runtime 9) exchange0 ?c =
      (Inr (price, fees), snd (validate (pg_runtime 9) exchange0 ?c))"
    by (cases "validate (pg_runtime 9) exchange0 ?c") (auto split: sum.splits)
  from validation_sound [OF v] v show ?thesis by auto
qed

text \<open>A repeated submission is read-only: when the user already has an order under the same idempotency
  key that has left the draft state, submitting again creates no order, no hold, no transaction
  and no audit record, and leaves every order as it is.\<close>

lemma resubmission_readonly:
  assumes "d_idempotencyKey d = Some k" and "k \<noteq> []"
    and "findOrderByIdempotencyKey s u k = Some x" and "o_status x \<noteq> DRAFT"
    and "submitOrder R cfg s u d kyc = (r, s')"
  shows "db_orders s' = db_orders s \<and> db_reservations s' = db_reservations s \<and>
     db_transactions s' = db_transactions s \<and> db_audits s' = db_audits s \<and> db_outbox s' = db_outbox s \<and>
     (\<forall>resp. r = Inr resp \<longrightarrow> rs_id resp = o_id x)"
proof -
  let ?s1 = "snd (ensureBroker s u)"
  have e: "db_orders ?s1 = db_orders s" "db_reservations ?s1 = db_reservations s"
    "db_transactions ?s1 = db_transactions s" "db_audits ?s1 = db_audits s" "db_outbox ?s1 = db_outbox s"
    by (simp_all add: ensureBroker_def split: option.split)
  have c: "createOrder R ?s1 u d = Inr (?s1, x)"
    using assms(1-3) by (simp add: createOrder_def truthy_def findOrderByIdempotencyKey_def e)
  have id: "rs_id resp = o_id x" if "replayExistingOrder R cfg ?s1 x sd = Inr resp" for resp sd
    using that by (auto simp: replayExistingOrder_def buildContractResponse_def Let_def
        dest: findOrderById_Some split: if_splits option.splits)
  show ?thesis
    by (cases rule: submitOrder_cases [where R = R and cfg = cfg and s = s and u = u and d = d and kyc = kyc])
      (use assms(4,5) c e id in auto)
qed

text \<open>C10. A submission ends in one of two ways.  Accepted: the new order is queued with the broker
  (\<open>SUBMITTED\<close>), the user's live verification status is approved, and a buyer's funds are on hold for
  it.  Refused: either no order was created, or the order rests in \<open>REJECTED\<close> with a reason; in
  both cases no hold was placed.\<close>

theorem submission_outcome:
  assumes "\<not> order_key_taken s u (d_idempotencyKey d)"
    and "\<forall>x \<in> set (db_orders s). o_id x \<noteq> db_uid s"
    and "submitOrder R cfg s u d kyc = (r, s')"
  shows "(case r of
       Inr resp \<Rightarrow> live_kyc s u kyc = KYC_APPROVED \<and>
         map_option o_status (findOrderById s' (db_uid s)) = Some SUBMITTED \<and>
         (d_side d = SELL \<or> findReservationByOrderId s' (db_uid s) \<noteq> None)
     | Inl e \<Rightarrow> db_reservations s' = db_reservations s \<and>
         (db_orders s' = db_orders s \<or>
          (\<exists>x m. findOrderById s' (db_uid s) = Some x \<and> o_status x = REJECTED \<and> o_rejectionReason x = Some m)))"
proof -
  let ?s1 = "snd (ensureBroker s u)"
  have e: "db_orders ?s1 = db_orders s" "db_reservations ?s1 = db_reservations s" "db_uid ?s1 = db_uid s"
    by (simp_all add: ensureBroker_def split: option.split)
  have new: "o_id x = db_uid s \<and> o_status x = DRAFT \<and> findOrderById s2 (o_id x) = Some x \<and>
      db_reservations s2 = db_reservations s" if "createOrder R ?s1 u d = Inr (s2, x)" for s2 x
  proof -
    have "findOrderByIdempotencyKey ?s1 u k = None" if "d_idempotencyKey d = Some k" for k
      using assms(1) that by (auto simp: findOrderByIdempotencyKey_def order_key_taken_def e find_None)
    moreover have nf: "List.find (\<lambda>x. o_id x = db_uid s) (db_orders s) = None"
      using assms(2) by (simp add: find_None)
    ultimately show ?thesis
      using that
      by (auto simp: createOrder_def repo_createOrder_def truthy_def Let_def new_order_def e findOrderById_def
          createTradeAudit_def find_append nf split: option.splits sum.splits if_splits)
  qed
  show ?thesis
  proof (cases rule: submitOrder_cases [where R = R and cfg = cfg and s = s and u = u and d = d and kyc = kyc])
    case (early er)
    with assms(3) e show ?thesis by auto
  next
    case (replay s2 x)
    with new [OF replay(1)] show ?thesis by simp
  next
    case (failed s2 x er s3)
    note n = new [OF failed(1)]
    from pipeline_draft(2) [OF failed(2) _ failed(3)] n obtain y where
      y: "findOrderById s3 (o_id x) = Some y" "o_status y \<in> {PENDING_VALIDATION, VALIDATED}"
        "db_reservations s3 = db_reservations s" by auto
    then have "findOrderById (snd (reject_failed s3 u (o_id x) er)) (o_id x) =
        Some (y\<lparr>o_status := REJECTED, o_rejectionReason := Some (userFacingRejectionReason er)\<rparr>)"
      "db_reservations (snd (reject_failed s3 u (o_id x) er)) = db_reservations s"
      by (auto simp: reject_failed_def Let_def findOrderById_update)
    with failed(4) assms(3) n show ?thesis by auto
  next
    case (queued s2 x price fees s3 resp)
    note n = new [OF queued(1)]
    from pipeline_draft(1) [OF queued(2) _ queued(3)] n
    have p: "fst (validate R (updateOrderStatus s2 (o_id x) PENDING_VALIDATION id)
          (check_of x d u (live_kyc s u kyc))) = Inr (price, fees)"
      "map_option o_status (findOrderById s3 (o_id x)) = Some SUBMITTED"
      "d_side d = BUY \<Longrightarrow> \<exists>r. findReservationByOrderId s3 (o_id x) = Some r" by blast+
    from p(1) have "checkKycStatus (live_kyc s u kyc) = Inr ()"
      unfolding validate_def by (auto simp: check_of_def split: sum.splits)
    then have "live_kyc s u kyc = KYC_APPROVED" by (simp add: checkKycStatus_def split: if_splits)
    with queued(4) assms(3) n p show ?thesis by (cases "d_side d") auto
  qed
qed

theorem submission_outcome_witness:
  "map_option o_status (findOrderById exchange1 103) = Some SUBMITTED \<and> live_kyc exchange0 1 KYC_PENDING = KYC_APPROVED \<and>
   findReservationByOrderId exchange1 103 \<noteq> None"
proof -
  have h: "\<not> order_key_taken exchange0 1 (d_idempotencyKey sample_dto)"
    "\<forall>x \<in> set (db_orders exchange0). o_id x \<noteq> db_uid exchange0" by code_simp+
  have u: "db_uid exchange0 = 103" "d_side sample_dto \<noteq> SELL" by code_simp+
  let ?o = "submitOrder (pg_runtime 10) sample_cfg exchange0 1 sample_dto KYC_PENDING"
  have "case fst ?o of Inl _ \<Rightarrow> False | Inr _ \<Rightarrow> True" by code_simp
  then obtain resp where o: "?o = (Inr resp, exchange1)"
    by (cases ?o) (auto simp: exchange1_def split: sum.splits)
  from submission_outcome [OF h o] u show ?thesis by simp
qed

text \<open>C13. Cancelling gives the money back: a cancellation succeeds only for the owner of an order in a
  cancellable state from which the life cycle allows it, leaves every other order untouched, and
  once its event is handled the order's hold is released and the wallet's holds have fallen by
  exactly the held amount.\<close>

theorem cancel_releases_hold:
  assumes "cancelOrder R s u oid = (Inr (), s')"
    and "distinct (map r_id (db_reservations s))" and "findReservationByOrderId s oid = Some r"
  shows "(\<exists>x. findOrderById s oid = Some x \<and> o_userId x = u \<and> o_status x \<in> set CANCELLABLE_STATES \<and>
       canTransition (o_status x) CANCELLED) \<and>
     map_option o_status (findOrderById s' oid) = Some CANCELLED \<and>
     (\<forall>j. j = oid \<or> findOrderById s' j = findOrderById s j) \<and>
     OrderCancelledEvent oid u ''User requested cancellation'' \<in> set (db_outbox s') \<and>
     sumActiveReservations (onOrderCancelled R s' oid) (r_walletId r) =
       sumActiveReservations s (r_walletId r) - r_amount r"
proof -
  from assms(1) obtain x where x: "findOrderById s oid = Some x" "o_userId x = u"
      "o_status x \<in> set CANCELLABLE_STATES" "assert_step (o_status x) CANCELLED = Inr ()"
    and s': "s' = emit (OrderCancelledEvent oid u ''User requested cancellation'')
       (createTradeAudit (updateOrderStatus s oid CANCELLED (\<lambda>x. x\<lparr>o_cancelledAt := Some (now R)\<rparr>))
          oid u ''ORDER_CANCELLED'' (Some (o_status x)) (Some CANCELLED))"
    by (auto simp: cancelOrder_def order_cancelOrder_def split: sum.splits option.splits if_splits)
  have res: "db_reservations s' = db_reservations s" by (simp add: s')
  have r: "r \<in> set (db_reservations s)" "r_status r = ACTIVE"
    using assms(3) by (auto simp: findReservationByOrderId_def find_Some_iff)
  have "findReservationByOrderId s' oid = Some r" using assms(3) findReservation_cong [OF res] by simp
  then have "sumActiveReservations (onOrderCancelled R s' oid) (r_walletId r) =
      sumActiveReservations s (r_walletId r) - r_amount r"
    using r by (simp add: onOrderCancelled_def releaseReservation_def repo_releaseReservation_def res
        sumActiveReservations_def upd_unique_sum [OF assms(2) r(1)] active_of_def)
  moreover have "canTransition (o_status x) CANCELLED"
    using x(4) by (auto simp: assert_step_def assertTransition_def split: if_splits)
  moreover have "j = oid \<or> findOrderById s' j = findOrderById s j" for j
    by (cases "j = oid") (simp_all add: s' findOrderById_update option.map_ident)
  moreover have "map_option o_status (findOrderById s' oid) = Some CANCELLED"
    "OrderCancelledEvent oid u ''User requested cancellation'' \<in> set (db_outbox s')"
    using x by (simp_all add: s' findOrderById_update)
  ultimately show ?thesis using x by blast
qed

theorem cancel_releases_hold_witness:
  "sumActiveReservations (onOrderCancelled (pg_runtime 11) (snd (cancelOrder (pg_runtime 11) exchange1 1 103)) 103) 2 =
     sumActiveReservations exchange1 2 - 3001 / 5"
proof -
  have c: "fst (cancelOrder (pg_runtime 11) exchange1 1 103) = Inr ()" by code_simp
  have d: "distinct (map r_id (db_reservations exchange1))" by code_simp
  have f: "map_option (\<lambda>r. (r_walletId r, r_amount r)) (findReservationByOrderId exchange1 103) = Some (2, 3001 / 5)"
    by code_simp
  then obtain r where r: "findReservationByOrderId exchange1 103 = Some r" "r_walletId r = 2" "r_amount r = 3001 / 5"
    by auto
  from c have "cancelOrder (pg_runtime 11) exchange1 1 103 = (Inr (), snd (cancelOrder (pg_runtime 11) exchange1 1 103))"
    by (metis prod.collapse)
  from cancel_releases_hold [OF this d r(1)] show ?thesis by (simp add: r)
qed

end
