(* ===== verification/Settlement.thy ===== *)
theory Settlement
  imports Wallet TradingRepo
begin

text \<open>
  \<^verbatim>\<open>src/modules/trading/services/settlement.service.ts\<close>: the single database transaction that moves
  cash, ledger, holdings and order status for an executed trade, its retry loop and the event
  handler around them.
\<close>

section \<open>The settlement transaction\<close>

definition settle_key :: "uuid \<Rightarrow> string" where
  "settle_key tradeId = ''settle-'' @ uuid_str tradeId"

text \<open>The hold of a BUY: consumed when the order is fully filled, reduced by the cost otherwise.\<close>

definition fully_filled :: "db \<Rightarrow> uuid \<Rightarrow> bool" where
  "fully_filled s oid =
     (case findOrderById s oid of None \<Rightarrow> True | Some x \<Rightarrow> o_filledQuantity x \<ge> o_quantity x)"

definition settle_reservation :: "runtime \<Rightarrow> db \<Rightarrow> uuid \<Rightarrow> rat \<Rightarrow> db" where
  "settle_reservation R s oid cost =
     (if fully_filled s oid then
        s\<lparr>db_reservations := upd_where (\<lambda>r. r_orderId r = Some oid \<and> r_status r = ACTIVE)
            (\<lambda>r. r\<lparr>r_status := CONSUMED, r_consumedAt := Some (now R)\<rparr>) (db_reservations s)\<rparr>
      else
        (case findReservationByOrderId s oid of
           None \<Rightarrow> s
         | Some r \<Rightarrow>
             (let remaining = dsub R (r_amount r) cost
              in if remaining \<le> 0 then repo_consumeReservation R s (r_id r)
                 else s\<lparr>db_reservations := upd_where (\<lambda>x. r_id x = r_id r)
                       (\<lambda>x. x\<lparr>r_amount := num4 R remaining\<rparr>) (db_reservations s)\<rparr>)))"

definition settle_legs :: "side \<Rightarrow> uuid \<Rightarrow> rat \<Rightarrow> rat \<Rightarrow> rat \<Rightarrow> rat \<Rightarrow> leg list" where
  "settle_legs sd wid delta gross fees after =
     (if sd = BUY then
        [(Some wid, USER_WALLET, DEBIT, delta, after), (None, EXCHANGE_SETTLEMENT, CREDIT, gross, 0),
         (None, PLATFORM_FEE_REVENUE, CREDIT, fees, 0)]
      else
        [(Some wid, USER_WALLET, CREDIT, delta, after), (None, EXCHANGE_SETTLEMENT, DEBIT, gross, 0),
         (None, PLATFORM_FEE_REVENUE, CREDIT, fees, 0)])"

definition order_broker :: "db \<Rightarrow> uuid \<Rightarrow> uuid option" where
  "order_broker s oid = (case findOrderById s oid of None \<Rightarrow> None | Some x \<Rightarrow> o_brokerId x)"

text \<open>\<open>brokerId: x ?? undefined\<close> leaves the column as it is when there is no broker; a quotient by zero
  is not finite and the database refuses it.\<close>

definition settle_holding :: "runtime \<Rightarrow> db \<Rightarrow> OrderExecutedEvent \<Rightarrow> err + db" where
  "settle_holding R s ev =
     (let u = ev_userId ev; sid = ev_stockId ev; qty = ev_quantity ev;
          holding = findUserHolding s u sid;
          broker = order_broker s (ev_orderId ev);
          keep = (\<lambda>h. case broker of Some b \<Rightarrow> h\<lparr>h_brokerId := Some b\<rparr> | None \<Rightarrow> h);
          prevQty = (case holding of None \<Rightarrow> 0 | Some h \<Rightarrow> h_quantity h);
          prevAvg = (case holding of None \<Rightarrow> 0 | Some h \<Rightarrow> h_averageCost h)
      in if ev_side ev = BUY then
           (let newQty = dadd R prevQty qty;
                newAvg = ddiv R (dadd R (dmul R prevQty prevAvg) (ev_totalCost ev)) newQty
            in if newQty = 0 then Inl (PlainError (Msg ''averageCost is not finite''))
               else Inr (s\<lparr>db_holdings :=
                 (case holding of
                    None \<Rightarrow> db_holdings s @
                      [\<lparr>h_userId = u, h_stockId = sid, h_brokerId = broker,
                        h_quantity = num4 R newQty, h_averageCost = num4 R newAvg\<rparr>]
                  | Some _ \<Rightarrow> upd_where (holding_at u sid)
                      (\<lambda>h. keep (h\<lparr>h_quantity := num4 R newQty, h_averageCost := num4 R newAvg\<rparr>))
                      (db_holdings s))\<rparr>))
         else if holding = None \<or> prevQty < qty
         then Inl (PlainError (Msg ''Sell settlement aborted''))
         else
           (let newQty = dsub R prevQty qty
            in Inr (s\<lparr>db_holdings := upd_where (holding_at u sid)
                 (\<lambda>h. keep (h\<lparr>h_quantity := num4 R newQty\<rparr>)) (db_holdings s)\<rparr>)))"

text \<open>The record is created settled; a second one for the trade violates the unique index.\<close>

definition settle_record :: "runtime \<Rightarrow> db \<Rightarrow> uuid \<Rightarrow> err + db \<times> uuid" where
  "settle_record R s tradeId =
     (if \<exists>x \<in> set (db_settlements s). sr_tradeId x = tradeId then Inl (PrismaError ''P2002'')
      else Inr (s\<lparr>db_uid := Suc (db_uid s), db_settlements := db_settlements s @
        [\<lparr>sr_id = db_uid s, sr_tradeId = tradeId, sr_status = ''SETTLED'', sr_settlementDate = now R,
          sr_settledAt = Some (now R)\<rparr>]\<rparr>, db_uid s))"

definition settle_order :: "runtime \<Rightarrow> db \<Rightarrow> OrderExecutedEvent \<Rightarrow> db" where
  "settle_order R s ev =
     (let s1 = (case findOrderById s (ev_orderId ev) of
                  None \<Rightarrow> s
                | Some x \<Rightarrow> if o_status x = FILLED
                    then updateOrderStatus s (ev_orderId ev) SETTLED (\<lambda>x. x\<lparr>o_settledAt := Some (now R)\<rparr>)
                    else s)
      in createTradeAudit s1 (ev_orderId ev) (ev_userId ev) ''TRADE_SETTLED'' (Some FILLED) (Some SETTLED))"

definition settleAtomically :: "runtime \<Rightarrow> db \<Rightarrow> OrderExecutedEvent \<Rightarrow> err + db \<times> uuid option" where
  "settleAtomically R s ev =
     (let gross = dmul R (ev_price ev) (ev_quantity ev); fees = ev_totalFees ev; cost = ev_totalCost ev
      in case findWalletByUserId s (ev_userId ev) of
           None \<Rightarrow> Inl (PlainError (Msg ''Wallet not found''))
         | Some w \<Rightarrow>
             if findTransactionByIdempotencyKey s (w_id w) (settle_key (ev_tradeId ev)) \<noteq> None
             then Inr (s, None)
             else
               let s1 = (if ev_side ev = BUY then settle_reservation R s (ev_orderId ev) cost else s);
                   delta = (if ev_side ev = BUY then cost else dsub R gross fees);
                   newBalance = (if ev_side ev = BUY then dsub R (w_balance w) delta
                                 else dadd R (w_balance w) delta)
               in if ev_side ev = BUY \<and> newBalance < 0
                  then Inl (PlainError (Msg ''Insufficient funds settling order''))
                  else
                    case walletIncrement R s1 (w_id w) (w_version w)
                           (if ev_side ev = BUY then - delta else delta) of
                      Inl e \<Rightarrow> Inl e
                    | Inr s2 \<Rightarrow>
                        (case createTransactionWithLedger R s2 (w_id w)
                                (if ev_side ev = BUY then TRADE_BUY else TRADE_SELL) delta (ev_orderId ev)
                                (Some (settle_key (ev_tradeId ev)))
                                (settle_legs (ev_side ev) (w_id w) delta gross fees newBalance) of
                           Inl e \<Rightarrow> Inl e
                         | Inr (s3, _) \<Rightarrow>
                             (case settle_holding R s3 ev of
                                Inl e \<Rightarrow> Inl e
                              | Inr s4 \<Rightarrow>
                                  (case settle_record R s4 (ev_tradeId ev) of
                                     Inl e \<Rightarrow> Inl e
                                   | Inr (s5, sid) \<Rightarrow> Inr (settle_order R s5 ev, Some sid)))))"

section \<open>Retry and handler\<close>

definition RETRYABLE :: "string set" where
  "RETRYABLE = {''P2034'', ''P2025''}"

definition retryable :: "err \<Rightarrow> bool" where
  "retryable e = (case e of PrismaError code \<Rightarrow> code \<in> RETRYABLE | _ \<Rightarrow> False)"

text \<open>
  \<open>fn k\<close> is the outcome of the \<open>k\<close>-th call: other requests may commit between two attempts.  The
  result carries the number of the last attempt.
\<close>

function runWithRetry :: "(nat \<Rightarrow> err + 'a) \<Rightarrow> nat \<Rightarrow> (err + 'a) \<times> nat" where
  "runWithRetry fn attempt =
     (case fn attempt of
        Inr x \<Rightarrow> (Inr x, attempt)
      | Inl e \<Rightarrow> if attempt < 4 \<and> retryable e then runWithRetry fn (Suc attempt) else (Inl e, attempt))"
  by pat_completeness auto
termination by (relation "measure (\<lambda>(fn, attempt). 4 - attempt)") auto

declare runWithRetry.simps [simp del]

text \<open>\<open>dbs k\<close> is the database as the \<open>k\<close>-th attempt finds it.\<close>

definition handleOrderExecuted :: "runtime \<Rightarrow> (nat \<Rightarrow> db) \<Rightarrow> OrderExecutedEvent \<Rightarrow> (err + unit) \<times> db" where
  "handleOrderExecuted R dbs ev =
     (case runWithRetry (\<lambda>k. settleAtomically R (dbs k) ev) 1 of
        (Inl e, k) \<Rightarrow> (Inl e, dbs k)
      | (Inr (s, None), k) \<Rightarrow> (Inr (), s)
      | (Inr (s, Some sid), k) \<Rightarrow>
          (Inr (), emit (TradeSettledEvent (ev_tradeId ev) (ev_orderId ev) (ev_userId ev) (ev_stockId ev)
             (ev_stockSymbol ev) (ev_side ev) (ev_quantity ev) (ev_price ev) sid) s))"

section \<open>The settlement posting balances\<close>

text \<open>\<open>(R, side, wallet, gross, fees, balanceAfter)\<close>: the cash leg is gross plus fees for a buyer, gross
  minus fees for a seller.\<close>

type_synonym settle_move = "runtime \<times> side \<times> uuid \<times> rat \<times> rat \<times> rat"

definition settle_delta :: "side \<Rightarrow> rat \<Rightarrow> rat \<Rightarrow> rat" where
  "settle_delta sd gross fees = (if sd = BUY then gross + fees else gross - fees)"

definition settle_change :: "runtime \<Rightarrow> side \<Rightarrow> rat \<Rightarrow> rat \<Rightarrow> rat" where
  "settle_change R sd gross fees = (if sd = BUY then - (gross + num4 R fees) else gross - num4 R fees)"

definition settle_valid :: "settle_move \<Rightarrow> bool" where
  "settle_valid = (\<lambda>(R, sd, wid, gross, fees, after). numeric_runtime R \<and> places 4 gross \<and> 0 \<le> gross \<and>
     0 \<le> fees \<and> (sd = SELL \<longrightarrow> fees \<le> gross) \<and> \<not> tie4 fees)"

lemma settle_num4:
  assumes "settle_valid (R, sd, wid, gross, fees, after)"
  shows "num4 R gross = gross"
    and "num4 R (settle_delta sd gross fees) = (if sd = BUY then gross + num4 R fees else gross - num4 R fees)"
proof -
  have N: "numeric_runtime R" and g: "places 4 gross" "0 \<le> gross" "0 \<le> fees" "\<not> tie4 fees"
    and le: "sd = SELL \<Longrightarrow> fees \<le> gross"
    using assms by (auto simp: settle_valid_def)
  show "num4 R gross = gross" by (rule numeric_runtime.num4_exact [OF N g(1)])
  show "num4 R (settle_delta sd gross fees) = (if sd = BUY then gross + num4 R fees else gross - num4 R fees)"
  proof (cases sd)
    case BUY
    then show ?thesis by (simp add: settle_delta_def numeric_runtime.num4_shift [OF N g(1-3)])
  next
    case SELL
    then show ?thesis by (simp add: settle_delta_def numeric_runtime.num4_diff [OF N g(1,3) le g(4)])
  qed
qed

interpretation settle_move: money_movement
  "\<lambda>(R, sd, wid, gross, fees, after). R" "\<lambda>(R, sd, wid, gross, fees, after). wid"
  "\<lambda>(R, sd, wid, gross, fees, after). settle_legs sd wid (settle_delta sd gross fees) gross fees after"
  "\<lambda>(R, sd, wid, gross, fees, after). settle_change R sd gross fees" settle_valid
proof (rule money_movement.intro)
  fix x :: settle_move
  obtain R sd wid gross fees after where x: "x = (R, sd, wid, gross, fees, after)" by (cases x)
  assume v: "settle_valid x"
  note n = settle_num4 [OF v [unfolded x]]
  note legs = settle_legs_def leg_total_def leg_wallet_def tx_total_Cons wallet_ledger_Cons
  show "numeric_runtime (case x of (R, sd, wid, gross, fees, after) \<Rightarrow> R)"
    using v by (simp add: x settle_valid_def)
  show "leg_total (case x of (R, sd, wid, gross, fees, after) \<Rightarrow> R) DEBIT
        (case x of (R, sd, wid, gross, fees, after) \<Rightarrow> settle_legs sd wid (settle_delta sd gross fees) gross fees after) =
      leg_total (case x of (R, sd, wid, gross, fees, after) \<Rightarrow> R) CREDIT
        (case x of (R, sd, wid, gross, fees, after) \<Rightarrow> settle_legs sd wid (settle_delta sd gross fees) gross fees after)"
    using n by (cases sd) (simp_all add: x legs)
  show "leg_wallet (case x of (R, sd, wid, gross, fees, after) \<Rightarrow> R)
      (case x of (R, sd, wid, gross, fees, after) \<Rightarrow> wid)
      (case x of (R, sd, wid, gross, fees, after) \<Rightarrow> settle_legs sd wid (settle_delta sd gross fees) gross fees after) =
      (case x of (R, sd, wid, gross, fees, after) \<Rightarrow> settle_change R sd gross fees)"
    using n by (cases sd) (simp_all add: x legs settle_change_def)
  show "fst ` set (case x of (R, sd, wid, gross, fees, after) \<Rightarrow>
        settle_legs sd wid (settle_delta sd gross fees) gross fees after)
      \<subseteq> {None, Some (case x of (R, sd, wid, gross, fees, after) \<Rightarrow> wid)}"
    by (auto simp: x settle_legs_def)
qed

section \<open>What a settlement does\<close>

definition ev_gross :: "OrderExecutedEvent \<Rightarrow> rat" where
  "ev_gross ev = ev_price ev * ev_quantity ev"

text \<open>
  The regular events: figures in the range of the validation service, fees of at most eight places,
  the cost of a purchase is gross plus fees; a sale's fees stay within its proceeds; and the fee
  total is not half-way between two amounts the ledger can hold.  The last two are conditions of
  their own: the code does not check them, execution can emit an event that breaks either, and
  \<open>sale_overdraws\<close> and \<open>tie_trade_discrepancy\<close> below show what settlement then does.
\<close>

definition event_ok :: "OrderExecutedEvent \<Rightarrow> bool" where
  "event_ok ev \<longleftrightarrow>
     trade_in_range (ev_price ev) (ev_quantity ev) \<and> 0 < ev_quantity ev \<and> ev_quantity ev \<le> 10 ^ 12 \<and>
     places 8 (ev_totalFees ev) \<and> 0 \<le> ev_totalFees ev \<and> ev_totalFees ev \<le> 10 ^ 9 \<and>
     (ev_side ev = BUY \<longrightarrow> ev_totalCost ev = ev_gross ev + ev_totalFees ev) \<and>
     (ev_side ev = SELL \<longrightarrow> ev_totalFees ev \<le> ev_gross ev) \<and> \<not> tie4 (ev_totalFees ev)"

definition ev_delta :: "runtime \<Rightarrow> OrderExecutedEvent \<Rightarrow> rat" where
  "ev_delta R ev = (if ev_side ev = BUY then ev_totalCost ev
     else dsub R (dmul R (ev_price ev) (ev_quantity ev)) (ev_totalFees ev))"

definition ev_after :: "runtime \<Rightarrow> wallet \<Rightarrow> OrderExecutedEvent \<Rightarrow> rat" where
  "ev_after R w ev = (if ev_side ev = BUY then dsub R (w_balance w) (ev_delta R ev)
     else dadd R (w_balance w) (ev_delta R ev))"

lemma event_figures:
  assumes "numeric_runtime R" and "event_ok ev"
  shows "dmul R (ev_price ev) (ev_quantity ev) = ev_gross ev" and "places 4 (ev_gross ev)"
    and "0 \<le> ev_gross ev"
    and "ev_delta R ev = settle_delta (ev_side ev) (ev_gross ev) (ev_totalFees ev)"
    and "settle_valid (R, ev_side ev, i, ev_gross ev, ev_totalFees ev, b)"
proof -
  have r: "trade_in_range (ev_price ev) (ev_quantity ev)" using assms(2) by (simp add: event_ok_def)
  note g = numeric_runtime.gross_exact [OF assms(1) r]
  show d: "dmul R (ev_price ev) (ev_quantity ev) = ev_gross ev" and p: "places 4 (ev_gross ev)"
    and n: "0 \<le> ev_gross ev"
    using g by (simp_all add: ev_gross_def)
  show "settle_valid (R, ev_side ev, i, ev_gross ev, ev_totalFees ev, b)"
    using assms p n by (simp add: settle_valid_def event_ok_def)
  have "dsub R (ev_gross ev) (ev_totalFees ev) = ev_gross ev - ev_totalFees ev" if "ev_side ev = SELL"
    unfolding dsub_def using that assms(2) g(4) n places_mono [OF p, of 8]
    by (intro numeric_runtime.rnd_fee_sum [OF assms(1)]) (auto simp: event_ok_def ev_gross_def places_diff)
  then show "ev_delta R ev = settle_delta (ev_side ev) (ev_gross ev) (ev_totalFees ev)"
    using assms(2) d by (cases "ev_side ev") (auto simp: ev_delta_def settle_delta_def event_ok_def)
qed

text \<open>The state after a settlement, table by table.\<close>

lemma settle_reservation_tables:
  "db_wallets (settle_reservation R s oid c) = db_wallets s"
  "db_transactions (settle_reservation R s oid c) = db_transactions s"
  "db_ledger (settle_reservation R s oid c) = db_ledger s"
  "db_uid (settle_reservation R s oid c) = db_uid s"
  "db_holdings (settle_reservation R s oid c) = db_holdings s"
  "db_orders (settle_reservation R s oid c) = db_orders s"
  "db_settlements (settle_reservation R s oid c) = db_settlements s"
  by (simp_all add: settle_reservation_def Let_def repo_consumeReservation_def split: option.split)

lemma settle_holding_Inr:
  "settle_holding R s ev = Inr s' \<Longrightarrow> \<exists>hs. s' = s\<lparr>db_holdings := hs\<rparr>"
  by (auto simp: settle_holding_def Let_def split: if_splits)

lemma settle_record_Inr:
  "settle_record R s tid = Inr (s', i) \<Longrightarrow>
     \<exists>xs. s' = s\<lparr>db_uid := Suc (db_uid s), db_settlements := xs\<rparr>"
  by (auto simp: settle_record_def split: if_splits)

lemma settle_order_tables:
  "db_wallets (settle_order R s ev) = db_wallets s"
  "db_transactions (settle_order R s ev) = db_transactions s"
  "db_ledger (settle_order R s ev) = db_ledger s" "db_uid (settle_order R s ev) = db_uid s"
  "db_holdings (settle_order R s ev) = db_holdings s"
  "db_settlements (settle_order R s ev) = db_settlements s"
  by (simp_all add: settle_order_def Let_def createTradeAudit_def updateOrderStatus_def split: option.split)

lemma settle_holding_cong:
  assumes "db_holdings s2 = db_holdings s1" and "db_orders s2 = db_orders s1"
  shows "map_sum id db_holdings (settle_holding R s2 ev) = map_sum id db_holdings (settle_holding R s1 ev)"
  unfolding settle_holding_def findUserHolding_def order_broker_def findOrderById_def Let_def assms
  by (auto simp: if_distrib)

lemma settleAtomically_Some:
  assumes "settleAtomically R s ev = Inr (s', Some sid)"
  obtains w t where "findWalletByUserId s (ev_userId ev) = Some w"
    "findTransactionByIdempotencyKey s (w_id w) (settle_key (ev_tradeId ev)) = None"
    "ev_side ev = BUY \<Longrightarrow> \<not> ev_after R w ev < 0"
    "db_wallets s' = upd_where (\<lambda>v. w_id v = w_id w)
       (bump R (if ev_side ev = BUY then - ev_delta R ev else ev_delta R ev)) (db_wallets s)"
    "db_transactions s' = db_transactions s @ [t]" "t_id t = db_uid s" "t_walletId t = w_id w"
    "t_status t = TX_COMPLETED" "t_idempotencyKey t = Some (settle_key (ev_tradeId ev))"
    "db_ledger s' = db_ledger s @ leg_entries R (db_uid s) (Suc (db_uid s))
       (settle_legs (ev_side ev) (w_id w) (ev_delta R ev) (dmul R (ev_price ev) (ev_quantity ev))
          (ev_totalFees ev) (ev_after R w ev))"
    "db_uid s < db_uid s'" "map_sum id db_holdings (settle_holding R s ev) = Inr (db_holdings s')"
proof -
  let ?s1 = "if ev_side ev = BUY then settle_reservation R s (ev_orderId ev) (ev_totalCost ev) else s"
  let ?d = "if ev_side ev = BUY then - ev_delta R ev else ev_delta R ev"
  from assms obtain w s2 s3 tid s4 s5 where *: "findWalletByUserId s (ev_userId ev) = Some w"
    "findTransactionByIdempotencyKey s (w_id w) (settle_key (ev_tradeId ev)) = None"
    "\<not> (ev_side ev = BUY \<and> ev_after R w ev < 0)"
    and inc: "walletIncrement R ?s1 (w_id w) (w_version w) ?d = Inr s2"
    and led: "createTransactionWithLedger R s2 (w_id w) (if ev_side ev = BUY then TRADE_BUY else TRADE_SELL)
        (ev_delta R ev) (ev_orderId ev) (Some (settle_key (ev_tradeId ev)))
        (settle_legs (ev_side ev) (w_id w) (ev_delta R ev) (dmul R (ev_price ev) (ev_quantity ev))
          (ev_totalFees ev) (ev_after R w ev)) = Inr (s3, tid)"
    and hold: "settle_holding R s3 ev = Inr s4" and rec: "settle_record R s4 (ev_tradeId ev) = Inr (s5, sid)"
    and s': "s' = settle_order R s5 ev"
    unfolding settleAtomically_def Let_def ev_delta_def [symmetric] ev_after_def [symmetric]
    by (auto simp: ev_delta_def ev_after_def split: option.splits sum.splits if_splits)
  have s1: "db_wallets ?s1 = db_wallets s" "db_transactions ?s1 = db_transactions s" "db_ledger ?s1 = db_ledger s"
    "db_uid ?s1 = db_uid s" "db_holdings ?s1 = db_holdings s" "db_orders ?s1 = db_orders s"
    by (simp_all add: settle_reservation_tables)
  have s2: "s2 = ?s1\<lparr>db_wallets := upd_where (\<lambda>v. w_id v = w_id w) (bump R ?d) (db_wallets s)\<rparr>"
    using walletIncrement_Inr [OF inc] s1(1) by (simp add: bump_def [abs_def])
  from led obtain t where t: "t_id t = db_uid s" "t_walletId t = w_id w" "t_status t = TX_COMPLETED"
      "t_idempotencyKey t = Some (settle_key (ev_tradeId ev))"
    and s3: "db_transactions s3 = db_transactions s @ [t]" "db_wallets s3 = db_wallets s2"
      "db_ledger s3 = db_ledger s @ leg_entries R (db_uid s) (Suc (db_uid s))
         (settle_legs (ev_side ev) (w_id w) (ev_delta R ev) (dmul R (ev_price ev) (ev_quantity ev))
            (ev_totalFees ev) (ev_after R w ev))"
      "db_uid s < db_uid s3" "db_holdings s3 = db_holdings s" "db_orders s3 = db_orders s"
    using createTransactionWithLedger_Inr [OF led] unfolding s2 by (auto simp: s1 simp del: if_split)
  obtain hs xs where s45: "s4 = s3\<lparr>db_holdings := hs\<rparr>" "s5 = s4\<lparr>db_uid := Suc (db_uid s4), db_settlements := xs\<rparr>"
    using settle_holding_Inr [OF hold] settle_record_Inr [OF rec] by blast
  have "map_sum id db_holdings (settle_holding R s ev) = Inr (db_holdings s')"
    using settle_holding_cong [OF s3(5,6), of R ev] hold s45 by (simp add: s' settle_order_tables)
  then show ?thesis
    using * t s3 s45 by (intro that [of w t]) (simp_all add: s' settle_order_tables s2 s1)
qed

lemma settle_bump:
  assumes "numeric_runtime R" and "event_ok ev" and "places 4 b" and "0 \<le> b"
    and "ev_side ev = BUY \<Longrightarrow> ev_delta R ev \<le> b"
  shows "num4 R (b + (if ev_side ev = BUY then - ev_delta R ev else ev_delta R ev)) =
     b + settle_change R (ev_side ev) (ev_gross ev) (ev_totalFees ev)"
proof -
  note f = event_figures [OF assms(1,2)]
  have n: "num4 R (ev_delta R ev) = (if ev_side ev = BUY then ev_gross ev + num4 R (ev_totalFees ev)
      else ev_gross ev - num4 R (ev_totalFees ev))"
    unfolding f(4) by (rule settle_num4(2) [OF f(5)])
  have d0: "0 \<le> ev_delta R ev"
    using assms(2) f(3) unfolding f(4) by (cases "ev_side ev") (auto simp: settle_delta_def event_ok_def)
  show ?thesis
  proof (cases "ev_side ev")
    case BUY
    then have "\<not> tie4 (ev_delta R ev)"
      using assms(2) tie4_shift [OF f(2), of "ev_totalFees ev"]
      unfolding f(4) by (simp add: settle_delta_def event_ok_def)
    then show ?thesis
      using BUY n assms(5) numeric_runtime.num4_diff [OF assms(1,3) d0, simplified]
      by (simp add: settle_change_def)
  next
    case SELL
    then show ?thesis
      using n numeric_runtime.num4_shift [OF assms(1,3,4) d0] by (simp add: settle_change_def)
  qed
qed

lemma settle_posts:
  assumes "numeric_runtime R" and "books_ok s" and "solvent s" and "event_ok ev"
    and "settleAtomically R s ev = Inr (s', Some sid)"
  shows "\<exists>w. findWalletByUserId s (ev_userId ev) = Some w \<and>
     db_wallets s' = upd_where (\<lambda>v. w_id v = w_id w)
       (bump R (if ev_side ev = BUY then - ev_delta R ev else ev_delta R ev)) (db_wallets s) \<and>
     w_balance w + settle_change R (ev_side ev) (ev_gross ev) (ev_totalFees ev) =
       num4 R (w_balance w + (if ev_side ev = BUY then - ev_delta R ev else ev_delta R ev)) \<and>
     0 \<le> w_balance w + settle_change R (ev_side ev) (ev_gross ev) (ev_totalFees ev) \<and>
     books_ok s' \<and> findTransactionByIdempotencyKey s' (w_id w) (settle_key (ev_tradeId ev)) \<noteq> None"
  using assms(5)
proof (rule settleAtomically_Some)
  fix w t
  let ?d = "if ev_side ev = BUY then - ev_delta R ev else ev_delta R ev"
  let ?x = "(R, ev_side ev, w_id w, ev_gross ev, ev_totalFees ev, ev_after R w ev)"
  assume w: "findWalletByUserId s (ev_userId ev) = Some w"
    and guard: "ev_side ev = BUY \<Longrightarrow> \<not> ev_after R w ev < 0"
    and wal: "db_wallets s' = upd_where (\<lambda>v. w_id v = w_id w) (bump R ?d) (db_wallets s)"
    and tx: "db_transactions s' = db_transactions s @ [t]" "t_id t = db_uid s" "t_walletId t = w_id w"
      "t_status t = TX_COMPLETED" "t_idempotencyKey t = Some (settle_key (ev_tradeId ev))"
    and led: "db_ledger s' = db_ledger s @ leg_entries R (db_uid s) (Suc (db_uid s))
       (settle_legs (ev_side ev) (w_id w) (ev_delta R ev) (dmul R (ev_price ev) (ev_quantity ev))
          (ev_totalFees ev) (ev_after R w ev))"
    and uid: "db_uid s < db_uid s'"
  note f = event_figures [OF assms(1,4)]
  have win: "w \<in> set (db_wallets s)" using findWalletByUserId_Some [OF w] by simp
  have pb: "places 4 (w_balance w)" "0 \<le> w_balance w"
    using win assms(2,3) unfolding books_ok_def wallets_ok_def solvent_def by blast+
  have le: "ev_delta R ev \<le> w_balance w" if "ev_side ev = BUY"
    using guard [OF that] that numeric_runtime.rnd_sign [OF assms(1)] by (simp add: ev_after_def dsub_def not_less)
  note bal = settle_bump [OF assms(1,4) pb le]
  have nonneg: "0 \<le> w_balance w + ?d"
    using le pb(2) f(3) assms(4) unfolding f(4)
    by (cases "ev_side ev") (auto simp: settle_delta_def event_ok_def)
  have ids: "w_id ` set (db_wallets s') = w_id ` set (db_wallets s)"
    using map_upd_where [of "\<lambda>v. w_id v = w_id w" w_id "bump R ?d" "db_wallets s"] unfolding wal
    by (metis bump_simps(1) set_map)
  note c = create_transactions_ok [OF assms(2) tx(1) tx(2) order_refl uid tx(4) _ ids]
  have "books_ok s'"
  proof (rule settle_move.post_keeps_books [of s ?x w s' "bump R ?d" "db_uid s" "Suc (db_uid s)"])
    show "settle_valid ?x" by (rule f(5))
    show "db_ledger s' = db_ledger s @ leg_entries (case ?x of (R, sd, wid, gross, fees, after) \<Rightarrow> R)
        (db_uid s) (Suc (db_uid s)) (case ?x of (R, sd, wid, gross, fees, after) \<Rightarrow>
          settle_legs sd wid (settle_delta sd gross fees) gross fees after)"
      using led by (simp add: f(1,4))
  qed (use assms(2) win wal bal uid c tx(3) in auto)
  moreover have "findTransactionByIdempotencyKey s' (w_id w) (settle_key (ev_tradeId ev)) \<noteq> None"
    using tx by (simp add: findTransactionByIdempotencyKey_def find_append split: option.split)
  moreover have "0 \<le> num4 R (w_balance w + ?d)" by (rule numeric_runtime.num4_nonneg [OF assms(1) nonneg])
  ultimately show ?thesis using w wal bal by (intro exI [of _ w]) simp
qed

lemma findWalletByUserId_upd:
  assumes "\<And>v. w_userId (f v) = w_userId v"
  shows "List.find (\<lambda>v. w_userId v = u) (upd_where P f ws) =
     map_option (\<lambda>v. if P v then f v else v) (List.find (\<lambda>v. w_userId v = u) ws)"
  by (induction ws) (auto simp: upd_where_def assms)

section \<open>Holdings\<close>

lemma find_holding_upd:
  assumes "\<And>h. h_userId (f h) = h_userId h" "\<And>h. h_stockId (f h) = h_stockId h"
  shows "List.find (holding_at u' i') (upd_where (holding_at u i) f hs) =
     map_option (\<lambda>h. if u' = u \<and> i' = i then f h else h) (List.find (holding_at u' i') hs)"
  by (induction hs) (auto simp: upd_where_def holding_at_def assms)

definition keep_broker :: "uuid option \<Rightarrow> holding \<Rightarrow> holding" where
  "keep_broker b h = (case b of Some x \<Rightarrow> h\<lparr>h_brokerId := Some x\<rparr> | None \<Rightarrow> h)"

lemma keep_broker_simps [simp]:
  "h_userId (keep_broker b h) = h_userId h" "h_stockId (keep_broker b h) = h_stockId h"
  "h_quantity (keep_broker b h) = h_quantity h" "h_averageCost (keep_broker b h) = h_averageCost h"
  by (simp_all add: keep_broker_def split: option.split)

text \<open>The position after a settlement, as the exact code computes it.\<close>

definition settled_quantity :: "runtime \<Rightarrow> side \<Rightarrow> rat \<Rightarrow> rat \<Rightarrow> rat" where
  "settled_quantity R sd prev qty = num4 R (if sd = BUY then dadd R prev qty else dsub R prev qty)"

lemma settle_holding_effect:
  assumes "settle_holding R s ev = Inr s'"
  defines "h0 \<equiv> findUserHolding s (ev_userId ev) (ev_stockId ev)"
  shows "\<exists>h. findUserHolding s' (ev_userId ev) (ev_stockId ev) = Some h \<and>
      h_quantity h = settled_quantity R (ev_side ev) (case h0 of None \<Rightarrow> 0 | Some x \<Rightarrow> h_quantity x) (ev_quantity ev) \<and>
      (ev_side ev = SELL \<longrightarrow> (\<exists>x. h0 = Some x \<and> ev_quantity ev \<le> h_quantity x \<and> h_averageCost h = h_averageCost x))"
    and "\<not> (u' = ev_userId ev \<and> i' = ev_stockId ev) \<Longrightarrow> findUserHolding s' u' i' = findUserHolding s u' i'"
proof -
  show "\<exists>h. findUserHolding s' (ev_userId ev) (ev_stockId ev) = Some h \<and>
      h_quantity h = settled_quantity R (ev_side ev) (case h0 of None \<Rightarrow> 0 | Some x \<Rightarrow> h_quantity x) (ev_quantity ev) \<and>
      (ev_side ev = SELL \<longrightarrow> (\<exists>x. h0 = Some x \<and> ev_quantity ev \<le> h_quantity x \<and> h_averageCost h = h_averageCost x))"
    using assms(1) unfolding settle_holding_def Let_def keep_broker_def [symmetric] h0_def [symmetric]
    by (cases "ev_side ev"; cases h0)
      (auto simp: h0_def findUserHolding_def find_holding_upd find_append holding_at_def settled_quantity_def
        split: if_splits)
  show "\<not> (u' = ev_userId ev \<and> i' = ev_stockId ev) \<Longrightarrow> findUserHolding s' u' i' = findUserHolding s u' i'"
    using assms(1) unfolding settle_holding_def Let_def keep_broker_def [symmetric]
    by (auto simp: findUserHolding_def find_holding_upd find_append holding_at_def option.map_ident
        split: if_splits option.splits)
qed

section \<open>Retries\<close>

lemma runWithRetry_spec:
  "attempt \<le> 4 \<Longrightarrow> runWithRetry fn attempt = (r, k) \<Longrightarrow>
     attempt \<le> k \<and> k \<le> 4 \<and> r = fn k \<and>
     (\<forall>j. attempt \<le> j \<and> j < k \<longrightarrow> (\<exists>e. fn j = Inl e \<and> retryable e)) \<and>
     (k < 4 \<longrightarrow> (\<forall>e. r = Inl e \<longrightarrow> \<not> retryable e))"
proof (induction fn attempt rule: runWithRetry.induct)
  case (1 fn attempt)
  show ?case
  proof (cases "\<exists>e. fn attempt = Inl e \<and> attempt < 4 \<and> retryable e")
    case True
    then obtain e where e: "fn attempt = Inl e" "attempt < 4" "retryable e" by blast
    with "1.prems" have "runWithRetry fn (Suc attempt) = (r, k)"
      by (simp add: runWithRetry.simps [of fn attempt])
    with "1.IH" [of e] e show ?thesis by (auto simp: less_eq_Suc_le le_Suc_eq) (metis le_antisym not_less_eq_eq)+
  next
    case False
    with "1.prems" show ?thesis
      by (auto simp: runWithRetry.simps [of fn attempt] split: sum.splits if_splits)
  qed
qed

section \<open>Sample trade\<close>

definition sample_trade :: "side \<Rightarrow> OrderExecutedEvent" where
  "sample_trade sd =
     \<lparr>ev_orderId = 50, ev_userId = 1, ev_stockId = 60, ev_stockSymbol = ''TNM'', ev_side = sd,
      ev_quantity = 5, ev_price = 100, ev_totalFees = 19 / 2,
      ev_totalCost = (if sd = BUY then 1019 / 2 else 981 / 2), ev_tradeId = 70\<rparr>"

lemma sample_trade_ok: "event_ok (sample_trade sd)"
proof -
  have p8: "places 8 (19 / 2)" by (rule placesI [where n = 950000000]) simp
  have p4: "places 4 (19 / 2)" by (rule placesI [where n = 95000]) simp
  show ?thesis
    by (cases sd) (simp_all add: event_ok_def sample_trade_def trade_in_range_def ev_gross_def tie4_def p8 p4)
qed

lemma bank1_solvent: "solvent bank1"
  unfolding solvent_def by code_simp

section \<open>Properties\<close>

lemma settle_wallets:
  assumes "settleAtomically R s ev = Inr (s', Some sid)"
  defines "cash \<equiv> if ev_side ev = BUY then - ev_totalCost ev
    else dsub R (dmul R (ev_price ev) (ev_quantity ev)) (ev_totalFees ev)"
  shows "\<exists>w. findWalletByUserId s (ev_userId ev) = Some w \<and>
     findWalletByUserId s' (ev_userId ev) =
       Some (w\<lparr>w_balance := num4 R (w_balance w + cash), w_version := Suc (w_version w)\<rparr>) \<and>
     (\<forall>i. i = w_id w \<or> findWalletById s' i = findWalletById s i) \<and>
     (ev_side ev = BUY \<longrightarrow> \<not> dsub R (w_balance w) (ev_totalCost ev) < 0)"
  using assms(1)
proof (rule settleAtomically_Some)
  fix w t
  assume w: "findWalletByUserId s (ev_userId ev) = Some w" and g: "ev_side ev = BUY \<Longrightarrow> \<not> ev_after R w ev < 0"
    and wal: "db_wallets s' = upd_where (\<lambda>v. w_id v = w_id w)
       (bump R (if ev_side ev = BUY then - ev_delta R ev else ev_delta R ev)) (db_wallets s)"
  have cash: "(if ev_side ev = BUY then - ev_delta R ev else ev_delta R ev) = cash"
    by (simp add: cash_def ev_delta_def)
  have "findWalletByUserId s' (ev_userId ev) = Some (bump R cash w)"
    using w by (simp add: findWalletByUserId_def wal findWalletByUserId_upd cash)
  moreover have "findWalletById s' i = findWalletById s i" if "i \<noteq> w_id w" for i
    using that by (simp add: findWalletById_def wal findWalletById_upd option.map_ident)
  ultimately show ?thesis using w g
    by (intro exI [of _ w]) (auto simp: bump_def ev_after_def ev_delta_def)
qed


lemma sample_settles: "\<exists>s'. settleAtomically (pg_runtime 9) bank1 (sample_trade BUY) = Inr (s', Some 107)"
proof -
  have "map_sum id snd (settleAtomically (pg_runtime 9) bank1 (sample_trade BUY)) = Inr (Some 107)"
    by code_simp
  then show ?thesis by (cases "settleAtomically (pg_runtime 9) bank1 (sample_trade BUY)") auto
qed


text \<open>C4. A trade settles at most once: after it has settled, every later delivery of an execution event
  for the same trade and user, whatever else it says, is a no-op on the database.\<close>

theorem settlement_idempotent:
  assumes "settleAtomically R s ev = Inr (s', Some sid)"
    and "ev_tradeId ev' = ev_tradeId ev" and "ev_userId ev' = ev_userId ev"
  shows "settleAtomically R' s' ev' = Inr (s', None)"
  using assms(1)
proof (rule settleAtomically_Some)
  fix w t
  assume w: "findWalletByUserId s (ev_userId ev) = Some w"
    and wal: "db_wallets s' = upd_where (\<lambda>v. w_id v = w_id w)
       (bump R (if ev_side ev = BUY then - ev_delta R ev else ev_delta R ev)) (db_wallets s)"
    and tx: "db_transactions s' = db_transactions s @ [t]" "t_walletId t = w_id w"
      "t_idempotencyKey t = Some (settle_key (ev_tradeId ev))"
  have "findWalletByUserId s' (ev_userId ev) =
      Some (bump R (if ev_side ev = BUY then - ev_delta R ev else ev_delta R ev) w)"
    using w by (simp add: findWalletByUserId_def wal findWalletByUserId_upd)
  moreover have "findTransactionByIdempotencyKey s' (w_id w) (settle_key (ev_tradeId ev)) \<noteq> None"
    using tx by (simp add: findTransactionByIdempotencyKey_def find_append split: option.split)
  ultimately show ?thesis using assms(2,3) by (simp add: settleAtomically_def)
qed

theorem settlement_idempotent_witness:
  "\<exists>s'. settleAtomically (pg_runtime 9) bank1 (sample_trade BUY) = Inr (s', Some 107) \<and>
     settleAtomically (pg_runtime 10) s' (sample_trade SELL) = Inr (s', None)"
proof -
  obtain s' where s': "settleAtomically (pg_runtime 9) bank1 (sample_trade BUY) = Inr (s', Some 107)"
    using sample_settles by blast
  from settlement_idempotent [OF s', of "sample_trade SELL" "pg_runtime 10"] s'
  show ?thesis by (auto simp: sample_trade_def)
qed

text \<open>C8. Settlement moves shares with the cash: the position in the traded stock grows by the bought
  quantity or falls by the sold quantity, a sale needs a position at least as large and leaves
  the average cost alone, and every other position is untouched.\<close>

theorem settlement_moves_shares:
  assumes "numeric_runtime R" and "event_ok ev" and "settleAtomically R s ev = Inr (s', Some sid)"
    and "prev = (case findUserHolding s (ev_userId ev) (ev_stockId ev) of None \<Rightarrow> 0 | Some h \<Rightarrow> h_quantity h)"
    and "places 4 prev" and "0 \<le> prev" and "prev < 10 ^ 14"
  shows "(\<exists>h. findUserHolding s' (ev_userId ev) (ev_stockId ev) = Some h \<and>
       h_quantity h = (if ev_side ev = BUY then prev + ev_quantity ev else prev - ev_quantity ev) \<and>
       0 \<le> h_quantity h \<and>
       (ev_side ev = BUY \<or>
        map_option h_averageCost (findUserHolding s (ev_userId ev) (ev_stockId ev)) = Some (h_averageCost h))) \<and>
     (\<forall>u' i'. (u' = ev_userId ev \<and> i' = ev_stockId ev) \<or> findUserHolding s' u' i' = findUserHolding s u' i')"
proof -
  obtain s2 where s2: "settle_holding R s ev = Inr s2" and hs: "db_holdings s2 = db_holdings s'"
    using assms(3) by (rule settleAtomically_Some) (cases "settle_holding R s ev", auto)
  have find: "findUserHolding s' u i = findUserHolding s2 u i" for u i
    by (simp add: findUserHolding_def hs)
  have q: "places 4 (ev_quantity ev)" "0 < ev_quantity ev" "ev_quantity ev \<le> 10 ^ 12"
    using assms(2) places_mono [of 0 "ev_quantity ev" 4] by (simp_all add: event_ok_def trade_in_range_def)
  have ex: "num4 R (rnd R x) = x" if "places 4 x" "\<bar>x\<bar> < 10 ^ 16" for x
    using that by (simp add: numeric_runtime.rnd_places4 [OF assms(1)] numeric_runtime.num4_exact [OF assms(1)])
  from settle_holding_effect(1) [OF s2] obtain h where
    h: "findUserHolding s' (ev_userId ev) (ev_stockId ev) = Some h"
      "h_quantity h = settled_quantity R (ev_side ev) prev (ev_quantity ev)"
    and sell: "ev_side ev = SELL \<Longrightarrow> \<exists>x. findUserHolding s (ev_userId ev) (ev_stockId ev) = Some x \<and>
        ev_quantity ev \<le> h_quantity x \<and> h_averageCost h = h_averageCost x"
    unfolding find assms(4) by blast
  have "h_quantity h = (if ev_side ev = BUY then prev + ev_quantity ev else prev - ev_quantity ev)"
    using q assms(5-7) ex [of "prev + ev_quantity ev"] ex [of "prev - ev_quantity ev"]
    by (simp add: h(2) settled_quantity_def dadd_def dsub_def places_add places_diff abs_if)
  moreover have "ev_quantity ev \<le> prev" if "ev_side ev = SELL" using sell [OF that] assms(4) by auto
  ultimately show ?thesis
    using h(1) sell q(2) assms(6) settle_holding_effect(2) [OF s2] unfolding find
    by (cases "ev_side ev") auto
qed

theorem settlement_moves_shares_witness:
  "\<exists>s' h. settleAtomically (pg_runtime 9) bank1 (sample_trade BUY) = Inr (s', Some 107) \<and>
     findUserHolding s' 1 60 = Some h \<and> h_quantity h = 5"
proof -
  obtain s' where s': "settleAtomically (pg_runtime 9) bank1 (sample_trade BUY) = Inr (s', Some 107)"
    using sample_settles by blast
  have n: "findUserHolding bank1 1 60 = None" by code_simp
  have u: "ev_userId (sample_trade BUY) = 1" "ev_stockId (sample_trade BUY) = 60" "ev_quantity (sample_trade BUY) = 5"
    "ev_side (sample_trade BUY) = BUY"
    by (simp_all add: sample_trade_def)
  from settlement_moves_shares [OF pg.numeric_runtime_axioms sample_trade_ok s' refl] n s'
  show ?thesis by (simp add: u) blast
qed

text \<open>C36. The retry loop ends and hides nothing: it makes at most four attempts, every attempt before the
  last failed with a conflict code, the result is the last attempt's, and a conflict is only
  reported after the fourth.\<close>

theorem retry_bounded:
  assumes "runWithRetry fn 1 = (r, k)"
  shows "1 \<le> k \<and> k \<le> 4 \<and> r = fn k \<and>
     (\<forall>j. 1 \<le> j \<and> j < k \<longrightarrow> (\<exists>e. fn j = Inl e \<and> retryable e)) \<and>
     (k < 4 \<longrightarrow> (\<forall>e. r = Inl e \<longrightarrow> \<not> retryable e))"
  using runWithRetry_spec [OF _ assms] by simp

theorem retry_bounded_witness:
  "runWithRetry (\<lambda>k. if k < 3 then Inl (PrismaError ''P2034'') else Inr (7 :: nat)) 1 = (Inr 7, 3) \<and> (3 :: nat) \<le> 4"
proof -
  have r: "runWithRetry (\<lambda>k. if k < 3 then Inl (PrismaError ''P2034'') else Inr (7 :: nat)) 1 = (Inr 7, 3)"
    by code_simp
  from retry_bounded [OF r] r show ?thesis by blast
qed

section \<open>A fee that is half-way\<close>

text \<open>
  Why \<open>event_ok\<close> excludes ties.  Five shares at 6000.01 under the default schedule (1.7 percent
  commission and two levies of 0.1 percent) cost 30570.05095: the ledger entry rounds the cost up
  to 30570.0510 while the column update rounds the remaining balance up too, so the balance is
  0.0001 above the ledger and the next reconciliation reports it.
\<close>

definition tie_trade :: OrderExecutedEvent where
  "tie_trade = (sample_trade BUY)\<lparr>ev_price := 600001 / 100, ev_totalFees := 57000095 / 100000,
     ev_totalCost := 3057005095 / 100000\<rparr>"

definition tie_bank :: db where
  "tie_bank = snd (processDeposit (pg_runtime 5)
     (bank0\<lparr>db_transactions := map (\<lambda>t. t\<lparr>t_amount := 50000\<rparr>) (db_transactions bank0)\<rparr>) 3)"

lemma tie_trade_discrepancy:
  "totalCost (calculateTradingFees (pg_runtime 0) (ev_price tie_trade) (ev_quantity tie_trade) BUY
      (DEFAULT_COMMISSION_TIERS, True) DEFAULT_STATUTORY_LEVIES) = ev_totalCost tie_trade \<and>
   map_sum id rec_discrepancy (reconcile (pg_runtime 6) tie_bank 1) = Inr 0 \<and>
   (case settleAtomically (pg_runtime 7) tie_bank tie_trade of
      Inl e \<Rightarrow> False
    | Inr (s', r) \<Rightarrow> map_sum id rec_discrepancy (reconcile (pg_runtime 8) s' 1) = Inr (1 / 10000))"
  by code_simp


section \<open>A sale whose fees exceed its proceeds\<close>

text \<open>
  Why \<open>event_ok\<close> bounds a sale's fees by its proceeds.  Settlement refuses a negative balance for a
  purchase only: five shares sold at 2 under a minimum fee of 500 are settled for -490, and a
  customer who owns them and holds 100 ends at -390.
\<close>

definition poor_seller :: db where
  "poor_seller = bank1\<lparr>db_wallets := map (\<lambda>w. w\<lparr>w_balance := 100\<rparr>) (db_wallets bank1), db_holdings :=
     [\<lparr>h_userId = 1, h_stockId = 60, h_brokerId = None, h_quantity = 5, h_averageCost = 2\<rparr>]\<rparr>"

definition dear_sale :: OrderExecutedEvent where
  "dear_sale = (sample_trade SELL)\<lparr>ev_price := 2, ev_totalFees := 500, ev_totalCost := 490\<rparr>"

lemma sale_overdraws:
  "map_sum id (\<lambda>(s, sid). (map w_balance (db_wallets s), sid))
     (settleAtomically (pg_runtime 9) poor_seller dear_sale) = Inr ([- 390], Some 107)"
  by code_simp

end
