(* ===== verification/System.thy ===== *)
theory System
  imports Orders Settlement
begin

text \<open>
  Execution and settlement together: what the execution engine puts on the event bus is what settlement
  expects, and what becomes of an executed order, whether the wallet covers it at the price of the
  execution or not.  The transition system over all handlers is in \<open>Reach\<close>.
\<close>

section \<open>From execution to settlement\<close>

text \<open>A trading schedule with percentages of two places and commission floors of four.\<close>

definition trade_policy_ok :: "ResolvedFeePolicy \<Rightarrow> bool" where
  "trade_policy_ok p \<longleftrightarrow> (\<forall>t \<in> set (commissionTiers p). tier_ok t) \<and> levies_ok (statutoryLevies p)"

text \<open>The price \<open>executeQueuedOrder\<close> executes at, and the fees charged there.\<close>

definition execution_price :: "db \<Rightarrow> order \<Rightarrow> rat option" where
  "execution_price s x =
     (if o_type x = LIMIT \<and> o_limitPrice x \<noteq> None then o_limitPrice x else getLatestClosePrice s (o_stockId x))"

definition execution_fees :: "runtime \<Rightarrow> db \<Rightarrow> order \<Rightarrow> rat \<Rightarrow> TradingFees" where
  "execution_fees R s x p = fst (tradingFeesFor R s (o_userId x) p (o_quantity x) (o_side x))"

text \<open>
  The orders of the retail range: whole shares, a price of at most four places, at most ten million
  Kwacha with fees (twice the single-order limit of the platform guards), a sale that covers its
  fees, and no fee half-way between two amounts of the ledger.
\<close>

definition execution_in_range :: "runtime \<Rightarrow> db \<Rightarrow> order \<Rightarrow> rat \<Rightarrow> bool" where
  "execution_in_range R s x p \<longleftrightarrow>
     trade_policy_ok (fst (feePolicyForUser R s (o_userId x))) \<and> trade_in_range p (o_quantity x) \<and>
     1 \<le> o_quantity x \<and> o_quantity x \<le> 10 ^ 12 \<and>
     (let F = totalFees (execution_fees R s x p)
      in p * o_quantity x + F < 10 ^ 7 \<and> (o_side x = SELL \<longrightarrow> F \<le> p * o_quantity x) \<and> \<not> tie4 F)"

lemma trading_fees_figures:
  fixes sd
  assumes "numeric_runtime R" and "trade_policy_ok (fst (feePolicyForUser R s u))" and "trade_in_range p q"
  defines "F \<equiv> fst (tradingFeesFor R s u p q sd)"
  shows "places 8 (totalFees F)" and "0 \<le> totalFees F"
    and "totalCost F = (if sd = BUY then p * q + totalFees F else p * q - totalFees F)"
proof -
  let ?P = "fst (feePolicyForUser R s u)"
  have tiers: "\<forall>t \<in> set (commissionTiers ?P). tier_ok t" and lev: "levies_ok (statutoryLevies ?P)"
    using assms(2) by (simp_all add: trade_policy_ok_def)
  have F: "F = calculateTradingFees R p q sd (commissionTiers ?P, commissionEnabled ?P) (statutoryLevies ?P)"
    by (simp add: F_def tradingFeesFor_def tradingFeesForUser_def feePolicyForUser_def tradingFees_of_policy_def
        split_beta Let_def)
  note g = numeric_runtime.gross_exact [OF assms(1,3)]
  note c = numeric_runtime.commission_exact [OF assms(1) g(2-4) tiers g(5), of "commissionEnabled ?P"]
  have l: "pct_ok (secPct (statutoryLevies ?P))" "pct_ok (msePct (statutoryLevies ?P))"
    "pct_ok (withholdingPct (statutoryLevies ?P))" using lev by (simp_all add: levies_ok_def)
  note pl = numeric_runtime.pctOf_exact(2) [OF assms(1) g(2-4)] and nn = pct_bound [OF g(3), THEN conjunct2]
  show "places 8 (totalFees F)" "0 \<le> totalFees F"
    unfolding F numeric_runtime.fees_exact [OF assms(1,3) tiers lev] Let_def
    using c(2,3) l by (auto intro!: places_add pl add_nonneg_nonneg nn)
  show "totalCost F = (if sd = BUY then p * q + totalFees F else p * q - totalFees F)"
    unfolding F numeric_runtime.fees_exact [OF assms(1,3) tiers lev] Let_def by simp
qed

lemma execution_figures:
  assumes "numeric_runtime R" and "execution_in_range R s x p"
  defines "F \<equiv> execution_fees R s x p"
  shows "js R p = p" and "js R (o_quantity x) = o_quantity x"
    and "js R (totalFees F) = totalFees F" and "js R (totalCost F) = totalCost F"
proof -
  have r: "trade_in_range p (o_quantity x)" "1 \<le> o_quantity x" "o_quantity x \<le> 10 ^ 12"
    and pol: "trade_policy_ok (fst (feePolicyForUser R s (o_userId x)))"
    and b: "p * o_quantity x + totalFees F < 10 ^ 7" "o_side x = SELL \<Longrightarrow> totalFees F \<le> p * o_quantity x"
    using assms(2) by (auto simp: execution_in_range_def Let_def F_def)
  note fig = trading_fees_figures [OF assms(1) pol r(1), of "o_side x", folded execution_fees_def F_def]
  have p: "places 4 p" "0 \<le> p" "places 0 (o_quantity x)" using r(1) by (simp_all add: trade_in_range_def)
  have g: "places 4 (p * o_quantity x)" "0 \<le> p * o_quantity x"
    using places_mult [OF p(1,3)] p r(2) by simp_all
  have "p * 1 \<le> p * o_quantity x" using p(2) r(2) by (intro mult_left_mono) simp_all
  then have pb: "p < 10 ^ 7" using b(1) fig(2) by simp
  note js = numeric_runtime.js_places [OF assms(1)]
  show "js R p = p" using p pb by (intro js [of 4]) (simp_all add: abs_if)
  show "js R (o_quantity x) = o_quantity x" using p r by (intro js [of 0]) (simp_all add: abs_if)
  have small: "\<bar>y\<bar> * 10 ^ 8 < 10 ^ 15" if "\<bar>y\<bar> < 10 ^ 7" for y :: rat using that by simp
  show "js R (totalFees F) = totalFees F"
    using fig(1,2) b(1) g(2) by (intro js [of 8] small) simp_all
  have "places 8 (totalCost F)"
    using fig(1,3) places_mono [OF g(1), of 8] by (auto intro: places_add places_diff)
  moreover have "\<bar>totalCost F\<bar> < 10 ^ 7"
    using fig(2,3) b g(2) by (cases "o_side x") (auto simp: abs_if)
  ultimately show "js R (totalCost F) = totalCost F" by (intro js [of 8] small)
qed

lemma executeQueuedOrder_eq:
  assumes "findOrderById s oid = Some x" and "o_status x = SUBMITTED" and "execution_price s x = Some p"
  shows "executeQueuedOrder R ad s oid =
    execute R ad (createTradeAudit s oid (o_userId x) ''ORDER_EXECUTED_BY_BROKER'' (Some SUBMITTED) (Some SUBMITTED)) oid p"
  using assms by (auto simp: executeQueuedOrder_def execution_price_def split: if_splits)

text \<open>Execution leaves the tables settlement reads alone, and numbers the trade with a fresh id.\<close>

definition settle_tables_eq :: "db \<Rightarrow> db \<Rightarrow> bool" where
  "settle_tables_eq s s' \<longleftrightarrow>
     db_wallets s' = db_wallets s \<and> db_transactions s' = db_transactions s \<and> db_ledger s' = db_ledger s \<and>
     db_holdings s' = db_holdings s \<and> db_settlements s' = db_settlements s \<and>
     db_reservations s' = db_reservations s \<and> db_uid s \<le> db_uid s'"

lemma settle_tables_eq_trans: "settle_tables_eq s s' \<Longrightarrow> settle_tables_eq s' s'' \<Longrightarrow> settle_tables_eq s s''"
  by (auto simp: settle_tables_eq_def)

lemma tables_eq_settle: "tables_eq s s' \<Longrightarrow> settle_tables_eq s s'"
  by (simp add: tables_eq_fields settle_tables_eq_def)

lemma settle_tables_eq_steps [simp]:
  "settle_tables_eq s (updateOrderStatus s' i st f) \<longleftrightarrow> settle_tables_eq s s'"
  "settle_tables_eq s (createTradeAudit s' i u a x y) \<longleftrightarrow> settle_tables_eq s s'"
  "settle_tables_eq s (emit e s') \<longleftrightarrow> settle_tables_eq s s'"
  "settle_tables_eq s (createOrderExecution R s' i q p fee r) \<longleftrightarrow> settle_tables_eq s s'"
  by (simp_all add: settle_tables_eq_def updateOrderStatus_def createTradeAudit_def createOrderExecution_def)

lemma record_fill_state:
  assumes "settle_tables_eq s0 s" and "findOrderById s (o_id x) = Some y"
  shows "settle_tables_eq s0 (snd (record_fill R s x f))"
    and "fst (record_fill R s x f) = Executed st i F \<Longrightarrow> i = db_uid s"
    and "\<exists>z. findOrderById (snd (record_fill R s x f)) (o_id x) = Some z \<and> o_quantity z = o_quantity y \<and>
           o_filledQuantity z = num4 R (bf_filledQuantity f)"
proof -
  let ?t = "tradingFeesFor R s (o_userId x) (bf_fillPrice f) (bf_filledQuantity f) (o_side x)"
  let ?p = "platformFeeFor R (snd ?t) (brokerCommission (fst ?t))"
  have t: "tables_eq s (snd ?p)" by (rule tables_eq_trans [OF tables_eq_tradingFees tables_eq_platformFee])
  have "settle_tables_eq s0 (snd ?p)" by (rule settle_tables_eq_trans [OF assms(1) tables_eq_settle [OF t]])
  then have "settle_tables_eq s0 (snd (createTrade R (snd ?p) i q p a b c d))" for i q p a b c d
    by (simp add: settle_tables_eq_def createTrade_def)
  then show "settle_tables_eq s0 (snd (record_fill R s x f))"
    by (simp add: record_fill_def Let_def split_beta)
  show "fst (record_fill R s x f) = Executed st i F \<Longrightarrow> i = db_uid s"
    using tables_eq_fields(4) [OF t] by (auto simp: record_fill_def Let_def split_beta createTrade_def)
  show "\<exists>z. findOrderById (snd (record_fill R s x f)) (o_id x) = Some z \<and> o_quantity z = o_quantity y \<and>
      o_filledQuantity z = num4 R (bf_filledQuantity f)"
    using assms(2) findOrderById_tables [OF t]
    by (simp add: record_fill_def Let_def split_beta findOrderById_update)
qed

context instant_fill
begin

lemma execute_state:
  assumes "findOrderById s oid = Some x" and "o_status x = SUBMITTED"
    and "execute R ad s oid p = (Inr (Executed st i F), s')"
  shows "settle_tables_eq s s'" and "i = db_uid s"
    and "\<exists>z. findOrderById s' oid = Some z \<and> o_quantity z = o_quantity x \<and>
           o_filledQuantity z = num4 R (js R (o_quantity x))"
proof -
  have id: "o_id x = oid" using findOrderById_Some [OF assms(1)] by simp
  define s2 where "s2 = createTradeAudit s oid (o_userId x) ''ORDER_SUBMITTED_TO_BROKER'' (Some SUBMITTED) (Some SUBMITTED)"
  define f where "f = ad (submission_of R s2 x p)"
  define s3 where "s3 = updateOrderStatus s2 oid ACCEPTED
      (\<lambda>y. y\<lparr>o_brokerRef := Some (bf_brokerRef f), o_acceptedAt := Some (now R)\<rparr>)"
  have f: "bf_status f = FULL_FILL" "bf_filledQuantity f = js R (o_quantity x)"
    by (simp_all add: f_def fills submission_of_def)
  have e: "execute R ad s oid p = (Inr (fst (record_fill R s3 x f)), snd (record_fill R s3 x f))"
    using assms(1,2) f(1)
    by (simp add: execute_def Let_def split_beta s2_def s3_def f_def gateway_submitOrder_def)
  have r: "fst (record_fill R s3 x f) = Executed st i F" "s' = snd (record_fill R s3 x f)"
    using e assms(3) by auto
  have "settle_tables_eq s s3" by (simp add: s3_def s2_def) (simp add: settle_tables_eq_def)
  moreover obtain y where "findOrderById s3 (o_id x) = Some y" "o_quantity y = o_quantity x"
    using assms(1) id by (auto simp: s3_def s2_def findOrderById_update)
  moreover have "db_uid s3 = db_uid s" by (simp add: s3_def s2_def updateOrderStatus_def createTradeAudit_def)
  ultimately show "settle_tables_eq s s'" "i = db_uid s"
    "\<exists>z. findOrderById s' oid = Some z \<and> o_quantity z = o_quantity x \<and>
           o_filledQuantity z = num4 R (js R (o_quantity x))"
    using record_fill_state [of s s3 x y R f] r id f(2) by auto
qed

lemma execution_emits:
  assumes "numeric_runtime R" and "findOrderById s oid = Some x" and "o_status x = SUBMITTED"
    and "execution_price s x = Some p" and "execution_in_range R s x p"
  shows "\<exists>s' ev. executeQueuedOrder R ad s oid = (Inr (Executed FILLED (ev_tradeId ev) (execution_fees R s x p)), s') \<and>
     db_outbox s' = db_outbox s @ [OrderExecuted ev] \<and> event_ok ev \<and> ev_orderId ev = oid \<and>
     ev_userId ev = o_userId x \<and> ev_stockId ev = o_stockId x \<and> ev_side ev = o_side x \<and>
     ev_quantity ev = o_quantity x \<and> ev_price ev = p \<and>
     ev_totalFees ev = totalFees (execution_fees R s x p) \<and> ev_totalCost ev = totalCost (execution_fees R s x p) \<and>
     ev_tradeId ev = db_uid s \<and> settle_tables_eq s s' \<and>
     (\<exists>z. findOrderById s' oid = Some z \<and> o_status z = FILLED \<and> o_quantity z \<le> o_filledQuantity z)"
proof -
  let ?s0 = "createTradeAudit s oid (o_userId x) ''ORDER_EXECUTED_BY_BROKER'' (Some SUBMITTED) (Some SUBMITTED)"
  note j = execution_figures [OF assms(1,5)]
  have x0: "findOrderById ?s0 oid = Some x" using assms(2) by simp
  have f0: "tradingFeesFor R ?s0 (o_userId x) p (o_quantity x) (o_side x) =
      (execution_fees R s x p, ?s0\<lparr>db_feeCache := db_feeCache (snd (tradingFeesFor R s (o_userId x) p (o_quantity x) (o_side x)))\<rparr>)"
    by (simp add: execution_fees_def tradingFeesFor_def createTradeAudit_def findUser_def split_beta Let_def)
  from execute_fills [OF x0 assms(3), of R p] obtain tid s' ev where
    e: "execute R ad ?s0 oid p = (Inr (Executed FILLED tid (execution_fees R s x p)), s')"
      "map_option o_status (findOrderById s' oid) = Some FILLED"
      "db_outbox s' = db_outbox ?s0 @ [OrderExecuted ev]" "ev_tradeId ev = tid" "ev_orderId ev = oid"
      "ev_userId ev = o_userId x" "ev_stockId ev = o_stockId x" "ev_side ev = o_side x"
      "ev_quantity ev = o_quantity x" "ev_price ev = p"
      "ev_totalFees ev = totalFees (execution_fees R s x p)" "ev_totalCost ev = totalCost (execution_fees R s x p)"
    using j f0 by auto
  have r: "trade_in_range p (o_quantity x)" "1 \<le> o_quantity x" "o_quantity x \<le> 10 ^ 12"
    and pol: "trade_policy_ok (fst (feePolicyForUser R s (o_userId x)))"
    and b: "p * o_quantity x + totalFees (execution_fees R s x p) < 10 ^ 7"
      "o_side x = SELL \<Longrightarrow> totalFees (execution_fees R s x p) \<le> p * o_quantity x"
      "\<not> tie4 (totalFees (execution_fees R s x p))"
    using assms(5) by (auto simp: execution_in_range_def Let_def)
  note fig = trading_fees_figures [OF assms(1) pol r(1), of "o_side x", folded execution_fees_def]
  have "0 \<le> p * o_quantity x" using r(1) by (simp add: trade_in_range_def)
  then have "event_ok ev"
    using e r b fig by (simp add: event_ok_def ev_gross_def)
  moreover have "db_outbox ?s0 = db_outbox s" "db_uid ?s0 = db_uid s" by (simp_all add: createTradeAudit_def)
  moreover have "settle_tables_eq s ?s0" by (simp add: settle_tables_eq_def createTradeAudit_def)
  note execute_state(1) [OF x0 assms(3) e(1), THEN settle_tables_eq_trans [OF this]]
  moreover have "num4 R (o_quantity x) = o_quantity x"
    using r(1) places_mono [of 0 "o_quantity x" 4]
    by (intro numeric_runtime.num4_exact [OF assms(1)]) (simp add: trade_in_range_def)
  ultimately show ?thesis
    using e j(2) execute_state(2,3) [OF x0 assms(3) e(1)] executeQueuedOrder_eq [OF assms(2-4), of R ad] by auto
qed

end

section \<open>When settlement succeeds\<close>

text \<open>Everything the settlement transaction can stumble over: no wallet, an execution already settled, a
  buyer short of cash, a seller short of shares.\<close>

definition settleable :: "db \<Rightarrow> OrderExecutedEvent \<Rightarrow> wallet \<Rightarrow> bool" where
  "settleable s ev w \<longleftrightarrow>
     findWalletByUserId s (ev_userId ev) = Some w \<and>
     findTransactionByIdempotencyKey s (w_id w) (settle_key (ev_tradeId ev)) = None \<and>
     ev_tradeId ev \<notin> sr_tradeId ` set (db_settlements s) \<and>
     (let held = (case findUserHolding s (ev_userId ev) (ev_stockId ev) of None \<Rightarrow> 0 | Some h \<Rightarrow> h_quantity h)
      in 0 \<le> held \<and> (if ev_side ev = BUY then ev_totalCost ev \<le> w_balance w else ev_quantity ev \<le> held))"

lemma walletIncrement_Some:
  assumes "findWalletByUserId s u = Some w" and "db_wallets s' = db_wallets s"
  shows "walletIncrement R s' (w_id w) (w_version w) d =
     Inr (s'\<lparr>db_wallets := upd_where (\<lambda>v. w_id v = w_id w) (bump R d) (db_wallets s)\<rparr>)"
  using assms findWalletByUserId_Some [OF assms(1)]
  by (auto simp: walletIncrement_def bump_def [abs_def])

lemma createTransactionWithLedger_fresh:
  assumes "findTransactionByIdempotencyKey s wid key = None"
  shows "\<exists>s'. createTransactionWithLedger R s wid ty amt oid (Some key) legs = Inr (s', db_uid s) \<and>
     db_settlements s' = db_settlements s \<and> db_orders s' = db_orders s \<and> db_holdings s' = db_holdings s \<and>
     db_reservations s' = db_reservations s"
  using assms
  by (auto simp: createTransactionWithLedger_def insertTransaction_def tx_key_taken_def
      findTransactionByIdempotencyKey_def find_None post_legs_eq Let_def)

lemma settle_holding_succeeds:
  assumes "numeric_runtime R" and "1 \<le> ev_quantity ev"
    and "held = (case findUserHolding s (ev_userId ev) (ev_stockId ev) of None \<Rightarrow> 0 | Some h \<Rightarrow> h_quantity h)"
    and "0 \<le> held" and "ev_side ev = BUY \<or> ev_quantity ev \<le> held"
  shows "\<exists>s'. settle_holding R s ev = Inr s' \<and> db_settlements s' = db_settlements s \<and> db_orders s' = db_orders s \<and>
     db_reservations s' = db_reservations s"
proof -
  have "rnd R 1 \<le> rnd R (held + ev_quantity ev)"
    using assms(2,4) by (intro numeric_runtime.rnd_mono [OF assms(1)]) simp
  moreover have "rnd R 1 = 1"
    using numeric_runtime.rnd_places [OF assms(1), of 0 1] by simp
  ultimately have "dadd R held (ev_quantity ev) \<noteq> 0" by (simp add: dadd_def)
  moreover have "\<exists>h. findUserHolding s (ev_userId ev) (ev_stockId ev) = Some h" if "ev_side ev \<noteq> BUY"
    using assms(2,3,5) that by (auto split: option.splits)
  ultimately show ?thesis
    using assms(3,5) by (cases "ev_side ev") (auto simp: settle_holding_def Let_def)
qed

lemma settle_succeeds:
  assumes "numeric_runtime R" and "settleable s ev w" and "event_ok ev"
  shows "\<exists>s' sid. settleAtomically R s ev = Inr (s', Some sid) \<and> db_orders s' = db_orders (settle_order R s ev) \<and>
     db_reservations s' = db_reservations
       (if ev_side ev = BUY then settle_reservation R s (ev_orderId ev) (ev_totalCost ev) else s)"
proof -
  let ?s1 = "if ev_side ev = BUY then settle_reservation R s (ev_orderId ev) (ev_totalCost ev) else s"
  let ?d = "if ev_side ev = BUY then - ev_delta R ev else ev_delta R ev"
  let ?s2 = "?s1\<lparr>db_wallets := upd_where (\<lambda>v. w_id v = w_id w) (bump R ?d) (db_wallets s)\<rparr>"
  have w: "findWalletByUserId s (ev_userId ev) = Some w"
    and key: "findTransactionByIdempotencyKey s (w_id w) (settle_key (ev_tradeId ev)) = None"
    and rec: "ev_tradeId ev \<notin> sr_tradeId ` set (db_settlements s)"
    using assms(2) by (simp_all add: settleable_def)
  have s1: "db_wallets ?s1 = db_wallets s" "db_transactions ?s1 = db_transactions s" "db_orders ?s1 = db_orders s"
    "db_holdings ?s1 = db_holdings s" "db_settlements ?s1 = db_settlements s"
    by (simp_all add: settle_reservation_tables)
  have inc: "walletIncrement R ?s1 (w_id w) (w_version w) ?d = Inr ?s2"
    by (rule walletIncrement_Some [OF w s1(1)])
  have "findTransactionByIdempotencyKey ?s2 (w_id w) (settle_key (ev_tradeId ev)) = None"
    using key s1(2) by (simp add: findTransactionByIdempotencyKey_def)
  from createTransactionWithLedger_fresh [OF this] obtain s3 where
    led: "createTransactionWithLedger R ?s2 (w_id w) (if ev_side ev = BUY then TRADE_BUY else TRADE_SELL)
        (ev_delta R ev) (ev_orderId ev) (Some (settle_key (ev_tradeId ev)))
        (settle_legs (ev_side ev) (w_id w) (ev_delta R ev) (dmul R (ev_price ev) (ev_quantity ev))
          (ev_totalFees ev) (ev_after R w ev)) = Inr (s3, db_uid ?s2)"
    and s3: "db_settlements s3 = db_settlements s" "db_orders s3 = db_orders s" "db_holdings s3 = db_holdings s"
      "db_reservations s3 = db_reservations ?s1"
    using s1 by fastforce
  have q: "1 \<le> ev_quantity ev"
  proof -
    have "places 0 (ev_quantity ev)" "0 < ev_quantity ev"
      using assms(3) by (simp_all add: event_ok_def trade_in_range_def)
    then show ?thesis by (auto elim!: placesE)
  qed
  have fh: "findUserHolding s3 u i = findUserHolding s u i" for u i by (simp add: findUserHolding_def s3)
  have "\<exists>s4. settle_holding R s3 ev = Inr s4 \<and> db_settlements s4 = db_settlements s3 \<and> db_orders s4 = db_orders s3 \<and>
      db_reservations s4 = db_reservations s3"
    using assms(2) by (intro settle_holding_succeeds [OF assms(1) q refl])
      (auto simp: settleable_def Let_def fh split: if_splits)
  then obtain s4 where hold: "settle_holding R s3 ev = Inr s4" and s4: "db_settlements s4 = db_settlements s"
      "db_orders s4 = db_orders s" "db_reservations s4 = db_reservations ?s1"
    using s3 by auto
  have "\<not> (\<exists>x \<in> set (db_settlements s4). sr_tradeId x = ev_tradeId ev)" using rec s4(1) by force
  then obtain s5 where rec': "settle_record R s4 (ev_tradeId ev) = Inr (s5, db_uid s4)"
    and s5: "db_orders s5 = db_orders s" "db_reservations s5 = db_reservations ?s1"
    using s4 unfolding settle_record_def by (simp split del: if_split)
  have "\<not> (ev_side ev = BUY \<and> ev_after R w ev < 0)"
    using assms(2) numeric_runtime.rnd_sign [OF assms(1)]
    by (auto simp: settleable_def Let_def ev_after_def ev_delta_def dsub_def)
  then have "settleAtomically R s ev = Inr (settle_order R s5 ev, Some (db_uid s4))"
    using w key inc led hold rec'
    by (cases "ev_side ev") (simp_all add: settleAtomically_def Let_def ev_delta_def ev_after_def)
  moreover have "db_orders (settle_order R s5 ev) = db_orders (settle_order R s ev)"
    "db_reservations (settle_order R s5 ev) = db_reservations s5"
    using s5 by (simp_all add: settle_order_def findOrderById_def updateOrderStatus_def createTradeAudit_def Let_def
        split: option.split)
  ultimately show ?thesis using s5 by auto
qed

text \<open>A buyer short of cash or a seller short of shares: the transaction is abandoned without a retry.\<close>

lemma settle_refuses:
  assumes "numeric_runtime R" and "findWalletByUserId s (ev_userId ev) = Some w"
    and "findTransactionByIdempotencyKey s (w_id w) (settle_key (ev_tradeId ev)) = None"
    and "held = (case findUserHolding s (ev_userId ev) (ev_stockId ev) of None \<Rightarrow> 0 | Some h \<Rightarrow> h_quantity h)"
    and "\<not> (if ev_side ev = BUY then ev_totalCost ev \<le> w_balance w else ev_quantity ev \<le> held)"
  shows "\<exists>m. handleOrderExecuted R (\<lambda>_. s) ev = (Inl (PlainError m), s)"
proof -
  have "\<exists>m. settleAtomically R s ev = Inl (PlainError m)"
  proof (cases "ev_side ev")
    case BUY
    then have "dsub R (w_balance w) (ev_totalCost ev) < 0"
      using assms(5) numeric_runtime.rnd_sign [OF assms(1), of "w_balance w - ev_totalCost ev"] by (simp add: dsub_def)
    with BUY assms(2,3) show ?thesis by (simp add: settleAtomically_def Let_def)
  next
    case SELL
    let ?d = "dsub R (dmul R (ev_price ev) (ev_quantity ev)) (ev_totalFees ev)"
    let ?s2 = "s\<lparr>db_wallets := upd_where (\<lambda>v. w_id v = w_id w) (bump R ?d) (db_wallets s)\<rparr>"
    have inc: "walletIncrement R s (w_id w) (w_version w) ?d = Inr ?s2"
      by (rule walletIncrement_Some [OF assms(2) refl])
    have "findTransactionByIdempotencyKey ?s2 (w_id w) (settle_key (ev_tradeId ev)) = None"
      using assms(3) by (simp add: findTransactionByIdempotencyKey_def)
    from createTransactionWithLedger_fresh [OF this] obtain s3 where
      led: "createTransactionWithLedger R ?s2 (w_id w) TRADE_SELL ?d (ev_orderId ev) (Some (settle_key (ev_tradeId ev)))
          (settle_legs SELL (w_id w) ?d (dmul R (ev_price ev) (ev_quantity ev)) (ev_totalFees ev)
            (dadd R (w_balance w) ?d)) = Inr (s3, db_uid ?s2)" and s3: "db_holdings s3 = db_holdings s" by fastforce
    have "settle_holding R s3 ev = Inl (PlainError (Msg ''Sell settlement aborted''))"
      using SELL assms(4,5) s3
      by (auto simp: settle_holding_def Let_def findUserHolding_def split: option.splits)
    with SELL assms(2,3) inc led show ?thesis by (simp add: settleAtomically_def Let_def)
  qed
  then show ?thesis by (auto simp: handleOrderExecuted_def runWithRetry.simps retryable_def)
qed

lemma settle_reservation_filled:
  assumes "fully_filled s oid"
  shows "findReservationByOrderId (s'\<lparr>db_reservations := db_reservations (settle_reservation R s oid c)\<rparr>) oid = None"
  using assms
  by (auto simp: settle_reservation_def findReservationByOrderId_def find_None upd_where_def)

lemma handleOrderExecuted_once:
  assumes "settleAtomically R s ev = Inr (s', Some sid)"
  shows "handleOrderExecuted R (\<lambda>_. s) ev = (Inr (), emit (TradeSettledEvent (ev_tradeId ev) (ev_orderId ev)
     (ev_userId ev) (ev_stockId ev) (ev_stockSymbol ev) (ev_side ev) (ev_quantity ev) (ev_price ev) sid) s')"
  using assms by (simp add: handleOrderExecuted_def runWithRetry.simps)

text \<open>An order whose cash or shares are there at the execution price.\<close>

lemma covered_order_settles:
  assumes "numeric_runtime R" and "numeric_runtime R'" and "instant_fill ad" and "books_ok s" and "solvent s"
    and "findOrderById s oid = Some x" and "o_status x = SUBMITTED" and "execution_price s x = Some p"
    and "execution_in_range R s x p"
    and "findWalletByUserId s (o_userId x) = Some w"
    and "findTransactionByIdempotencyKey s (w_id w) (settle_key (db_uid s)) = None"
    and "db_uid s \<notin> sr_tradeId ` set (db_settlements s)"
    and "held = (case findUserHolding s (o_userId x) (o_stockId x) of None \<Rightarrow> 0 | Some h \<Rightarrow> h_quantity h)"
    and "0 \<le> held"
    and "if o_side x = BUY then totalCost (execution_fees R s x p) \<le> w_balance w else o_quantity x \<le> held"
  shows "\<exists>s1 s2 ev. executeQueuedOrder R ad s oid = (Inr (Executed FILLED (db_uid s) (execution_fees R s x p)), s1) \<and>
     db_outbox s1 = db_outbox s @ [OrderExecuted ev] \<and>
     handleOrderExecuted R' (\<lambda>_. s1) ev = (Inr (), s2) \<and>
     map_option o_status (findOrderById s2 oid) = Some SETTLED \<and>
     (o_side x = SELL \<or> findReservationByOrderId s2 oid = None) \<and>
     map_option w_balance (findWalletByUserId s2 (o_userId x)) =
       Some (w_balance w + settle_change R' (o_side x) (p * o_quantity x) (totalFees (execution_fees R s x p))) \<and>
     books_ok s2"
proof -
  from instant_fill.execution_emits [OF assms(3,1,6-9)] obtain s1 ev z where
    e: "executeQueuedOrder R ad s oid = (Inr (Executed FILLED (ev_tradeId ev) (execution_fees R s x p)), s1)"
      "db_outbox s1 = db_outbox s @ [OrderExecuted ev]" "event_ok ev" "ev_orderId ev = oid"
      "ev_userId ev = o_userId x" "ev_stockId ev = o_stockId x" "ev_side ev = o_side x"
      "ev_quantity ev = o_quantity x" "ev_price ev = p" "ev_totalFees ev = totalFees (execution_fees R s x p)"
      "ev_totalCost ev = totalCost (execution_fees R s x p)" "ev_tradeId ev = db_uid s"
    and fr: "settle_tables_eq s s1"
    and z: "findOrderById s1 oid = Some z" "o_status z = FILLED" "o_quantity z \<le> o_filledQuantity z"
    by blast
  have t: "db_wallets s1 = db_wallets s" "db_transactions s1 = db_transactions s" "db_ledger s1 = db_ledger s"
    "db_holdings s1 = db_holdings s" "db_settlements s1 = db_settlements s" "db_uid s \<le> db_uid s1"
    using fr by (simp_all add: settle_tables_eq_def)
  have "settleable s1 ev w"
    using assms(10-15) e t
    by (cases "o_side x")
      (simp_all add: settleable_def Let_def findWalletByUserId_def findTransactionByIdempotencyKey_def findUserHolding_def)
  from settle_succeeds [OF assms(2) this e(3)] obtain s2 sid where
    s2: "settleAtomically R' s1 ev = Inr (s2, Some sid)" "db_orders s2 = db_orders (settle_order R' s1 ev)"
      "db_reservations s2 = db_reservations
         (if ev_side ev = BUY then settle_reservation R' s1 (ev_orderId ev) (ev_totalCost ev) else s1)"
    by blast
  have books: "books_ok s1" "solvent s1"
    using assms(4,5) books_cong [of s1 s] t by (simp_all add: solvent_def)
  from settle_posts [OF assms(2) books e(3) s2(1)] obtain v where v: "findWalletByUserId s1 (ev_userId ev) = Some v"
    and wal: "db_wallets s2 = upd_where (\<lambda>u. w_id u = w_id v)
        (bump R' (if ev_side ev = BUY then - ev_delta R' ev else ev_delta R' ev)) (db_wallets s1)"
    and bal: "w_balance v + settle_change R' (ev_side ev) (ev_gross ev) (ev_totalFees ev) =
        num4 R' (w_balance v + (if ev_side ev = BUY then - ev_delta R' ev else ev_delta R' ev))"
    and b2: "books_ok s2" by blast
  have "v = w" using v assms(10) e(5) t(1) by (simp add: findWalletByUserId_def)
  then have "map_option w_balance (findWalletByUserId s2 (o_userId x)) =
      Some (w_balance w + settle_change R' (o_side x) (p * o_quantity x) (totalFees (execution_fees R s x p)))"
    using v bal e by (simp add: findWalletByUserId_def wal findWalletByUserId_upd bump_def ev_gross_def)
  moreover have "map_option o_status (findOrderById s2 oid) = Some SETTLED"
    using z e(4) findOrderById_update [of "\<lambda>x. x\<lparr>o_settledAt := Some (now R')\<rparr>" s1 oid SETTLED oid]
    by (simp add: findOrderById_def s2(2) settle_order_def Let_def createTradeAudit_def)
  moreover have "findReservationByOrderId s2 oid = None" if "o_side x \<noteq> SELL"
  proof -
    have "fully_filled s1 oid" using z by (simp add: fully_filled_def)
    from settle_reservation_filled [OF this, where s' = s2 and R = R' and c = "ev_totalCost ev"] s2(3) e(4,7) that
    show ?thesis by (cases "o_side x") (simp_all add: findReservationByOrderId_def)
  qed
  moreover have fin: "books_ok (emit E s2)" "findOrderById (emit E s2) i = findOrderById s2 i"
    "findReservationByOrderId (emit E s2) i = findReservationByOrderId s2 i"
    "findWalletByUserId (emit E s2) u = findWalletByUserId s2 u" for E i u
    using b2 by (auto intro: books_cong simp: findReservationByOrderId_def findWalletByUserId_def)
  moreover obtain E where "handleOrderExecuted R' (\<lambda>_. s1) ev = (Inr (), emit E s2)"
    using handleOrderExecuted_once [OF s2(1)] by blast
  ultimately show ?thesis
    using e(1,2,12) by (intro exI [of _ s1] exI [of _ "emit E s2"] exI [of _ ev]) (cases "o_side x", simp_all)
qed

section \<open>Properties\<close>

text \<open>C2. What becomes of an executed order.  When a broker executes a queued order of the retail range
  (whole shares, below ten million with fees, fees within a sale's proceeds and no half-way case of
  four places) through an adapter that fills at once, the order becomes \<open>FILLED\<close> at the execution
  price and one event is emitted.  If the cost at that price is within the buyer's balance, or the
  seller has the shares, the settlement handler succeeds at the first attempt, the order ends
  \<open>SETTLED\<close>, no hold is left on it, the wallet has moved by exactly the cash leg and the books
  balance.  Otherwise, whatever hold the order has, the handler fails, changes nothing and the
  order stays \<open>FILLED\<close>.\<close>

theorem executed_order_settles:
  assumes "numeric_runtime R" and "numeric_runtime R'" and "instant_fill ad" and "books_ok s" and "solvent s"
    and "findOrderById s oid = Some x" and "o_status x = SUBMITTED" and "execution_price s x = Some p"
    and "execution_in_range R s x p"
    and "findWalletByUserId s (o_userId x) = Some w"
    and "findTransactionByIdempotencyKey s (w_id w) (settle_key (db_uid s)) = None"
    and "db_uid s \<notin> sr_tradeId ` set (db_settlements s)"
    and "held = (case findUserHolding s (o_userId x) (o_stockId x) of None \<Rightarrow> 0 | Some h \<Rightarrow> h_quantity h)"
    and "0 \<le> held"
  shows "\<exists>s1 s2 ev res. executeQueuedOrder R ad s oid = (Inr (Executed FILLED (db_uid s) (execution_fees R s x p)), s1) \<and>
     db_outbox s1 = db_outbox s @ [OrderExecuted ev] \<and>
     handleOrderExecuted R' (\<lambda>_. s1) ev = (res, s2) \<and>
     (if (if o_side x = BUY then totalCost (execution_fees R s x p) \<le> w_balance w else o_quantity x \<le> held)
      then res = Inr () \<and> map_option o_status (findOrderById s2 oid) = Some SETTLED \<and>
        (o_side x = SELL \<or> findReservationByOrderId s2 oid = None) \<and>
        map_option w_balance (findWalletByUserId s2 (o_userId x)) =
          Some (w_balance w + settle_change R' (o_side x) (p * o_quantity x) (totalFees (execution_fees R s x p))) \<and>
        books_ok s2
      else (\<exists>m. res = Inl (PlainError m)) \<and> s2 = s1 \<and> map_option o_status (findOrderById s1 oid) = Some FILLED)"
proof (cases "if o_side x = BUY then totalCost (execution_fees R s x p) \<le> w_balance w else o_quantity x \<le> held")
  case True
  from covered_order_settles [OF assms True] show ?thesis unfolding if_P [OF True] by blast
next
  case False
  from instant_fill.execution_emits [OF assms(3,1,6-9)] obtain s1 ev z where
    e: "executeQueuedOrder R ad s oid = (Inr (Executed FILLED (ev_tradeId ev) (execution_fees R s x p)), s1)"
      "db_outbox s1 = db_outbox s @ [OrderExecuted ev]"
      "ev_userId ev = o_userId x" "ev_stockId ev = o_stockId x" "ev_side ev = o_side x"
      "ev_quantity ev = o_quantity x" "ev_totalCost ev = totalCost (execution_fees R s x p)" "ev_tradeId ev = db_uid s"
    and fr: "settle_tables_eq s s1" and z: "findOrderById s1 oid = Some z" "o_status z = FILLED"
    by blast
  have t: "db_wallets s1 = db_wallets s" "db_transactions s1 = db_transactions s" "db_holdings s1 = db_holdings s"
    using fr by (simp_all add: settle_tables_eq_def)
  note find = findWalletByUserId_def findTransactionByIdempotencyKey_def findUserHolding_def
  have "\<exists>m. handleOrderExecuted R' (\<lambda>_. s1) ev = (Inl (PlainError m), s1)"
    by (rule settle_refuses [OF assms(2), where w = w and held = held]) (use False assms(10,11,13) e t in \<open>simp_all add: find split: if_splits\<close>)
  then obtain m where "handleOrderExecuted R' (\<lambda>_. s1) ev = (Inl (PlainError m), s1)" by blast
  moreover have "map_option o_status (findOrderById s1 oid) = Some FILLED" using z by simp
  ultimately show ?thesis using e(1,2,8) unfolding if_not_P [OF False] by metis
qed

lemma exchange1_range:
  "\<exists>x. findOrderById exchange1 103 = Some x \<and> o_status x = SUBMITTED \<and> o_userId x = 1 \<and> o_side x = BUY \<and> o_quantity x = 10 \<and>
     execution_price exchange1 x = Some 10 \<and> totalCost (execution_fees (pg_runtime 11) exchange1 x 10) = 3001 / 5 \<and>
     totalFees (execution_fees (pg_runtime 11) exchange1 x 10) = 2501 / 5 \<and>
     execution_in_range (pg_runtime 11) exchange1 x 10"
proof -
  have 1: "map_option (\<lambda>x. (o_status x, o_userId x, o_side x, o_quantity x, execution_price exchange1 x))
      (findOrderById exchange1 103) = Some (SUBMITTED, 1, BUY, 10, Some 10)" by code_simp
  then obtain x where x: "findOrderById exchange1 103 = Some x" "o_status x = SUBMITTED" "o_userId x = 1" "o_side x = BUY"
    "o_quantity x = 10" "execution_price exchange1 x = Some 10" by auto
  have 2: "totalCost (fst (tradingFeesFor (pg_runtime 11) exchange1 1 10 10 BUY)) = 3001 / 5"
    "totalFees (fst (tradingFeesFor (pg_runtime 11) exchange1 1 10 10 BUY)) = 2501 / 5" by code_simp+
  have 3: "commissionTiers (fst (feePolicyForUser (pg_runtime 11) exchange1 1)) = DEFAULT_COMMISSION_TIERS"
    "statutoryLevies (fst (feePolicyForUser (pg_runtime 11) exchange1 1)) = DEFAULT_STATUTORY_LEVIES" by code_simp+
  have l: "levies_ok DEFAULT_STATUTORY_LEVIES"
    by (simp add: levies_ok_def pct_ok_def DEFAULT_STATUTORY_LEVIES_def places_def)
  have p: "places 4 (2501 / 5)" by (rule placesI [where n = 5002000]) simp
  have "execution_in_range (pg_runtime 11) exchange1 x 10"
    using l default_tier_ok
    by (simp add: 2 3 execution_in_range_def x execution_fees_def trade_policy_ok_def trade_in_range_def tie4_def p
        Let_def del: One_nat_def)
  with x 2 show ?thesis by (simp add: execution_fees_def)
qed

lemma exchange1_books: "books_ok exchange1"
proof -
  have "books_ok exchange0" using bank1_books by (rule books_cong [rotated -1]) (simp_all add: exchange0_def)
  then show ?thesis unfolding exchange1_def by (rule submitOrder_books)
qed

theorem executed_order_settles_witness:
  "\<exists>s1 s2 ev r. executeQueuedOrder (pg_runtime 11) (sandbox_submitOrder ''1'') exchange1 103 = (Inr r, s1) \<and>
     handleOrderExecuted (pg_runtime 12) (\<lambda>_. s1) ev = (Inr (), s2) \<and>
     map_option o_status (findOrderById s2 103) = Some SETTLED \<and>
     map_option w_balance (findWalletByUserId s2 1) = Some (1874 / 5)"
proof -
  obtain x where x: "findOrderById exchange1 103 = Some x" "o_status x = SUBMITTED" "o_userId x = 1" "o_side x = BUY"
    "o_quantity x = 10" "execution_price exchange1 x = Some 10"
    "totalCost (execution_fees (pg_runtime 11) exchange1 x 10) = 3001 / 5"
    "totalFees (execution_fees (pg_runtime 11) exchange1 x 10) = 2501 / 5"
    "execution_in_range (pg_runtime 11) exchange1 x 10"
    using exchange1_range by blast
  have "map_option (\<lambda>w. (w_balance w, w_id w)) (findWalletByUserId exchange1 1) = Some (975, 2)" by code_simp
  then obtain w where w: "findWalletByUserId exchange1 1 = Some w" "w_balance w = 975" "w_id w = 2" by auto
  have f: "findTransactionByIdempotencyKey exchange1 2 (settle_key (db_uid exchange1)) = None" by code_simp
  have g: "db_uid exchange1 \<notin> sr_tradeId ` set (db_settlements exchange1)" by code_simp
  have sol: "solvent exchange1" unfolding solvent_def by code_simp
  have h: "findUserHolding exchange1 1 (o_stockId x) = None"
  proof -
    have "db_holdings exchange1 = []" by code_simp
    then show ?thesis by (simp add: findUserHolding_def)
  qed
  have c: "settle_change (pg_runtime 12) BUY 100 (2501 / 5) = - (3001 / 5)" by code_simp
  from executed_order_settles [OF pg.numeric_runtime_axioms [of 11] pg.numeric_runtime_axioms [of 12]
      sandbox.instant_fill_axioms [of "''1''"] exchange1_books sol x(1,2,6,9), of w 0] w f g h
  show ?thesis unfolding x(3,4,5,7,8) by (simp add: c w) blast
qed

text \<open>The other outcome, from the same submission: the price rises from 10 to 60 before the broker executes.
  The hold of 600.2 is in place, but the trade now costs 1101.2 of a balance of 975.\<close>

definition exchange1_dear :: db where
  "exchange1_dear = exchange1\<lparr>db_prices := [\<lparr>p_stockId = 60, p_closePrice = 60, p_tradedAt = 0\<rparr>]\<rparr>"

lemma price_rise_strands_order:
  "(case executeQueuedOrder (pg_runtime 11) (sandbox_submitOrder ''1'') exchange1_dear 103 of
      (Inr _, s1) \<Rightarrow>
        (case last (db_outbox s1) of
           OrderExecuted ev \<Rightarrow>
             (case handleOrderExecuted (pg_runtime 12) (\<lambda>_. s1) ev of
                (Inl _, s2) \<Rightarrow> map o_status (db_orders s2) = [FILLED] \<and> map r_amount (db_reservations s2) = [3001 / 5] \<and>
                  ev_totalCost ev = 5506 / 5
              | _ \<Rightarrow> False)
         | _ \<Rightarrow> False)
    | _ \<Rightarrow> False)"
  by code_simp

end
