(* ===== verification/Treasury.thy ===== *)
theory Treasury
  imports Orders
begin

text \<open>
  \<^verbatim>\<open>src/modules/treasury/services/treasury.service.ts\<close>: treasury bill products, the investment that
  places a hold on its principal, simple-interest returns and the product administration.  Dates
  the service prints are the dates themselves, amounts printed with two decimals are the rounded
  numbers.
\<close>

section \<open>Views\<close>

record ProductView =
  pv_id :: uuid
  pv_label :: string
  pv_duration :: int
  pv_yieldPct :: rat
  pv_minInvestment :: rat
  pv_maxInvestment :: "rat option"
  pv_riskLevel :: string
  pv_auctionDate :: "timestamp option"
  pv_issueDate :: "timestamp option"
  pv_maturityDate :: "timestamp option"
  pv_status :: string
  pv_currency :: string
  pv_isActive :: bool

definition formatProduct :: "runtime \<Rightarrow> treasury_product \<Rightarrow> ProductView" where
  "formatProduct R p =
     \<lparr>pv_id = tp_id p, pv_label = tp_label p, pv_duration = tp_tenorDays p,
      pv_yieldPct = js R (tp_yieldPercent p), pv_minInvestment = js R (tp_minAmount p),
      pv_maxInvestment = map_option (js R) (tp_maxAmount p), pv_riskLevel = tp_riskLevel p,
      pv_auctionDate = tp_auctionDate p, pv_issueDate = tp_issueDate p, pv_maturityDate = tp_maturityDate p,
      pv_status = tp_status p, pv_currency = tp_currency p, pv_isActive = tp_isActive p\<rparr>"

record InvestmentView =
  iv_investmentId :: uuid
  iv_status :: investment_status
  iv_amount :: rat
  iv_yieldPercent :: rat
  iv_earnings :: rat
  iv_maturityValue :: rat
  iv_maturityDate :: timestamp
  iv_createdAt :: timestamp
  iv_product :: "ProductView option"

definition findProduct :: "db \<Rightarrow> uuid \<Rightarrow> treasury_product option" where
  "findProduct s i = List.find (\<lambda>p. tp_id p = i) (db_products s)"

definition formatInvestment :: "runtime \<Rightarrow> db \<Rightarrow> treasury_investment \<Rightarrow> InvestmentView" where
  "formatInvestment R s i =
     \<lparr>iv_investmentId = ti_id i, iv_status = ti_status i, iv_amount = half_away 2 (ti_amount i),
      iv_yieldPercent = js R (ti_yieldPercent i), iv_earnings = half_away 2 (ti_earnings i),
      iv_maturityValue = half_away 2 (ti_maturityValue i), iv_maturityDate = ti_maturityDate i,
      iv_createdAt = ti_createdAt i,
      iv_product = map_option (formatProduct R) (findProduct s (ti_productId i))\<rparr>"

section \<open>Queries\<close>

definition getProducts :: "runtime \<Rightarrow> db \<Rightarrow> ProductView list" where
  "getProducts R s = map (formatProduct R) (sort_key tp_tenorDays (filter tp_isActive (db_products s)))"

definition getUserInvestments :: "runtime \<Rightarrow> db \<Rightarrow> uuid \<Rightarrow> InvestmentView list" where
  "getUserInvestments R s u =
     map (formatInvestment R s) (sort_key (\<lambda>i. - ti_createdAt i) (filter (\<lambda>i. ti_userId i = u) (db_investments s)))"

definition getInvestmentById :: "runtime \<Rightarrow> db \<Rightarrow> uuid \<Rightarrow> uuid \<Rightarrow> err + InvestmentView" where
  "getInvestmentById R s u i =
     (case List.find (\<lambda>x. ti_id x = i \<and> ti_userId x = u) (db_investments s) of
        None \<Rightarrow> Inl (NotFound (Msg ''Investment not found''))
      | Some x \<Rightarrow> Inr (formatInvestment R s x))"

text \<open>Two sort keys are two stable sorts.\<close>

definition listAllProducts :: "runtime \<Rightarrow> db \<Rightarrow> ProductView list" where
  "listAllProducts R s =
     map (formatProduct R)
       (sort_key (\<lambda>p. if tp_isActive p then 0 else 1 :: int) (sort_key tp_tenorDays (db_products s)))"

definition listAllInvestments :: "runtime \<Rightarrow> db \<Rightarrow> (InvestmentView \<times> uuid option) list" where
  "listAllInvestments R s =
     map (\<lambda>i. (formatInvestment R s i, map_option u_id (findUser s (ti_userId i))))
       (take 200 (sort_key (\<lambda>i. - ti_createdAt i) (db_investments s)))"

section \<open>Investing\<close>

text \<open>
  \<open>setDate(getDate() + tenorDays)\<close> moves the clock by whole days (the host's zone has no daylight
  saving) and the column keeps the date only.
\<close>

definition calculateReturns :: "runtime \<Rightarrow> rat \<Rightarrow> rat \<Rightarrow> int \<Rightarrow> rat \<times> rat \<times> timestamp" where
  "calculateReturns R amt yieldPercent tenorDays =
     (let rate = ddiv R yieldPercent 100;
          fraction = ddiv R (of_int tenorDays) 365;
          earnings = dmul R (dmul R amt rate) fraction;
          maturityValue = dadd R amt earnings
      in (earnings, maturityValue, now R + tenorDays * 86400000))"

definition invest :: "runtime \<Rightarrow> db \<Rightarrow> uuid \<Rightarrow> uuid \<Rightarrow> rat \<Rightarrow> err + db \<times> InvestmentView" where
  "invest R s u productId amt =
     (case List.find (\<lambda>p. tp_id p = productId \<and> tp_isActive p) (db_products s) of
        None \<Rightarrow> Inl (NotFound (Msg ''Treasury product not found or no longer available''))
      | Some p \<Rightarrow>
          if amt \<le> 0 then Inl (BadRequest (Msg ''Investment amount must be a positive number''))
          else if amt < tp_minAmount p then Inl (BadRequest (LimitMsg (tp_minAmount p) amt))
          else if (case tp_maxAmount p of None \<Rightarrow> False | Some m \<Rightarrow> amt > m)
          then Inl (BadRequest (LimitMsg (the (tp_maxAmount p)) amt))
          else
            let (earnings, maturityValue, maturityDate) =
                  calculateReturns R amt (tp_yieldPercent p) (tp_tenorDays p)
            in case findWalletByUserId s u of
                 None \<Rightarrow> Inl (BadRequest (Msg ''No wallet found. Fund your wallet before investing.''))
               | Some w \<Rightarrow>
                   if w_isFrozen w then Inl (BadRequest (FrozenMsg (w_frozenReason w)))
                   else
                     let available = dsub R (w_balance w) (sumActiveReservations s (w_id w))
                     in if available < amt then Inl (BadRequest (InsufficientMsg (js R available) (js R amt)))
                        else
                          let created = \<lparr>ti_id = db_uid s, ti_userId = u, ti_productId = productId,
                                ti_status = INV_PENDING, ti_amount = num4 R amt,
                                ti_yieldPercent = tp_yieldPercent p, ti_earnings = num4 R earnings,
                                ti_maturityValue = num4 R maturityValue,
                                ti_maturityDate = date_only maturityDate, ti_createdAt = now R\<rparr>;
                              s1 = s\<lparr>db_uid := Suc (db_uid s), db_investments := db_investments s @ [created]\<rparr>;
                              (i, s2) = createReservation R s1 (w_id w) (Some (ti_id created)) amt None
                          in Inr (s2, formatInvestment R s2 created))"

section \<open>Product administration\<close>

record product_dto =
  pd_label :: string
  pd_tenorDays :: int
  pd_yieldPercent :: rat
  pd_minAmount :: rat
  pd_maxAmount :: "rat option"
  pd_riskLevel :: "string option"
  pd_auctionDate :: "timestamp option"
  pd_issueDate :: "timestamp option"
  pd_maturityDate :: "timestamp option"
  pd_status :: "string option"
  pd_isActive :: "bool option"
  pd_currency :: "string option"

definition createProduct :: "runtime \<Rightarrow> db \<Rightarrow> product_dto \<Rightarrow> db \<times> ProductView" where
  "createProduct R s d =
     (let p = \<lparr>tp_id = db_uid s, tp_label = pd_label d, tp_tenorDays = pd_tenorDays d,
            tp_yieldPercent = num4 R (pd_yieldPercent d), tp_minAmount = num4 R (pd_minAmount d),
            tp_maxAmount = map_option (num4 R) (pd_maxAmount d),
            tp_currency = (case pd_currency d of Some c \<Rightarrow> c | None \<Rightarrow> ''MWK''),
            tp_riskLevel = (case pd_riskLevel d of Some r \<Rightarrow> r | None \<Rightarrow> ''Low''),
            tp_auctionDate = map_option date_only (pd_auctionDate d),
            tp_issueDate = map_option date_only (pd_issueDate d),
            tp_maturityDate = map_option date_only (pd_maturityDate d),
            tp_status = (case pd_status d of Some x \<Rightarrow> x | None \<Rightarrow> ''open''),
            tp_isActive = (case pd_isActive d of Some b \<Rightarrow> b | None \<Rightarrow> True)\<rparr>
      in (s\<lparr>db_uid := Suc (db_uid s), db_products := db_products s @ [p]\<rparr>, formatProduct R p))"

text \<open>A patch: absent fields keep the column, a nullable column may be set to null.\<close>

record product_patch =
  pp_label :: "string option"
  pp_tenorDays :: "int option"
  pp_yieldPercent :: "rat option"
  pp_minAmount :: "rat option"
  pp_maxAmount :: "rat option option"
  pp_riskLevel :: "string option"
  pp_auctionDate :: "timestamp option option"
  pp_issueDate :: "timestamp option option"
  pp_maturityDate :: "timestamp option option"
  pp_status :: "string option"
  pp_isActive :: "bool option"
  pp_currency :: "string option"

definition patched :: "'a option \<Rightarrow> 'a \<Rightarrow> 'a" where
  "patched v old = (case v of Some x \<Rightarrow> x | None \<Rightarrow> old)"

definition apply_patch :: "runtime \<Rightarrow> product_patch \<Rightarrow> treasury_product \<Rightarrow> treasury_product" where
  "apply_patch R d p =
     p\<lparr>tp_label := patched (pp_label d) (tp_label p), tp_tenorDays := patched (pp_tenorDays d) (tp_tenorDays p),
       tp_yieldPercent := patched (map_option (num4 R) (pp_yieldPercent d)) (tp_yieldPercent p),
       tp_minAmount := patched (map_option (num4 R) (pp_minAmount d)) (tp_minAmount p),
       tp_maxAmount := patched (map_option (map_option (num4 R)) (pp_maxAmount d)) (tp_maxAmount p),
       tp_riskLevel := patched (pp_riskLevel d) (tp_riskLevel p),
       tp_auctionDate := patched (map_option (map_option date_only) (pp_auctionDate d)) (tp_auctionDate p),
       tp_issueDate := patched (map_option (map_option date_only) (pp_issueDate d)) (tp_issueDate p),
       tp_maturityDate := patched (map_option (map_option date_only) (pp_maturityDate d)) (tp_maturityDate p),
       tp_status := patched (pp_status d) (tp_status p), tp_isActive := patched (pp_isActive d) (tp_isActive p),
       tp_currency := patched (pp_currency d) (tp_currency p)\<rparr>"

definition updateProduct :: "runtime \<Rightarrow> db \<Rightarrow> uuid \<Rightarrow> product_patch \<Rightarrow> err + db \<times> ProductView" where
  "updateProduct R s i d =
     (case findProduct s i of
        None \<Rightarrow> Inl (PlainError (Msg ''Treasury product not found''))
      | Some p \<Rightarrow> Inr (s\<lparr>db_products := upd_where (\<lambda>x. tp_id x = i) (apply_patch R d) (db_products s)\<rparr>,
          formatProduct R (apply_patch R d p)))"

definition deleteProduct :: "db \<Rightarrow> uuid \<Rightarrow> err + db \<times> bool" where
  "deleteProduct s i =
     (if findProduct s i = None then Inl (PrismaError ''P2025'')
      else if filter (\<lambda>x. ti_productId x = i) (db_investments s) \<noteq> []
      then Inr (s\<lparr>db_products := upd_where (\<lambda>p. tp_id p = i)
             (\<lambda>p. p\<lparr>tp_isActive := False, tp_status := ''closed''\<rparr>) (db_products s)\<rparr>, True)
      else Inr (s\<lparr>db_products := filter (\<lambda>p. tp_id p \<noteq> i) (db_products s)\<rparr>, False))"

section \<open>Library\<close>

text \<open>Product ids are distinct and every investment refers to a product that exists.\<close>

definition treasury_ok :: "db \<Rightarrow> bool" where
  "treasury_ok s \<longleftrightarrow>
     distinct (map tp_id (db_products s)) \<and> (\<forall>p \<in> set (db_products s). tp_id p < db_uid s) \<and>
     (\<forall>i \<in> set (db_investments s). ti_productId i \<in> tp_id ` set (db_products s))"

lemma invest_Inr:
  assumes "invest R s u pid amt = Inr (s', v)"
  obtains p w where "p \<in> set (db_products s)" "tp_id p = pid" "tp_isActive p" "0 < amt" "tp_minAmount p \<le> amt"
    "\<And>m. tp_maxAmount p = Some m \<Longrightarrow> amt \<le> m" "findWalletByUserId s u = Some w" "\<not> w_isFrozen w"
    "\<not> dsub R (w_balance w) (sumActiveReservations s (w_id w)) < amt"
    "db_investments s' = db_investments s @ [\<lparr>ti_id = db_uid s, ti_userId = u, ti_productId = pid,
       ti_status = INV_PENDING, ti_amount = num4 R amt, ti_yieldPercent = tp_yieldPercent p,
       ti_earnings = num4 R (fst (calculateReturns R amt (tp_yieldPercent p) (tp_tenorDays p))),
       ti_maturityValue = num4 R (fst (snd (calculateReturns R amt (tp_yieldPercent p) (tp_tenorDays p)))),
       ti_maturityDate = date_only (snd (snd (calculateReturns R amt (tp_yieldPercent p) (tp_tenorDays p)))),
       ti_createdAt = now R\<rparr>]"
    "db_reservations s' = db_reservations s @ [\<lparr>r_id = Suc (db_uid s), r_walletId = w_id w, r_orderId = Some (db_uid s),
       r_amount = num4 R amt, r_status = ACTIVE, r_expiresAt = None, r_releasedAt = None, r_consumedAt = None\<rparr>]"
    "db_products s' = db_products s" "money_eq s s'"
proof -
  from assms obtain p w where *: "List.find (\<lambda>p. tp_id p = pid \<and> tp_isActive p) (db_products s) = Some p"
      "\<not> amt \<le> 0" "\<not> amt < tp_minAmount p" "\<not> (case tp_maxAmount p of None \<Rightarrow> False | Some m \<Rightarrow> amt > m)"
      "findWalletByUserId s u = Some w" "\<not> w_isFrozen w"
      "\<not> dsub R (w_balance w) (sumActiveReservations s (w_id w)) < amt"
    by (auto simp: invest_def Let_def split_beta split: option.splits if_splits)
  have p: "p \<in> set (db_products s)" "tp_id p = pid" "tp_isActive p"
    using *(1) by (auto simp: find_Some_iff)
  show thesis
    by (rule that [of p w])
      (use p * assms in \<open>auto simp: invest_def Let_def split_beta createReservation_def money_eq_def\<close>)
qed

lemma ids_upd_where:
  assumes "\<And>x. k (f x) = k x"
  shows "map k (upd_where P f xs) = map k xs" and "k ` set (upd_where P f xs) = k ` set xs"
proof -
  show m: "map k (upd_where P f xs) = map k xs" by (rule map_upd_where) (rule assms)
  show "k ` set (upd_where P f xs) = k ` set xs" using arg_cong [OF m, of set] by simp
qed

lemma treasury_ok_update:
  assumes "treasury_ok s" and "\<And>p. tp_id (f p) = tp_id p"
  shows "treasury_ok (s\<lparr>db_products := upd_where P f (db_products s)\<rparr>)"
proof -
  note ids = ids_upd_where [of tp_id f P "db_products s", OF assms(2)]
  have "tp_id p < db_uid s" if "p \<in> set (upd_where P f (db_products s))" for p
  proof -
    have "tp_id p \<in> tp_id ` set (db_products s)" using that ids(2) by blast
    then show ?thesis using assms(1) by (auto simp: treasury_ok_def)
  qed
  then show ?thesis using assms(1) by (simp add: treasury_ok_def ids)
qed

lemma simple_interest_mono:
  assumes "numeric_runtime R" and "0 \<le> y" and "0 \<le> d" and "a \<le> b"
  shows "dmul R (dmul R a (ddiv R y 100)) (ddiv R (of_int d) 365) \<le> dmul R (dmul R b (ddiv R y 100)) (ddiv R (of_int d) 365)"
proof -
  have n: "0 \<le> ddiv R y 100" "0 \<le> ddiv R (of_int d) 365"
    using assms(2,3) by (simp_all add: runtime_nonneg [OF assms(1)])
  show ?thesis unfolding dmul_def
    using n assms(4) by (intro numeric_runtime.rnd_mono [OF assms(1)] mult_right_mono)
qed

section \<open>Sample\<close>

definition sample_bill :: treasury_product where
  "sample_bill = \<lparr>tp_id = 90, tp_label = ''364 days'', tp_tenorDays = 365, tp_yieldPercent = 26, tp_minAmount = 100,
     tp_maxAmount = None, tp_currency = ''MWK'', tp_riskLevel = ''Low'', tp_auctionDate = None, tp_issueDate = None,
     tp_maturityDate = None, tp_status = ''open'', tp_isActive = True\<rparr>"

definition treasury0 :: db where
  "treasury0 = bank1\<lparr>db_products := [sample_bill]\<rparr>"

lemma treasury0_books: "books_ok treasury0"
  using bank1_books by (rule books_cong [rotated -1]) (simp_all add: treasury0_def)

section \<open>Properties\<close>

text \<open>C14. An investment holds its principal: it succeeds only for an active product, within the product's
  limits, from an unfrozen wallet; it moves no money but adds a hold of exactly the principal, all
  holds together stay within the balance, and the sweep of stale holds that runs every fifteen minutes never releases it.\<close>

theorem invest_holds_principal:
  assumes "numeric_runtime R" and "books_ok s" and "holds_ok s" and "findWalletByUserId s u = Some w"
    and "small_wallet s w" and "invest R s u pid amt = Inr (s', v)"
  shows "(\<exists>p \<in> set (db_products s). tp_id p = pid \<and> tp_isActive p \<and> tp_minAmount p \<le> amt \<and>
       (case tp_maxAmount p of None \<Rightarrow> True | Some m \<Rightarrow> amt \<le> m)) \<and>
     \<not> w_isFrozen w \<and> money_eq s s' \<and>
     sumActiveReservations s' (w_id w) = sumActiveReservations s (w_id w) + num4 R amt \<and>
     sumActiveReservations s' (w_id w) \<le> w_balance w \<and>
     (\<exists>r. r \<in> set (db_reservations (expireStaleReservations R' s')) \<and> r_orderId r = Some (iv_investmentId v) \<and>
        r_status r = ACTIVE \<and> r_amount r = num4 R amt)"
  using assms(6)
proof (rule invest_Inr)
  fix p x
  assume p: "p \<in> set (db_products s)" "tp_id p = pid" "tp_isActive p" "tp_minAmount p \<le> amt"
      "\<And>m. tp_maxAmount p = Some m \<Longrightarrow> amt \<le> m"
    and x: "findWalletByUserId s u = Some x" "\<not> w_isFrozen x"
      "\<not> dsub R (w_balance x) (sumActiveReservations s (w_id x)) < amt"
    and rs: "db_reservations s' = db_reservations s @ [\<lparr>r_id = Suc (db_uid s), r_walletId = w_id x, r_orderId = Some (db_uid s),
       r_amount = num4 R amt, r_status = ACTIVE, r_expiresAt = None, r_releasedAt = None, r_consumedAt = None\<rparr>]"
    and m: "money_eq s s'"
  have xw: "x = w" using x(1) assms(4) by simp
  have win: "w \<in> set (db_wallets s)" using findWalletByUserId_Some [OF assms(4)] by simp
  note ex = available_reserve_exact [OF assms(1-3) win assms(5)]
  have sum: "sumActiveReservations s' (w_id w) = sumActiveReservations s (w_id w) + num4 R amt"
    by (simp add: rs xw sumActiveReservations_def active_of_def table_simps)
  have "num4 R amt \<le> num4 R (w_balance w - sumActiveReservations s (w_id w))"
    using x(3) xw ex(1) by (intro numeric_runtime.num4_mono [OF assms(1)]) simp
  then have le: "sumActiveReservations s' (w_id w) \<le> w_balance w"
    using numeric_runtime.num4_exact [OF assms(1) ex(2)] sum by simp
  have v: "iv_investmentId v = db_uid s"
    using assms(6) by (auto simp: invest_def Let_def split_beta formatInvestment_def createReservation_def
        split: option.splits if_splits)
  have "\<exists>r \<in> set (db_reservations (expireStaleReservations R' s')). r_orderId r = Some (iv_investmentId v) \<and>
        r_status r = ACTIVE \<and> r_amount r = num4 R amt"
    by (simp add: expireStaleReservations_def expireReservations_def rs v upd_where_def stale_def)
  then show ?thesis using p x(2) xw m sum le by (auto split: option.split)
qed

theorem invest_holds_principal_witness:
  "\<exists>s' v. invest (pg_runtime 6) treasury0 1 90 900 = Inr (s', v) \<and> sumActiveReservations s' 2 = 900"
proof -
  have f: "map_option (\<lambda>w. (w_id w, w_balance w)) (findWalletByUserId treasury0 1) = Some (2, 975)" by code_simp
  then obtain w where w: "findWalletByUserId treasury0 1 = Some w" and b: "w_balance w = 975" "w_id w = 2" by auto
  have z: "sumActiveReservations treasury0 2 = 0 \<and>
      sum_where (pending_of 2 WITHDRAWAL) t_amount (db_transactions treasury0) = 0" by code_simp
  have h: "holds_ok treasury0" unfolding holds_ok_def by code_simp
  have sm: "small_wallet treasury0 w" using z by (simp add: small_wallet_def b)
  have "map_sum id (\<lambda>_. ()) (invest (pg_runtime 6) treasury0 1 90 900) = Inr ()" by code_simp
  then obtain s' v where r: "invest (pg_runtime 6) treasury0 1 90 900 = Inr (s', v)"
    by (cases "invest (pg_runtime 6) treasury0 1 90 900") auto
  have n: "num4 (pg_runtime 6) 900 = 900" by code_simp
  from invest_holds_principal [OF pg.numeric_runtime_axioms treasury0_books h w sm r, of "pg_runtime 8"]
    r b z n show ?thesis by auto
qed

text \<open>Treasury returns are sound: earnings are never negative and grow with the principal, the maturity
  value is at least the principal, and over a full year the earnings are exactly the stated yield.\<close>

lemma treasury_returns:
  assumes "numeric_runtime R" and "places 4 a" and "0 \<le> a" and "a \<le> b" and "b \<le> 10 ^ 8" and "places 4 y"
    and "0 \<le> y" and "y \<le> 100" and "0 \<le> d"
  shows "0 \<le> fst (calculateReturns R a y d) \<and> fst (calculateReturns R a y d) \<le> fst (calculateReturns R b y d) \<and>
     a \<le> fst (snd (calculateReturns R a y d)) \<and>
     fst (calculateReturns R a y 365) = a * y / 100 \<and> fst (snd (calculateReturns R a y 365)) = a + a * y / 100"
proof -
  note rt = numeric_runtime.rnd_places [OF assms(1)]
  let ?e = "fst (calculateReturns R a y d)"
  have nn: "0 \<le> ?e" using assms(3,7,9) by (simp add: calculateReturns_def Let_def runtime_nonneg [OF assms(1)])
  have mono: "?e \<le> fst (calculateReturns R b y d)"
    using simple_interest_mono [OF assms(1,7,9,4)] by (simp add: calculateReturns_def Let_def)
  have a: "rnd R a = a" using assms(2-5) by (intro rt [of 4]) (simp_all add: abs_if)
  have "rnd R a \<le> rnd R (a + ?e)" using nn by (intro numeric_runtime.rnd_mono [OF assms(1)]) simp
  then have val: "a \<le> fst (snd (calculateReturns R a y d))"
    unfolding a by (simp add: calculateReturns_def Let_def dadd_def)
  have one: "ddiv R 365 365 = 1" using rt [of 0 1] by (simp add: ddiv_def)
  have y: "places 6 (y / 100)" using places_div100 [of 4 y] assms(6) by simp
  have yr: "ddiv R y 100 = y / 100" unfolding ddiv_def using assms(7,8) by (intro rt [OF y]) (simp add: abs_if)
  have p: "places 10 (a * (y / 100))" using places_mult [OF assms(2) y] by simp
  have "a * (y / 100) \<le> 10 ^ 8 * 1" using assms(3-5,7,8) by (intro mult_mono) simp_all
  moreover have X: "0 \<le> a * (y / 100)" using assms(3,7) by (intro mult_nonneg_nonneg) simp_all
  ultimately have bd: "\<bar>a * (y / 100)\<bar> \<le> 10 ^ 8" by simp
  have e: "rnd R (a * (y / 100)) = a * (y / 100)" using bd by (intro rt [OF p]) simp
  have "places 10 (a + a * (y / 100))" using places_mono [OF assms(2), of 10] p by (intro places_add) simp_all
  moreover have "\<bar>a + a * (y / 100)\<bar> \<le> 2 * 10 ^ 8" using X bd assms(3-5) by simp
  ultimately have m: "rnd R (a + a * (y / 100)) = a + a * (y / 100)" by (intro rt [of 10]) simp_all
  have "fst (calculateReturns R a y 365) = a * y / 100" "fst (snd (calculateReturns R a y 365)) = a + a * y / 100"
    unfolding calculateReturns_def Let_def dmul_def dadd_def fst_conv snd_conv of_int_numeral one yr e mult_1_right m
    by simp_all
  with nn mono val show ?thesis by blast
qed

text \<open>Investment history is never orphaned: investing, creating, patching and deleting a product all keep
  every investment attached to an existing product; deletion leaves the investments as they are,
  archives a product that has any, and no further investment in it is accepted.\<close>

lemma treasury_history_kept:
  assumes "treasury_ok s"
  shows "(\<forall>s' v. invest R s u pid amt = Inr (s', v) \<longrightarrow> treasury_ok s') \<and> treasury_ok (fst (createProduct R s d)) \<and>
     (\<forall>s' v. updateProduct R s i f = Inr (s', v) \<longrightarrow> treasury_ok s') \<and>
     (\<forall>s' archived. deleteProduct s i = Inr (s', archived) \<longrightarrow> treasury_ok s' \<and> db_investments s' = db_investments s \<and>
        archived = (\<exists>x \<in> set (db_investments s). ti_productId x = i) \<and>
        invest R s' u i amt = Inl (NotFound (Msg ''Treasury product not found or no longer available'')))"
proof (intro conjI allI impI)
  fix s' v
  assume "invest R s u pid amt = Inr (s', v)"
  then show "treasury_ok s'"
    by (rule invest_Inr) (use assms in \<open>auto simp: treasury_ok_def money_eq_def intro: less_le_trans\<close>)
next
  show "treasury_ok (fst (createProduct R s d))"
    using assms by (auto simp: createProduct_def treasury_ok_def Let_def)
next
  fix s' v
  assume "updateProduct R s i f = Inr (s', v)"
  then show "treasury_ok s'"
    using treasury_ok_update [OF assms, of "apply_patch R f"]
    by (auto simp: updateProduct_def apply_patch_def split: option.splits)
next
  fix s' archived
  assume d: "deleteProduct s i = Inr (s', archived)"
  have "treasury_ok (s\<lparr>db_products := filter (\<lambda>p. tp_id p \<noteq> i) (db_products s)\<rparr>)"
    if "\<forall>x \<in> set (db_investments s). ti_productId x \<noteq> i"
  proof -
    have "ti_productId x \<in> tp_id ` set (filter (\<lambda>p. tp_id p \<noteq> i) (db_products s))" if x: "x \<in> set (db_investments s)" for x
    proof -
      obtain p where "p \<in> set (db_products s)" "ti_productId x = tp_id p"
        using assms x unfolding treasury_ok_def by blast
      with that x \<open>\<forall>x \<in> set (db_investments s). ti_productId x \<noteq> i\<close> show ?thesis by auto
    qed
    then show ?thesis using assms by (simp add: treasury_ok_def distinct_map_filter)
  qed
  then show "treasury_ok s'"
    using d treasury_ok_update [OF assms, of "\<lambda>p. p\<lparr>tp_isActive := False, tp_status := ''closed''\<rparr>"]
    by (auto simp: deleteProduct_def filter_empty_conv split: if_splits)
  show "db_investments s' = db_investments s"
    using d by (auto simp: deleteProduct_def split: if_splits)
  show "archived = (\<exists>x \<in> set (db_investments s). ti_productId x = i)"
    using d by (auto simp: deleteProduct_def filter_empty_conv split: if_splits)
  have "db_products s' = upd_where (\<lambda>p. tp_id p = i) (\<lambda>p. p\<lparr>tp_isActive := False, tp_status := ''closed''\<rparr>) (db_products s) \<or>
      db_products s' = filter (\<lambda>p. tp_id p \<noteq> i) (db_products s)"
    using d by (auto simp: deleteProduct_def split: if_splits)
  then have "List.find (\<lambda>p. tp_id p = i \<and> tp_isActive p) (db_products s') = None"
    unfolding find_None by (elim disjE) (simp_all add: set_upd_where ball_Un)
  then show "invest R s' u i amt = Inl (NotFound (Msg ''Treasury product not found or no longer available''))"
    by (simp add: invest_def)
qed

section \<open>A principal that is spent twice\<close>

text \<open>
  The availability check of \<open>invest\<close> subtracts the active holds but not the withdrawals already
  requested.  With 975 in the wallet and a withdrawal of 400 pending, an investment of 975 is
  accepted, the withdrawal is then paid out, and a hold of 975 rests on a balance of 575.
\<close>

lemma invest_ignores_pending_withdrawal:
  "case invest (pg_runtime 7) (bank2\<lparr>db_products := [sample_bill]\<rparr>) 1 90 975 of
     Inl _ \<Rightarrow> False
   | Inr (s, _) \<Rightarrow>
       (let s' = snd (processWithdrawal (pg_runtime 8) s 103)
        in map_option w_balance (findWalletByUserId s' 1) = Some 575 \<and> sumActiveReservations s' 2 = 975)"
  by code_simp

end
