(* ===== verification/Dividends.thy ===== *)
theory Dividends
  imports System
begin

text \<open>
  Corporate actions: \<^verbatim>\<open>src/modules/dividends/repositories/corporate-actions.repository.ts\<close>,
  \<^verbatim>\<open>services/dividend.service.ts\<close>, \<^verbatim>\<open>services/distribution-engine.service.ts\<close> and
  \<^verbatim>\<open>services/corporate-actions.service.ts\<close>: the declaration of dividends, their distribution to the
  shareholders, stock splits and bonus issues.

  Each shareholder is served in a database transaction of its own, and other requests run between
  them, so a transaction may be refused by the database.  The argument \<open>out\<close> says how the transaction
  of each user ends; every property holds for all such outcomes.
\<close>

section \<open>Repository\<close>

definition createCorporateAction ::
  "runtime \<Rightarrow> db \<Rightarrow> uuid \<Rightarrow> action_type \<Rightarrow> action_title \<Rightarrow> string option \<Rightarrow> timestamp \<Rightarrow> db \<times> uuid" where
  "createCorporateAction R s sid ty title descr eff =
     (s\<lparr>db_uid := Suc (db_uid s), db_actions := db_actions s @
          [\<lparr>ca_id = db_uid s, ca_stockId = sid, ca_type = ty, ca_title = title, ca_description = descr,
            ca_status = CA_ANNOUNCED, ca_effectiveDate = date_only eff, ca_processedAt = None,
            ca_createdAt = now R\<rparr>]\<rparr>, db_uid s)"

text \<open>An \<open>update\<close> by primary key throws P2025 when the row is gone.  \<open>extra\<close> holds the further columns.\<close>

definition updateCorporateActionStatus ::
  "db \<Rightarrow> uuid \<Rightarrow> action_status \<Rightarrow> (corporate_action \<Rightarrow> corporate_action) \<Rightarrow> err + db" where
  "updateCorporateActionStatus s i st extra =
     (if i \<in> ca_id ` set (db_actions s)
      then Inr (s\<lparr>db_actions := upd_where (\<lambda>a. ca_id a = i) (\<lambda>a. extra (a\<lparr>ca_status := st\<rparr>)) (db_actions s)\<rparr>)
      else Inl (PrismaError ''P2025''))"

definition stock_filter :: "uuid option \<Rightarrow> uuid \<Rightarrow> bool" where
  "stock_filter f sid = (case f of None \<Rightarrow> True | Some i \<Rightarrow> sid = i)"

definition findCorporateActions :: "db \<Rightarrow> uuid option \<Rightarrow> nat \<Rightarrow> nat \<Rightarrow> corporate_action list \<times> nat" where
  "findCorporateActions s f limit offset =
     (let rows = filter (\<lambda>a. stock_filter f (ca_stockId a)) (db_actions s)
      in (page_desc ca_effectiveDate limit offset rows, length rows))"

definition findCorporateActionById :: "db \<Rightarrow> uuid \<Rightarrow> corporate_action option" where
  "findCorporateActionById s i = List.find (\<lambda>a. ca_id a = i) (db_actions s)"

text \<open>The relations included with an action.\<close>

definition action_dividend :: "db \<Rightarrow> uuid \<Rightarrow> dividend option" where
  "action_dividend s i = List.find (\<lambda>d. dv_corporateActionId d = i) (db_dividends s)"

definition action_ratio :: "share_ratio list \<Rightarrow> uuid \<Rightarrow> share_ratio option" where
  "action_ratio rs i = List.find (\<lambda>r. rt_corporateActionId r = i) rs"

text \<open>The tax rate is a \<open>Decimal(5,2)\<close> column: two places, below one thousand.\<close>

definition createDividend ::
  "runtime \<Rightarrow> db \<Rightarrow> uuid \<Rightarrow> uuid \<Rightarrow> rat \<Rightarrow> rat \<Rightarrow> timestamp \<Rightarrow> timestamp \<Rightarrow> timestamp \<Rightarrow> err + db \<times> uuid" where
  "createDividend R s ca sid aps pct ex record pay =
     (if ca \<in> dv_corporateActionId ` set (db_dividends s) then Inl (PrismaError ''P2002'')
      else if \<bar>half_away 2 pct\<bar> \<ge> 1000 then Inl (PrismaError ''P2020'')
      else Inr (s\<lparr>db_uid := Suc (db_uid s), db_dividends := db_dividends s @
          [\<lparr>dv_id = db_uid s, dv_corporateActionId = ca, dv_stockId = sid, dv_amountPerShare = num4 R aps,
            dv_withholdingTaxPct = half_away 2 pct, dv_exDividendDate = date_only ex,
            dv_recordDate = date_only record, dv_paymentDate = date_only pay, dv_status = DV_ANNOUNCED,
            dv_createdAt = now R\<rparr>]\<rparr>, db_uid s))"

definition findDividendById :: "db \<Rightarrow> uuid \<Rightarrow> dividend option" where
  "findDividendById s i = List.find (\<lambda>d. dv_id d = i) (db_dividends s)"

definition findDividends :: "db \<Rightarrow> uuid option \<Rightarrow> nat \<Rightarrow> dividend list" where
  "findDividends s f limit =
     page_desc dv_paymentDate limit 0 (filter (\<lambda>d. stock_filter f (dv_stockId d)) (db_dividends s))"

definition findDividendsDueForPayment :: "db \<Rightarrow> timestamp \<Rightarrow> dividend list" where
  "findDividendsDueForPayment s date =
     filter (\<lambda>d. dv_paymentDate d \<le> date \<and> dv_status d = DV_ANNOUNCED) (db_dividends s)"

definition updateDividendStatus :: "db \<Rightarrow> uuid \<Rightarrow> dividend_status \<Rightarrow> err + db" where
  "updateDividendStatus s i st =
     (if i \<in> dv_id ` set (db_dividends s)
      then Inr (s\<lparr>db_dividends := upd_where (\<lambda>d. dv_id d = i) (\<lambda>d. d\<lparr>dv_status := st\<rparr>) (db_dividends s)\<rparr>)
      else Inl (PrismaError ''P2025''))"

text \<open>One distribution per dividend and user: the unique index refuses a second one.\<close>

definition distributed :: "db \<Rightarrow> uuid \<Rightarrow> uuid \<Rightarrow> bool" where
  "distributed s i u \<longleftrightarrow> (\<exists>x \<in> set (db_distributions s). dd_dividendId x = i \<and> dd_userId x = u)"

definition createDistribution ::
  "runtime \<Rightarrow> db \<Rightarrow> uuid \<Rightarrow> uuid \<Rightarrow> rat \<Rightarrow> rat \<Rightarrow> rat \<Rightarrow> rat \<Rightarrow> err + db \<times> uuid" where
  "createDistribution R s i u quantity gross tax net =
     (if distributed s i u then Inl (PrismaError ''P2002'')
      else Inr (s\<lparr>db_uid := Suc (db_uid s), db_distributions := db_distributions s @
          [\<lparr>dd_id = db_uid s, dd_dividendId = i, dd_userId = u, dd_quantityHeld = num4 R quantity,
            dd_grossAmount = num4 R gross, dd_taxWithheld = num4 R tax, dd_netAmount = num4 R net,
            dd_reinvested = False, dd_status = DV_PROCESSING, dd_processedAt = None, dd_createdAt = now R\<rparr>]\<rparr>,
          db_uid s))"

definition findDistributionsByDividend :: "db \<Rightarrow> uuid \<Rightarrow> dividend_distribution list" where
  "findDistributionsByDividend s i =
     sort_key (\<lambda>x. - dd_grossAmount x) (filter (\<lambda>x. dd_dividendId x = i) (db_distributions s))"

definition findUserDistributions :: "db \<Rightarrow> uuid \<Rightarrow> nat \<Rightarrow> dividend_distribution list" where
  "findUserDistributions s u limit =
     page_desc dd_createdAt limit 0 (filter (\<lambda>x. dd_userId x = u) (db_distributions s))"

definition updateDistributionStatus :: "runtime \<Rightarrow> db \<Rightarrow> uuid \<Rightarrow> dividend_status \<Rightarrow> err + db" where
  "updateDistributionStatus R s i st =
     (if i \<in> dd_id ` set (db_distributions s)
      then Inr (s\<lparr>db_distributions := upd_where (\<lambda>x. dd_id x = i)
             (\<lambda>x. x\<lparr>dd_status := st, dd_processedAt := Some (now R)\<rparr>) (db_distributions s)\<rparr>)
      else Inl (PrismaError ''P2025''))"

text \<open>One split, bonus or rights issue per action.  A rights issue opens and closes; a bonus has a
  record date; a split has its effective date only.\<close>

definition createStockSplit :: "db \<Rightarrow> uuid \<Rightarrow> uuid \<Rightarrow> int \<Rightarrow> int \<Rightarrow> timestamp \<Rightarrow> err + db \<times> uuid" where
  "createStockSplit s ca sid rf rt eff =
     (if action_ratio (db_splits s) ca \<noteq> None then Inl (PrismaError ''P2002'')
      else Inr (s\<lparr>db_uid := Suc (db_uid s), db_splits := db_splits s @
          [\<lparr>rt_id = db_uid s, rt_corporateActionId = ca, rt_stockId = sid, rt_ratioFrom = rf, rt_ratioTo = rt,
            rt_price = None, rt_from = date_only eff, rt_effective = date_only eff\<rparr>]\<rparr>, db_uid s))"

definition createBonusIssue :: "db \<Rightarrow> uuid \<Rightarrow> uuid \<Rightarrow> int \<Rightarrow> int \<Rightarrow> timestamp \<Rightarrow> timestamp \<Rightarrow> err + db \<times> uuid" where
  "createBonusIssue s ca sid rf rt record eff =
     (if action_ratio (db_bonuses s) ca \<noteq> None then Inl (PrismaError ''P2002'')
      else Inr (s\<lparr>db_uid := Suc (db_uid s), db_bonuses := db_bonuses s @
          [\<lparr>rt_id = db_uid s, rt_corporateActionId = ca, rt_stockId = sid, rt_ratioFrom = rf, rt_ratioTo = rt,
            rt_price = None, rt_from = date_only record, rt_effective = date_only eff\<rparr>]\<rparr>, db_uid s))"

definition createRightsIssue ::
  "runtime \<Rightarrow> db \<Rightarrow> uuid \<Rightarrow> uuid \<Rightarrow> int \<Rightarrow> int \<Rightarrow> rat \<Rightarrow> timestamp \<Rightarrow> timestamp \<Rightarrow> err + db \<times> uuid" where
  "createRightsIssue R s ca sid rf rt price opens closes =
     (if action_ratio (db_rights s) ca \<noteq> None then Inl (PrismaError ''P2002'')
      else Inr (s\<lparr>db_uid := Suc (db_uid s), db_rights := db_rights s @
          [\<lparr>rt_id = db_uid s, rt_corporateActionId = ca, rt_stockId = sid, rt_ratioFrom = rf, rt_ratioTo = rt,
            rt_price = Some (num4 R price), rt_from = date_only opens, rt_effective = date_only closes\<rparr>]\<rparr>, db_uid s))"

definition findShareholdersByStock :: "db \<Rightarrow> uuid \<Rightarrow> holding list" where
  "findShareholdersByStock s sid = filter (\<lambda>h. h_stockId h = sid \<and> 0 < h_quantity h) (db_holdings s)"

section \<open>Dividend service\<close>

text \<open>The two rows are written one after the other, outside a transaction.\<close>

definition declareDividend ::
  "runtime \<Rightarrow> db \<Rightarrow> uuid \<Rightarrow> rat \<Rightarrow> rat option \<Rightarrow> timestamp \<Rightarrow> timestamp \<Rightarrow> timestamp \<Rightarrow> (err + uuid \<times> uuid) \<times> db" where
  "declareDividend R s sid aps pct ex record pay =
     (let (s1, ca) = createCorporateAction R s sid CA_DIVIDEND (DividendTitle aps) None pay
      in case createDividend R s1 ca sid aps (case pct of None \<Rightarrow> 0 | Some p \<Rightarrow> p) ex record pay of
           Inl e \<Rightarrow> (Inl e, s1)
         | Inr (s2, i) \<Rightarrow> (Inr (ca, i), s2))"

record DividendView =
  dw_id :: uuid
  dw_stockSymbol :: string
  dw_stockName :: string
  dw_amountPerShare :: rat
  dw_withholdingTaxPct :: "rat option"
  dw_exDividendDate :: timestamp
  dw_recordDate :: "timestamp option"
  dw_paymentDate :: timestamp
  dw_status :: dividend_status
  dw_createdAt :: "timestamp option"

definition stock_label :: "db \<Rightarrow> uuid \<Rightarrow> string \<times> string" where
  "stock_label s sid = (case List.find (\<lambda>x. s_id x = sid) (db_stocks s) of
     None \<Rightarrow> ('''', '''') | Some x \<Rightarrow> (s_symbol x, s_name x))"

definition getDividends :: "runtime \<Rightarrow> db \<Rightarrow> uuid option \<Rightarrow> nat \<Rightarrow> DividendView list" where
  "getDividends R s f limit =
     map (\<lambda>d. \<lparr>dw_id = dv_id d, dw_stockSymbol = fst (stock_label s (dv_stockId d)),
         dw_stockName = snd (stock_label s (dv_stockId d)), dw_amountPerShare = js R (dv_amountPerShare d),
         dw_withholdingTaxPct = None, dw_exDividendDate = dv_exDividendDate d, dw_recordDate = None,
         dw_paymentDate = dv_paymentDate d, dw_status = dv_status d, dw_createdAt = Some (dv_createdAt d)\<rparr>)
       (findDividends s f limit)"

definition getDividendById :: "runtime \<Rightarrow> db \<Rightarrow> uuid \<Rightarrow> err + DividendView" where
  "getDividendById R s i =
     (case findDividendById s i of
        None \<Rightarrow> Inl (NotFound (Msg ''Dividend not found''))
      | Some d \<Rightarrow> Inr \<lparr>dw_id = dv_id d, dw_stockSymbol = fst (stock_label s (dv_stockId d)),
         dw_stockName = snd (stock_label s (dv_stockId d)), dw_amountPerShare = js R (dv_amountPerShare d),
         dw_withholdingTaxPct = Some (js R (dv_withholdingTaxPct d)), dw_exDividendDate = dv_exDividendDate d,
         dw_recordDate = Some (dv_recordDate d), dw_paymentDate = dv_paymentDate d, dw_status = dv_status d,
         dw_createdAt = None\<rparr>)"

definition getDividendsDueForPayment :: "runtime \<Rightarrow> db \<Rightarrow> dividend list" where
  "getDividendsDueForPayment R s = findDividendsDueForPayment s (now R)"

record DistributionView =
  xw_id :: uuid
  xw_stockSymbol :: string
  xw_stockName :: string
  xw_quantityHeld :: rat
  xw_grossAmount :: rat
  xw_taxWithheld :: rat
  xw_netAmount :: rat
  xw_reinvested :: bool
  xw_status :: dividend_status
  xw_paymentDate :: "timestamp option"
  xw_processedAt :: "timestamp option"

definition getUserDividendHistory :: "runtime \<Rightarrow> db \<Rightarrow> uuid \<Rightarrow> nat \<Rightarrow> DistributionView list" where
  "getUserDividendHistory R s u limit =
     map (\<lambda>x. let d = findDividendById s (dd_dividendId x);
                  l = (case d of None \<Rightarrow> ('''', '''') | Some d \<Rightarrow> stock_label s (dv_stockId d))
          in \<lparr>xw_id = dd_id x, xw_stockSymbol = fst l, xw_stockName = snd l,
              xw_quantityHeld = js R (dd_quantityHeld x), xw_grossAmount = js R (dd_grossAmount x),
              xw_taxWithheld = js R (dd_taxWithheld x), xw_netAmount = js R (dd_netAmount x),
              xw_reinvested = dd_reinvested x, xw_status = dd_status x,
              xw_paymentDate = map_option dv_paymentDate d, xw_processedAt = dd_processedAt x\<rparr>)
       (findUserDistributions s u limit)"

section \<open>Distribution engine\<close>

text \<open>
  How the transaction of one user ends: committed, refused at one of its statements (a concurrent
  writer moved the wallet's version), or refused at the commit, after its code has run.
\<close>

datatype tx_end = Committed | Statement_conflict | Commit_conflict

text \<open>\<open>(gross, tax, net)\<close> of a holder.\<close>

definition dividend_figures :: "runtime \<Rightarrow> dividend \<Rightarrow> rat \<Rightarrow> rat \<times> rat \<times> rat" where
  "dividend_figures R d quantity =
     (let gross = dmul R quantity (dv_amountPerShare d);
          tax = dmul R gross (ddiv R (dv_withholdingTaxPct d) 100)
      in (gross, tax, dsub R gross tax))"

abbreviation dividend_net :: "runtime \<Rightarrow> dividend \<Rightarrow> rat \<Rightarrow> rat" where
  "dividend_net R d q \<equiv> snd (snd (dividend_figures R d q))"

definition dividend_legs :: "uuid \<Rightarrow> rat \<Rightarrow> rat \<Rightarrow> leg list" where
  "dividend_legs wid net after =
     [(Some wid, USER_WALLET, CREDIT, net, after), (None, PLATFORM_CASH, DEBIT, net, 0)]"

text \<open>The writes of the transaction: none for a user without a wallet.\<close>

definition credit_dividend :: "runtime \<Rightarrow> db \<Rightarrow> uuid \<Rightarrow> rat \<Rightarrow> err + db" where
  "credit_dividend R s u net =
     (case findWalletByUserId s u of
        None \<Rightarrow> Inr s
      | Some w \<Rightarrow>
          (case insertTransaction R s (w_id w) None DIVIDEND_CREDIT TX_COMPLETED net None None [] (Some (now R)) of
             Inl e \<Rightarrow> Inl e
           | Inr (s1, tid) \<Rightarrow>
               walletIncrement R (post_legs R tid (dividend_legs (w_id w) net (dadd R (w_balance w) net)) s1)
                 (w_id w) (w_version w) net))"

text \<open>
  The totals are counted inside the transaction.  The distribution row is written by the repository's
  own client, not the transaction's: it stays when the transaction is rolled back.
\<close>

type_synonym dividend_totals = "nat \<times> rat \<times> rat"

definition distribute_one ::
  "runtime \<Rightarrow> dividend \<Rightarrow> (uuid \<Rightarrow> tx_end) \<Rightarrow> holding \<Rightarrow> db \<times> dividend_totals \<Rightarrow> db \<times> dividend_totals" where
  "distribute_one R d out h = (\<lambda>(s, n, paid, taxed).
     let u = h_userId h; (gross, tax, net) = dividend_figures R d (h_quantity h)
     in case createDistribution R s (dv_id d) u (h_quantity h) gross tax net of
          Inl _ \<Rightarrow> (s, n, paid, taxed)
        | Inr (s1, _) \<Rightarrow>
            (case credit_dividend R s1 u net of
               Inl _ \<Rightarrow> (s1, n, paid, taxed)
             | Inr s2 \<Rightarrow>
                 (case out u of
                    Committed \<Rightarrow>
                      (emit (DividendPaid u (dv_id d) (dv_stockId d) (js R (h_quantity h)) (js R gross) (js R net)) s2,
                       Suc n, dadd R paid net, dadd R taxed tax)
                  | Statement_conflict \<Rightarrow> (s1, n, paid, taxed)
                  | Commit_conflict \<Rightarrow> (s1, Suc n, dadd R paid net, dadd R taxed tax))))"

text \<open>\<open>if (dividend.corporateAction)\<close>\<close>

definition mark_action ::
  "db \<Rightarrow> uuid \<Rightarrow> action_status \<Rightarrow> (corporate_action \<Rightarrow> corporate_action) \<Rightarrow> err + db" where
  "mark_action s ca st extra =
     (if findCorporateActionById s ca = None then Inr s else updateCorporateActionStatus s ca st extra)"

definition distributeDividend ::
  "runtime \<Rightarrow> (uuid \<Rightarrow> tx_end) \<Rightarrow> db \<Rightarrow> uuid \<Rightarrow> (err + dividend_totals) \<times> db" where
  "distributeDividend R out s i =
     (case findDividendById s i of
        None \<Rightarrow> (Inl (PlainError (Msg ''Dividend not found'')), s)
      | Some d \<Rightarrow>
          (case updateDividendStatus s i DV_PROCESSING of
             Inl e \<Rightarrow> (Inl e, s)
           | Inr s1 \<Rightarrow>
               (case mark_action s1 (dv_corporateActionId d) CA_PROCESSING id of
                  Inl e \<Rightarrow> (Inl e, s1)
                | Inr s2 \<Rightarrow>
                    (let (s3, n, paid, taxed) =
                           fold (distribute_one R d out) (findShareholdersByStock s2 (dv_stockId d)) (s2, 0, 0, 0)
                     in case updateDividendStatus s3 i DV_CREDITED of
                          Inl e \<Rightarrow> (Inl e, s3)
                        | Inr s4 \<Rightarrow>
                            (case mark_action s4 (dv_corporateActionId d) CA_COMPLETED
                                    (\<lambda>a. a\<lparr>ca_processedAt := Some (now R)\<rparr>) of
                               Inl e \<Rightarrow> (Inl e, s4)
                             | Inr s5 \<Rightarrow> (Inr (n, js R paid, js R taxed), s5))))))"

text \<open>
  A split.  Division by a zero ratio gives a value that is not finite, which the update of the
  holding refuses; the failure is caught per holder.
\<close>

definition set_holding :: "db \<Rightarrow> uuid \<Rightarrow> uuid \<Rightarrow> rat \<Rightarrow> rat \<Rightarrow> db" where
  "set_holding s u sid q c =
     s\<lparr>db_holdings := upd_where (holding_at u sid) (\<lambda>h. h\<lparr>h_quantity := q, h_averageCost := c\<rparr>) (db_holdings s)\<rparr>"

definition split_one ::
  "runtime \<Rightarrow> share_ratio \<Rightarrow> (uuid \<Rightarrow> tx_end) \<Rightarrow> holding \<Rightarrow> db \<times> nat \<Rightarrow> db \<times> nat" where
  "split_one R sp out h = (\<lambda>(s, n).
     let u = h_userId h; m = ddiv R (of_int (rt_ratioTo sp)) (of_int (rt_ratioFrom sp));
         newQuantity = dmul R (h_quantity h) m; newAvgCost = ddiv R (h_averageCost h) m
     in if rt_ratioFrom sp = 0 \<or> m = 0 then (s, n)
        else case out u of
          Committed \<Rightarrow>
            (emit (SplitApplied u (rt_stockId sp) (rt_ratioFrom sp) (rt_ratioTo sp) (js R (h_quantity h))
               (js R newQuantity))
               (set_holding s u (rt_stockId sp) (num4 R newQuantity) (num4 R newAvgCost)), Suc n)
        | Statement_conflict \<Rightarrow> (s, n)
        | Commit_conflict \<Rightarrow> (s, Suc n))"

definition applyStockSplit :: "runtime \<Rightarrow> (uuid \<Rightarrow> tx_end) \<Rightarrow> db \<Rightarrow> uuid \<Rightarrow> (err + nat) \<times> db" where
  "applyStockSplit R out s ca =
     (case findCorporateActionById s ca of
        None \<Rightarrow> (Inl (PlainError (Msg ''Stock split not found'')), s)
      | Some _ \<Rightarrow>
          (case action_ratio (db_splits s) ca of
             None \<Rightarrow> (Inl (PlainError (Msg ''Stock split not found'')), s)
           | Some sp \<Rightarrow>
               (case updateCorporateActionStatus s ca CA_PROCESSING id of
                  Inl e \<Rightarrow> (Inl e, s)
                | Inr s1 \<Rightarrow>
                    (let (s2, n) = fold (split_one R sp out) (findShareholdersByStock s1 (rt_stockId sp)) (s1, 0)
                     in case updateCorporateActionStatus s2 ca CA_COMPLETED
                               (\<lambda>a. a\<lparr>ca_processedAt := Some (now R)\<rparr>) of
                          Inl e \<Rightarrow> (Inl e, s2)
                        | Inr s3 \<Rightarrow> (Inr n, s3)))))"

text \<open>Bonus shares: whole shares only; a quotient by zero is infinite and fails in the update.\<close>

definition bonus_shares :: "runtime \<Rightarrow> share_ratio \<Rightarrow> rat \<Rightarrow> int" where
  "bonus_shares R b q = \<lfloor>dmul R (ddiv R q (of_int (rt_ratioFrom b))) (of_int (rt_ratioTo b))\<rfloor>"

definition bonus_one ::
  "runtime \<Rightarrow> share_ratio \<Rightarrow> (uuid \<Rightarrow> tx_end) \<Rightarrow> holding \<Rightarrow> db \<times> nat \<times> rat \<Rightarrow> db \<times> nat \<times> rat" where
  "bonus_one R b out h = (\<lambda>(s, n, total).
     let u = h_userId h; bonus = of_int (bonus_shares R b (h_quantity h));
         newQuantity = dadd R (h_quantity h) bonus;
         newAvgCost = ddiv R (dmul R (h_averageCost h) (h_quantity h)) newQuantity
     in if rt_ratioFrom b = 0 \<or> bonus \<le> 0 then (s, n, total)
        else case out u of
          Committed \<Rightarrow>
            (emit (BonusIssued u (rt_stockId b) (js R bonus) (js R newQuantity))
               (set_holding s u (rt_stockId b) (num4 R newQuantity) (num4 R newAvgCost)), Suc n, dadd R total bonus)
        | Statement_conflict \<Rightarrow> (s, n, total)
        | Commit_conflict \<Rightarrow> (s, Suc n, dadd R total bonus))"

definition distributeBonusShares :: "runtime \<Rightarrow> (uuid \<Rightarrow> tx_end) \<Rightarrow> db \<Rightarrow> uuid \<Rightarrow> (err + nat \<times> rat) \<times> db" where
  "distributeBonusShares R out s ca =
     (case findCorporateActionById s ca of
        None \<Rightarrow> (Inl (PlainError (Msg ''Bonus issue not found'')), s)
      | Some _ \<Rightarrow>
          (case action_ratio (db_bonuses s) ca of
             None \<Rightarrow> (Inl (PlainError (Msg ''Bonus issue not found'')), s)
           | Some b \<Rightarrow>
               (case updateCorporateActionStatus s ca CA_PROCESSING id of
                  Inl e \<Rightarrow> (Inl e, s)
                | Inr s1 \<Rightarrow>
                    (let (s2, n, total) =
                           fold (bonus_one R b out) (findShareholdersByStock s1 (rt_stockId b)) (s1, 0, 0)
                     in case updateCorporateActionStatus s2 ca CA_COMPLETED
                               (\<lambda>a. a\<lparr>ca_processedAt := Some (now R)\<rparr>) of
                          Inl e \<Rightarrow> (Inl e, s2)
                        | Inr s3 \<Rightarrow> (Inr (n, js R total), s3)))))"

text \<open>The daily job: every due dividend in turn; a failure is logged and the next one runs.\<close>

definition processDueDividends :: "runtime \<Rightarrow> (uuid \<Rightarrow> uuid \<Rightarrow> tx_end) \<Rightarrow> db \<Rightarrow> db" where
  "processDueDividends R out s =
     fold (\<lambda>d s. snd (distributeDividend R (out (dv_id d)) s (dv_id d))) (findDividendsDueForPayment s (now R)) s"

section \<open>Corporate actions service\<close>

record ActionView =
  aw_action :: corporate_action
  aw_stockSymbol :: string
  aw_stockName :: string

definition action_view :: "db \<Rightarrow> corporate_action \<Rightarrow> ActionView" where
  "action_view s a = \<lparr>aw_action = a, aw_stockSymbol = fst (stock_label s (ca_stockId a)),
     aw_stockName = snd (stock_label s (ca_stockId a))\<rparr>"

definition getCorporateActions :: "db \<Rightarrow> uuid option \<Rightarrow> nat \<Rightarrow> nat \<Rightarrow> ActionView list \<times> nat" where
  "getCorporateActions s f limit offset =
     (let (rows, total) = findCorporateActions s f limit offset in (map (action_view s) rows, total))"

record ActionDetail = ActionView +
  aw_dividend :: "dividend option"
  aw_stockSplit :: "share_ratio option"
  aw_bonusIssue :: "share_ratio option"
  aw_rightsIssue :: "share_ratio option"

text \<open>The included dividend and rights issue with their decimals as numbers.\<close>

definition getCorporateActionById :: "runtime \<Rightarrow> db \<Rightarrow> uuid \<Rightarrow> err + ActionDetail" where
  "getCorporateActionById R s i =
     (case findCorporateActionById s i of
        None \<Rightarrow> Inl (NotFound (Msg ''Corporate action not found''))
      | Some a \<Rightarrow>
          Inr (ActionView.extend (action_view s a)
            (ActionDetail.fields
              (map_option (\<lambda>d. d\<lparr>dv_amountPerShare := js R (dv_amountPerShare d),
                 dv_withholdingTaxPct := js R (dv_withholdingTaxPct d)\<rparr>) (action_dividend s i))
              (action_ratio (db_splits s) i) (action_ratio (db_bonuses s) i)
              (map_option (\<lambda>r. r\<lparr>rt_price := map_option (js R) (rt_price r)\<rparr>) (action_ratio (db_rights s) i)))))"

section \<open>A credit keeps the books\<close>

interpretation dividend_move: money_movement
  "\<lambda>(R, wid, net, after). R" "\<lambda>(R, wid, net, after). wid"
  "\<lambda>(R, wid, net, after). dividend_legs wid net after" "\<lambda>(R, wid, net, after). num4 R net"
  "\<lambda>(R, wid, net, after). numeric_runtime R"
  by (rule money_movement.intro)
    (auto simp: dividend_legs_def leg_total_def leg_wallet_def tx_total_Cons wallet_ledger_Cons)

text \<open>What a credit writes: it never fails on the state it read, and for a user without a wallet it
  writes nothing.\<close>

lemma credit_dividend_Inr:
  assumes "wallets_ok s"
  obtains s' where "credit_dividend R s u net = Inr s'"
    and "db_wallets s' = upd_where (\<lambda>w. w_userId w = u) (bump R net) (db_wallets s)"
    and "db_holdings s' = db_holdings s" "db_distributions s' = db_distributions s" "db_dividends s' = db_dividends s"
      "db_actions s' = db_actions s" "db_uid s \<le> db_uid s'"
    and "findWalletByUserId s u = None \<longrightarrow> s' = s"
    and "\<forall>w. findWalletByUserId s u = Some w \<longrightarrow>
      (\<exists>t. db_transactions s' = db_transactions s @ [t] \<and> t_id t = db_uid s \<and> t_walletId t = w_id w \<and>
         t_status t = TX_COMPLETED) \<and> db_uid s < db_uid s' \<and>
      db_ledger s' = db_ledger s @ leg_entries R (db_uid s) (Suc (db_uid s))
        (dividend_legs (w_id w) net (dadd R (w_balance w) net))"
proof (cases "findWalletByUserId s u")
  case None
  then have "db_wallets s = upd_where (\<lambda>w. w_userId w = u) (bump R net) (db_wallets s)"
    by (intro upd_where_id [symmetric]) (simp add: findWalletByUserId_None)
  with None show thesis by (intro that [of s]) (simp_all add: credit_dividend_def)
next
  case (Some w)
  then have w: "w \<in> set (db_wallets s)" "w_userId w = u" using findWalletByUserId_Some by blast+
  have same: "upd_where (\<lambda>v. w_id v = w_id w) f (db_wallets s) = upd_where (\<lambda>v. w_userId v = u) f (db_wallets s)" for f
    using assms w unfolding upd_where_def wallets_ok_def distinct_map
    by (auto dest: inj_onD)
  have ex: "\<exists>v \<in> set (db_wallets s). w_id v = w_id w \<and> w_version v = w_version w" using w by blast
  let ?legs = "dividend_legs (w_id w) net (dadd R (w_balance w) net)"
  obtain s1 where s1: "insertTransaction R s (w_id w) None DIVIDEND_CREDIT TX_COMPLETED net None None [] (Some (now R)) =
      Inr (s1, db_uid s)"
    and t: "db_wallets s1 = db_wallets s" "db_holdings s1 = db_holdings s" "db_distributions s1 = db_distributions s"
      "db_dividends s1 = db_dividends s" "db_actions s1 = db_actions s" "db_ledger s1 = db_ledger s"
      "db_uid s1 = Suc (db_uid s)" "\<exists>t. db_transactions s1 = db_transactions s @ [t] \<and> t_id t = db_uid s \<and>
         t_walletId t = w_id w \<and> t_status t = TX_COMPLETED"
    by (simp add: insertTransaction_def tx_key_taken_def)
  have res: "credit_dividend R s u net = Inr ((post_legs R (db_uid s) ?legs s1)\<lparr>db_wallets :=
      upd_where (\<lambda>v. w_userId v = u) (bump R net) (db_wallets s)\<rparr>)"
    using Some s1 ex by (simp add: credit_dividend_def walletIncrement_def post_legs_eq t same bump_def [abs_def])
  show thesis using Some t by (intro that [OF res]) (simp_all add: post_legs_eq)
qed

lemma credit_dividend_keeps:
  assumes "numeric_runtime R" and "books_ok s" and "solvent s" and "0 \<le> net" and "credit_dividend R s u net = Inr s'"
  shows "books_ok s'" and "solvent s'"
proof -
  have ok: "wallets_ok s" using assms(2) by (simp add: books_ok_def)
  have bal: "places 4 (w_balance w) \<and> 0 \<le> w_balance w" if "w \<in> set (db_wallets s)" for w
    using that assms(3) ok unfolding wallets_ok_def solvent_def by blast
  obtain t where t: "credit_dividend R s u net = Inr t"
    and wal: "db_wallets t = upd_where (\<lambda>w. w_userId w = u) (bump R net) (db_wallets s)"
    and uid: "db_uid s \<le> db_uid t" and none: "findWalletByUserId s u = None \<longrightarrow> t = s"
    and some: "\<forall>w. findWalletByUserId s u = Some w \<longrightarrow>
      (\<exists>x. db_transactions t = db_transactions s @ [x] \<and> t_id x = db_uid s \<and> t_walletId x = w_id w \<and>
         t_status x = TX_COMPLETED) \<and> db_uid s < db_uid t \<and>
      db_ledger t = db_ledger s @ leg_entries R (db_uid s) (Suc (db_uid s))
        (dividend_legs (w_id w) net (dadd R (w_balance w) net))"
    by (rule credit_dividend_Inr [OF ok, of R u net])
  have s': "s' = t" using t assms(5) by simp
  show "solvent s'"
    using bal assms(4) unfolding solvent_def s' wal
    by (auto simp: set_upd_where numeric_runtime.num4_nonneg [OF assms(1)])
  show "books_ok s'"
  proof (cases "findWalletByUserId s u")
    case None
    with none assms(2) show ?thesis by (simp add: s')
  next
    case (Some w)
    then have w: "w \<in> set (db_wallets s)" "w_userId w = u" using findWalletByUserId_Some by blast+
    from some Some obtain x where x: "db_transactions t = db_transactions s @ [x]" "t_id x = db_uid s"
        "t_walletId x = w_id w" "t_status x = TX_COMPLETED" and lt: "db_uid s < db_uid t"
      and led: "db_ledger t = db_ledger s @ leg_entries R (db_uid s) (Suc (db_uid s))
        (dividend_legs (w_id w) net (dadd R (w_balance w) net))" by blast
    have same: "db_wallets t = upd_where (\<lambda>v. w_id v = w_id w) (bump R net) (db_wallets s)"
      using ok w unfolding wal upd_where_def wallets_ok_def distinct_map by (auto dest: inj_onD)
    have "map w_id (db_wallets t) = map w_id (db_wallets s)" unfolding wal by (rule map_upd_where) simp
    then have ids: "w_id ` set (db_wallets t) = w_id ` set (db_wallets s)" by (metis set_map)
    note c = create_transactions_ok [OF assms(2) x(1,2) order_refl lt x(4) _ ids]
    have "num4 R (w_balance w + net) = w_balance w + num4 R net"
      using bal [OF w(1)] assms(4) by (simp add: numeric_runtime.num4_shift [OF assms(1)])
    then show ?thesis unfolding s'
      by (intro dividend_move.post_keeps_books [of s "(R, w_id w, net, dadd R (w_balance w) net)" w t "bump R net"
            "db_uid s" "Suc (db_uid s)"]) (use assms(1,2) w same led uid c x(3) in auto)
  qed
qed

section \<open>Distribution\<close>

definition dividend_in_range :: "dividend \<Rightarrow> rat \<Rightarrow> bool" where
  "dividend_in_range d q \<longleftrightarrow> places 4 (dv_amountPerShare d) \<and> 0 \<le> dv_amountPerShare d \<and>
     0 \<le> dv_withholdingTaxPct d \<and> dv_withholdingTaxPct d \<le> 100 \<and> places 4 q \<and> 0 \<le> q \<and>
     q * dv_amountPerShare d < 10 ^ 12"

lemma dividend_net_nonneg:
  assumes "numeric_runtime R" and "dividend_in_range d q"
  shows "0 \<le> dividend_net R d q"
proof -
  note r = assms(2) [unfolded dividend_in_range_def]
  have pl: "places 8 (q * dv_amountPerShare d)" using places_mult [of 4 q 4 "dv_amountPerShare d"] r by simp
  have g: "dmul R q (dv_amountPerShare d) = q * dv_amountPerShare d"
    unfolding dmul_def using r by (intro numeric_runtime.rnd_places [OF assms(1) pl]) (simp add: abs_mult)
  have one: "rnd R 1 = 1" by (rule numeric_runtime.rnd_places [OF assms(1), of 0]) simp_all
  have "ddiv R (dv_withholdingTaxPct d) 100 \<le> rnd R 1"
    unfolding ddiv_def using r by (intro numeric_runtime.rnd_mono [OF assms(1)]) simp
  then have "q * dv_amountPerShare d * ddiv R (dv_withholdingTaxPct d) 100 \<le> q * dv_amountPerShare d * 1"
    using r one by (intro mult_left_mono) simp_all
  then have "rnd R (q * dv_amountPerShare d * ddiv R (dv_withholdingTaxPct d) 100) \<le> rnd R (q * dv_amountPerShare d)"
    by (intro numeric_runtime.rnd_mono [OF assms(1)]) simp
  then show ?thesis
    using g by (simp add: dividend_figures_def Let_def dmul_def runtime_nonneg [OF assms(1)])
qed

text \<open>The tables a distribution leaves alone.\<close>

definition actions_eq :: "db \<Rightarrow> db \<Rightarrow> bool" where
  "actions_eq s s' \<longleftrightarrow> db_holdings s' = db_holdings s \<and> db_dividends s' = db_dividends s \<and> db_actions s' = db_actions s"

lemma createDistribution_Inr:
  assumes "createDistribution R s i u q gross tax net = Inr (s1, k)"
  shows "\<not> distributed s i u" and "s1 = s\<lparr>db_uid := Suc (db_uid s), db_distributions := db_distributions s1\<rparr>"
    and "distributed s1 j v \<longleftrightarrow> distributed s j v \<or> j = i \<and> v = u"
  using assms by (auto simp: createDistribution_def distributed_def split: if_splits)

lemma distribute_one_effect:
  assumes "numeric_runtime R" and "books_ok s" and "solvent s" and "dividend_in_range d (h_quantity h)"
    and "distribute_one R d out h (s, acc) = (s', acc')"
  shows "books_ok s'" and "solvent s'" and "actions_eq s s'"
    and "distributed s' i u \<longleftrightarrow> distributed s i u \<or> i = dv_id d \<and> u = h_userId h"
    and "findWalletByUserId s' u = map_option (\<lambda>w.
      if u = h_userId h \<and> \<not> distributed s (dv_id d) u \<and> out u = Committed
      then bump R (dividend_net R d (h_quantity h)) w else w) (findWalletByUserId s u)"
proof -
  obtain gross tax net where f: "dividend_figures R d (h_quantity h) = (gross, tax, net)"
    by (cases "dividend_figures R d (h_quantity h)") auto
  obtain n paid taxed where acc: "acc = (n, paid, taxed)" by (cases acc) auto
  have net: "0 \<le> net" using dividend_net_nonneg [OF assms(1,4)] f by simp
  let ?goal = "books_ok s' \<and> solvent s' \<and> actions_eq s s' \<and>
    (\<forall>i u. distributed s' i u \<longleftrightarrow> distributed s i u \<or> i = dv_id d \<and> u = h_userId h) \<and>
    (\<forall>u. findWalletByUserId s' u = map_option (\<lambda>w.
      if u = h_userId h \<and> \<not> distributed s (dv_id d) u \<and> out u = Committed then bump R net w else w)
      (findWalletByUserId s u))"
  have ?goal
  proof (cases "createDistribution R s (dv_id d) (h_userId h) (h_quantity h) gross tax net")
    case (Inl e)
    then have "distributed s (dv_id d) (h_userId h)" by (simp add: createDistribution_def split: if_splits)
    with Inl assms(2,3,5) f acc show ?thesis
      by (auto simp: distribute_one_def actions_eq_def map_option_case split: option.split)
  next
    case (Inr r)
    obtain s1 k where r: "r = (s1, k)" by (cases r)
    note cd = createDistribution_Inr [OF Inr [unfolded r]]
    note s1 = cd(2) and ds = cd(3)
    have b1: "books_ok s1" using assms(2) by (rule books_cong [rotated -1]) (subst s1; simp)+
    have sv1: "solvent s1" using assms(3) by (subst s1) (simp add: solvent_def)
    have w1: "db_wallets s1 = db_wallets s" "actions_eq s s1" by (subst s1; simp add: actions_eq_def)+
    have "wallets_ok s1" using b1 by (simp add: books_ok_def)
    then obtain s2 where s2: "credit_dividend R s1 (h_userId h) net = Inr s2"
      and wal: "db_wallets s2 = upd_where (\<lambda>w. w_userId w = h_userId h) (bump R net) (db_wallets s1)"
      and eq: "db_holdings s2 = db_holdings s1" "db_distributions s2 = db_distributions s1"
        "db_dividends s2 = db_dividends s1" "db_actions s2 = db_actions s1"
      by (rule credit_dividend_Inr)
    note keep = credit_dividend_keeps [OF assms(1) b1 sv1 net s2]
    have find2: "findWalletByUserId s2 u = map_option (\<lambda>w. if u = h_userId h then bump R net w else w)
        (findWalletByUserId s u)" for u
      unfolding findWalletByUserId_def wal w1(1) by (subst findWalletByUserId_upd) (auto intro!: map_option_cong
          simp: find_Some_iff)
    have step: "s' = (if out (h_userId h) = Committed
        then emit (DividendPaid (h_userId h) (dv_id d) (dv_stockId d) (js R (h_quantity h)) (js R gross) (js R net)) s2
        else s1)"
      using assms(5) f acc Inr r s2 by (auto simp: distribute_one_def Let_def split: tx_end.splits)
    show ?thesis
    proof (cases "out (h_userId h) = Committed")
      case True
      then have s': "s' = emit (DividendPaid (h_userId h) (dv_id d) (dv_stockId d) (js R (h_quantity h)) (js R gross) (js R net)) s2"
        using step by simp
      have "books_ok s'" using keep(1) by (rule books_cong [rotated -1]) (simp_all add: s')
      moreover have "solvent s'" using keep(2) by (simp add: s' solvent_def)
      moreover have "distributed s' i u \<longleftrightarrow> distributed s1 i u" for i u by (simp add: s' distributed_def eq)
      moreover have "findWalletByUserId s' u = findWalletByUserId s2 u" for u
        by (simp add: s' findWalletByUserId_def)
      ultimately show ?thesis using w1(2) eq ds find2 cd(1) True
        by (auto simp: actions_eq_def s' intro!: map_option_cong)
    next
      case False
      then show ?thesis using b1 sv1 w1 ds step
        by (auto simp: findWalletByUserId_def map_option_case split: option.split)
    qed
  qed
  then show "books_ok s'" "solvent s'" "actions_eq s s'"
    "distributed s' i u \<longleftrightarrow> distributed s i u \<or> i = dv_id d \<and> u = h_userId h"
    "findWalletByUserId s' u = map_option (\<lambda>w.
      if u = h_userId h \<and> \<not> distributed s (dv_id d) u \<and> out u = Committed
      then bump R (dividend_net R d (h_quantity h)) w else w) (findWalletByUserId s u)"
    by (simp_all add: f cong: if_cong)
qed

text \<open>The whole loop: each listed holder without an earlier distribution row whose transaction commits
  is credited once.\<close>

definition pays :: "db \<Rightarrow> dividend \<Rightarrow> (uuid \<Rightarrow> tx_end) \<Rightarrow> uuid \<Rightarrow> bool" where
  "pays s d out u \<longleftrightarrow> \<not> distributed s (dv_id d) u \<and> out u = Committed"

lemma distribute_fold:
  assumes "numeric_runtime R" and "books_ok s" and "solvent s" and "distinct (map h_userId hs)"
    and "\<forall>h \<in> set hs. dividend_in_range d (h_quantity h)"
    and "fold (distribute_one R d out) hs (s, acc) = (s', acc')"
  shows "books_ok s' \<and> solvent s' \<and> actions_eq s s' \<and>
     (\<forall>i u. distributed s' i u \<longleftrightarrow> distributed s i u \<or> i = dv_id d \<and> u \<in> h_userId ` set hs) \<and>
     (\<forall>u. findWalletByUserId s' u = map_option (\<lambda>w.
        case List.find (\<lambda>h. h_userId h = u) hs of None \<Rightarrow> w
        | Some h \<Rightarrow> if pays s d out u then bump R (dividend_net R d (h_quantity h)) w else w)
        (findWalletByUserId s u))"
  using assms(2-)
proof (induction hs arbitrary: s acc)
  case Nil
  then show ?case by (simp add: actions_eq_def option.map_ident)
next
  case (Cons h hs)
  obtain t ac where t: "distribute_one R d out h (s, acc) = (t, ac)" by (rule prod.exhaust)
  note one = distribute_one_effect [OF assms(1) Cons.prems(1,2) _ t]
  have r: "dividend_in_range d (h_quantity h)" using Cons.prems(4) by simp
  note IH = Cons.IH [of t ac, OF one(1,2) [OF r]]
  have h: "List.find (\<lambda>x. h_userId x = h_userId h) hs = None"
    using Cons.prems(3) by (simp add: find_None) (metis image_eqI)
  have p: "pays t d out u = pays s d out u" if "u \<noteq> h_userId h" for u
    using that one(4) [OF r] by (simp add: pays_def)
  have rest: "books_ok s' \<and> solvent s' \<and> actions_eq t s' \<and>
     (\<forall>i u. distributed s' i u \<longleftrightarrow> distributed t i u \<or> i = dv_id d \<and> u \<in> h_userId ` set hs) \<and>
     (\<forall>u. findWalletByUserId s' u = map_option (\<lambda>w.
        case List.find (\<lambda>h. h_userId h = u) hs of None \<Rightarrow> w
        | Some h \<Rightarrow> if pays t d out u then bump R (dividend_net R d (h_quantity h)) w else w)
        (findWalletByUserId t u))"
    using Cons.prems t by (intro IH) simp_all
  have "findWalletByUserId s' u = map_option (\<lambda>w.
        case List.find (\<lambda>h. h_userId h = u) (h # hs) of None \<Rightarrow> w
        | Some h \<Rightarrow> if pays s d out u then bump R (dividend_net R d (h_quantity h)) w else w)
        (findWalletByUserId s u)" for u
  proof (cases "u = h_userId h")
    case True
    with rest h show ?thesis by (simp add: one(5) [OF r] pays_def option.map_ident cong: if_cong)
  next
    case False
    then have "findWalletByUserId t u = findWalletByUserId s u" by (simp add: one(5) [OF r] option.map_ident)
    with rest False show ?thesis unfolding p [OF False, symmetric] by simp
  qed
  with rest one(3,4) [OF r] show ?case by (auto simp: actions_eq_def)
qed

text \<open>The status updates around the loop.\<close>

lemma updateDividendStatus_Inr:
  "updateDividendStatus s i st = Inr s' \<Longrightarrow> money_eq s s' \<and> db_holdings s' = db_holdings s \<and>
     db_distributions s' = db_distributions s \<and> db_uid s' = db_uid s"
  by (auto simp: updateDividendStatus_def money_eq_def split: if_splits)

lemma updateCorporateActionStatus_Inr:
  "updateCorporateActionStatus s i st f = Inr s' \<Longrightarrow> money_eq s s' \<and> db_holdings s' = db_holdings s \<and>
     db_distributions s' = db_distributions s \<and> db_uid s' = db_uid s"
  by (auto simp: updateCorporateActionStatus_def money_eq_def split: if_splits)

lemma mark_action_Inr:
  "mark_action s i st f = Inr s' \<Longrightarrow> money_eq s s' \<and> db_holdings s' = db_holdings s \<and>
     db_distributions s' = db_distributions s \<and> db_uid s' = db_uid s"
  by (auto simp: mark_action_def dest: updateCorporateActionStatus_Inr split: if_splits)

lemma mark_action_total: "\<exists>s'. mark_action s i st f = Inr s'"
proof (cases "i \<in> ca_id ` set (db_actions s)")
  case True
  then show ?thesis by (auto simp: mark_action_def updateCorporateActionStatus_def)
next
  case False
  then have "findCorporateActionById s i = None" by (auto simp: findCorporateActionById_def find_None)
  then show ?thesis by (simp add: mark_action_def)
qed

lemma mark_action_find: "mark_action s i st f = Inr s' \<Longrightarrow> db_dividends s' = db_dividends s"
  by (auto simp: mark_action_def updateCorporateActionStatus_def split: if_splits)

lemma updateDividendStatus_find:
  assumes "updateDividendStatus s i st = Inr s'"
  shows "findDividendById s' i = map_option (dv_status_update (\<lambda>_. st)) (findDividendById s i)"
proof -
  have "List.find (\<lambda>d. dv_id d = i) (upd_where (\<lambda>d. dv_id d = i) (dv_status_update (\<lambda>_. st)) xs) =
      map_option (dv_status_update (\<lambda>_. st)) (List.find (\<lambda>d. dv_id d = i) xs)" for xs :: "dividend list"
    by (induction xs) (auto simp: upd_where_def)
  then show ?thesis using assms by (auto simp: updateDividendStatus_def findDividendById_def split: if_splits)
qed

lemma money_eq_solvent: "money_eq s s' \<Longrightarrow> solvent s \<Longrightarrow> solvent s'"
  by (simp add: money_eq_def solvent_def)

lemma money_eq_find: "money_eq s s' \<Longrightarrow> findWalletByUserId s' u = findWalletByUserId s u"
  by (simp add: money_eq_def findWalletByUserId_def)

definition holdings_ok :: "db \<Rightarrow> bool" where
  "holdings_ok s \<longleftrightarrow> distinct (map (\<lambda>h. (h_userId h, h_stockId h)) (db_holdings s))"

lemma shareholders_distinct:
  "holdings_ok s \<Longrightarrow> distinct (map h_userId (findShareholdersByStock s sid))"
  by (auto simp: holdings_ok_def findShareholdersByStock_def distinct_map inj_on_def)

definition dividend_payable :: "db \<Rightarrow> uuid \<Rightarrow> bool" where
  "dividend_payable s i \<longleftrightarrow> (case findDividendById s i of None \<Rightarrow> True
     | Some d \<Rightarrow> \<forall>h \<in> set (findShareholdersByStock s (dv_stockId d)). dividend_in_range d (h_quantity h))"

text \<open>What a user is owed by a dividend: the net amount of the position held.\<close>

definition entitlement :: "runtime \<Rightarrow> db \<Rightarrow> uuid \<Rightarrow> uuid \<Rightarrow> rat" where
  "entitlement R s i u = (case findDividendById s i of None \<Rightarrow> 0 | Some d \<Rightarrow>
     (case List.find (\<lambda>h. h_userId h = u) (findShareholdersByStock s (dv_stockId d)) of None \<Rightarrow> 0
      | Some h \<Rightarrow> num4 R (dividend_net R d (h_quantity h))))"

definition balance_of :: "db \<Rightarrow> uuid \<Rightarrow> rat option" where
  "balance_of s u = map_option w_balance (findWalletByUserId s u)"

lemma distributeDividend_effect:
  assumes "numeric_runtime R" and "books_ok s" and "solvent s" and "holdings_ok s" and "dividend_payable s i"
    and "distributeDividend R out s i = (r, s')"
  shows "books_ok s' \<and> solvent s' \<and> db_holdings s' = db_holdings s \<and>
     (\<forall>u. balance_of s' u = map_option (\<lambda>b. if \<not> distributed s i u \<and> out u = Committed
        then b + entitlement R s i u else b) (balance_of s u)) \<and>
     (\<forall>u. distributed s' i u \<or> (\<forall>R. entitlement R s i u = 0)) \<and>
     findDividendById s' i = map_option (dv_status_update (\<lambda>_. DV_CREDITED)) (findDividendById s i)"
proof (cases "findDividendById s i")
  case None
  with assms(2,3,6) show ?thesis
    by (auto simp: distributeDividend_def entitlement_def option.map_ident cong: if_cong)
next
  case (Some d)
  then have d: "d \<in> set (db_dividends s)" "dv_id d = i" by (auto simp: findDividendById_def find_Some_iff)
  then obtain s1 where s1: "updateDividendStatus s i DV_PROCESSING = Inr s1" by (auto simp: updateDividendStatus_def)
  obtain s2 where s2: "mark_action s1 (dv_corporateActionId d) CA_PROCESSING id = Inr s2"
    using mark_action_total by blast
  note e = updateDividendStatus_Inr [OF s1] mark_action_Inr [OF s2]
  have e2: "money_eq s s2" "db_holdings s2 = db_holdings s" "db_distributions s2 = db_distributions s"
    using e money_eq_trans by auto
  let ?hs = "findShareholdersByStock s (dv_stockId d)"
  have hs: "findShareholdersByStock s2 (dv_stockId d) = ?hs" by (simp add: findShareholdersByStock_def e2)
  obtain s3 acc where s3: "fold (distribute_one R d out) ?hs (s2, 0, 0, 0) = (s3, acc)" by (rule prod.exhaust)
  note f = distribute_fold [OF assms(1) money_eq_books [OF e2(1) assms(2)] money_eq_solvent [OF e2(1) assms(3)]
      shareholders_distinct [OF assms(4)] _ s3]
  have rng: "\<forall>h \<in> set ?hs. dividend_in_range d (h_quantity h)"
    using assms(5) Some by (simp add: dividend_payable_def)
  note f = f [OF rng]
  have s3d: "findDividendById s3 i = Some (d\<lparr>dv_status := DV_PROCESSING\<rparr>)"
    using updateDividendStatus_find [OF s1] mark_action_find [OF s2] f Some
    by (simp add: findDividendById_def actions_eq_def)
  then obtain s4 where s4: "updateDividendStatus s3 i DV_CREDITED = Inr s4"
    by (auto simp: updateDividendStatus_def findDividendById_def find_Some_iff)
  obtain s5 where s5: "mark_action s4 (dv_corporateActionId d) CA_COMPLETED
      (\<lambda>a. a\<lparr>ca_processedAt := Some (now R)\<rparr>) = Inr s5" using mark_action_total by blast
  have s': "s' = s5" using assms(6) Some s1 s2 s3 s4 s5 hs by (simp add: distributeDividend_def split_beta)
  have tail: "money_eq s3 s' \<and> db_holdings s' = db_holdings s3 \<and> db_distributions s' = db_distributions s3"
    using updateDividendStatus_Inr [OF s4] mark_action_Inr [OF s5] money_eq_trans unfolding s' by auto
  have credited: "findDividendById s' i = map_option (dv_status_update (\<lambda>_. DV_CREDITED)) (findDividendById s i)"
    using updateDividendStatus_find [OF s4] mark_action_find [OF s5] s3d Some
    by (simp add: s' findDividendById_def)
  have find3: "findWalletByUserId s' u = findWalletByUserId s3 u" for u using tail by (simp add: money_eq_find)
  have "books_ok s'" "solvent s'" using tail f money_eq_books money_eq_solvent by blast+
  moreover have "db_holdings s' = db_holdings s" using tail f e2(2) by (simp add: actions_eq_def)
  moreover have dis: "distributed s' i u \<longleftrightarrow> distributed s i u \<or> u \<in> h_userId ` set ?hs" for u
    using tail f e2(3) d(2) by (simp add: distributed_def)
  moreover have "balance_of s' u = map_option (\<lambda>b. if \<not> distributed s i u \<and> out u = Committed
        then b + entitlement R s i u else b) (balance_of s u)" for u
  proof (cases "findWalletByUserId s u")
    case None
    then show ?thesis using f by (simp add: balance_of_def find3 money_eq_find [OF e2(1)])
  next
    case w: (Some w)
    then have "w \<in> set (db_wallets s)" using findWalletByUserId_Some by blast
    then have b: "places 4 (w_balance w)" "0 \<le> w_balance w"
      using assms(2,3) unfolding books_ok_def wallets_ok_def solvent_def by blast+
    have net: "num4 R (w_balance w + dividend_net R d (h_quantity h)) = w_balance w + num4 R (dividend_net R d (h_quantity h))"
      if "h \<in> set ?hs" for h
      using numeric_runtime.num4_shift [OF assms(1) b] dividend_net_nonneg [OF assms(1)] rng that by blast
    have pay: "pays s2 d out u = (\<not> distributed s i u \<and> out u = Committed)"
      by (simp add: pays_def distributed_def e2(3) d(2))
    have find: "findWalletByUserId s' u = map_option (\<lambda>w. case List.find (\<lambda>h. h_userId h = u) ?hs of None \<Rightarrow> w
        | Some h \<Rightarrow> if pays s2 d out u then bump R (dividend_net R d (h_quantity h)) w else w) (Some w)"
      using f w by (simp add: find3 money_eq_find [OF e2(1)])
    show ?thesis
    proof (cases "List.find (\<lambda>h. h_userId h = u) ?hs")
      case None
      with find w Some show ?thesis by (simp add: balance_of_def entitlement_def)
    next
      case (Some h)
      then have "h \<in> set ?hs" by (auto simp: find_Some_iff)
      from net [OF this] Some find pay w \<open>findDividendById s i = Some d\<close>
      show ?thesis by (simp add: balance_of_def entitlement_def)
    qed
  qed
  moreover have "u \<in> h_userId ` set ?hs \<or> (\<forall>R. entitlement R s i u = 0)" for u
    using Some by (cases "List.find (\<lambda>h. h_userId h = u) ?hs") (auto simp: entitlement_def find_Some_iff)
  ultimately show ?thesis using credited by blast
qed

section \<open>Actions on holdings\<close>

text \<open>
  Splits and bonus issues share a contract: the step for a holder either leaves the tables alone or sets
  the quantity and the average cost of that holder's position in one stock and reports an event.
\<close>

lemma set_holding_simps [simp]:
  "db_holdings (set_holding s u sid q c) =
     upd_where (holding_at u sid) (\<lambda>h. h\<lparr>h_quantity := q, h_averageCost := c\<rparr>) (db_holdings s)"
  "db_wallets (set_holding s u sid q c) = db_wallets s" "db_transactions (set_holding s u sid q c) = db_transactions s"
  "db_ledger (set_holding s u sid q c) = db_ledger s" "db_uid (set_holding s u sid q c) = db_uid s"
  by (simp_all add: set_holding_def)

definition position_after :: "uuid \<Rightarrow> (holding \<Rightarrow> (rat \<times> rat) option) \<Rightarrow> holding list \<Rightarrow> uuid \<Rightarrow> uuid \<Rightarrow> holding \<Rightarrow> holding" where
  "position_after sid upd hs u j x = (case List.find (\<lambda>h. h_userId h = u) hs of None \<Rightarrow> x
     | Some h \<Rightarrow> if j = sid then (case upd h of None \<Rightarrow> x | Some (q, c) \<Rightarrow> x\<lparr>h_quantity := q, h_averageCost := c\<rparr>) else x)"

locale holding_action =
  fixes step :: "holding \<Rightarrow> db \<times> 'acc \<Rightarrow> db \<times> 'acc"
    and sid :: uuid
    and upd :: "holding \<Rightarrow> (rat \<times> rat) option"
  assumes step_state: "\<exists>ev. fst (step h (s, a)) =
    (case upd h of None \<Rightarrow> s | Some (q, c) \<Rightarrow> emit ev (set_holding s (h_userId h) sid q c))"
begin

lemma step_effect:
  "money_eq s (fst (step h (s, a)))"
  "findUserHolding (fst (step h (s, a))) u j = map_option (position_after sid upd [h] u j) (findUserHolding s u j)"
proof -
  obtain ev where ev: "fst (step h (s, a)) =
      (case upd h of None \<Rightarrow> s | Some (q, c) \<Rightarrow> emit ev (set_holding s (h_userId h) sid q c))"
    using step_state by blast
  show "money_eq s (fst (step h (s, a)))" unfolding ev by (auto simp: money_eq_def split: option.split)
  show "findUserHolding (fst (step h (s, a))) u j = map_option (position_after sid upd [h] u j) (findUserHolding s u j)"
  proof (cases "upd h")
    case None
    then show ?thesis by (cases "findUserHolding s u j") (simp_all add: ev position_after_def)
  next
    case (Some qc)
    then show ?thesis
      by (cases qc) (auto simp: ev findUserHolding_def find_holding_upd position_after_def map_option_case split: option.split)
  qed
qed

lemma fold_effect:
  assumes "distinct (map h_userId hs)"
  shows "money_eq s (fst (fold step hs (s, a))) \<and>
     findUserHolding (fst (fold step hs (s, a))) u j = map_option (position_after sid upd hs u j) (findUserHolding s u j)"
  using assms
proof (induction hs arbitrary: s a)
  case Nil
  then show ?case by (cases "findUserHolding s u j") (simp_all add: position_after_def)
next
  case (Cons h hs)
  obtain t b where t: "step h (s, a) = (t, b)" by (rule prod.exhaust)
  have IH: "money_eq t (fst (fold step hs (t, b))) \<and>
     findUserHolding (fst (fold step hs (t, b))) u j = map_option (position_after sid upd hs u j) (findUserHolding t u j)"
    using Cons by simp
  have "List.find (\<lambda>x. h_userId x = h_userId h) hs = None"
    using Cons.prems by (simp add: find_None) (metis image_eqI)
  then have "position_after sid upd hs u j (position_after sid upd [h] u j x) = position_after sid upd (h # hs) u j x" for x
    by (cases "h_userId h = u") (auto simp: position_after_def)
  with IH step_effect [where s = s and h = h and a = a] t show ?case
    by (auto simp: option.map_comp comp_def intro: money_eq_trans)
qed

end

definition split_update :: "runtime \<Rightarrow> share_ratio \<Rightarrow> (uuid \<Rightarrow> tx_end) \<Rightarrow> holding \<Rightarrow> (rat \<times> rat) option" where
  "split_update R sp out h =
     (let m = ddiv R (of_int (rt_ratioTo sp)) (of_int (rt_ratioFrom sp))
      in if rt_ratioFrom sp = 0 \<or> m = 0 \<or> out (h_userId h) \<noteq> Committed then None
         else Some (num4 R (dmul R (h_quantity h) m), num4 R (ddiv R (h_averageCost h) m)))"

definition bonus_update :: "runtime \<Rightarrow> share_ratio \<Rightarrow> (uuid \<Rightarrow> tx_end) \<Rightarrow> holding \<Rightarrow> (rat \<times> rat) option" where
  "bonus_update R b out h =
     (let bonus = of_int (bonus_shares R b (h_quantity h)); q = dadd R (h_quantity h) bonus
      in if rt_ratioFrom b = 0 \<or> bonus \<le> 0 \<or> out (h_userId h) \<noteq> Committed then None
         else Some (num4 R q, num4 R (ddiv R (dmul R (h_averageCost h) (h_quantity h)) q)))"

interpretation split_action: holding_action "split_one R sp out" "rt_stockId sp" "split_update R sp out"
  by (rule holding_action.intro)
    (auto simp: split_one_def split_update_def Let_def split: tx_end.split)

interpretation bonus_action: holding_action "bonus_one R b out" "rt_stockId b" "bonus_update R b out"
  by (rule holding_action.intro)
    (auto simp: bonus_one_def bonus_update_def Let_def split_beta split: tx_end.split)

lemma find_filter: "List.find P (filter Q xs) = List.find (\<lambda>x. Q x \<and> P x) xs"
  by (induction xs) auto

lemma findUserHolding_Some: "findUserHolding s u j = Some x \<Longrightarrow> h_userId x = u \<and> h_stockId x = j"
  by (auto simp: findUserHolding_def find_Some_iff holding_at_def)

lemma shareholder_find:
  assumes "holdings_ok s"
  shows "List.find (\<lambda>h. h_userId h = u) (findShareholdersByStock s sid) =
     (case findUserHolding s u sid of None \<Rightarrow> None | Some x \<Rightarrow> if 0 < h_quantity x then Some x else None)"
proof -
  have "List.find (\<lambda>x. (h_stockId x = sid \<and> 0 < h_quantity x) \<and> h_userId x = u) hs =
      (case List.find (holding_at u sid) hs of None \<Rightarrow> None | Some x \<Rightarrow> if 0 < h_quantity x then Some x else None)"
    if "distinct (map (\<lambda>h. (h_userId h, h_stockId h)) hs)" for hs
    using that
  proof (induction hs)
    case (Cons a hs)
    show ?case
    proof (cases "holding_at u sid a")
      case True
      with Cons.prems have "\<forall>x \<in> set hs. \<not> holding_at u sid x" by (auto simp: holding_at_def image_iff)
      then have "List.find (\<lambda>x. (h_stockId x = sid \<and> 0 < h_quantity x) \<and> h_userId x = u) hs = None"
        by (auto simp: find_None holding_at_def)
      with True show ?thesis by (simp add: holding_at_def)
    next
      case False
      with Cons show ?thesis by (auto simp: holding_at_def)
    qed
  qed simp
  from this [of "db_holdings s"] assms show ?thesis
    by (simp add: findShareholdersByStock_def find_filter findUserHolding_def holdings_ok_def)
qed

lemma applyStockSplit_effect:
  assumes "holdings_ok s" and "action_ratio (db_splits s) ca = Some sp" and "applyStockSplit R out s ca = (Inr n, s')"
  shows "money_eq s s'" and "findUserHolding s' u j = map_option
     (position_after (rt_stockId sp) (split_update R sp out) (findShareholdersByStock s (rt_stockId sp)) u j) (findUserHolding s u j)"
proof -
  from assms(2,3) obtain s1 where s1: "updateCorporateActionStatus s ca CA_PROCESSING id = Inr s1"
    and s3: "updateCorporateActionStatus (fst (fold (split_one R sp out) (findShareholdersByStock s1 (rt_stockId sp)) (s1, 0)))
      ca CA_COMPLETED (\<lambda>a. a\<lparr>ca_processedAt := Some (now R)\<rparr>) = Inr s'"
    by (auto simp: applyStockSplit_def split_beta split: option.splits sum.splits)
  note e = updateCorporateActionStatus_Inr [OF s1] updateCorporateActionStatus_Inr [OF s3]
  have hs: "findShareholdersByStock s1 (rt_stockId sp) = findShareholdersByStock s (rt_stockId sp)"
    using e(1) by (simp add: findShareholdersByStock_def)
  let ?hs = "findShareholdersByStock s (rt_stockId sp)"
  have f: "money_eq s1 (fst (fold (split_one R sp out) ?hs (s1, 0))) \<and>
      findUserHolding (fst (fold (split_one R sp out) ?hs (s1, 0))) u j =
      map_option (position_after (rt_stockId sp) (split_update R sp out) ?hs u j) (findUserHolding s1 u j)" for u j
    by (rule split_action.fold_effect [OF shareholders_distinct [OF assms(1)]])
  show "money_eq s s'" using f e [unfolded hs] by (blast intro: money_eq_trans)
  show "findUserHolding s' u j = map_option
     (position_after (rt_stockId sp) (split_update R sp out) (findShareholdersByStock s (rt_stockId sp)) u j) (findUserHolding s u j)"
    using f [of u j] e hs by (simp add: findUserHolding_def)
qed

lemma distributeBonusShares_effect:
  assumes "holdings_ok s" and "action_ratio (db_bonuses s) ca = Some b"
    and "distributeBonusShares R out s ca = (Inr r, s')"
  shows "money_eq s s'" and "findUserHolding s' u j = map_option
     (position_after (rt_stockId b) (bonus_update R b out) (findShareholdersByStock s (rt_stockId b)) u j) (findUserHolding s u j)"
proof -
  from assms(2,3) obtain s1 where s1: "updateCorporateActionStatus s ca CA_PROCESSING id = Inr s1"
    and s3: "updateCorporateActionStatus (fst (fold (bonus_one R b out) (findShareholdersByStock s1 (rt_stockId b)) (s1, 0, 0)))
      ca CA_COMPLETED (\<lambda>a. a\<lparr>ca_processedAt := Some (now R)\<rparr>) = Inr s'"
    by (auto simp: distributeBonusShares_def split_beta split: option.splits sum.splits)
  note e = updateCorporateActionStatus_Inr [OF s1] updateCorporateActionStatus_Inr [OF s3]
  have hs: "findShareholdersByStock s1 (rt_stockId b) = findShareholdersByStock s (rt_stockId b)"
    using e(1) by (simp add: findShareholdersByStock_def)
  let ?hs = "findShareholdersByStock s (rt_stockId b)"
  have f: "money_eq s1 (fst (fold (bonus_one R b out) ?hs (s1, 0, 0))) \<and>
      findUserHolding (fst (fold (bonus_one R b out) ?hs (s1, 0, 0))) u j =
      map_option (position_after (rt_stockId b) (bonus_update R b out) ?hs u j) (findUserHolding s1 u j)" for u j
    by (rule bonus_action.fold_effect [OF shareholders_distinct [OF assms(1)]])
  show "money_eq s s'" using f e [unfolded hs] by (blast intro: money_eq_trans)
  show "findUserHolding s' u j = map_option
     (position_after (rt_stockId b) (bonus_update R b out) (findShareholdersByStock s (rt_stockId b)) u j) (findUserHolding s u j)"
    using f [of u j] e hs by (simp add: findUserHolding_def)
qed

section \<open>Sample\<close>

text \<open>User 1 of \<open>bank1\<close> holds 250 shares of stock 40; 10 per share are due with 10 percent tax, and the
  stock splits two for one and then issues one bonus share for ten.\<close>

definition sample_dividend :: dividend where
  "sample_dividend = \<lparr>dv_id = 60, dv_corporateActionId = 61, dv_stockId = 40, dv_amountPerShare = 10,
     dv_withholdingTaxPct = 10, dv_exDividendDate = 0, dv_recordDate = 0, dv_paymentDate = 0,
     dv_status = DV_ANNOUNCED, dv_createdAt = 0\<rparr>"

definition sample_action :: "uuid \<Rightarrow> action_type \<Rightarrow> corporate_action" where
  "sample_action i ty = \<lparr>ca_id = i, ca_stockId = 40, ca_type = ty, ca_title = TitleText ''T'', ca_description = None,
     ca_status = CA_ANNOUNCED, ca_effectiveDate = 0, ca_processedAt = None, ca_createdAt = 0\<rparr>"

definition sample_ratio :: "uuid \<Rightarrow> int \<Rightarrow> int \<Rightarrow> share_ratio" where
  "sample_ratio ca rf rt = \<lparr>rt_id = 70, rt_corporateActionId = ca, rt_stockId = 40, rt_ratioFrom = rf, rt_ratioTo = rt,
     rt_price = None, rt_from = 0, rt_effective = 0\<rparr>"

definition register0 :: db where
  "register0 = bank1\<lparr>db_dividends := [sample_dividend],
     db_actions := [sample_action 61 CA_DIVIDEND, sample_action 62 CA_STOCK_SPLIT, sample_action 63 CA_BONUS_ISSUE],
     db_splits := [sample_ratio 62 1 2], db_bonuses := [sample_ratio 63 10 1],
     db_holdings := [\<lparr>h_userId = 1, h_stockId = 40, h_brokerId = None, h_quantity = 250, h_averageCost = 8\<rparr>]\<rparr>"

lemma register0_ok: "books_ok register0" "solvent register0" "holdings_ok register0"
proof -
  show "books_ok register0" using bank1_books by (rule books_cong [rotated -1]) (simp_all add: register0_def)
  show "solvent register0" unfolding solvent_def by code_simp
  show "holdings_ok register0" unfolding holdings_ok_def by code_simp
qed

lemma register0_payable: "dividend_payable register0 60"
  by (simp add: dividend_payable_def findDividendById_def register0_def sample_dividend_def findShareholdersByStock_def
      dividend_in_range_def)

section \<open>Properties\<close>

subsection \<open>Repeated distributions\<close>

lemma dividend_kept:
  assumes "db_holdings s' = db_holdings s"
    and "findDividendById s' i = map_option (dv_status_update (\<lambda>_. st)) (findDividendById s i)"
  shows "dividend_payable s i \<Longrightarrow> dividend_payable s' i" and "entitlement R s' i u = entitlement R s i u"
proof -
  have sh: "findShareholdersByStock s' j = findShareholdersByStock s j" for j
    using assms(1) by (simp add: findShareholdersByStock_def)
  show "dividend_payable s i \<Longrightarrow> dividend_payable s' i"
    using assms(2) by (cases "findDividendById s i") (simp_all add: dividend_payable_def sh dividend_in_range_def)
  show "entitlement R s' i u = entitlement R s i u"
    using assms(2) by (cases "findDividendById s i") (simp_all add: entitlement_def sh dividend_figures_def split: option.split)
qed

text \<open>The distribution of one dividend run again and again, each time with its own clock and outcomes.\<close>

primrec distribute_runs :: "(runtime \<times> (uuid \<Rightarrow> tx_end)) list \<Rightarrow> uuid \<Rightarrow> db \<Rightarrow> db" where
  "distribute_runs [] i s = s"
| "distribute_runs (r # rs) i s = distribute_runs rs i (snd (distributeDividend (fst r) (snd r) s i))"

text \<open>What a dividend owes a user: shares held times the amount per share, less the withholding tax.\<close>

definition owed :: "db \<Rightarrow> uuid \<Rightarrow> uuid \<Rightarrow> rat" where
  "owed s i u = (case findDividendById s i of None \<Rightarrow> 0 | Some d \<Rightarrow>
     (case findUserHolding s u (dv_stockId d) of None \<Rightarrow> 0 | Some h \<Rightarrow>
        if 0 < h_quantity h then h_quantity h * dv_amountPerShare d * (1 - dv_withholdingTaxPct d / 100) else 0))"

text \<open>Figures decimal arithmetic computes without rounding: a tax rate of two places and less than a hundred
  million before tax for every position.\<close>

definition dividend_exact :: "db \<Rightarrow> uuid \<Rightarrow> bool" where
  "dividend_exact s i \<longleftrightarrow> (case findDividendById s i of None \<Rightarrow> True
     | Some d \<Rightarrow> places 2 (dv_withholdingTaxPct d) \<and>
         (\<forall>h \<in> set (findShareholdersByStock s (dv_stockId d)). h_quantity h * dv_amountPerShare d < 10 ^ 8))"

lemma dividend_net_exact:
  assumes "numeric_runtime R" and "dividend_in_range d q" and "places 2 (dv_withholdingTaxPct d)"
    and "q * dv_amountPerShare d < 10 ^ 8"
  shows "dividend_net R d q = q * dv_amountPerShare d * (1 - dv_withholdingTaxPct d / 100)"
proof -
  note r = assms(2) [unfolded dividend_in_range_def]
  let ?g = "q * dv_amountPerShare d" and ?p = "dv_withholdingTaxPct d / 100"
  have g: "places 8 ?g" "0 \<le> ?g" using places_mult [of 4 q 4 "dv_amountPerShare d"] r by simp_all
  have p: "places 4 ?p" "0 \<le> ?p" "?p \<le> 1"
    using places_mult [OF assms(3), of 2 "1 / 100"] r placesI [of "1 / 100" 2 1] by simp_all
  have t: "places 12 (?g * ?p)" using places_mult [OF g(1) p(1)] by simp
  have gp: "0 \<le> ?g * ?p" "?g * ?p \<le> ?g" using g p mult_left_mono [of ?p 1 ?g] by simp_all
  have 1: "dmul R q (dv_amountPerShare d) = ?g"
    unfolding dmul_def using g assms(4) by (intro numeric_runtime.rnd_places [OF assms(1) g(1)]) simp
  have 2: "ddiv R (dv_withholdingTaxPct d) 100 = ?p"
    unfolding ddiv_def using p by (intro numeric_runtime.rnd_places [OF assms(1) p(1)]) simp
  have 3: "dmul R ?g ?p = ?g * ?p"
    unfolding dmul_def using gp assms(4) by (intro numeric_runtime.rnd_places [OF assms(1) t]) simp
  have 4: "dsub R ?g (?g * ?p) = ?g - ?g * ?p"
    unfolding dsub_def using gp assms(4) t places_mono [OF g(1), of 12]
    by (intro numeric_runtime.rnd_places [OF assms(1), of 12] places_diff) simp_all
  show ?thesis unfolding dividend_figures_def Let_def 1 2 3 4 snd_conv by (simp add: right_diff_distrib)
qed

lemma entitlement_owed:
  assumes "numeric_runtime R" and "holdings_ok s" and "dividend_payable s i" and "dividend_exact s i"
  shows "entitlement R s i u = num4 R (owed s i u)"
proof (cases "findDividendById s i")
  case None
  with numeric_runtime.num4_0 [OF assms(1)] show ?thesis by (simp add: entitlement_def owed_def)
next
  case (Some d)
  let ?f = "List.find (\<lambda>h. h_userId h = u) (findShareholdersByStock s (dv_stockId d))"
  have "num4 R (dividend_net R d (h_quantity h)) = num4 R (h_quantity h * dv_amountPerShare d * (1 - dv_withholdingTaxPct d / 100))"
    if "?f = Some h" for h
  proof -
    have "h \<in> set (findShareholdersByStock s (dv_stockId d))" using that by (auto simp: find_Some_iff)
    then show ?thesis using assms(3,4) Some
      by (subst dividend_net_exact [OF assms(1)]) (auto simp: dividend_payable_def dividend_exact_def)
  qed
  then show ?thesis
    using Some numeric_runtime.num4_0 [OF assms(1)]
    by (auto simp: entitlement_def owed_def shareholder_find [OF assms(2)] split: option.splits if_splits)
qed

text \<open>Once every holder is recorded, no further run moves money.\<close>

lemma spent_runs:
  assumes "\<forall>r \<in> set rs. numeric_runtime (fst r)" and "books_ok s" and "solvent s" and "holdings_ok s"
    and "dividend_payable s i" and "\<forall>u. distributed s i u \<or> (\<forall>R. entitlement R s i u = 0)"
  shows "books_ok (distribute_runs rs i s) \<and> solvent (distribute_runs rs i s) \<and>
     balance_of (distribute_runs rs i s) u = balance_of s u"
  using assms
proof (induction rs arbitrary: s)
  case (Cons x rs)
  let ?s = "snd (distributeDividend (fst x) (snd x) s i)"
  have "numeric_runtime (fst x)" using Cons.prems(1) by simp
  note e = distributeDividend_effect [OF this Cons.prems(2-5) prod.collapse [symmetric], of "snd x"]
  have h: "holdings_ok ?s" using e Cons.prems(4) by (simp add: holdings_ok_def)
  have pay: "dividend_payable ?s i" and ent: "entitlement R ?s i v = entitlement R s i v" for R v
    using dividend_kept [of ?s s i] e Cons.prems(5) by blast+
  have "balance_of ?s v = balance_of s v" for v
    using e Cons.prems(6) by (cases "distributed s i v") (auto simp: option.map_ident cong: if_cong)
  moreover have "\<forall>v. distributed ?s i v \<or> (\<forall>R. entitlement R ?s i v = 0)" using e ent by auto
  ultimately show ?case using Cons.IH [of ?s] Cons.prems(1) e h pay by simp
qed simp

text \<open>C18. A dividend is paid at most once.  Run its distribution any number of times, whatever the outcome of each
  holder's transaction in each run: the double-entry books and the balances stay in order, and a user's
  wallet has changed only if the user had no distribution row and the transaction of the first run
  committed, by shares held times amount per share less the withholding tax, at the column's four places.
  The rate is of at most two places and the figures are within the columns' range, below a hundred million
  for each position.\<close>

theorem dividend_paid_once:
  assumes "numeric_runtime R" and "\<forall>r \<in> set rs. numeric_runtime (fst r)"
    and "books_ok s" and "solvent s" and "holdings_ok s" and "dividend_payable s i" and "dividend_exact s i"
    and "s' = distribute_runs ((R, out) # rs) i s"
  shows "books_ok s' \<and> solvent s' \<and>
     balance_of s' u = map_option (\<lambda>b. if \<not> distributed s i u \<and> out u = Committed
        then b + num4 R (owed s i u) else b) (balance_of s u)"
proof -
  let ?s = "snd (distributeDividend R out s i)"
  note e = distributeDividend_effect [OF assms(1,3-6) prod.collapse [symmetric], of out]
  have h: "holdings_ok ?s" using e assms(5) by (simp add: holdings_ok_def)
  have pay: "dividend_payable ?s i" and ent: "entitlement R ?s i v = entitlement R s i v" for R v
    using dividend_kept [of ?s s i] e assms(6) by blast+
  have "\<forall>v. distributed ?s i v \<or> (\<forall>R. entitlement R ?s i v = 0)" using e ent by auto
  from spent_runs [OF assms(2) _ _ h pay this, of u] e
  show ?thesis by (simp add: assms(8) entitlement_owed [OF assms(1,5,6,7)] cong: if_cong)
qed

theorem dividend_paid_once_witness:
  "let s' = distribute_runs [(pg_runtime 5, \<lambda>_. Committed), (pg_runtime 6, \<lambda>_. Committed), (pg_runtime 7, \<lambda>_. Commit_conflict)]
      60 register0
   in balance_of s' 1 = Some (975 + 250 * 10 * (9 / 10)) \<and> books_ok s'"
proof -
  let ?rs = "[(pg_runtime 6, \<lambda>_. Committed), (pg_runtime 7, \<lambda>_. Commit_conflict)]"
  have n: "\<forall>r \<in> set ?rs. numeric_runtime (fst r)" by (simp add: pg.numeric_runtime_axioms)
  have x: "dividend_exact register0 60"
    by (simp add: dividend_exact_def findDividendById_def register0_def sample_dividend_def findShareholdersByStock_def)
  have "balance_of register0 1 = Some 975 \<and> num4 (pg_runtime 5) (owed register0 60 1) = 2250 \<and>
      \<not> distributed register0 60 1" by code_simp
  with dividend_paid_once [OF pg.numeric_runtime_axioms n register0_ok register0_payable x refl, of 5 "\<lambda>_. Committed" 1]
  show ?thesis by (simp add: Let_def)
qed

text \<open>A split of \<open>k\<close> shares for one multiplies the quantity of every holder served by exactly \<open>k\<close>, keeps the
  cost of the position when the divided average cost fits the column, and touches no cash, no ledger and no
  position in another stock.\<close>

lemma split_exact:
  assumes "numeric_runtime R" and "holdings_ok s" and "action_ratio (db_splits s) ca = Some sp"
    and "applyStockSplit R out s ca = (Inr n, s')" and "rt_ratioTo sp = k * rt_ratioFrom sp" and "rt_ratioFrom sp \<noteq> 0"
    and "0 < k" and "k < 2 ^ 31" and "findUserHolding s u (rt_stockId sp) = Some x" and "out u = Committed"
    and "0 < h_quantity x" and "places 4 (h_quantity x)" and "h_quantity x * of_int k < 10 ^ 14"
  shows "money_eq s s' \<and>
     (\<exists>x'. findUserHolding s' u (rt_stockId sp) = Some x' \<and> h_quantity x' = h_quantity x * of_int k \<and>
        (places 4 (h_averageCost x / of_int k) \<and> \<bar>h_averageCost x / of_int k\<bar> < 10 ^ 14 \<longrightarrow>
           h_quantity x' * h_averageCost x' = h_quantity x * h_averageCost x)) \<and>
     (\<forall>v j. j \<noteq> rt_stockId sp \<longrightarrow> findUserHolding s' v j = findUserHolding s v j)"
proof -
  note e = applyStockSplit_effect [OF assms(2-4)]
  note rt = numeric_runtime.rnd_places [OF assms(1)]
  have other: "findUserHolding s' v j = findUserHolding s v j" if "j \<noteq> rt_stockId sp" for v j
    using e(2) [of v j] that by (cases "findUserHolding s v j") (auto simp: position_after_def split: option.splits)
  have "of_int (rt_ratioTo sp) / of_int (rt_ratioFrom sp) = (of_int k :: rat)" using assms(5,6) by simp
  moreover have "(of_int k :: rat) < of_int (2 ^ 31)" using assms(8) by (simp only: of_int_less_iff)
  then have "rnd R (of_int k) = of_int k" using assms(7) by (intro rt [of 0]) (simp_all add: places_def)
  ultimately have m: "ddiv R (of_int (rt_ratioTo sp)) (of_int (rt_ratioFrom sp)) = of_int k" by (simp add: ddiv_def)
  have pk: "places 0 (of_int k)" by (simp add: places_def)
  have q: "dmul R (h_quantity x) (of_int k) = h_quantity x * of_int k" "places 4 (h_quantity x * of_int k)"
  proof -
    show p: "places 4 (h_quantity x * of_int k)" using places_mult [OF assms(12) pk] by simp
    show "dmul R (h_quantity x) (of_int k) = h_quantity x * of_int k"
      unfolding dmul_def using assms(7,11,13) by (intro rt [OF p]) (simp add: abs_mult mult.commute)
  qed
  have pos: "position_after (rt_stockId sp) (split_update R sp out) (findShareholdersByStock s (rt_stockId sp)) u (rt_stockId sp) x =
      x\<lparr>h_quantity := h_quantity x * of_int k, h_averageCost := num4 R (ddiv R (h_averageCost x) (of_int k))\<rparr>"
    using assms(6,7,9-11) q numeric_runtime.num4_exact [OF assms(1) q(2)] findUserHolding_Some [OF assms(9)]
    by (simp add: position_after_def shareholder_find [OF assms(2)] split_update_def m Let_def)
  have cost: "num4 R (ddiv R (h_averageCost x) (of_int k)) = h_averageCost x / of_int k"
    if "places 4 (h_averageCost x / of_int k)" "\<bar>h_averageCost x / of_int k\<bar> < 10 ^ 14"
  proof -
    define c where "c = h_averageCost x / of_int k"
    have "rnd R c = c" using that unfolding c_def [symmetric] by (intro rt [of 4]) simp_all
    then show ?thesis using that(1) by (simp add: ddiv_def numeric_runtime.num4_exact [OF assms(1)] flip: c_def)
  qed
  show ?thesis using e(1) e(2) [of u "rt_stockId sp"] other pos cost assms(7,9) by auto
qed

text \<open>Bonus shares are whole and bounded: a holder of at most \<open>k\<close> blocks receives a whole number of shares
  between zero and \<open>k\<close> times the ratio, a holder of exactly \<open>k\<close> blocks whose transaction commits receives
  exactly that many, and no cash moves.\<close>

lemma bonus_whole_shares:
  assumes "numeric_runtime R" and "holdings_ok s" and "action_ratio (db_bonuses s) ca = Some b"
    and "distributeBonusShares R out s ca = (Inr r, s')" and "0 < rt_ratioFrom b" and "0 < rt_ratioTo b"
    and "findUserHolding s u (rt_stockId b) = Some x" and "0 < h_quantity x" and "places 4 (h_quantity x)"
    and "h_quantity x \<le> of_int (k * rt_ratioFrom b)" and "k * rt_ratioFrom b \<le> 10 ^ 12" and "k * rt_ratioTo b \<le> 10 ^ 12"
  shows "money_eq s s' \<and> (\<exists>x' n. findUserHolding s' u (rt_stockId b) = Some x' \<and>
     h_quantity x' = h_quantity x + of_int n \<and> 0 \<le> n \<and> n \<le> k * rt_ratioTo b \<and>
     (out u = Committed \<and> h_quantity x = of_int (k * rt_ratioFrom b) \<longrightarrow> n = k * rt_ratioTo b))"
proof -
  note e = distributeBonusShares_effect [OF assms(2-4)]
  note mono = numeric_runtime.rnd_mono [OF assms(1)]
  let ?n = "bonus_shares R b (h_quantity x)"
  have int: "rnd R (of_int z) = of_int z" if "\<bar>z\<bar> \<le> 10 ^ 13" for z
  proof -
    have "(of_int \<bar>z\<bar> :: rat) \<le> of_int (10 ^ 13)" using that by (simp only: of_int_le_iff)
    then show ?thesis by (intro numeric_runtime.rnd_places [OF assms(1), of 0]) (simp_all add: places_def)
  qed
  have "0 < (of_int (k * rt_ratioFrom b) :: rat)" using assms(8,10) by linarith
  then have k: "0 < k" using assms(5) by (simp add: zero_less_mult_iff)
  have "k \<le> k * rt_ratioFrom b" using k assms(5) by simp
  then have "k \<le> 10 ^ 12" using assms(11) by (rule order_trans)
  then have ki: "rnd R (of_int k) = of_int k" using k by (intro int) simp
  have kt: "rnd R (of_int (k * rt_ratioTo b)) = of_int (k * rt_ratioTo b)"
    using k assms(6,12) by (intro int) (simp add: abs_mult)
  have quot: "h_quantity x / of_int (rt_ratioFrom b) \<le> of_int k"
    using assms(5,10) by (simp add: pos_divide_le_eq)
  have "ddiv R (h_quantity x) (of_int (rt_ratioFrom b)) \<le> of_int k"
    using mono [OF quot] ki by (simp add: ddiv_def)
  then have "dmul R (ddiv R (h_quantity x) (of_int (rt_ratioFrom b))) (of_int (rt_ratioTo b)) \<le> of_int (k * rt_ratioTo b)"
    using mono [of "ddiv R (h_quantity x) (of_int (rt_ratioFrom b)) * of_int (rt_ratioTo b)" "of_int (k * rt_ratioTo b)"]
      kt assms(6) by (simp add: dmul_def)
  then have n1: "?n \<le> k * rt_ratioTo b" unfolding bonus_shares_def by linarith
  have "0 \<le> dmul R (ddiv R (h_quantity x) (of_int (rt_ratioFrom b))) (of_int (rt_ratioTo b))"
    using assms(5,6,8) by (simp add: runtime_nonneg [OF assms(1)])
  then have n0: "0 \<le> ?n" unfolding bonus_shares_def by linarith
  have full: "?n = k * rt_ratioTo b" if "h_quantity x = of_int (k * rt_ratioFrom b)"
    using that assms(5) ki kt floor_of_int [where ?'a = rat, of "k * rt_ratioTo b"]
    by (simp add: bonus_shares_def ddiv_def dmul_def)
  have p: "places 4 (h_quantity x + of_int ?n)"
    using assms(9) places_mono [of 0 "of_int ?n" 4] by (intro places_add) (simp_all add: places_def)
  have bound: "of_int ?n \<le> (10 ^ 12 :: rat)" "h_quantity x \<le> 10 ^ 12"
  proof -
    have "of_int ?n \<le> (of_int (10 ^ 12) :: rat)" using n1 assms(12) by (simp only: of_int_le_iff)
    then show "of_int ?n \<le> (10 ^ 12 :: rat)" by simp
    have "of_int (k * rt_ratioFrom b) \<le> (of_int (10 ^ 12) :: rat)" using assms(11) by (simp only: of_int_le_iff)
    then show "h_quantity x \<le> 10 ^ 12" using assms(10) by simp
  qed
  have q: "num4 R (dadd R (h_quantity x) (of_int ?n)) = h_quantity x + of_int ?n"
    unfolding dadd_def using p bound n0 assms(8)
    by (simp add: numeric_runtime.rnd_places [OF assms(1) p] numeric_runtime.num4_exact [OF assms(1)])
  have pos: "h_quantity (position_after (rt_stockId b) (bonus_update R b out) (findShareholdersByStock s (rt_stockId b)) u
      (rt_stockId b) x) = h_quantity x + (if out u = Committed then of_int ?n else 0)"
    using assms(5,7,8) q n0 findUserHolding_Some [OF assms(7)]
    by (simp add: position_after_def shareholder_find [OF assms(2)] bonus_update_def Let_def)
  show ?thesis using e(1) e(2) [of u "rt_stockId b"] pos n0 n1 full assms(7) k assms(6)
    by (intro conjI exI [of _ "if out u = Committed then ?n else 0"]) auto
qed

section \<open>A credit that is lost\<close>

text \<open>
  The distribution row is written outside the holder's transaction.  When that transaction is refused
  the row stays, the dividend is marked credited, and a further run finds the row and skips the holder:
  the 2250 owed are never paid.  A refusal at the commit is even counted in the reported totals.
\<close>

lemma dividend_lost_after_conflict:
  "let (r, s) = distributeDividend (pg_runtime 5) (\<lambda>_. Commit_conflict) register0 60;
       (r', s') = distributeDividend (pg_runtime 6) (\<lambda>_. Committed) s 60
   in r = Inr (1, 2250, 250) \<and> balance_of s 1 = Some 975 \<and> map dv_status (db_dividends s) = [DV_CREDITED] \<and>
      r' = Inr (0, 0, 0) \<and> balance_of s' 1 = Some 975"
  by code_simp

end
