(* ===== verification/SavedCards.thy ===== *)
theory SavedCards
  imports Store
begin

text \<open>
  Card data: the Luhn check, the saved cards of a user
  (\<^verbatim>\<open>src/modules/payments/services/saved-card.service.ts\<close>), the sealed storage of legacy card numbers
  (\<^verbatim>\<open>card-encryption.service.ts\<close>) and the mock gateway of the test mode
  (\<^verbatim>\<open>mock-bank-card.service.ts\<close>).

  The AES-256-GCM primitives of the host are arguments: \<open>seal iv aad plain\<close> gives the tag and the
  ciphertext, \<open>unseal iv aad tag cipher\<close> the plaintext or nothing.  A string is a list of bytes.
\<close>

section \<open>Strings\<close>

definition slice_last :: "nat \<Rightarrow> string \<Rightarrow> string" where
  "slice_last n s = drop (length s - n) s"

definition char_code :: "char \<Rightarrow> int" where
  "char_code c = int (of_char c)"

definition is_digit :: "char \<Rightarrow> bool" where
  "is_digit c \<longleftrightarrow> 48 \<le> char_code c \<and> char_code c \<le> 57"

definition js_space :: "char \<Rightarrow> bool" where
  "js_space c \<longleftrightarrow> char_code c \<in> {9, 10, 11, 12, 13, 32, 160}"

definition padStart2 :: "string \<Rightarrow> string" where
  "padStart2 s = replicate (2 - length s) CHR ''0'' @ s"

definition short_year :: "string \<Rightarrow> string" where
  "short_year y = (if length y = 4 then slice_last 2 y else y)"

fun split_on :: "char \<Rightarrow> string \<Rightarrow> string list" where
  "split_on c [] = [[]]"
| "split_on c (x # xs) = (if x = c then [] # split_on c xs
     else case split_on c xs of [] \<Rightarrow> [[x]] | p # ps \<Rightarrow> (x # p) # ps)"

section \<open>The Luhn check\<close>

text \<open>The loop runs from the last character to the first; \<open>dbl\<close> alternates.  The first version rejects a
  character that is not a digit, the second is only called on digits.\<close>

definition luhn_digit :: "bool \<Rightarrow> int \<Rightarrow> int" where
  "luhn_digit dbl d = (if dbl then (if 2 * d > 9 then 2 * d - 9 else 2 * d) else d)"

fun luhn_loop :: "bool \<Rightarrow> int \<Rightarrow> string \<Rightarrow> bool" where
  "luhn_loop dbl acc [] \<longleftrightarrow> acc mod 10 = 0"
| "luhn_loop dbl acc (c # cs) \<longleftrightarrow>
     (let d = char_code c - 48
      in if d < 0 \<or> d > 9 then False else luhn_loop (\<not> dbl) (acc + luhn_digit dbl d) cs)"

definition luhnValid :: "string \<Rightarrow> bool" where
  "luhnValid num = luhn_loop False 0 (rev num)"

fun luhn_sum :: "bool \<Rightarrow> int \<Rightarrow> string \<Rightarrow> int" where
  "luhn_sum dbl acc [] = acc"
| "luhn_sum dbl acc (c # cs) = luhn_sum (\<not> dbl) (acc + luhn_digit dbl (char_code c - 48)) cs"

definition saved_luhnValid :: "string \<Rightarrow> bool" where
  "saved_luhnValid pan \<longleftrightarrow> luhn_sum False 0 (rev pan) mod 10 = 0"

section \<open>Card encryption\<close>

definition hex_digit :: "nat \<Rightarrow> char" where
  "hex_digit n = (if n < 10 then char_of (48 + n) else char_of (87 + n))"

definition hex_value :: "char \<Rightarrow> nat option" where
  "hex_value c =
     (let n = of_char c :: nat
      in if 48 \<le> n \<and> n \<le> 57 then Some (n - 48)
         else if 97 \<le> n \<and> n \<le> 102 then Some (n - 87)
         else if 65 \<le> n \<and> n \<le> 70 then Some (n - 55) else None)"

fun to_hex :: "string \<Rightarrow> string" where
  "to_hex [] = []"
| "to_hex (c # cs) = hex_digit (of_char c div 16) # hex_digit (of_char c mod 16) # to_hex cs"

text \<open>\<open>Buffer.from(s, 'hex')\<close> stops at the first pair that is not hexadecimal.\<close>

fun of_hex :: "string \<Rightarrow> string" where
  "of_hex (a # b # cs) =
     (case (hex_value a, hex_value b) of
        (Some x, Some y) \<Rightarrow> char_of (16 * x + y) # of_hex cs
      | _ \<Rightarrow> [])"
| "of_hex _ = []"

definition card_aad :: "uuid \<Rightarrow> string" where
  "card_aad u = ''pine-card:'' @ uuid_str u"

type_synonym seal = "string \<Rightarrow> string \<Rightarrow> string \<Rightarrow> string \<times> string"
type_synonym unseal = "string \<Rightarrow> string \<Rightarrow> string \<Rightarrow> string \<Rightarrow> string option"

definition card_encrypt :: "seal \<Rightarrow> string \<Rightarrow> string \<Rightarrow> uuid \<Rightarrow> string" where
  "card_encrypt seal iv pan u =
     (let (tag, cipher) = seal iv (card_aad u) pan
      in to_hex iv @ '':'' @ to_hex tag @ '':'' @ to_hex cipher)"

definition card_decrypt :: "unseal \<Rightarrow> string \<Rightarrow> uuid \<Rightarrow> string option" where
  "card_decrypt unseal stored u =
     (case split_on CHR '':'' stored of
        ivHex # tagHex # encrypted # _ \<Rightarrow> unseal (of_hex ivHex) (card_aad u) (of_hex tagHex) (of_hex encrypted)
      | _ \<Rightarrow> None)"

section \<open>Saved cards\<close>

record CardView =
  cv_id :: uuid
  cv_last4 :: string
  cv_cardBrand :: string
  cv_cardholderName :: string
  cv_expiryMonth :: string
  cv_expiryYear :: string
  cv_isDefault :: bool
  cv_createdAt :: timestamp

definition safe_select :: "saved_card \<Rightarrow> CardView" where
  "safe_select c = \<lparr>cv_id = sc_id c, cv_last4 = sc_last4 c, cv_cardBrand = sc_cardBrand c,
     cv_cardholderName = sc_cardholderName c, cv_expiryMonth = sc_expiryMonth c, cv_expiryYear = sc_expiryYear c,
     cv_isDefault = sc_isDefault c, cv_createdAt = sc_createdAt c\<rparr>"

definition cards_of :: "db \<Rightarrow> uuid \<Rightarrow> saved_card list" where
  "cards_of s u = filter (\<lambda>c. sc_userId c = u) (db_savedCards s)"

text \<open>\<open>orderBy: [{ isDefault: 'desc' }, { createdAt: 'desc' }]\<close>\<close>

definition card_order :: "saved_card list \<Rightarrow> saved_card list" where
  "card_order cs = sort_key (\<lambda>c. if sc_isDefault c then 0 else 1 :: nat) (sort_key (\<lambda>c. - sc_createdAt c) cs)"

definition listCards :: "db \<Rightarrow> uuid \<Rightarrow> CardView list" where
  "listCards s u = map safe_select (card_order (cards_of s u))"

definition detectBrand :: "string \<Rightarrow> string" where
  "detectBrand num =
     (case num of
        [] \<Rightarrow> ''UNKNOWN''
      | a # r \<Rightarrow>
          if a = CHR ''4'' then ''VISA''
          else (case r of [] \<Rightarrow> ''UNKNOWN''
            | b # _ \<Rightarrow> if a = CHR ''5'' \<and> b \<in> set ''12345'' \<or> a = CHR ''2'' \<and> b \<in> set ''234567'' then ''MASTERCARD''
                else ''UNKNOWN''))"

definition valid_pan :: "string \<Rightarrow> bool" where
  "valid_pan pan \<longleftrightarrow> 13 \<le> length pan \<and> length pan \<le> 19 \<and> list_all is_digit pan \<and> saved_luhnValid pan"

definition create_card ::
  "runtime \<Rightarrow> db \<Rightarrow> uuid \<Rightarrow> string \<Rightarrow> string \<Rightarrow> string \<Rightarrow> string \<Rightarrow> string \<Rightarrow> string option \<Rightarrow> string option \<Rightarrow>
     uuid option \<Rightarrow> bool \<Rightarrow> db \<times> CardView" where
  "create_card R s u last4 brand name month year enc token broker dflt =
     (let c = \<lparr>sc_id = db_uid s, sc_userId = u, sc_last4 = last4, sc_cardBrand = brand, sc_cardholderName = name,
            sc_expiryMonth = month, sc_expiryYear = year, sc_cardNumberEncrypted = enc, sc_gatewayToken = token,
            sc_tokenBrokerId = broker, sc_isDefault = dflt, sc_createdAt = now R\<rparr>
      in (s\<lparr>db_uid := Suc (db_uid s), db_savedCards := db_savedCards s @ [c]\<rparr>, safe_select c))"

definition saveCard ::
  "runtime \<Rightarrow> seal \<Rightarrow> string \<Rightarrow> db \<Rightarrow> uuid \<Rightarrow> string \<Rightarrow> string \<Rightarrow> string \<Rightarrow> string \<Rightarrow> err + db \<times> CardView" where
  "saveCard R seal iv s u cardNumber name month year =
     (let pan = filter (\<lambda>c. \<not> js_space c) cardNumber
      in if \<not> valid_pan pan then Inl (BadRequest (Msg ''Card number is not valid.''))
         else if length (cards_of s u) \<ge> 5
         then Inl (BadRequest (Msg ''Maximum 5 saved cards allowed. Delete one first.''))
         else
           let last4 = slice_last 4 pan; yy = short_year year
           in case List.find (\<lambda>c. sc_last4 c = last4 \<and> sc_expiryMonth c = month \<and> sc_expiryYear c = yy) (cards_of s u) of
                Some c \<Rightarrow> Inr (s, safe_select c)
              | None \<Rightarrow> Inr (create_card R s u last4 (detectBrand pan) name month yy
                    (Some (card_encrypt seal iv pan u)) None None (length (cards_of s u) = 0)))"

record card_token =
  ct_token :: string
  ct_last4 :: string
  ct_cardBrand :: string
  ct_cardholderName :: string
  ct_expiryMonth :: string
  ct_expiryYear :: string

definition saveTokenizedCard :: "runtime \<Rightarrow> db \<Rightarrow> uuid \<Rightarrow> uuid \<Rightarrow> card_token \<Rightarrow> err + db \<times> CardView" where
  "saveTokenizedCard R s u broker d =
     (if length (cards_of s u) \<ge> 5
      then Inl (BadRequest (Msg ''Maximum 5 saved cards allowed. Delete one first.''))
      else
        let yy = short_year (ct_expiryYear d); mm = padStart2 (ct_expiryMonth d)
        in case List.find (\<lambda>c. sc_last4 c = ct_last4 d \<and> sc_expiryMonth c = mm \<and> sc_expiryYear c = yy \<and>
                 sc_tokenBrokerId c = Some broker) (cards_of s u) of
             Some c \<Rightarrow>
               (let f = (\<lambda>c. c\<lparr>sc_gatewayToken := Some (ct_token d), sc_cardholderName := ct_cardholderName d\<rparr>)
                in Inr (s\<lparr>db_savedCards := upd_where (\<lambda>x. sc_id x = sc_id c) f (db_savedCards s)\<rparr>, safe_select (f c)))
           | None \<Rightarrow> Inr (create_card R s u (ct_last4 d) (ct_cardBrand d) (ct_cardholderName d) mm yy None
                 (Some (ct_token d)) (Some broker) (length (cards_of s u) = 0)))"

definition findCard :: "db \<Rightarrow> uuid \<Rightarrow> uuid \<Rightarrow> saved_card option" where
  "findCard s u i = List.find (\<lambda>c. sc_id c = i \<and> sc_userId c = u) (db_savedCards s)"

text \<open>\<open>!card.gatewayToken\<close>: absent or empty.\<close>

definition token_of :: "saved_card \<Rightarrow> string option" where
  "token_of c = (case sc_gatewayToken c of Some t \<Rightarrow> if t = [] then None else Some t | None \<Rightarrow> None)"

definition getChargeableToken :: "db \<Rightarrow> uuid \<Rightarrow> uuid \<Rightarrow> uuid \<Rightarrow> err + string \<times> string \<times> string" where
  "getChargeableToken s u cardId broker =
     (case findCard s u cardId of
        None \<Rightarrow> Inl (NotFound (Msg ''Saved card not found.''))
      | Some c \<Rightarrow>
          (case token_of c of
             None \<Rightarrow> Inl (BadRequest (Msg ''This saved card needs to be re-added before it can be used.''))
           | Some t \<Rightarrow>
               if sc_tokenBrokerId c \<noteq> None \<and> sc_tokenBrokerId c \<noteq> Some broker
               then Inl (BadRequest (Msg ''This card was saved with a different broker and can no longer be charged.''))
               else Inr (t, sc_last4 c, sc_cardBrand c)))"

definition listChargeableCards :: "db \<Rightarrow> uuid \<Rightarrow> uuid option \<Rightarrow> (CardView \<times> bool) list" where
  "listChargeableCards s u broker =
     map (\<lambda>c. (safe_select c, token_of c \<noteq> None \<and> (sc_tokenBrokerId c = None \<or> sc_tokenBrokerId c = broker)))
       (card_order (cards_of s u))"

text \<open>The delete and the promotion are separate statements, in this order.\<close>

definition deleteCard :: "db \<Rightarrow> uuid \<Rightarrow> uuid \<Rightarrow> err + db" where
  "deleteCard s u cardId =
     (case findCard s u cardId of
        None \<Rightarrow> Inl (NotFound (Msg ''Card not found''))
      | Some c \<Rightarrow>
          (let s1 = s\<lparr>db_savedCards := filter (\<lambda>x. sc_id x \<noteq> cardId) (db_savedCards s)\<rparr>
           in if sc_isDefault c then
                (case sort_key sc_createdAt (cards_of s1 u) of
                   [] \<Rightarrow> Inr s1
                 | n # _ \<Rightarrow> Inr (s1\<lparr>db_savedCards :=
                     upd_where (\<lambda>x. sc_id x = sc_id n) (\<lambda>x. x\<lparr>sc_isDefault := True\<rparr>) (db_savedCards s1)\<rparr>))
              else Inr s1))"

definition setDefault :: "db \<Rightarrow> uuid \<Rightarrow> uuid \<Rightarrow> err + db" where
  "setDefault s u cardId =
     (case findCard s u cardId of
        None \<Rightarrow> Inl (NotFound (Msg ''Card not found''))
      | Some _ \<Rightarrow>
          (let cs = upd_where (\<lambda>x. sc_userId x = u) (\<lambda>x. x\<lparr>sc_isDefault := False\<rparr>) (db_savedCards s)
           in Inr (s\<lparr>db_savedCards := upd_where (\<lambda>x. sc_id x = cardId) (\<lambda>x. x\<lparr>sc_isDefault := True\<rparr>) cs\<rparr>)))"

record decrypted_card =
  dc_cardNumber :: string
  dc_cardholderName :: string
  dc_expiryMonth :: string
  dc_expiryYear :: string
  dc_last4 :: string
  dc_cardBrand :: string

definition getDecryptedCard :: "unseal \<Rightarrow> db \<Rightarrow> uuid \<Rightarrow> uuid \<Rightarrow> err + decrypted_card" where
  "getDecryptedCard unseal s u cardId =
     (case findCard s u cardId of
        None \<Rightarrow> Inl (NotFound (Msg ''Saved card not found''))
      | Some c \<Rightarrow>
          (case sc_cardNumberEncrypted c of
             None \<Rightarrow> Inl (BadRequest (Msg ''This card is stored as a secure token and has no card number on file.''))
           | Some e \<Rightarrow>
               if e = [] then Inl (BadRequest (Msg ''This card is stored as a secure token and has no card number on file.''))
               else
                 (case card_decrypt unseal e u of
                    None \<Rightarrow> Inl (PlainError (Msg ''Unsupported state or unable to authenticate data''))
                  | Some pan \<Rightarrow> Inr \<lparr>dc_cardNumber = pan, dc_cardholderName = sc_cardholderName c,
                      dc_expiryMonth = sc_expiryMonth c, dc_expiryYear = sc_expiryYear c, dc_last4 = sc_last4 c,
                      dc_cardBrand = sc_cardBrand c\<rparr>)))"

section \<open>The mock gateway\<close>

datatype MockScenario = Mock_success | Mock_declined | Mock_insufficient_funds | Mock_expired_card
  | Mock_network_failure | Mock_timeout | Mock_duplicate

text \<open>What a gateway call throws: the Mastercard exception with its codes, the exception of an
  unconfigured client, or a network error with its code.\<close>

record mcgs_error =
  me_result :: "string option"
  me_code :: "string option"
  me_cause :: "string option"
  me_explanation :: "string option"
  me_support :: "string option"

datatype gateway_error = McgsError mcgs_error | NotConfigured | NodeError string

record charge_result =
  cr_processorReference :: string
  cr_txRef :: string
  cr_amount :: rat
  cr_currency :: string
  cr_last4 :: string
  cr_cardBrand :: string
  cr_message :: string
  cr_chargedAt :: timestamp

definition MAGIC_SUFFIX_SCENARIOS :: "(string \<times> MockScenario) list" where
  "MAGIC_SUFFIX_SCENARIOS = [(''0002'', Mock_declined), (''0051'', Mock_insufficient_funds),
     (''0069'', Mock_expired_card), (''0119'', Mock_timeout)]"

definition resolveScenario :: "MockScenario option \<Rightarrow> string \<Rightarrow> MockScenario" where
  "resolveScenario explicit cardNumber =
     (case explicit of Some sc \<Rightarrow> sc
      | None \<Rightarrow> (case map_of MAGIC_SUFFIX_SCENARIOS (slice_last 4 cardNumber) of Some sc \<Rightarrow> sc | None \<Rightarrow> Mock_success))"

definition mock_detectBrand :: "string \<Rightarrow> string" where
  "mock_detectBrand num =
     (case num of
        a # r \<Rightarrow>
          if a = CHR ''4'' then ''Visa''
          else (case r of
            b # r' \<Rightarrow>
              if a = CHR ''5'' \<and> b \<in> set ''12345'' then ''Mastercard''
              else if a = CHR ''2'' then
                (case r' of
                   c # _ \<Rightarrow>
                     if b = CHR ''2'' \<and> c \<in> set ''23456789'' \<or> b \<in> set ''3456'' \<and> is_digit c \<or> b = CHR ''7'' \<and> c \<in> set ''01''
                     then ''Mastercard'' else ''Card''
                 | [] \<Rightarrow> ''Card'')
              else ''Card''
          | [] \<Rightarrow> ''Card'')
      | [] \<Rightarrow> ''Card'')"

text \<open>The completed charges, in insertion order; setting a known key keeps its place, and the oldest
  entry goes when there are more than five hundred.\<close>

record mock_charge =
  mc_success :: bool
  mc_amount :: rat
  mc_currency :: string
  mc_updatedAt :: timestamp
  mc_failureReason :: "string option"

type_synonym mock_charges = "(string \<times> mock_charge) list"

fun map_set :: "'k \<Rightarrow> 'v \<Rightarrow> ('k \<times> 'v) list \<Rightarrow> ('k \<times> 'v) list" where
  "map_set k v [] = [(k, v)]"
| "map_set k v ((k', v') # xs) = (if k' = k then (k, v) # xs else (k', v') # map_set k v xs)"

definition record_charge ::
  "runtime \<Rightarrow> mock_charges \<Rightarrow> string \<Rightarrow> rat \<Rightarrow> string \<Rightarrow> bool \<Rightarrow> string option \<Rightarrow> mock_charges" where
  "record_charge R charges txRef amt cur ok reason =
     (let m = map_set txRef \<lparr>mc_success = ok, mc_amount = amt, mc_currency = cur, mc_updatedAt = now R,
            mc_failureReason = reason\<rparr> charges
      in if length m > 500 then tl m else m)"

definition mcgs :: "string \<Rightarrow> string \<Rightarrow> string \<Rightarrow> gateway_error" where
  "mcgs result gcode explanation =
     McgsError \<lparr>me_result = Some result, me_code = Some gcode, me_cause = None, me_explanation = Some explanation,
       me_support = None\<rparr>"

text \<open>\<open>ref\<close> is the random part of the processor reference.\<close>

definition mock_chargeCard ::
  "runtime \<Rightarrow> string \<Rightarrow> mock_charges \<Rightarrow> string \<Rightarrow> rat \<Rightarrow> string \<Rightarrow> string \<Rightarrow> MockScenario option \<Rightarrow>
     (gateway_error + charge_result) \<times> mock_charges" where
  "mock_chargeCard R ref charges txRef amt cur cardNumber explicit =
     (let sc = resolveScenario explicit cardNumber;
          failed = (\<lambda>reason. record_charge R charges txRef amt cur False (Some reason));
          approved = (\<lambda>msg. (Inr \<lparr>cr_processorReference = ''MOCK-'' @ ref, cr_txRef = txRef, cr_amount = amt,
             cr_currency = cur, cr_last4 = slice_last 4 cardNumber, cr_cardBrand = mock_detectBrand cardNumber,
             cr_message = msg, cr_chargedAt = now R\<rparr>, record_charge R charges txRef amt cur True None))
      in case sc of
           Mock_declined \<Rightarrow>
             (Inl (mcgs ''FAILURE'' ''DECLINED'' ''The card was declined by the issuing bank.''), failed ''Card declined by issuer'')
         | Mock_insufficient_funds \<Rightarrow>
             (Inl (mcgs ''FAILURE'' ''INSUFFICIENT_FUNDS'' ''The card has insufficient funds for this payment.''),
              failed ''Insufficient funds'')
         | Mock_expired_card \<Rightarrow> (Inl (mcgs ''FAILURE'' ''EXPIRED_CARD'' ''The card has expired.''), failed ''Card expired'')
         | Mock_timeout \<Rightarrow>
             (Inl (mcgs ''UNKNOWN'' ''TIMED_OUT'' ''The gateway did not respond in time. The charge was not completed.''),
              failed ''Gateway timeout'')
         | Mock_network_failure \<Rightarrow> (Inl (NodeError ''ECONNRESET''), failed ''Network failure'')
         | Mock_duplicate \<Rightarrow>
             approved ''Approved (TEST): duplicate submission was detected and charged exactly once.''
         | Mock_success \<Rightarrow> approved ''Approved (TEST)'')"

record verify_result =
  vr_processorReference :: string
  vr_txRef :: string
  vr_success :: bool
  vr_amount :: rat
  vr_currency :: string
  vr_updatedAt :: timestamp
  vr_failureReason :: "string option"

definition mock_verifyTransaction :: "runtime \<Rightarrow> mock_charges \<Rightarrow> string \<Rightarrow> verify_result" where
  "mock_verifyTransaction R charges txRef =
     (let k = map_of charges txRef
      in \<lparr>vr_processorReference = ''MOCK-'' @ txRef, vr_txRef = txRef,
          vr_success = (case k of Some c \<Rightarrow> mc_success c | None \<Rightarrow> False),
          vr_amount = (case k of Some c \<Rightarrow> mc_amount c | None \<Rightarrow> 0),
          vr_currency = (case k of Some c \<Rightarrow> mc_currency c | None \<Rightarrow> ''MWK''),
          vr_updatedAt = (case k of Some c \<Rightarrow> mc_updatedAt c | None \<Rightarrow> now R),
          vr_failureReason = (case k of Some c \<Rightarrow> mc_failureReason c | None \<Rightarrow> None)\<rparr>)"

section \<open>Luhn detects typing errors\<close>

text \<open>The reference: the weighted digit sum of the reversed number.\<close>

fun luhn_weight :: "bool \<Rightarrow> string \<Rightarrow> int" where
  "luhn_weight dbl [] = 0"
| "luhn_weight dbl (c # cs) = luhn_digit dbl (char_code c - 48) + luhn_weight (\<not> dbl) cs"

lemma luhn_sum_weight: "luhn_sum dbl acc cs = acc + luhn_weight dbl cs"
  by (induction cs arbitrary: dbl acc) simp_all

lemma luhn_loop_weight:
  "luhn_loop dbl acc cs \<longleftrightarrow> list_all is_digit cs \<and> (acc + luhn_weight dbl cs) mod 10 = 0"
  by (induction cs arbitrary: dbl acc) (auto simp: is_digit_def Let_def add.assoc)

lemma luhn_digit_inj:
  assumes "0 \<le> d" "d \<le> 9" "0 \<le> e" "e \<le> 9" and "luhn_digit dbl d mod 10 = luhn_digit dbl e mod 10"
  shows "d = e"
proof -
  have "luhn_digit dbl d = luhn_digit dbl e"
    using assms by (simp add: luhn_digit_def split: if_splits)
  then show ?thesis using assms(1-4) by (simp add: luhn_digit_def split: if_splits) presburger+
qed

lemma char_code_inj: "char_code c = char_code d \<Longrightarrow> c = d"
  by (simp add: char_code_def)

lemma luhn_weight_append: "luhn_weight dbl (xs @ ys) = luhn_weight dbl xs + luhn_weight (dbl = even (length xs)) ys"
proof (induction xs arbitrary: dbl)
  case (Cons x xs)
  then show ?case by (cases dbl; cases "even (length xs)") simp_all
qed simp

lemma luhnValid_weight: "luhnValid num \<longleftrightarrow> list_all is_digit num \<and> luhn_weight False (rev num) mod 10 = 0"
  by (simp add: luhnValid_def luhn_loop_weight)

lemma luhn_substitution:
  assumes "luhnValid (xs @ c # ys)" and "luhnValid (xs @ d # ys)"
  shows "c = d"
proof -
  let ?b = "False = even (length (rev ys))"
  have dig: "is_digit c" "is_digit d" using assms by (simp_all add: luhnValid_weight)
  have "(luhn_weight False (rev ys) + (luhn_digit ?b (char_code c - 48) + luhn_weight (\<not> ?b) (rev xs))) mod 10 =
      (luhn_weight False (rev ys) + (luhn_digit ?b (char_code d - 48) + luhn_weight (\<not> ?b) (rev xs))) mod 10"
    using assms by (simp add: luhnValid_weight luhn_weight_append)
  then have eq: "luhn_digit ?b (char_code c - 48) mod 10 = luhn_digit ?b (char_code d - 48) mod 10"
    by (simp add: mod_eq_dvd_iff)
  have "char_code c - 48 = char_code d - 48"
    by (rule luhn_digit_inj [OF _ _ _ _ eq]) (use dig in \<open>simp_all add: is_digit_def\<close>)
  then show ?thesis by (intro char_code_inj) simp
qed

text \<open>Two neighbouring digits in the wrong order go unnoticed only for a zero and a nine.\<close>

lemma luhn_swap:
  assumes "0 \<le> d" "d \<le> 9" "0 \<le> e" "e \<le> 9"
    and "(luhn_digit b d + luhn_digit (\<not> b) e) mod 10 = (luhn_digit b e + luhn_digit (\<not> b) d) mod 10"
  shows "d = e \<or> d = 0 \<and> e = 9 \<or> d = 9 \<and> e = 0"
proof -
  have "\<forall>b \<in> set [True, False]. \<forall>d \<in> {0..9}. \<forall>e \<in> {0..9}.
      (luhn_digit b d + luhn_digit (\<not> b) e) mod 10 = (luhn_digit b e + luhn_digit (\<not> b) d) mod 10 \<longrightarrow>
      d = e \<or> d = 0 \<and> e = 9 \<or> d = 9 \<and> e = 0" by code_simp
  moreover have "b \<in> set [True, False]" "d \<in> {0..9}" "e \<in> {0..9}" using assms by simp_all
  ultimately show ?thesis using assms(5) by blast
qed

lemma luhn_transposition:
  assumes "luhnValid (xs @ c # d # ys)" and "luhnValid (xs @ d # c # ys)"
  shows "c = d \<or> {c, d} = {CHR ''0'', CHR ''9''}"
proof -
  let ?b = "False = even (length (rev ys))"
  have dig: "is_digit c" "is_digit d" using assms by (simp_all add: luhnValid_weight)
  let ?w = "\<lambda>x y. luhn_digit ?b (char_code y - 48) + luhn_digit (\<not> ?b) (char_code x - 48)"
  have "(luhn_weight False (rev ys) + (?w c d + luhn_weight ?b (rev xs))) mod 10 =
      (luhn_weight False (rev ys) + (?w d c + luhn_weight ?b (rev xs))) mod 10"
    using assms by (simp add: luhnValid_weight luhn_weight_append add.assoc)
  then have "?w c d mod 10 = ?w d c mod 10"
    by (simp add: mod_eq_dvd_iff)
  then have "char_code d - 48 = char_code c - 48 \<or> char_code d - 48 = 0 \<and> char_code c - 48 = 9 \<or>
      char_code d - 48 = 9 \<and> char_code c - 48 = 0"
    using dig by (intro luhn_swap [of _ _ ?b]) (auto simp: is_digit_def)
  moreover have "char_code (CHR ''0'') = 48" "char_code (CHR ''9'') = 57" by (simp_all add: char_code_def)
  ultimately have "char_code d = char_code c \<or> char_code d = char_code (CHR ''0'') \<and> char_code c = char_code (CHR ''9'') \<or>
      char_code d = char_code (CHR ''9'') \<and> char_code c = char_code (CHR ''0'')" by auto
  then show ?thesis using char_code_inj by blast
qed

section \<open>Sealed card numbers\<close>

lemma hex_value_digit: "n < 16 \<Longrightarrow> hex_value (hex_digit n) = Some n"
  by (auto simp: hex_value_def hex_digit_def Let_def)

lemma of_to_hex: "of_hex (to_hex s) = s"
proof (induction s)
  case (Cons c s)
  have "of_char c < (256 :: nat)" by simp
  then have "(of_char c :: nat) div 16 < 16" "(of_char c :: nat) mod 16 < 16"
    by (simp_all add: less_mult_imp_div_less)
  with Cons show ?case by (simp add: hex_value_digit)
qed simp

lemma to_hex_no_colon: "CHR '':'' \<notin> set (to_hex s)"
proof -
  have "hex_digit n \<noteq> CHR '':''" if "n < 16" for n
  proof
    assume "hex_digit n = CHR '':''"
    then have "hex_value (hex_digit n) = hex_value (CHR '':'')" by simp
    moreover have "hex_value (CHR '':'') = None" by (simp add: hex_value_def)
    ultimately show False using hex_value_digit [OF that] by simp
  qed
  then show ?thesis by (induction s) (auto simp: eq_commute [of "CHR '':''"] less_mult_imp_div_less)
qed

lemma split_on_append: "c \<notin> set xs \<Longrightarrow> split_on c (xs @ c # ys) = xs # split_on c ys"
  by (induction xs) auto

lemma split_on_single: "c \<notin> set xs \<Longrightarrow> split_on c xs = [xs]"
  by (induction xs) auto

text \<open>Authenticated encryption: what was sealed is opened again, and only under the same associated data.\<close>

definition aead_ok :: "seal \<Rightarrow> unseal \<Rightarrow> bool" where
  "aead_ok seal unseal \<longleftrightarrow>
     (\<forall>iv aad aad' plain tag cipher. seal iv aad plain = (tag, cipher) \<longrightarrow>
        unseal iv aad' tag cipher = (if aad' = aad then Some plain else None))"

lemma card_seal:
  assumes "aead_ok seal unseal"
  shows "card_decrypt unseal (card_encrypt seal iv pan u) v = (if v = u then Some pan else None)"
proof -
  obtain tag cipher where t: "seal iv (card_aad u) pan = (tag, cipher)" by (cases "seal iv (card_aad u) pan")
  have "card_aad v = card_aad u \<longleftrightarrow> v = u" by (auto simp: card_aad_def dest: uuid_str_inj)
  with t assms show ?thesis
    by (simp add: card_encrypt_def card_decrypt_def aead_ok_def split_on_append split_on_single to_hex_no_colon of_to_hex)
qed

text \<open>A toy cipher that satisfies the law: the tag is the associated data.\<close>

definition toy_seal :: seal where
  "toy_seal iv aad plain = (aad, rev plain)"

definition toy_unseal :: unseal where
  "toy_unseal iv aad tag cipher = (if tag = aad then Some (rev cipher) else None)"

lemma toy_aead: "aead_ok toy_seal toy_unseal"
  by (simp add: aead_ok_def toy_seal_def toy_unseal_def)

lemma find_in_set: "List.find P xs = Some x \<Longrightarrow> x \<in> set xs"
  by (auto simp: find_Some_iff)

section \<open>The invariant of the saved cards\<close>

text \<open>Card ids are fresh and unique; a user has at most five cards and, with any card at all, exactly one
  default.\<close>

definition cards_ok :: "db \<Rightarrow> bool" where
  "cards_ok s \<longleftrightarrow> distinct (map sc_id (db_savedCards s)) \<and> (\<forall>c \<in> set (db_savedCards s). sc_id c < db_uid s) \<and>
     (\<forall>u. length (cards_of s u) \<le> 5 \<and>
        length (filter sc_isDefault (cards_of s u)) = (if cards_of s u = [] then 0 else 1))"

lemma cards_of_upd:
  assumes "\<And>c. sc_userId (f c) = sc_userId c"
  shows "filter (\<lambda>c. sc_userId c = u) (upd_where P f cs) = upd_where P f (filter (\<lambda>c. sc_userId c = u) cs)"
  by (induction cs) (auto simp: upd_where_def assms)

lemma create_card_ok:
  assumes "cards_ok s" and "length (cards_of s u) < 5"
    and "create_card R s u l4 br name mm yy enc tok bk (cards_of s u = []) = (s', v)"
  shows "cards_ok s'"
proof -
  obtain x where s': "s' = s\<lparr>db_uid := Suc (db_uid s), db_savedCards := db_savedCards s @ [x]\<rparr>"
    and x: "sc_userId x = u" "sc_id x = db_uid s" "sc_isDefault x = (cards_of s u = [])"
    using assms(3) by (auto simp: create_card_def Let_def)
  have "cards_of s' w = cards_of s w @ (if w = u then [x] else [])" for w
    using x(1) by (simp add: cards_of_def s')
  moreover have "distinct (map sc_id (db_savedCards s'))" "\<forall>c \<in> set (db_savedCards s'). sc_id c < db_uid s'"
    using assms(1) x(2) by (auto simp: s' cards_ok_def)
  ultimately show ?thesis using assms(1,2) x(3) unfolding cards_ok_def by auto
qed

lemma cards_update_ok:
  assumes "cards_ok s" and "\<And>c. sc_userId (f c) = sc_userId c" "\<And>c. sc_id (f c) = sc_id c"
    "\<And>c. sc_isDefault (f c) = sc_isDefault c"
  shows "cards_ok (s\<lparr>db_savedCards := upd_where P f (db_savedCards s)\<rparr>)"
proof -
  let ?s = "s\<lparr>db_savedCards := upd_where P f (db_savedCards s)\<rparr>"
  have of: "cards_of ?s v = upd_where P f (cards_of s v)" for v
    by (simp add: cards_of_def cards_of_upd assms(2))
  have "length (filter sc_isDefault (upd_where P f cs)) = length (filter sc_isDefault cs)" for cs
    by (induction cs) (auto simp: upd_where_def assms(4))
  moreover have "upd_where P f cs = [] \<longleftrightarrow> cs = []" for cs by (simp add: upd_where_def)
  moreover have "map sc_id (db_savedCards ?s) = map sc_id (db_savedCards s)" by (simp add: map_upd_where assms(3))
  moreover have "\<forall>c \<in> set (db_savedCards ?s). sc_id c < db_uid ?s"
    using assms(1,3) by (auto simp: set_upd_where cards_ok_def)
  ultimately show ?thesis using assms(1) unfolding cards_ok_def of by simp
qed

lemma saveCard_ok:
  assumes "cards_ok s" and "saveCard R seal iv s u num name month year = Inr (s', v)"
  shows "cards_ok s'"
  using assms by (auto simp: saveCard_def Let_def not_le dest: create_card_ok split: if_splits option.splits)

lemma saveTokenizedCard_ok:
  assumes "cards_ok s" and "saveTokenizedCard R s u b d = Inr (s', v)"
  shows "cards_ok s'"
  using assms by (auto simp: saveTokenizedCard_def Let_def not_le intro!: cards_update_ok dest: create_card_ok
      split: if_splits option.splits)

text \<open>After every card but \<open>i\<close> of the user has lost the flag, \<open>i\<close> is the only default.\<close>

lemma filter_key_single:
  assumes "distinct (map k xs)" and "x \<in> set xs"
  shows "filter (\<lambda>y. k y = k x) xs = [x]"
  using assms
proof (induction xs)
  case (Cons a xs)
  then show ?case by (cases "a = x") (auto simp: filter_empty_conv image_iff)
qed simp

lemma length_filter_upd:
  "length (filter P (upd_where Q f xs)) = length (filter (\<lambda>x. P (if Q x then f x else x)) xs)"
  by (induction xs) (auto simp: upd_where_def)

lemma findCard_Some:
  "findCard s u i = Some c \<Longrightarrow> c \<in> set (db_savedCards s) \<and> sc_id c = i \<and> sc_userId c = u"
  by (auto simp: findCard_def find_Some_iff)

lemma cards_of_distinct: "cards_ok s \<Longrightarrow> distinct (map sc_id (cards_of s u))"
  by (simp add: cards_ok_def cards_of_def distinct_map_filter)

lemma setDefault_ok:
  assumes "cards_ok s" and "setDefault s u i = Inr s'"
  shows "cards_ok s'" and "map sc_id (filter sc_isDefault (cards_of s' u)) = [i]"
proof -
  from assms(2) obtain c where c: "findCard s u i = Some c" by (auto simp: setDefault_def split: option.splits)
  note cs = findCard_Some [OF c]
  let ?f = "\<lambda>x. x\<lparr>sc_isDefault := False\<rparr>" let ?g = "\<lambda>x. x\<lparr>sc_isDefault := True\<rparr>"
  let ?P = "\<lambda>x. sc_userId x = u" let ?Q = "\<lambda>x. sc_id x = i"
  have s': "s' = s\<lparr>db_savedCards := upd_where ?Q ?g (upd_where ?P ?f (db_savedCards s))\<rparr>"
    using assms(2) c by (simp add: setDefault_def)
  have of: "cards_of s' v = upd_where ?Q ?g (upd_where ?P ?f (cards_of s v))" for v
    by (simp add: cards_of_def s' cards_of_upd)
  have map_upd: "map sc_id (upd_where ?Q ?g (upd_where ?P ?f xs)) = map sc_id xs" for xs by (simp add: map_upd_where)
  have u: "filter sc_isDefault (cards_of s' u) = map (\<lambda>x. ?g (?f x)) (filter ?Q (cards_of s u))"
  proof -
    have "filter sc_isDefault (upd_where ?Q ?g (upd_where ?P ?f xs)) = map (\<lambda>x. ?g (?f x)) (filter ?Q xs)"
      if "\<forall>x \<in> set xs. ?P x" for xs using that by (induction xs) (auto simp: upd_where_def)
    moreover have "\<forall>x \<in> set (cards_of s u). ?P x" by (simp add: cards_of_def)
    ultimately show ?thesis unfolding of by blast
  qed
  have "c \<in> set (cards_of s u)" using cs by (simp add: cards_of_def)
  from filter_key_single [OF cards_of_distinct [OF assms(1)] this] cs
  have one: "filter ?Q (cards_of s u) = [c]" by simp
  show "map sc_id (filter sc_isDefault (cards_of s' u)) = [i]" unfolding u one using cs by simp
  have other: "cards_of s' v = cards_of s v" if "v \<noteq> u" for v
  proof -
    have "upd_where ?P ?f (cards_of s v) = cards_of s v"
      using that by (intro upd_where_id) (auto simp: cards_of_def)
    moreover have "upd_where ?Q ?g (cards_of s v) = cards_of s v"
    proof (rule upd_where_id)
      fix x assume "x \<in> set (cards_of s v)"
      then have "x \<in> set (db_savedCards s)" "sc_userId x = v" by (auto simp: cards_of_def)
      with cs that assms(1) show "\<not> ?Q x" by (auto simp: cards_ok_def distinct_map dest: inj_onD)
    qed
    ultimately show ?thesis by (simp add: of)
  qed
  have ne: "cards_of s' u \<noteq> []" "length (cards_of s' u) = length (cards_of s u)" "cards_of s u \<noteq> []"
    using one by (auto simp: of upd_where_def)
  have "length (cards_of s' v) \<le> 5 \<and> length (filter sc_isDefault (cards_of s' v)) = (if cards_of s' v = [] then 0 else 1)" for v
  proof (cases "v = u")
    case True
    have "length (filter sc_isDefault (cards_of s' u)) = 1" unfolding u one by simp
    with True ne assms(1) show ?thesis by (simp add: cards_ok_def)
  next
    case False
    with other assms(1) show ?thesis by (simp add: cards_ok_def)
  qed
  moreover have "map sc_id (db_savedCards s') = map sc_id (db_savedCards s)" by (simp add: s' map_upd)
  then have "distinct (map sc_id (db_savedCards s'))" using assms(1) by (simp add: cards_ok_def)
  moreover have "\<forall>x \<in> set (db_savedCards s'). sc_id x < db_uid s'"
    using assms(1) by (auto simp: cards_ok_def s' set_upd_where)
  ultimately show "cards_ok s'" by (simp add: cards_ok_def)
qed

lemma default_unique:
  assumes "cards_ok s" and "c \<in> set (cards_of s u)" and "sc_isDefault c"
  shows "filter sc_isDefault (cards_of s u) = [c]"
proof -
  have "length (filter sc_isDefault (cards_of s u)) = 1" using assms by (auto simp: cards_ok_def)
  then obtain d where "filter sc_isDefault (cards_of s u) = [d]" by (auto simp: length_Suc_conv)
  moreover have "c \<in> set (filter sc_isDefault (cards_of s u))" using assms by simp
  ultimately show ?thesis by simp
qed

lemma cards_okI:
  assumes "cards_ok s" and "\<And>v. v \<noteq> u \<Longrightarrow> cards_of s' v = cards_of s v"
    and "map sc_id (db_savedCards s') = map sc_id (filter P (db_savedCards s))" and "db_uid s' = db_uid s"
    and "length (cards_of s' u) \<le> 5"
    and "length (filter sc_isDefault (cards_of s' u)) = (if cards_of s' u = [] then 0 else 1)"
  shows "cards_ok s'"
proof -
  have "sc_id ` set (db_savedCards s') = sc_id ` set (filter P (db_savedCards s))"
    using arg_cong [OF assms(3), of set] by simp
  then have "\<forall>c \<in> set (db_savedCards s'). sc_id c < db_uid s'"
    using assms(1) by (auto simp: cards_ok_def assms(4)) (metis (no_types, lifting) imageE image_eqI mem_Collect_eq)
  moreover have "distinct (map sc_id (db_savedCards s'))"
    unfolding assms(3) using assms(1) by (simp add: cards_ok_def distinct_map_filter)
  moreover have "length (cards_of s' v) \<le> 5 \<and>
      length (filter sc_isDefault (cards_of s' v)) = (if cards_of s' v = [] then 0 else 1)" for v
    using assms(1,2,5,6) by (cases "v = u") (simp_all add: cards_ok_def)
  ultimately show ?thesis by (simp add: cards_ok_def)
qed

lemma deleteCard_ok:
  assumes "cards_ok s" and "deleteCard s u i = Inr s'"
  shows "cards_ok s'"
proof -
  from assms(2) obtain c where c: "findCard s u i = Some c" by (auto simp: deleteCard_def split: option.splits)
  note cs = findCard_Some [OF c]
  define s1 where "s1 = s\<lparr>db_savedCards := filter (\<lambda>x. sc_id x \<noteq> i) (db_savedCards s)\<rparr>"
  have of1: "cards_of s1 v = filter (\<lambda>x. sc_id x \<noteq> i) (cards_of s v)" for v
    by (simp add: cards_of_def s1_def conj_commute)
  have cu: "c \<in> set (cards_of s u)" using cs by (simp add: cards_of_def)
  have same: "cards_of s1 v = cards_of s v" if "v \<noteq> u" for v
    unfolding of1 using that cs assms(1) by (intro filter_True) (auto simp: cards_of_def cards_ok_def distinct_map dest: inj_onD)
  have five: "length (cards_of s1 u) \<le> 5"
    using assms(1) unfolding of1 cards_ok_def by (meson length_filter_le order_trans)
  have defs: "filter sc_isDefault (cards_of s1 u) = filter (\<lambda>x. sc_id x \<noteq> i) (filter sc_isDefault (cards_of s u))"
    by (simp add: of1 conj_commute)
  show ?thesis
  proof (cases "sc_isDefault c")
    case False
    have eq: "s' = s1" using assms(2) c False by (simp add: deleteCard_def s1_def)
    obtain d where d: "filter sc_isDefault (cards_of s u) = [d]"
      using assms(1) cu unfolding cards_ok_def by (metis One_nat_def length_0_conv length_Suc_conv list.set(1) empty_iff)
    have "d \<in> set (filter sc_isDefault (cards_of s u))" unfolding d by simp
    then have "d \<in> set (cards_of s u)" "sc_isDefault d" by simp_all
    then have "sc_id d \<noteq> i" using False cu cs cards_of_distinct [OF assms(1), of u] by (auto simp: distinct_map dest: inj_onD)
    then have "filter sc_isDefault (cards_of s1 u) = [d]" unfolding defs d by simp
    then show ?thesis unfolding eq
      by (intro cards_okI [OF assms(1), where u = u and P = "\<lambda>x. sc_id x \<noteq> i"]) (use same five in \<open>auto simp: s1_def\<close>)
  next
    case True
    have none: "filter sc_isDefault (cards_of s1 u) = []"
      unfolding defs default_unique [OF assms(1) cu True] using cs by simp
    show ?thesis
    proof (cases "sort_key sc_createdAt (cards_of s1 u)")
      case Nil
      then have "cards_of s1 u = []" by (metis length_0_conv length_sort)
      moreover have "s' = s1" using assms(2) c True Nil by (simp add: deleteCard_def s1_def)
      ultimately show ?thesis
        by (intro cards_okI [OF assms(1), where u = u and P = "\<lambda>x. sc_id x \<noteq> i"]) (use same in \<open>auto simp: s1_def\<close>)
    next
      case (Cons n ns)
      let ?g = "\<lambda>x. x\<lparr>sc_isDefault := True\<rparr>" let ?Q = "\<lambda>x. sc_id x = sc_id n"
      have s': "s' = s1\<lparr>db_savedCards := upd_where ?Q ?g (db_savedCards s1)\<rparr>"
        using assms(2) c True Cons by (simp add: deleteCard_def s1_def)
      have n: "n \<in> set (cards_of s1 u)" using Cons by (metis list.set_intros(1) set_sort)
      have of: "cards_of s' v = upd_where ?Q ?g (cards_of s1 v)" for v by (simp add: cards_of_def s' cards_of_upd)
      have dist: "distinct (map sc_id (db_savedCards s1))" "distinct (map sc_id (cards_of s1 u))"
        using assms(1) cards_of_distinct [OF assms(1), of u] unfolding of1
        by (simp_all add: s1_def cards_ok_def distinct_map_filter)
      have "filter sc_isDefault (upd_where ?Q ?g xs) = map ?g (filter ?Q xs)" if "filter sc_isDefault xs = []" for xs
        using that by (induction xs) (auto simp: upd_where_def split: if_splits)
      from this [OF none] have "length (filter sc_isDefault (cards_of s' u)) = 1"
        unfolding of filter_key_single [OF dist(2) n] by simp
      moreover have "cards_of s' v = cards_of s1 v" if "v \<noteq> u" for v
        unfolding of using that n dist(1)
        by (intro upd_where_id) (auto simp: cards_of_def distinct_map dest: inj_onD)
      moreover have "length (cards_of s' u) \<le> 5" using five by (simp add: of)
      moreover have "cards_of s' u \<noteq> []" using n by (auto simp: of upd_where_def)
      moreover have "map sc_id (db_savedCards s') = map sc_id (filter (\<lambda>x. sc_id x \<noteq> i) (db_savedCards s))"
        by (simp add: s' s1_def map_upd_where)
      ultimately show ?thesis
        by (intro cards_okI [OF assms(1), where u = u and P = "\<lambda>x. sc_id x \<noteq> i"]) (use same in \<open>auto simp: s' s1_def\<close>)
    qed
  qed
qed

section \<open>The record of the mock gateway\<close>

lemma map_set_of: "map_of (map_set k v xs) = (map_of xs)(k \<mapsto> v)"
  by (induction xs) (auto simp: fun_eq_iff)

lemma map_set_length: "length (map_set k v xs) = length xs + (if map_of xs k = None then 1 else 0)"
  by (induction xs) auto

lemma map_set_new: "map_of xs k = None \<Longrightarrow> map_set k v xs = xs @ [(k, v)]"
  by (induction xs) (auto split: if_splits)

lemma record_charge_bounded:
  assumes "length charges \<le> 500"
  shows "length (record_charge R charges txRef amt cur ok reason) \<le> 500"
    and "map_of (record_charge R charges txRef amt cur ok reason) txRef =
      Some \<lparr>mc_success = ok, mc_amount = amt, mc_currency = cur, mc_updatedAt = now R, mc_failureReason = reason\<rparr>"
proof -
  let ?v = "\<lparr>mc_success = ok, mc_amount = amt, mc_currency = cur, mc_updatedAt = now R, mc_failureReason = reason\<rparr>"
  show "length (record_charge R charges txRef amt cur ok reason) \<le> 500"
    using assms by (auto simp: record_charge_def Let_def map_set_length split: if_splits)
  show "map_of (record_charge R charges txRef amt cur ok reason) txRef = Some ?v"
  proof (cases "length (map_set txRef ?v charges) > 500")
    case True
    then have new: "map_of charges txRef = None" and len: "length charges = 500"
      using assms by (auto simp: map_set_length split: if_splits)
    obtain x xs where c: "charges = x # xs" using len by (cases charges) auto
    with new have "map_of xs txRef = None" by (cases x) (auto split: if_splits)
    moreover have "map_set txRef ?v charges = x # xs @ [(txRef, ?v)]" using map_set_new [OF new] c by simp
    ultimately show ?thesis using True by (simp add: record_charge_def Let_def map_add_def)
  next
    case False
    then show ?thesis by (simp add: record_charge_def Let_def map_set_of)
  qed
qed

section \<open>Sample\<close>

definition wallet_pan :: string where
  "wallet_pan = ''4111111111111111''"

definition cards0 :: db where
  "cards0 = empty_db"

lemma cards0_ok: "cards_ok cards0"
  by (simp add: cards_ok_def cards0_def empty_db_def cards_of_def)

section \<open>Properties\<close>

text \<open>C37. The Luhn check catches typing errors: it accepts only digits, a single wrong digit is always refused,
  two neighbouring digits in the wrong order are refused unless they are a zero and a nine, and the two
  implementations of the check agree on digits.\<close>

theorem luhn_detects_typos:
  "(luhnValid num \<longrightarrow> list_all is_digit num) \<and>
   (luhnValid (xs @ c # ys) \<and> d \<noteq> c \<longrightarrow> \<not> luhnValid (xs @ d # ys)) \<and>
   (luhnValid (xs @ a # b # ys) \<and> a \<noteq> b \<and> {a, b} \<noteq> {CHR ''0'', CHR ''9''} \<longrightarrow> \<not> luhnValid (xs @ b # a # ys)) \<and>
   (list_all is_digit num \<longrightarrow> saved_luhnValid num = luhnValid num)"
proof (intro conjI impI)
  show "luhnValid num \<Longrightarrow> list_all is_digit num" by (simp add: luhnValid_weight)
  show "\<not> luhnValid (xs @ d # ys)" if "luhnValid (xs @ c # ys) \<and> d \<noteq> c"
    using that luhn_substitution by blast
  show "\<not> luhnValid (xs @ b # a # ys)"
    if "luhnValid (xs @ a # b # ys) \<and> a \<noteq> b \<and> {a, b} \<noteq> {CHR ''0'', CHR ''9''}"
    using that luhn_transposition by blast
  show "list_all is_digit num \<Longrightarrow> saved_luhnValid num = luhnValid num"
    by (simp add: luhnValid_weight saved_luhnValid_def luhn_sum_weight)
qed

theorem luhn_detects_typos_witness:
  "luhnValid wallet_pan \<and> \<not> luhnValid ''4111111111111112'' \<and> \<not> luhnValid ''1411111111111111'' \<and> saved_luhnValid wallet_pan"
proof -
  have v: "luhnValid wallet_pan" by code_simp
  have d: "list_all is_digit wallet_pan" by code_simp
  have p: "wallet_pan = ''411111111111111'' @ CHR ''1'' # []" "wallet_pan = [] @ CHR ''4'' # CHR ''1'' # ''11111111111111''"
    by (simp_all add: wallet_pan_def)
  have "\<not> luhnValid (''411111111111111'' @ CHR ''2'' # [])"
    using luhn_detects_typos [of wallet_pan "''411111111111111''" "CHR ''1''" "[]" "CHR ''2''"] v unfolding p(1) by simp
  moreover have "\<not> luhnValid ([] @ CHR ''1'' # CHR ''4'' # ''11111111111111'')"
    using luhn_detects_typos [of wallet_pan "[]" _ "''11111111111111''" _ "CHR ''4''" "CHR ''1''"] v
    unfolding p(2) by (simp add: doubleton_eq_iff)
  moreover have "saved_luhnValid wallet_pan" using luhn_detects_typos [of wallet_pan] v d by simp
  ultimately show ?thesis using v by simp
qed

text \<open>C38. Saved cards stay in order: through saving, tokenising, deleting and choosing a default, card ids
  stay unique, a user never has more than five cards and, with any card, exactly one default; choosing a
  default makes exactly the chosen card the default.\<close>

theorem saved_cards_invariant:
  assumes "cards_ok s"
  shows "(\<forall>s' v. saveCard R seal iv s u num name month year = Inr (s', v) \<longrightarrow> cards_ok s') \<and>
     (\<forall>s' v. saveTokenizedCard R s u b d = Inr (s', v) \<longrightarrow> cards_ok s') \<and>
     (\<forall>s'. deleteCard s u i = Inr s' \<longrightarrow> cards_ok s') \<and>
     (\<forall>s'. setDefault s u i = Inr s' \<longrightarrow> cards_ok s' \<and> map sc_id (filter sc_isDefault (cards_of s' u)) = [i])"
  by (auto intro: saveCard_ok [OF assms] saveTokenizedCard_ok [OF assms] deleteCard_ok [OF assms]
      setDefault_ok [OF assms])

theorem saved_cards_invariant_witness:
  "\<exists>s' v. saveCard (pg_runtime 3) toy_seal ''iv'' cards0 1 wallet_pan ''A'' ''12'' ''2030'' = Inr (s', v) \<and>
     cards_ok s' \<and> cv_isDefault v"
proof -
  have "map_sum id (\<lambda>(s, v). cv_isDefault v) (saveCard (pg_runtime 3) toy_seal ''iv'' cards0 1 wallet_pan ''A'' ''12'' ''2030'') =
      Inr True" by code_simp
  then obtain s' v where r: "saveCard (pg_runtime 3) toy_seal ''iv'' cards0 1 wallet_pan ''A'' ''12'' ''2030'' = Inr (s', v)"
    and v: "cv_isDefault v"
    by (cases "saveCard (pg_runtime 3) toy_seal ''iv'' cards0 1 wallet_pan ''A'' ''12'' ''2030''") auto
  show ?thesis using saved_cards_invariant [OF cards0_ok] r v by blast
qed

text \<open>C39. A stored card number is bound to its owner: under authenticated encryption a newly saved card gives
  its owner back exactly the digits that were typed, nobody else can look it up, and the same ciphertext
  copied into another user's row opens to nothing.\<close>

theorem card_sealed_to_owner:
  assumes "aead_ok seal unseal" and "cards_ok s" and "u' \<noteq> u"
    and "saveCard R seal iv s u num name month year = Inr (s', v)" and "cv_id v = db_uid s"
  shows "map_sum id dc_cardNumber (getDecryptedCard unseal s' u (cv_id v)) = Inr (filter (\<lambda>c. \<not> js_space c) num) \<and>
     getDecryptedCard unseal s' u' (cv_id v) = Inl (NotFound (Msg ''Saved card not found'')) \<and>
     card_decrypt unseal (card_encrypt seal iv' (filter (\<lambda>c. \<not> js_space c) num) u) u' = None"
proof -
  let ?pan = "filter (\<lambda>c. \<not> js_space c) num"
  have old: "sc_id c \<noteq> db_uid s" if "c \<in> set (db_savedCards s)" for c
    using assms(2) that by (auto simp: cards_ok_def)
  then have fresh: "List.find (\<lambda>c. sc_id c = db_uid s \<and> sc_userId c = w) (db_savedCards s) = None" for w
    by (auto simp: find_None)
  have "v \<noteq> safe_select c" if "c \<in> set (cards_of s u)" for c
    using that old assms(5) by (auto simp: safe_select_def cards_of_def)
  then obtain brand where new: "create_card R s u (slice_last 4 ?pan) brand name month (short_year year)
      (Some (card_encrypt seal iv ?pan u)) None None (length (cards_of s u) = 0) = (s', v)"
    using assms(4) by (auto simp: saveCard_def Let_def dest: find_in_set split: if_splits option.splits)
  have ne: "card_encrypt seal iv ?pan u \<noteq> []" by (simp add: card_encrypt_def split_beta)
  obtain c where c: "db_savedCards s' = db_savedCards s @ [c]" "sc_id c = db_uid s" "sc_userId c = u"
    "sc_cardNumberEncrypted c = Some (card_encrypt seal iv ?pan u)"
    using new by (auto simp: create_card_def Let_def)
  show ?thesis
    using c ne fresh assms(3,5) card_seal [OF assms(1)]
    by (simp add: getDecryptedCard_def findCard_def find_append)
qed

theorem card_sealed_to_owner_witness:
  "\<exists>s' v. saveCard (pg_runtime 3) toy_seal ''iv'' cards0 1 wallet_pan ''A'' ''12'' ''2030'' = Inr (s', v) \<and>
     map_sum id dc_cardNumber (getDecryptedCard toy_unseal s' 1 (cv_id v)) = Inr wallet_pan"
proof -
  have "map_sum id (\<lambda>(s, v). cv_id v) (saveCard (pg_runtime 3) toy_seal ''iv'' cards0 1 wallet_pan ''A'' ''12'' ''2030'') =
      Inr 100" by code_simp
  then obtain s' v where r: "saveCard (pg_runtime 3) toy_seal ''iv'' cards0 1 wallet_pan ''A'' ''12'' ''2030'' = Inr (s', v)"
    and v: "cv_id v = 100"
    by (cases "saveCard (pg_runtime 3) toy_seal ''iv'' cards0 1 wallet_pan ''A'' ''12'' ''2030''") auto
  have "db_uid cards0 = 100" "filter (\<lambda>c. \<not> js_space c) wallet_pan = wallet_pan" by code_simp+
  with card_sealed_to_owner [OF toy_aead cards0_ok _ r, of 2] v r show ?thesis by auto
qed

end
