(* ===== verification/Gateway.thy ===== *)
theory Gateway
  imports SavedCards
begin

text \<open>
  The Mastercard Gateway client, \<^verbatim>\<open>src/modules/mastercard-gateway/services/mastercard-gateway.service.ts\<close> and
  \<^verbatim>\<open>exceptions/mastercard-gateway.exception.ts\<close>: the requests it sends and how it reads the answers.

  The gateway itself is remote.  It is the argument \<open>net\<close>: given all requests sent so far, the last one
  included, it says what the HTTP call gives back.  Every operation returns its result together with
  the requests sent, oldest first, so that what was sent, and how often, can be stated.
\<close>

section \<open>Requests and answers\<close>

text \<open>A URL is kept as its parts; the parts are percent-encoded when the URL is printed, which loses
  nothing.\<close>

datatype gw_path = TransactionPath string string | SessionPath | TokenPath | InformationPath

record gw_request =
  rq_verb :: string
  rq_baseUrl :: string
  rq_apiVersion :: int
  rq_merchantId :: string
  rq_apiPassword :: "string option"
  rq_path :: gw_path
  rq_body :: "json option"

text \<open>The call fails on the network, or answers with a status that is in the 200s or not and a body that
  is JSON or not.\<close>

datatype net_answer = NetFailure string | NetAnswer bool "json option"

type_synonym net = "gw_request list \<Rightarrow> net_answer"

fun jstr :: "json \<Rightarrow> string option" where
  "jstr (JStr s) = Some s"
| "jstr _ = None"

fun jpath :: "string list \<Rightarrow> json \<Rightarrow> json" where
  "jpath [] j = j"
| "jpath (k # ks) j = jpath ks (jfield k j)"

definition rstr :: "string list \<Rightarrow> json \<Rightarrow> string option" where
  "rstr p j = jstr (jpath p j)"

definition rnum :: "string list \<Rightarrow> json \<Rightarrow> rat option" where
  "rnum p j = jnum (jpath p j)"

text \<open>\<open>a ?? b\<close>, and \<open>a || b\<close> on strings.\<close>

definition orElse :: "'a option \<Rightarrow> 'a \<Rightarrow> 'a" where
  "orElse x d = (case x of Some v \<Rightarrow> v | None \<Rightarrow> d)"

definition orEmpty :: "string \<Rightarrow> string \<Rightarrow> string" where
  "orEmpty s d = (if s = [] then d else s)"

text \<open>\<open>...(x ? { k: v } : {})\<close> for an optional string.\<close>

definition opt_field :: "string \<Rightarrow> string option \<Rightarrow> (string \<Rightarrow> json) \<Rightarrow> (string \<times> json) list" where
  "opt_field k x f = (case x of Some v \<Rightarrow> if v = [] then [] else [(k, f v)] | None \<Rightarrow> [])"

section \<open>Exceptions\<close>

definition mcgs_exception ::
  "string option \<Rightarrow> string option \<Rightarrow> string option \<Rightarrow> string option \<Rightarrow> string option \<Rightarrow> gateway_error" where
  "mcgs_exception result gcode cause explanation support =
     McgsError \<lparr>me_result = result, me_code = gcode, me_cause = cause, me_explanation = explanation, me_support = support\<rparr>"

definition DECLINE_CODES :: "string list" where
  "DECLINE_CODES = [''DECLINED'', ''DECLINED_DO_NOT_CONTACT'', ''INSUFFICIENT_FUNDS'', ''EXPIRED_CARD'', ''INVALID_CSC'', ''BLOCKED'']"

definition toHttpStatus :: "mcgs_error \<Rightarrow> int" where
  "toHttpStatus e =
     (if me_cause e = Some ''SERVER_BUSY'' \<or> me_cause e = Some ''SERVER_FAILED'' \<or>
         me_code e = Some ''ACQUIRER_SYSTEM_ERROR'' \<or> me_code e = Some ''SYSTEM_ERROR'' then 502
      else if me_cause e = Some ''INVALID_REQUEST'' then 422
      else if me_result e = Some ''FAILURE'' \<and> (\<exists>c \<in> set DECLINE_CODES. me_code e = Some c) then 402
      else if me_code e = Some ''TIMED_OUT'' then 504
      else 502)"

section \<open>The client\<close>

record gateway =
  gw_merchantId :: string
  gw_apiPassword :: string
  gw_baseUrl :: string
  gw_apiVersion :: int
  gw_isConfigured :: bool

definition scopedTo :: "string \<Rightarrow> string \<Rightarrow> string \<Rightarrow> int \<Rightarrow> gateway" where
  "scopedTo merchantId apiPassword baseUrl apiVersion =
     \<lparr>gw_merchantId = merchantId, gw_apiPassword = apiPassword, gw_baseUrl = baseUrl, gw_apiVersion = apiVersion,
      gw_isConfigured = (merchantId \<noteq> [] \<and> apiPassword \<noteq> [])\<rparr>"

definition isLive :: "gateway \<Rightarrow> bool" where
  "isLive G = gw_isConfigured G"

subsection \<open>Utilities\<close>

definition sanitizeId :: "string \<Rightarrow> string" where
  "sanitizeId i = (if length i \<le> 40 then i else take 40 i)"

text \<open>\<open>toFixed(2)\<close>: the decimal string with two places nearest to the number.\<close>

definition formatAmount :: "rat \<Rightarrow> json" where
  "formatAmount amt = JDec (half_away 2 amt)"

definition normalizeYear :: "string \<Rightarrow> string" where
  "normalizeYear y = (if length y = 4 then slice_last 2 y else y)"

definition masked_number :: "json \<Rightarrow> string" where
  "masked_number r = orElse (rstr [''sourceOfFunds'', ''provided'', ''card'', ''number''] r) []"

definition extractLast4 :: "json \<Rightarrow> string" where
  "extractLast4 r = orEmpty (slice_last 4 (filter (\<lambda>c. c \<noteq> CHR ''x'' \<and> c \<noteq> CHR ''X'') (masked_number r))) ''0000''"

definition card_brand :: "json \<Rightarrow> string option" where
  "card_brand r = rstr [''sourceOfFunds'', ''provided'', ''card'', ''brand''] r"

definition gatewayCode :: "json \<Rightarrow> string option" where
  "gatewayCode r = rstr [''response'', ''gatewayCode''] r"

datatype card_status = CARD_PENDING | CARD_SUCCESS | CARD_FAILED

definition mapResultToStatus :: "string option \<Rightarrow> string option \<Rightarrow> card_status" where
  "mapResultToStatus result gcode =
     (if result = Some ''SUCCESS'' then CARD_SUCCESS
      else if result = Some ''PENDING'' then CARD_PENDING
      else if result = Some ''FAILURE'' then
        (if gcode = Some ''TIMED_OUT'' \<or> gcode = Some ''ACQUIRER_SYSTEM_ERROR'' \<or> gcode = Some ''SYSTEM_ERROR''
         then CARD_PENDING else CARD_FAILED)
      else CARD_FAILED)"

definition assertSuccess :: "json \<Rightarrow> gateway_error + json" where
  "assertSuccess r =
     (if rstr [''result''] r \<noteq> Some ''SUCCESS''
      then Inl (mcgs_exception (rstr [''result''] r) (gatewayCode r) (rstr [''error'', ''cause''] r)
             (rstr [''error'', ''explanation''] r) (rstr [''error'', ''supportCode''] r))
      else Inr r)"

subsection \<open>HTTP\<close>

definition gw_call ::
  "net \<Rightarrow> gateway \<Rightarrow> string \<Rightarrow> gw_path \<Rightarrow> json option \<Rightarrow> gw_request list \<Rightarrow> net_answer \<times> gw_request list" where
  "gw_call net G verb path body sent =
     (let sent' = sent @ [\<lparr>rq_verb = verb, rq_baseUrl = gw_baseUrl G, rq_apiVersion = gw_apiVersion G,
            rq_merchantId = gw_merchantId G,
            rq_apiPassword = (if path = InformationPath then None else Some (gw_apiPassword G)),
            rq_path = path, rq_body = body\<rparr>]
      in (net sent', sent'))"

definition network_error :: "string \<Rightarrow> gateway_error" where
  "network_error explanation =
     mcgs_exception (Some ''ERROR'') (Some ''TIMED_OUT'') (Some ''SERVER_FAILED'') (Some explanation) None"

text \<open>A body that is the JSON \<open>null\<close> fails at the first field read from it, with an error of the runtime.\<close>

definition parseAndValidateResponse :: "json option \<Rightarrow> gateway_error + json" where
  "parseAndValidateResponse text =
     (case text of
        Some j \<Rightarrow> if j = JNull then Inl (NodeError ''Cannot read properties of null'') else Inr j
      | None \<Rightarrow> Inl (mcgs_exception (Some ''ERROR'') None (Some ''SERVER_FAILED'')
          (Some ''Gateway returned a non-JSON response'') None))"

definition putTransaction ::
  "net \<Rightarrow> gateway \<Rightarrow> string \<Rightarrow> string \<Rightarrow> json \<Rightarrow> gw_request list \<Rightarrow> (gateway_error + json) \<times> gw_request list" where
  "putTransaction net G orderId txId body sent =
     (case gw_call net G ''PUT'' (TransactionPath orderId txId) (Some body) sent of
        (NetFailure m, sent') \<Rightarrow> (Inl (network_error (''Network error reaching gateway: '' @ m)), sent')
      | (NetAnswer _ text, sent') \<Rightarrow> (parseAndValidateResponse text, sent'))"

definition getTransaction ::
  "net \<Rightarrow> gateway \<Rightarrow> string \<Rightarrow> string \<Rightarrow> gw_request list \<Rightarrow> (gateway_error + json) \<times> gw_request list" where
  "getTransaction net G orderId txId sent =
     (case gw_call net G ''GET'' (TransactionPath orderId txId) None sent of
        (NetFailure m, sent') \<Rightarrow> (Inl (network_error (''Network error: '' @ m)), sent')
      | (NetAnswer _ text, sent') \<Rightarrow> (parseAndValidateResponse text, sent'))"

text \<open>Here it is the callers that read a field of the answer at once.\<close>

definition requestJson ::
  "net \<Rightarrow> gateway \<Rightarrow> string \<Rightarrow> gw_path \<Rightarrow> json option \<Rightarrow> gw_request list \<Rightarrow> (gateway_error + json) \<times> gw_request list" where
  "requestJson net G verb path body sent =
     (case gw_call net G verb path body sent of
        (NetFailure m, sent') \<Rightarrow> (Inl (network_error (''Network error reaching gateway: '' @ m)), sent')
      | (NetAnswer _ (Some j), sent') \<Rightarrow>
          (if j = JNull then Inl (NodeError ''Cannot read properties of null'') else Inr j, sent')
      | (NetAnswer _ None, sent') \<Rightarrow>
          (Inl (mcgs_exception (Some ''ERROR'') (Some ''SYSTEM_ERROR'') (Some ''SERVER_FAILED'')
             (Some ''Gateway returned an unreadable response.'') None), sent'))"

text \<open>\<open>assertConfigured\<close> before, \<open>assertSuccess\<close> after a PUT.\<close>

definition put_success ::
  "net \<Rightarrow> gateway \<Rightarrow> string \<Rightarrow> string \<Rightarrow> json \<Rightarrow> (json \<Rightarrow> 'a) \<Rightarrow> gw_request list \<Rightarrow> (gateway_error + 'a) \<times> gw_request list" where
  "put_success net G orderId txId body f sent =
     (if \<not> gw_isConfigured G then (Inl NotConfigured, sent)
      else case putTransaction net G orderId txId body sent of
             (Inl e, sent') \<Rightarrow> (Inl e, sent')
           | (Inr r, sent') \<Rightarrow> (map_sum id f (assertSuccess r), sent'))"

subsection \<open>Payments\<close>

definition charge_of :: "runtime \<Rightarrow> string \<Rightarrow> rat \<Rightarrow> string \<Rightarrow> string \<Rightarrow> json \<Rightarrow> charge_result" where
  "charge_of R txRef amt cur txId r =
     \<lparr>cr_processorReference = orElse (rstr [''transaction'', ''id''] r) txId, cr_txRef = txRef, cr_amount = amt,
      cr_currency = cur, cr_last4 = extractLast4 r, cr_cardBrand = orElse (card_brand r) ''UNKNOWN'',
      cr_message = orElse (gatewayCode r) ''APPROVED'', cr_chargedAt = now R\<rparr>"

record card_params =
  cp_txRef :: string
  cp_amount :: rat
  cp_currency :: string
  cp_cardholderName :: string
  cp_cardNumber :: string
  cp_expiryMonth :: string
  cp_expiryYear :: string
  cp_cvv :: string
  cp_email :: "string option"

definition order_json :: "rat \<Rightarrow> string \<Rightarrow> string \<Rightarrow> json" where
  "order_json amt cur descr = JObj [(''amount'', formatAmount amt), (''currency'', JStr cur), (''description'', JStr descr)]"

definition card_json :: "card_params \<Rightarrow> json" where
  "card_json p = JObj [(''type'', JStr ''CARD''), (''provided'', JObj [(''card'', JObj
     [(''number'', JStr (cp_cardNumber p)),
      (''expiry'', JObj [(''month'', JStr (padStart2 (cp_expiryMonth p))), (''year'', JStr (normalizeYear (cp_expiryYear p)))]),
      (''securityCode'', JStr (cp_cvv p)), (''nameOnCard'', JStr (cp_cardholderName p))])])]"

definition email_json :: "string option \<Rightarrow> (string \<times> json) list" where
  "email_json e = opt_field ''customer'' e (\<lambda>v. JObj [(''email'', JStr v)])"

definition pay_txid :: "string \<Rightarrow> string" where
  "pay_txid txRef = sanitizeId txRef @ ''-pay-1''"

definition chargeCard ::
  "runtime \<Rightarrow> net \<Rightarrow> gateway \<Rightarrow> card_params \<Rightarrow> gw_request list \<Rightarrow> (gateway_error + charge_result) \<times> gw_request list" where
  "chargeCard R net G p sent =
     (let orderId = sanitizeId (cp_txRef p); txId = orderId @ ''-pay-1'';
          body = JObj ([(''apiOperation'', JStr ''PAY''),
            (''order'', order_json (cp_amount p) (cp_currency p) (''Pine payment - '' @ cp_txRef p)),
            (''transaction'', JObj [(''reference'', JStr (cp_txRef p))]), (''sourceOfFunds'', card_json p)] @ email_json (cp_email p))
      in put_success net G orderId txId body (charge_of R (cp_txRef p) (cp_amount p) (cp_currency p) txId) sent)"

record gw_verify =
  gv_processorReference :: string
  gv_status :: card_status
  gv_amount :: rat
  gv_currency :: string
  gv_updatedAt :: timestamp
  gv_failureReason :: "string option"

definition verifyTransaction ::
  "runtime \<Rightarrow> net \<Rightarrow> gateway \<Rightarrow> string \<Rightarrow> gw_request list \<Rightarrow> (gateway_error + gw_verify) \<times> gw_request list" where
  "verifyTransaction R net G txRef sent =
     (if \<not> gw_isConfigured G then (Inl NotConfigured, sent)
      else
        let orderId = sanitizeId txRef; txId = orderId @ ''-pay-1''
        in case getTransaction net G orderId txId sent of
             (Inl e, sent') \<Rightarrow> (Inl e, sent')
           | (Inr r, sent') \<Rightarrow>
               (let st = mapResultToStatus (rstr [''result''] r) (gatewayCode r)
                in (Inr \<lparr>gv_processorReference = orElse (rstr [''transaction'', ''id''] r) txId, gv_status = st,
                      gv_amount = orElse (rnum [''transaction'', ''amount''] r) 0,
                      gv_currency = orElse (rstr [''transaction'', ''currency''] r) [], gv_updatedAt = now R,
                      gv_failureReason = (if st = CARD_FAILED then
                        (case rstr [''error'', ''explanation''] r of Some x \<Rightarrow> Some x | None \<Rightarrow> gatewayCode r) else None)\<rparr>, sent')))"

record refund_result =
  rf_reference :: string
  rf_originalTxRef :: string
  rf_amount :: rat
  rf_currency :: string
  rf_initiatedAt :: timestamp

text \<open>\<open>stamp\<close> is the clock in the id of the refund.\<close>

definition refundTransaction ::
  "runtime \<Rightarrow> net \<Rightarrow> gateway \<Rightarrow> string \<Rightarrow> string \<Rightarrow> rat option \<Rightarrow> gw_request list \<Rightarrow>
     (gateway_error + refund_result) \<times> gw_request list" where
  "refundTransaction R net G stamp txRef amt sent =
     (let orderId = sanitizeId txRef; txId = orderId @ ''-ref-'' @ stamp;
          body = JObj [(''apiOperation'', JStr ''REFUND''),
            (''transaction'', JObj (case amt of Some a \<Rightarrow> [(''amount'', formatAmount a)] | None \<Rightarrow> []))]
      in put_success net G orderId txId body
           (\<lambda>r. \<lparr>rf_reference = orElse (rstr [''transaction'', ''id''] r) txId, rf_originalTxRef = txRef,
              rf_amount = orElse (rnum [''transaction'', ''amount''] r) (orElse amt 0),
              rf_currency = orElse (rstr [''transaction'', ''currency''] r) [], rf_initiatedAt = now R\<rparr>) sent)"

record operation_result =
  or_success :: bool
  or_orderId :: string
  or_transactionId :: string
  or_gatewayCode :: "string option"
  or_authorizationCode :: "string option"
  or_cardLast4 :: string
  or_cardBrand :: "string option"
  or_amount :: "rat option"
  or_currency :: "string option"

definition toOperationResult :: "string \<Rightarrow> string \<Rightarrow> json \<Rightarrow> operation_result" where
  "toOperationResult orderId txId r =
     \<lparr>or_success = (rstr [''result''] r = Some ''SUCCESS''), or_orderId = orderId,
      or_transactionId = orElse (rstr [''transaction'', ''id''] r) txId, or_gatewayCode = gatewayCode r,
      or_authorizationCode = rstr [''transaction'', ''authorizationCode''] r, or_cardLast4 = extractLast4 r,
      or_cardBrand = card_brand r, or_amount = rnum [''transaction'', ''amount''] r,
      or_currency = rstr [''transaction'', ''currency''] r\<rparr>"

definition authorizeCard ::
  "net \<Rightarrow> gateway \<Rightarrow> card_params \<Rightarrow> string option \<Rightarrow> gw_request list \<Rightarrow> (gateway_error + operation_result) \<times> gw_request list" where
  "authorizeCard net G p descr sent =
     (let orderId = sanitizeId (cp_txRef p); txId = orderId @ ''-auth-1'';
          body = JObj ([(''apiOperation'', JStr ''AUTHORIZE''),
            (''order'', order_json (cp_amount p) (cp_currency p) (orElse descr (''Pine authorize - '' @ cp_txRef p))),
            (''transaction'', JObj [(''reference'', JStr (cp_txRef p))]), (''sourceOfFunds'', card_json p)] @ email_json (cp_email p))
      in put_success net G orderId txId body (toOperationResult orderId txId) sent)"

definition captureAuthorization ::
  "net \<Rightarrow> gateway \<Rightarrow> string \<Rightarrow> rat \<Rightarrow> string \<Rightarrow> gw_request list \<Rightarrow> (gateway_error + operation_result) \<times> gw_request list" where
  "captureAuthorization net G oid amt cur sent =
     (let orderId = sanitizeId oid; txId = orderId @ ''-cap-1'';
          body = JObj [(''apiOperation'', JStr ''CAPTURE''),
            (''transaction'', JObj [(''amount'', formatAmount amt), (''currency'', JStr cur)])]
      in put_success net G orderId txId body (toOperationResult orderId txId) sent)"

definition voidTransaction ::
  "net \<Rightarrow> gateway \<Rightarrow> string \<Rightarrow> string \<Rightarrow> gw_request list \<Rightarrow> (gateway_error + operation_result) \<times> gw_request list" where
  "voidTransaction net G oid target sent =
     (let orderId = sanitizeId oid; txId = orderId @ ''-void-1'';
          body = JObj [(''apiOperation'', JStr ''VOID''), (''transaction'', JObj [(''targetTransactionId'', JStr target)])]
      in put_success net G orderId txId body (toOperationResult orderId txId) sent)"

definition verifyCard ::
  "net \<Rightarrow> gateway \<Rightarrow> card_params \<Rightarrow> string option \<Rightarrow> gw_request list \<Rightarrow> (gateway_error + operation_result) \<times> gw_request list" where
  "verifyCard net G p cur sent =
     (let orderId = sanitizeId (cp_txRef p); txId = orderId @ ''-ver-1'';
          body = JObj [(''apiOperation'', JStr ''VERIFY''), (''order'', JObj [(''currency'', JStr (orElse cur ''MWK''))]),
            (''sourceOfFunds'', card_json p)]
      in put_success net G orderId txId body (toOperationResult orderId txId) sent)"

text \<open>The public probe: anything but an operating answer is an unreachable gateway.\<close>

definition checkGatewayHealth :: "net \<Rightarrow> gateway \<Rightarrow> gw_request list \<Rightarrow> bool \<times> gw_request list" where
  "checkGatewayHealth net G sent =
     (case gw_call net G ''GET'' InformationPath None sent of
        (NetAnswer True (Some j), sent') \<Rightarrow> (rstr [''status''] j = Some ''OPERATING'', sent')
      | (_, sent') \<Rightarrow> (False, sent'))"

subsection \<open>3-D Secure\<close>

definition authTransactionId :: "string \<Rightarrow> string" where
  "authTransactionId orderId = orderId @ ''-3ds-1''"

record auth_init =
  ai_version :: string
  ai_available :: bool
  ai_recommendation :: string
  ai_authTransactionId :: string

definition put_configured ::
  "net \<Rightarrow> gateway \<Rightarrow> string \<Rightarrow> string \<Rightarrow> json \<Rightarrow> (json \<Rightarrow> 'a) \<Rightarrow> gw_request list \<Rightarrow> (gateway_error + 'a) \<times> gw_request list" where
  "put_configured net G orderId txId body f sent =
     (if \<not> gw_isConfigured G then (Inl NotConfigured, sent)
      else case putTransaction net G orderId txId body sent of (r, sent') \<Rightarrow> (map_sum id f r, sent'))"

definition initiateAuthentication ::
  "net \<Rightarrow> gateway \<Rightarrow> string \<Rightarrow> string \<Rightarrow> string \<Rightarrow> gw_request list \<Rightarrow> (gateway_error + auth_init) \<times> gw_request list" where
  "initiateAuthentication net G txRef cur sessionId sent =
     (let orderId = sanitizeId txRef; txId = authTransactionId orderId;
          body = JObj [(''apiOperation'', JStr ''INITIATE_AUTHENTICATION''), (''order'', JObj [(''currency'', JStr cur)]),
            (''session'', JObj [(''id'', JStr sessionId)]),
            (''authentication'', JObj [(''channel'', JStr ''PAYER_BROWSER''), (''purpose'', JStr ''PAYMENT_TRANSACTION'')])]
      in put_configured net G orderId txId body
           (\<lambda>r. let version = orElse (rstr [''authentication'', ''version''] r) ''NONE''
                in \<lparr>ai_version = version,
                    ai_available = (version \<noteq> ''NONE'' \<and>
                      rstr [''transaction'', ''authenticationStatus''] r = Some ''AUTHENTICATION_AVAILABLE''),
                    ai_recommendation = orElse (rstr [''response'', ''gatewayRecommendation''] r) ''PROCEED'',
                    ai_authTransactionId = txId\<rparr>) sent)"

datatype auth_outcome = FRICTIONLESS | CHALLENGE | NOT_AVAILABLE | AUTH_REJECTED

record device =
  dev_ipAddress :: "string option"
  dev_browser :: "string option"
  dev_screenWidth :: "rat option"
  dev_screenHeight :: "rat option"
  dev_timeZone :: "rat option"
  dev_language :: "string option"

record auth_result =
  au_outcome :: auth_outcome
  au_authTransactionId :: string
  au_redirectHtml :: "string option"
  au_status :: "string option"
  au_recommendation :: "string option"

text \<open>The accepted headers and the colour depth keep their defaults: no caller supplies them.\<close>

definition device_json :: "device \<Rightarrow> json" where
  "device_json d = JObj (opt_field ''ipAddress'' (dev_ipAddress d) JStr @ opt_field ''browser'' (dev_browser d) JStr @
     [(''browserDetails'', JObj [(''3DSecureChallengeWindowSize'', JStr ''FULL_SCREEN''),
        (''acceptHeaders'', JStr ''application/json''), (''colorDepth'', JNum 24), (''javaEnabled'', JBool False),
        (''language'', JStr (orElse (dev_language d) ''en-GB'')), (''screenHeight'', JNum (orElse (dev_screenHeight d) 900)),
        (''screenWidth'', JNum (orElse (dev_screenWidth d) 400)), (''timeZone'', JNum (orElse (dev_timeZone d) 0))])])"

definition auth_outcome_of :: "json \<Rightarrow> auth_outcome" where
  "auth_outcome_of r =
     (let status = rstr [''transaction'', ''authenticationStatus''] r;
          recommendation = rstr [''response'', ''gatewayRecommendation''] r;
          html = rstr [''authentication'', ''redirect'', ''html''] r
      in if recommendation = Some ''DO_NOT_PROCEED'' then AUTH_REJECTED
         else if status = Some ''AUTHENTICATION_SUCCESSFUL'' then FRICTIONLESS
         else if html \<noteq> None \<and> html \<noteq> Some [] then CHALLENGE
         else if status = Some ''AUTHENTICATION_NOT_SUPPORTED'' \<or> status = None \<or> status = Some [] then NOT_AVAILABLE
         else AUTH_REJECTED)"

definition authenticatePayer ::
  "net \<Rightarrow> gateway \<Rightarrow> string \<Rightarrow> rat \<Rightarrow> string \<Rightarrow> string \<Rightarrow> string \<Rightarrow> device \<Rightarrow> string option \<Rightarrow> gw_request list \<Rightarrow>
     (gateway_error + auth_result) \<times> gw_request list" where
  "authenticatePayer net G txRef amt cur sessionId returnUrl d email sent =
     (let orderId = sanitizeId txRef; txId = authTransactionId orderId;
          body = JObj ([(''apiOperation'', JStr ''AUTHENTICATE_PAYER''),
            (''order'', JObj [(''amount'', formatAmount amt), (''currency'', JStr cur)]),
            (''session'', JObj [(''id'', JStr sessionId)]),
            (''authentication'', JObj [(''redirectResponseUrl'', JStr returnUrl)]), (''device'', device_json d)] @ email_json email)
      in put_configured net G orderId txId body
           (\<lambda>r. \<lparr>au_outcome = auth_outcome_of r, au_authTransactionId = txId,
              au_redirectHtml = rstr [''authentication'', ''redirect'', ''html''] r,
              au_status = rstr [''transaction'', ''authenticationStatus''] r,
              au_recommendation = rstr [''response'', ''gatewayRecommendation''] r\<rparr>) sent)"

definition authenticated :: "json \<Rightarrow> bool" where
  "authenticated r \<longleftrightarrow> rstr [''transaction'', ''authenticationStatus''] r = Some ''AUTHENTICATION_SUCCESSFUL'' \<and>
     rstr [''response'', ''gatewayRecommendation''] r \<noteq> Some ''DO_NOT_PROCEED''"

definition retrieveAuthentication ::
  "net \<Rightarrow> gateway \<Rightarrow> string \<Rightarrow> gw_request list \<Rightarrow> (gateway_error + bool) \<times> gw_request list" where
  "retrieveAuthentication net G txRef sent =
     (if \<not> gw_isConfigured G then (Inl NotConfigured, sent)
      else
        let orderId = sanitizeId txRef
        in case getTransaction net G orderId (authTransactionId orderId) sent of
             (r, sent') \<Rightarrow> (map_sum id authenticated r, sent'))"

subsection \<open>Hosted session and card on file\<close>

record session_handle =
  sh_sessionId :: string
  sh_apiVersion :: int
  sh_merchantId :: string
  sh_gatewayBaseUrl :: string

definition missing_part :: "string \<Rightarrow> json \<Rightarrow> gateway_error" where
  "missing_part what j =
     mcgs_exception (Some ''ERROR'') (Some ''SYSTEM_ERROR'') (Some (orElse (rstr [''error'', ''cause''] j) ''SERVER_FAILED''))
       (Some (orElse (rstr [''error'', ''explanation''] j) what)) None"

definition createSession ::
  "net \<Rightarrow> gateway \<Rightarrow> gw_request list \<Rightarrow> (gateway_error + session_handle) \<times> gw_request list" where
  "createSession net G sent =
     (if \<not> gw_isConfigured G then (Inl NotConfigured, sent)
      else case requestJson net G ''POST'' SessionPath (Some (JObj [])) sent of
             (Inl e, sent') \<Rightarrow> (Inl e, sent')
           | (Inr j, sent') \<Rightarrow>
               (case rstr [''session'', ''id''] j of
                  Some i \<Rightarrow>
                    if i = [] then (Inl (missing_part ''Gateway did not return a payment session.'' j), sent')
                    else (Inr \<lparr>sh_sessionId = i, sh_apiVersion = gw_apiVersion G, sh_merchantId = gw_merchantId G,
                           sh_gatewayBaseUrl = gw_baseUrl G\<rparr>, sent')
                | None \<Rightarrow> (Inl (missing_part ''Gateway did not return a payment session.'' j), sent')))"

definition session_pay_body ::
  "string \<Rightarrow> rat \<Rightarrow> string \<Rightarrow> string \<Rightarrow> string option \<Rightarrow> string option \<Rightarrow> json" where
  "session_pay_body txRef amt cur sessionId email authTxn =
     JObj ([(''apiOperation'', JStr ''PAY''), (''order'', order_json amt cur (''Pine payment - '' @ txRef)),
       (''transaction'', JObj [(''reference'', JStr txRef)]), (''session'', JObj [(''id'', JStr sessionId)])] @
       opt_field ''authentication'' authTxn (\<lambda>v. JObj [(''transactionId'', JStr v)]) @ email_json email)"

definition chargeSession ::
  "runtime \<Rightarrow> net \<Rightarrow> gateway \<Rightarrow> string \<Rightarrow> rat \<Rightarrow> string \<Rightarrow> string \<Rightarrow> string option \<Rightarrow> string option \<Rightarrow> gw_request list \<Rightarrow>
     (gateway_error + charge_result) \<times> gw_request list" where
  "chargeSession R net G txRef amt cur sessionId email authTxn sent =
     (let orderId = sanitizeId txRef; txId = orderId @ ''-pay-1''
      in put_success net G orderId txId (session_pay_body txRef amt cur sessionId email authTxn)
           (charge_of R txRef amt cur txId) sent)"

text \<open>The card as the gateway describes it: \<open>brand ?? scheme ?? 'UNKNOWN'\<close>.\<close>

definition createTokenFromSession ::
  "net \<Rightarrow> gateway \<Rightarrow> string \<Rightarrow> gw_request list \<Rightarrow> (gateway_error + card_token) \<times> gw_request list" where
  "createTokenFromSession net G sessionId sent =
     (if \<not> gw_isConfigured G then (Inl NotConfigured, sent)
      else case requestJson net G ''POST'' TokenPath (Some (JObj [(''session'', JObj [(''id'', JStr sessionId)])])) sent of
             (Inl e, sent') \<Rightarrow> (Inl e, sent')
           | (Inr j, sent') \<Rightarrow>
               (let card = [''sourceOfFunds'', ''provided'', ''card'']; tok = rstr [''token''] j
                in if tok = None \<or> tok = Some [] then (Inl (missing_part ''Gateway did not return a card token.'' j), sent')
                   else (Inr \<lparr>ct_token = orElse tok [], ct_last4 = orEmpty (slice_last 4 (masked_number j)) ''0000'',
                     ct_cardBrand = orElse (card_brand j) (orElse (rstr (card @ [''scheme'']) j) ''UNKNOWN''),
                     ct_cardholderName = [],
                     ct_expiryMonth = orElse (rstr (card @ [''expiry'', ''month'']) j) [],
                     ct_expiryYear = orElse (rstr (card @ [''expiry'', ''year'']) j) []\<rparr>, sent')))"

definition token_pay_body ::
  "string \<Rightarrow> rat \<Rightarrow> string \<Rightarrow> string \<Rightarrow> string option \<Rightarrow> string option \<Rightarrow> json" where
  "token_pay_body txRef amt cur token cvv email =
     JObj ([(''apiOperation'', JStr ''PAY''), (''order'', order_json amt cur (''Pine payment - '' @ txRef)),
       (''transaction'', JObj [(''reference'', JStr txRef)]),
       (''sourceOfFunds'', JObj ([(''type'', JStr ''CARD''), (''token'', JStr token)] @
          opt_field ''provided'' cvv (\<lambda>v. JObj [(''card'', JObj [(''securityCode'', JStr v)])])))] @ email_json email)"

definition chargeToken ::
  "runtime \<Rightarrow> net \<Rightarrow> gateway \<Rightarrow> string \<Rightarrow> rat \<Rightarrow> string \<Rightarrow> string \<Rightarrow> string option \<Rightarrow> string option \<Rightarrow> gw_request list \<Rightarrow>
     (gateway_error + charge_result) \<times> gw_request list" where
  "chargeToken R net G txRef amt cur token cvv email sent =
     (let orderId = sanitizeId txRef; txId = orderId @ ''-pay-1''
      in put_success net G orderId txId (token_pay_body txRef amt cur token cvv email)
           (charge_of R txRef amt cur txId) sent)"

section \<open>What is sent\<close>

definition put_rq :: "gateway \<Rightarrow> string \<Rightarrow> string \<Rightarrow> json \<Rightarrow> gw_request" where
  "put_rq G orderId txId body = \<lparr>rq_verb = ''PUT'', rq_baseUrl = gw_baseUrl G, rq_apiVersion = gw_apiVersion G,
     rq_merchantId = gw_merchantId G, rq_apiPassword = Some (gw_apiPassword G), rq_path = TransactionPath orderId txId,
     rq_body = Some body\<rparr>"

definition answered_success :: "net_answer \<Rightarrow> bool" where
  "answered_success a \<longleftrightarrow> (case a of NetAnswer _ (Some j) \<Rightarrow> rstr [''result''] j = Some ''SUCCESS'' | _ \<Rightarrow> False)"

lemma rstr_null [simp]: "rstr [f] JNull = None"
  by (simp add: rstr_def)

lemma put_success_sent:
  assumes "put_success net G orderId txId body f sent = (r, sent')"
  shows "sent' = (if gw_isConfigured G then sent @ [put_rq G orderId txId body] else sent)"
    and "(\<exists>x. r = Inr x) \<longleftrightarrow> gw_isConfigured G \<and> answered_success (net sent')"
    and "\<not> gw_isConfigured G \<Longrightarrow> r = Inl NotConfigured"
  using assms
  by (auto simp: put_success_def putTransaction_def gw_call_def put_rq_def answered_success_def assertSuccess_def
      parseAndValidateResponse_def Let_def split: if_splits net_answer.splits option.splits)

text \<open>A charge: one PAY for the order of the reference over the rounded amount, as the merchant of the
  client, reported as successful exactly when the gateway says so.\<close>

definition is_pay :: "gw_request \<Rightarrow> bool" where
  "is_pay rq \<longleftrightarrow> (case rq_body rq of Some b \<Rightarrow> rstr [''apiOperation''] b = Some ''PAY'' | None \<Rightarrow> False)"

definition pay_for :: "gateway \<Rightarrow> string \<Rightarrow> rat \<Rightarrow> string \<Rightarrow> gw_request \<Rightarrow> bool" where
  "pay_for G txRef amt cur rq \<longleftrightarrow> is_pay rq \<and> rq_verb rq = ''PUT'' \<and> rq_merchantId rq = gw_merchantId G \<and>
     rq_path rq = TransactionPath (sanitizeId txRef) (pay_txid txRef) \<and>
     (case rq_body rq of
        Some b \<Rightarrow> jpath [''order'', ''amount''] b = JDec (half_away 2 amt) \<and> rstr [''order'', ''currency''] b = Some cur
      | None \<Rightarrow> False)"

definition one_pay ::
  "net \<Rightarrow> gateway \<Rightarrow> string \<Rightarrow> rat \<Rightarrow> string \<Rightarrow> gw_request list \<Rightarrow> (gateway_error + charge_result) \<times> gw_request list \<Rightarrow> bool" where
  "one_pay net G txRef amt cur sent out \<longleftrightarrow>
     (if gw_isConfigured G
      then (\<exists>rq. snd out = sent @ [rq] \<and> pay_for G txRef amt cur rq \<and>
        (case fst out of Inr c \<Rightarrow> answered_success (net (sent @ [rq])) \<and> cr_amount c = amt \<and> cr_txRef c = txRef
         | Inl _ \<Rightarrow> \<not> answered_success (net (sent @ [rq]))))
      else out = (Inl NotConfigured, sent))"

lemma put_success_pay:
  assumes "pay_for G txRef amt cur (put_rq G orderId txId body)" and "\<And>j. cr_amount (f j) = amt \<and> cr_txRef (f j) = txRef"
  shows "one_pay net G txRef amt cur sent (put_success net G orderId txId body f sent)"
proof -
  obtain r sent' where p: "put_success net G orderId txId body f sent = (r, sent')" by (rule prod.exhaust)
  note q = put_success_sent [OF p]
  have f: "cr_amount c = amt \<and> cr_txRef c = txRef" if "r = Inr c" for c
    using that p assms(2) by (auto simp: put_success_def assertSuccess_def split: if_splits sum.splits prod.splits)
  show ?thesis
  proof (cases "gw_isConfigured G")
    case True
    with q f show ?thesis
      by (auto simp: p one_pay_def assms(1) split: sum.split intro!: exI [of _ "put_rq G orderId txId body"])
  next
    case False
    with q show ?thesis by (simp add: p one_pay_def)
  qed
qed

lemmas body_simps = is_pay_def pay_for_def put_rq_def rstr_def order_json_def formatAmount_def pay_txid_def

lemma charge_one_pay:
  "one_pay net G (cp_txRef p) (cp_amount p) (cp_currency p) sent (chargeCard R net G p sent)"
  "one_pay net G txRef amt cur sent (chargeSession R net G txRef amt cur sid email auth sent)"
  "one_pay net G txRef amt cur sent (chargeToken R net G txRef amt cur token cvv email sent)"
  unfolding chargeCard_def chargeSession_def chargeToken_def Let_def
  by (rule put_success_pay; simp add: body_simps charge_of_def session_pay_body_def token_pay_body_def)+

text \<open>The request that reads the authentication result of a payment reference.\<close>

definition auth_read :: "gateway \<Rightarrow> string \<Rightarrow> gw_request \<Rightarrow> bool" where
  "auth_read G txRef rq \<longleftrightarrow> rq_verb rq = ''GET'' \<and> rq_merchantId rq = gw_merchantId G \<and>
     rq_path rq = TransactionPath (sanitizeId txRef) (sanitizeId txRef @ ''-3ds-1'')"

lemma retrieve_sent:
  assumes "retrieveAuthentication net G txRef sent = (r, sent')"
  shows "filter is_pay sent' = filter is_pay sent"
    and "r = Inr True \<Longrightarrow>
      \<exists>rq j ok. sent' = sent @ [rq] \<and> auth_read G txRef rq \<and> net sent' = NetAnswer ok (Some j) \<and> authenticated j"
  using assms
  by (auto simp: retrieveAuthentication_def getTransaction_def gw_call_def is_pay_def parseAndValidateResponse_def Let_def
      auth_read_def authTransactionId_def split: if_splits net_answer.splits option.splits)

section \<open>Properties\<close>

text \<open>The client reports charges honestly: charging a card, a session or a token sends exactly one PAY, to the
  order and transaction id derived from the payment reference, for the amount rounded to two places, as the
  configured merchant; it reports success exactly when the gateway answered with success; an unconfigured
  client sends nothing.\<close>

lemma charges_reported_honestly:
  "one_pay net G (cp_txRef p) (cp_amount p) (cp_currency p) sent (chargeCard R net G p sent) \<and>
   one_pay net G txRef amt cur sent (chargeSession R net G txRef amt cur sid email auth sent) \<and>
   one_pay net G txRef amt cur sent (chargeToken R net G txRef amt cur token cvv email sent)"
  by (intro conjI charge_one_pay)

text \<open>A frictionless authentication and a verified one are the same gateway statement: the payer was
  authenticated and the gateway does not advise against the payment; advice against it always rejects; a
  decline maps to payment required, and every gateway error maps to one of four HTTP statuses.\<close>

lemma authentication_outcomes:
  "(auth_outcome_of r = FRICTIONLESS \<longleftrightarrow> authenticated r) \<and>
   (rstr [''response'', ''gatewayRecommendation''] r = Some ''DO_NOT_PROCEED'' \<longrightarrow> auth_outcome_of r = AUTH_REJECTED) \<and>
   toHttpStatus e \<in> {402, 422, 502, 504} \<and>
   (toHttpStatus e = 402 \<longrightarrow> me_result e = Some ''FAILURE'' \<and> me_code e \<noteq> Some ''TIMED_OUT'')"
  by (auto simp: auth_outcome_of_def authenticated_def Let_def toHttpStatus_def DECLINE_CODES_def)

section \<open>References that share an order id\<close>

text \<open>
  Order ids are cut at forty characters, while a payment reference has up to fifty-eight: two references
  of one client that differ only near the end share the order and the PAY transaction at the gateway.
\<close>

lemma sanitizeId_short: "length (sanitizeId i) \<le> 40 \<and> (length i \<le> 40 \<longrightarrow> sanitizeId i = i)"
  by (simp add: sanitizeId_def)

lemma order_id_collision:
  "let a = ''PINE-CARD-deposit-2026-01-01-user-000001-A''; b = ''PINE-CARD-deposit-2026-01-01-user-000001-B''
   in a \<noteq> b \<and> sanitizeId a = sanitizeId b \<and> pay_txid a = pay_txid b"
  by code_simp

end
