(* ===== verification/CardPayments.thy ===== *)
theory CardPayments
  imports Gateway Orders "HOL-Library.Sublist"
begin

text \<open>
  Card deposits: \<^verbatim>\<open>src/modules/payments/services/card-payment.service.ts\<close> and the credential resolution of
  \<^verbatim>\<open>src/modules/brokers/services/broker-payment-config.service.ts\<close>, over the wallet service, the gateway client,
  the mock gateway and the saved cards.

  The state is the database together with the requests sent to the gateway and the record of the mock
  gateway.  Random ids (\<open>rand\<close>), the initialisation vector of a cipher (\<open>iv\<close>), the host's cipher and the
  decryption of a broker's secret are arguments.
\<close>

section \<open>State and environment\<close>

record world =
  wo_db :: db
  wo_sent :: "gw_request list"
  wo_mock :: mock_charges

record pay_env =
  pe_isProduction :: bool
  pe_allowTestTransactions :: bool
  pe_appUrl :: string
  pe_apiPrefix :: string
  pe_tzOffset :: int
  pe_seal :: seal
  pe_unseal :: unseal
  pe_openSecret :: "string \<Rightarrow> string option"
  pe_submit :: "(db \<Rightarrow> uuid \<Rightarrow> string \<Rightarrow> rat \<Rightarrow> string \<Rightarrow> kyc_status \<Rightarrow> db) option"

section \<open>Broker credentials\<close>

record ResolvedBrokerGatewayConfig =
  rg_brokerId :: uuid
  rg_provider :: string
  rg_baseUrl :: string
  rg_apiVersion :: int
  rg_environment :: string
  rg_merchantId :: string
  rg_apiPassword :: string
  rg_require3ds :: bool

definition resolveGatewayConfigForUser ::
  "pay_env \<Rightarrow> db \<Rightarrow> uuid \<Rightarrow> (err + ResolvedBrokerGatewayConfig) \<times> db" where
  "resolveGatewayConfigForUser E s0 u =
     (let s = snd (ensureBroker s0 u)
      in case brokerIdOf s u of
           None \<Rightarrow> (Inl (Conflict (Msg ''BROKER_REQUIRED'')), s)
         | Some b \<Rightarrow>
             (case findBroker s b of
                None \<Rightarrow> (Inl (Conflict (Msg ''BROKER_REQUIRED'')), s)
              | Some br \<Rightarrow>
                  if \<not> b_isActive br then (Inl (Conflict (Msg ''Your broker is currently unavailable. Contact support.'')), s)
                  else
                    (case map_of (db_paymentConfigs s) b of
                       None \<Rightarrow> (Inl (Conflict (Msg ''BROKER_PAYMENTS_NOT_CONFIGURED'')), s)
                     | Some c \<Rightarrow>
                         if \<not> pm_isEnabled c \<or> \<not> truthy (pm_merchantId c) \<or> \<not> truthy (pm_apiPasswordEnc c) \<or> \<not> truthy (pm_baseUrl c)
                         then (Inl (Conflict (Msg ''BROKER_PAYMENTS_NOT_CONFIGURED'')), s)
                         else
                           (case pe_openSecret E (orElse (pm_apiPasswordEnc c) []) of
                              None \<Rightarrow> (Inl (PlainError (Msg ''Unsupported state or unable to authenticate data'')), s)
                            | Some pw \<Rightarrow>
                                (Inr \<lparr>rg_brokerId = b, rg_provider = pm_provider c, rg_baseUrl = orElse (pm_baseUrl c) [],
                                   rg_apiVersion = pm_apiVersion c, rg_environment = pm_environment c,
                                   rg_merchantId = orElse (pm_merchantId c) [], rg_apiPassword = pw,
                                   rg_require3ds = pm_require3ds c\<rparr>, s)))))"

definition gateway_for :: "ResolvedBrokerGatewayConfig \<Rightarrow> gateway" where
  "gateway_for c = scopedTo (rg_merchantId c) (rg_apiPassword c) (rg_baseUrl c) (rg_apiVersion c)"

definition resolveBrokerGateway :: "pay_env \<Rightarrow> db \<Rightarrow> uuid \<Rightarrow> (err + gateway \<times> uuid \<times> bool) \<times> db" where
  "resolveBrokerGateway E s u =
     (case resolveGatewayConfigForUser E s u of
        (Inl e, s1) \<Rightarrow> (Inl e, s1)
      | (Inr c, s1) \<Rightarrow>
          if \<not> isLive (gateway_for c) then (Inl (Unavailable (Msg ''Card payments are not yet enabled for your broker.'')), s1)
          else (Inr (gateway_for c, rg_brokerId c, rg_require3ds c), s1))"

definition brokerGatewayOrThrow :: "pay_env \<Rightarrow> db \<Rightarrow> uuid \<Rightarrow> (err + gateway) \<times> db" where
  "brokerGatewayOrThrow E s u =
     (case resolveGatewayConfigForUser E s u of
        (Inl e, s1) \<Rightarrow> (Inl e, s1)
      | (Inr c, s1) \<Rightarrow>
          if \<not> isLive (gateway_for c)
          then (Inl (Unavailable (Msg ''Card payments are not yet enabled for your broker. Use Test Transaction mode, or contact support.'')), s1)
          else (Inr (gateway_for c), s1))"

section \<open>Helpers\<close>

definition key_char :: "char \<Rightarrow> bool" where
  "key_char c \<longleftrightarrow> (let n = char_code c in 65 \<le> n \<and> n \<le> 90 \<or> 97 \<le> n \<and> n \<le> 122 \<or> 48 \<le> n \<and> n \<le> 57 \<or> n = 95 \<or> n = 45)"

definition sanitizeKey :: "string \<Rightarrow> string" where
  "sanitizeKey key = take 48 (filter key_char key)"

definition tx_ref :: "string \<Rightarrow> string option \<Rightarrow> string" where
  "tx_ref rand key = ''PINE-CARD-'' @ (if truthy key then sanitizeKey (orElse key []) else rand)"

definition strip_left :: "char \<Rightarrow> string \<Rightarrow> string" where
  "strip_left c s = dropWhile (\<lambda>x. x = c) s"

definition strip_right :: "char \<Rightarrow> string \<Rightarrow> string" where
  "strip_right c s = rev (strip_left c (rev s))"

definition threeDsReturnUrl :: "pay_env \<Rightarrow> string" where
  "threeDsReturnUrl E = strip_right CHR ''/'' (pe_appUrl E) @ ''/'' @
     strip_right CHR ''/'' (strip_left CHR ''/'' (pe_apiPrefix E)) @ ''/payments/card/3ds/return''"

text \<open>The calendar: days since 1970 of the first of the month with index \<open>k\<close> (January is 0) of a year; years
  below 100 count from 1900.\<close>

definition days_first :: "int \<Rightarrow> int \<Rightarrow> int" where
  "days_first y k =
     (let yy = (if 0 \<le> y \<and> y \<le> 99 then 1900 + y else y) + k div 12; m = k mod 12 + 1;
          y' = (if m \<le> 2 then yy - 1 else yy); era = y' div 400; yoe = y' mod 400;
          doy = (153 * (if m > 2 then m - 3 else m + 9) + 2) div 5;
          doe = yoe * 365 + yoe div 4 - yoe div 100 + doy
      in era * 146097 + doe - 719468)"

fun digits_value :: "int \<Rightarrow> string \<Rightarrow> int" where
  "digits_value acc [] = acc"
| "digits_value acc (c # cs) = digits_value (10 * acc + (char_code c - 48)) cs"

definition end_of_month :: "int \<Rightarrow> int \<Rightarrow> int \<Rightarrow> timestamp" where
  "end_of_month tz year month = (days_first year month - 1) * 86400000 + 86399000 - tz"

definition validateCard :: "runtime \<Rightarrow> pay_env \<Rightarrow> string \<Rightarrow> string \<Rightarrow> string \<Rightarrow> err option" where
  "validateCard R E num month year =
     (if \<not> luhnValid num then Some (BadRequest (Msg ''Card number is invalid.''))
      else
        let y = (if length year = 2 then 2000 + digits_value 0 year else digits_value 0 year)
        in if end_of_month (pe_tzOffset E) y (digits_value 0 month) < now R
           then Some (BadRequest (Msg ''Card has expired.'')) else None)"

datatype pay_failure = GatewayFailure gateway_error | AppFailure err

definition me_message :: "mcgs_error \<Rightarrow> string" where
  "me_message e = orElse (me_explanation e) (''Mastercard Gateway: '' @ orElse (me_code e) (orElse (me_result e) ''undefined''))"

definition FAILURE_MESSAGES :: "(string \<times> string) list" where
  "FAILURE_MESSAGES =
     [(''DECLINED'', ''Your card was declined by the issuing bank. Please try another card.''),
      (''INSUFFICIENT_FUNDS'', ''The card has insufficient funds for this payment.''),
      (''EXPIRED_CARD'', ''The card has expired. Please use a different card.''),
      (''TIMED_OUT'', ''The payment gateway did not respond in time. You have not been charged, please try again.'')]"

definition describeFailure :: "pay_failure \<Rightarrow> string \<times> string" where
  "describeFailure f =
     (case f of
        GatewayFailure (McgsError e) \<Rightarrow>
          (let c = orElse (me_code e) (orElse (me_result e) ''undefined'')
           in (orElse (map_of FAILURE_MESSAGES c) (me_message e), c))
      | GatewayFailure (NodeError c) \<Rightarrow>
          if c = ''ECONNRESET'' \<or> c = ''ETIMEDOUT''
          then (''A network error interrupted the payment. You have not been charged, please try again.'', ''NETWORK_ERROR'')
          else (''Payment could not be completed. Please try again.'', ''UNKNOWN'')
      | _ \<Rightarrow> (''Payment could not be completed. Please try again.'', ''UNKNOWN''))"

record BankCardPaymentResponse =
  br_txRef :: string
  br_transactionId :: uuid
  br_success :: bool
  br_amount :: rat
  br_currency :: string
  br_message :: string
  br_processorReference :: "string option"
  br_last4 :: "string option"
  br_cardBrand :: "string option"

definition plain_response ::
  "string \<Rightarrow> uuid \<Rightarrow> bool \<Rightarrow> rat \<Rightarrow> string \<Rightarrow> string \<Rightarrow> string option \<Rightarrow> BankCardPaymentResponse" where
  "plain_response txRef i ok amt cur msg last4 =
     \<lparr>br_txRef = txRef, br_transactionId = i, br_success = ok, br_amount = amt, br_currency = cur, br_message = msg,
      br_processorReference = None, br_last4 = last4, br_cardBrand = None\<rparr>"

definition charged_response ::
  "string \<Rightarrow> uuid \<Rightarrow> rat \<Rightarrow> string \<Rightarrow> charge_result \<Rightarrow> string \<Rightarrow> string \<Rightarrow> BankCardPaymentResponse" where
  "charged_response txRef i amt cur c last4 brand =
     \<lparr>br_txRef = txRef, br_transactionId = i, br_success = True, br_amount = amt, br_currency = cur,
      br_message = cr_message c, br_processorReference = Some (cr_processorReference c), br_last4 = Some last4,
      br_cardBrand = Some brand\<rparr>"

text \<open>After a charge: credit the wallet through the deposit pipeline; an exception of either step marks the
  deposit as failed.\<close>

definition settle_charge ::
  "runtime \<Rightarrow> pay_env \<Rightarrow> db \<Rightarrow> string \<Rightarrow> gateway_error + charge_result \<Rightarrow> (pay_failure + charge_result) \<times> db" where
  "settle_charge R E s txRef out =
     (case out of
        Inl e \<Rightarrow> (Inl (GatewayFailure e), markDepositFailed s txRef)
      | Inr c \<Rightarrow>
          (case processPaymentByTxRef R (pe_submit E) s txRef of
             (Inl e, s1) \<Rightarrow> (Inl (AppFailure e), markDepositFailed s1 txRef)
           | (Inr _, s1) \<Rightarrow> (Inr c, s1)))"

definition purpose_fields :: "string option \<Rightarrow> rat option \<Rightarrow> metadata" where
  "purpose_fields symb qty =
     (if truthy symb then [(''stockSymbol'', JStr (orElse symb [])), (''quantity'', case qty of Some q \<Rightarrow> JNum q | None \<Rightarrow> JNull)] else [])"

section \<open>Direct card payment\<close>

record card_dto =
  kd_amount :: rat
  kd_currency :: string
  kd_cardholderName :: string
  kd_cardNumber :: string
  kd_expiryMonth :: string
  kd_expiryYear :: string
  kd_cvv :: string
  kd_savedCardId :: "uuid option"
  kd_saveCard :: bool
  kd_purpose :: "string option"
  kd_stockSymbol :: "string option"
  kd_quantity :: "rat option"
  kd_idempotencyKey :: "string option"
  kd_testScenario :: "MockScenario option"

definition merge_saved :: "pay_env \<Rightarrow> db \<Rightarrow> uuid \<Rightarrow> card_dto \<Rightarrow> err + card_dto" where
  "merge_saved E s u d =
     (case kd_savedCardId d of
        None \<Rightarrow> Inr d
      | Some i \<Rightarrow>
          (case getDecryptedCard (pe_unseal E) s u i of
             Inl e \<Rightarrow> Inl e
           | Inr c \<Rightarrow> Inr (d\<lparr>kd_cardNumber := dc_cardNumber c, kd_cardholderName := dc_cardholderName c,
               kd_expiryMonth := dc_expiryMonth c, kd_expiryYear := dc_expiryYear c\<rparr>)))"

definition params_of :: "string \<Rightarrow> string option \<Rightarrow> card_dto \<Rightarrow> card_params" where
  "params_of txRef email d =
     \<lparr>cp_txRef = txRef, cp_amount = kd_amount d, cp_currency = kd_currency d, cp_cardholderName = kd_cardholderName d,
      cp_cardNumber = kd_cardNumber d, cp_expiryMonth = kd_expiryMonth d, cp_expiryYear = kd_expiryYear d,
      cp_cvv = kd_cvv d, cp_email = email\<rparr>"

text \<open>The charge of a resolved payment, over the mock or the broker's gateway, and what follows it.\<close>

definition charge_direct ::
  "runtime \<Rightarrow> pay_env \<Rightarrow> net \<Rightarrow> string \<Rightarrow> gateway option \<Rightarrow> string \<Rightarrow> string option \<Rightarrow> card_dto \<Rightarrow> world \<Rightarrow>
     (gateway_error + charge_result) \<times> world" where
  "charge_direct R E net rand gw txRef email d W =
     (case gw of
        None \<Rightarrow>
          (let (r, m) = mock_chargeCard R rand (wo_mock W) txRef (kd_amount d) (kd_currency d) (kd_cardNumber d) (kd_testScenario d)
           in (r, W\<lparr>wo_mock := m\<rparr>))
      | Some G \<Rightarrow>
          (let (r, sent) = chargeCard R net G (params_of txRef email d) (wo_sent W) in (r, W\<lparr>wo_sent := sent\<rparr>)))"

definition remember_card :: "runtime \<Rightarrow> pay_env \<Rightarrow> string \<Rightarrow> db \<Rightarrow> uuid \<Rightarrow> card_dto \<Rightarrow> db" where
  "remember_card R E iv s u d =
     (if kd_saveCard d \<and> kd_savedCardId d = None then
        (case saveCard R (pe_seal E) iv s u (kd_cardNumber d) (kd_cardholderName d) (kd_expiryMonth d) (kd_expiryYear d) of
           Inl _ \<Rightarrow> s
         | Inr (s', _) \<Rightarrow> s')
      else s)"

definition initiateCardPayment ::
  "runtime \<Rightarrow> pay_env \<Rightarrow> net \<Rightarrow> string \<Rightarrow> string \<Rightarrow> world \<Rightarrow> uuid \<Rightarrow> string option \<Rightarrow> card_dto \<Rightarrow>
     (err + BankCardPaymentResponse) \<times> world" where
  "initiateCardPayment R E net rand iv W u email d0 =
     (case merge_saved E (wo_db W) u d0 of
        Inl e \<Rightarrow> (Inl e, W)
      | Inr d \<Rightarrow>
          (case validateCard R E (kd_cardNumber d) (kd_expiryMonth d) (kd_expiryYear d) of
             Some e \<Rightarrow> (Inl e, W)
           | None \<Rightarrow>
               if kd_testScenario d \<noteq> None \<and> pe_isProduction E \<and> \<not> pe_allowTestTransactions E
               then (Inl (BadRequest (Msg ''Test transactions are not available.'')), W)
               else
                 let testMode = (kd_testScenario d \<noteq> None);
                     txRef = tx_ref rand (kd_idempotencyKey d);
                     meta = [(''purpose'', JStr (orElse (kd_purpose d) ''wallet_deposit'')), (''method'', JStr ''BANK_CARD''),
                       (''testMode'', JBool testMode)] @ purpose_fields (kd_stockSymbol d) (kd_quantity d);
                     last4 = Some (slice_last 4 (kd_cardNumber d))
                 in case initiateDeposit R (wo_db W) u (kd_amount d) (Some txRef) meta (Some ''CARD'') of
                      (Inl e, s1) \<Rightarrow> (Inl e, W\<lparr>wo_db := s1\<rparr>)
                    | (Inr (i, st), s1) \<Rightarrow>
                        if st = TX_COMPLETED
                        then (Inr (plain_response txRef i True (kd_amount d) (kd_currency d)
                               ''Payment already processed: charged exactly once.'' last4), W\<lparr>wo_db := s1\<rparr>)
                        else if st = TX_FAILED
                        then (Inr (plain_response txRef i False (kd_amount d) (kd_currency d)
                               ''This payment reference previously failed. Start a new payment.'' last4), W\<lparr>wo_db := s1\<rparr>)
                        else
                          (case (if testMode then (Inr None, s1)
                                 else case brokerGatewayOrThrow E s1 u of (r, s) \<Rightarrow> (map_sum id Some r, s)) of
                             (Inl e, s2) \<Rightarrow> (Inl e, W\<lparr>wo_db := s2\<rparr>)
                           | (Inr gw, s2) \<Rightarrow>
                               (let (out, W1) = charge_direct R E net rand gw txRef email d (W\<lparr>wo_db := s2\<rparr>)
                                in case settle_charge R E (wo_db W1) txRef out of
                                     (Inr c, s3) \<Rightarrow>
                                       (Inr (charged_response txRef i (kd_amount d) (kd_currency d) c (cr_last4 c) (cr_cardBrand c)),
                                        W1\<lparr>wo_db := remember_card R E iv s3 u d\<rparr>)
                                   | (Inl f, s3) \<Rightarrow>
                                       (Inr (plain_response txRef i False (kd_amount d) (kd_currency d)
                                          (fst (describeFailure f)) last4), W1\<lparr>wo_db := s3\<rparr>)))))"

section \<open>Hosted session\<close>

record session_dto =
  xd_amount :: rat
  xd_currency :: string
  xd_purpose :: "string option"
  xd_stockSymbol :: "string option"
  xd_quantity :: "rat option"
  xd_idempotencyKey :: "string option"

record CardSessionResponse =
  cs_txRef :: string
  cs_transactionId :: uuid
  cs_session :: session_handle
  cs_amount :: rat
  cs_currency :: string

datatype pay_error = AppError err | GwError gateway_error

definition createPaymentSession ::
  "runtime \<Rightarrow> pay_env \<Rightarrow> net \<Rightarrow> string \<Rightarrow> world \<Rightarrow> uuid \<Rightarrow> session_dto \<Rightarrow> (pay_error + CardSessionResponse) \<times> world" where
  "createPaymentSession R E net rand W u d =
     (case resolveBrokerGateway E (wo_db W) u of
        (Inl e, s0) \<Rightarrow> (Inl (AppError e), W\<lparr>wo_db := s0\<rparr>)
      | (Inr (G, _, _), s0) \<Rightarrow>
          (let txRef = tx_ref rand (xd_idempotencyKey d);
               meta = [(''purpose'', JStr (orElse (xd_purpose d) ''wallet_deposit'')), (''method'', JStr ''BANK_CARD''),
                 (''integration'', JStr ''HOSTED_SESSION''), (''currency'', JStr (xd_currency d))] @
                 purpose_fields (xd_stockSymbol d) (xd_quantity d)
           in case initiateDeposit R s0 u (xd_amount d) (Some txRef) meta (Some ''CARD'') of
                (Inl e, s1) \<Rightarrow> (Inl (AppError e), W\<lparr>wo_db := s1\<rparr>)
              | (Inr (i, st), s1) \<Rightarrow>
                  if st = TX_COMPLETED
                  then (Inl (AppError (BadRequest (Msg ''This payment has already been completed. Start a new deposit.''))), W\<lparr>wo_db := s1\<rparr>)
                  else if st = TX_FAILED
                  then (Inl (AppError (BadRequest (Msg ''This payment reference previously failed. Start a new deposit.''))), W\<lparr>wo_db := s1\<rparr>)
                  else
                    (case createSession net G (wo_sent W) of
                       (Inl e, sent) \<Rightarrow> (Inl (GwError e), W\<lparr>wo_db := s1, wo_sent := sent\<rparr>)
                     | (Inr h, sent) \<Rightarrow>
                         (Inr \<lparr>cs_txRef = txRef, cs_transactionId = i, cs_session = h, cs_amount = xd_amount d,
                            cs_currency = xd_currency d\<rparr>,
                          W\<lparr>wo_db := attachDepositMetadata s1 txRef
                              [(''gatewaySessionId'', JStr (sh_sessionId h)), (''currency'', JStr (xd_currency d))],
                            wo_sent := sent\<rparr>))))"

text \<open>What the later steps read from the stored deposit.\<close>

definition meta_str :: "string \<Rightarrow> transaction \<Rightarrow> string option" where
  "meta_str k t = rstr [k] (JObj (t_metadata t))"

definition stored_currency :: "transaction \<Rightarrow> string" where
  "stored_currency t = orElse (meta_str ''currency'' t) ''MWK''"

definition stored_gross :: "runtime \<Rightarrow> transaction \<Rightarrow> rat" where
  "stored_gross R t = js R (orElse (jdec (jfield ''grossAmount'' (JObj (t_metadata t)))) (t_amount t))"

definition trim :: "string \<Rightarrow> string" where
  "trim s = rev (dropWhile js_space (rev (dropWhile js_space s)))"

text \<open>The authentication result is read from the gateway again; an error of that call counts as not verified.\<close>

definition auth_step :: "net \<Rightarrow> gateway \<Rightarrow> string \<Rightarrow> transaction \<Rightarrow> gw_request list \<Rightarrow> (gateway_error + bool) \<times> gw_request list" where
  "auth_step net G txRef t sent =
     (if truthy (meta_str ''threeDsAuthTransactionId'' t) then retrieveAuthentication net G txRef sent else (Inr False, sent))"

definition remember_session ::
  "runtime \<Rightarrow> net \<Rightarrow> gateway \<Rightarrow> uuid \<Rightarrow> uuid \<Rightarrow> string \<Rightarrow> string option \<Rightarrow> charge_result \<Rightarrow> world \<Rightarrow> world" where
  "remember_session R net G u broker sessionId name c W =
     (case createTokenFromSession net G sessionId (wo_sent W) of
        (Inl _, sent) \<Rightarrow> W\<lparr>wo_sent := sent\<rparr>
      | (Inr tok, sent) \<Rightarrow>
          (case saveTokenizedCard R (wo_db W) u broker
                  (tok\<lparr>ct_last4 := orEmpty (ct_last4 tok) (cr_last4 c),
                     ct_cardBrand := orEmpty (ct_cardBrand tok) (orEmpty (cr_cardBrand c) ''UNKNOWN''),
                     ct_cardholderName := orEmpty (trim (orElse name [])) ''Cardholder''\<rparr>) of
             Inl _ \<Rightarrow> W\<lparr>wo_sent := sent\<rparr>
           | Inr (s', _) \<Rightarrow> W\<lparr>wo_sent := sent, wo_db := s'\<rparr>))"

definition completeSessionPayment ::
  "runtime \<Rightarrow> pay_env \<Rightarrow> net \<Rightarrow> world \<Rightarrow> uuid \<Rightarrow> string option \<Rightarrow> string \<Rightarrow> bool \<Rightarrow> string option \<Rightarrow>
     (err + BankCardPaymentResponse) \<times> world" where
  "completeSessionPayment R E net W u email txRef saveIt name =
     (case getDepositForUser (wo_db W) u txRef of
        None \<Rightarrow> (Inl (NotFound (Msg ''Payment not found.'')), W)
      | Some t \<Rightarrow>
          (let cur = stored_currency t; gross = stored_gross R t
           in if t_status t = TX_COMPLETED
              then (Inr (plain_response txRef (t_id t) True gross cur ''Payment already processed: charged exactly once.'' None), W)
              else if t_status t = TX_FAILED
              then (Inr (plain_response txRef (t_id t) False gross cur ''This payment previously failed. Start a new deposit.'' None), W)
              else if \<not> truthy (meta_str ''gatewaySessionId'' t)
              then (Inl (BadRequest (Msg ''This payment has no active card session. Start the deposit again.'')), W)
              else
                (let sessionId = orElse (meta_str ''gatewaySessionId'' t) []
                 in case resolveBrokerGateway E (wo_db W) u of
                      (Inl e, s1) \<Rightarrow> (Inl e, W\<lparr>wo_db := s1\<rparr>)
                    | (Inr (G, broker, require3ds), s1) \<Rightarrow>
                        (let authTxn = meta_str ''threeDsAuthTransactionId'' t;
                             (verified, sent1) = auth_step net G txRef t (wo_sent W);
                             authenticatedTxn = (if verified = Inr True then authTxn else None)
                         in if require3ds \<and> authenticatedTxn = None
                            then (Inr (plain_response txRef (t_id t) False gross cur
                                    ''Your bank did not verify this payment, and your broker requires verification for card deposits.'' None),
                                  W\<lparr>wo_db := markDepositFailed s1 txRef, wo_sent := sent1\<rparr>)
                            else
                              (let (out, sent2) = chargeSession R net G txRef gross cur sessionId email authenticatedTxn sent1
                               in case settle_charge R E s1 txRef out of
                                    (Inr c, s2) \<Rightarrow>
                                      (Inr (charged_response txRef (t_id t) gross cur c (cr_last4 c) (cr_cardBrand c)),
                                       (let W2 = W\<lparr>wo_db := s2, wo_sent := sent2\<rparr>
                                        in if saveIt then remember_session R net G u broker sessionId name c W2 else W2))
                                  | (Inl f, s2) \<Rightarrow>
                                      (Inr (plain_response txRef (t_id t) False gross cur (fst (describeFailure f)) None),
                                       W\<lparr>wo_db := s2, wo_sent := sent2\<rparr>))))))"

record CardAuthenticationResponse =
  ar_outcome :: auth_outcome
  ar_canProceed :: bool
  ar_message :: string
  ar_redirectHtml :: "string option"
  ar_returnUrl :: "string option"

definition auth_response :: "auth_outcome \<Rightarrow> bool \<Rightarrow> string \<Rightarrow> CardAuthenticationResponse" where
  "auth_response out ok msg = \<lparr>ar_outcome = out, ar_canProceed = ok, ar_message = msg, ar_redirectHtml = None, ar_returnUrl = None\<rparr>"

definition outcome_str :: "auth_outcome \<Rightarrow> string" where
  "outcome_str a = (case a of FRICTIONLESS \<Rightarrow> ''FRICTIONLESS'' | CHALLENGE \<Rightarrow> ''CHALLENGE''
     | NOT_AVAILABLE \<Rightarrow> ''NOT_AVAILABLE'' | AUTH_REJECTED \<Rightarrow> ''REJECTED'')"

definition auth_failed :: "bool \<Rightarrow> gateway_error \<Rightarrow> CardAuthenticationResponse" where
  "auth_failed require3ds e =
     (if require3ds then auth_response AUTH_REJECTED False (fst (describeFailure (GatewayFailure e)))
      else auth_response NOT_AVAILABLE True ''Card verification is unavailable right now.'')"

definition authenticateCardSession ::
  "pay_env \<Rightarrow> runtime \<Rightarrow> net \<Rightarrow> world \<Rightarrow> uuid \<Rightarrow> string option \<Rightarrow> string \<Rightarrow> device \<Rightarrow>
     (err + CardAuthenticationResponse) \<times> world" where
  "authenticateCardSession E R net W u email txRef dev =
     (case getDepositForUser (wo_db W) u txRef of
        None \<Rightarrow> (Inl (NotFound (Msg ''Payment not found.'')), W)
      | Some t \<Rightarrow>
          if t_status t \<noteq> TX_PENDING
          then (Inl (BadRequest (Msg ''This payment is no longer awaiting authentication.'')), W)
          else if \<not> truthy (meta_str ''gatewaySessionId'' t)
          then (Inl (BadRequest (Msg ''This payment has no active card session.'')), W)
          else
            (let sessionId = orElse (meta_str ''gatewaySessionId'' t) []; cur = stored_currency t
             in case resolveBrokerGateway E (wo_db W) u of
                  (Inl e, s1) \<Rightarrow> (Inl e, W\<lparr>wo_db := s1\<rparr>)
                | (Inr (G, _, require3ds), s1) \<Rightarrow>
                    (case initiateAuthentication net G txRef cur sessionId (wo_sent W) of
                       (Inl e, sent1) \<Rightarrow> (Inr (auth_failed require3ds e), W\<lparr>wo_db := s1, wo_sent := sent1\<rparr>)
                     | (Inr en, sent1) \<Rightarrow>
                         if \<not> ai_available en \<or> ai_recommendation en = ''DO_NOT_PROCEED''
                         then (Inr (if require3ds \<or> ai_recommendation en = ''DO_NOT_PROCEED''
                                 then auth_response NOT_AVAILABLE False ''This card could not be verified with your bank, and your broker requires verification for card deposits. Please use a different card.''
                                 else auth_response NOT_AVAILABLE True ''Your bank does not support card verification for this card.''),
                               W\<lparr>wo_db := attachDepositMetadata s1 txRef
                                   [(''threeDsOutcome'', JStr ''NOT_AVAILABLE''), (''threeDsVersion'', JStr (ai_version en))],
                                 wo_sent := sent1\<rparr>)
                         else
                           (case authenticatePayer net G txRef (stored_gross R t) cur sessionId (threeDsReturnUrl E) dev email sent1 of
                              (Inl e, sent2) \<Rightarrow> (Inr (auth_failed require3ds e), W\<lparr>wo_db := s1, wo_sent := sent2\<rparr>)
                            | (Inr a, sent2) \<Rightarrow>
                                (Inr (case au_outcome a of
                                    AUTH_REJECTED \<Rightarrow>
                                      auth_response AUTH_REJECTED False ''Your bank declined to verify this payment. Please try another card.''
                                  | CHALLENGE \<Rightarrow>
                                      (auth_response CHALLENGE False ''Your bank needs to verify this payment.'')
                                        \<lparr>ar_redirectHtml := au_redirectHtml a, ar_returnUrl := Some (threeDsReturnUrl E)\<rparr>
                                  | a' \<Rightarrow> auth_response a' True ''Verified with your bank.''),
                                 W\<lparr>wo_db := attachDepositMetadata s1 txRef
                                     [(''threeDsOutcome'', JStr (outcome_str (au_outcome a))),
                                      (''threeDsAuthTransactionId'', JStr (au_authTransactionId a)),
                                      (''threeDsVersion'', JStr (ai_version en))],
                                   wo_sent := sent2\<rparr>)))))"

section \<open>Card on file\<close>

record saved_dto =
  sd_savedCardId :: uuid
  sd_amount :: rat
  sd_currency :: string
  sd_cvv :: "string option"
  sd_purpose :: "string option"
  sd_stockSymbol :: "string option"
  sd_quantity :: "rat option"
  sd_idempotencyKey :: "string option"

definition payWithSavedCard ::
  "runtime \<Rightarrow> pay_env \<Rightarrow> net \<Rightarrow> string \<Rightarrow> world \<Rightarrow> uuid \<Rightarrow> string option \<Rightarrow> saved_dto \<Rightarrow>
     (err + BankCardPaymentResponse) \<times> world" where
  "payWithSavedCard R E net rand W u email d =
     (case resolveBrokerGateway E (wo_db W) u of
        (Inl e, s0) \<Rightarrow> (Inl e, W\<lparr>wo_db := s0\<rparr>)
      | (Inr (G, broker, _), s0) \<Rightarrow>
          (case getChargeableToken s0 u (sd_savedCardId d) broker of
             Inl e \<Rightarrow> (Inl e, W\<lparr>wo_db := s0\<rparr>)
           | Inr (token, last4, brand) \<Rightarrow>
               (let txRef = tx_ref rand (sd_idempotencyKey d);
                    meta = [(''purpose'', JStr (orElse (sd_purpose d) ''wallet_deposit'')), (''method'', JStr ''BANK_CARD''),
                      (''integration'', JStr ''CARD_ON_FILE''), (''currency'', JStr (sd_currency d))] @
                      purpose_fields (sd_stockSymbol d) (sd_quantity d)
                in case initiateDeposit R s0 u (sd_amount d) (Some txRef) meta (Some ''CARD'') of
                     (Inl e, s1) \<Rightarrow> (Inl e, W\<lparr>wo_db := s1\<rparr>)
                   | (Inr (i, st), s1) \<Rightarrow>
                       if st = TX_COMPLETED
                       then (Inr (plain_response txRef i True (sd_amount d) (sd_currency d)
                              ''Payment already processed: charged exactly once.'' None), W\<lparr>wo_db := s1\<rparr>)
                       else if st = TX_FAILED
                       then (Inr (plain_response txRef i False (sd_amount d) (sd_currency d)
                              ''This payment reference previously failed. Start a new payment.'' None), W\<lparr>wo_db := s1\<rparr>)
                       else
                         (let (out, sent) = chargeToken R net G txRef (sd_amount d) (sd_currency d) token (sd_cvv d) email (wo_sent W)
                          in case settle_charge R E s1 txRef out of
                               (Inr c, s2) \<Rightarrow>
                                 (Inr (charged_response txRef i (sd_amount d) (sd_currency d) c (orEmpty (cr_last4 c) last4)
                                    (orEmpty (cr_cardBrand c) brand)), W\<lparr>wo_db := s2, wo_sent := sent\<rparr>)
                             | (Inl f, s2) \<Rightarrow>
                                 (Inr (plain_response txRef i False (sd_amount d) (sd_currency d) (fst (describeFailure f)) (Some last4)),
                                  W\<lparr>wo_db := s2, wo_sent := sent\<rparr>)))))"

definition verifyCardPayment ::
  "runtime \<Rightarrow> db \<Rightarrow> uuid \<Rightarrow> string \<Rightarrow> (err + string \<times> tx_status \<times> rat \<times> timestamp) \<times> db" where
  "verifyCardPayment R s u txRef =
     (case getDepositStatusByTxRef R s u txRef of (r, s') \<Rightarrow> (map_sum id (Pair txRef) r, s'))"

section \<open>Frames\<close>

text \<open>The money of a state: each wallet with its balance.\<close>

definition balances :: "db \<Rightarrow> (uuid \<times> rat) list" where
  "balances s = map (\<lambda>w. (w_id w, w_balance w)) (db_wallets s)"

definition credit :: "uuid \<Rightarrow> rat \<Rightarrow> (uuid \<times> rat) list \<Rightarrow> (uuid \<times> rat) list" where
  "credit i d = map (\<lambda>(j, b). (j, if j = i then b + d else b))"

definition same_money :: "db \<Rightarrow> db \<Rightarrow> bool" where
  "same_money s s' \<longleftrightarrow> balances s' = balances s \<and> db_ledger s' = db_ledger s \<and> db_transactions s' = db_transactions s"

lemma same_money_refl [simp]: "same_money s s"
  by (simp add: same_money_def)

lemma same_money_trans [trans]: "same_money s s' \<Longrightarrow> same_money s' s'' \<Longrightarrow> same_money s s''"
  by (simp add: same_money_def)

lemma tables_same_money: "tables_eq s s' \<Longrightarrow> same_money s s'"
  by (simp add: same_money_def balances_def tables_eq_fields)

lemma ensureBroker_money: "same_money s (snd (ensureBroker s u))"
  by (auto simp: ensureBroker_def same_money_def balances_def upd_where_def split: option.splits)

lemma resolveConfig_state: "snd (resolveGatewayConfigForUser E s u) = snd (ensureBroker s u)"
  by (simp add: resolveGatewayConfigForUser_def Let_def split: option.split)

lemma resolveBrokerGateway_state: "snd (resolveBrokerGateway E s u) = snd (ensureBroker s u)"
  using resolveConfig_state [of E s u]
  by (auto simp: resolveBrokerGateway_def split: prod.splits sum.splits)

lemma resolveBrokerGateway_Inr:
  assumes "resolveBrokerGateway E s u = (Inr (G, broker, req), s')"
  shows "\<exists>c. fst (resolveGatewayConfigForUser E s u) = Inr c \<and> G = gateway_for c \<and> req = rg_require3ds c \<and> isLive G"
    and "s' = snd (ensureBroker s u)"
  using assms resolveBrokerGateway_state [of E s u]
  by (auto simp: resolveBrokerGateway_def split: prod.splits sum.splits if_splits)

lemma saveTokenized_money: "saveTokenizedCard R s u b d = Inr (s', v) \<Longrightarrow> same_money s s'"
  by (auto simp: saveTokenizedCard_def create_card_def Let_def same_money_def balances_def split: if_splits option.splits)

lemma saveTokenized_books: "saveTokenizedCard R s u b d = Inr (s', v) \<Longrightarrow> books_ok s \<Longrightarrow> books_ok s'"
  by (auto simp: saveTokenizedCard_def create_card_def Let_def intro: books_cong [of _ s] split: if_splits option.splits)

lemma token_no_pay:
  assumes "createTokenFromSession net G sid sent = (r, sent')"
  shows "filter is_pay sent' = filter is_pay sent" and "prefix sent sent'"
  using assms
  by (auto simp: createTokenFromSession_def requestJson_def gw_call_def is_pay_def rstr_def Let_def
      split: if_splits net_answer.splits option.splits sum.splits prod.splits)

lemma remember_session_frame:
  assumes "W' = remember_session R net G u broker sid name c W"
  shows "same_money (wo_db W) (wo_db W')" and "filter is_pay (wo_sent W') = filter is_pay (wo_sent W)"
    and "prefix (wo_sent W) (wo_sent W')"
proof -
  obtain r sent where t: "createTokenFromSession net G sid (wo_sent W) = (r, sent)" by (rule prod.exhaust)
  show "same_money (wo_db W) (wo_db W')"
    using saveTokenized_money by (auto simp: assms remember_session_def t split: sum.splits prod.splits)
  show "filter is_pay (wo_sent W') = filter is_pay (wo_sent W)" "prefix (wo_sent W) (wo_sent W')"
    using token_no_pay [OF t] by (auto simp: assms remember_session_def t split: sum.splits prod.splits)
qed

section \<open>What a settled charge does\<close>

lemma completion_balances:
  assumes "numeric_runtime R" and "books_ok s" and "completion R s s' t w legs d" and "places 4 d"
  shows "balances s' = credit (t_walletId t) d (balances s)"
proof -
  note c = assms(3) [unfolded completion_def]
  have w: "w_id w = t_walletId t" using c findWalletById_Some by blast
  have "num4 R (w_balance v + d) = w_balance v + d" if "v \<in> set (db_wallets s)" for v
  proof (rule numeric_runtime.num4_exact [OF assms(1)])
    from that assms(2) have "places 4 (w_balance v)" unfolding books_defs by metis
    then show "places 4 (w_balance v + d)" using assms(4) by (rule places_add)
  qed
  then show ?thesis
    using c w by (auto simp: balances_def credit_def upd_where_def bump_def)
qed

lemma processDeposit_cases:
  assumes "numeric_runtime R" and "books_ok s" and "processDeposit R s tid = (r, s')"
  shows "r \<noteq> Inr () \<Longrightarrow> s' = s"
    and "r = Inr () \<Longrightarrow> \<exists>t. findTransactionById s tid = Some t \<and> findTransactionById s' tid = Some (completed R t) \<and>
      balances s' = credit (t_walletId t) (t_amount t) (balances s)"
proof -
  show "r \<noteq> Inr () \<Longrightarrow> s' = s" using assms(3) by (auto simp: processDeposit_def split: sum.splits)
  assume "r = Inr ()"
  with assms(3) obtain s1 where d: "depositTx R s tid = Inr s1" and s': "s' = emit_wallet_updated R DEPOSIT tid s1"
    by (auto simp: processDeposit_def split: sum.splits)
  from depositTx_Inr [OF d] obtain t w fee where id: "t_id t = tid"
    and c: "completion R s s1 t w (deposit_legs R w t fee) (t_amount t)" by blast
  note p = completion_pending_ok(2) [OF assms(2) c]
  have "balances s' = balances s1" using s' by (simp add: balances_def emit_wallet_updated_cong)
  with completion_balances [OF assms(1,2) c p] completion_effect(3,4) [OF assms(1,2) c p] id s'
  show "\<exists>t. findTransactionById s tid = Some t \<and> findTransactionById s' tid = Some (completed R t) \<and>
      balances s' = credit (t_walletId t) (t_amount t) (balances s)"
    by (auto simp: emit_wallet_updated_find)
qed

text \<open>A deposit that is the only pending one of its reference.\<close>

definition sole_pending :: "db \<Rightarrow> string \<Rightarrow> transaction \<Rightarrow> bool" where
  "sole_pending s txRef t \<longleftrightarrow> filter (pending_deposit txRef) (db_transactions s) = [t]"

lemma sole_pending_find:
  assumes "sole_pending s txRef t"
  shows "List.find (pending_deposit txRef) (db_transactions s) = Some t" and "pending_deposit txRef t"
    and "t \<in> set (db_transactions s)"
proof -
  have f: "filter P xs = [x] \<Longrightarrow> List.find P xs = Some x \<and> P x \<and> x \<in> set xs" for P and x :: transaction and xs
    by (induction xs) (auto split: if_splits)
  from f [OF assms [unfolded sole_pending_def]]
  show "List.find (pending_deposit txRef) (db_transactions s) = Some t" "pending_deposit txRef t" "t \<in> set (db_transactions s)"
    by auto
qed

lemma find_by_id:
  assumes "books_ok s" and "t \<in> set (db_transactions s)"
  shows "findTransactionById s (t_id t) = Some t"
  using assms find_key_distinct [of t_id "db_transactions s" t] unfolding findTransactionById_def
  by (metis (mono_tags, lifting) books_ok_def find_None_iff not_Some_eq transactions_ok_def)

lemma markDepositFailed_effect:
  assumes "books_ok s" and "sole_pending s txRef t"
  shows "balances (markDepositFailed s txRef) = balances s \<and>
     findTransactionById (markDepositFailed s txRef) (t_id t) = Some (t\<lparr>t_status := TX_FAILED\<rparr>)"
proof -
  note sp = sole_pending_find [OF assms(2)]
  have "List.find (\<lambda>x. t_id x = i) (upd_where P f xs) = map_option (\<lambda>x. if P x then f x else x) (List.find (\<lambda>x. t_id x = i) xs)"
    if "\<And>x. t_id (f x) = t_id x" for i P f and xs :: "transaction list"
    using that by (induction xs) (auto simp: upd_where_def)
  with find_by_id [OF assms(1) sp(3)] sp(2) show ?thesis
    by (simp add: findTransactionById_def markDepositFailed_def balances_def)
qed

definition plain_purpose :: "transaction \<Rightarrow> bool" where
  "plain_purpose t \<longleftrightarrow> jfield ''purpose'' (JObj (t_metadata t)) \<noteq> JStr ''BUY_SHARES''"

lemma settle_charge_cases:
  assumes "numeric_runtime R" and "books_ok s" and "sole_pending s txRef t" and "plain_purpose t"
    and "settle_charge R E s txRef out = (r, s')"
  shows "r = Inr c \<Longrightarrow> out = Inr c \<and> balances s' = credit (t_walletId t) (t_amount t) (balances s) \<and>
      findTransactionById s' (t_id t) = Some (completed R t)"
    and "r = Inl f \<Longrightarrow> balances s' = balances s \<and> db_ledger s' = db_ledger s \<and>
      findTransactionById s' (t_id t) = Some (t\<lparr>t_status := TX_FAILED\<rparr>)"
proof -
  note sp = sole_pending_find [OF assms(3)]
  note ft = find_by_id [OF assms(2) sp(3)]
  obtain r1 s1 where d: "processDeposit R s (t_id t) = (r1, s1)" by (rule prod.exhaust)
  note dc = processDeposit_cases [OF assms(1,2) d]
  have pp: "processPaymentByTxRef R (pe_submit E) s txRef = (r1, s1)"
    using assms(4) by (auto simp: processPaymentByTxRef_def sp d Let_def plain_purpose_def split: sum.split)
  show "r = Inr c \<Longrightarrow> out = Inr c \<and> balances s' = credit (t_walletId t) (t_amount t) (balances s) \<and>
      findTransactionById s' (t_id t) = Some (completed R t)"
    using assms(5) dc(2) ft by (auto simp: settle_charge_def pp split: sum.splits)
  show "r = Inl f \<Longrightarrow> balances s' = balances s \<and> db_ledger s' = db_ledger s \<and>
      findTransactionById s' (t_id t) = Some (t\<lparr>t_status := TX_FAILED\<rparr>)"
    using assms(5) dc(1) markDepositFailed_effect [OF assms(2,3)]
    by (auto simp: settle_charge_def pp markDepositFailed_def balances_def split: sum.splits)
qed


section \<open>The protocol of a session payment\<close>

text \<open>How a session payment ends: refused before the charge, refused by the authentication gate, or charged.\<close>

definition charge_step ::
  "runtime \<Rightarrow> net \<Rightarrow> gateway \<Rightarrow> string \<Rightarrow> string option \<Rightarrow> transaction \<Rightarrow> gw_request list \<Rightarrow>
     (gateway_error + charge_result) \<times> gw_request list" where
  "charge_step R net G txRef email t sent =
     (let (v, sent1) = auth_step net G txRef t sent
      in chargeSession R net G txRef (stored_gross R t) (stored_currency t) (orElse (meta_str ''gatewaySessionId'' t) []) email
           (if v = Inr True then meta_str ''threeDsAuthTransactionId'' t else None) sent1)"

lemma auth_step_sent:
  assumes "auth_step net G txRef t sent = (v, sent1)"
  shows "filter is_pay sent1 = filter is_pay sent"
    and "v = Inr True \<Longrightarrow>
      \<exists>rq j ok. sent1 = sent @ [rq] \<and> auth_read G txRef rq \<and> net sent1 = NetAnswer ok (Some j) \<and> authenticated j"
  using assms retrieve_sent [of net G txRef sent v sent1]
  by (auto simp: auth_step_def split: if_splits)

text \<open>
  The protocol of a session payment, as the relation its answers and effects obey: an error before anything
  is sent, the replay of a settled reference, a refusal at the authentication gate, a failed charge, and a
  successful one.
\<close>

definition reply :: "runtime \<Rightarrow> string \<Rightarrow> transaction \<Rightarrow> bool \<Rightarrow> string \<Rightarrow> BankCardPaymentResponse" where
  "reply R txRef t ok m = plain_response txRef (t_id t) ok (stored_gross R t) (stored_currency t) m None"

definition success_reply :: "runtime \<Rightarrow> string \<Rightarrow> transaction \<Rightarrow> charge_result \<Rightarrow> BankCardPaymentResponse" where
  "success_reply R txRef t c = charged_response txRef (t_id t) (stored_gross R t) (stored_currency t) c (cr_last4 c) (cr_cardBrand c)"

inductive session_run ::
  "runtime \<Rightarrow> pay_env \<Rightarrow> net \<Rightarrow> uuid \<Rightarrow> string option \<Rightarrow> string \<Rightarrow> world \<Rightarrow> err + BankCardPaymentResponse \<Rightarrow> world \<Rightarrow> bool"
  for R E net u email txRef W where
  not_started: "wo_sent W' = wo_sent W \<Longrightarrow> wo_db W' \<in> {wo_db W, snd (ensureBroker (wo_db W) u)} \<Longrightarrow>
     session_run R E net u email txRef W (Inl e) W'"
| replayed: "getDepositForUser (wo_db W) u txRef = Some t \<Longrightarrow> t_status t = (if ok then TX_COMPLETED else TX_FAILED) \<Longrightarrow>
     session_run R E net u email txRef W (Inr (reply R txRef t ok m)) W"
| not_verified: "getDepositForUser (wo_db W) u txRef = Some t \<Longrightarrow> t_status t \<notin> {TX_COMPLETED, TX_FAILED} \<Longrightarrow>
     resolveBrokerGateway E (wo_db W) u = (Inr (G, b, True), s1) \<Longrightarrow> auth_step net G txRef t (wo_sent W) = (v, sent1) \<Longrightarrow>
     v \<noteq> Inr True \<Longrightarrow> wo_db W' = markDepositFailed s1 txRef \<Longrightarrow> wo_sent W' = sent1 \<Longrightarrow>
     session_run R E net u email txRef W (Inr (reply R txRef t False m)) W'"
| declined: "getDepositForUser (wo_db W) u txRef = Some t \<Longrightarrow> t_status t \<notin> {TX_COMPLETED, TX_FAILED} \<Longrightarrow>
     resolveBrokerGateway E (wo_db W) u = (Inr (G, b, req), s1) \<Longrightarrow> auth_step net G txRef t (wo_sent W) = (v, sent1) \<Longrightarrow>
     req \<longrightarrow> v = Inr True \<Longrightarrow> charge_step R net G txRef email t (wo_sent W) = (out, sent2) \<Longrightarrow>
     settle_charge R E s1 txRef out = (Inl f, s2) \<Longrightarrow> wo_db W' = s2 \<Longrightarrow> wo_sent W' = sent2 \<Longrightarrow>
     session_run R E net u email txRef W (Inr (reply R txRef t False m)) W'"
| charged: "getDepositForUser (wo_db W) u txRef = Some t \<Longrightarrow> t_status t \<notin> {TX_COMPLETED, TX_FAILED} \<Longrightarrow>
     resolveBrokerGateway E (wo_db W) u = (Inr (G, b, req), s1) \<Longrightarrow> auth_step net G txRef t (wo_sent W) = (v, sent1) \<Longrightarrow>
     req \<longrightarrow> v = Inr True \<Longrightarrow> charge_step R net G txRef email t (wo_sent W) = (out, sent2) \<Longrightarrow>
     settle_charge R E s1 txRef out = (Inr c, s2) \<Longrightarrow> same_money s2 (wo_db W') \<Longrightarrow>
     filter is_pay (wo_sent W') = filter is_pay sent2 \<Longrightarrow> prefix sent2 (wo_sent W') \<Longrightarrow>
     session_run R E net u email txRef W (Inr (success_reply R txRef t c)) W'"

lemma session_charge_run:
  assumes "getDepositForUser (wo_db W) u txRef = Some t" and "t_status t \<notin> {TX_COMPLETED, TX_FAILED}"
    and "resolveBrokerGateway E (wo_db W) u = (Inr (G, b, req), s1)" and "auth_step net G txRef t (wo_sent W) = (v, sent1)"
    and "req \<longrightarrow> v = Inr True" and "truthy (meta_str ''gatewaySessionId'' t)"
  shows "session_run R E net u email txRef W (fst (completeSessionPayment R E net W u email txRef saveIt name))
     (snd (completeSessionPayment R E net W u email txRef saveIt name))"
proof -
  let ?sid = "orElse (meta_str ''gatewaySessionId'' t) []" and ?auth = "meta_str ''threeDsAuthTransactionId'' t"
  obtain out sent2 where ch: "charge_step R net G txRef email t (wo_sent W) = (out, sent2)" by (rule prod.exhaust)
  obtain f s2 where f: "settle_charge R E s1 txRef out = (f, s2)" by (rule prod.exhaust)
  let ?W2 = "W\<lparr>wo_db := s2, wo_sent := sent2\<rparr>"
  have v: "v = Inr True \<Longrightarrow> ?auth \<noteq> None"
    using assms(4) by (auto simp: auth_step_def truthy_def split: if_splits)
  have ch': "chargeSession R net G txRef (stored_gross R t) (stored_currency t) ?sid email (if v = Inr True then ?auth else None) sent1
      = (out, sent2)"
    using ch assms(4) by (simp add: charge_step_def)
  have e: "completeSessionPayment R E net W u email txRef saveIt name =
      (case f of
         Inr c \<Rightarrow> (Inr (success_reply R txRef t c), if saveIt then remember_session R net G u b ?sid name c ?W2 else ?W2)
       | Inl e \<Rightarrow> (Inr (reply R txRef t False (fst (describeFailure e))), ?W2))"
    using assms ch' f v
    by (auto simp: completeSessionPayment_def Let_def success_reply_def reply_def split: sum.split)
  have fr: "same_money s2 (wo_db W'') \<and> filter is_pay (wo_sent W'') = filter is_pay sent2 \<and> prefix sent2 (wo_sent W'')"
    if "W'' = (if saveIt then remember_session R net G u b ?sid name c ?W2 else ?W2)" for W'' c
    using that remember_session_frame [of W'' R net G u b ?sid name c ?W2] by auto
  show ?thesis
  proof (cases f)
    case (Inl e')
    with e declined [OF assms(1-5) ch] f show ?thesis by simp
  next
    case (Inr c)
    with e charged [OF assms(1-5) ch] f fr [of _ c] show ?thesis by simp
  qed
qed

lemma completeSession_run:
  assumes "completeSessionPayment R E net W u email txRef saveIt name = (r, W')"
  shows "session_run R E net u email txRef W r W'"
proof (cases "getDepositForUser (wo_db W) u txRef")
  case None
  with assms show ?thesis by (auto simp: completeSessionPayment_def intro: session_run.intros)
next
  case t: (Some t)
  obtain g s1 where g: "resolveBrokerGateway E (wo_db W) u = (g, s1)" by (rule prod.exhaust)
  then have s1: "s1 = snd (ensureBroker (wo_db W) u)" using resolveBrokerGateway_state [of E "wo_db W" u] by simp
  consider "t_status t = TX_COMPLETED" | "t_status t = TX_FAILED" | "t_status t \<notin> {TX_COMPLETED, TX_FAILED}" by blast
  then show ?thesis
  proof cases
    case 1
    with assms t replayed [of W u txRef t True] show ?thesis by (auto simp: completeSessionPayment_def reply_def)
  next
    case 2
    with assms t replayed [of W u txRef t False] show ?thesis by (auto simp: completeSessionPayment_def reply_def)
  next
    case 3
    show ?thesis
    proof (cases "truthy (meta_str ''gatewaySessionId'' t) \<and> (\<exists>a. g = Inr a)")
      case False
      with assms t 3 g have "(\<exists>e. r = Inl e) \<and> wo_sent W' = wo_sent W \<and> wo_db W' \<in> {wo_db W, s1}"
        by (cases g; cases "truthy (meta_str ''gatewaySessionId'' t)") (auto simp: completeSessionPayment_def Let_def)
      with s1 show ?thesis by (auto intro: not_started)
    next
      case True
      then obtain G b req where a: "g = Inr (G, b, req)" by (auto simp: prod_cases3)
      obtain v sent1 where v: "auth_step net G txRef t (wo_sent W) = (v, sent1)" by (rule prod.exhaust)
      show ?thesis
      proof (cases "req \<longrightarrow> v = Inr True")
        case ok: True
        show ?thesis using session_charge_run [OF t 3 g [unfolded a] v ok] True assms by (metis fst_conv snd_conv)
      next
        case False
        then have "req" "v \<noteq> Inr True" by simp_all
        with assms t 3 g a v True not_verified [OF t 3 _ v] show ?thesis
          by (auto simp: completeSessionPayment_def Let_def reply_def)
      qed
    qed
  qed
qed


lemma charge_step_pay:
  assumes "auth_step net G txRef t sent = (v, sent1)" and "charge_step R net G txRef email t sent = (out, sent2)" and "isLive G"
  shows "\<exists>rq. sent2 = sent1 @ [rq] \<and> pay_for G txRef (stored_gross R t) (stored_currency t) rq \<and>
     (\<forall>c. out = Inr c \<longrightarrow> answered_success (net sent2))"
proof -
  have "one_pay net G txRef (stored_gross R t) (stored_currency t) sent1 (charge_step R net G txRef email t sent)"
    unfolding charge_step_def assms(1) Let_def prod.case by (rule charge_one_pay(2))
  with assms(2,3) show ?thesis by (auto simp: one_pay_def isLive_def)
qed

lemma pay_for_is_pay: "pay_for G txRef a cur rq \<Longrightarrow> is_pay rq"
  by (simp add: pay_for_def)

text \<open>The PAY among the requests of a completed session, and its answer.\<close>

lemma charged_requests:
  assumes "getDepositForUser (wo_db W) u txRef = Some t"
    and "resolveBrokerGateway E (wo_db W) u = (Inr (G, b, req), s1)"
    and "auth_step net G txRef t (wo_sent W) = (v, sent1)"
    and "charge_step R net G txRef email t (wo_sent W) = (out, sent2)"
    and "filter is_pay (wo_sent W') = filter is_pay sent2" and "prefix sent2 (wo_sent W')"
  shows "\<exists>c rq after. fst (resolveGatewayConfigForUser E (wo_db W) u) = Inr c \<and> G = gateway_for c \<and> req = rg_require3ds c \<and>
     wo_sent W' = sent1 @ rq # after \<and> filter is_pay after = [] \<and>
     pay_for (gateway_for c) txRef (stored_gross R t) (stored_currency t) rq \<and>
     (\<forall>x. out = Inr x \<longrightarrow> answered_success (net (sent1 @ [rq])))"
proof -
  from resolveBrokerGateway_Inr(1) [OF assms(2)] obtain c where c: "fst (resolveGatewayConfigForUser E (wo_db W) u) = Inr c"
    "G = gateway_for c" "req = rg_require3ds c" "isLive G" by blast
  from charge_step_pay [OF assms(3,4) c(4)] obtain rq where rq: "sent2 = sent1 @ [rq]"
    "pay_for G txRef (stored_gross R t) (stored_currency t) rq" "\<forall>x. out = Inr x \<longrightarrow> answered_success (net sent2)" by blast
  from assms(6) obtain after where a: "wo_sent W' = sent2 @ after" by (auto elim: prefixE)
  with assms(5) have "filter is_pay after = []" by simp
  with c rq a show ?thesis by (intro exI [of _ c] exI [of _ rq] exI [of _ after]) simp
qed

lemma sole_pending_money: "same_money s s' \<Longrightarrow> sole_pending s' txRef t \<longleftrightarrow> sole_pending s txRef t"
  by (simp add: same_money_def sole_pending_def)

lemma same_money_find: "same_money s s' \<Longrightarrow> findTransactionById s' i = findTransactionById s i"
  by (simp add: same_money_def findTransactionById_def)

section \<open>Sample\<close>

text \<open>A broker that requires authentication, its customer with a pending session deposit of 1000 (975 net) and
  a saved card, and a gateway that approves everything.\<close>

definition card_deposit :: "uuid \<Rightarrow> uuid \<Rightarrow> rat \<Rightarrow> rat \<Rightarrow> transaction" where
  "card_deposit i wid gross fee = \<lparr>t_id = i, t_walletId = wid, t_brokerId = Some 7, t_type = DEPOSIT, t_status = TX_PENDING,
     t_amount = gross - fee, t_currency = ''MWK'', t_idempotencyKey = Some ''PINE-CARD-k1'', t_relatedOrderId = None,
     t_metadata = [(''processingFee'', JDec fee), (''grossAmount'', JDec gross), (''currency'', JStr ''MWK''),
       (''gatewaySessionId'', JStr ''SESSION1''), (''threeDsAuthTransactionId'', JStr ''PINE-CARD-k1-3ds-1'')],
     t_processedAt = None, t_createdAt = 0\<rparr>"

definition pay_db :: db where
  "pay_db = empty_db\<lparr>db_users := [sample_user], db_brokers := [\<lparr>b_id = 7, b_isActive = True\<rparr>],
     db_wallets := [new_wallet 2 1 ''MWK'' (Some 7)], db_transactions := [card_deposit 3 2 1000 25],
     db_paymentConfigs := [(7, \<lparr>pm_provider = ''MPGS'', pm_baseUrl = Some ''https://gw'', pm_apiVersion = 100,
       pm_environment = ''TEST'', pm_merchantId = Some ''M7'', pm_apiPasswordEnc = Some ''pw'', pm_isEnabled = True,
       pm_require3ds = True\<rparr>)],
     db_savedCards := [\<lparr>sc_id = 5, sc_userId = 1, sc_last4 = ''1111'', sc_cardBrand = ''Visa'', sc_cardholderName = ''A'',
       sc_expiryMonth = ''01'', sc_expiryYear = ''30'', sc_cardNumberEncrypted = None, sc_gatewayToken = Some ''tok'',
       sc_tokenBrokerId = Some 7, sc_isDefault = True, sc_createdAt = 0\<rparr>]\<rparr>"

definition pay_world :: "db \<Rightarrow> world" where
  "pay_world s = \<lparr>wo_db = s, wo_sent = [], wo_mock = []\<rparr>"

definition toy_env :: pay_env where
  "toy_env = \<lparr>pe_isProduction = True, pe_allowTestTransactions = False, pe_appUrl = ''https://pine'', pe_apiPrefix = ''api'',
     pe_tzOffset = 0, pe_seal = toy_seal, pe_unseal = toy_unseal, pe_openSecret = Some, pe_submit = None\<rparr>"

definition toy_net :: net where
  "toy_net sent = NetAnswer True (Some (JObj [(''result'', JStr ''SUCCESS''), (''session'', JObj [(''id'', JStr ''SESSION2'')]),
     (''transaction'', JObj [(''authenticationStatus'', JStr ''AUTHENTICATION_SUCCESSFUL'')])]))"

lemma pay_db_books: "books_ok pay_db"
  by (simp add: pay_db_def card_deposit_def empty_db_def new_wallet_def books_defs pending_ok_def)

lemma pay_db_pending: "sole_pending pay_db ''PINE-CARD-k1'' (card_deposit 3 2 1000 25)"
  by (simp add: sole_pending_def pay_db_def pending_deposit_def card_deposit_def)

section \<open>Properties\<close>

text \<open>C15. A session payment charges at most once, only what was agreed, and never round the authentication gate:
  when completing a payment sends a PAY at all, it sends exactly one, for the amount (in two places) and
  currency stored with the pending deposit of that user and reference, as the merchant of the user's own
  broker; and when that broker requires authentication, the request right before the PAY read the
  authentication of this very order, and the gateway answered that its payer is authenticated.\<close>

theorem session_charge_guarded:
  assumes "completeSessionPayment R E net W u email txRef saveIt name = (r, W')"
    and "filter is_pay (wo_sent W') \<noteq> filter is_pay (wo_sent W)"
  shows "\<exists>t c rq before after. getDepositForUser (wo_db W) u txRef = Some t \<and> t_status t \<notin> {TX_COMPLETED, TX_FAILED} \<and>
     fst (resolveGatewayConfigForUser E (wo_db W) u) = Inr c \<and>
     wo_sent W' = before @ rq # after \<and> filter is_pay before = filter is_pay (wo_sent W) \<and> filter is_pay after = [] \<and>
     pay_for (gateway_for c) txRef (stored_gross R t) (stored_currency t) rq \<and>
     (rg_require3ds c \<longrightarrow> (\<exists>aq j ok. before = wo_sent W @ [aq] \<and> auth_read (gateway_for c) txRef aq \<and>
        net before = NetAnswer ok (Some j) \<and> authenticated j))"
proof -
  have step: ?thesis
    if t: "getDepositForUser (wo_db W) u txRef = Some t" "t_status t \<notin> {TX_COMPLETED, TX_FAILED}"
      and g: "resolveBrokerGateway E (wo_db W) u = (Inr (G, b, req), s1)"
      and v: "auth_step net G txRef t (wo_sent W) = (v, sent1)" "req \<longrightarrow> v = Inr True"
      and ch: "charge_step R net G txRef email t (wo_sent W) = (out, sent2)"
      and W': "filter is_pay (wo_sent W') = filter is_pay sent2" "prefix sent2 (wo_sent W')"
    for t G b req s1 v sent1 out sent2
  proof -
    from charged_requests [OF t(1) g v(1) ch W'] obtain c rq after where c:
      "fst (resolveGatewayConfigForUser E (wo_db W) u) = Inr c" "G = gateway_for c" "req = rg_require3ds c"
      "wo_sent W' = sent1 @ rq # after" "filter is_pay after = []"
      "pay_for (gateway_for c) txRef (stored_gross R t) (stored_currency t) rq" by blast
    have "\<exists>aq j ok. sent1 = wo_sent W @ [aq] \<and> auth_read (gateway_for c) txRef aq \<and>
        net sent1 = NetAnswer ok (Some j) \<and> authenticated j" if "rg_require3ds c"
      using auth_step_sent(2) [OF v(1)] v(2) that c(2,3) by blast
    with t c auth_step_sent(1) [OF v(1)] show ?thesis
      by (intro exI [of _ t] exI [of _ c] exI [of _ rq] exI [of _ sent1] exI [of _ after]) simp
  qed
  from completeSession_run [OF assms(1)] show ?thesis
  proof cases
    case declined
    show ?thesis by (rule step [OF declined(2-7)]) (simp_all add: declined)
  next
    case charged
    show ?thesis by (rule step [OF charged(2-7)]) (simp_all add: charged)
  qed (use assms(2) auth_step_sent(1) in auto)
qed

theorem session_charge_guarded_witness:
  "map rq_merchantId (wo_sent (snd (completeSessionPayment (pg_runtime 5) toy_env toy_net (pay_world pay_db) 1 None
     ''PINE-CARD-k1'' False None))) = [''M7'', ''M7''] \<and>
   (\<exists>t. getDepositForUser pay_db 1 ''PINE-CARD-k1'' = Some t \<and> stored_gross (pg_runtime 5) t = 1000)"
proof -
  let ?c = "completeSessionPayment (pg_runtime 5) toy_env toy_net (pay_world pay_db) 1 None ''PINE-CARD-k1'' False None"
  have m: "map rq_merchantId (wo_sent (snd ?c)) = [''M7'', ''M7'']" by code_simp
  have "length (filter is_pay (wo_sent (snd ?c))) = 1" by code_simp
  then have "filter is_pay (wo_sent (snd ?c)) \<noteq> filter is_pay (wo_sent (pay_world pay_db))"
    by (auto simp: pay_world_def)
  from session_charge_guarded [OF prod.collapse [symmetric] this]
  obtain t where t: "getDepositForUser pay_db 1 ''PINE-CARD-k1'' = Some t" by (auto simp: pay_world_def)
  have "map_option (stored_gross (pg_runtime 5)) (getDepositForUser pay_db 1 ''PINE-CARD-k1'') = Some 1000" by code_simp
  with m t show ?thesis by simp
qed

text \<open>C16. A session payment and the wallet agree, for a plain deposit (one that buys no shares) that is the only
  pending deposit of its reference: an answer of success means that the one PAY sent, for the stored amount,
  was itself answered with success, that the deposit is completed and that its wallet has grown by exactly the
  net amount; any other answer leaves every balance as it was and the deposit failed.  Without the second
  condition another customer may be credited (\<open>shared_key_credits_other\<close>).\<close>

theorem session_payment_settles:
  assumes "numeric_runtime R" and "books_ok (wo_db W)" and "getDepositForUser (wo_db W) u txRef = Some t"
    and "sole_pending (wo_db W) txRef t" and "plain_purpose t"
    and "completeSessionPayment R E net W u email txRef saveIt name = (Inr resp, W')"
  shows "if br_success resp
     then balances (wo_db W') = credit (t_walletId t) (t_amount t) (balances (wo_db W)) \<and>
       findTransactionById (wo_db W') (t_id t) = Some (completed R t) \<and>
       (\<exists>c rq before after. fst (resolveGatewayConfigForUser E (wo_db W) u) = Inr c \<and>
          wo_sent W' = before @ rq # after \<and> filter is_pay before = filter is_pay (wo_sent W) \<and> filter is_pay after = [] \<and>
          pay_for (gateway_for c) txRef (stored_gross R t) (stored_currency t) rq \<and> answered_success (net (before @ [rq])))
     else balances (wo_db W') = balances (wo_db W) \<and>
       findTransactionById (wo_db W') (t_id t) = Some (t\<lparr>t_status := TX_FAILED\<rparr>)"
proof -
  let ?s = "snd (ensureBroker (wo_db W) u)"
  have m: "same_money (wo_db W) ?s" by (rule ensureBroker_money)
  have b: "books_ok ?s" by (rule ensureBroker_books [OF assms(2)])
  have sp: "sole_pending ?s txRef t" using assms(4) sole_pending_money [OF m] by simp
  have p: "t_status t = TX_PENDING" using sole_pending_find(2) [OF assms(4)] by (simp add: pending_deposit_def)
  note eqs = settle_charge_cases [OF assms(1) b sp assms(5)]
  from completeSession_run [OF assms(6)] show ?thesis
  proof cases
    case (replayed t' ok m)
    with assms(3) p show ?thesis by (auto split: if_splits)
  next
    case (not_verified t' G br s1 v sent1 m')
    with assms(3) markDepositFailed_effect [OF b sp] resolveBrokerGateway_Inr(2) m show ?thesis
      by (auto simp: reply_def plain_response_def same_money_def)
  next
    case (declined t' G br req s1 v sent1 out sent2 f s2 m')
    with assms(3) eqs(2) resolveBrokerGateway_Inr(2) m show ?thesis
      by (auto simp: reply_def plain_response_def same_money_def)
  next
    case (charged t' G br req s1 v sent1 out sent2 c s2)
    have t: "t' = t" and s1: "s1 = ?s" using charged assms(3) resolveBrokerGateway_Inr(2) by auto
    from charged_requests [OF charged(2,4,5,7,10,11)] obtain k rq after where k:
      "fst (resolveGatewayConfigForUser E (wo_db W) u) = Inr k" "wo_sent W' = sent1 @ rq # after" "filter is_pay after = []"
      "pay_for (gateway_for k) txRef (stored_gross R t) (stored_currency t) rq"
      "\<forall>x. out = Inr x \<longrightarrow> answered_success (net (sent1 @ [rq]))" unfolding t by blast
    note settled = eqs(1) [OF charged(8) [unfolded s1] refl]
    then have "answered_success (net (sent1 @ [rq]))" using k(5) by blast
    with k auth_step_sent(1) [OF charged(5)] have "\<exists>c rq before after. fst (resolveGatewayConfigForUser E (wo_db W) u) = Inr c \<and>
        wo_sent W' = before @ rq # after \<and> filter is_pay before = filter is_pay (wo_sent W) \<and> filter is_pay after = [] \<and>
        pay_for (gateway_for c) txRef (stored_gross R t) (stored_currency t) rq \<and> answered_success (net (before @ [rq]))"
      by blast
    with settled show ?thesis
      using charged m t same_money_find [OF charged(9)]
      by (auto simp: success_reply_def charged_response_def same_money_def)
  qed
qed


theorem session_payment_settles_witness:
  "balances (wo_db (snd (completeSessionPayment (pg_runtime 5) toy_env toy_net (pay_world pay_db) 1 None
     ''PINE-CARD-k1'' False None))) = [(2, 975)]"
proof -
  let ?c = "completeSessionPayment (pg_runtime 5) toy_env toy_net (pay_world pay_db) 1 None ''PINE-CARD-k1'' False None"
  have "map_sum id br_success (fst ?c) = Inr True" by code_simp
  then obtain resp where r: "fst ?c = Inr resp" "br_success resp" by (cases "fst ?c") auto
  have t: "getDepositForUser (wo_db (pay_world pay_db)) 1 ''PINE-CARD-k1'' = Some (card_deposit 3 2 1000 25)"
    by (simp add: pay_world_def pay_db_def getDepositForUser_def card_deposit_def findWalletById_def new_wallet_def)
  have "plain_purpose (card_deposit 3 2 1000 25)" by (simp add: plain_purpose_def card_deposit_def)
  note s = session_payment_settles [OF pg.numeric_runtime_axioms _ t _ this, of 5 toy_env toy_net None False None resp "snd ?c"]
  have "balances (wo_db (snd ?c)) = credit 2 975 (balances pay_db)"
    using s r pay_db_books pay_db_pending prod.collapse [of ?c] by (simp add: pay_world_def card_deposit_def)
  then show ?thesis by (simp add: credit_def balances_def pay_db_def new_wallet_def)
qed

subsection \<open>Settled references\<close>

definition no_effect :: "world \<Rightarrow> world \<Rightarrow> bool" where
  "no_effect W W' \<longleftrightarrow> wo_sent W' = wo_sent W \<and> wo_mock W' = wo_mock W \<and> same_money (wo_db W) (wo_db W')"

lemma ensureBroker_wallet:
  assumes "findWalletByUserId s u = Some w"
  shows "\<exists>w'. findWalletByUserId (snd (ensureBroker s u')) u = Some w' \<and> w_id w' = w_id w"
proof -
  have "List.find (\<lambda>v. w_userId v = u) (upd_where P (\<lambda>v. v\<lparr>w_brokerId := b\<rparr>) ws) =
      map_option (\<lambda>v. if P v then v\<lparr>w_brokerId := b\<rparr> else v) (List.find (\<lambda>v. w_userId v = u) ws)" for P b and ws :: "wallet list"
    by (induction ws) (auto simp: upd_where_def)
  with assms show ?thesis by (auto simp: findWalletByUserId_def ensureBroker_def split: option.splits)
qed

lemma initiateDeposit_replay:
  assumes "books_ok s" and "findWalletByUserId s u = Some w" and "key \<noteq> []"
    and "findTransactionByIdempotencyKey s (w_id w) key = Some t"
    and "initiateDeposit R s u a (Some key) meta meth = (r, s')"
  shows "same_money s s'" and "r = Inr x \<Longrightarrow> x = (t_id t, t_status t)"
proof -
  obtain ok s1 where e: "ensureBroker s u = (ok, s1)" by (rule prod.exhaust)
  with ensureBroker_money [of s u] have m1: "same_money s s1" by simp
  from ensureBroker_wallet [OF assms(2), of u] e obtain w1 where
    w1: "findWalletByUserId s1 u = Some w1" "w_id w1 = w_id w" by auto
  obtain rk s2 where c: "checkDeposit R s1 u a meth = (rk, s2)" by (rule prod.exhaust)
  with tables_eq_checkDeposit [of s1 R u a meth] have m2: "same_money s s2"
    using tables_same_money m1 same_money_trans by (metis snd_conv)
  have k: "existing_by_key s2 (w_id w) (Some key) = Some t"
    using assms(3,4) m2 by (cases key) (auto simp: existing_by_key_def findTransactionByIdempotencyKey_def same_money_def)
  have ew: "ensureWallet s1 u = Inr (s1, w_id w)" using w1 by (simp add: ensureWallet_def)
  have "same_money s s' \<and> (\<forall>x. r = Inr x \<longrightarrow> x = (t_id t, t_status t))"
  proof (cases "depositor_check s1 u \<noteq> None \<or> findWalletById s1 (w_id w) = None")
    case True
    then show ?thesis using assms(5) m1 by (auto simp: initiateDeposit_def Let_def e ew split: option.splits)
  next
    case False
    then obtain v where v: "findWalletById s1 (w_id w) = Some v" "depositor_check s1 u = None" by auto
    with findWalletById_Some have "w_id v = w_id w" by blast
    with k have "existing_by_key s2 (w_id v) (Some key) = Some t" by simp
    then have "initiateDeposit R s u a (Some key) meta meth =
        (if w_isFrozen v then (Inl (BadRequest (FrozenMsg (w_frozenReason v))), s1)
         else if a \<le> 0 then (Inl (BadRequest (Msg ''Deposit amount must be positive'')), s1)
         else if \<not> dc_allowed rk then (Inl (BadRequest (RiskMsg (dc_reason rk))), s2)
         else (Inr (t_id t, t_status t), s2))"
      by (simp add: initiateDeposit_def Let_def e ew v c)
    with assms(5) m1 m2 show ?thesis by (auto split: if_splits)
  qed
  then show "same_money s s'" "r = Inr x \<Longrightarrow> x = (t_id t, t_status t)" by auto
qed

lemma deposit_by_owner:
  assumes "books_ok s" and "findWalletByUserId s u = Some w" and "t_type t = DEPOSIT"
    and "findTransactionByIdempotencyKey s (w_id w) key = Some t"
  shows "getDepositForUser s u key = Some t"
proof -
  have own: "map_option w_userId (findWalletById s i) = Some u \<longleftrightarrow> i = w_id w" for i
  proof
    assume "map_option w_userId (findWalletById s i) = Some u"
    then obtain v where v: "findWalletById s i = Some v" "w_userId v = u" by auto
    with findWalletById_Some [OF v(1)] findWalletByUserId_Some [OF assms(2)] assms(1) show "i = w_id w"
      unfolding books_defs by (metis distinct_map inj_onD)
  next
    assume "i = w_id w"
    moreover have "findWalletById s (w_id w) = Some w"
      using findWalletByUserId_Some [OF assms(2)] assms(1) find_key_distinct [of w_id "db_wallets s" w]
      by (simp add: findWalletById_def books_ok_def wallets_ok_def)
    ultimately show "map_option w_userId (findWalletById s i) = Some u"
      using findWalletByUserId_Some [OF assms(2)] by simp
  qed
  have f: "List.find P xs = Some t \<Longrightarrow> Q t \<Longrightarrow> \<forall>x. Q x \<longrightarrow> P x \<Longrightarrow> List.find Q xs = Some t" for P Q and xs :: "transaction list"
    by (induction xs) (auto split: if_splits)
  have k: "t_walletId t = w_id w \<and> t_idempotencyKey t = Some key"
    using assms(4) by (auto simp: findTransactionByIdempotencyKey_def find_Some_iff)
  show ?thesis unfolding getDepositForUser_def own
    by (rule f [OF assms(4) [unfolded findTransactionByIdempotencyKey_def]]) (use k assms(3) in auto)
qed

text \<open>A reference under which the user's wallet holds a deposit that is completed or failed.\<close>

definition settled :: "db \<Rightarrow> uuid \<Rightarrow> string \<Rightarrow> bool" where
  "settled s u ref \<longleftrightarrow> ref \<noteq> [] \<and>
     (case findWalletByUserId s u of
        None \<Rightarrow> False
      | Some w \<Rightarrow>
          (case findTransactionByIdempotencyKey s (w_id w) ref of
             None \<Rightarrow> False
           | Some t \<Rightarrow> t_type t = DEPOSIT \<and> t_status t \<in> {TX_COMPLETED, TX_FAILED}))"

lemma settled_ensureBroker: "settled s u ref \<Longrightarrow> settled (snd (ensureBroker s u)) u ref"
proof -
  assume "settled s u ref"
  then obtain w where w: "findWalletByUserId s u = Some w" by (auto simp: settled_def split: option.splits)
  from ensureBroker_wallet [OF w, of u] obtain w' where
    w': "findWalletByUserId (snd (ensureBroker s u)) u = Some w'" "w_id w' = w_id w" by blast
  have "db_transactions (snd (ensureBroker s u)) = db_transactions s"
    using ensureBroker_money [of s u] by (simp add: same_money_def)
  with \<open>settled s u ref\<close> w w' show ?thesis
    by (simp add: settled_def findTransactionByIdempotencyKey_def)
qed

lemma settled_initiate:
  assumes "books_ok s" and "settled s u ref" and "initiateDeposit R s u a (Some ref) meta meth = (r, s')"
  shows "same_money s s' \<and> (\<forall>i st. r = Inr (i, st) \<longrightarrow> st = TX_COMPLETED \<or> st = TX_FAILED)"
proof -
  from assms(2) obtain w t where w: "findWalletByUserId s u = Some w" "ref \<noteq> []"
    "findTransactionByIdempotencyKey s (w_id w) ref = Some t" "t_status t \<in> {TX_COMPLETED, TX_FAILED}"
    by (auto simp: settled_def split: option.splits)
  from initiateDeposit_replay [OF assms(1) w(1-3) assms(3)] w(4) show ?thesis by auto
qed

lemma settled_completeSession:
  assumes "books_ok (wo_db W)" and "settled (wo_db W) u ref"
  shows "no_effect W (snd (completeSessionPayment R E net W u email ref saveIt name))"
proof -
  from assms(2) obtain w t where w: "findWalletByUserId (wo_db W) u = Some w" "t_type t = DEPOSIT"
    "findTransactionByIdempotencyKey (wo_db W) (w_id w) ref = Some t" "t_status t \<in> {TX_COMPLETED, TX_FAILED}"
    by (auto simp: settled_def split: option.splits)
  from deposit_by_owner [OF assms(1) w(1-3)] w(4) show ?thesis
    by (auto simp: completeSessionPayment_def no_effect_def)
qed

lemma settled_initiateCard:
  assumes "books_ok (wo_db W)" and "settled (wo_db W) u (tx_ref rand (kd_idempotencyKey d))"
  shows "no_effect W (snd (initiateCardPayment R E net rand iv W u email d))"
proof (cases "merge_saved E (wo_db W) u d")
  case (Inr d')
  have k: "kd_idempotencyKey d' = kd_idempotencyKey d"
    using Inr by (auto simp: merge_saved_def split: option.splits sum.splits)
  show ?thesis
  proof (cases "validateCard R E (kd_cardNumber d') (kd_expiryMonth d') (kd_expiryYear d')")
    case None
    obtain r s' where i: "initiateDeposit R (wo_db W) u (kd_amount d') (Some (tx_ref rand (kd_idempotencyKey d)))
        ([(''purpose'', JStr (orElse (kd_purpose d') ''wallet_deposit'')), (''method'', JStr ''BANK_CARD''),
          (''testMode'', JBool (kd_testScenario d' \<noteq> None))] @ purpose_fields (kd_stockSymbol d') (kd_quantity d'))
        (Some ''CARD'') = (r, s')" by (rule prod.exhaust)
    from settled_initiate [OF assms i] i k None Inr show ?thesis
      by (cases r) (auto simp: initiateCardPayment_def Let_def no_effect_def)
  qed (simp add: initiateCardPayment_def Inr no_effect_def)
qed (simp add: initiateCardPayment_def no_effect_def)

lemma settled_resolve:
  assumes "books_ok s" and "settled s u ref" and "resolveBrokerGateway E s u = (g, s1)"
  shows "books_ok s1" and "settled s1 u ref" and "same_money s s1"
  using assms ensureBroker_books settled_ensureBroker ensureBroker_money [of s u] resolveBrokerGateway_state [of E s u]
  by auto

lemma settled_createSession:
  assumes "books_ok (wo_db W)" and "settled (wo_db W) u (tx_ref rand (xd_idempotencyKey x))"
  shows "no_effect W (snd (createPaymentSession R E net rand W u x))"
proof -
  obtain g s1 where g: "resolveBrokerGateway E (wo_db W) u = (g, s1)" by (rule prod.exhaust)
  note s1 = settled_resolve [OF assms g]
  obtain r s' where i: "initiateDeposit R s1 u (xd_amount x) (Some (tx_ref rand (xd_idempotencyKey x)))
      ([(''purpose'', JStr (orElse (xd_purpose x) ''wallet_deposit'')), (''method'', JStr ''BANK_CARD''),
        (''integration'', JStr ''HOSTED_SESSION''), (''currency'', JStr (xd_currency x))] @
        purpose_fields (xd_stockSymbol x) (xd_quantity x)) (Some ''CARD'') = (r, s')" by (rule prod.exhaust)
  note m = settled_initiate [OF s1(1,2) i]
  then have m': "same_money (wo_db W) s'" using s1(3) same_money_trans by blast
  show ?thesis using g i m m' s1(3)
    by (cases g; cases r) (auto simp: createPaymentSession_def Let_def no_effect_def)
qed

lemma settled_savedCard:
  assumes "books_ok (wo_db W)" and "settled (wo_db W) u (tx_ref rand (sd_idempotencyKey p))"
  shows "no_effect W (snd (payWithSavedCard R E net rand W u email p))"
proof -
  obtain g s1 where g: "resolveBrokerGateway E (wo_db W) u = (g, s1)" by (rule prod.exhaust)
  note s1 = settled_resolve [OF assms g]
  obtain r s' where i: "initiateDeposit R s1 u (sd_amount p) (Some (tx_ref rand (sd_idempotencyKey p)))
      ([(''purpose'', JStr (orElse (sd_purpose p) ''wallet_deposit'')), (''method'', JStr ''BANK_CARD''),
        (''integration'', JStr ''CARD_ON_FILE''), (''currency'', JStr (sd_currency p))] @
        purpose_fields (sd_stockSymbol p) (sd_quantity p)) (Some ''CARD'') = (r, s')" by (rule prod.exhaust)
  note m = settled_initiate [OF s1(1,2) i]
  then have m': "same_money (wo_db W) s'" using s1(3) same_money_trans by blast
  show ?thesis
  proof (cases g)
    case (Inr y)
    obtain G b req where y: "y = (G, b, req)" by (cases y) auto
    show ?thesis using g i m m' s1(3) Inr y
      by (cases r; cases "getChargeableToken s1 u (sd_savedCardId p) b") (auto simp: payWithSavedCard_def Let_def no_effect_def)
  qed (use g s1(3) in \<open>simp add: payWithSavedCard_def no_effect_def\<close>)
qed

text \<open>C17. A settled reference is never charged again: when the user's wallet already holds a completed or failed
  deposit under the reference of a request, none of the four entry points (direct card, session creation,
  session completion, card on file) sends anything to the gateway or the mock, and no balance, ledger entry
  or transaction changes.\<close>

theorem settled_reference_never_charged:
  assumes "books_ok (wo_db W)" and "settled (wo_db W) u ref"
    and "tx_ref rand (kd_idempotencyKey d) = ref" and "tx_ref rand (xd_idempotencyKey x) = ref"
    and "tx_ref rand (sd_idempotencyKey p) = ref"
  shows "no_effect W (snd (completeSessionPayment R E net W u email ref saveIt name)) \<and>
     no_effect W (snd (initiateCardPayment R E net rand iv W u email d)) \<and>
     no_effect W (snd (createPaymentSession R E net rand W u x)) \<and>
     no_effect W (snd (payWithSavedCard R E net rand W u email p))"
  using assms by (intro conjI settled_completeSession settled_initiateCard settled_createSession settled_savedCard) simp_all

theorem settled_reference_never_charged_witness:
  "no_effect (pay_world (markDepositFailed pay_db ''PINE-CARD-k1''))
     (snd (payWithSavedCard (pg_runtime 5) toy_env toy_net ''r'' (pay_world (markDepositFailed pay_db ''PINE-CARD-k1'')) 1 None
       \<lparr>sd_savedCardId = 5, sd_amount = 1000, sd_currency = ''MWK'', sd_cvv = None, sd_purpose = None, sd_stockSymbol = None,
        sd_quantity = None, sd_idempotencyKey = Some ''k1''\<rparr>))"
proof -
  let ?s = "markDepositFailed pay_db ''PINE-CARD-k1''"
  have "settled ?s 1 ''PINE-CARD-k1''" by code_simp
  moreover have "tx_ref ''r'' (Some ''k1'') = ''PINE-CARD-k1''" by code_simp
  ultimately show ?thesis
    using settled_reference_never_charged [of "pay_world ?s" 1 "''PINE-CARD-k1''" "''r''"
        "\<lparr>kd_amount = 1, kd_currency = [], kd_cardholderName = [], kd_cardNumber = [], kd_expiryMonth = [], kd_expiryYear = [],
          kd_cvv = [], kd_savedCardId = None, kd_saveCard = False, kd_purpose = None, kd_stockSymbol = None, kd_quantity = None,
          kd_idempotencyKey = Some ''k1'', kd_testScenario = None\<rparr>"
        "\<lparr>xd_amount = 1, xd_currency = [], xd_purpose = None, xd_stockSymbol = None, xd_quantity = None, xd_idempotencyKey = Some ''k1''\<rparr>"
        "\<lparr>sd_savedCardId = 5, sd_amount = 1000, sd_currency = ''MWK'', sd_cvv = None, sd_purpose = None, sd_stockSymbol = None,
        sd_quantity = None, sd_idempotencyKey = Some ''k1''\<rparr>"]
      markDepositFailed_books [OF pay_db_books] by (simp add: pay_world_def)
qed

section \<open>What the flows do not guard\<close>

text \<open>A card on file is charged without any authentication, whatever the broker requires.\<close>

lemma saved_card_skips_authentication:
  "let out = payWithSavedCard (pg_runtime 5) toy_env toy_net ''r'' (pay_world pay_db) 1 None
     \<lparr>sd_savedCardId = 5, sd_amount = 1000, sd_currency = ''MWK'', sd_cvv = None, sd_purpose = None, sd_stockSymbol = None,
      sd_quantity = None, sd_idempotencyKey = Some ''k2''\<rparr>
   in map_sum id br_success (fst out) = Inr True \<and> length (wo_sent (snd out)) = 1 \<and> list_all is_pay (wo_sent (snd out)) \<and>
     map_sum id rg_require3ds (fst (resolveGatewayConfigForUser toy_env pay_db 1)) = Inr True"
  by code_simp

text \<open>References are unique per wallet only, and a settled charge looks its deposit up by reference alone: when two
  customers use one idempotency key, the charge of one is credited to the other, for the other's amount.\<close>

definition shared_key_db :: db where
  "shared_key_db = pay_db\<lparr>db_users := [sample_user, sample_user\<lparr>u_id := 11\<rparr>],
     db_wallets := [new_wallet 2 1 ''MWK'' (Some 7), new_wallet 12 11 ''MWK'' (Some 7)],
     db_transactions := [card_deposit 3 2 1000000 0, card_deposit 13 12 100 0]\<rparr>"

lemma shared_key_credits_other:
  "let out = completeSessionPayment (pg_runtime 5) toy_env toy_net (pay_world shared_key_db) 11 None ''PINE-CARD-k1'' False None
   in map_sum id (\<lambda>r. (br_success r, br_amount r)) (fst out) = Inr (True, 100) \<and>
     balances (wo_db (snd out)) = [(2, 1000000), (12, 0)]"
  by code_simp

lemma sanitizeKey_shape:
  "length (sanitizeKey k) \<le> 48" "list_all key_char (sanitizeKey k)" "sanitizeKey (sanitizeKey k) = sanitizeKey k"
proof -
  show l: "length (sanitizeKey k) \<le> 48" by (simp add: sanitizeKey_def)
  show c: "list_all key_char (sanitizeKey k)"
    by (auto simp: sanitizeKey_def list_all_iff dest: in_set_takeD)
  then have "filter key_char (sanitizeKey k) = sanitizeKey k" by (simp add: filter_id_conv list_all_iff)
  with l show "sanitizeKey (sanitizeKey k) = sanitizeKey k" by (simp add: sanitizeKey_def)
qed

end
