(* ===== verification/Reach.thy ===== *)
theory Reach
  imports System Treasury Dividends CardPayments
begin

text \<open>
  The whole financial core as one transition system over the database, and the bank it implements: an
  abstract ledger of accounts that are opened at zero, paid into, and paid out of only within their balance.
  Every operation of the services is a step; the payment flows of \<open>CardPayments\<close> are runs of such steps.
\<close>

section \<open>The abstract bank\<close>

type_synonym bank = "(uuid \<times> rat) list"

inductive bank_step :: "bank \<Rightarrow> bank \<Rightarrow> bool" where
  open_account: "i \<notin> fst ` set b \<Longrightarrow> bank_step b (b @ [(i, 0)])"
| pay_in: "0 \<le> d \<Longrightarrow> bank_step b (credit i d b)"
| pay_out: "0 \<le> d \<Longrightarrow> \<forall>x. (i, x) \<in> set b \<longrightarrow> d \<le> x \<Longrightarrow> bank_step b (credit i (- d) b)"

definition bank_ok :: "bank \<Rightarrow> bool" where
  "bank_ok b \<longleftrightarrow> distinct (map fst b) \<and> list_all (\<lambda>(i, x). 0 \<le> x) b"

lemma credit_ids: "map fst (credit i d b) = map fst b"
  by (induction b) (auto simp: credit_def)

lemma bank_step_ok: "bank_step b b' \<Longrightarrow> bank_ok b \<Longrightarrow> bank_ok b'"
proof (induction rule: bank_step.induct)
  case (pay_in d b i)
  then show ?case by (auto simp: bank_ok_def credit_ids) (auto simp: credit_def list_all_iff)
next
  case (pay_out d i b)
  then show ?case by (auto simp: bank_ok_def credit_ids) (force simp: credit_def list_all_iff)
qed (auto simp: bank_ok_def)

abbreviation bank_run :: "bank \<Rightarrow> bank \<Rightarrow> bool" where
  "bank_run \<equiv> bank_step\<^sup>*\<^sup>*"

lemma bank_run_ok: "bank_run b b' \<Longrightarrow> bank_ok b \<Longrightarrow> bank_ok b'"
  by (induction rule: rtranclp_induct) (auto dest: bank_step_ok)

text \<open>A change of one account that leaves nothing below zero is a payment in or out.\<close>

lemma bank_change:
  assumes "\<forall>x. (i, x) \<in> set b \<longrightarrow> 0 \<le> x + d"
  shows "bank_run b (credit i d b)"
proof (cases "0 \<le> d")
  case True
  then show ?thesis by (intro r_into_rtranclp pay_in)
next
  case False
  then have "bank_step b (credit i (- (- d)) b)" using assms by (intro pay_out) auto
  then show ?thesis by auto
qed

section \<open>Operations as moves of the bank\<close>

text \<open>A sound state, and an operation that keeps the books while the bank makes a run.\<close>

definition sound :: "db \<Rightarrow> bool" where
  "sound s \<longleftrightarrow> books_ok s \<and> solvent s"

definition moves :: "db \<Rightarrow> db \<Rightarrow> bool" where
  "moves s s' \<longleftrightarrow> books_ok s' \<and> bank_run (balances s) (balances s')"

lemma sound_bank: "sound s \<longleftrightarrow> books_ok s \<and> bank_ok (balances s)"
proof -
  have "distinct (map fst (balances s))" if "books_ok s"
    using that by (simp add: balances_def books_defs comp_def)
  then show ?thesis by (auto simp: sound_def bank_ok_def solvent_def balances_def list_all_iff)
qed

lemma moves_sound: "sound s \<Longrightarrow> moves s s' \<Longrightarrow> sound s'"
  unfolding sound_bank moves_def by (auto intro: bank_run_ok)

lemma moves_refl: "sound s \<Longrightarrow> moves s s"
  by (simp add: sound_def moves_def)

lemma moves_trans [trans]: "moves s s' \<Longrightarrow> moves s' s'' \<Longrightarrow> moves s s''"
  by (auto simp: moves_def)

lemma moves_still: "books_ok s' \<Longrightarrow> balances s' = balances s \<Longrightarrow> moves s s'"
  by (simp add: moves_def)

lemma money_eq_balances: "money_eq s s' \<Longrightarrow> balances s' = balances s"
  by (simp add: money_eq_def balances_def)

lemma moves_money_eq: "sound s \<Longrightarrow> money_eq s s' \<Longrightarrow> moves s s'"
  by (rule moves_still) (auto simp: sound_def money_eq_balances intro: money_eq_books)

lemma moves_same_money: "books_ok s' \<Longrightarrow> same_money s s' \<Longrightarrow> moves s s'"
  by (simp add: moves_still same_money_def)

text \<open>One wallet changes by an amount that its column holds exactly.\<close>

lemma upd_balances:
  assumes "\<And>v. v \<in> set (db_wallets s) \<Longrightarrow> P v \<Longrightarrow> w_id (f v) = w_id v \<and> w_balance (f v) = w_balance v + d \<and> w_id v = i"
    and "\<And>v. v \<in> set (db_wallets s) \<Longrightarrow> w_id v = i \<Longrightarrow> P v"
    and "db_wallets s' = upd_where P f (db_wallets s)"
  shows "balances s' = credit i d (balances s)"
proof -
  have "(w_id (if P v then f v else v), w_balance (if P v then f v else v)) =
      (w_id v, if w_id v = i then w_balance v + d else w_balance v)" if "v \<in> set (db_wallets s)" for v
    using assms(1,2) [OF that] by auto
  then show ?thesis unfolding assms(3) balances_def credit_def upd_where_def by simp
qed

lemma wallet_moves:
  assumes "sound s" and "books_ok s'" and "balances s' = credit i d (balances s)"
    and "\<And>v. v \<in> set (db_wallets s) \<Longrightarrow> w_id v = i \<Longrightarrow> 0 \<le> w_balance v + d"
  shows "moves s s'"
  using assms(2,4) unfolding moves_def assms(3) by (auto simp: balances_def intro!: bank_change)

subsection \<open>Wallet service\<close>

lemma ensureWallet_moves:
  assumes "sound s" and "ensureWallet s u = Inr (s', i)"
  shows "moves s s'"
proof -
  have b: "books_ok s'" using ensureWallet_Inr(1) [OF assms(2)] assms(1) by (simp add: sound_def)
  have "db_uid s \<notin> fst ` set (balances s)"
    using assms(1) unfolding sound_def books_defs balances_def by auto
  then have "bank_step (balances s) (balances s @ [(db_uid s, 0)])" by (rule open_account)
  with b assms(2) show ?thesis
    by (auto simp: moves_def ensureWallet_def createWallet_def balances_def new_wallet_def split: option.splits if_splits)
qed

lemma ensureBroker_moves: "sound s \<Longrightarrow> moves s (snd (ensureBroker s u))"
  by (intro moves_same_money ensureBroker_books ensureBroker_money) (simp add: sound_def)

lemma createTransaction_wallets: "createTransaction R s w ty a k oid m = Inr (s', i) \<Longrightarrow> db_wallets s' = db_wallets s"
  by (auto simp: createTransaction_def insertTransaction_def Let_def split: if_splits)

lemma initiateDeposit_moves:
  assumes "sound s" and "numeric_runtime R" and "fee_state_ok s" and "places 4 a" "0 < a" "a \<le> 10 ^ 9"
  shows "moves s (snd (initiateDeposit R s u a key meta meth))"
proof -
  let ?s1 = "snd (ensureBroker s u)" and ?s' = "snd (initiateDeposit R s u a key meta meth)"
  have b: "books_ok ?s'" using assms by (intro initiateDeposit_books) (auto simp: sound_def)
  have m1: "moves s ?s1" by (rule ensureBroker_moves [OF assms(1)])
  note snd1 = moves_sound [OF assms(1) m1]
  have "balances ?s' = balances ?s1 \<or> (\<exists>s2 i. ensureWallet ?s1 u = Inr (s2, i) \<and> balances ?s' = balances s2)"
  proof (cases "depositor_check ?s1 u = None \<and> (\<exists>q. ensureWallet ?s1 u = Inr q)")
    case True
    then obtain s2 i where w: "ensureWallet ?s1 u = Inr (s2, i)" "depositor_check ?s1 u = None" by auto
    have t: "db_wallets (snd (checkDeposit R s2 u a meth)) = db_wallets s2"
      using tables_eq_checkDeposit by (rule tables_eq_fields(1))
    have f: "db_wallets (snd (feePolicyForUser R x u)) = db_wallets x" for x
      using tables_eq_feePolicy by (rule tables_eq_fields(1))
    have "db_wallets ?s' = db_wallets s2"
      using w t f by (auto simp: initiateDeposit_def split_beta Let_def dest: createTransaction_wallets
          split: option.splits sum.splits)
    with w show ?thesis by (auto simp: balances_def)
  next
    case False
    then show ?thesis by (auto simp: initiateDeposit_def split_beta split: option.splits sum.splits)
  qed
  then show ?thesis
    using m1 ensureWallet_moves [OF snd1] b unfolding moves_def by (auto intro: rtranclp_trans)
qed

lemma initiateWithdrawal_moves:
  assumes "sound s" and "numeric_runtime R" and "places 4 a" "0 < a" "a < 10 ^ 14"
  shows "moves s (snd (initiateWithdrawal R s u a key))"
proof (cases "ensureWallet s u")
  case (Inl e)
  with moves_refl [OF assms(1)] show ?thesis by (simp add: initiateWithdrawal_def)
next
  case (Inr q)
  then obtain s2 i where w: "ensureWallet s u = Inr (s2, i)" by (cases q) auto
  have "balances (snd (initiateWithdrawal R s u a key)) = balances s2"
    by (auto simp: initiateWithdrawal_def w Let_def balances_def dest: createTransaction_wallets
        split: option.splits sum.splits)
  moreover have "books_ok (snd (initiateWithdrawal R s u a key))"
    using assms by (intro initiateWithdrawal_books) (auto simp: sound_def)
  ultimately show ?thesis using ensureWallet_moves [OF assms(1) w] by (simp add: moves_def)
qed

lemma processDeposit_moves:
  assumes "sound s" and "numeric_runtime R"
  shows "moves s (snd (processDeposit R s tid))"
proof -
  have bk: "books_ok s" using assms(1) by (simp add: sound_def)
  obtain r s' where d: "processDeposit R s tid = (r, s')" by (rule prod.exhaust)
  show ?thesis
  proof (cases "r = Inr ()")
    case True
    from processDeposit_cases(2) [OF assms(2) bk d True] obtain t where t: "findTransactionById s tid = Some t"
      "balances s' = credit (t_walletId t) (t_amount t) (balances s)" by blast
    from True d obtain s1 where "depositTx R s tid = Inr s1" by (auto simp: processDeposit_def split: sum.splits)
    from depositTx_Inr [OF this] obtain t' w fee where "t_id t' = tid"
      "completion R s s1 t' w (deposit_legs R w t' fee) (t_amount t')" by blast
    moreover from this have "t' = t" using t(1) by (simp add: completion_def)
    ultimately have "0 \<le> t_amount t" using completion_pending_ok(3) [OF bk] by blast
    with t d processDeposit_books [OF assms(2) bk, of tid] show ?thesis
      by (auto simp: moves_def intro!: r_into_rtranclp pay_in)
  next
    case False
    with processDeposit_cases(1) [OF assms(2) bk d] moves_refl [OF assms(1)] d show ?thesis by simp
  qed
qed

lemma processWithdrawal_moves:
  assumes "sound s" and "numeric_runtime R"
  shows "moves s (snd (processWithdrawal R s tid))"
proof (cases "withdrawalTx R s tid")
  case (Inl e)
  with moves_refl [OF assms(1)] show ?thesis by (simp add: processWithdrawal_def)
next
  case (Inr s1)
  have bk: "books_ok s" using assms(1) by (simp add: sound_def)
  from withdrawalTx_Inr [OF Inr] obtain t w where
    c: "completion R s s1 t w (withdrawal_legs R w t) (- t_amount t)" and n: "0 \<le> w_balance w - t_amount t"
    using numeric_runtime.rnd_sign [OF assms(2)] by (auto simp: dsub_def not_less)
  have p: "places 4 (- t_amount t)" using completion_pending_ok(2) [OF bk c] by (rule places_minus)
  have bal: "balances s1 = credit (t_walletId t) (- t_amount t) (balances s)" by (rule completion_balances [OF assms(2) bk c p])
  have w: "w_id w = t_walletId t" "w \<in> set (db_wallets s)"
    using c findWalletById_Some unfolding completion_def by blast+
  have "v = w" if "v \<in> set (db_wallets s)" "w_id v = t_walletId t" for v
    using that w bk unfolding books_defs distinct_map by (metis inj_onD)
  then have "moves s s1"
    using withdrawalTx_keeps_books [OF assms(2) bk Inr] n by (intro wallet_moves [OF assms(1) _ bal]) auto
  then show ?thesis using Inr by (simp add: processWithdrawal_def moves_def balances_def emit_wallet_updated_cong)
qed

lemma still_moves:
  assumes "sound s"
  shows "moves s (markDepositFailed s txRef)"
    and "moves s (snd (rejectWithdrawal R s tid reason))"
    and "map_of patch ''processingFee'' = None \<Longrightarrow> moves s (attachDepositMetadata s txRef patch)"
    and "moves s (consumeReservation R s oid)" and "moves s (releaseReservation R s oid)"
    and "moves s (expireStaleReservations R s)" and "moves s (dailySnapshot R s)"
    and "reserveFunds R s u oid amt e = Inr (s', i) \<Longrightarrow> moves s s'"
proof -
  have b: "books_ok s" using assms by (simp add: sound_def)
  have m: "books_ok s' \<Longrightarrow> db_wallets s' = db_wallets s \<Longrightarrow> moves s s'" for s' by (rule moves_still) (simp_all add: balances_def)
  show "moves s (markDepositFailed s txRef)"
    by (rule m [OF markDepositFailed_books [OF b]]) (simp add: markDepositFailed_def)
  show "moves s (snd (rejectWithdrawal R s tid reason))"
    by (rule m [OF rejectWithdrawal_books [OF b]])
      (auto simp: rejectWithdrawal_def updateTransaction_def Let_def split: option.splits)
  show "map_of patch ''processingFee'' = None \<Longrightarrow> moves s (attachDepositMetadata s txRef patch)"
    by (rule m [OF attachDepositMetadata_books [OF b]])
      (auto simp: attachDepositMetadata_def updateTransaction_def split: option.splits)
  show "moves s (consumeReservation R s oid)" "moves s (releaseReservation R s oid)" "moves s (expireStaleReservations R s)"
    by (rule moves_money_eq [OF assms], simp add: money_eq_def consumeReservation_def releaseReservation_def
        expireStaleReservations_def expireReservations_def repo_consumeReservation_def repo_releaseReservation_def
        split: option.split)+
  have "db_wallets (snapshot_one R d i s) = db_wallets s" for d i s
    by (simp add: snapshot_one_def upsertSnapshot_def Let_def split: option.split)
  then have "db_wallets (fold (snapshot_one R d) is s) = db_wallets s" for d "is" s
    by (induction "is" arbitrary: s) auto
  then show "moves s (dailySnapshot R s)" by (intro m [OF dailySnapshot_books [OF b]]) (simp add: dailySnapshot_def Let_def)
  show "reserveFunds R s u oid amt e = Inr (s', i) \<Longrightarrow> moves s s'"
    by (rule moves_money_eq [OF assms money_eq_reserve])
qed

subsection \<open>Trading\<close>

lemma submitOrder_moves:
  assumes "sound s"
  shows "moves s (snd (submitOrder R cfg s u d kyc))"
proof -
  let ?s1 = "snd (ensureBroker s u)"
  have m1: "moves s ?s1" by (rule ensureBroker_moves [OF assms])
  have "money_eq ?s1 (snd (submitOrder R cfg s u d kyc))"
  proof (cases rule: submitOrder_cases [where R = R and cfg = cfg and s = s and u = u and d = d and kyc = kyc])
    case (replay s2 x)
    then show ?thesis by (simp add: createOrder_money)
  next
    case (failed s2 x e s3)
    have "money_eq s2 s3" using money_eq_pipeline [of s2 R u x d "live_kyc s u kyc"] failed(3) by simp
    with createOrder_money [OF failed(1)] have "money_eq ?s1 s3" by (rule money_eq_trans)
    then show ?thesis unfolding failed(4) snd_conv by (rule money_eq_trans [OF _ money_eq_reject_failed])
  next
    case (queued s2 x price fees s3 r)
    have "money_eq s2 s3" using money_eq_pipeline [of s2 R u x d "live_kyc s u kyc"] queued(3) by simp
    with createOrder_money [OF queued(1)] show ?thesis unfolding queued(4) snd_conv by (rule money_eq_trans)
  qed simp
  with moves_money_eq [OF moves_sound [OF assms m1]] m1 show ?thesis using moves_trans by blast
qed

lemma executeQueuedOrder_moves: "sound s \<Longrightarrow> moves s (snd (executeQueuedOrder R ad s oid))"
proof (rule moves_money_eq)
  have "money_eq s (snd (execute R ad (createTradeAudit s i u a x y) oid p))" for i u a x y p
    by (rule money_eq_trans [OF _ money_eq_execute]) simp
  then show "money_eq s (snd (executeQueuedOrder R ad s oid))" by (auto simp: executeQueuedOrder_def split: option.split)
qed

lemma cancelOrder_moves: "sound s \<Longrightarrow> moves s (snd (cancelOrder R s u oid))"
  by (rule moves_money_eq)
    (auto simp: cancelOrder_def order_cancelOrder_def money_eq_def updateOrderStatus_def createTradeAudit_def
      split: sum.splits option.splits if_splits)

lemma settle_moves:
  assumes "sound s" and "numeric_runtime R" and "event_ok ev" and "settleAtomically R s ev = Inr (s', sid)"
  shows "moves s s'"
proof (cases sid)
  case None
  with assms(4) have "s' = s"
    by (auto simp: settleAtomically_def Let_def split: option.splits if_splits sum.splits prod.splits)
  with moves_refl [OF assms(1)] show ?thesis by simp
next
  case (Some k)
  have b: "books_ok s" "solvent s" using assms(1) by (simp_all add: sound_def)
  let ?d = "settle_change R (ev_side ev) (ev_gross ev) (ev_totalFees ev)"
  let ?x = "if ev_side ev = BUY then - ev_delta R ev else ev_delta R ev"
  from settle_posts [OF assms(2) b assms(3) assms(4) [unfolded Some]] obtain w where
    w: "findWalletByUserId s (ev_userId ev) = Some w"
    and wal: "db_wallets s' = upd_where (\<lambda>v. w_id v = w_id w) (bump R ?x) (db_wallets s)"
    and eq: "w_balance w + ?d = num4 R (w_balance w + ?x)" and n: "0 \<le> w_balance w + ?d" and b': "books_ok s'" by blast
  have u: "v = w" if "v \<in> set (db_wallets s)" "w_id v = w_id w" for v
    using that findWalletByUserId_Some [OF w] b(1) unfolding books_defs distinct_map by (metis inj_onD)
  have "balances s' = credit (w_id w) ?d (balances s)"
    using eq by (intro upd_balances [OF _ _ wal]) (auto dest!: u simp: bump_def)
  then show ?thesis using u n by (intro wallet_moves [OF assms(1) b']) auto
qed

lemma handleOrderExecuted_moves:
  assumes "sound s" and "numeric_runtime R" and "event_ok ev"
  shows "moves s (snd (handleOrderExecuted R (\<lambda>_. s) ev))"
proof -
  obtain r k where k: "runWithRetry (\<lambda>k. settleAtomically R s ev) 1 = (r, k)" by (rule prod.exhaust)
  then have r: "r = settleAtomically R s ev" using runWithRetry_spec [of 1 "\<lambda>k. settleAtomically R s ev" r k] by simp
  show ?thesis
  proof (cases r)
    case (Inl e)
    with k moves_refl [OF assms(1)] show ?thesis by (simp add: handleOrderExecuted_def)
  next
    case (Inr q)
    then obtain s1 sid where q: "settleAtomically R s ev = Inr (s1, sid)" using r by (cases q) auto
    note m = settle_moves [OF assms q]
    have "money_eq s1 (snd (handleOrderExecuted R (\<lambda>_. s) ev))"
      using k r q by (cases sid) (simp_all add: handleOrderExecuted_def)
    with moves_money_eq [OF moves_sound [OF assms(1) m]] m show ?thesis using moves_trans by blast
  qed
qed

subsection \<open>Treasury, corporate actions and saved cards\<close>

lemma treasury_moves:
  assumes "sound s"
  shows "invest R s u pid amt = Inr (s', v) \<Longrightarrow> moves s s'"
    and "moves s (fst (createProduct R s dto))"
    and "updateProduct R s pid patch = Inr (s', view) \<Longrightarrow> moves s s'"
    and "deleteProduct s pid = Inr (s', hard) \<Longrightarrow> moves s s'"
proof -
  show "invest R s u pid amt = Inr (s', v) \<Longrightarrow> moves s s'" by (erule invest_Inr) (rule moves_money_eq [OF assms])
  show "moves s (fst (createProduct R s dto))"
    by (rule moves_money_eq [OF assms]) (simp add: createProduct_def Let_def money_eq_def)
  show "updateProduct R s pid patch = Inr (s', view) \<Longrightarrow> moves s s'"
    by (rule moves_money_eq [OF assms]) (auto simp: updateProduct_def Let_def money_eq_def split: option.splits if_splits)
  show "deleteProduct s pid = Inr (s', hard) \<Longrightarrow> moves s s'"
    by (rule moves_money_eq [OF assms]) (auto simp: deleteProduct_def Let_def money_eq_def split: option.splits if_splits)
qed

lemma credit_dividend_moves:
  assumes "sound s" and "numeric_runtime R" and "0 \<le> net" and "credit_dividend R s u net = Inr s'"
  shows "moves s s'"
proof -
  have b: "books_ok s" "solvent s" "wallets_ok s" using assms(1) by (simp_all add: sound_def books_ok_def)
  note keep = credit_dividend_keeps [OF assms(2) b(1,2) assms(3,4)]
  obtain t where t: "credit_dividend R s u net = Inr t"
    and wal: "db_wallets t = upd_where (\<lambda>w. w_userId w = u) (bump R net) (db_wallets s)"
    and none: "findWalletByUserId s u = None \<longrightarrow> t = s"
    by (rule credit_dividend_Inr [OF b(3), of R u net])
  have s': "s' = t" using t assms(4) by simp
  show ?thesis
  proof (cases "findWalletByUserId s u")
    case None
    with none moves_refl [OF assms(1)] show ?thesis by (simp add: s')
  next
    case (Some w)
    note w = findWalletByUserId_Some [OF Some]
    have u: "v = w" if "v \<in> set (db_wallets s)" "w_userId v = u" for v
      using that w b(3) unfolding wallets_ok_def distinct_map by (metis inj_onD)
    have i: "v = w" if "v \<in> set (db_wallets s)" "w_id v = w_id w" for v
      using that w b(3) unfolding wallets_ok_def distinct_map by (metis inj_onD)
    have "num4 R (w_balance w + net) = w_balance w + num4 R net"
      using w b assms(3) unfolding wallets_ok_def solvent_def by (intro numeric_runtime.num4_shift [OF assms(2)]) auto
    then have "balances s' = credit (w_id w) (num4 R net) (balances s)"
      using w unfolding s' by (intro upd_balances [OF _ _ wal]) (use u i in \<open>force simp: bump_def\<close>)+
    moreover have "0 \<le> num4 R net" by (rule numeric_runtime.num4_nonneg [OF assms(2,3)])
    ultimately show ?thesis using keep(1) by (auto simp: moves_def intro!: r_into_rtranclp pay_in)
  qed
qed

lemma distribute_one_moves:
  assumes "sound s" and "numeric_runtime R" and "dividend_in_range d (h_quantity h)"
    and "distribute_one R d out h (s, acc) = (s', acc')"
  shows "moves s s'"
proof -
  obtain gross tax net where f: "dividend_figures R d (h_quantity h) = (gross, tax, net)"
    by (cases "dividend_figures R d (h_quantity h)") auto
  obtain n paid taxed where acc: "acc = (n, paid, taxed)" by (cases acc) auto
  have net: "0 \<le> net" using dividend_net_nonneg [OF assms(2,3)] f by simp
  have one: "moves s s1 \<and> (\<forall>s2. credit_dividend R s1 (h_userId h) net = Inr s2 \<longrightarrow> moves s s2 \<and> (\<forall>e. moves s (emit e s2)))"
    if "createDistribution R s (dv_id d) (h_userId h) (h_quantity h) gross tax net = Inr (s1, k)" for s1 k
  proof -
    have "money_eq s s1" by (subst createDistribution_Inr(2) [OF that]) (simp add: money_eq_def)
    note m1 = moves_money_eq [OF assms(1) this]
    have "moves s s2 \<and> (\<forall>e. moves s (emit e s2))" if "credit_dividend R s1 (h_userId h) net = Inr s2" for s2
    proof -
      have "moves s s2" using m1 credit_dividend_moves [OF moves_sound [OF assms(1) m1] assms(2) net that] by (rule moves_trans)
      moreover from this have "moves s (emit e s2)" for e
        using moves_money_eq [OF moves_sound [OF assms(1)], of s2 "emit e s2"] moves_trans by auto
      ultimately show ?thesis by blast
    qed
    with m1 show ?thesis by blast
  qed
  show ?thesis
    using assms(4) f acc one moves_refl [OF assms(1)]
    by (auto simp: distribute_one_def Let_def split: sum.splits prod.splits tx_end.splits)
qed

lemma distributeDividend_moves:
  assumes "sound s" and "numeric_runtime R" and "dividend_payable s i"
  shows "moves s (snd (distributeDividend R out s i))"
proof (cases "findDividendById s i")
  case None
  with moves_refl [OF assms(1)] show ?thesis by (simp add: distributeDividend_def)
next
  case (Some d)
  have fold: "moves s' (fst (fold (distribute_one R d out) hs (s', acc)))"
    if "sound s'" "\<forall>h \<in> set hs. dividend_in_range d (h_quantity h)" for hs s' acc
    using that
  proof (induction hs arbitrary: s' acc)
    case Nil
    then show ?case by (simp add: moves_refl)
  next
    case (Cons h hs)
    obtain t ac where t: "distribute_one R d out h (s', acc) = (t, ac)" by (rule prod.exhaust)
    have "moves s' t" using Cons.prems t by (intro distribute_one_moves [OF _ assms(2)]) auto
    moreover from this have "moves t (fst (fold (distribute_one R d out) hs (t, ac)))"
      using Cons.prems by (intro Cons.IH moves_sound [of s' t]) auto
    ultimately show ?case using t by (auto intro: moves_trans)
  qed
  show ?thesis
  proof -
    have "i \<in> dv_id ` set (db_dividends s)" using Some by (auto simp: findDividendById_def find_Some_iff)
    then obtain s1 where s1: "updateDividendStatus s i DV_PROCESSING = Inr s1" by (simp add: updateDividendStatus_def)
    obtain s2 where s2: "mark_action s1 (dv_corporateActionId d) CA_PROCESSING id = Inr s2" using mark_action_total by blast
    have e: "money_eq s s2" "db_holdings s2 = db_holdings s"
      using updateDividendStatus_Inr [OF s1] mark_action_Inr [OF s2] money_eq_trans by auto
    have hs: "findShareholdersByStock s2 (dv_stockId d) = findShareholdersByStock s (dv_stockId d)"
      using e(2) by (simp add: findShareholdersByStock_def)
    have m2: "moves s s2" by (rule moves_money_eq [OF assms(1) e(1)])
    obtain s3 n paid taxed where
      s3: "fold (distribute_one R d out) (findShareholdersByStock s2 (dv_stockId d)) (s2, 0, 0, 0) = (s3, n, paid, taxed)"
      by (metis prod.exhaust)
    have "\<forall>h \<in> set (findShareholdersByStock s (dv_stockId d)). dividend_in_range d (h_quantity h)"
      using assms(3) Some by (simp add: dividend_payable_def)
    with fold [OF moves_sound [OF assms(1) m2], of "findShareholdersByStock s2 (dv_stockId d)" "(0, 0, 0)"] s3 hs m2
    have m3: "moves s s3" by (auto intro: moves_trans)
    have m4: "moves s t" if "money_eq s3 t" for t
      using moves_money_eq [OF moves_sound [OF assms(1) m3] that] m3 moves_trans by blast
    have "money_eq s3 (snd (distributeDividend R out s i))"
      using Some s1 s2 s3
      by (auto simp: distributeDividend_def dest!: updateDividendStatus_Inr mark_action_Inr intro: money_eq_trans
          split: sum.splits)
    then show ?thesis by (rule m4)
  qed
qed

lemma holdings_moves:
  assumes "sound s"
  shows "moves s (snd (applyStockSplit R out s ca))" and "moves s (snd (distributeBonusShares R out s ca))"
    and "moves s (snd (declareDividend R s sid aps pct ex rc pay))"
proof -
  have f: "money_eq s0 (fst (fold (split_one R sp out) hs (s0, n)))" for sp hs s0 n
  proof (induction hs arbitrary: s0 n)
    case (Cons h hs)
    have "money_eq s0 (fst (split_one R sp out h (s0, n)))"
      by (auto simp: split_one_def Let_def money_eq_def set_holding_def split: tx_end.split)
    then show ?case using Cons.IH money_eq_trans by (cases "split_one R sp out h (s0, n)") fastforce
  qed simp
  have g: "money_eq s0 (fst (fold (bonus_one R b out) hs (s0, n)))" for b hs s0 n
  proof (induction hs arbitrary: s0 n)
    case (Cons h hs)
    have "money_eq s0 (fst (bonus_one R b out h (s0, n)))"
      by (cases n) (auto simp: bonus_one_def Let_def money_eq_def set_holding_def split: tx_end.split)
    then show ?case using Cons.IH money_eq_trans by (cases "bonus_one R b out h (s0, n)") fastforce
  qed simp
  have f': "money_eq s s1 \<Longrightarrow> money_eq (fst (fold (split_one R sp out) hs (s1, n))) x \<Longrightarrow> money_eq s x" for sp hs s1 n x
    using f money_eq_trans by blast
  have g': "money_eq s s1 \<Longrightarrow> money_eq (fst (fold (bonus_one R b out) hs (s1, n))) x \<Longrightarrow> money_eq s x" for b hs s1 n x
    using g money_eq_trans by blast
  show "moves s (snd (applyStockSplit R out s ca))"
    by (rule moves_money_eq [OF assms])
      (auto simp: applyStockSplit_def split_beta dest!: updateCorporateActionStatus_Inr intro: f' money_eq_refl
        split: option.splits sum.splits)
  show "moves s (snd (distributeBonusShares R out s ca))"
    by (rule moves_money_eq [OF assms])
      (auto simp: distributeBonusShares_def split_beta dest!: updateCorporateActionStatus_Inr intro: g' money_eq_refl
        split: option.splits sum.splits)
  show "moves s (snd (declareDividend R s sid aps pct ex rc pay))"
    by (rule moves_money_eq [OF assms])
      (auto simp: declareDividend_def createCorporateAction_def createDividend_def money_eq_def Let_def
        split: sum.splits if_splits)
qed

lemma card_store_moves:
  assumes "sound s"
  shows "saveCard R seal iv s u num name mm yy = Inr (s', v) \<Longrightarrow> moves s s'"
    and "saveTokenizedCard R s u broker tok = Inr (s', v) \<Longrightarrow> moves s s'"
    and "deleteCard s u i = Inr s' \<Longrightarrow> moves s s'" and "setDefault s u i = Inr s' \<Longrightarrow> moves s s'"
  by (rule moves_money_eq [OF assms]; auto simp: saveCard_def saveTokenizedCard_def deleteCard_def setDefault_def create_card_def
      money_eq_def Let_def split: if_splits option.splits list.splits)+

subsection \<open>Payments that buy shares\<close>

definition submit_buy :: "runtime \<Rightarrow> market_config \<Rightarrow> db \<Rightarrow> uuid \<Rightarrow> string \<Rightarrow> rat \<Rightarrow> string \<Rightarrow> kyc_status \<Rightarrow> db" where
  "submit_buy R cfg s u symbol q key kyc =
     snd (submitBuyOrder R cfg s u \<lparr>d_stockSymbol = symbol, d_side = BUY, d_quantity = q, d_orderType = MARKET,
       d_limitPrice = None, d_idempotencyKey = Some key\<rparr> kyc)"

text \<open>The trading service, once wired in.\<close>

definition wired :: "(db \<Rightarrow> uuid \<Rightarrow> string \<Rightarrow> rat \<Rightarrow> string \<Rightarrow> kyc_status \<Rightarrow> db) option \<Rightarrow> bool" where
  "wired submit \<longleftrightarrow> submit = None \<or> (\<exists>R cfg. submit = Some (submit_buy R cfg))"

lemma submit_buy_moves: "sound s \<Longrightarrow> moves s (submit_buy R cfg s u symbol q key kyc)"
  unfolding submit_buy_def submitBuyOrder_def by (rule submitOrder_moves)

lemma processPayment_moves:
  assumes "sound s" and "numeric_runtime R" and "wired submit"
  shows "moves s (snd (processPaymentByTxRef R submit s txRef))"
proof (cases "List.find (pending_deposit txRef) (db_transactions s)")
  case None
  with moves_refl [OF assms(1)] show ?thesis by (simp add: processPaymentByTxRef_def)
next
  case (Some t)
  obtain r s1 where d: "processDeposit R s (t_id t) = (r, s1)" by (rule prod.exhaust)
  have m: "moves s s1" using processDeposit_moves [OF assms(1,2), of "t_id t"] d by simp
  have "moves s1 (snd (processPaymentByTxRef R submit s txRef))"
    using Some d moves_refl [OF moves_sound [OF assms(1) m]] submit_buy_moves [OF moves_sound [OF assms(1) m]] assms(3)
    unfolding wired_def
    by (auto simp: processPaymentByTxRef_def Let_def split: sum.splits json.splits option.splits)
  with m show ?thesis by (rule moves_trans)
qed

section \<open>The services as a transition system\<close>

text \<open>
  Regular figures.  A deposit is asked for with a positive amount of at most four places and up to
  a thousand million; request validation bounds the amount but not its places.  A withdrawal
  likewise, within the column's range.
\<close>

definition deposit_amount :: "rat \<Rightarrow> bool" where
  "deposit_amount a \<longleftrightarrow> places 4 a \<and> 0 < a \<and> a \<le> 10 ^ 9"

definition withdrawal_amount :: "rat \<Rightarrow> bool" where
  "withdrawal_amount a \<longleftrightarrow> places 4 a \<and> 0 < a \<and> a < 10 ^ 14"

text \<open>
  One operation of one service.  \<open>pine_step False\<close> is the program as it is: any operation, with any
  argument.  \<open>pine_step True\<close> asks in addition for regular figures: deposit and withdrawal amounts as
  above and deposit fees within the validated rates (\<open>fee_state_ok\<close>), metadata that leaves the
  recorded fee alone (no caller writes it), a settled event that is regular (\<open>event_ok\<close>: no fee that is
  half-way between two amounts of the ledger, no sale whose fees exceed its proceeds) and a dividend
  whose figures the columns hold (\<open>dividend_payable\<close>).  The code enforces none of these itself.
\<close>

inductive pine_step :: "bool \<Rightarrow> db \<Rightarrow> db \<Rightarrow> bool" for regular where
  open_wallet: "ensureWallet s u = Inr (s', i) \<Longrightarrow> pine_step regular s s'"
| place: "pine_step regular s (snd (ensureBroker s u))"
| ask_deposit: "numeric_runtime R \<Longrightarrow> regular \<longrightarrow> fee_state_ok s \<and> deposit_amount a \<Longrightarrow>
     pine_step regular s (snd (initiateDeposit R s u a key meta meth))"
| ask_withdrawal: "numeric_runtime R \<Longrightarrow> regular \<longrightarrow> withdrawal_amount a \<Longrightarrow>
     pine_step regular s (snd (initiateWithdrawal R s u a key))"
| deposit: "numeric_runtime R \<Longrightarrow> pine_step regular s (snd (processDeposit R s tid))"
| withdraw: "numeric_runtime R \<Longrightarrow> pine_step regular s (snd (processWithdrawal R s tid))"
| reject: "pine_step regular s (snd (rejectWithdrawal R s tid reason))"
| fail: "pine_step regular s (markDepositFailed s txRef)"
| annotate: "regular \<longrightarrow> map_of patch ''processingFee'' = None \<Longrightarrow> pine_step regular s (attachDepositMetadata s txRef patch)"
| payment: "numeric_runtime R \<Longrightarrow> wired submit \<Longrightarrow> pine_step regular s (snd (processPaymentByTxRef R submit s txRef))"
| hold: "reserveFunds R s u oid amt e = Inr (s', i) \<Longrightarrow> pine_step regular s s'"
| consume: "pine_step regular s (consumeReservation R s oid)"
| release: "pine_step regular s (releaseReservation R s oid)"
| sweep: "pine_step regular s (expireStaleReservations R s)"
| snapshot: "pine_step regular s (dailySnapshot R s)"
| submit: "pine_step regular s (snd (submitOrder R cfg s u d kyc))"
| execute_queued: "pine_step regular s (snd (executeQueuedOrder R ad s oid))"
| cancel: "pine_step regular s (snd (cancelOrder R s u oid))"
| settle: "numeric_runtime R \<Longrightarrow> regular \<longrightarrow> event_ok ev \<Longrightarrow>
     pine_step regular s (snd (handleOrderExecuted R (\<lambda>_. s) ev))"
| buy_bill: "invest R s u pid amt = Inr (s', v) \<Longrightarrow> pine_step regular s s'"
| add_product: "pine_step regular s (fst (createProduct R s dto))"
| edit_product: "updateProduct R s pid pt = Inr (s', view) \<Longrightarrow> pine_step regular s s'"
| drop_product: "deleteProduct s pid = Inr (s', hard) \<Longrightarrow> pine_step regular s s'"
| announce: "pine_step regular s (snd (declareDividend R s sid aps pct ex rc pay))"
| dividend: "numeric_runtime R \<Longrightarrow> regular \<longrightarrow> dividend_payable s k \<Longrightarrow>
     pine_step regular s (snd (distributeDividend R out s k))"
| split_shares: "pine_step regular s (snd (applyStockSplit R out s ca))"
| bonus: "pine_step regular s (snd (distributeBonusShares R out s ca))"
| keep_card: "saveCard R sl iv s u num name mm yy = Inr (s', cv) \<Longrightarrow> pine_step regular s s'"
| keep_token: "saveTokenizedCard R s u b tok = Inr (s', cv) \<Longrightarrow> pine_step regular s s'"
| drop_card: "deleteCard s u i = Inr s' \<Longrightarrow> pine_step regular s s'"
| default_card: "setDefault s u i = Inr s' \<Longrightarrow> pine_step regular s s'"

text \<open>A run of the program, and a run of regular steps.\<close>

abbreviation pine_run :: "db \<Rightarrow> db \<Rightarrow> bool" where
  "pine_run \<equiv> (pine_step False)\<^sup>*\<^sup>*"

abbreviation regular_run :: "db \<Rightarrow> db \<Rightarrow> bool" where
  "regular_run \<equiv> (pine_step True)\<^sup>*\<^sup>*"

lemma regular_deposit:
  "numeric_runtime R \<Longrightarrow> fee_state_ok s \<Longrightarrow> deposit_amount a \<Longrightarrow> pine_step True s (snd (initiateDeposit R s u a key meta meth))"
  by (rule ask_deposit) simp_all

lemma regular_is_step: "pine_step True s s' \<Longrightarrow> pine_step False s s'"
  by (induction rule: pine_step.induct) (rule pine_step.intros; simp)+

lemma regular_is_run: "regular_run s s' \<Longrightarrow> pine_run s s'"
  by (rule rtranclp_mono [THEN predicate2D]) (auto intro: regular_is_step)

lemma one_run: "pine_step g s t \<Longrightarrow> (pine_step g)\<^sup>*\<^sup>* s t"
  by (rule r_into_rtranclp)

lemma regular_step_moves: "pine_step True s s' \<Longrightarrow> sound s \<Longrightarrow> moves s s'"
proof (induction rule: pine_step.induct)
  case (ask_deposit R s a u key meta meth)
  then show ?case by (intro initiateDeposit_moves) (simp_all add: deposit_amount_def)
next
  case (ask_withdrawal R a s u key)
  then show ?case by (intro initiateWithdrawal_moves) (simp_all add: withdrawal_amount_def)
qed (auto intro: ensureWallet_moves ensureBroker_moves processDeposit_moves processWithdrawal_moves
    still_moves processPayment_moves submitOrder_moves executeQueuedOrder_moves cancelOrder_moves
    handleOrderExecuted_moves treasury_moves distributeDividend_moves holdings_moves card_store_moves)

lemma regular_run_moves: "regular_run s s' \<Longrightarrow> sound s \<Longrightarrow> moves s s'"
proof (induction rule: rtranclp_induct)
  case (step t u)
  then show ?case using regular_step_moves moves_sound moves_trans by blast
qed (rule moves_refl)

subsection \<open>Card payments are runs\<close>

lemma settle_charge_run:
  assumes "numeric_runtime R" and "wired (pe_submit E)" and "settle_charge R E s txRef out = (r, s')"
  shows "regular_run s s'"
proof -
  have p: "pine_step True s (snd (processPaymentByTxRef R (pe_submit E) s txRef))" by (rule payment [OF assms(1,2)])
  have "regular_run s (markDepositFailed (snd (processPaymentByTxRef R (pe_submit E) s txRef)) txRef)"
    by (rule rtranclp.rtrancl_into_rtrancl [OF one_run [OF p] fail])
  with p assms(3) show ?thesis
    by (auto simp: settle_charge_def fail split: sum.splits prod.splits)
qed

lemma ensureBroker_fee_state: "fee_state_ok s \<Longrightarrow> fee_state_ok (snd (ensureBroker s u))"
  by (simp add: fee_state_ok_def ensureBroker_fees)

lemma resolve_run: "resolveBrokerGateway E s u = (g, s1) \<Longrightarrow> pine_step True s s1"
  using resolveBrokerGateway_state [of E s u] place [of True s u] by simp

lemma remember_run:
  "regular_run (wo_db W) (wo_db (remember_session R net G u b sid name c W))"
  "regular_run s (remember_card R E iv s u d)"
  by (auto simp: remember_session_def remember_card_def split: prod.splits sum.splits intro: keep_token keep_card)

lemma then_run: "pine_step True s t \<Longrightarrow> regular_run t t' \<Longrightarrow> regular_run s t'"
  by (rule converse_rtranclp_into_rtranclp)

lemma completeSession_is_run:
  assumes "numeric_runtime R" and "wired (pe_submit E)"
  shows "regular_run (wo_db W) (wo_db (snd (completeSessionPayment R E net W u email txRef saveIt name)))"
proof (cases "getDepositForUser (wo_db W) u txRef")
  case (Some t)
  obtain g s1 where g: "resolveBrokerGateway E (wo_db W) u = (g, s1)" by (rule prod.exhaust)
  note s1 = resolve_run [OF g]
  show ?thesis
  proof (cases g)
    case (Inl e)
    with Some g s1 show ?thesis by (auto simp: completeSessionPayment_def Let_def)
  next
    case (Inr y)
    obtain G b req where y: "y = (G, b, req)" by (cases y) auto
    obtain v sent1 where v: "auth_step net G txRef t (wo_sent W) = (v, sent1)" by (rule prod.exhaust)
    let ?a = "if v = Inr True then meta_str ''threeDsAuthTransactionId'' t else None"
    obtain out sent2 where c: "chargeSession R net G txRef (stored_gross R t) (stored_currency t)
        (orElse (meta_str ''gatewaySessionId'' t) []) email ?a sent1 = (out, sent2)" by (rule prod.exhaust)
    obtain f s2 where f: "settle_charge R E s1 txRef out = (f, s2)" by (rule prod.exhaust)
    let ?W2 = "W\<lparr>wo_db := s2, wo_sent := sent2\<rparr>"
    have m: "regular_run (wo_db W) s2" by (rule then_run [OF s1 settle_charge_run [OF assms f]])
    have "regular_run (wo_db W) (wo_db (remember_session R net G u b sid name ch ?W2))" for sid ch
      using m remember_run(1) [of ?W2 R net G u b sid name ch] by simp
    moreover have "regular_run (wo_db W) (markDepositFailed s1 txRef)" by (rule then_run [OF s1 one_run [OF fail]])
    ultimately show ?thesis using Some g Inr y v c f m
      by (cases f) (auto simp: completeSessionPayment_def Let_def)
  qed
qed (simp add: completeSessionPayment_def)

lemma authenticate_is_run:
  "regular_run (wo_db W) (wo_db (snd (authenticateCardSession E R net W u email txRef dev)))"
proof (cases "getDepositForUser (wo_db W) u txRef")
  case (Some t)
  obtain g s1 where g: "resolveBrokerGateway E (wo_db W) u = (g, s1)" by (rule prod.exhaust)
  note s1 = resolve_run [OF g]
  have a: "regular_run (wo_db W) (attachDepositMetadata s1 txRef [(''threeDsOutcome'', x), (''threeDsVersion'', y)])" for x y
    by (rule then_run [OF s1 one_run [OF annotate]]) simp
  have a': "regular_run (wo_db W) (attachDepositMetadata s1 txRef
      [(''threeDsOutcome'', x), (''threeDsAuthTransactionId'', z), (''threeDsVersion'', y)])" for x y z
    by (rule then_run [OF s1 one_run [OF annotate]]) simp
  show ?thesis using Some g s1 a a'
    by (cases g) (auto simp: authenticateCardSession_def Let_def split: prod.splits sum.splits)
qed (simp add: authenticateCardSession_def)

lemma createSession_is_run:
  assumes "numeric_runtime R" and "fee_state_ok (wo_db W)" and "deposit_amount (xd_amount x)"
  shows "regular_run (wo_db W) (wo_db (snd (createPaymentSession R E net rand W u x)))"
proof -
  obtain g s1 where g: "resolveBrokerGateway E (wo_db W) u = (g, s1)" by (rule prod.exhaust)
  note s1 = resolve_run [OF g]
  have fs: "fee_state_ok s1" using ensureBroker_fee_state [OF assms(2)] resolveBrokerGateway_state [of E "wo_db W" u] g by simp
  have i: "regular_run (wo_db W) s2" if "initiateDeposit R s1 u (xd_amount x) key meta meth = (r, s2)" for key meta meth r s2
    using then_run [OF s1 one_run [OF regular_deposit [OF assms(1) fs assms(3)]]] that by (metis snd_conv)
  have a: "regular_run (wo_db W) (attachDepositMetadata s2 ref [(''gatewaySessionId'', p), (''currency'', q)])"
    if "initiateDeposit R s1 u (xd_amount x) key meta meth = (r, s2)" for key meta meth r s2 ref p q
    by (rule rtranclp.rtrancl_into_rtrancl [OF i [OF that] annotate]) simp
  show ?thesis using g s1
    by (cases g) (auto simp: createPaymentSession_def Let_def split: prod.splits sum.splits dest: i a)
qed

lemma savedCard_is_run:
  assumes "numeric_runtime R" and "fee_state_ok (wo_db W)" and "wired (pe_submit E)" and "deposit_amount (sd_amount p)"
  shows "regular_run (wo_db W) (wo_db (snd (payWithSavedCard R E net rand W u email p)))"
proof -
  obtain g s1 where g: "resolveBrokerGateway E (wo_db W) u = (g, s1)" by (rule prod.exhaust)
  note s1 = resolve_run [OF g]
  have fs: "fee_state_ok s1" using ensureBroker_fee_state [OF assms(2)] resolveBrokerGateway_state [of E "wo_db W" u] g by simp
  have i: "regular_run (wo_db W) s2" if "initiateDeposit R s1 u (sd_amount p) key meta meth = (r, s2)" for key meta meth r s2
    using then_run [OF s1 one_run [OF regular_deposit [OF assms(1) fs assms(4)]]] that by (metis snd_conv)
  have c: "regular_run (wo_db W) s3"
    if "initiateDeposit R s1 u (sd_amount p) key meta meth = (r, s2)" "settle_charge R E s2 ref out = (f, s3)"
    for key meta meth r s2 ref out f s3
    by (rule rtranclp_trans [OF i [OF that(1)] settle_charge_run [OF assms(1,3) that(2)]])
  show ?thesis using g s1
    by (cases g) (auto simp: payWithSavedCard_def Let_def split: prod.splits sum.splits dest: i c)
qed

lemma directCard_is_run:
  assumes "numeric_runtime R" and "fee_state_ok (wo_db W)" and "wired (pe_submit E)" and "deposit_amount (kd_amount d)"
  shows "regular_run (wo_db W) (wo_db (snd (initiateCardPayment R E net rand iv W u email d)))"
proof (cases "merge_saved E (wo_db W) u d")
  case (Inr d')
  have amt: "deposit_amount (kd_amount d')"
    using Inr assms(4) by (auto simp: merge_saved_def split: option.splits sum.splits)
  have i: "regular_run (wo_db W) s2" if "initiateDeposit R (wo_db W) u (kd_amount d') key meta meth = (r, s2)" for key meta meth r s2
    using one_run [OF regular_deposit [OF assms(1,2) amt]] that by (metis snd_conv)
  have b: "regular_run s2 s3" if "brokerGatewayOrThrow E s2 u = (r, s3)" for s2 r s3
    using that place [of True s2 u] resolveConfig_state [of E s2 u]
    by (auto simp: brokerGatewayOrThrow_def split: prod.splits sum.splits if_splits)
  have ch: "wo_db W1 = s2" if "charge_direct R E net rand gw ref email d' (W\<lparr>wo_db := s2\<rparr>) = (out, W1)" for gw ref s2 out W1
    using that by (auto simp: charge_direct_def split: option.splits prod.splits)
  have ib: "regular_run (wo_db W) s3" if "initiateDeposit R (wo_db W) u (kd_amount d') key meta meth = (r, s2)"
    "brokerGatewayOrThrow E s2 u = (g, s3)" for key meta meth r s2 g s3
    by (rule rtranclp_trans [OF i [OF that(1)] b [OF that(2)]])
  have c: "regular_run (wo_db W) s3 \<and> regular_run (wo_db W) (remember_card R E iv s3 u d')"
    if "regular_run (wo_db W) s2" "settle_charge R E s2 ref out = (f, s3)" for s2 ref out f s3
    using rtranclp_trans [OF that(1) settle_charge_run [OF assms(1,3) that(2)]] remember_run(2) [of s3 R E iv u d']
    by (auto intro: rtranclp_trans)
  show ?thesis
    by (auto simp: initiateCardPayment_def Inr Let_def dest!: ch dest: i ib c [OF i] c [OF ib]
        split: prod.splits sum.splits option.splits if_splits)
qed (simp add: initiateCardPayment_def)

text \<open>
  The card flows are sequences of service operations: whatever the gateway answers, the database after
  creating, authenticating or completing a session, charging a card on file or charging a card
  directly is reached from the one before by regular steps, so that everything shown of those holds
  across a card payment.
\<close>

lemma card_payments_compose:
  assumes "numeric_runtime R" and "fee_state_ok (wo_db W)" and "wired (pe_submit E)"
    and "deposit_amount (xd_amount x)" and "deposit_amount (sd_amount p)" and "deposit_amount (kd_amount d)"
  shows "regular_run (wo_db W) (wo_db (snd (createPaymentSession R E net rand W u x)))"
    and "regular_run (wo_db W) (wo_db (snd (authenticateCardSession E R net W u email txRef dev)))"
    and "regular_run (wo_db W) (wo_db (snd (completeSessionPayment R E net W u email txRef saveIt name)))"
    and "regular_run (wo_db W) (wo_db (snd (payWithSavedCard R E net rand W u email p)))"
    and "regular_run (wo_db W) (wo_db (snd (initiateCardPayment R E net rand iv W u email d)))"
  by (fact createSession_is_run [OF assms(1,2,4)] authenticate_is_run completeSession_is_run [OF assms(1,3)]
      savedCard_is_run [OF assms(1-3,5)] directCard_is_run [OF assms(1-3,6)])+

subsection \<open>A fresh system\<close>

definition fresh_db :: "db \<Rightarrow> bool" where
  "fresh_db s \<longleftrightarrow> db_wallets s = [] \<and> db_transactions s = [] \<and> db_ledger s = []"

lemma fresh_sound: "fresh_db s \<Longrightarrow> sound s"
  by (simp add: fresh_db_def sound_def solvent_def books_defs tx_total_def)

lemma fresh_run_books: "fresh_db s0 \<Longrightarrow> regular_run s0 s \<Longrightarrow> books_ok s"
  using regular_run_moves fresh_sound moves_def by blast

text \<open>A first customer: a wallet, a deposit of a thousand asked for and confirmed.\<close>

definition first_wallet :: db where
  "first_wallet = (case ensureWallet empty_db 1 of Inr (s, _) \<Rightarrow> s | Inl _ \<Rightarrow> empty_db)"

definition first_asked :: db where
  "first_asked = snd (initiateDeposit (pg_runtime 5) first_wallet 1 1000 (Some ''k'') [] (Some ''CARD''))"

definition first_paid :: db where
  "first_paid = snd (processDeposit (pg_runtime 6) first_asked
     (case db_transactions first_asked of t # _ \<Rightarrow> t_id t | [] \<Rightarrow> 0))"

lemma first_run: "regular_run empty_db first_paid"
proof -
  have "\<exists>i. ensureWallet empty_db 1 = Inr (first_wallet, i)"
    by (auto simp: first_wallet_def ensureWallet_def createWallet_def findWalletByUserId_def empty_db_def split: sum.splits)
  then have 1: "pine_step True empty_db first_wallet" by (auto intro: open_wallet)
  have "fee_state_ok first_wallet"
    by (simp add: first_wallet_def ensureWallet_def createWallet_def findWalletByUserId_def empty_db_def fee_state_ok_def
        split: sum.splits)
  then have 2: "pine_step True first_wallet first_asked"
    unfolding first_asked_def by (intro regular_deposit [OF pg.numeric_runtime_axioms]) (simp_all add: deposit_amount_def)
  have 3: "pine_step True first_asked first_paid"
    unfolding first_paid_def by (rule deposit [OF pg.numeric_runtime_axioms])
  from 1 2 3 show ?thesis by (meson one_run rtranclp_trans)
qed

section \<open>Properties\<close>


lemma bal_samples: "balances bank0 = [(2, 0)]" "balances bank2 = [(2, 975)]"
  by code_simp+




end
