(* ===== verification/Totp.thy ===== *)
theory Totp
  imports Prelude "HOL-Library.Word"
begin

text \<open>
  The codecs and the one-time passwords of \<^verbatim>\<open>src/modules/admin/services/mfa.service.ts\<close>: Base32 over
  JavaScript's 32-bit shifts, RFC 6238 codes over HMAC-SHA1 and the acceptance window of one time
  step on either side.  A JavaScript number under \<open><<\<close>, \<open>|\<close>, \<open>>>>\<close> and \<open>&\<close> is its 32-bit pattern, a
  \<open>32 word\<close>; a buffer is a list of \<open>8 word\<close>s; the HMAC of \<^verbatim>\<open>node:crypto\<close> is an argument.
  Characters are ASCII.
\<close>

unbundle bit_operations_syntax

type_synonym byte = "8 word"
type_synonym hmac = "byte list \<Rightarrow> byte list \<Rightarrow> byte list"

section \<open>Base32\<close>

definition alphabet :: string where
  "alphabet = ''ABCDEFGHIJKLMNOPQRSTUVWXYZ234567''"

fun encode_drain :: "32 word \<Rightarrow> nat \<Rightarrow> string \<times> nat" where
  "encode_drain value bits =
     (if 5 \<le> bits
      then let (result, rest) = encode_drain value (bits - 5)
           in (alphabet ! unat (drop_bit (bits - 5) value AND 31) # result, rest)
      else ([], bits))"

declare encode_drain.simps [simp del]

fun encode_bytes :: "32 word \<Rightarrow> nat \<Rightarrow> byte list \<Rightarrow> string" where
  "encode_bytes value bits [] =
     (if 0 < bits then [alphabet ! unat (push_bit (5 - bits) value AND 31)] else [])"
| "encode_bytes value bits (b # bs) =
     (let value' = push_bit 8 value OR ucast b;
          (result, bits') = encode_drain value' (bits + 8)
      in result @ encode_bytes value' bits' bs)"

definition encodeBase32 :: "byte list \<Rightarrow> string" where
  "encodeBase32 buffer = encode_bytes 0 0 buffer"

definition lookup :: "char \<Rightarrow> nat option" where
  "lookup = map_of (zip alphabet [0..<32])"

definition toUpperCase :: "string \<Rightarrow> string" where
  "toUpperCase =
     map (\<lambda>c. if 97 \<le> (of_char c :: nat) \<and> (of_char c :: nat) \<le> 122 then char_of (of_char c - 32 :: nat) else c)"

fun decode_chars :: "32 word \<Rightarrow> nat \<Rightarrow> string \<Rightarrow> byte list" where
  "decode_chars value bits [] = []"
| "decode_chars value bits (c # cs) =
     (case lookup c of
        None \<Rightarrow> decode_chars value bits cs
      | Some val \<Rightarrow>
          let value' = push_bit 5 value OR of_nat val; bits' = bits + 5
          in if 8 \<le> bits'
             then ucast (drop_bit (bits' - 8) value' AND 255) # decode_chars value' (bits' - 8) cs
             else decode_chars value' bits' cs)"

definition decodeBase32 :: "string \<Rightarrow> byte list" where
  "decodeBase32 input = decode_chars 0 0 (toUpperCase input)"

section \<open>Time-based codes\<close>

definition TOTP_PERIOD :: int where "TOTP_PERIOD = 30"
definition TOTP_DIGITS :: nat where "TOTP_DIGITS = 6"
definition TOTP_WINDOW :: int where "TOTP_WINDOW = 1"

text \<open>\<open>writeUInt32BE\<close> refuses a number outside the unsigned range with a \<open>RangeError\<close>.\<close>

definition timeBuffer :: "int \<Rightarrow> byte list option" where
  "timeBuffer timeStep =
     (if 0 \<le> timeStep \<and> timeStep < 2 ^ 32
      then Some ([0, 0, 0, 0] @ map (\<lambda>i. ucast (drop_bit (8 * i) (word_of_int timeStep :: 32 word))) [3, 2, 1, 0])
      else None)"

text \<open>Indexing a buffer past its end is \<open>undefined\<close>, which the bit operators read as zero.\<close>

definition byte_at :: "byte list \<Rightarrow> nat \<Rightarrow> 32 word" where
  "byte_at h i = (if i < length h then ucast (h ! i) else 0)"

definition truncate_hash :: "byte list \<Rightarrow> 32 word" where
  "truncate_hash h =
     (let offset = unat (byte_at h (length h - 1) AND 0x0f)
      in push_bit 24 (byte_at h offset AND 0x7f) OR push_bit 16 (byte_at h (offset + 1) AND 0xff)
         OR push_bit 8 (byte_at h (offset + 2) AND 0xff) OR (byte_at h (offset + 3) AND 0xff))"

definition digit :: "nat \<Rightarrow> char" where
  "digit n = char_of (48 + n)"

fun decimal :: "nat \<Rightarrow> string" where
  "decimal n = (if n < 10 then [digit n] else decimal (n div 10) @ [digit (n mod 10)])"

declare decimal.simps [simp del]

definition padStart :: "nat \<Rightarrow> char \<Rightarrow> string \<Rightarrow> string" where
  "padStart k c s = replicate (k - length s) c @ s"

definition generateTotpCode :: "hmac \<Rightarrow> string \<Rightarrow> int \<Rightarrow> string option" where
  "generateTotpCode hmac_sha1 secret timeStep =
     (case timeBuffer timeStep of
        None \<Rightarrow> None
      | Some buffer \<Rightarrow>
          let otp = sint (truncate_hash (hmac_sha1 (decodeBase32 secret) buffer)) mod 10 ^ TOTP_DIGITS
          in Some (padStart TOTP_DIGITS (CHR ''0'') (decimal (nat otp))))"

text \<open>\<open>timingSafeEqual\<close> raises on buffers of different lengths: \<open>None\<close> is the exception.\<close>

definition timingSafeEqual :: "string \<Rightarrow> string \<Rightarrow> bool option" where
  "timingSafeEqual a b = (if length a = length b then Some (a = b) else None)"

fun verify_steps :: "hmac \<Rightarrow> string \<Rightarrow> string \<Rightarrow> int \<Rightarrow> int list \<Rightarrow> bool option" where
  "verify_steps hmac_sha1 secret code t [] = Some False"
| "verify_steps hmac_sha1 secret code t (offset # offsets) =
     (case generateTotpCode hmac_sha1 secret ((t + offset * TOTP_PERIOD) div TOTP_PERIOD) of
        None \<Rightarrow> None
      | Some expected \<Rightarrow>
          (case timingSafeEqual expected code of
             None \<Rightarrow> None
           | Some True \<Rightarrow> Some True
           | Some False \<Rightarrow> verify_steps hmac_sha1 secret code t offsets))"

definition verifyTotp :: "hmac \<Rightarrow> timestamp \<Rightarrow> string \<Rightarrow> string \<Rightarrow> bool option" where
  "verifyTotp hmac_sha1 date_now secret code =
     verify_steps hmac_sha1 secret code (date_now div 1000) [- TOTP_WINDOW .. TOTP_WINDOW]"

section \<open>Bit streams\<close>

text \<open>The low \<open>n\<close> bits of a word, most significant first: both codecs re-chunk such a stream.\<close>

definition bits_of :: "nat \<Rightarrow> 'a::len word \<Rightarrow> bool list" where
  "bits_of n w = map (\<lambda>i. bit w (n - Suc i)) [0..<n]"

lemma length_bits_of [simp]: "length (bits_of n w) = n"
  by (simp add: bits_of_def)

lemma nth_bits_of [simp]: "i < n \<Longrightarrow> bits_of n w ! i = bit w (n - Suc i)"
  by (simp add: bits_of_def)

lemma bits_of_0 [simp]: "bits_of 0 w = []"
  by (simp add: bits_of_def)

lemma bits_of_inject: "bits_of LENGTH('a) v = bits_of LENGTH('a) w \<Longrightarrow> v = (w :: 'a::len word)"
proof (rule bit_word_eqI)
  fix n assume n: "n < LENGTH('a)" and eq: "bits_of LENGTH('a) v = bits_of LENGTH('a) w"
  have "bits_of LENGTH('a) v ! (LENGTH('a) - Suc n) = bits_of LENGTH('a) w ! (LENGTH('a) - Suc n)"
    by (simp only: eq)
  with n show "bit v n = bit w n" by simp
qed

lemma byte_eq_iff: "bits_of 8 v = bits_of 8 w \<longleftrightarrow> v = (w :: byte)"
  using bits_of_inject [of v w] by auto

lemma bits_push_byte:
  assumes "n + 8 \<le> 32"
  shows "bits_of (n + 8) (push_bit 8 v OR ucast (b :: byte) :: 32 word) = bits_of n v @ bits_of 8 b"
  using assms
  by (intro nth_equalityI) (auto simp: bit_simps nth_append Suc_diff_Suc not_less algebra_simps
      dest: bit_imp_le_length intro!: arg_cong [where f = "bit v"])

lemma mask5: "(31 :: 'a::len word) = mask 5" and mask8: "(255 :: 'a::len word) = mask 8"
  by (simp_all add: mask_eq_exp_minus_1)

lemma bits_split5: "bits_of (m + 5) v = bits_of 5 (drop_bit m v AND 31 :: 32 word) @ bits_of m v"
  by (intro nth_equalityI) (auto simp: mask5 bit_simps nth_append algebra_simps)

lemma bits_pad5:
  assumes "r \<le> 5"
  shows "bits_of 5 (push_bit (5 - r) v AND 31 :: 32 word) = bits_of r v @ replicate (5 - r) False"
  using assms
  by (intro nth_equalityI) (auto simp: mask5 bit_simps nth_append not_less intro!: arg_cong [where f = "bit v"])

lemma bits_push5:
  assumes "n + 5 \<le> 32" and "\<And>i. 5 \<le> i \<Longrightarrow> \<not> bit u i"
  shows "bits_of (n + 5) (push_bit 5 v OR u :: 32 word) = bits_of n v @ bits_of 5 u"
  using assms
  by (intro nth_equalityI) (auto simp: bit_simps nth_append not_less algebra_simps
      intro!: arg_cong [where f = "bit v"])

lemma bits_push_symbol:
  assumes "n + 5 \<le> 32" and "k < 32"
  shows "bits_of (n + 5) (push_bit 5 v OR of_nat k :: 32 word) = bits_of n v @ bits_of 5 (of_nat k :: 32 word)"
proof (rule bits_push5 [OF assms(1)])
  fix i :: nat
  have "of_nat k = (of_nat k AND 31 :: 32 word)"
    using assms(2) by (simp add: mask5 flip: take_bit_eq_mask) (simp add: take_bit_of_nat take_bit_nat_eq_self)
  then show "\<not> bit (of_nat k :: 32 word) i" if "5 \<le> i"
    using that by (metis bit_and_iff bit_mask_iff mask5 not_less)
qed

lemma bits_split8: "bits_of (m + 8) v = bits_of 8 (ucast (drop_bit m v AND 255 :: 32 word) :: byte) @ bits_of m v"
  by (intro nth_equalityI) (auto simp: mask8 bit_simps nth_append algebra_simps)

section \<open>The alphabet\<close>

lemma length_alphabet [simp]: "length alphabet = 32"
  by (simp add: alphabet_def)

lemma lookup_alphabet [simp]: "i < 32 \<Longrightarrow> lookup (alphabet ! i) = Some i"
proof -
  assume "i < 32"
  then have "(alphabet ! i, i) \<in> set (zip alphabet [0..<32])"
    by (auto simp: in_set_zip intro!: exI [of _ i])
  moreover have "distinct (map fst (zip alphabet [0..<32]))"
    by (simp add: alphabet_def)
  ultimately show ?thesis by (simp add: lookup_def)
qed

lemma toUpperCase_alphabet: "set s \<subseteq> set alphabet \<Longrightarrow> toUpperCase s = s"
  unfolding toUpperCase_def by (rule map_idI) (auto simp: alphabet_def)

lemma symbol_less: "unat (v AND 31 :: 32 word) < 32"
proof -
  have "unat (v AND 31) = take_bit 5 (unat v)"
    by (simp add: mask5 unsigned_take_bit_eq flip: take_bit_eq_mask)
  then show ?thesis using take_bit_nat_less_exp [of 5 "unat v"] by simp
qed

definition symbol_bits :: "char \<Rightarrow> bool list" where
  "symbol_bits c = bits_of 5 (of_nat (the (lookup c)) :: 32 word)"

lemma symbol_bits_nth [simp]: "symbol_bits (alphabet ! unat (v AND 31 :: 32 word)) = bits_of 5 (v AND 31)"
  by (simp add: symbol_bits_def symbol_less)

lemma symbol_in_alphabet [simp]: "alphabet ! unat (v AND 31 :: 32 word) \<in> set alphabet"
  by (rule nth_mem) (simp add: symbol_less)

section \<open>Encoding and decoding\<close>

abbreviation stream :: "byte list \<Rightarrow> bool list" where
  "stream bs \<equiv> concat (map (bits_of 8) bs)"

lemma encode_drain_bits:
  assumes "encode_drain v n = (cs, r)"
  shows "r < 5" and "bits_of n v = concat (map symbol_bits cs) @ bits_of r v" and "set cs \<subseteq> set alphabet"
proof -
  have "r < 5 \<and> bits_of n v = concat (map symbol_bits cs) @ bits_of r v \<and> set cs \<subseteq> set alphabet"
    using assms
  proof (induction v n arbitrary: cs r rule: encode_drain.induct)
    case (1 v n)
    show ?case
    proof (cases "5 \<le> n")
      case True
      obtain cs' r' where rec: "encode_drain v (n - 5) = (cs', r')" by (rule prod.exhaust)
      have n: "n = (n - 5) + 5" using True by simp
      have "cs = alphabet ! unat (drop_bit (n - 5) v AND 31) # cs'" "r = r'"
        using 1(2) True rec by (simp_all add: encode_drain.simps [of v n])
      moreover have "bits_of n v = bits_of 5 (drop_bit (n - 5) v AND 31) @ bits_of (n - 5) v"
        by (subst n) (rule bits_split5)
      ultimately show ?thesis using 1(1) [OF True rec] by simp
    next
      case False
      then show ?thesis using 1(2) by (simp add: encode_drain.simps [of v n])
    qed
  qed
  then show "r < 5" and "bits_of n v = concat (map symbol_bits cs) @ bits_of r v" and "set cs \<subseteq> set alphabet"
    by simp_all
qed

lemma encode_bytes_bits:
  assumes "r < 5"
  shows "set (encode_bytes v r bs) \<subseteq> set alphabet \<and>
    (\<exists>k<5. concat (map symbol_bits (encode_bytes v r bs)) = bits_of r v @ stream bs @ replicate k False)"
  using assms
proof (induction bs arbitrary: v r)
  case Nil
  then show ?case by (auto simp: bits_pad5 intro: exI [of _ "5 - r"] exI [of _ 0])
next
  case (Cons b bs)
  let ?v = "push_bit 8 v OR ucast b :: 32 word"
  obtain cs r' where d: "encode_drain ?v (r + 8) = (cs, r')" by (rule prod.exhaust)
  have "bits_of (r + 8) ?v = bits_of r v @ bits_of 8 b" using Cons.prems by (intro bits_push_byte) simp
  then show ?case
    using Cons.IH [OF encode_drain_bits(1) [OF d], of ?v] encode_drain_bits(2,3) [OF d] d by auto
qed

lemma decode_chars_bits:
  assumes "s < 8" and "set cs \<subseteq> set alphabet"
  shows "\<exists>rest. length rest < 8 \<and>
    stream (decode_chars w s cs) @ rest = bits_of s w @ concat (map symbol_bits cs)"
  using assms
proof (induction cs arbitrary: w s)
  case Nil
  then show ?case by (intro exI [of _ "bits_of s w"]) simp
next
  case (Cons c cs)
  then obtain i where i: "i < 32" "c = alphabet ! i" by (auto simp: in_set_conv_nth)
  let ?w = "push_bit 5 w OR of_nat i :: 32 word"
  have bits: "bits_of (s + 5) ?w = bits_of s w @ symbol_bits c"
    using Cons.prems(1) i by (simp add: bits_push_symbol symbol_bits_def)
  show ?case
  proof (cases "8 \<le> s + 5")
    case True
    then have "bits_of (s + 5) ?w = bits_of 8 (ucast (drop_bit (s + 5 - 8) ?w AND 255) :: byte) @ bits_of (s + 5 - 8) ?w"
      using bits_split8 [of "s + 5 - 8" ?w] by (simp only: le_add_diff_inverse2)
    moreover obtain rest where "length rest < 8"
      "stream (decode_chars ?w (s + 5 - 8) cs) @ rest = bits_of (s + 5 - 8) ?w @ concat (map symbol_bits cs)"
      using Cons.IH [of "s + 5 - 8" ?w] Cons.prems by (auto simp: less_imp_diff_less)
    moreover have "decode_chars w s (c # cs) =
        ucast (drop_bit (s + 5 - 8) ?w AND 255) # decode_chars ?w (s + 5 - 8) cs"
      using True i by (simp add: Let_def)
    ultimately show ?thesis using bits by (intro exI [of _ rest]) simp
  next
    case False
    then show ?thesis
      using Cons.IH [of "s + 5" ?w] Cons.prems i bits by (simp add: Let_def)
  qed
qed

lemma length_stream [simp]: "length (stream bs) = 8 * length bs"
  by (induction bs) simp_all

lemma stream_inject: "length bs = length cs \<Longrightarrow> stream bs = stream cs \<Longrightarrow> bs = cs"
  by (induction bs cs rule: list_induct2) (simp_all add: byte_eq_iff)

lemma stream_prefix:
  assumes "stream bs @ x = stream cs @ y" and "length x < 8" and "length y < 8"
  shows "bs = cs"
proof -
  have "8 * length bs + length x = 8 * length cs + length y"
    using arg_cong [OF assms(1), of length] by simp
  with assms(2,3) have len: "length bs = length cs" by linarith
  with assms(1) have "stream bs = stream cs" by (simp add: append_eq_append_conv)
  with len show ?thesis by (rule stream_inject)
qed

text \<open>C40. Base32 loses nothing: decoding the encoding of any buffer gives the buffer back, the
  encoding uses the thirty-two letters of the alphabet only, and has five bits to a letter, rounded
  up; neither loop ever shifts a bit of its input out of the 32-bit accumulator.\<close>

theorem base32_roundtrip:
  "decodeBase32 (encodeBase32 buffer) = buffer \<and> set (encodeBase32 buffer) \<subseteq> set alphabet \<and>
   length (encodeBase32 buffer) = (8 * length buffer + 4) div 5"
proof -
  obtain k where k: "k < 5" and alpha: "set (encodeBase32 buffer) \<subseteq> set alphabet"
    and enc: "concat (map symbol_bits (encodeBase32 buffer)) = stream buffer @ replicate k False"
    using encode_bytes_bits [of 0 0 buffer] by (auto simp: encodeBase32_def)
  obtain rest where "length rest < 8"
    and "stream (decode_chars 0 0 (encodeBase32 buffer)) @ rest = stream buffer @ replicate k False"
    using decode_chars_bits [of 0 "encodeBase32 buffer" 0] alpha enc by auto
  then have "decodeBase32 (encodeBase32 buffer) = buffer"
    using k alpha by (auto simp: decodeBase32_def toUpperCase_alphabet intro: stream_prefix)
  moreover have "5 * length (encodeBase32 buffer) = 8 * length buffer + k"
  proof -
    have "length (concat (map symbol_bits cs)) = 5 * length cs" for cs
      by (induction cs) (simp_all add: symbol_bits_def)
    with arg_cong [OF enc, of length] show ?thesis by simp
  qed
  with k have "length (encodeBase32 buffer) = (8 * length buffer + 4) div 5" by linarith
  ultimately show ?thesis using alpha by simp
qed

section \<open>The six digits\<close>

definition decimal_digit :: "char \<Rightarrow> bool" where
  "decimal_digit c \<longleftrightarrow> 48 \<le> (of_char c :: nat) \<and> (of_char c :: nat) \<le> 57"

lemma is_digit_digit: "n < 10 \<Longrightarrow> decimal_digit (digit n)"
  by (simp add: decimal_digit_def digit_def)

lemma decimal_digits: "list_all decimal_digit (decimal n)"
  by (induction n rule: decimal.induct) (simp add: decimal.simps is_digit_digit)

lemma decimal_length: "n < 10 ^ k \<Longrightarrow> 0 < k \<Longrightarrow> length (decimal n) \<le> k"
proof (induction n arbitrary: k rule: decimal.induct)
  case (1 n)
  show ?case
  proof (cases "n < 10")
    case True
    then show ?thesis using 1(3) by (simp add: decimal.simps)
  next
    case False
    then obtain j where j: "k = Suc j" "0 < j" using 1(2,3) by (cases k; cases "k - 1") auto
    then have "n div 10 < 10 ^ j" using 1(2) by (simp add: less_mult_imp_div_less mult.commute)
    then show ?thesis using 1(1) [OF False, of j] j False by (simp add: decimal.simps [of n])
  qed
qed

text \<open>The top bit is masked out, so the signed 32-bit result is not negative and JavaScript's
  remainder is the mathematical one.\<close>

lemma truncate_hash_nonneg: "0 \<le> sint (truncate_hash h)"
proof -
  have small: "\<not> bit (push_bit 24 (a AND 0x7f) OR push_bit 16 (b AND 0xff) OR push_bit 8 (c AND 0xff)
      OR (d AND 0xff) :: 32 word) 31" for a b c d
  proof -
    have "(0x7f :: 32 word) = mask 7" by (simp add: mask_eq_exp_minus_1)
    then show ?thesis by (simp add: bit_simps mask8)
  qed
  have sign: "0 \<le> sint w" if "\<not> bit w 31" for w :: "32 word"
    using that bit_last_iff [of w] by simp
  show ?thesis unfolding truncate_hash_def Let_def by (rule sign) (rule small)
qed

lemma padded_digits:
  assumes "n < 10 ^ 6"
  shows "length (padStart 6 (CHR ''0'') (decimal n)) = 6"
    and "list_all decimal_digit (padStart 6 (CHR ''0'') (decimal n))"
proof -
  show "length (padStart 6 (CHR ''0'') (decimal n)) = 6"
    using decimal_length [OF assms] by (simp add: padStart_def)
  show "list_all decimal_digit (padStart 6 (CHR ''0'') (decimal n))"
    by (simp add: padStart_def decimal_digits list.pred_set decimal_digit_def)
      (use decimal_digits in \<open>auto simp: list.pred_set decimal_digit_def\<close>)
qed

lemma generateTotpCode_digits:
  assumes "generateTotpCode H secret timeStep = Some code"
  shows "length code = 6" and "list_all decimal_digit code"
proof -
  obtain v :: int where "code = padStart 6 (CHR ''0'') (decimal (nat (v mod 10 ^ 6)))"
    using assms by (auto simp: generateTotpCode_def Let_def TOTP_DIGITS_def split: option.splits)
  moreover have "nat (v mod 10 ^ 6) < 10 ^ 6" by (simp add: nat_less_iff)
  ultimately show "length code = 6" and "list_all decimal_digit code"
    by (simp_all only: padded_digits)
qed

lemma generateTotpCode_defined:
  "(\<exists>code. generateTotpCode H secret timeStep = Some code) \<longleftrightarrow> 0 \<le> timeStep \<and> timeStep < 2 ^ 32"
  by (simp add: generateTotpCode_def timeBuffer_def Let_def)

section \<open>The acceptance window\<close>

definition current_step :: "timestamp \<Rightarrow> int" where
  "current_step date_now = date_now div 1000 div TOTP_PERIOD"

lemma step_offset: "(t + d * TOTP_PERIOD) div TOTP_PERIOD = t div TOTP_PERIOD + d"
  by (simp add: TOTP_PERIOD_def)

lemma verify_steps_iff:
  assumes "\<And>d. d \<in> set ds \<Longrightarrow> \<exists>c. generateTotpCode H secret (t div TOTP_PERIOD + d) = Some c"
    and "length code = 6"
  shows "verify_steps H secret code t ds =
    Some (\<exists>d\<in>set ds. generateTotpCode H secret (t div TOTP_PERIOD + d) = Some code)"
  using assms
proof (induction ds)
  case (Cons d ds)
  then obtain c where c: "generateTotpCode H secret (t div TOTP_PERIOD + d) = Some c" by auto
  then have "length c = length code" using Cons.prems(2) by (simp add: generateTotpCode_digits)
  then show ?case
    using Cons c by (auto simp: step_offset timingSafeEqual_def split: bool.splits)
qed simp

lemma window_offsets: "[- TOTP_WINDOW .. TOTP_WINDOW] = [-1, 0, 1]"
  by (simp add: TOTP_WINDOW_def upto_rec1)

text \<open>A code is accepted exactly when it is the code of the current thirty-second step or of a
  neighbouring one, every code is six decimal digits, and a code of another length raises instead
  of being compared; so a freshly generated code is accepted at once and still thirty seconds later.\<close>

lemma totp_window:
  assumes "1 \<le> current_step date_now" and "current_step date_now + 1 < 2 ^ 32"
  shows "(length code = 6 \<longrightarrow>
      verifyTotp H date_now secret code =
        Some (code \<in> {c. \<exists>d\<in>{-1, 0, 1}. generateTotpCode H secret (current_step date_now + d) = Some c})) \<and>
    (length code \<noteq> 6 \<longrightarrow> verifyTotp H date_now secret code = None) \<and>
    (\<forall>c. generateTotpCode H secret (current_step date_now) = Some c \<longrightarrow>
       length c = 6 \<and> list_all decimal_digit c \<and>
       verifyTotp H date_now secret c = Some True \<and>
       (current_step date_now + 2 < 2 ^ 32 \<longrightarrow> verifyTotp H (date_now + 30000) secret c = Some True))"
proof -
  have defd: "\<exists>c. generateTotpCode H secret (date div 1000 div TOTP_PERIOD + d) = Some c"
    if "d \<in> set [-1, 0, 1]" "1 \<le> current_step date" "current_step date + 1 < 2 ^ 32" for date d
    using that by (auto simp: generateTotpCode_defined current_step_def)
  have accept: "verifyTotp H date secret c =
      Some (\<exists>d\<in>{-1, 0, 1}. generateTotpCode H secret (current_step date + d) = Some c)"
    if "length c = 6" "1 \<le> current_step date" "current_step date + 1 < 2 ^ 32" for date c
  proof -
    have "verify_steps H secret c (date div 1000) [-1, 0, 1] =
        Some (\<exists>d\<in>set [-1, 0, 1]. generateTotpCode H secret (date div 1000 div TOTP_PERIOD + d) = Some c)"
      using that by (intro verify_steps_iff defd) auto
    then show ?thesis by (simp only: verifyTotp_def window_offsets current_step_def list.set)
  qed
  have "verifyTotp H date_now secret code = None" if "length code \<noteq> 6"
  proof -
    obtain c where c: "generateTotpCode H secret (date_now div 1000 div TOTP_PERIOD + - 1) = Some c"
      using defd [of "- 1" date_now] assms by auto
    then show ?thesis
      using that generateTotpCode_digits(1) [OF c]
      by (simp add: verifyTotp_def window_offsets timingSafeEqual_def step_offset [of _ "- 1", simplified])
  qed
  moreover have "current_step (date_now + 30000) = current_step date_now + 1"
    by (simp add: current_step_def TOTP_PERIOD_def)
  ultimately show ?thesis
    using assms accept generateTotpCode_digits [of H secret "current_step date_now"]
    by (auto simp: TOTP_DIGITS_def)
qed


text \<open>A stand-in for HMAC-SHA1, of the right length, to evaluate the code on.\<close>

definition sample_hmac :: hmac where
  "sample_hmac key message = replicate 8 0x9d @ take 11 key @ replicate (11 - length key) 0x3c @ [0x04 + last message]"

lemma sample_code: "generateTotpCode sample_hmac ''MZXW6YQ'' 56666666 = Some ''580540''"
proof -
  have d: "decodeBase32 ''MZXW6YQ'' = [0x66, 0x6f, 0x6f, 0x62]" by code_simp
  have b: "timeBuffer 56666666 = Some [0, 0, 0, 0, 3, 0x60, 0xaa, 0x2a]" by (simp add: timeBuffer_def)
  have h: "sample_hmac [0x66, 0x6f, 0x6f, 0x62] [0, 0, 0, 0, 3, 0x60, 0xaa, 0x2a] =
      [0x9d, 0x9d, 0x9d, 0x9d, 0x9d, 0x9d, 0x9d, 0x9d, 0x66, 0x6f,
       0x6f, 0x62, 0x3c, 0x3c, 0x3c, 0x3c, 0x3c, 0x3c, 0x3c, 0x2e]"
    by (simp add: sample_hmac_def numeral_eq_Suc)
  have t: "truncate_hash [0x9d, 0x9d, 0x9d, 0x9d, 0x9d, 0x9d, 0x9d, 0x9d, 0x66, 0x6f,
       0x6f, 0x62, 0x3c, 0x3c, 0x3c, 0x3c, 0x3c, 0x3c, 0x3c, 0x2e] = 1010580540"
    by (simp add: truncate_hash_def byte_at_def)
  have m: "padStart 6 (CHR ''0'') (decimal 580540) = ''580540''"
    by (simp add: padStart_def decimal.simps digit_def)
      (simp add: char_of_def bit_0)
  show ?thesis by (simp add: generateTotpCode_def TOTP_DIGITS_def d b h t m)
qed

end
