(* ===== verification/Otp.thy ===== *)
theory Otp
  imports Totp Store
begin

text \<open>
  One-time codes of \<^verbatim>\<open>src/modules/auth/services/otp.service.ts\<close>.  The Redis server is not code of
  the repository: its commands are the fields of the record \<open>redis\<close>, an argument of every
  operation, and what the service relies on is the locale \<open>redis_server\<close>, stated over the entries
  of the key space and interpreted on \<open>kv_redis\<close>.  The commands of one call happen at one instant
  \<open>t\<close>.  The SHA-256 digest and the random source are arguments.
\<close>

section \<open>Exceptions of the identity services\<close>

datatype error_code = UNAUTHORIZED | INVALID_CREDENTIALS | ACCOUNT_LOCKED | TOKEN_EXPIRED | TOKEN_INVALID
  | SESSION_REVOKED | OTP_EXPIRED | OTP_MAX_ATTEMPTS_EXCEEDED | OTP_INVALID
  | PIN_LOCKED | PIN_NOT_SET | PIN_INVALID

datatype auth_msg = Plain string | RemainingAttempts int | LockedMinutes int

datatype auth_err = Unauthorized auth_msg error_code | RateLimited int | App err

section \<open>Redis\<close>

datatype rvalue = Text string | Counter int

record 's redis =
  rget :: "timestamp \<Rightarrow> string \<Rightarrow> 's \<Rightarrow> string option"
  rttl :: "timestamp \<Rightarrow> string \<Rightarrow> 's \<Rightarrow> int"
  rsetex :: "timestamp \<Rightarrow> string \<Rightarrow> int \<Rightarrow> string \<Rightarrow> 's \<Rightarrow> 's"
  rdel :: "string list \<Rightarrow> 's \<Rightarrow> 's"
  rincr :: "timestamp \<Rightarrow> string \<Rightarrow> 's \<Rightarrow> int \<times> 's"
  rexpire :: "timestamp \<Rightarrow> string \<Rightarrow> int \<Rightarrow> 's \<Rightarrow> 's"

definition live :: "timestamp \<Rightarrow> timestamp option \<Rightarrow> bool" where
  "live t e = (case e of None \<Rightarrow> True | Some x \<Rightarrow> t < x)"

section \<open>The service\<close>

record otp_config =
  codeLength :: nat
  ttlSeconds :: int
  maxAttempts :: int
  cooldownSeconds :: int

definition otpKey :: "string \<Rightarrow> string \<Rightarrow> string" where
  "otpKey purpose destination = ''otp:'' @ purpose @ '':'' @ destination"

definition attemptsKey :: "string \<Rightarrow> string \<Rightarrow> string" where
  "attemptsKey purpose destination = ''otp-attempts:'' @ purpose @ '':'' @ destination"

definition cooldownKey :: "string \<Rightarrow> string \<Rightarrow> string" where
  "cooldownKey purpose destination = ''otp-cooldown:'' @ purpose @ '':'' @ destination"

definition generateCode :: "otp_config \<Rightarrow> (nat \<Rightarrow> nat \<Rightarrow> nat) \<Rightarrow> string" where
  "generateCode cfg randomInt = decimal (randomInt (10 ^ (codeLength cfg - 1)) (10 ^ codeLength cfg))"

definition otp_generate ::
  "'s redis \<Rightarrow> otp_config \<Rightarrow> (string \<Rightarrow> string) \<Rightarrow> (nat \<Rightarrow> nat \<Rightarrow> nat) \<Rightarrow> timestamp \<Rightarrow> string \<Rightarrow> string \<Rightarrow> 's
    \<Rightarrow> (auth_err + string \<times> int) \<times> 's" where
  "otp_generate Q cfg sha256 randomInt t destination purpose s =
     (let cooldownTtl = rttl Q t (cooldownKey purpose destination) s
      in if 0 < cooldownTtl then (Inl (RateLimited cooldownTtl), s)
         else let code = generateCode cfg randomInt;
                  s1 = rsetex Q t (otpKey purpose destination) (ttlSeconds cfg) (sha256 code) s;
                  s2 = rdel Q [attemptsKey purpose destination] s1;
                  s3 = rsetex Q t (cooldownKey purpose destination) (cooldownSeconds cfg) ''1'' s2
              in (Inr (code, ttlSeconds cfg), s3))"

definition otp_verify ::
  "'s redis \<Rightarrow> otp_config \<Rightarrow> (string \<Rightarrow> string) \<Rightarrow> timestamp \<Rightarrow> string \<Rightarrow> string \<Rightarrow> string \<Rightarrow> 's
    \<Rightarrow> (auth_err + bool) \<times> 's" where
  "otp_verify Q cfg sha256 t destination purpose code s =
     (case rget Q t (otpKey purpose destination) s of
        None \<Rightarrow> (Inl (Unauthorized (Plain ''Invalid or expired code'') OTP_EXPIRED), s)
      | Some storedHash \<Rightarrow>
          if storedHash = '''' then (Inl (Unauthorized (Plain ''Invalid or expired code'') OTP_EXPIRED), s)
          else
          let (newAttempts, s1) = rincr Q t (attemptsKey purpose destination) s;
              otpTtl = rttl Q t (otpKey purpose destination) s1;
              s2 = (if newAttempts = 1 \<and> 0 < otpTtl
                    then rexpire Q t (attemptsKey purpose destination) otpTtl s1 else s1)
          in if maxAttempts cfg < newAttempts
             then (Inl (Unauthorized (Plain ''Maximum OTP verification attempts exceeded'') OTP_MAX_ATTEMPTS_EXCEEDED),
                   rdel Q [otpKey purpose destination, attemptsKey purpose destination] s2)
             else if sha256 code \<noteq> storedHash
             then (Inl (Unauthorized
                     (if 0 < maxAttempts cfg - newAttempts then RemainingAttempts (maxAttempts cfg - newAttempts)
                      else Plain ''Invalid or expired code'') OTP_INVALID), s2)
             else (Inr True, rdel Q [otpKey purpose destination, attemptsKey purpose destination] s2))"

text \<open>A sequence of guesses for one destination and purpose, each with the instant it is made.\<close>

fun otp_guesses ::
  "'s redis \<Rightarrow> otp_config \<Rightarrow> (string \<Rightarrow> string) \<Rightarrow> string \<Rightarrow> string \<Rightarrow> (timestamp \<times> string) list \<Rightarrow> 's
    \<Rightarrow> (auth_err + bool) list \<times> 's" where
  "otp_guesses Q cfg sha256 destination purpose [] s = ([], s)"
| "otp_guesses Q cfg sha256 destination purpose ((t, code) # guesses) s =
     (let (result, s1) = otp_verify Q cfg sha256 t destination purpose code s;
          (results, s2) = otp_guesses Q cfg sha256 destination purpose guesses s1
      in (result # results, s2))"

section \<open>What the server promises\<close>

locale redis_server =
  fixes Q :: "'s redis" and entry :: "'s \<Rightarrow> string \<Rightarrow> (rvalue \<times> timestamp option) option"
  assumes get_text: "entry s k = Some (Text v, e) \<Longrightarrow> rget Q t k s = (if live t e then Some v else None)"
    and get_none: "entry s k = None \<Longrightarrow> rget Q t k s = None"
    and ttl_left: "entry s k = Some (rv, Some x) \<Longrightarrow> t < x \<Longrightarrow> \<bar>1000 * rttl Q t k s - (x - t)\<bar> < 1000"
    and ttl_gone: "entry s k = None \<Longrightarrow> rttl Q t k s < 0"
    and setex: "0 < n \<Longrightarrow> entry (rsetex Q t k n v s) = (entry s)(k \<mapsto> (Text v, Some (t + 1000 * n)))"
    and del: "entry (rdel Q ks s) k = (if k \<in> set ks then None else entry s k)"
    and incr_fresh: "entry s k = None \<Longrightarrow>
      fst (rincr Q t k s) = 1 \<and> entry (snd (rincr Q t k s)) = (entry s)(k \<mapsto> (Counter 1, None))"
    and incr_live: "entry s k = Some (Counter n, e) \<Longrightarrow> live t e \<Longrightarrow>
      fst (rincr Q t k s) = n + 1 \<and> entry (snd (rincr Q t k s)) = (entry s)(k \<mapsto> (Counter (n + 1), e))"
    and expire: "entry s k = Some (rv, e) \<Longrightarrow> live t e \<Longrightarrow> 0 < n \<Longrightarrow>
      entry (rexpire Q t k n s) = (entry s)(k \<mapsto> (rv, Some (t + 1000 * n)))"

lemma otp_keys_distinct [simp]:
  "otpKey p d \<noteq> attemptsKey p' d'" "attemptsKey p' d' \<noteq> otpKey p d"
  "otpKey p d \<noteq> cooldownKey p' d'" "cooldownKey p' d' \<noteq> otpKey p d"
  "attemptsKey p d \<noteq> cooldownKey p' d'" "cooldownKey p' d' \<noteq> attemptsKey p d"
  by (simp_all add: otpKey_def attemptsKey_def cooldownKey_def)

context redis_server
begin

text \<open>The two situations a destination is in between guesses: no code is waiting, or one is, with
  \<open>k\<close> wrong guesses counted by a counter that outlives every instant up to \<open>horizon\<close>.\<close>

definition spent :: "string \<Rightarrow> string \<Rightarrow> 's \<Rightarrow> bool" where
  "spent p d s \<longleftrightarrow> entry s (otpKey p d) = None"

definition waiting :: "string \<Rightarrow> string \<Rightarrow> string \<Rightarrow> timestamp \<Rightarrow> int \<Rightarrow> 's \<Rightarrow> bool" where
  "waiting p d h expiry k s \<longleftrightarrow>
     entry s (otpKey p d) = Some (Text h, Some expiry) \<and>
     (if k = 0 then entry s (attemptsKey p d) = None
      else \<exists>c. entry s (attemptsKey p d) = Some (Counter k, Some c) \<and> expiry - 1000 < c)"

lemma verify_spent:
  assumes "spent p d s"
  shows "otp_verify Q cfg H t d p code s = (Inl (Unauthorized (Plain ''Invalid or expired code'') OTP_EXPIRED), s)"
  using assms by (simp add: otp_verify_def spent_def get_none)

lemma deleted_spent: "spent p d (rdel Q [otpKey p d, attemptsKey p d] s)"
  by (simp add: spent_def del)

lemma waiting_get:
  assumes "waiting p d h expiry k s" and "t < expiry"
  shows "rget Q t (otpKey p d) s = Some h"
  using assms get_text [of s "otpKey p d" h "Some expiry" t] by (simp add: waiting_def live_def)

text \<open>One guess is counted exactly once, and the counter still outlives the horizon.\<close>

lemma waiting_counted:
  assumes w: "waiting p d h expiry k s" and k: "0 \<le> k" and t: "t \<le> expiry - 1000"
    and i: "rincr Q t (attemptsKey p d) s = (n, s1)"
    and s2: "s2 = (if n = 1 \<and> 0 < rttl Q t (otpKey p d) s1
               then rexpire Q t (attemptsKey p d) (rttl Q t (otpKey p d) s1) s1 else s1)"
  shows "n = k + 1 \<and> waiting p d h expiry (k + 1) s2"
proof (cases "k = 0")
  case True
  then have n: "n = 1" and s1: "entry s1 = (entry s)(attemptsKey p d \<mapsto> (Counter 1, None))"
    using w incr_fresh [of s "attemptsKey p d" t] i by (auto simp: waiting_def)
  have otp: "entry s1 (otpKey p d) = Some (Text h, Some expiry)" using w s1 by (simp add: waiting_def)
  let ?ttl = "rttl Q t (otpKey p d) s1"
  have ttl: "\<bar>1000 * ?ttl - (expiry - t)\<bar> < 1000" using ttl_left [OF otp] t by simp
  with t have pos: "0 < ?ttl" by linarith
  have "entry s2 = (entry s1)(attemptsKey p d \<mapsto> (Counter 1, Some (t + 1000 * ?ttl)))"
    using s2 n pos by (simp add: expire [where rv = "Counter 1" and e = None] s1 live_def)
  with ttl show ?thesis using True n otp by (auto simp: waiting_def)
next
  case False
  then obtain c where c: "entry s (attemptsKey p d) = Some (Counter k, Some c)" "expiry - 1000 < c"
    using w by (auto simp: waiting_def)
  have "live t (Some c)" using c(2) t by (simp add: live_def)
  from incr_live [OF c(1) this] i
  have n: "n = k + 1" and s1: "entry s1 = (entry s)(attemptsKey p d \<mapsto> (Counter (k + 1), Some c))" by simp_all
  moreover have "s2 = s1" using s2 n False by simp
  ultimately show ?thesis using w c(2) k by (auto simp: waiting_def)
qed

lemma verify_waiting:
  assumes w: "waiting p d h expiry k s" and k: "0 \<le> k" and t: "t \<le> expiry - 1000" and h: "h \<noteq> ''''"
    and v: "otp_verify Q cfg H t d p code s = (r, s')"
  shows "if maxAttempts cfg \<le> k then r \<noteq> Inr True \<and> spent p d s'
    else if H code = h then r = Inr True \<and> spent p d s'
    else r \<noteq> Inr True \<and> waiting p d h expiry (k + 1) s'"
proof -
  obtain n s1 where i: "rincr Q t (attemptsKey p d) s = (n, s1)" by (rule prod.exhaust)
  define s2 where "s2 = (if n = 1 \<and> 0 < rttl Q t (otpKey p d) s1
    then rexpire Q t (attemptsKey p d) (rttl Q t (otpKey p d) s1) s1 else s1)"
  have n: "n = k + 1" and w2: "waiting p d h expiry (k + 1) s2"
    using waiting_counted [OF w k t i s2_def] by auto
  have get: "rget Q t (otpKey p d) s = Some h" using waiting_get [OF w] t by simp
  have "(r, s') =
      (if maxAttempts cfg < n
       then (Inl (Unauthorized (Plain ''Maximum OTP verification attempts exceeded'') OTP_MAX_ATTEMPTS_EXCEEDED),
             rdel Q [otpKey p d, attemptsKey p d] s2)
       else if H code \<noteq> h
       then (Inl (Unauthorized (if 0 < maxAttempts cfg - n then RemainingAttempts (maxAttempts cfg - n)
                   else Plain ''Invalid or expired code'') OTP_INVALID), s2)
       else (Inr True, rdel Q [otpKey p d, attemptsKey p d] s2))"
    unfolding v [symmetric] otp_verify_def get i option.case prod.case Let_def s2_def using h by simp
  then show ?thesis using n w2 deleted_spent [of p d s2] by (auto split: if_splits)
qed

lemma guesses_spent:
  assumes "spent p d s" and "i < length gs"
  shows "fst (otp_guesses Q cfg H d p gs s) ! i \<noteq> Inr True"
  using assms
proof (induction gs arbitrary: i)
  case (Cons g gs)
  then show ?case by (cases g; cases i) (auto simp: verify_spent case_prod_beta)
qed simp

lemma guesses_waiting:
  assumes "waiting p d h expiry k s" and "0 \<le> k" and "k \<le> maxAttempts cfg" and "h \<noteq> ''''"
    and "\<And>t c. (t, c) \<in> set gs \<Longrightarrow> t \<le> expiry - 1000" and "i < length gs"
  shows "fst (otp_guesses Q cfg H d p gs s) ! i = Inr True \<longleftrightarrow>
    int i < maxAttempts cfg - k \<and> H (snd (gs ! i)) = h \<and> (\<forall>j<i. H (snd (gs ! j)) \<noteq> h)"
  using assms
proof (induction gs arbitrary: k s i)
  case (Cons g gs)
  obtain t c where g: "g = (t, c)" by (rule prod.exhaust)
  obtain r s' where v: "otp_verify Q cfg H t d p c s = (r, s')" by (rule prod.exhaust)
  have t: "t \<le> expiry - 1000" using Cons.prems(5) g by auto
  note step = verify_waiting [OF Cons.prems(1,2) t Cons.prems(4) v]
  have res: "fst (otp_guesses Q cfg H d p (g # gs) s) = r # fst (otp_guesses Q cfg H d p gs s')"
    by (simp add: g v case_prod_beta)
  show ?case
  proof (cases i)
    case 0
    show ?thesis
      unfolding 0 res nth_Cons_0 using step Cons.prems(3) by (auto simp: g split: if_splits)
  next
    case (Suc j)
    then have j: "j < length gs" using Cons.prems(6) by simp
    have later: "(\<forall>m<Suc j. H (snd ((g # gs) ! m)) \<noteq> h) \<longleftrightarrow> H c \<noteq> h \<and> (\<forall>m<j. H (snd (gs ! m)) \<noteq> h)"
      by (auto simp: g nth_Cons split: nat.splits)
    show ?thesis
    proof (cases "maxAttempts cfg \<le> k \<or> H c = h")
      case True
      then have "spent p d s'" using step by (auto split: if_splits)
      then show ?thesis
        unfolding Suc res nth_Cons_Suc later using guesses_spent [OF _ j] True Cons.prems(3) by auto
    next
      case False
      then have "waiting p d h expiry (k + 1) s'" using step by (auto split: if_splits)
      moreover have "x \<le> expiry - 1000" if "(x, y) \<in> set gs" for x y using Cons.prems(5) that by auto
      ultimately have "fst (otp_guesses Q cfg H d p gs s') ! j = Inr True \<longleftrightarrow>
          int j < maxAttempts cfg - (k + 1) \<and> H (snd (gs ! j)) = h \<and> (\<forall>m<j. H (snd (gs ! m)) \<noteq> h)"
        using Cons.IH [of "k + 1" s' j] Cons.prems(2,4) False j by simp
      then show ?thesis unfolding Suc res nth_Cons_Suc later using False by auto
    qed
  qed
qed simp

lemma generate_waiting:
  assumes "otp_generate Q cfg H randomInt t d p s = (Inr (code, n), s')"
    and "0 < ttlSeconds cfg" and "0 < cooldownSeconds cfg"
  shows "waiting p d (H code) (t + 1000 * ttlSeconds cfg) 0 s'"
    and "n = ttlSeconds cfg"
    and "entry s' (cooldownKey p d) = Some (Text ''1'', Some (t + 1000 * cooldownSeconds cfg))"
  using assms by (auto simp: otp_generate_def Let_def waiting_def setex del split: if_splits)

lemma generate_cooldown:
  assumes "entry s (cooldownKey p d) = Some (Text ''1'', Some e)" and "t \<le> e - 1000"
  shows "\<exists>w. otp_generate Q cfg H randomInt t d p s = (Inl (RateLimited w), s)"
proof -
  have "\<bar>1000 * rttl Q t (cooldownKey p d) s - (e - t)\<bar> < 1000" using ttl_left [OF assms(1)] assms(2) by simp
  with assms(2) have "0 < rttl Q t (cooldownKey p d) s" by linarith
  then show ?thesis by (simp add: otp_generate_def)
qed

end

section \<open>A server\<close>

type_synonym kv = "string \<Rightarrow> (rvalue \<times> timestamp option) option"

definition kv_live :: "timestamp \<Rightarrow> string \<Rightarrow> kv \<Rightarrow> (rvalue \<times> timestamp option) option" where
  "kv_live t k s = (case s k of Some (v, e) \<Rightarrow> if live t e then Some (v, e) else None | None \<Rightarrow> None)"

text \<open>\<open>TTL\<close> rounds the remaining milliseconds to the nearest second, as the server does.\<close>

definition kv_redis :: "kv redis" where
  "kv_redis =
     \<lparr>rget = (\<lambda>t k s. case kv_live t k s of Some (Text v, _) \<Rightarrow> Some v | _ \<Rightarrow> None),
      rttl = (\<lambda>t k s. case kv_live t k s of
                Some (_, Some e) \<Rightarrow> (e - t + 500) div 1000 | Some (_, None) \<Rightarrow> -1 | None \<Rightarrow> -2),
      rsetex = (\<lambda>t k n v s. s(k \<mapsto> (Text v, Some (t + 1000 * n)))),
      rdel = (\<lambda>ks s k. if k \<in> set ks then None else s k),
      rincr = (\<lambda>t k s. case kv_live t k s of
                 Some (Counter n, e) \<Rightarrow> (n + 1, s(k \<mapsto> (Counter (n + 1), e)))
               | _ \<Rightarrow> (1, s(k \<mapsto> (Counter 1, None)))),
      rexpire = (\<lambda>t k n s. case kv_live t k s of
                   Some (v, _) \<Rightarrow> s(k \<mapsto> (v, Some (t + 1000 * n))) | None \<Rightarrow> s)\<rparr>"

lemma nearest_second: "\<bar>1000 * ((m + 500) div 1000) - m\<bar> < (1000 :: int)"
proof -
  have "1000 * ((m + 500) div 1000) = m + 500 - (m + 500) mod 1000" by (rule minus_mod_eq_mult_div [symmetric])
  moreover have "0 \<le> (m + 500) mod 1000" "(m + 500) mod 1000 < 1000" by simp_all
  ultimately show ?thesis by linarith
qed

interpretation kv: redis_server kv_redis "\<lambda>s. s"
proof
  fix s :: kv and k rv x t
  assume "s k = Some (rv, Some x)" "t < x"
  then have "rttl kv_redis t k s = (x - t + 500) div 1000" by (simp add: kv_redis_def kv_live_def live_def)
  then show "\<bar>1000 * rttl kv_redis t k s - (x - t)\<bar> < 1000" by (simp only: nearest_second)
qed (auto simp: kv_redis_def kv_live_def live_def split: option.splits)

section \<open>Guessing a code\<close>

definition otp_defaults :: otp_config where
  "otp_defaults = \<lparr>codeLength = 6, ttlSeconds = 3600, maxAttempts = 5, cooldownSeconds = 60\<rparr>"

text \<open>C27. In the state right after a code was sent, let guesses arrive one after the other, all of them up to a
  second before the code expires: exactly one can succeed, the first correct one, and only if fewer
  than \<open>maxAttempts\<close> wrong ones came before it.  In particular a code works at most once, and once the
  attempts are used up not even the right code is accepted.  And no new code is sent up to a second
  before the resend delay is over.  Guesses that overlap, or that come in the last second, escape the
  limit: \<open>overlapping_guesses_exceed_limit\<close> and \<open>late_guess_exceeds_limit\<close> below.\<close>

theorem otp_guesses_bounded:
  assumes "redis_server Q entry"
    and "otp_generate Q cfg sha256 randomInt t0 destination purpose s0 = (Inr (code, n), s)"
    and "0 < ttlSeconds cfg" and "0 < cooldownSeconds cfg" and "0 \<le> maxAttempts cfg" and "sha256 code \<noteq> []"
    and "\<And>t c. (t, c) \<in> set guesses \<Longrightarrow> t \<le> t0 + 1000 * ttlSeconds cfg - 1000"
    and "t1 \<le> t0 + 1000 * cooldownSeconds cfg - 1000"
  shows "(\<forall>i. i < length guesses \<longrightarrow>
      (fst (otp_guesses Q cfg sha256 destination purpose guesses s) ! i = Inr True \<longleftrightarrow>
        int i < maxAttempts cfg \<and> sha256 (snd (guesses ! i)) = sha256 code \<and>
        (\<forall>j<i. sha256 (snd (guesses ! j)) \<noteq> sha256 code))) \<and>
    (\<exists>wait. otp_generate Q cfg sha256 randomInt' t1 destination purpose s = (Inl (RateLimited wait), s))"
proof -
  note gen = redis_server.generate_waiting [OF assms(1-4)]
  have "fst (otp_guesses Q cfg sha256 destination purpose guesses s) ! i = Inr True \<longleftrightarrow>
        int i < maxAttempts cfg \<and> sha256 (snd (guesses ! i)) = sha256 code \<and>
        (\<forall>j<i. sha256 (snd (guesses ! j)) \<noteq> sha256 code)" if "i < length guesses" for i
    using redis_server.guesses_waiting [OF assms(1) gen(1) _ assms(5,6) assms(7) that] by simp
  moreover have "\<exists>wait. otp_generate Q cfg sha256 randomInt' t1 destination purpose s = (Inl (RateLimited wait), s)"
    by (rule redis_server.generate_cooldown [OF assms(1) gen(3) assms(8)])
  ultimately show ?thesis by blast
qed

definition sample_guesses :: "(timestamp \<times> string) list" where
  "sample_guesses = [(1, ''1''), (2, ''100000''), (3, ''100000'')]"

theorem otp_guesses_bounded_witness:
  "let s = snd (otp_generate kv_redis otp_defaults (\<lambda>c. c) (\<lambda>a b. a) 0 ''x'' ''p'' (\<lambda>_. None));
       results = fst (otp_guesses kv_redis otp_defaults (\<lambda>c. c) ''x'' ''p'' sample_guesses s)
   in results ! 1 = Inr True \<and> results ! 2 \<noteq> Inr True"
proof -
  have c: "decimal 100000 = ''100000''"
    by (simp add: decimal.simps digit_def) (simp add: char_of_def bit_0)
  obtain s where g: "otp_generate kv_redis otp_defaults (\<lambda>c. c) (\<lambda>a b. a) 0 ''x'' ''p'' (\<lambda>_. None) =
      (Inr (''100000'', 3600), s)"
    by (simp add: otp_generate_def generateCode_def otp_defaults_def c kv_redis_def kv_live_def Let_def)
  have cfg: "0 < ttlSeconds otp_defaults" "0 < cooldownSeconds otp_defaults" "0 \<le> maxAttempts otp_defaults"
    by (simp_all add: otp_defaults_def)
  have times: "t \<le> 0 + 1000 * ttlSeconds otp_defaults - 1000" if "(t, x) \<in> set sample_guesses" for t x
    using that by (auto simp: sample_guesses_def otp_defaults_def)
  have early: "(0 :: int) \<le> 0 + 1000 * cooldownSeconds otp_defaults - 1000" by (simp add: otp_defaults_def)
  note spec = conjunct1 [OF otp_guesses_bounded [OF kv.redis_server_axioms g cfg _ times early], rule_format]
  have "fst (otp_guesses kv_redis otp_defaults (\<lambda>c. c) ''x'' ''p'' sample_guesses s) ! 1 = Inr True"
    by (subst spec) (auto simp: sample_guesses_def otp_defaults_def)
  moreover have "fst (otp_guesses kv_redis otp_defaults (\<lambda>c. c) ''x'' ''p'' sample_guesses s) ! 2 \<noteq> Inr True"
    by (subst spec) (auto simp: sample_guesses_def otp_defaults_def intro!: exI [of _ 1])
  ultimately show ?thesis by (simp add: g)
qed

section \<open>Overlapping requests\<close>

text \<open>
  The same call as the commands it sends one by one, so that requests can overlap between two
  commands.  Run without interruption it is \<open>otp_verify\<close>.  Overlapped, the attempt limit does not
  hold: a request that finds the counter above the limit deletes it, and requests that had already
  fetched the hash then start a new count.
\<close>

datatype verify_pc = Start | Fetched string | Counted string int | Bound string int | Done "auth_err + bool"

fun verify_step ::
  "'s redis \<Rightarrow> otp_config \<Rightarrow> (string \<Rightarrow> string) \<Rightarrow> timestamp \<Rightarrow> string \<Rightarrow> string \<Rightarrow> string \<Rightarrow> verify_pc \<Rightarrow> 's
    \<Rightarrow> verify_pc \<times> 's" where
  "verify_step Q cfg sha256 t destination purpose code Start s =
     (case rget Q t (otpKey purpose destination) s of
        None \<Rightarrow> (Done (Inl (Unauthorized (Plain ''Invalid or expired code'') OTP_EXPIRED)), s)
      | Some storedHash \<Rightarrow>
          if storedHash = [] then (Done (Inl (Unauthorized (Plain ''Invalid or expired code'') OTP_EXPIRED)), s)
          else (Fetched storedHash, s))"
| "verify_step Q cfg sha256 t destination purpose code (Fetched storedHash) s =
     (let (newAttempts, s1) = rincr Q t (attemptsKey purpose destination) s
      in (Counted storedHash newAttempts, s1))"
| "verify_step Q cfg sha256 t destination purpose code (Counted storedHash newAttempts) s =
     (let otpTtl = rttl Q t (otpKey purpose destination) s
      in (Bound storedHash newAttempts,
          if newAttempts = 1 \<and> 0 < otpTtl then rexpire Q t (attemptsKey purpose destination) otpTtl s else s))"
| "verify_step Q cfg sha256 t destination purpose code (Bound storedHash newAttempts) s =
     (if maxAttempts cfg < newAttempts
      then (Done (Inl (Unauthorized (Plain ''Maximum OTP verification attempts exceeded'') OTP_MAX_ATTEMPTS_EXCEEDED)),
            rdel Q [otpKey purpose destination, attemptsKey purpose destination] s)
      else if sha256 code \<noteq> storedHash
      then (Done (Inl (Unauthorized
              (if 0 < maxAttempts cfg - newAttempts then RemainingAttempts (maxAttempts cfg - newAttempts)
               else Plain ''Invalid or expired code'') OTP_INVALID)), s)
      else (Done (Inr True), rdel Q [otpKey purpose destination, attemptsKey purpose destination] s))"
| "verify_step Q cfg sha256 t destination purpose code (Done result) s = (Done result, s)"

text \<open>Requests with their codes, and a schedule naming the request that sends its next command.\<close>

fun verify_schedule ::
  "'s redis \<Rightarrow> otp_config \<Rightarrow> (string \<Rightarrow> string) \<Rightarrow> timestamp \<Rightarrow> string \<Rightarrow> string \<Rightarrow> nat list
    \<Rightarrow> (string \<times> verify_pc) list \<times> 's \<Rightarrow> (string \<times> verify_pc) list \<times> 's" where
  "verify_schedule Q cfg sha256 t destination purpose [] (requests, s) = (requests, s)"
| "verify_schedule Q cfg sha256 t destination purpose (i # schedule) (requests, s) =
     (let (code, pc) = requests ! i;
          (pc', s1) = verify_step Q cfg sha256 t destination purpose code pc s
      in verify_schedule Q cfg sha256 t destination purpose schedule (requests[i := (code, pc')], s1))"

lemma verify_uninterrupted:
  "verify_schedule Q cfg H t d p [0, 0, 0, 0] ([(code, Start)], s) =
     (let (r, s') = otp_verify Q cfg H t d p code s in ([(code, Done r)], s'))"
  by (simp add: otp_verify_def Let_def case_prod_beta split: option.splits)

text \<open>Three requests with a limit of one attempt: the first guess is wrong, the second exceeds the
  limit, and the third, sent at the same time, is still compared and accepted.\<close>

lemma overlapping_guesses_exceed_limit:
  "let s = [otpKey ''p'' ''x'' \<mapsto> (Text ''right'', Some 3600000)];
       result = fst (verify_schedule kv_redis (otp_defaults\<lparr>maxAttempts := 1\<rparr>) (\<lambda>c. c) 0 ''x'' ''p''
         [0, 1, 2, 0, 0, 0, 1, 1, 1, 2, 2, 2] ([(''w1'', Start), (''w2'', Start), (''right'', Start)], s))
   in map snd result =
      [Done (Inl (Unauthorized (Plain ''Invalid or expired code'') OTP_INVALID)),
       Done (Inl (Unauthorized (Plain ''Maximum OTP verification attempts exceeded'') OTP_MAX_ATTEMPTS_EXCEEDED)),
       Done (Inr True)]"
  by code_simp

text \<open>The counter is given the remaining life of the code in whole seconds; rounded down it dies up
  to half a second before the code, which leaves room for further attempts.\<close>

lemma late_guess_exceeds_limit:
  "let s = [otpKey ''p'' ''x'' \<mapsto> (Text ''right'', Some 3600000)];
       cfg = otp_defaults\<lparr>maxAttempts := 1\<rparr>;
       s1 = snd (otp_verify kv_redis cfg (\<lambda>c. c) 600 ''x'' ''p'' ''wrong'' s)
   in fst (otp_verify kv_redis cfg (\<lambda>c. c) 3599700 ''x'' ''p'' ''right'' s1) = Inr True"
  by code_simp

end
