(* ===== verification/Sessions.thy ===== *)
theory Sessions
  imports Otp
begin

text \<open>
  Sessions, refresh tokens and devices: \<^verbatim>\<open>session.service.ts\<close>, \<^verbatim>\<open>device.service.ts\<close> and
  \<^verbatim>\<open>token.service.ts\<close> of \<^verbatim>\<open>src/modules/auth/services\<close>.

  The users table is kept in two halves that share the primary key: the columns the money services
  use are \<open>db_users\<close> of the shared database \<open>ad_db\<close>, the identity columns are \<open>ad_credentials\<close>;
  \<open>findAccount\<close> is the row.  Random bytes, SHA-256, Argon2 and the JWT library are not code of the
  repository: they are fields of \<open>auth_env\<close>, where \<open>ad_draws\<close> numbers the random draws made so far.
  Emitted events and audit entries are appended to \<open>ad_events\<close> and \<open>ad_audit\<close>.
\<close>

section \<open>State\<close>

record credential =
  cr_id :: uuid
  cr_phone :: string
  cr_phoneVerifiedAt :: "timestamp option"
  cr_email :: "string option"
  cr_emailVerifiedAt :: "timestamp option"
  cr_firstName :: string
  cr_lastName :: string
  cr_dateOfBirth :: "timestamp option"
  cr_gender :: "string option"
  cr_passwordHash :: string
  cr_pinHash :: "string option"
  cr_pinFailedAttempts :: int
  cr_pinLockedUntil :: "timestamp option"
  cr_isActive :: bool
  cr_isBrokerStaff :: bool
  cr_staffSections :: "string list"
  cr_mustChangePassword :: bool
  cr_createdAt :: timestamp

datatype trust_level = UNKNOWN | TRUSTED | SUSPICIOUS | BLOCKED

record device_row =
  dv_id :: uuid
  dv_userId :: uuid
  dv_fingerprint :: string
  dv_platform :: string
  dv_osVersion :: "string option"
  dv_appVersion :: "string option"
  dv_pushToken :: "string option"
  dv_trustLevel :: trust_level
  dv_trustScore :: int
  dv_firstSeenAt :: timestamp
  dv_lastSeenAt :: timestamp
  dv_lastSeenIp :: "string option"
  dv_isRevoked :: bool
  dv_revokedAt :: "timestamp option"

record session =
  se_id :: uuid
  se_userId :: uuid
  se_deviceId :: uuid
  se_refreshTokenHash :: string
  se_familyId :: string
  se_ipAddress :: "string option"
  se_userAgent :: "string option"
  se_isRevoked :: bool
  se_revokedAt :: "timestamp option"
  se_revokedReason :: "string option"
  se_expiresAt :: timestamp
  se_createdAt :: timestamp
  se_lastUsedAt :: timestamp
  se_lastActivityAt :: timestamp

record mfa_config =
  mf_userId :: uuid
  mf_totpSecretEnc :: string
  mf_totpSecretIv :: string
  mf_totpSecretTag :: string
  mf_isEnabled :: bool
  mf_enabledAt :: "timestamp option"
  mf_recoveryCodes :: "string list"
  mf_recoveryCodesUsedCount :: int
  mf_recoveryCodesGeneratedAt :: "timestamp option"

datatype auth_event =
    UserRegistered uuid string "string option"
  | SessionCreated uuid uuid uuid
  | UserLoggedIn uuid uuid uuid bool
  | TokenRefreshed uuid uuid
  | UserLoggedOut uuid uuid
  | PasswordChanged uuid
  | PinCreated uuid
  | PinChanged uuid
  | OtpSent string string
  | OtpVerified string string
  | DeviceNew uuid uuid string
  | DeviceRevoked uuid uuid
  | MailPasswordReset string string
  | MailVerification string string

record audit_entry =
  ax_actorId :: uuid
  ax_actorRole :: "role option"
  ax_action :: string
  ax_resourceType :: string
  ax_resourceId :: uuid

record 's auth_db =
  ad_db :: db
  ad_credentials :: "credential list"
  ad_devices :: "device_row list"
  ad_sessions :: "session list"
  ad_mfa :: "mfa_config list"
  ad_uid :: nat
  ad_draws :: nat
  ad_redis :: 's
  ad_events :: "auth_event list"
  ad_audit :: "audit_entry list"

record access_payload =
  ap_sub :: uuid
  ap_role :: role
  ap_sid :: uuid
  ap_did :: uuid
  ap_kyc :: kyc_status
  ap_jti :: string

record pin_payload =
  pp_sub :: uuid
  pp_sid :: uuid
  pp_purpose :: string

datatype 'a jwt_outcome = JwtValid 'a | JwtExpired | JwtInvalid

record 's auth_env =
  ae_now :: timestamp
  ae_redis :: "'s redis"
  ae_otp :: otp_config
  ae_random :: "nat \<Rightarrow> string"
  ae_randomInt :: "nat \<Rightarrow> nat \<Rightarrow> nat \<Rightarrow> nat"
  ae_sha256 :: "string \<Rightarrow> string"
  ae_argon2 :: "nat \<Rightarrow> string \<Rightarrow> string"
  ae_argon2_verify :: "string \<Rightarrow> string \<Rightarrow> bool option"
  ae_jwt_access :: "access_payload \<Rightarrow> string \<Rightarrow> timestamp \<Rightarrow> string"
  ae_jwt_access_verify :: "string \<Rightarrow> timestamp \<Rightarrow> access_payload jwt_outcome"
  ae_jwt_pin :: "pin_payload \<Rightarrow> string \<Rightarrow> timestamp \<Rightarrow> string"
  ae_jwt_pin_verify :: "string \<Rightarrow> timestamp \<Rightarrow> pin_payload jwt_outcome"
  ae_accessExpiresIn :: string
  ae_refreshExpiresIn :: string
  ae_staffIdleTimeoutMinutes :: int

text \<open>Sequencing of operations that may throw: the writes made before an exception stay.\<close>

definition and_then :: "('e + 'a) \<times> 's \<Rightarrow> ('a \<Rightarrow> 's \<Rightarrow> ('e + 'b) \<times> 's) \<Rightarrow> ('e + 'b) \<times> 's" where
  "and_then m f = (case m of (Inl e, s) \<Rightarrow> (Inl e, s) | (Inr x, s) \<Rightarrow> f x s)"

lemma and_then_simps [simp]: "and_then (Inl e, s) f = (Inl e, s)" "and_then (Inr x, s) f = f x s"
  by (simp_all add: and_then_def)

definition emit_event :: "auth_event \<Rightarrow> 's auth_db \<Rightarrow> 's auth_db" where
  "emit_event e s = s\<lparr>ad_events := ad_events s @ [e]\<rparr>"

definition audit_log :: "audit_entry \<Rightarrow> 's auth_db \<Rightarrow> 's auth_db" where
  "audit_log e s = s\<lparr>ad_audit := ad_audit s @ [e]\<rparr>"

definition findAccount :: "'s auth_db \<Rightarrow> (credential \<Rightarrow> bool) \<Rightarrow> (credential \<times> user) option" where
  "findAccount s P =
     (case List.find P (ad_credentials s) of
        None \<Rightarrow> None
      | Some c \<Rightarrow> (case findUser (ad_db s) (cr_id c) of None \<Rightarrow> None | Some u \<Rightarrow> Some (c, u)))"

definition findSession :: "'s auth_db \<Rightarrow> uuid \<Rightarrow> session option" where
  "findSession s i = List.find (\<lambda>x. se_id x = i) (ad_sessions s)"

section \<open>Tokens\<close>

definition digit_string :: "string \<Rightarrow> bool" where
  "digit_string ds \<longleftrightarrow> ds \<noteq> [] \<and> list_all decimal_digit ds"

definition number_of :: "string \<Rightarrow> int" where
  "number_of ds = foldl (\<lambda>n c. 10 * n + (int (of_char c) - 48)) 0 ds"

text \<open>The match of \<^verbatim>\<open>/^(\d+)(s|m|h|d)$/\<close>.\<close>

definition match_duration :: "string \<Rightarrow> (int \<times> char) option" where
  "match_duration v =
     (if v \<noteq> [] \<and> digit_string (butlast v) \<and> last v \<in> set ''smhd'' then Some (number_of (butlast v), last v)
      else None)"

definition parseExpiresIn :: "string \<Rightarrow> int" where
  "parseExpiresIn v =
     (case match_duration v of
        None \<Rightarrow> 900
      | Some (num, u) \<Rightarrow>
          if u = CHR ''s'' then num else if u = CHR ''m'' then num * 60
          else if u = CHR ''h'' then num * 3600 else if u = CHR ''d'' then num * 86400 else 900)"

definition generateRefreshToken :: "'s auth_env \<Rightarrow> 's auth_db \<Rightarrow> string \<times> 's auth_db" where
  "generateRefreshToken E s = (ae_random E (ad_draws s), s\<lparr>ad_draws := ad_draws s + 1\<rparr>)"

definition hashRefreshToken :: "'s auth_env \<Rightarrow> string \<Rightarrow> string" where
  "hashRefreshToken E tok = ae_sha256 E tok"

definition signAccessToken ::
  "'s auth_env \<Rightarrow> uuid \<Rightarrow> role \<Rightarrow> uuid \<Rightarrow> uuid \<Rightarrow> kyc_status \<Rightarrow> 's auth_db \<Rightarrow> (string \<times> int) \<times> 's auth_db" where
  "signAccessToken E userId rl sessionId deviceId kyc s =
     (let jti = ae_random E (ad_draws s);
          payload = \<lparr>ap_sub = userId, ap_role = rl, ap_sid = sessionId, ap_did = deviceId, ap_kyc = kyc, ap_jti = jti\<rparr>
      in ((ae_jwt_access E payload (ae_accessExpiresIn E) (ae_now E), parseExpiresIn (ae_accessExpiresIn E)),
          s\<lparr>ad_draws := ad_draws s + 1\<rparr>))"

definition blacklist_key :: "string \<Rightarrow> string" where
  "blacklist_key jti = ''blacklist:'' @ jti"

definition verifyAccessToken :: "'s auth_env \<Rightarrow> string \<Rightarrow> 's auth_db \<Rightarrow> auth_err + access_payload" where
  "verifyAccessToken E tok s =
     (case ae_jwt_access_verify E tok (ae_now E) of
        JwtValid payload \<Rightarrow>
          if rget (ae_redis E) (ae_now E) (blacklist_key (ap_jti payload)) (ad_redis s) \<noteq> None
          then Inl (Unauthorized (Plain ''Token has been revoked'') SESSION_REVOKED)
          else Inr payload
      | JwtExpired \<Rightarrow> Inl (Unauthorized (Plain ''Access token expired'') TOKEN_EXPIRED)
      | JwtInvalid \<Rightarrow> Inl (Unauthorized (Plain ''Invalid access token'') TOKEN_INVALID))"

definition blacklistAccessToken :: "'s auth_env \<Rightarrow> string \<Rightarrow> int \<Rightarrow> 's auth_db \<Rightarrow> 's auth_db" where
  "blacklistAccessToken E jti expiresIn s =
     s\<lparr>ad_redis := rsetex (ae_redis E) (ae_now E) (blacklist_key jti) expiresIn ''1'' (ad_redis s)\<rparr>"

definition signPinToken :: "'s auth_env \<Rightarrow> uuid \<Rightarrow> uuid \<Rightarrow> string" where
  "signPinToken E userId sessionId =
     ae_jwt_pin E \<lparr>pp_sub = userId, pp_sid = sessionId, pp_purpose = ''pin-verify''\<rparr> ''5m'' (ae_now E)"

definition verifyPinToken :: "'s auth_env \<Rightarrow> string \<Rightarrow> uuid \<Rightarrow> bool" where
  "verifyPinToken E tok userId =
     (case ae_jwt_pin_verify E tok (ae_now E) of
        JwtValid payload \<Rightarrow> pp_sub payload = userId \<and> pp_purpose payload = ''pin-verify''
      | _ \<Rightarrow> False)"

section \<open>Sessions\<close>

definition ACTIVITY_WRITE_THROTTLE_MS :: int where
  "ACTIVITY_WRITE_THROTTLE_MS = 60000"

definition STAFF_ROLES :: "role list" where
  "STAFF_ROLES = [SUPER_ADMIN, COMPLIANCE_OFFICER, FINANCE_OFFICER, CUSTOMER_SUPPORT, MARKET_OPERATIONS, AUDITOR, BROKER]"

definition IS_STAFF_ROLE :: "role \<Rightarrow> bool" where
  "IS_STAFF_ROLE r \<longleftrightarrow> r \<in> set STAFF_ROLES"

definition calculateRefreshExpiry :: "'s auth_env \<Rightarrow> timestamp" where
  "calculateRefreshExpiry E =
     (case match_duration (ae_refreshExpiresIn E) of
        None \<Rightarrow> ae_now E + 30 * 86400 * 1000
      | Some (num, u) \<Rightarrow> ae_now E +
          (if u = CHR ''s'' then num * 1000 else if u = CHR ''m'' then num * 60000
           else if u = CHR ''h'' then num * 3600000 else if u = CHR ''d'' then num * 86400000 else 30 * 86400000))"

definition createUserSession ::
  "'s auth_env \<Rightarrow> uuid \<Rightarrow> uuid \<Rightarrow> string option \<Rightarrow> string option \<Rightarrow> 's auth_db \<Rightarrow> (uuid \<times> string) \<times> 's auth_db" where
  "createUserSession E userId deviceId ipAddress userAgent s =
     (let (refreshToken, s1) = generateRefreshToken E s;
          familyId = ae_random E (ad_draws s1);
          x = \<lparr>se_id = ad_uid s1, se_userId = userId, se_deviceId = deviceId,
               se_refreshTokenHash = hashRefreshToken E refreshToken, se_familyId = familyId,
               se_ipAddress = ipAddress, se_userAgent = userAgent, se_isRevoked = False, se_revokedAt = None,
               se_revokedReason = None, se_expiresAt = calculateRefreshExpiry E, se_createdAt = ae_now E,
               se_lastUsedAt = ae_now E, se_lastActivityAt = ae_now E\<rparr>
      in ((se_id x, refreshToken),
          s1\<lparr>ad_sessions := ad_sessions s1 @ [x], ad_uid := ad_uid s1 + 1, ad_draws := ad_draws s1 + 1\<rparr>))"

definition idleTimeoutMs :: "'s auth_env \<Rightarrow> role option \<Rightarrow> int" where
  "idleTimeoutMs E r =
     (case r of
        None \<Rightarrow> 0
      | Some rl \<Rightarrow>
          if \<not> IS_STAFF_ROLE rl then 0
          else if 0 < ae_staffIdleTimeoutMinutes E then ae_staffIdleTimeoutMinutes E * 60000 else 0)"

definition isIdleExpired :: "'s auth_env \<Rightarrow> role option \<Rightarrow> timestamp \<Rightarrow> bool" where
  "isIdleExpired E r lastActivityAt =
     (let lmt = idleTimeoutMs E r in if lmt = 0 then False else lmt < ae_now E - lastActivityAt)"

definition revoke_row :: "'s auth_env \<Rightarrow> string \<Rightarrow> session \<Rightarrow> session" where
  "revoke_row E reason x = x\<lparr>se_isRevoked := True, se_revokedAt := Some (ae_now E), se_revokedReason := Some reason\<rparr>"

definition revokeForIdle :: "'s auth_env \<Rightarrow> uuid \<Rightarrow> 's auth_db \<Rightarrow> 's auth_db" where
  "revokeForIdle E sessionId s =
     s\<lparr>ad_sessions := upd_where (\<lambda>x. se_id x = sessionId) (revoke_row E ''idle_timeout'') (ad_sessions s)\<rparr>"

definition owner_role :: "'s auth_db \<Rightarrow> uuid \<Rightarrow> role option" where
  "owner_role s userId = map_option u_role (findUser (ad_db s) userId)"

definition rotateRefreshToken ::
  "'s auth_env \<Rightarrow> string \<Rightarrow> 's auth_db \<Rightarrow> (auth_err + uuid \<times> uuid \<times> uuid \<times> string) \<times> 's auth_db" where
  "rotateRefreshToken E oldRefreshToken s =
     (case List.find (\<lambda>x. se_refreshTokenHash x = hashRefreshToken E oldRefreshToken) (ad_sessions s) of
        None \<Rightarrow> (Inl (Unauthorized (Plain ''Invalid refresh token'') TOKEN_INVALID), s)
      | Some x \<Rightarrow>
          if se_isRevoked x then (Inl (Unauthorized (Plain ''Session has been revoked'') SESSION_REVOKED), s)
          else if se_expiresAt x < ae_now E then (Inl (Unauthorized (Plain ''Refresh token expired'') TOKEN_EXPIRED), s)
          else if isIdleExpired E (owner_role s (se_userId x)) (se_lastActivityAt x)
          then (Inl (Unauthorized (Plain ''Session ended after a period of inactivity. Please sign in again.'')
                  SESSION_REVOKED), revokeForIdle E (se_id x) s)
          else let (newRefreshToken, s1) = generateRefreshToken E s
               in (Inr (se_id x, se_userId x, se_deviceId x, newRefreshToken),
                   s1\<lparr>ad_sessions := upd_where (\<lambda>y. se_id y = se_id x)
                        (\<lambda>y. y\<lparr>se_refreshTokenHash := hashRefreshToken E newRefreshToken, se_lastUsedAt := ae_now E\<rparr>)
                        (ad_sessions s1)\<rparr>))"

definition revokeSession :: "'s auth_env \<Rightarrow> uuid \<Rightarrow> uuid \<Rightarrow> string \<Rightarrow> 's auth_db \<Rightarrow> 's auth_db" where
  "revokeSession E sessionId userId reason s =
     (case List.find (\<lambda>x. se_id x = sessionId \<and> se_userId x = userId) (ad_sessions s) of
        None \<Rightarrow> s
      | Some _ \<Rightarrow> s\<lparr>ad_sessions := upd_where (\<lambda>x. se_id x = sessionId) (revoke_row E reason) (ad_sessions s)\<rparr>)"

definition revokeAllSessions ::
  "'s auth_env \<Rightarrow> uuid \<Rightarrow> uuid option \<Rightarrow> string \<Rightarrow> 's auth_db \<Rightarrow> nat \<times> 's auth_db" where
  "revokeAllSessions E userId exclude reason s =
     (let sel = (\<lambda>x. se_userId x = userId \<and> \<not> se_isRevoked x \<and> Some (se_id x) \<noteq> exclude)
      in (length (filter sel (ad_sessions s)), s\<lparr>ad_sessions := upd_where sel (revoke_row E reason) (ad_sessions s)\<rparr>))"

definition listActiveSessions :: "'s auth_env \<Rightarrow> uuid \<Rightarrow> 's auth_db \<Rightarrow> session list" where
  "listActiveSessions E userId s =
     sort_key (\<lambda>x. - se_lastUsedAt x)
       (filter (\<lambda>x. se_userId x = userId \<and> \<not> se_isRevoked x \<and> ae_now E < se_expiresAt x) (ad_sessions s))"

definition validateSession :: "'s auth_env \<Rightarrow> uuid \<Rightarrow> 's auth_db \<Rightarrow> bool \<times> 's auth_db" where
  "validateSession E sessionId s =
     (case findSession s sessionId of
        None \<Rightarrow> (False, s)
      | Some x \<Rightarrow>
          if se_isRevoked x then (False, s)
          else if se_expiresAt x < ae_now E then (False, s)
          else if isIdleExpired E (owner_role s (se_userId x)) (se_lastActivityAt x)
          then (False, revokeForIdle E (se_id x) s)
          else (True, s))"

definition recordActivity :: "'s auth_env \<Rightarrow> uuid \<Rightarrow> 's auth_db \<Rightarrow> 's auth_db" where
  "recordActivity E sessionId s =
     (case findSession s sessionId of
        None \<Rightarrow> s
      | Some x \<Rightarrow>
          if ae_now E - se_lastActivityAt x < ACTIVITY_WRITE_THROTTLE_MS then s
          else s\<lparr>ad_sessions := upd_where (\<lambda>y. se_id y = sessionId) (\<lambda>y. y\<lparr>se_lastActivityAt := ae_now E\<rparr>)
                   (ad_sessions s)\<rparr>)"

section \<open>Devices\<close>

definition registerOrUpdate ::
  "'s auth_env \<Rightarrow> uuid \<Rightarrow> string \<Rightarrow> string \<Rightarrow> string option \<Rightarrow> string option \<Rightarrow> string option \<Rightarrow> 's auth_db
    \<Rightarrow> (uuid \<times> bool) \<times> 's auth_db" where
  "registerOrUpdate E userId fingerprint platform osVersion appVersion ipAddress s =
     (case List.find (\<lambda>d. dv_userId d = userId \<and> dv_fingerprint d = fingerprint) (ad_devices s) of
        Some existing \<Rightarrow>
          ((dv_id existing, False),
           s\<lparr>ad_devices := upd_where (\<lambda>d. dv_id d = dv_id existing)
               (\<lambda>d. d\<lparr>dv_lastSeenAt := ae_now E,
                      dv_lastSeenIp := (if ipAddress = None then dv_lastSeenIp d else ipAddress),
                      dv_osVersion := (if osVersion = None then dv_osVersion existing else osVersion),
                      dv_appVersion := (if appVersion = None then dv_appVersion existing else appVersion)\<rparr>)
               (ad_devices s)\<rparr>)
      | None \<Rightarrow>
          let d = \<lparr>dv_id = ad_uid s, dv_userId = userId, dv_fingerprint = fingerprint, dv_platform = platform,
                   dv_osVersion = osVersion, dv_appVersion = appVersion, dv_pushToken = None,
                   dv_trustLevel = UNKNOWN, dv_trustScore = 50, dv_firstSeenAt = ae_now E,
                   dv_lastSeenAt = ae_now E, dv_lastSeenIp = ipAddress, dv_isRevoked = False, dv_revokedAt = None\<rparr>
          in ((dv_id d, True),
              emit_event (DeviceNew userId (dv_id d) platform) (s\<lparr>ad_devices := ad_devices s @ [d], ad_uid := ad_uid s + 1\<rparr>)))"

definition listByUserId :: "uuid \<Rightarrow> 's auth_db \<Rightarrow> device_row list" where
  "listByUserId userId s = sort_key (\<lambda>d. - dv_lastSeenAt d) (filter (\<lambda>d. dv_userId d = userId) (ad_devices s))"

definition revokeDevice :: "'s auth_env \<Rightarrow> uuid \<Rightarrow> uuid \<Rightarrow> 's auth_db \<Rightarrow> (auth_err + unit) \<times> 's auth_db" where
  "revokeDevice E userId deviceId s =
     (case List.find (\<lambda>d. dv_id d = deviceId \<and> dv_userId d = userId) (ad_devices s) of
        None \<Rightarrow> (Inl (App (PlainError (Msg ''Device not found''))), s)
      | Some _ \<Rightarrow>
          (Inr (),
           emit_event (DeviceRevoked userId deviceId)
             (s\<lparr>ad_devices := upd_where (\<lambda>d. dv_id d = deviceId)
                  (\<lambda>d. d\<lparr>dv_isRevoked := True, dv_revokedAt := Some (ae_now E), dv_trustLevel := BLOCKED\<rparr>) (ad_devices s),
                ad_sessions := upd_where (\<lambda>x. se_deviceId x = deviceId \<and> \<not> se_isRevoked x)
                  (revoke_row E ''device_revoked'') (ad_sessions s)\<rparr>)))"

definition updatePushToken :: "uuid \<Rightarrow> string option \<Rightarrow> 's auth_db \<Rightarrow> (auth_err + unit) \<times> 's auth_db" where
  "updatePushToken deviceId pushToken s =
     (if List.find (\<lambda>d. dv_id d = deviceId) (ad_devices s) = None then (Inl (App (PrismaError ''P2025'')), s)
      else (Inr (), s\<lparr>ad_devices := upd_where (\<lambda>d. dv_id d = deviceId) (\<lambda>d. d\<lparr>dv_pushToken := pushToken\<rparr>)
                        (ad_devices s)\<rparr>))"

section \<open>What the libraries promise\<close>

definition token_hash :: "'s auth_env \<Rightarrow> nat \<Rightarrow> string" where
  "token_hash E i = hashRefreshToken E (ae_random E i)"

text \<open>No two random draws have the same digest, and a hashed secret verifies.\<close>

locale auth_runtime =
  fixes E :: "'s auth_env"
  assumes token_inj: "token_hash E i = token_hash E j \<Longrightarrow> i = j"
    and argon2_verifies: "ae_argon2_verify E (ae_argon2 E n p) p = Some True"

section \<open>How sessions evolve\<close>

lemma findSession_mem: "findSession s i = Some x \<Longrightarrow> x \<in> set (ad_sessions s) \<and> se_id x = i"
  by (auto simp: findSession_def find_Some_iff)

lemma findSession_None: "findSession s i = None \<Longrightarrow> x \<in> set (ad_sessions s) \<Longrightarrow> se_id x \<noteq> i"
  by (auto simp: findSession_def find_None_iff)

text \<open>Session ids are unique, and each session holds a digest of its own of a token drawn before.\<close>

definition sessions_ok :: "'s auth_env \<Rightarrow> 's auth_db \<Rightarrow> bool" where
  "sessions_ok E s \<longleftrightarrow>
     distinct (map se_id (ad_sessions s)) \<and> distinct (map se_refreshTokenHash (ad_sessions s)) \<and>
     (\<forall>x\<in>set (ad_sessions s). se_id x < ad_uid s \<and> (\<exists>i<ad_draws s. se_refreshTokenHash x = token_hash E i))"

text \<open>What every operation does at most: it adds sessions, revokes them, and replaces tokens by
  newly drawn ones.  No session disappears, changes hands or comes back from revocation.\<close>

definition continues :: "session \<Rightarrow> session \<Rightarrow> bool" where
  "continues x y \<longleftrightarrow> se_id y = se_id x \<and> se_userId y = se_userId x \<and> se_deviceId y = se_deviceId x \<and>
     se_expiresAt y = se_expiresAt x \<and> (se_isRevoked x \<longrightarrow> se_isRevoked y)"

definition evolves :: "'s auth_env \<Rightarrow> 's auth_db \<Rightarrow> 's auth_db \<Rightarrow> bool" where
  "evolves E s s' \<longleftrightarrow>
     (sessions_ok E s \<longrightarrow> sessions_ok E s') \<and> ad_draws s \<le> ad_draws s' \<and>
     (\<forall>x\<in>set (ad_sessions s). \<exists>y\<in>set (ad_sessions s'). continues x y) \<and>
     (\<forall>y\<in>set (ad_sessions s'). se_refreshTokenHash y \<in> se_refreshTokenHash ` set (ad_sessions s) \<or>
        (\<exists>i. ad_draws s \<le> i \<and> i < ad_draws s' \<and> se_refreshTokenHash y = token_hash E i))"

lemma continues_refl [simp]: "continues x x"
  by (simp add: continues_def)

lemma continues_trans: "continues x y \<Longrightarrow> continues y z \<Longrightarrow> continues x z"
  by (simp add: continues_def)

lemma evolves_trans:
  assumes 1: "evolves E s s'" and 2: "evolves E s' s''"
  shows "evolves E s s''"
  unfolding evolves_def
proof (intro conjI ballI)
  show "sessions_ok E s \<longrightarrow> sessions_ok E s''" "ad_draws s \<le> ad_draws s''"
    using 1 2 by (auto simp: evolves_def)
  show "\<exists>z\<in>set (ad_sessions s''). continues x z" if "x \<in> set (ad_sessions s)" for x
    using 1 2 that continues_trans unfolding evolves_def by metis
  fix z assume "z \<in> set (ad_sessions s'')"
  then consider y where "y \<in> set (ad_sessions s')" "se_refreshTokenHash z = se_refreshTokenHash y"
    | i where "ad_draws s' \<le> i" "i < ad_draws s''" "se_refreshTokenHash z = token_hash E i"
    using 2 by (auto simp: evolves_def)
  then show "se_refreshTokenHash z \<in> se_refreshTokenHash ` set (ad_sessions s) \<or>
      (\<exists>i\<ge>ad_draws s. i < ad_draws s'' \<and> se_refreshTokenHash z = token_hash E i)"
  proof cases
    case 1
    with assms show ?thesis unfolding evolves_def by (metis order_less_le_trans)
  next
    case 2
    with assms(1) show ?thesis unfolding evolves_def by (meson order_trans)
  qed
qed

lemma evolves_frame:
  assumes "ad_sessions s' = ad_sessions s" and "ad_draws s \<le> ad_draws s'" and "ad_uid s \<le> ad_uid s'"
  shows "evolves E s s'"
  using assms unfolding evolves_def sessions_ok_def
  by (auto intro!: bexI imageI) (meson order_less_le_trans)+

lemma evolves_refl [simp]: "evolves E s s"
  by (rule evolves_frame) simp_all

text \<open>An update of sessions that keeps their identity and token.\<close>

lemma evolves_update:
  assumes "ad_sessions s' = upd_where P f (ad_sessions s)" and "ad_draws s' = ad_draws s" and "ad_uid s' = ad_uid s"
    and f: "\<And>x. continues x (f x)" "\<And>x. se_refreshTokenHash (f x) = se_refreshTokenHash x"
  shows "evolves E s s'"
proof -
  have ids: "map se_id (upd_where P f xs) = map se_id xs" for xs
    using f(1) by (intro map_upd_where) (simp add: continues_def)
  have toks: "map se_refreshTokenHash (upd_where P f xs) = map se_refreshTokenHash xs" for xs
    using f(2) by (intro map_upd_where) simp
  have "se_id (f x) = se_id x" for x using f(1) by (simp add: continues_def)
  then have "sessions_ok E s'" if "sessions_ok E s"
    using that assms(1-3) f(2) unfolding sessions_ok_def by (auto simp: ids toks set_upd_where)
  moreover have "\<exists>y\<in>set (upd_where P f xs). continues x y" if "x \<in> set xs" for x xs
    using that f(1) by (cases "P x") (auto simp: set_upd_where intro: bexI [of _ x])
  ultimately show ?thesis
    using assms(1,2) f(2) unfolding evolves_def by (auto simp: set_upd_where image_iff)
qed

lemma continues_revoke [simp]: "continues x (revoke_row E reason x)"
  by (simp add: continues_def revoke_row_def)

lemma revoke_keeps_token [simp]: "se_refreshTokenHash (revoke_row E reason x) = se_refreshTokenHash x"
  by (simp add: revoke_row_def)

lemmas evolves_revocation = evolves_update [OF _ _ _ continues_revoke revoke_keeps_token]

lemma distinct_upd_fresh:
  assumes "distinct (map k xs)" and "distinct (map h xs)" and "v \<notin> h ` set xs" and "\<And>x. h (f x) = v"
  shows "distinct (map h (upd_where (\<lambda>y. k y = i) f xs))"
  using assms
proof (induction xs)
  case (Cons x xs)
  show ?case
  proof (cases "k x = i")
    case True
    then have "upd_where (\<lambda>y. k y = i) f xs = xs" using Cons.prems(1) by (intro upd_where_id) (simp, metis image_eqI)
    then show ?thesis using Cons.prems True by (simp add: table_simps)
  next
    case False
    have "h x \<notin> h ` set (upd_where (\<lambda>y. k y = i) f xs)"
      using Cons.prems(2,3,4) by (auto simp: set_upd_where image_iff)
    then show ?thesis using Cons False by (simp add: table_simps)
  qed
qed (simp add: table_simps)

context auth_runtime
begin


lemma fresh_token:
  assumes "sessions_ok E s" and "x \<in> set (ad_sessions s)"
  shows "se_refreshTokenHash x \<noteq> token_hash E (ad_draws s)"
proof
  assume eq: "se_refreshTokenHash x = token_hash E (ad_draws s)"
  obtain i where "i < ad_draws s" "se_refreshTokenHash x = token_hash E i"
    using assms by (auto simp: sessions_ok_def)
  with eq token_inj [of i "ad_draws s"] show False by simp
qed

lemma evolves_create: "evolves E s (snd (createUserSession (E\<lparr>ae_now := t\<rparr>) u d ip ua s))"
proof -
  let ?s = "snd (createUserSession (E\<lparr>ae_now := t\<rparr>) u d ip ua s)"
  obtain x where x: "ad_sessions ?s = ad_sessions s @ [x]" "se_id x = ad_uid s"
      "se_refreshTokenHash x = token_hash E (ad_draws s)"
    by (simp add: createUserSession_def generateRefreshToken_def token_hash_def hashRefreshToken_def)
  have n: "ad_uid ?s = ad_uid s + 1" "ad_draws ?s = ad_draws s + 2"
    by (simp_all add: createUserSession_def generateRefreshToken_def)
  have "sessions_ok E ?s" if ok: "sessions_ok E s"
  proof -
    have "x' \<in> set (ad_sessions s) \<Longrightarrow> se_id x' \<noteq> ad_uid s" for x'
      using ok by (auto simp: sessions_ok_def)
    moreover have "\<exists>i<ad_draws s + 2. token_hash E (ad_draws s) = token_hash E i" by (intro exI [of _ "ad_draws s"]) simp
    ultimately show ?thesis
      using ok x fresh_token [OF ok] unfolding sessions_ok_def
      by (auto simp: n image_iff less_Suc_eq)
  qed
  then show ?thesis
    unfolding evolves_def by (auto simp: x n intro!: bexI [of _ "y" for y] exI [of _ "ad_draws s"])
qed

lemma rotate_cases:
  obtains (refused) e where "rotateRefreshToken (E\<lparr>ae_now := t\<rparr>) tok s = (Inl e, s)"
  | (idle) e x where "x \<in> set (ad_sessions s)"
      "rotateRefreshToken (E\<lparr>ae_now := t\<rparr>) tok s = (Inl e, revokeForIdle (E\<lparr>ae_now := t\<rparr>) (se_id x) s)"
  | (rotated) x f where "x \<in> set (ad_sessions s)" "se_refreshTokenHash x = hashRefreshToken E tok" "\<not> se_isRevoked x"
      "t \<le> se_expiresAt x" "\<not> isIdleExpired (E\<lparr>ae_now := t\<rparr>) (owner_role s (se_userId x)) (se_lastActivityAt x)"
      "\<And>y. continues y (f y)" "\<And>y. se_refreshTokenHash (f y) = token_hash E (ad_draws s)"
      "rotateRefreshToken (E\<lparr>ae_now := t\<rparr>) tok s =
        (Inr (se_id x, se_userId x, se_deviceId x, ae_random E (ad_draws s)),
         s\<lparr>ad_sessions := upd_where (\<lambda>y. se_id y = se_id x) f (ad_sessions s), ad_draws := ad_draws s + 1\<rparr>)"
proof (cases "List.find (\<lambda>x. se_refreshTokenHash x = hashRefreshToken E tok) (ad_sessions s)")
  case None
  then show ?thesis using that(1) by (simp add: rotateRefreshToken_def hashRefreshToken_def)
next
  case (Some x)
  then have x: "x \<in> set (ad_sessions s)" "se_refreshTokenHash x = hashRefreshToken E tok"
    by (auto simp: find_Some_iff)
  let ?E = "E\<lparr>ae_now := t\<rparr>"
  let ?f = "\<lambda>y. y\<lparr>se_refreshTokenHash := token_hash E (ad_draws s), se_lastUsedAt := t\<rparr>"
  have f: "continues y (?f y)" "se_refreshTokenHash (?f y) = token_hash E (ad_draws s)" for y
    by (simp_all add: continues_def)
  note sel = Some [unfolded hashRefreshToken_def]
  show ?thesis
  proof (cases "se_isRevoked x \<or> se_expiresAt x < t")
    case True
    then have "\<exists>e. rotateRefreshToken ?E tok s = (Inl e, s)" by (auto simp: rotateRefreshToken_def hashRefreshToken_def sel)
    with that(1) show ?thesis by blast
  next
    case live: False
    show ?thesis
    proof (cases "isIdleExpired ?E (owner_role s (se_userId x)) (se_lastActivityAt x)")
      case True
      then have "\<exists>e. rotateRefreshToken ?E tok s = (Inl e, revokeForIdle ?E (se_id x) s)"
        using live by (simp add: rotateRefreshToken_def hashRefreshToken_def sel)
      with that(2) [OF x(1)] show ?thesis by blast
    next
      case False
      have "rotateRefreshToken ?E tok s =
        (Inr (se_id x, se_userId x, se_deviceId x, ae_random E (ad_draws s)),
         s\<lparr>ad_sessions := upd_where (\<lambda>y. se_id y = se_id x) ?f (ad_sessions s), ad_draws := ad_draws s + 1\<rparr>)"
        using live False
        by (simp add: rotateRefreshToken_def hashRefreshToken_def sel generateRefreshToken_def token_hash_def)
      with live False x f show ?thesis by (intro that(3)) auto
    qed
  qed
qed

lemma evolves_revoke [simp]:
  "evolves E s (revokeForIdle E' i s)" "evolves E s (revokeSession E' i u reason s)"
  "evolves E s (snd (revokeAllSessions E' u ex reason s))" "evolves E s (snd (revokeDevice E' u d s))"
  "evolves E s (recordActivity E' i s)" "evolves E s (snd (validateSession E' i s))"
proof -
  show idle: "evolves E s (revokeForIdle E' i s)" for i
    unfolding revokeForIdle_def by (rule evolves_revocation) simp_all
  show "evolves E s (revokeSession E' i u reason s)"
    unfolding revokeSession_def by (auto split: option.split intro!: evolves_revocation)
  show "evolves E s (snd (revokeAllSessions E' u ex reason s))"
    unfolding revokeAllSessions_def Let_def snd_conv by (rule evolves_revocation) simp_all
  show "evolves E s (snd (revokeDevice E' u d s))"
    unfolding revokeDevice_def emit_event_def by (auto split: option.split intro!: evolves_revocation)
  show "evolves E s (recordActivity E' i s)"
    unfolding recordActivity_def by (auto split: option.split intro!: evolves_update simp: continues_def)
  show "evolves E s (snd (validateSession E' i s))"
    unfolding validateSession_def by (auto split: option.split simp: idle)
qed

lemma evolves_rotate: "evolves E s (snd (rotateRefreshToken (E\<lparr>ae_now := t\<rparr>) tok s))"
proof (cases t tok s rule: rotate_cases)
  case (rotated x f)
  let ?s = "snd (rotateRefreshToken (E\<lparr>ae_now := t\<rparr>) tok s)"
  have s: "ad_sessions ?s = upd_where (\<lambda>y. se_id y = se_id x) f (ad_sessions s)"
    "ad_draws ?s = ad_draws s + 1" "ad_uid ?s = ad_uid s" by (simp_all add: rotated(8))
  have id: "se_id (f y) = se_id y" for y using rotated(6) by (simp add: continues_def)
  have "sessions_ok E ?s" if ok: "sessions_ok E s"
  proof -
    have "distinct (map se_refreshTokenHash (upd_where (\<lambda>y. se_id y = se_id x) f (ad_sessions s)))"
      using ok fresh_token [OF ok] rotated(7)
      by (intro distinct_upd_fresh [where v = "token_hash E (ad_draws s)"]) (auto simp: sessions_ok_def)
    moreover have "map se_id (upd_where (\<lambda>y. se_id y = se_id x) f (ad_sessions s)) = map se_id (ad_sessions s)"
      by (rule map_upd_where) (simp add: id)
    ultimately show ?thesis
      using ok unfolding sessions_ok_def by (auto simp: s set_upd_where id rotated(7) less_Suc_eq)
  qed
  moreover have "\<exists>y\<in>set (ad_sessions ?s). continues z y" if "z \<in> set (ad_sessions s)" for z
    using that rotated(6) by (cases "se_id z = se_id x") (auto simp: s set_upd_where intro: bexI [of _ z])
  ultimately show ?thesis
    unfolding evolves_def by (auto simp: s set_upd_where rotated(7))
qed simp_all

section \<open>Dead tokens and dead sessions\<close>

text \<open>A digest that was drawn once and that no session holds any more is never held again.\<close>

definition dead_token :: "'s auth_db \<Rightarrow> string \<Rightarrow> bool" where
  "dead_token s h \<longleftrightarrow> (\<exists>i<ad_draws s. h = token_hash E i) \<and> h \<notin> se_refreshTokenHash ` set (ad_sessions s)"

lemma dead_token_stays:
  assumes "dead_token s h" and "evolves E s s'"
  shows "dead_token s' h"
proof -
  obtain i where i: "i < ad_draws s" "h = token_hash E i" using assms(1) by (auto simp: dead_token_def)
  have "h \<notin> se_refreshTokenHash ` set (ad_sessions s')"
  proof
    assume "h \<in> se_refreshTokenHash ` set (ad_sessions s')"
    then obtain j where "ad_draws s \<le> j" "h = token_hash E j"
      using assms unfolding evolves_def dead_token_def by blast
    with i token_inj [of i j] show False by simp
  qed
  moreover have "i < ad_draws s'" using i(1) assms(2) by (auto simp: evolves_def)
  ultimately show ?thesis using i(2) by (auto simp: dead_token_def)
qed

lemma rotate_dead:
  assumes "dead_token s (hashRefreshToken E tok)"
  shows "rotateRefreshToken (E\<lparr>ae_now := t\<rparr>) tok s = (Inl (Unauthorized (Plain ''Invalid refresh token'') TOKEN_INVALID), s)"
proof -
  have "List.find (\<lambda>x. se_refreshTokenHash x = hashRefreshToken E tok) (ad_sessions s) = None"
    unfolding find_None_iff using assms unfolding dead_token_def by (metis imageI)
  then show ?thesis by (simp add: rotateRefreshToken_def hashRefreshToken_def)
qed

lemma rotated_token_dies:
  assumes ok: "sessions_ok E s" and r: "rotateRefreshToken (E\<lparr>ae_now := t\<rparr>) tok s = (Inr res, s')"
  shows "dead_token s' (hashRefreshToken E tok)"
proof (cases t tok s rule: rotate_cases)
  case (rotated x f)
  then have s': "ad_sessions s' = upd_where (\<lambda>y. se_id y = se_id x) f (ad_sessions s)" "ad_draws s' = ad_draws s + 1"
    using r by auto
  obtain i where i: "i < ad_draws s" "hashRefreshToken E tok = token_hash E i"
    using ok rotated(1,2) by (auto simp: sessions_ok_def)
  have "se_refreshTokenHash y \<noteq> hashRefreshToken E tok" if y: "y \<in> set (ad_sessions s')" for y
  proof -
    consider z where "y = f z" | "y \<in> set (ad_sessions s)" "se_id y \<noteq> se_id x" using y unfolding s' set_upd_where by blast
    then show ?thesis
    proof cases
      case 1
      then show ?thesis using rotated(7) i token_inj [of "ad_draws s" i] by auto
    next
      case 2
      then show ?thesis
        using ok rotated(1,2) unfolding sessions_ok_def by (metis distinct_map inj_on_def)
    qed
  qed
  then have "hashRefreshToken E tok \<notin> se_refreshTokenHash ` set (ad_sessions s')" by (metis imageE)
  moreover have "i < ad_draws s'" using i(1) s'(2) by simp
  ultimately show ?thesis unfolding dead_token_def using i(2) by blast
qed (use r in auto)

lemma revoked_stays:
  assumes ok: "sessions_ok E s" and x: "x \<in> set (ad_sessions s)" "se_isRevoked x" and ev: "evolves E s s'"
  shows "\<exists>y. findSession s' (se_id x) = Some y \<and> se_isRevoked y \<and> (\<forall>z\<in>set (ad_sessions s'). se_id z = se_id x \<longrightarrow> z = y)"
proof -
  obtain y where y: "y \<in> set (ad_sessions s')" "continues x y" using ev x(1) by (auto simp: evolves_def)
  have "distinct (map se_id (ad_sessions s'))" using ok ev by (auto simp: evolves_def sessions_ok_def)
  then have unique: "z = y" if "z \<in> set (ad_sessions s')" "se_id z = se_id x" for z
    using that y by (auto simp: continues_def distinct_map inj_on_def)
  have "findSession s' (se_id x) \<noteq> None"
    using findSession_None [of s' "se_id x", OF _ y(1)] y(2) by (auto simp: continues_def)
  then obtain z where z: "findSession s' (se_id x) = Some z" by blast
  note z findSession_mem [OF z]
  with unique y x(2) show ?thesis by (auto simp: continues_def)
qed

lemma validate_revoked: "findSession s i = Some y \<Longrightarrow> se_isRevoked y \<Longrightarrow> validateSession E' i s = (False, s)"
  by (simp add: validateSession_def)

end

section \<open>A runtime\<close>

lemma number_of_decimal: "number_of (decimal n) = int n"
proof (induction n rule: decimal.induct)
  case (1 n)
  have digit: "int (of_char (digit m)) - 48 = int m" if "m < 10" for m
    using that by (simp add: digit_def)
  show ?case
  proof (cases "n < 10")
    case True
    then show ?thesis by (simp add: decimal.simps [of n] number_of_def digit)
  next
    case False
    have "10 * int (n div 10) + int (n mod 10) = int n"
      using mult_div_mod_eq [of 10 n] by linarith
    then show ?thesis
      using False 1 [OF False] digit [of "n mod 10"] by (simp add: decimal.simps [of n] number_of_def)
  qed
qed

definition sample_env :: "kv auth_env" where
  "sample_env =
     \<lparr>ae_now = 0, ae_redis = kv_redis, ae_otp = otp_defaults, ae_random = decimal,
      ae_randomInt = (\<lambda>n a b. a), ae_sha256 = (\<lambda>x. x), ae_argon2 = (\<lambda>n p. CHR ''#'' # p),
      ae_argon2_verify = (\<lambda>h p. Some (h = CHR ''#'' # p)),
      ae_jwt_access = (\<lambda>p d t. ap_jti p), ae_jwt_access_verify = (\<lambda>tok t. JwtInvalid),
      ae_jwt_pin = (\<lambda>p d t. pp_purpose p), ae_jwt_pin_verify = (\<lambda>tok t. JwtInvalid),
      ae_accessExpiresIn = ''15m'', ae_refreshExpiresIn = ''30d'', ae_staffIdleTimeoutMinutes = 120\<rparr>"

interpretation sample: auth_runtime sample_env
proof
  show "i = j" if "token_hash sample_env i = token_hash sample_env j" for i j
  proof -
    have "decimal i = decimal j" using that by (simp add: token_hash_def hashRefreshToken_def sample_env_def)
    then have "int i = int j" by (metis number_of_decimal)
    then show ?thesis by simp
  qed
  show "ae_argon2_verify sample_env (ae_argon2 sample_env n p) p = Some True" for n p
    by (simp add: sample_env_def)
qed

end
