(* ===== verification/Identity.thy ===== *)
theory Identity
  imports Sessions
begin

text \<open>
  Who a user is: phone numbers (\<^verbatim>\<open>src/shared/phone/malawi-phone.ts\<close>) and the password, PIN and
  identity services of \<^verbatim>\<open>src/modules/auth/services\<close>.
\<close>

section \<open>Phone numbers\<close>

definition startsWith :: "string \<Rightarrow> string \<Rightarrow> bool" where
  "startsWith s p \<longleftrightarrow> take (length p) s = p"

definition is_space :: "char \<Rightarrow> bool" where
  "is_space c \<longleftrightarrow> c = CHR '' '' \<or> (9 \<le> (of_char c :: nat) \<and> (of_char c :: nat) \<le> 13)"

definition trimText :: "string \<Rightarrow> string" where
  "trimText s = rev (dropWhile is_space (rev (dropWhile is_space s)))"

definition toLowerCase :: "string \<Rightarrow> string" where
  "toLowerCase =
     map (\<lambda>c. if 65 \<le> (of_char c :: nat) \<and> (of_char c :: nat) \<le> 90 then char_of (of_char c + 32 :: nat) else c)"

definition normalizeMalawiPhoneNumber :: "string \<Rightarrow> string" where
  "normalizeMalawiPhoneNumber v =
     (let trimmed = trimText v
      in if trimmed = [] then trimmed
         else let hadInternationalPrefix = startsWith trimmed ''+'';
                  digits0 = filter decimal_digit trimmed
              in if hadInternationalPrefix \<and> \<not> startsWith digits0 ''265'' then trimmed
                 else let digits = (if startsWith digits0 ''00'' then drop 2 digits0 else digits0)
                      in if startsWith digits ''2650'' \<and> length digits = 13 then ''+265'' @ drop 4 digits
                         else if startsWith digits ''265'' \<and> length digits = 12 then ''+'' @ digits
                         else if startsWith digits ''0'' \<and> length digits = 10 then ''+265'' @ drop 1 digits
                         else if length digits = 9 then ''+265'' @ digits
                         else trimmed)"

definition isCanonicalMalawiPhoneNumber :: "string \<Rightarrow> bool" where
  "isCanonicalMalawiPhoneNumber v \<longleftrightarrow>
     length v = 13 \<and> startsWith v ''+265'' \<and> list_all decimal_digit (drop 4 v)"

section \<open>Passwords\<close>

definition draw_argon2 :: "'s auth_env \<Rightarrow> string \<Rightarrow> 's auth_db \<Rightarrow> string \<times> 's auth_db" where
  "draw_argon2 E secret s = (ae_argon2 E (ad_draws s) secret, s\<lparr>ad_draws := ad_draws s + 1\<rparr>)"

definition password_verify :: "'s auth_env \<Rightarrow> string \<Rightarrow> string \<Rightarrow> bool" where
  "password_verify E password h = (case ae_argon2_verify E h password of Some b \<Rightarrow> b | None \<Rightarrow> False)"

definition validateComplexity :: "string \<Rightarrow> string option" where
  "validateComplexity password =
     (if length password < 8 then Some ''Password must be at least 8 characters''
      else if \<not> list_ex (\<lambda>c. 97 \<le> (of_char c :: nat) \<and> (of_char c :: nat) \<le> 122) password
      then Some ''Password must contain a lowercase letter''
      else if \<not> list_ex (\<lambda>c. 65 \<le> (of_char c :: nat) \<and> (of_char c :: nat) \<le> 90) password
      then Some ''Password must contain an uppercase letter''
      else if \<not> list_ex decimal_digit password then Some ''Password must contain a digit''
      else if \<not> list_ex (\<lambda>c. \<not> (97 \<le> (of_char c :: nat) \<and> (of_char c :: nat) \<le> 122) \<and>
                 \<not> (65 \<le> (of_char c :: nat) \<and> (of_char c :: nat) \<le> 90) \<and> \<not> decimal_digit c) password
      then Some ''Password must contain a special character''
      else None)"

fun isInHistory :: "'s auth_env \<Rightarrow> string \<Rightarrow> string list \<Rightarrow> bool" where
  "isInHistory E newPassword [] = False"
| "isInHistory E newPassword (h # hs) = (if password_verify E newPassword h then True else isInHistory E newPassword hs)"

section \<open>PINs\<close>

definition PIN_MAX_ATTEMPTS :: int where "PIN_MAX_ATTEMPTS = 3"
definition PIN_LOCKOUT_MINUTES :: int where "PIN_LOCKOUT_MINUTES = 15"

record pin_result =
  pr_valid :: bool
  pr_shouldLock :: bool
  pr_attemptsRemaining :: int

definition pin_locked :: "timestamp \<Rightarrow> timestamp option \<Rightarrow> bool" where
  "pin_locked t lockedUntil = (case lockedUntil of None \<Rightarrow> False | Some l \<Rightarrow> t < l)"

definition pin_verify ::
  "'s auth_env \<Rightarrow> string \<Rightarrow> string option \<Rightarrow> int \<Rightarrow> timestamp option \<Rightarrow> auth_err + pin_result" where
  "pin_verify E pin pinHash failedAttempts lockedUntil =
     (if pin_locked (ae_now E) lockedUntil
      then Inl (Unauthorized (LockedMinutes (\<lceil>of_int (the lockedUntil - ae_now E) / (60000 :: rat)\<rceil>)) PIN_LOCKED)
      else case pinHash of
        None \<Rightarrow> Inl (Unauthorized (Plain ''PIN not set'') PIN_NOT_SET)
      | Some h \<Rightarrow>
          if h = [] then Inl (Unauthorized (Plain ''PIN not set'') PIN_NOT_SET)
          else (case ae_argon2_verify E h pin of
             None \<Rightarrow> Inr \<lparr>pr_valid = False, pr_shouldLock = False,
                         pr_attemptsRemaining = PIN_MAX_ATTEMPTS - failedAttempts - 1\<rparr>
           | Some False \<Rightarrow>
               let newAttempts = failedAttempts + 1
               in Inr \<lparr>pr_valid = False, pr_shouldLock = PIN_MAX_ATTEMPTS \<le> newAttempts,
                       pr_attemptsRemaining = max 0 (PIN_MAX_ATTEMPTS - newAttempts)\<rparr>
           | Some True \<Rightarrow> Inr \<lparr>pr_valid = True, pr_shouldLock = False, pr_attemptsRemaining = PIN_MAX_ATTEMPTS\<rparr>))"

definition calculateLockoutExpiry :: "'s auth_env \<Rightarrow> timestamp" where
  "calculateLockoutExpiry E = ae_now E + PIN_LOCKOUT_MINUTES * 60 * 1000"

definition validateFormat :: "string \<Rightarrow> string option" where
  "validateFormat pin =
     (if \<not> (4 \<le> length pin \<and> length pin \<le> 6 \<and> list_all decimal_digit pin) then Some ''PIN must be 4-6 digits''
      else if list_all (\<lambda>c. c = hd pin) pin then Some ''PIN must not be all the same digit''
      else if pin \<in> set [''1234'', ''4321'', ''0000'', ''1111'', ''123456''] then Some ''PIN is too common''
      else None)"

section \<open>Identity\<close>

definition falsy :: "string option \<Rightarrow> bool" where
  "falsy x \<longleftrightarrow> x = None \<or> x = Some []"

record register_dto =
  rg_phone :: string
  rg_firstName :: string
  rg_lastName :: string
  rg_password :: string
  rg_email :: "string option"
  rg_dateOfBirth :: "timestamp option"
  rg_gender :: "string option"
  rg_deviceFingerprint :: "string option"
  rg_platform :: "string option"
  rg_migrationToken :: "string option"

definition createUser :: "'s auth_env \<Rightarrow> register_dto \<Rightarrow> 's auth_db \<Rightarrow> (auth_err + credential \<times> user) \<times> 's auth_db" where
  "createUser E dto s =
     (let phone = normalizeMalawiPhoneNumber (rg_phone dto)
      in if findAccount s (\<lambda>c. cr_phone c = phone) \<noteq> None
         then (Inl (App (Conflict (Msg ''An account with this phone number already exists''))), s)
         else if \<not> falsy (rg_email dto) \<and> findAccount s (\<lambda>c. cr_email c = rg_email dto) \<noteq> None
         then (Inl (App (Conflict (Msg ''An account with this email already exists''))), s)
         else let (passwordHash, s1) = draw_argon2 E (rg_password dto) s;
                  c = \<lparr>cr_id = ad_uid s1, cr_phone = phone, cr_phoneVerifiedAt = None, cr_email = rg_email dto,
                       cr_emailVerifiedAt = None, cr_firstName = rg_firstName dto, cr_lastName = rg_lastName dto,
                       cr_dateOfBirth = rg_dateOfBirth dto, cr_gender = rg_gender dto, cr_passwordHash = passwordHash,
                       cr_pinHash = None, cr_pinFailedAttempts = 0, cr_pinLockedUntil = None, cr_isActive = True,
                       cr_isBrokerStaff = False, cr_staffSections = [], cr_mustChangePassword = False,
                       cr_createdAt = ae_now E\<rparr>;
                  u = \<lparr>u_id = ad_uid s1, u_role = CUSTOMER, u_brokerId = resolveDefaultBrokerId (ad_db s1),
                       u_kycStatus = KYC_NOT_SUBMITTED, u_deletedAt = None\<rparr>
              in (Inr (c, u),
                  s1\<lparr>ad_credentials := ad_credentials s1 @ [c],
                     ad_db := (ad_db s1)\<lparr>db_users := db_users (ad_db s1) @ [u]\<rparr>, ad_uid := ad_uid s1 + 1\<rparr>))"

definition validateCredentials ::
  "'s auth_env \<Rightarrow> string \<Rightarrow> string \<Rightarrow> bool \<Rightarrow> 's auth_db \<Rightarrow> auth_err + credential \<times> user" where
  "validateCredentials E identifier password byEmail s =
     (case findAccount s (\<lambda>c. if byEmail then cr_email c = Some identifier
                              else cr_phone c = normalizeMalawiPhoneNumber identifier) of
        None \<Rightarrow> Inl (Unauthorized (Plain ''Invalid phone number or password'') INVALID_CREDENTIALS)
      | Some (c, u) \<Rightarrow>
          if \<not> cr_isActive c then Inl (Unauthorized (Plain ''Account is deactivated'') ACCOUNT_LOCKED)
          else if \<not> password_verify E password (cr_passwordHash c)
          then Inl (Unauthorized (Plain ''Invalid phone number or password'') INVALID_CREDENTIALS)
          else Inr (c, u))"

definition getUserById :: "uuid \<Rightarrow> 's auth_db \<Rightarrow> auth_err + credential \<times> user" where
  "getUserById userId s =
     (case findAccount s (\<lambda>c. cr_id c = userId) of
        None \<Rightarrow> Inl (App (NotFound (Msg ''User'')))
      | Some a \<Rightarrow> Inr a)"

definition upd_credential :: "(credential \<Rightarrow> bool) \<Rightarrow> (credential \<Rightarrow> credential) \<Rightarrow> 's auth_db \<Rightarrow> 's auth_db" where
  "upd_credential P f s = s\<lparr>ad_credentials := upd_where P f (ad_credentials s)\<rparr>"

definition markPhoneVerified :: "'s auth_env \<Rightarrow> string \<Rightarrow> 's auth_db \<Rightarrow> 's auth_db" where
  "markPhoneVerified E phone =
     upd_credential (\<lambda>c. cr_phone c = phone \<and> cr_phoneVerifiedAt c = None)
       (\<lambda>c. c\<lparr>cr_phoneVerifiedAt := Some (ae_now E)\<rparr>)"

definition markEmailVerified :: "'s auth_env \<Rightarrow> string \<Rightarrow> 's auth_db \<Rightarrow> 's auth_db" where
  "markEmailVerified E email =
     upd_credential (\<lambda>c. map_option toLowerCase (cr_email c) = Some (toLowerCase email) \<and> cr_emailVerifiedAt c = None)
       (\<lambda>c. c\<lparr>cr_emailVerifiedAt := Some (ae_now E)\<rparr>)"

text \<open>An \<open>update\<close> of a row that is not there throws P2025.\<close>

definition update_user ::
  "(credential \<Rightarrow> bool) \<Rightarrow> (credential \<Rightarrow> credential) \<Rightarrow> 's auth_db \<Rightarrow> (auth_err + unit) \<times> 's auth_db" where
  "update_user P f s =
     (if findAccount s P = None then (Inl (App (PrismaError ''P2025'')), s) else (Inr (), upd_credential P f s))"

definition identity_changePassword ::
  "'s auth_env \<Rightarrow> uuid \<Rightarrow> string \<Rightarrow> string \<Rightarrow> 's auth_db \<Rightarrow> (auth_err + unit) \<times> 's auth_db" where
  "identity_changePassword E userId currentPassword newPassword s =
     (case findAccount s (\<lambda>c. cr_id c = userId) of
        None \<Rightarrow> (Inl (App (NotFound (Msg ''User''))), s)
      | Some (c, u) \<Rightarrow>
          if \<not> password_verify E currentPassword (cr_passwordHash c)
          then (Inl (Unauthorized (Plain ''Current password is incorrect'') INVALID_CREDENTIALS), s)
          else let (newHash, s1) = draw_argon2 E newPassword s
               in update_user (\<lambda>c. cr_id c = userId) (\<lambda>c. c\<lparr>cr_passwordHash := newHash\<rparr>) s1)"

definition findResetEmailByPhone :: "string \<Rightarrow> 's auth_db \<Rightarrow> string option" where
  "findResetEmailByPhone phone s =
     (case findAccount s (\<lambda>c. cr_phone c = normalizeMalawiPhoneNumber phone) of
        None \<Rightarrow> None
      | Some (c, u) \<Rightarrow>
          if u_deletedAt u \<noteq> None \<or> \<not> cr_isActive c then None
          else (case cr_email c of
                  None \<Rightarrow> None
                | Some e \<Rightarrow> let e' = toLowerCase (trimText e) in if e' = [] then None else Some e'))"

definition identity_resetPassword :: "'s auth_env \<Rightarrow> string \<Rightarrow> string \<Rightarrow> 's auth_db \<Rightarrow> (auth_err + unit) \<times> 's auth_db" where
  "identity_resetPassword E phone newPassword s =
     (let (newHash, s1) = draw_argon2 E newPassword s
      in update_user (\<lambda>c. cr_phone c = normalizeMalawiPhoneNumber phone) (\<lambda>c. c\<lparr>cr_passwordHash := newHash\<rparr>) s1)"

definition setPin :: "uuid \<Rightarrow> string \<Rightarrow> 's auth_db \<Rightarrow> (auth_err + unit) \<times> 's auth_db" where
  "setPin userId pinHash =
     update_user (\<lambda>c. cr_id c = userId)
       (\<lambda>c. c\<lparr>cr_pinHash := Some pinHash, cr_pinFailedAttempts := 0, cr_pinLockedUntil := None\<rparr>)"

definition updatePinAttempts :: "uuid \<Rightarrow> int \<Rightarrow> timestamp option \<Rightarrow> 's auth_db \<Rightarrow> (auth_err + unit) \<times> 's auth_db" where
  "updatePinAttempts userId failedAttempts lockedUntil =
     update_user (\<lambda>c. cr_id c = userId)
       (\<lambda>c. c\<lparr>cr_pinFailedAttempts := failedAttempts, cr_pinLockedUntil := lockedUntil\<rparr>)"

definition resetPinAttempts :: "uuid \<Rightarrow> 's auth_db \<Rightarrow> (auth_err + unit) \<times> 's auth_db" where
  "resetPinAttempts userId =
     update_user (\<lambda>c. cr_id c = userId) (\<lambda>c. c\<lparr>cr_pinFailedAttempts := 0, cr_pinLockedUntil := None\<rparr>)"

section \<open>Normal forms of phone numbers\<close>

lemma trim_idem [simp]: "trimText (trimText s) = trimText s"
proof -
  have "dropWhile is_space (trimText s) = trimText s"
  proof (cases "trimText s")
    case (Cons c cs)
    have "\<not> is_space c"
    proof
      assume sp: "is_space c"
      let ?w = "dropWhile is_space s"
      have "c # cs = rev (dropWhile is_space (rev ?w))" using Cons by (simp add: trimText_def)
      then obtain ys where "?w = (c # cs) @ ys"
        by (metis rev_append rev_rev_ident takeWhile_dropWhile_id)
      then have "hd ?w = c" "?w \<noteq> []" by simp_all
      then show False using hd_dropWhile [of is_space s] sp by auto
    qed
    with Cons show ?thesis by simp
  qed simp
  moreover have "dropWhile is_space (rev (trimText s)) = rev (trimText s)"
    by (simp add: trimText_def)
  ultimately show ?thesis unfolding trimText_def [of "trimText s"] by simp
qed

lemma normalize_trim [simp]: "normalizeMalawiPhoneNumber (trimText v) = normalizeMalawiPhoneNumber v"
  by (simp add: normalizeMalawiPhoneNumber_def)

lemma startsWith_append: "startsWith s p \<Longrightarrow> s = p @ drop (length p) s"
  by (metis append_take_drop_id startsWith_def)

lemma canonical_form:
  assumes "isCanonicalMalawiPhoneNumber v"
  obtains ds where "v = ''+265'' @ ds" "length ds = 9" "list_all decimal_digit ds"
proof (rule that)
  show "v = ''+265'' @ drop 4 v"
    using assms startsWith_append [of v "''+265''"] by (simp add: isCanonicalMalawiPhoneNumber_def numeral_eq_Suc)
  show "length (drop 4 v) = 9" "list_all decimal_digit (drop 4 v)"
    using assms by (simp_all add: isCanonicalMalawiPhoneNumber_def)
qed

lemma digit_not_space: "decimal_digit c \<Longrightarrow> \<not> is_space c"
  by (auto simp: decimal_digit_def is_space_def)

lemma trim_digits:
  assumes "list_all decimal_digit ds" and "ds \<noteq> []" and "p = [] \<or> \<not> is_space (hd p)"
  shows "trimText (p @ ds) = p @ ds"
proof -
  have "\<not> is_space (hd (p @ ds))" and last: "\<not> is_space (hd (rev (p @ ds)))"
    using assms digit_not_space by (auto simp: hd_append list_all_iff hd_rev)
  then have "dropWhile is_space (p @ ds) = p @ ds" using assms(2) by (simp add: dropWhile_eq_self_iff)
  moreover have "dropWhile is_space (rev (p @ ds)) = rev (p @ ds)"
    using last assms(2) by (simp add: dropWhile_eq_self_iff)
  ultimately show ?thesis by (simp only: trimText_def rev_rev_ident)
qed

lemma filter_digits: "list_all decimal_digit ds \<Longrightarrow> filter decimal_digit ds = ds"
  by (simp add: list_all_iff filter_id_conv)

lemma canonical_fixed:
  assumes "isCanonicalMalawiPhoneNumber v"
  shows "normalizeMalawiPhoneNumber v = v"
proof -
  obtain ds where v: "v = ''+265'' @ ds" and ds: "length ds = 9" "list_all decimal_digit ds"
    using assms by (rule canonical_form)
  have "trimText v = v" unfolding v by (rule trim_digits) (use ds in \<open>auto simp: is_space_def\<close>)
  moreover have "filter decimal_digit v = ''265'' @ ds" using ds(2) by (simp add: v decimal_digit_def) (simp add: filter_digits flip: decimal_digit_def)
  ultimately show ?thesis using ds(1) by (simp add: normalizeMalawiPhoneNumber_def v startsWith_def)
qed

lemma normalize_spellings:
  assumes ds: "length ds = 9" "list_all decimal_digit ds" and "hd ds \<noteq> CHR ''0''"
  shows "normalizeMalawiPhoneNumber ds = ''+265'' @ ds"
    and "normalizeMalawiPhoneNumber (''0'' @ ds) = ''+265'' @ ds"
    and "normalizeMalawiPhoneNumber (''00265'' @ ds) = ''+265'' @ ds"
    and "normalizeMalawiPhoneNumber (''+2650'' @ ds) = ''+265'' @ ds"
proof -
  obtain d ds' where d: "ds = d # ds'" "d \<noteq> CHR ''0''" "decimal_digit d" using assms by (cases ds) auto
  have plus: "d \<noteq> CHR ''+''" using d(3) by (auto simp: decimal_digit_def)
  have t: "trimText (p @ ds) = p @ ds" if "p = [] \<or> \<not> is_space (hd p)" for p
    using trim_digits [OF ds(2) _ that] d by simp
  have f: "filter decimal_digit (p @ ds) = filter decimal_digit p @ ds" for p using filter_digits [OF ds(2)] by simp
  have dig: "decimal_digit (CHR ''0'')" "decimal_digit (CHR ''2'')" "decimal_digit (CHR ''6'')" "decimal_digit (CHR ''5'')" "\<not> decimal_digit (CHR ''+'')"
    by (simp_all add: decimal_digit_def)
  show "normalizeMalawiPhoneNumber ds = ''+265'' @ ds"
    using t [of "[]"] f [of "[]"] ds(1) d plus by (simp add: normalizeMalawiPhoneNumber_def startsWith_def)
  show "normalizeMalawiPhoneNumber (''0'' @ ds) = ''+265'' @ ds"
    using t [of "''0''"] f [of "''0''"] ds(1) d dig by (simp add: normalizeMalawiPhoneNumber_def startsWith_def is_space_def)
  show "normalizeMalawiPhoneNumber (''00265'' @ ds) = ''+265'' @ ds"
    using t [of "''00265''"] f [of "''00265''"] ds(1) d dig
    by (simp add: normalizeMalawiPhoneNumber_def startsWith_def is_space_def)
  show "normalizeMalawiPhoneNumber (''+2650'' @ ds) = ''+265'' @ ds"
    using t [of "''+2650''"] f [of "''+2650''"] ds(1) d dig
    by (simp add: normalizeMalawiPhoneNumber_def startsWith_def is_space_def)
qed

lemma canonicalI: "length ds = 9 \<Longrightarrow> list_all decimal_digit ds \<Longrightarrow> isCanonicalMalawiPhoneNumber (''+265'' @ ds)"
  by (simp add: isCanonicalMalawiPhoneNumber_def startsWith_def)

lemma normalize_cases: "isCanonicalMalawiPhoneNumber (normalizeMalawiPhoneNumber v) \<or> normalizeMalawiPhoneNumber v = trimText v"
proof -
  define ds where "ds = filter decimal_digit (trimText v)"
  define digits where "digits = (if startsWith ds ''00'' then drop 2 ds else ds)"
  have "list_all decimal_digit ds" by (simp add: ds_def list_all_iff)
  then have all: "list_all decimal_digit (drop k digits)" for k
    by (auto simp: digits_def list_all_iff dest: in_set_dropD)
  have "isCanonicalMalawiPhoneNumber (''+'' @ digits)" if "startsWith digits ''265''" "length digits = 12"
    using that all [of 3] startsWith_append [of digits "''265''"] canonicalI [of "drop 3 digits"]
    by (simp add: numeral_eq_Suc)
  then show ?thesis
    using canonicalI [OF _ all, of 4] canonicalI [OF _ all, of 1] canonicalI [OF _ all, of 0]
    by (simp add: normalizeMalawiPhoneNumber_def Let_def flip: ds_def digits_def)
qed

text \<open>A phone number has one normal form: normalising twice is normalising once, a canonical
  number is left alone, a normalised number is canonical or the trimmed input, and the local, the
  nine-digit, the 00265 and the +265 (0) spellings of a number all become its canonical one.\<close>

lemma phone_normal_form:
  "normalizeMalawiPhoneNumber (normalizeMalawiPhoneNumber v) = normalizeMalawiPhoneNumber v \<and>
   (isCanonicalMalawiPhoneNumber v \<longrightarrow> normalizeMalawiPhoneNumber v = v) \<and>
   (isCanonicalMalawiPhoneNumber (normalizeMalawiPhoneNumber v) \<or> normalizeMalawiPhoneNumber v = trimText v) \<and>
   (length ds = 9 \<and> list_all decimal_digit ds \<and> hd ds \<noteq> CHR ''0'' \<longrightarrow>
     normalizeMalawiPhoneNumber ds = ''+265'' @ ds \<and>
     normalizeMalawiPhoneNumber (''0'' @ ds) = ''+265'' @ ds \<and>
     normalizeMalawiPhoneNumber (''00265'' @ ds) = ''+265'' @ ds \<and>
     normalizeMalawiPhoneNumber (''+2650'' @ ds) = ''+265'' @ ds)"
proof -
  have "normalizeMalawiPhoneNumber (normalizeMalawiPhoneNumber v) = normalizeMalawiPhoneNumber v"
    using normalize_cases [of v] canonical_fixed normalize_trim [of v] by metis
  then show ?thesis using canonical_fixed normalize_cases normalize_spellings by blast
qed

end
