(* ===== verification/Auth.thy ===== *)
theory Auth
  imports Identity
begin

text \<open>
  The customer surface of \<^verbatim>\<open>src/modules/auth\<close>: \<^verbatim>\<open>services/auth.service.ts\<close>, the guards and the
  permission table.  Mail goes to the event outbox.
\<close>

section \<open>Responses\<close>

record auth_user_dto =
  ud_id :: uuid
  ud_phone :: string
  ud_email :: "string option"
  ud_firstName :: string
  ud_lastName :: string
  ud_dateOfBirth :: "timestamp option"
  ud_gender :: "string option"
  ud_role :: role
  ud_kycStatus :: kyc_status
  ud_hasPinSet :: bool
  ud_createdAt :: timestamp

record AuthResponseDto =
  rs_accessToken :: string
  rs_refreshToken :: string
  rs_expiresIn :: int
  rs_user :: auth_user_dto

definition user_dto :: "credential \<Rightarrow> user \<Rightarrow> bool \<Rightarrow> timestamp \<Rightarrow> auth_user_dto" where
  "user_dto c u hasPin created =
     \<lparr>ud_id = cr_id c, ud_phone = cr_phone c, ud_email = cr_email c, ud_firstName = cr_firstName c,
      ud_lastName = cr_lastName c, ud_dateOfBirth = cr_dateOfBirth c, ud_gender = cr_gender c,
      ud_role = u_role u, ud_kycStatus = u_kycStatus u, ud_hasPinSet = hasPin, ud_createdAt = created\<rparr>"

definition show_int :: "int \<Rightarrow> string" where
  "show_int n = (if n < 0 then CHR ''-'' # decimal (nat (- n)) else decimal (nat n))"

definition auto_fingerprint :: "'s auth_env \<Rightarrow> string" where
  "auto_fingerprint E = ''auto-'' @ show_int (ae_now E)"

section \<open>One-time codes\<close>

definition send_code ::
  "'s auth_env \<Rightarrow> string \<Rightarrow> string \<Rightarrow> 's auth_db \<Rightarrow> (auth_err + string \<times> int) \<times> 's auth_db" where
  "send_code E destination purpose s =
     (let (r, q) = otp_generate (ae_redis E) (ae_otp E) (ae_sha256 E) (ae_randomInt E (ad_draws s)) (ae_now E)
                     destination purpose (ad_redis s)
      in (r, s\<lparr>ad_redis := q, ad_draws := ad_draws s + 1\<rparr>))"

definition check_code ::
  "'s auth_env \<Rightarrow> string \<Rightarrow> string \<Rightarrow> string \<Rightarrow> 's auth_db \<Rightarrow> (auth_err + bool) \<times> 's auth_db" where
  "check_code E destination purpose code s =
     (let (r, q) = otp_verify (ae_redis E) (ae_otp E) (ae_sha256 E) (ae_now E) destination purpose code (ad_redis s)
      in (r, s\<lparr>ad_redis := q\<rparr>))"

section \<open>Registration and login\<close>

text \<open>The session and the tokens both flows end with.\<close>

definition open_session ::
  "'s auth_env \<Rightarrow> credential \<Rightarrow> user \<Rightarrow> uuid \<Rightarrow> string option \<Rightarrow> string option \<Rightarrow> 's auth_db
    \<Rightarrow> (uuid \<times> string \<times> string \<times> int) \<times> 's auth_db" where
  "open_session E c u deviceId ipAddress userAgent s =
     (let ((sessionId, refreshToken), s1) = createUserSession E (cr_id c) deviceId ipAddress userAgent s;
          ((accessToken, expiresIn), s2) = signAccessToken E (cr_id c) (u_role u) sessionId deviceId (u_kycStatus u) s1
      in ((sessionId, refreshToken, accessToken, expiresIn), s2))"

definition register ::
  "'s auth_env \<Rightarrow> register_dto \<Rightarrow> string option \<Rightarrow> string option \<Rightarrow> 's auth_db
    \<Rightarrow> (auth_err + AuthResponseDto) \<times> 's auth_db" where
  "register E dto ipAddress userAgent s =
     and_then (createUser E dto s) (\<lambda>(c, u) s1.
       let fingerprint = (if falsy (rg_deviceFingerprint dto) then auto_fingerprint E else the (rg_deviceFingerprint dto));
           platform = (case rg_platform dto of Some p \<Rightarrow> p | None \<Rightarrow> ''unknown'');
           ((deviceId, isNew), s2) = registerOrUpdate E (cr_id c) fingerprint platform None None ipAddress s1;
           ((sessionId, refreshToken, accessToken, expiresIn), s3) = open_session E c u deviceId ipAddress userAgent s2;
           s4 = emit_event (SessionCreated (cr_id c) sessionId deviceId)
                  (emit_event (UserRegistered (cr_id c) (cr_phone c) (rg_migrationToken dto)) s3);
           s5 = snd (send_code E (rg_phone dto) ''phone_verification'' s4)
       in (Inr \<lparr>rs_accessToken = accessToken, rs_refreshToken = refreshToken, rs_expiresIn = expiresIn,
                rs_user = user_dto c u False (ae_now E)\<rparr>, s5))"

record login_dto =
  lg_email :: "string option"
  lg_phone :: "string option"
  lg_password :: string
  lg_deviceFingerprint :: "string option"
  lg_platform :: "string option"
  lg_osVersion :: "string option"
  lg_appVersion :: "string option"

definition login ::
  "'s auth_env \<Rightarrow> login_dto \<Rightarrow> string option \<Rightarrow> string option \<Rightarrow> 's auth_db
    \<Rightarrow> (auth_err + AuthResponseDto) \<times> 's auth_db" where
  "login E dto ipAddress userAgent s =
     (case (case lg_email dto of Some e \<Rightarrow> Some e | None \<Rightarrow> lg_phone dto) of
        None \<Rightarrow> (Inl (App (PlainError (Msg ''TypeError''))), s)
      | Some identifier \<Rightarrow>
          (case validateCredentials E identifier (lg_password dto) (\<not> falsy (lg_email dto)) s of
             Inl e \<Rightarrow> (Inl e, s)
           | Inr (c, u) \<Rightarrow>
               if IS_STAFF_ROLE (u_role u)
               then (Inl (App (Validation (Msg ''Staff accounts must sign in through the admin dashboard.''))), s)
               else let fingerprint = (case lg_deviceFingerprint dto of Some f \<Rightarrow> f | None \<Rightarrow> auto_fingerprint E);
                        platform = (case lg_platform dto of Some p \<Rightarrow> p | None \<Rightarrow> ''unknown'');
                        ((deviceId, isNew), s1) = registerOrUpdate E (cr_id c) fingerprint platform
                           (lg_osVersion dto) (lg_appVersion dto) ipAddress s;
                        ((sessionId, refreshToken, accessToken, expiresIn), s2) =
                          open_session E c u deviceId ipAddress userAgent s1;
                        s3 = emit_event (UserLoggedIn (cr_id c) sessionId deviceId isNew) s2
                    in (Inr \<lparr>rs_accessToken = accessToken, rs_refreshToken = refreshToken, rs_expiresIn = expiresIn,
                             rs_user = user_dto c u (\<not> falsy (cr_pinHash c)) (ae_now E)\<rparr>, s3)))"

definition refresh :: "'s auth_env \<Rightarrow> string \<Rightarrow> 's auth_db \<Rightarrow> (auth_err + AuthResponseDto) \<times> 's auth_db" where
  "refresh E oldRefreshToken s =
     and_then (rotateRefreshToken E oldRefreshToken s) (\<lambda>(sessionId, userId, deviceId, newRefreshToken) s1.
       case getUserById userId s1 of
         Inl e \<Rightarrow> (Inl e, s1)
       | Inr (c, u) \<Rightarrow>
           let ((accessToken, expiresIn), s2) =
                 signAccessToken E (cr_id c) (u_role u) sessionId deviceId (u_kycStatus u) s1;
               s3 = emit_event (TokenRefreshed userId sessionId) s2
           in (Inr \<lparr>rs_accessToken = accessToken, rs_refreshToken = newRefreshToken, rs_expiresIn = expiresIn,
                    rs_user = user_dto c u (\<not> falsy (cr_pinHash c)) (cr_createdAt c)\<rparr>, s3))"

definition logout :: "'s auth_env \<Rightarrow> uuid \<Rightarrow> uuid \<Rightarrow> 's auth_db \<Rightarrow> 's auth_db" where
  "logout E userId sessionId s =
     emit_event (UserLoggedOut userId sessionId) (revokeSession E sessionId userId ''user_logout'' s)"

section \<open>Passwords\<close>

text \<open>Only the rate limit is passed on; any other failure of sending is swallowed.\<close>

definition forgotPassword :: "'s auth_env \<Rightarrow> string \<Rightarrow> 's auth_db \<Rightarrow> (auth_err + unit) \<times> 's auth_db" where
  "forgotPassword E phone s =
     (case findResetEmailByPhone phone s of
        None \<Rightarrow> (Inr (), s)
      | Some email \<Rightarrow>
          (case send_code E phone ''password_reset'' s of
             (Inl e, s1) \<Rightarrow> (case e of RateLimited w \<Rightarrow> (Inl (RateLimited w), s1) | _ \<Rightarrow> (Inr (), s1))
           | (Inr (code, _), s1) \<Rightarrow> (Inr (), emit_event (MailPasswordReset email code) s1)))"

definition resetPassword ::
  "'s auth_env \<Rightarrow> string \<Rightarrow> string \<Rightarrow> string \<Rightarrow> 's auth_db \<Rightarrow> (auth_err + unit) \<times> 's auth_db" where
  "resetPassword E phone otp newPassword s =
     and_then (check_code E phone ''password_reset'' otp s) (\<lambda>_ s1.
       and_then (identity_resetPassword E phone newPassword s1) (\<lambda>_ s2.
         case validateCredentials E phone newPassword False s2 of
           Inl e \<Rightarrow> (Inl e, s2)
         | Inr (c, u) \<Rightarrow>
             let s3 = snd (revokeAllSessions E (cr_id c) None ''password_reset'' s2)
             in (Inr (), emit_event (PasswordChanged (cr_id c)) s3)))"

definition changePassword ::
  "'s auth_env \<Rightarrow> uuid \<Rightarrow> uuid \<Rightarrow> string \<Rightarrow> string \<Rightarrow> 's auth_db \<Rightarrow> (auth_err + unit) \<times> 's auth_db" where
  "changePassword E userId sessionId currentPassword newPassword s =
     and_then (identity_changePassword E userId currentPassword newPassword s) (\<lambda>_ s1.
       let s2 = snd (revokeAllSessions E userId (Some sessionId) ''password_change'' s1)
       in (Inr (), emit_event (PasswordChanged userId) s2))"

section \<open>PIN\<close>

definition createPin :: "'s auth_env \<Rightarrow> uuid \<Rightarrow> string \<Rightarrow> 's auth_db \<Rightarrow> (auth_err + unit) \<times> 's auth_db" where
  "createPin E userId pin s =
     (case validateFormat pin of
        Some reason \<Rightarrow> (Inl (App (Validation (Msg reason))), s)
      | None \<Rightarrow>
          (case getUserById userId s of
             Inl e \<Rightarrow> (Inl e, s)
           | Inr (c, u) \<Rightarrow>
               if \<not> falsy (cr_pinHash c)
               then (Inl (App (Validation (Msg ''PIN already set. Use change PIN instead.''))), s)
               else let (pinHash, s1) = draw_argon2 E pin s
                    in and_then (setPin userId pinHash s1) (\<lambda>_ s2. (Inr (), emit_event (PinCreated userId) s2))))"

definition verifyPin ::
  "'s auth_env \<Rightarrow> uuid \<Rightarrow> uuid \<Rightarrow> string \<Rightarrow> 's auth_db \<Rightarrow> (auth_err + string) \<times> 's auth_db" where
  "verifyPin E userId sessionId pin s =
     (case getUserById userId s of
        Inl e \<Rightarrow> (Inl e, s)
      | Inr (c, u) \<Rightarrow>
          (case pin_verify E pin (cr_pinHash c) (cr_pinFailedAttempts c) (cr_pinLockedUntil c) of
             Inl e \<Rightarrow> (Inl e, s)
           | Inr result \<Rightarrow>
               if \<not> pr_valid result
               then and_then
                      (if pr_shouldLock result
                       then updatePinAttempts userId 3 (Some (calculateLockoutExpiry E)) s
                       else updatePinAttempts userId (3 - pr_attemptsRemaining result) None s)
                      (\<lambda>_ s1. (Inl (App (Validation (Msg (''Invalid PIN. '' @
                         show_int (pr_attemptsRemaining result) @ '' attempt(s) remaining'')))), s1))
               else and_then (resetPinAttempts userId s) (\<lambda>_ s1. (Inr (signPinToken E userId sessionId), s1))))"

definition changePin ::
  "'s auth_env \<Rightarrow> uuid \<Rightarrow> string \<Rightarrow> string \<Rightarrow> 's auth_db \<Rightarrow> (auth_err + unit) \<times> 's auth_db" where
  "changePin E userId currentPin newPin s =
     (case validateFormat newPin of
        Some reason \<Rightarrow> (Inl (App (Validation (Msg reason))), s)
      | None \<Rightarrow>
          (case getUserById userId s of
             Inl e \<Rightarrow> (Inl e, s)
           | Inr (c, u) \<Rightarrow>
               (case pin_verify E currentPin (cr_pinHash c) 0 None of
                  Inl e \<Rightarrow> (Inl e, s)
                | Inr result \<Rightarrow>
                    if \<not> pr_valid result then (Inl (App (Validation (Msg ''Current PIN is incorrect''))), s)
                    else let (newPinHash, s1) = draw_argon2 E newPin s
                         in and_then (setPin userId newPinHash s1) (\<lambda>_ s2. (Inr (), emit_event (PinChanged userId) s2)))))"

section \<open>Contact verification\<close>

definition assertOwnContact :: "uuid \<Rightarrow> string \<Rightarrow> string \<Rightarrow> 's auth_db \<Rightarrow> auth_err + unit" where
  "assertOwnContact userId destination purpose s =
     (if purpose \<noteq> ''email_verification'' \<and> purpose \<noteq> ''phone_verification'' then Inr ()
      else case getUserById userId s of
        Inl e \<Rightarrow> Inl e
      | Inr (c, u) \<Rightarrow>
          let own = (if purpose = ''email_verification'' then map_option (\<lambda>e. toLowerCase (trimText e)) (cr_email c)
                     else Some (cr_phone c))
          in if falsy own \<or> own \<noteq> Some destination
             then Inl (App (Validation (Msg (if purpose = ''email_verification''
                     then ''That is not the email address on your account.''
                     else ''That is not the phone number on your account.''))))
             else Inr ())"

definition sendOtp ::
  "'s auth_env \<Rightarrow> string \<Rightarrow> string \<Rightarrow> uuid \<Rightarrow> 's auth_db \<Rightarrow> (auth_err + int) \<times> 's auth_db" where
  "sendOtp E destination purpose requesterId s =
     (case assertOwnContact requesterId destination purpose s of
        Inl e \<Rightarrow> (Inl e, s)
      | Inr _ \<Rightarrow>
          and_then (send_code E destination purpose s) (\<lambda>(code, expiresInSeconds) s1.
            let s2 = (if CHR ''@'' \<in> set destination then emit_event (MailVerification destination code) s1 else s1)
            in (Inr expiresInSeconds, emit_event (OtpSent destination purpose) s2)))"

definition verifyOtp ::
  "'s auth_env \<Rightarrow> string \<Rightarrow> string \<Rightarrow> string \<Rightarrow> uuid \<Rightarrow> 's auth_db \<Rightarrow> (auth_err + bool) \<times> 's auth_db" where
  "verifyOtp E destination purpose code requesterId s =
     (case assertOwnContact requesterId destination purpose s of
        Inl e \<Rightarrow> (Inl e, s)
      | Inr _ \<Rightarrow>
          and_then (check_code E destination purpose code s) (\<lambda>_ s1.
            let s2 = (if purpose = ''email_verification'' \<and> CHR ''@'' \<in> set destination
                      then markEmailVerified E destination s1
                      else if purpose = ''phone_verification'' \<and> CHR ''@'' \<notin> set destination
                      then markPhoneVerified E destination s1
                      else s1)
            in (Inr True, emit_event (OtpVerified destination purpose) s2)))"

record profile_dto =
  pf_user :: auth_user_dto
  pf_isActive :: bool
  pf_emailVerified :: bool
  pf_phoneVerified :: bool
  pf_broker :: "broker option"

definition getProfile :: "uuid \<Rightarrow> 's auth_db \<Rightarrow> (auth_err + profile_dto) \<times> 's auth_db" where
  "getProfile userId s =
     (let s1 = s\<lparr>ad_db := snd (ensureBroker (ad_db s) userId)\<rparr>
      in case getUserById userId s1 of
           Inl e \<Rightarrow> (Inl e, s1)
         | Inr (c, u) \<Rightarrow>
             (Inr \<lparr>pf_user = user_dto c u (\<not> falsy (cr_pinHash c)) (cr_createdAt c), pf_isActive = cr_isActive c,
                   pf_emailVerified = (cr_emailVerifiedAt c \<noteq> None), pf_phoneVerified = (cr_phoneVerifiedAt c \<noteq> None),
                   pf_broker = (case u_brokerId u of None \<Rightarrow> None | Some b \<Rightarrow> findBroker (ad_db s1) b)\<rparr>, s1))"

section \<open>Guards\<close>

record authenticated_user =
  ru_id :: uuid
  ru_phone :: string
  ru_email :: "string option"
  ru_role :: role
  ru_sessionId :: uuid
  ru_deviceId :: uuid
  ru_kycStatus :: kyc_status

definition payloadToUser :: "access_payload \<Rightarrow> string \<Rightarrow> string option \<Rightarrow> authenticated_user" where
  "payloadToUser payload phone email =
     \<lparr>ru_id = ap_sub payload, ru_phone = phone, ru_email = email, ru_role = ap_role payload,
      ru_sessionId = ap_sid payload, ru_deviceId = ap_did payload, ru_kycStatus = ap_kyc payload\<rparr>"

text \<open>The request is allowed with no user on a public route, with its user otherwise.\<close>

definition jwtAuthGuard ::
  "'s auth_env \<Rightarrow> bool \<Rightarrow> string option \<Rightarrow> 's auth_db \<Rightarrow> (auth_err + authenticated_user option) \<times> 's auth_db" where
  "jwtAuthGuard E isPublic authHeader s =
     (if isPublic then (Inr None, s)
      else case authHeader of
        None \<Rightarrow> (Inl (Unauthorized (Plain ''Missing or malformed Authorization header'') UNAUTHORIZED), s)
      | Some h \<Rightarrow>
          if \<not> startsWith h ''Bearer ''
          then (Inl (Unauthorized (Plain ''Missing or malformed Authorization header'') UNAUTHORIZED), s)
          else (case verifyAccessToken E (drop 7 h) s of
             Inl e \<Rightarrow> (Inl e, s)
           | Inr payload \<Rightarrow>
               let (sessionValid, s1) = validateSession E (ap_sid payload) s
               in if \<not> sessionValid
                  then (Inl (Unauthorized (Plain ''Session expired or revoked'') SESSION_REVOKED), s1)
                  else (case getUserById (ap_sub payload) s1 of
                          Inl e \<Rightarrow> (Inl e, s1)
                        | Inr (c, u) \<Rightarrow> (Inr (Some (payloadToUser payload (cr_phone c) (cr_email c))), s1))))"

datatype permission = WALLET_READ | WALLET_DEPOSIT | WALLET_WITHDRAW | TRADE_EXECUTE | TRADE_CANCEL
  | KYC_SUBMIT | KYC_REVIEW | KYC_APPROVE | USERS_READ | USERS_MANAGE | MARKET_READ | MARKET_SYNC
  | REPORTS_VIEW | REPORTS_EXPORT | AUDIT_VIEW | ADMIN_ACCESS | PLATFORM_ADMIN | BROKERS_MANAGE

definition all_permissions :: "permission list" where
  "all_permissions = [WALLET_READ, WALLET_DEPOSIT, WALLET_WITHDRAW, TRADE_EXECUTE, TRADE_CANCEL, KYC_SUBMIT,
     KYC_REVIEW, KYC_APPROVE, USERS_READ, USERS_MANAGE, MARKET_READ, MARKET_SYNC, REPORTS_VIEW, REPORTS_EXPORT,
     AUDIT_VIEW, ADMIN_ACCESS, PLATFORM_ADMIN, BROKERS_MANAGE]"

primrec ROLE_PERMISSIONS :: "role \<Rightarrow> permission list" where
  "ROLE_PERMISSIONS CUSTOMER =
     [WALLET_READ, WALLET_DEPOSIT, WALLET_WITHDRAW, TRADE_EXECUTE, TRADE_CANCEL, KYC_SUBMIT, MARKET_READ]"
| "ROLE_PERMISSIONS CUSTOMER_SUPPORT = [USERS_READ, WALLET_READ, KYC_REVIEW, MARKET_READ, ADMIN_ACCESS]"
| "ROLE_PERMISSIONS COMPLIANCE_OFFICER = [USERS_READ, KYC_REVIEW, KYC_APPROVE, AUDIT_VIEW, REPORTS_VIEW, ADMIN_ACCESS]"
| "ROLE_PERMISSIONS FINANCE_OFFICER = [WALLET_READ, REPORTS_VIEW, REPORTS_EXPORT, AUDIT_VIEW, ADMIN_ACCESS]"
| "ROLE_PERMISSIONS MARKET_OPERATIONS = [MARKET_READ, MARKET_SYNC, REPORTS_VIEW, ADMIN_ACCESS]"
| "ROLE_PERMISSIONS AUDITOR = [USERS_READ, WALLET_READ, AUDIT_VIEW, REPORTS_VIEW, REPORTS_EXPORT, ADMIN_ACCESS]"
| "ROLE_PERMISSIONS BROKER = [USERS_READ, KYC_REVIEW, KYC_APPROVE, WALLET_READ, TRADE_EXECUTE, TRADE_CANCEL,
     MARKET_READ, REPORTS_VIEW, REPORTS_EXPORT, ADMIN_ACCESS]"
| "ROLE_PERMISSIONS SUPER_ADMIN = all_permissions"

definition permissionsGuard :: "permission list option \<Rightarrow> authenticated_user option \<Rightarrow> err + unit" where
  "permissionsGuard required usr =
     (case required of
        None \<Rightarrow> Inr ()
      | Some [] \<Rightarrow> Inr ()
      | Some perms \<Rightarrow>
          (case usr of
             None \<Rightarrow> Inl (Forbidden (Msg ''No role assigned''))
           | Some x \<Rightarrow>
               if list_all (\<lambda>p. p \<in> set (ROLE_PERMISSIONS (ru_role x))) perms then Inr ()
               else Inl (Forbidden (Msg ''You do not have the required permissions to access this resource''))))"

definition rolesGuard :: "role list option \<Rightarrow> authenticated_user option \<Rightarrow> err + unit" where
  "rolesGuard required usr =
     (case required of
        None \<Rightarrow> Inr ()
      | Some [] \<Rightarrow> Inr ()
      | Some roles \<Rightarrow>
          (case usr of
             None \<Rightarrow> Inl (Forbidden (Msg ''You do not have the required role to access this resource''))
           | Some x \<Rightarrow> if ru_role x \<in> set roles then Inr ()
               else Inl (Forbidden (Msg ''You do not have the required role to access this resource''))))"

definition pinGuard :: "'s auth_env \<Rightarrow> string option \<Rightarrow> authenticated_user option \<Rightarrow> auth_err + unit" where
  "pinGuard E pinToken usr =
     (if falsy pinToken
      then Inl (Unauthorized (Plain ''PIN verification required. Call POST /auth/pin/verify first.'') PIN_NOT_SET)
      else case usr of
        None \<Rightarrow> Inl (Unauthorized (Plain ''Not authenticated'') UNAUTHORIZED)
      | Some x \<Rightarrow>
          if verifyPinToken E (the pinToken) (ru_id x) then Inr ()
          else Inl (Unauthorized (Plain ''PIN token expired or invalid. Please verify your PIN again.'') PIN_INVALID))"

section \<open>The handlers and the sessions\<close>

text \<open>Operations that leave the sessions table alone.\<close>

definition keeps_sessions :: "'s auth_db \<Rightarrow> 's auth_db \<Rightarrow> bool" where
  "keeps_sessions s s' \<longleftrightarrow> ad_sessions s' = ad_sessions s \<and> ad_draws s \<le> ad_draws s' \<and> ad_uid s \<le> ad_uid s'"

named_theorems session_frames \<open>operations that leave the sessions table alone\<close>

lemma keeps_sessions_evolves: "keeps_sessions s s' \<Longrightarrow> evolves E s s'"
  by (simp add: keeps_sessions_def evolves_frame)

lemma frames [session_frames]:
  "keeps_sessions s s" "keeps_sessions s (emit_event e s)" "keeps_sessions s (audit_log x s)"
  "keeps_sessions s (upd_credential P f s)" "keeps_sessions s (snd (update_user P f s))"
  "keeps_sessions s (snd (draw_argon2 E' p s))"
  "keeps_sessions s (snd (send_code E' de q s))" "keeps_sessions s (snd (check_code E' de q co s))"
  "keeps_sessions s (snd (signAccessToken E' u r i d k s))"
  "keeps_sessions s (snd (registerOrUpdate E' u fp pl os ap ip s))"
  "keeps_sessions s (snd (createUser E' dto s))"
  "keeps_sessions s (snd (getProfile u s))"
  by (auto simp: keeps_sessions_def emit_event_def audit_log_def upd_credential_def update_user_def draw_argon2_def
      send_code_def check_code_def signAccessToken_def registerOrUpdate_def createUser_def getProfile_def
      case_prod_beta Let_def split: option.split sum.split)

lemmas frames_evolve [simp] = session_frames [THEN keeps_sessions_evolves]

lemma frames_evolve_later:
  assumes "evolves E s s1"
  shows "evolves E s (emit_event e s1)" "evolves E s (audit_log x s1)" "evolves E s (snd (signAccessToken E' u r i d k s1))"
    "evolves E s (snd (send_code E' de q s1))" "evolves E s (upd_credential P f s1)"
  using assms evolves_trans frames_evolve by metis+

lemma evolves_and_then:
  assumes "evolves E s (snd m)" and "\<And>x s1. m = (Inr x, s1) \<Longrightarrow> evolves E s1 (snd (f x s1))"
  shows "evolves E s (snd (and_then m f))"
proof (cases m)
  case (Pair r s1)
  then show ?thesis using assms evolves_trans by (cases r) auto
qed

context auth_runtime
begin

lemma evolves_open_session: "evolves E s (snd (open_session (E\<lparr>ae_now := t\<rparr>) c u d ip ua s))"
  unfolding open_session_def by (simp add: Let_def case_prod_beta frames_evolve_later evolves_create)

lemma evolves_device_session:
  "evolves E s (snd (open_session (E\<lparr>ae_now := t\<rparr>) c u d ip ua (snd (registerOrUpdate E' i fp pl ov av ip' s))))"
  by (rule evolves_trans [OF _ evolves_open_session]) simp

lemma evolves_register: "evolves E s (snd (register (E\<lparr>ae_now := t\<rparr>) dto ip ua s))"
  unfolding register_def
  by (rule evolves_and_then)
    (auto simp: Let_def case_prod_beta frames_evolve_later evolves_device_session)

lemma evolves_login: "evolves E s (snd (login (E\<lparr>ae_now := t\<rparr>) dto ip ua s))"
  unfolding login_def
  by (auto simp: Let_def case_prod_beta frames_evolve_later evolves_device_session split: option.split sum.split)

lemma evolves_refresh: "evolves E s (snd (refresh (E\<lparr>ae_now := t\<rparr>) tok s))"
  unfolding refresh_def
  by (rule evolves_and_then)
    (auto simp: Let_def case_prod_beta frames_evolve_later evolves_rotate split: option.split sum.split)

lemma evolves_logout: "evolves E s (logout E' u i s)"
  unfolding logout_def by (intro frames_evolve_later) simp

lemma evolves_forgotPassword: "evolves E s (snd (forgotPassword E' ph s))"
proof -
  obtain r s1 where r: "send_code E' ph ''password_reset'' s = (r, s1)" by (rule prod.exhaust)
  have "evolves E s (snd (send_code E' ph ''password_reset'' s))" by simp
  then have "evolves E s s1" by (simp add: r)
  then show ?thesis
    unfolding forgotPassword_def r
    by (auto split: option.split sum.split auth_err.split simp: frames_evolve_later)
qed

lemma evolves_identity_reset [simp]: "evolves E s (snd (identity_resetPassword E' ph pw s))"
  unfolding identity_resetPassword_def Let_def case_prod_beta by (rule evolves_trans [OF frames_evolve(6) frames_evolve(5)])

lemma evolves_identity_change [simp]: "evolves E s (snd (identity_changePassword E' i pw pw' s))"
  unfolding identity_changePassword_def Let_def case_prod_beta
  by (auto split: option.split intro: evolves_trans [OF frames_evolve(6) frames_evolve(5)])

lemma evolves_resetPassword: "evolves E s (snd (resetPassword E' ph otp pw s))"
  unfolding resetPassword_def
  by (intro evolves_and_then) (auto simp: Let_def frames_evolve_later split: sum.split)

lemma evolves_changePassword: "evolves E s (snd (changePassword E' u i pw pw' s))"
  unfolding changePassword_def by (intro evolves_and_then) (auto simp: Let_def frames_evolve_later)

lemma evolves_set_pin: "evolves E s (snd (and_then (setPin u h (snd (draw_argon2 E' p s))) (\<lambda>_ s2. (Inr (), emit_event e s2))))"
  unfolding setPin_def by (rule evolves_and_then) (auto intro: evolves_trans [OF frames_evolve(6) frames_evolve(5)])

lemma evolves_createPin: "evolves E s (snd (createPin E' u p s))"
  unfolding createPin_def by (auto simp: Let_def case_prod_beta evolves_set_pin split: option.split sum.split)

lemma evolves_changePin: "evolves E s (snd (changePin E' u p p' s))"
  unfolding changePin_def by (auto simp: Let_def case_prod_beta evolves_set_pin split: option.split sum.split)

lemma evolves_verifyPin: "evolves E s (snd (verifyPin E' u i p s))"
  unfolding verifyPin_def updatePinAttempts_def resetPinAttempts_def
  by (auto split: sum.split intro!: evolves_and_then)

lemma evolves_sendOtp: "evolves E s (snd (sendOtp E' d p u s))"
  unfolding sendOtp_def
  by (auto split: sum.split intro!: evolves_and_then simp: Let_def frames_evolve_later)

lemma evolves_verifyOtp: "evolves E s (snd (verifyOtp E' d p c u s))"
  unfolding verifyOtp_def markEmailVerified_def markPhoneVerified_def
  by (auto split: sum.split intro!: evolves_and_then simp: Let_def frames_evolve_later)

lemma evolves_guard: "evolves E s (snd (jwtAuthGuard E' pub h s))"
  unfolding jwtAuthGuard_def by (auto split: option.split sum.split simp: Let_def case_prod_beta)

end

section \<open>The PIN lockout\<close>

definition pin_view :: "'s auth_db \<Rightarrow> uuid \<Rightarrow> (string option \<times> int \<times> timestamp option) option" where
  "pin_view s u =
     map_option (\<lambda>(c, x). (cr_pinHash c, cr_pinFailedAttempts c, cr_pinLockedUntil c)) (findAccount s (\<lambda>c. cr_id c = u))"

definition refused_locked :: "auth_err + 'a \<Rightarrow> bool" where
  "refused_locked r \<longleftrightarrow> (\<exists>m. r = Inl (Unauthorized (LockedMinutes m) PIN_LOCKED))"

fun pin_attempts ::
  "'s auth_env \<Rightarrow> uuid \<Rightarrow> uuid \<Rightarrow> (timestamp \<times> string) list \<Rightarrow> 's auth_db \<Rightarrow> (auth_err + string) list \<times> 's auth_db" where
  "pin_attempts E u sid [] s = ([], s)"
| "pin_attempts E u sid ((t, pin) # as) s =
     (let (r, s1) = verifyPin (E\<lparr>ae_now := t\<rparr>) u sid pin s; (rs, s2) = pin_attempts E u sid as s1 in (r # rs, s2))"

lemma findAccount_update:
  assumes "findAccount s (\<lambda>c. cr_id c = u) = Some (c, x)" and "\<And>c. cr_id (f c) = cr_id c"
  shows "findAccount (upd_credential (\<lambda>c. cr_id c = u) f s) (\<lambda>c. cr_id c = u) = Some (f c, x)"
  using assms by (auto simp: findAccount_def upd_credential_def find_upd_where split: option.splits)

lemma findAccount_frame [simp]:
  "findAccount (s\<lparr>ad_draws := n\<rparr>) P = findAccount s P" "findAccount (emit_event e s) P = findAccount s P"
  "findAccount (s\<lparr>ad_redis := q\<rparr>) P = findAccount s P" "findAccount (s\<lparr>ad_sessions := x\<rparr>) P = findAccount s P"
  by (simp_all add: findAccount_def emit_event_def split: option.split)

lemma pin_view_account:
  assumes "pin_view s u = Some (h, k, l)"
  obtains c x where "findAccount s (\<lambda>c. cr_id c = u) = Some (c, x)"
    "cr_pinHash c = h" "cr_pinFailedAttempts c = k" "cr_pinLockedUntil c = l"
  using assms by (auto simp: pin_view_def)

lemma verifyPin_locked:
  assumes "pin_view s u = Some (h, k, l)" and "pin_locked t l"
  shows "refused_locked (fst (verifyPin (E\<lparr>ae_now := t\<rparr>) u sid pin s)) \<and> snd (verifyPin (E\<lparr>ae_now := t\<rparr>) u sid pin s) = s"
  using assms by (auto simp: verifyPin_def getUserById_def pin_verify_def refused_locked_def elim!: pin_view_account)

lemma verifyPin_wrong:
  assumes v: "pin_view s u = Some (Some h, k, l)" and "h \<noteq> []" and "\<not> pin_locked t l" and "0 \<le> k"
    and "ae_argon2_verify E h pin = Some False"
    and r: "verifyPin (E\<lparr>ae_now := t\<rparr>) u sid pin s = (r, s')"
  shows "(\<exists>m. r = Inl (App (Validation m))) \<and>
    pin_view s' u = Some (Some h, min 3 (k + 1), if 2 \<le> k then Some (t + 900000) else None)"
proof -
  obtain c x where a: "findAccount s (\<lambda>c. cr_id c = u) = Some (c, x)"
      "cr_pinHash c = Some h" "cr_pinFailedAttempts c = k" "cr_pinLockedUntil c = l"
    using v by (rule pin_view_account)
  show ?thesis
    using r assms(2-5) a(2-4)
    by (auto simp: verifyPin_def getUserById_def a(1) pin_verify_def updatePinAttempts_def update_user_def
        PIN_MAX_ATTEMPTS_def calculateLockoutExpiry_def PIN_LOCKOUT_MINUTES_def pin_view_def
        findAccount_update [OF a(1)] split: if_splits)
qed

lemma verifyPin_right:
  assumes v: "pin_view s u = Some (Some h, k, l)" and "h \<noteq> []" and "\<not> pin_locked t l"
    and "ae_argon2_verify E h pin = Some True"
    and r: "verifyPin (E\<lparr>ae_now := t\<rparr>) u sid pin s = (r, s')"
  shows "r = Inr (signPinToken (E\<lparr>ae_now := t\<rparr>) u sid) \<and> pin_view s' u = Some (Some h, 0, None)"
proof -
  obtain c x where a: "findAccount s (\<lambda>c. cr_id c = u) = Some (c, x)"
      "cr_pinHash c = Some h" "cr_pinFailedAttempts c = k" "cr_pinLockedUntil c = l"
    using v by (rule pin_view_account)
  show ?thesis
    using r assms(2-4) a(2-4)
    by (auto simp: verifyPin_def getUserById_def a(1) pin_verify_def resetPinAttempts_def update_user_def
        pin_view_def findAccount_update [OF a(1)])
qed

lemma attempts_locked:
  assumes "pin_view s u = Some (h, k, Some l)" and "list_all (\<lambda>(t, p). t < l) as"
  shows "list_all refused_locked (fst (pin_attempts E u sid as s)) \<and> snd (pin_attempts E u sid as s) = s"
  using assms
proof (induction as)
  case (Cons a as)
  obtain t p where a: "a = (t, p)" by (rule prod.exhaust)
  have "t < l" using Cons.prems(2) a by auto
  then have "refused_locked (fst (verifyPin (E\<lparr>ae_now := t\<rparr>) u sid p s))" "snd (verifyPin (E\<lparr>ae_now := t\<rparr>) u sid p s) = s"
    using verifyPin_locked [OF Cons.prems(1), of t] by (auto simp: pin_locked_def)
  moreover have "list_all refused_locked (fst (pin_attempts E u sid as s)) \<and> snd (pin_attempts E u sid as s) = s"
    using Cons.prems by (intro Cons.IH) auto
  ultimately show ?case by (simp add: a case_prod_beta)
qed simp

lemma pin_three_wrong:
  assumes v: "pin_view s u = Some (Some h, 0, None)" and h: "h \<noteq> []"
    and wrong: "list_all (\<lambda>p. ae_argon2_verify E h p = Some False) [p1, p2, p3]"
  shows "\<exists>e1 e2 e3 s3. pin_attempts E u sid [(t1, p1), (t2, p2), (t3, p3)] s =
      ([Inl (App (Validation e1)), Inl (App (Validation e2)), Inl (App (Validation e3))], s3) \<and>
    pin_view s3 u = Some (Some h, 3, Some (t3 + 900000))"
proof -
  obtain r1 s1 where 1: "verifyPin (E\<lparr>ae_now := t1\<rparr>) u sid p1 s = (r1, s1)" by (rule prod.exhaust)
  obtain r2 s2 where 2: "verifyPin (E\<lparr>ae_now := t2\<rparr>) u sid p2 s1 = (r2, s2)" by (rule prod.exhaust)
  obtain r3 s3 where 3: "verifyPin (E\<lparr>ae_now := t3\<rparr>) u sid p3 s2 = (r3, s3)" by (rule prod.exhaust)
  have v1: "pin_view s1 u = Some (Some h, 1, None)" and e1: "\<exists>m. r1 = Inl (App (Validation m))"
    using verifyPin_wrong [OF v h _ _ _ 1] wrong by (auto simp: pin_locked_def)
  have v2: "pin_view s2 u = Some (Some h, 2, None)" and e2: "\<exists>m. r2 = Inl (App (Validation m))"
    using verifyPin_wrong [OF v1 h _ _ _ 2] wrong by (auto simp: pin_locked_def)
  have v3: "pin_view s3 u = Some (Some h, 3, Some (t3 + 900000))" and e3: "\<exists>m. r3 = Inl (App (Validation m))"
    using verifyPin_wrong [OF v2 h _ _ _ 3] wrong by (auto simp: pin_locked_def)
  show ?thesis using e1 e2 e3 v3 by (auto simp: 1 2 3)
qed

lemma pin_attempts_append:
  "pin_attempts E u sid (as @ bs) s =
     (let (rs, s1) = pin_attempts E u sid as s; (rs', s2) = pin_attempts E u sid bs s1 in (rs @ rs', s2))"
  by (induction as arbitrary: s) (auto simp: case_prod_beta)

text \<open>C28. Three wrong PINs in a row lock the PIN check: whatever is tried afterwards through \<open>verifyPin\<close>, one
  call after the other and within fifteen minutes of the first attempt, the right PIN included, is
  refused without being compared and changes nothing; the lock runs for fifteen minutes from the
  third wrong PIN.  Only \<open>verifyPin\<close> is concerned: \<open>changePin\<close> looks at no lock
  (\<open>changePin_ignores_lockout\<close> below).\<close>

theorem pin_lockout:
  assumes "pin_view s u = Some (Some h, 0, None)" and "h \<noteq> []"
    and "list_all (\<lambda>p. ae_argon2_verify E h p = Some False) [p1, p2, p3]"
    and "t0 \<le> t3" and "list_all (\<lambda>(t, p). t < t0 + 15 * 60 * 1000) later"
  shows "\<exists>first rest s3. pin_attempts E u sid ([(t1, p1), (t2, p2), (t3, p3)] @ later) s = (first @ rest, s3) \<and>
    length first = 3 \<and> list_all (\<lambda>r. \<exists>m. r = Inl (App (Validation m))) first \<and>
    length rest = length later \<and> list_all refused_locked rest \<and>
    pin_view s3 u = Some (Some h, 3, Some (t3 + 15 * 60 * 1000))"
proof -
  obtain e1 e2 e3 s3 where a: "pin_attempts E u sid [(t1, p1), (t2, p2), (t3, p3)] s =
      ([Inl (App (Validation e1)), Inl (App (Validation e2)), Inl (App (Validation e3))], s3)"
    and v: "pin_view s3 u = Some (Some h, 3, Some (t3 + 900000))"
    using pin_three_wrong [OF assms(1-3), where sid = sid and ?t1.0 = t1 and ?t2.0 = t2 and ?t3.0 = t3]
    by (elim exE conjE) (rule that)
  have "list_all (\<lambda>(t, p). t < t3 + 900000) later"
    using assms(4,5) by (auto simp: list_all_iff dest!: bspec)
  from attempts_locked [OF v this]
  have "list_all refused_locked (fst (pin_attempts E u sid later s3))" "snd (pin_attempts E u sid later s3) = s3"
    by blast+
  moreover have "length (fst (pin_attempts E u sid as s)) = length as" for as s
    by (induction as arbitrary: s) (auto simp: case_prod_beta)
  ultimately show ?thesis
    using a v unfolding pin_attempts_append
    by (intro exI [of _ "fst (pin_attempts E u sid [(t1, p1), (t2, p2), (t3, p3)] s)"]
        exI [of _ "fst (pin_attempts E u sid later s3)"] exI [of _ s3]) (simp add: case_prod_beta prod_eq_iff)
qed

definition sample_credential :: credential where
  "sample_credential =
     \<lparr>cr_id = 7, cr_phone = ''+265991234567'', cr_phoneVerifiedAt = None, cr_email = Some ''a@b.mw'',
      cr_emailVerifiedAt = None, cr_firstName = ''A'', cr_lastName = ''B'', cr_dateOfBirth = None, cr_gender = None,
      cr_passwordHash = ''#pw'', cr_pinHash = Some ''#2580'', cr_pinFailedAttempts = 0, cr_pinLockedUntil = None,
      cr_isActive = True, cr_isBrokerStaff = False, cr_staffSections = [], cr_mustChangePassword = False,
      cr_createdAt = 0\<rparr>"

definition sample_auth :: "kv auth_db" where
  "sample_auth =
     \<lparr>ad_db = empty_db\<lparr>db_users := [\<lparr>u_id = 7, u_role = CUSTOMER, u_brokerId = None,
         u_kycStatus = KYC_APPROVED, u_deletedAt = None\<rparr>]\<rparr>,
      ad_credentials = [sample_credential], ad_devices = [], ad_sessions = [], ad_mfa = [], ad_uid = 8, ad_draws = 0,
      ad_redis = (\<lambda>_. None), ad_events = [], ad_audit = []\<rparr>"

theorem pin_lockout_witness:
  "\<exists>first rest s3. pin_attempts sample_env 7 1
      ([(1000, ''1111''), (2000, ''2222''), (3000, ''3333'')] @ [(4000, ''2580'')]) sample_auth = (first @ rest, s3) \<and>
    length first = 3 \<and> list_all (\<lambda>r. \<exists>m. r = Inl (App (Validation m))) first \<and>
    length rest = length [(4000 :: int, ''2580'')] \<and> list_all refused_locked rest \<and>
    pin_view s3 7 = Some (Some ''#2580'', 3, Some (3000 + 15 * 60 * 1000))"
  by (rule pin_lockout [where ?t0.0 = 1000])
    (auto simp: pin_view_def findAccount_def sample_auth_def sample_credential_def findUser_def sample_env_def)

text \<open>Changing the PIN compares without looking at the lock and without counting.\<close>

lemma changePin_ignores_lockout:
  assumes "findAccount s (\<lambda>c. cr_id c = u) = Some (c, x)" and "cr_pinHash c = Some h" and "h \<noteq> []"
    and "validateFormat new = None"
  shows "ae_argon2_verify E h guess = Some False \<Longrightarrow>
      changePin E u guess new s = (Inl (App (Validation (Msg ''Current PIN is incorrect''))), s)"
    and "ae_argon2_verify E h guess = Some True \<Longrightarrow>
      fst (changePin E u guess new s) = Inr () \<and>
      pin_view (snd (changePin E u guess new s)) u = Some (Some (ae_argon2 E (ad_draws s) new), 0, None)"
proof -
  show "changePin E u guess new s = (Inl (App (Validation (Msg ''Current PIN is incorrect''))), s)"
    if "ae_argon2_verify E h guess = Some False"
    using that assms by (simp add: changePin_def getUserById_def pin_verify_def pin_locked_def)
  show "fst (changePin E u guess new s) = Inr () \<and>
      pin_view (snd (changePin E u guess new s)) u = Some (Some (ae_argon2 E (ad_draws s) new), 0, None)"
    if "ae_argon2_verify E h guess = Some True"
    using that assms
    by (simp add: changePin_def getUserById_def pin_verify_def pin_locked_def draw_argon2_def setPin_def update_user_def
        pin_view_def findAccount_update)
qed

section \<open>Password changes end sessions\<close>

lemma findAccount_upd_phone:
  assumes "\<And>c. cr_phone (f c) = cr_phone c" and "\<And>c. cr_id (f c) = cr_id c"
  shows "findAccount (upd_credential (\<lambda>c. cr_phone c = p) f s) (\<lambda>c. cr_phone c = p) =
    map_option (map_prod f id) (findAccount s (\<lambda>c. cr_phone c = p))"
  using assms by (simp add: findAccount_def upd_credential_def find_upd_where split: option.split)

lemma filter_upd_other:
  assumes "\<And>x. Q x \<Longrightarrow> \<not> P x \<and> \<not> P (f x)"
  shows "filter P (upd_where Q f xs) = filter P xs"
  using assms by (induction xs) (simp_all add: table_simps)

lemma ball_upd_where:
  assumes "\<And>x. x \<in> set xs \<Longrightarrow> Q x \<Longrightarrow> R (f x)" and "\<And>x. x \<in> set xs \<Longrightarrow> \<not> Q x \<Longrightarrow> R x"
  shows "\<forall>x\<in>set (upd_where Q f xs). R x"
  using assms unfolding set_upd_where by blast

lemma revokeAll_sessions:
  "\<forall>x\<in>set (ad_sessions (snd (revokeAllSessions E u ex reason s))). se_userId x = u \<longrightarrow> se_isRevoked x \<or> Some (se_id x) = ex"
  "filter (\<lambda>x. Some (se_id x) = ex \<or> se_userId x \<noteq> u) (ad_sessions (snd (revokeAllSessions E u ex reason s))) =
     filter (\<lambda>x. Some (se_id x) = ex \<or> se_userId x \<noteq> u) (ad_sessions s)"
proof -
  show "\<forall>x\<in>set (ad_sessions (snd (revokeAllSessions E u ex reason s))). se_userId x = u \<longrightarrow> se_isRevoked x \<or> Some (se_id x) = ex"
    unfolding revokeAllSessions_def Let_def snd_conv auth_db.select_convs auth_db.update_convs
    by (simp, rule ball_upd_where) (auto simp: revoke_row_def)
  show "filter (\<lambda>x. Some (se_id x) = ex \<or> se_userId x \<noteq> u) (ad_sessions (snd (revokeAllSessions E u ex reason s))) =
     filter (\<lambda>x. Some (se_id x) = ex \<or> se_userId x \<noteq> u) (ad_sessions s)"
    by (simp add: revokeAllSessions_def Let_def) (rule filter_upd_other, auto simp: revoke_row_def)
qed

lemma resetPassword_wrong_code:
  assumes "check_code E phone ''password_reset'' otp s = (Inl e, s1)"
  shows "resetPassword E phone otp pw s = (Inl e, s1) \<and> ad_credentials s1 = ad_credentials s \<and> ad_sessions s1 = ad_sessions s"
  using assms by (auto simp: resetPassword_def check_code_def case_prod_beta)

context auth_runtime
begin

lemma resetPassword_effect:
  assumes "resetPassword (E\<lparr>ae_now := t\<rparr>) phone otp pw s = (Inr (), s')"
  obtains c u where "findAccount s' (\<lambda>c. cr_phone c = normalizeMalawiPhoneNumber phone) = Some (c, u)"
    "cr_isActive c" "password_verify E pw (cr_passwordHash c)"
    "\<forall>x\<in>set (ad_sessions s'). se_userId x = cr_id c \<longrightarrow> se_isRevoked x"
    "filter (\<lambda>x. se_userId x \<noteq> cr_id c) (ad_sessions s') = filter (\<lambda>x. se_userId x \<noteq> cr_id c) (ad_sessions s)"
proof -
  let ?E = "E\<lparr>ae_now := t\<rparr>"
  obtain r s1 where 1: "check_code ?E phone ''password_reset'' otp s = (r, s1)" by (rule prod.exhaust)
  obtain r2 s2 where 2: "identity_resetPassword ?E phone pw s1 = (r2, s2)" by (rule prod.exhaust)
  have ok: "r \<noteq> Inl e" "r2 \<noteq> Inl e" for e using assms 1 2 by (auto simp: resetPassword_def and_then_def split: sum.splits)
  obtain c u where v: "validateCredentials ?E phone pw False s2 = Inr (c, u)"
    using assms 1 2 ok by (auto simp: resetPassword_def and_then_def split: sum.splits)
  have s': "s' = emit_event (PasswordChanged (cr_id c)) (snd (revokeAllSessions ?E (cr_id c) None ''password_reset'' s2))"
    using assms 1 2 ok v by (auto simp: resetPassword_def and_then_def Let_def split: sum.splits)
  have acc: "findAccount s2 (\<lambda>c. cr_phone c = normalizeMalawiPhoneNumber phone) = Some (c, u)" "cr_isActive c"
      "password_verify E pw (cr_passwordHash c)"
    using v by (auto simp: validateCredentials_def password_verify_def split: option.splits if_splits)
  have "ad_sessions s1 = ad_sessions s" using 1 by (auto simp: check_code_def case_prod_beta)
  moreover have "ad_sessions s2 = ad_sessions s1"
    using 2 by (auto simp: identity_resetPassword_def draw_argon2_def update_user_def upd_credential_def split: if_splits)
  ultimately have s2: "ad_sessions s2 = ad_sessions s" by simp
  show ?thesis
  proof (rule that)
    show "findAccount s' (\<lambda>c. cr_phone c = normalizeMalawiPhoneNumber phone) = Some (c, u)"
      using acc(1) by (simp add: s' revokeAllSessions_def Let_def)
    show "\<forall>x\<in>set (ad_sessions s'). se_userId x = cr_id c \<longrightarrow> se_isRevoked x"
      using revokeAll_sessions(1) [of ?E "cr_id c" None "''password_reset''" s2] by (simp add: s' emit_event_def)
    show "filter (\<lambda>x. se_userId x \<noteq> cr_id c) (ad_sessions s') = filter (\<lambda>x. se_userId x \<noteq> cr_id c) (ad_sessions s)"
      using revokeAll_sessions(2) [of None "cr_id c" ?E "''password_reset''" s2] by (simp add: s' emit_event_def s2)
  qed (use acc in auto)
qed

lemma changePassword_effect:
  assumes "changePassword (E\<lparr>ae_now := t\<rparr>) u sid old new s = (Inr (), s')"
  shows "\<exists>c x. findAccount s' (\<lambda>c. cr_id c = u) = Some (c, x) \<and> password_verify E new (cr_passwordHash c)"
    and "\<forall>x\<in>set (ad_sessions s'). se_userId x = u \<longrightarrow> se_isRevoked x \<or> se_id x = sid"
    and "filter (\<lambda>x. se_id x = sid \<or> se_userId x \<noteq> u) (ad_sessions s') =
      filter (\<lambda>x. se_id x = sid \<or> se_userId x \<noteq> u) (ad_sessions s)"
proof -
  let ?E = "E\<lparr>ae_now := t\<rparr>"
  obtain r s1 where 1: "identity_changePassword ?E u old new s = (r, s1)" by (rule prod.exhaust)
  then have ok: "r = Inr ()" and s': "s' = emit_event (PasswordChanged u) (snd (revokeAllSessions ?E u (Some sid) ''password_change'' s1))"
    using assms by (auto simp: changePassword_def and_then_def Let_def split: sum.splits)
  obtain c x where c: "findAccount s (\<lambda>c. cr_id c = u) = Some (c, x)"
    using 1 ok by (auto simp: identity_changePassword_def split: option.splits)
  then have s1: "s1 = upd_credential (\<lambda>c. cr_id c = u) (\<lambda>c. c\<lparr>cr_passwordHash := ae_argon2 E (ad_draws s) new\<rparr>)
      (s\<lparr>ad_draws := ad_draws s + 1\<rparr>)"
    using 1 ok by (auto simp: identity_changePassword_def draw_argon2_def update_user_def split: if_splits)
  show "\<exists>c x. findAccount s' (\<lambda>c. cr_id c = u) = Some (c, x) \<and> password_verify E new (cr_passwordHash c)"
    using c by (simp add: s' s1 revokeAllSessions_def Let_def findAccount_update password_verify_def argon2_verifies)
  have sess: "ad_sessions s1 = ad_sessions s" by (simp add: s1 upd_credential_def)
  show "\<forall>x\<in>set (ad_sessions s'). se_userId x = u \<longrightarrow> se_isRevoked x \<or> se_id x = sid"
    using revokeAll_sessions(1) [of ?E u "Some sid" "''password_change''" s1] by (simp add: s' emit_event_def)
  show "filter (\<lambda>x. se_id x = sid \<or> se_userId x \<noteq> u) (ad_sessions s') =
      filter (\<lambda>x. se_id x = sid \<or> se_userId x \<noteq> u) (ad_sessions s)"
    using revokeAll_sessions(2) [of "Some sid" u ?E "''password_change''" s1] by (simp add: s' emit_event_def sess)
qed

end

text \<open>C29. Changing a password ends sessions: after a reset with the right code the account logs in
  with the new password and all its sessions are revoked; after a change with the old password all
  but the current one are; other users keep theirs.  A wrong code changes no password and no session.\<close>

theorem password_change_ends_sessions:
  assumes "auth_runtime E"
  shows "(\<forall>s'. resetPassword (E\<lparr>ae_now := t\<rparr>) phone otp new s = (Inr (), s') \<longrightarrow>
      (\<exists>c u. validateCredentials E phone new False s' = Inr (c, u) \<and>
        (\<forall>x\<in>set (ad_sessions s'). se_userId x = cr_id c \<longrightarrow> se_isRevoked x) \<and>
        filter (\<lambda>x. se_userId x \<noteq> cr_id c) (ad_sessions s') = filter (\<lambda>x. se_userId x \<noteq> cr_id c) (ad_sessions s))) \<and>
    (\<forall>e s'. check_code (E\<lparr>ae_now := t\<rparr>) phone ''password_reset'' otp s = (Inl e, s') \<longrightarrow>
      resetPassword (E\<lparr>ae_now := t\<rparr>) phone otp new s = (Inl e, s') \<and>
      ad_credentials s' = ad_credentials s \<and> ad_sessions s' = ad_sessions s) \<and>
    (\<forall>s'. changePassword (E\<lparr>ae_now := t\<rparr>) u sid old new s = (Inr (), s') \<longrightarrow>
      (\<exists>c x. findAccount s' (\<lambda>c. cr_id c = u) = Some (c, x) \<and> password_verify E new (cr_passwordHash c)) \<and>
      (\<forall>x\<in>set (ad_sessions s'). se_userId x = u \<longrightarrow> se_isRevoked x \<or> se_id x = sid) \<and>
      filter (\<lambda>x. se_id x = sid \<or> se_userId x \<noteq> u) (ad_sessions s') =
        filter (\<lambda>x. se_id x = sid \<or> se_userId x \<noteq> u) (ad_sessions s))"
proof (intro conjI allI impI)
  fix s' assume "resetPassword (E\<lparr>ae_now := t\<rparr>) phone otp new s = (Inr (), s')"
  from auth_runtime.resetPassword_effect [OF assms this]
  obtain c u where "findAccount s' (\<lambda>c. cr_phone c = normalizeMalawiPhoneNumber phone) = Some (c, u)"
    "cr_isActive c" "password_verify E new (cr_passwordHash c)"
    "\<forall>x\<in>set (ad_sessions s'). se_userId x = cr_id c \<longrightarrow> se_isRevoked x"
    "filter (\<lambda>x. se_userId x \<noteq> cr_id c) (ad_sessions s') = filter (\<lambda>x. se_userId x \<noteq> cr_id c) (ad_sessions s)"
    by blast
  then show "\<exists>c u. validateCredentials E phone new False s' = Inr (c, u) \<and>
        (\<forall>x\<in>set (ad_sessions s'). se_userId x = cr_id c \<longrightarrow> se_isRevoked x) \<and>
        filter (\<lambda>x. se_userId x \<noteq> cr_id c) (ad_sessions s') = filter (\<lambda>x. se_userId x \<noteq> cr_id c) (ad_sessions s)"
    by (intro exI [of _ c] exI [of _ u]) (simp add: validateCredentials_def)
next
  fix s' assume c: "changePassword (E\<lparr>ae_now := t\<rparr>) u sid old new s = (Inr (), s')"
  show "\<exists>c x. findAccount s' (\<lambda>c. cr_id c = u) = Some (c, x) \<and> password_verify E new (cr_passwordHash c)"
    and "\<forall>x\<in>set (ad_sessions s'). se_userId x = u \<longrightarrow> se_isRevoked x \<or> se_id x = sid"
    and "filter (\<lambda>x. se_id x = sid \<or> se_userId x \<noteq> u) (ad_sessions s') =
        filter (\<lambda>x. se_id x = sid \<or> se_userId x \<noteq> u) (ad_sessions s)"
    by (fact auth_runtime.changePassword_effect [OF assms c])+
qed (use resetPassword_wrong_code in blast)+

theorem password_change_ends_sessions_witness:
  "(\<exists>c x. findAccount (snd (changePassword (sample_env\<lparr>ae_now := 5\<rparr>) 7 1 ''pw'' ''new'' sample_auth)) (\<lambda>c. cr_id c = 7) = Some (c, x) \<and>
     password_verify sample_env ''new'' (cr_passwordHash c))"
proof -
  obtain s' where "changePassword (sample_env\<lparr>ae_now := 5\<rparr>) 7 1 ''pw'' ''new'' sample_auth = (Inr (), s')"
    by (simp add: changePassword_def identity_changePassword_def findAccount_def sample_auth_def sample_credential_def
        findUser_def password_verify_def sample_env_def draw_argon2_def update_user_def Let_def)
  with password_change_ends_sessions [OF sample.auth_runtime_axioms, of 5 _ _ "''new''" sample_auth 7 1 "''pw''"]
  show ?thesis by simp
qed

section \<open>The request guard\<close>

lemma idle_session_ends:
  assumes "findSession s sid = Some y \<and> owner_role s (se_userId y) = Some r \<and> IS_STAFF_ROLE r \<and>
    0 < ae_staffIdleTimeoutMinutes E \<and> ae_staffIdleTimeoutMinutes E * 60000 < ae_now E - se_lastActivityAt y"
  shows "fst (validateSession E sid s) = False"
    and "ae_now E \<le> se_expiresAt y \<Longrightarrow> \<exists>z. findSession (snd (validateSession E sid s)) sid = Some z \<and> se_isRevoked z"
proof -
  have idle: "isIdleExpired E (owner_role s (se_userId y)) (se_lastActivityAt y)"
    using assms by (simp add: isIdleExpired_def idleTimeoutMs_def Let_def)
  then show "fst (validateSession E sid s) = False" using assms by (simp add: validateSession_def)
  have "findSession (revokeForIdle E sid s) sid = Some (revoke_row E ''idle_timeout'' y)"
    using assms by (simp add: findSession_def revokeForIdle_def find_upd_where revoke_row_def)
  then show "\<exists>z. findSession (snd (validateSession E sid s)) sid = Some z \<and> se_isRevoked z" if "ae_now E \<le> se_expiresAt y"
    using assms idle that findSession_mem [of s sid y] by (simp add: validateSession_def revoke_row_def)
qed

text \<open>C30. The guard lets a request through on a protected route only with a bearer token that the
  library verifies and that is not blacklisted, whose session exists, is not revoked and not
  expired, and has been used by a person within the idle limit when its owner is staff; and it
  changes nothing then.  A staff session found idle is refused and revoked in the same step.\<close>

theorem guard_admits_live_sessions:
  shows "(\<forall>x s'. jwtAuthGuard E False header s = (Inr x, s') \<longrightarrow>
      s' = s \<and> (\<exists>token payload y.
        header = Some (''Bearer '' @ token) \<and> ae_jwt_access_verify E token (ae_now E) = JwtValid payload \<and>
        rget (ae_redis E) (ae_now E) (''blacklist:'' @ ap_jti payload) (ad_redis s) = None \<and>
        findSession s (ap_sid payload) = Some y \<and> \<not> se_isRevoked y \<and> ae_now E \<le> se_expiresAt y \<and>
        \<not> isIdleExpired E (owner_role s (se_userId y)) (se_lastActivityAt y) \<and>
        (\<exists>phone email. x = Some (payloadToUser payload phone email)))) \<and>
    (\<forall>y r. findSession s sid = Some y \<and> owner_role s (se_userId y) = Some r \<and> IS_STAFF_ROLE r \<and>
       0 < ae_staffIdleTimeoutMinutes E \<and>
       ae_staffIdleTimeoutMinutes E * 60000 < ae_now E - se_lastActivityAt y \<longrightarrow>
       fst (validateSession E sid s) = False \<and>
       (ae_now E \<le> se_expiresAt y \<longrightarrow>
         (\<exists>z. findSession (snd (validateSession E sid s)) sid = Some z \<and> se_isRevoked z)))"
proof (intro conjI allI impI)
  fix x s' assume g: "jwtAuthGuard E False header s = (Inr x, s')"
  then obtain h where h: "header = Some h" "startsWith h ''Bearer ''" by (auto simp: jwtAuthGuard_def split: option.splits if_splits)
  then have hd: "header = Some (''Bearer '' @ drop 7 h)" using startsWith_append [of h "''Bearer ''"] by (simp add: numeral_eq_Suc)
  obtain payload where p: "verifyAccessToken E (drop 7 h) s = Inr payload"
    using g h by (auto simp: jwtAuthGuard_def split: sum.splits)
  have v: "validateSession E (ap_sid payload) s = (True, s')" and x: "\<exists>phone email. x = Some (payloadToUser payload phone email)"
    using g h p by (auto simp: jwtAuthGuard_def Let_def split: prod.splits if_splits sum.splits)
  then obtain y where "findSession s (ap_sid payload) = Some y" "\<not> se_isRevoked y" "ae_now E \<le> se_expiresAt y"
      "\<not> isIdleExpired E (owner_role s (se_userId y)) (se_lastActivityAt y)" "s' = s"
    by (auto simp: validateSession_def split: option.splits if_splits)
  moreover have "ae_jwt_access_verify E (drop 7 h) (ae_now E) = JwtValid payload"
      "rget (ae_redis E) (ae_now E) (''blacklist:'' @ ap_jti payload) (ad_redis s) = None"
    using p by (auto simp: verifyAccessToken_def blacklist_key_def split: jwt_outcome.splits if_splits)
  ultimately show "s' = s" "\<exists>token payload y.
        header = Some (''Bearer '' @ token) \<and> ae_jwt_access_verify E token (ae_now E) = JwtValid payload \<and>
        rget (ae_redis E) (ae_now E) (''blacklist:'' @ ap_jti payload) (ad_redis s) = None \<and>
        findSession s (ap_sid payload) = Some y \<and> \<not> se_isRevoked y \<and> ae_now E \<le> se_expiresAt y \<and>
        \<not> isIdleExpired E (owner_role s (se_userId y)) (se_lastActivityAt y) \<and>
        (\<exists>phone email. x = Some (payloadToUser payload phone email))"
    using hd x by blast+
qed (use idle_session_ends in \<open>blast+\<close>)

definition sample_payload :: access_payload where
  "sample_payload = \<lparr>ap_sub = 7, ap_role = CUSTOMER, ap_sid = 1, ap_did = 2, ap_kyc = KYC_APPROVED, ap_jti = ''j''\<rparr>"

definition sample_session :: session where
  "sample_session =
     \<lparr>se_id = 1, se_userId = 7, se_deviceId = 2, se_refreshTokenHash = ''0'', se_familyId = ''1'', se_ipAddress = None,
      se_userAgent = None, se_isRevoked = False, se_revokedAt = None, se_revokedReason = None, se_expiresAt = 1000,
      se_createdAt = 0, se_lastUsedAt = 0, se_lastActivityAt = 0\<rparr>"

definition guard_env :: "kv auth_env" where
  "guard_env = sample_env\<lparr>ae_now := 10,
     ae_jwt_access_verify := (\<lambda>tok t. if tok = ''tok'' then JwtValid sample_payload else JwtInvalid)\<rparr>"

theorem guard_admits_live_sessions_witness:
  "\<exists>token payload y. Some ''Bearer tok'' = Some (''Bearer '' @ token) \<and>
     ae_jwt_access_verify guard_env token 10 = JwtValid payload \<and>
     findSession (sample_auth\<lparr>ad_sessions := [sample_session], ad_draws := 2\<rparr>) (ap_sid payload) = Some y \<and> \<not> se_isRevoked y"
proof -
  let ?s = "sample_auth\<lparr>ad_sessions := [sample_session], ad_draws := 2\<rparr>"
  have "\<exists>x s'. jwtAuthGuard guard_env False (Some ''Bearer tok'') ?s = (Inr x, s')"
    by (simp add: jwtAuthGuard_def startsWith_def verifyAccessToken_def guard_env_def sample_payload_def sample_env_def
        kv_redis_def kv_live_def sample_auth_def blacklist_key_def validateSession_def findSession_def sample_session_def
        isIdleExpired_def idleTimeoutMs_def owner_role_def findUser_def IS_STAFF_ROLE_def STAFF_ROLES_def getUserById_def
        findAccount_def sample_credential_def)
  moreover have "ae_now guard_env = 10" by (simp add: guard_env_def)
  ultimately show ?thesis
    using guard_admits_live_sessions [of guard_env "Some ''Bearer tok''" ?s 0] by fastforce
qed

end
