(* ===== verification/AdminAuth.thy ===== *)
theory AdminAuth
  imports Auth
begin

text \<open>
  Staff sign-in: \<^verbatim>\<open>mfa.service.ts\<close> and \<^verbatim>\<open>admin-auth.service.ts\<close> of \<^verbatim>\<open>src/modules/admin/services\<close>
  with the flows of \<^verbatim>\<open>controllers/admin-auth.controller.ts\<close>, and the step relation over all
  operations of the identity services.  HMAC, AES-GCM, the random bytes, the QR image and base64url
  are the fields of \<open>mfa_env\<close>.  A user id inside a token is its text, the decimal of the key.
\<close>

record mfa_env =
  me_hmac_sha1 :: hmac
  me_bytes :: "nat \<Rightarrow> nat \<Rightarrow> byte list"
  me_encrypt :: "string \<Rightarrow> string \<Rightarrow> string \<times> string"
  me_decrypt :: "string \<Rightarrow> string \<Rightarrow> string \<Rightarrow> string option"
  me_token_mac :: "string \<Rightarrow> string"
  me_base64url :: "string \<Rightarrow> string"
  me_unbase64url :: "string \<Rightarrow> string"
  me_qr :: "string \<Rightarrow> string"

section \<open>Setting up\<close>

definition nibble :: "nat \<Rightarrow> char" where
  "nibble n = (if n < 10 then char_of (48 + n) else char_of (87 + n))"

definition toHex :: "byte list \<Rightarrow> string" where
  "toHex bs = concat (map (\<lambda>b. [nibble (unat b div 16), nibble (unat b mod 16)]) bs)"

definition unreserved :: "char \<Rightarrow> bool" where
  "unreserved c \<longleftrightarrow> decimal_digit c \<or> (65 \<le> (of_char c :: nat) \<and> (of_char c :: nat) \<le> 90) \<or>
     (97 \<le> (of_char c :: nat) \<and> (of_char c :: nat) \<le> 122) \<or> c \<in> set ''-_.!~*()'' \<or> (of_char c :: nat) = 39"

definition encodeURIComponent :: "string \<Rightarrow> string" where
  "encodeURIComponent s =
     concat (map (\<lambda>c. if unreserved c then [c]
        else CHR ''%'' # toUpperCase [nibble (of_char c div 16), nibble (of_char c mod 16)]) s)"

definition findMfa :: "uuid \<Rightarrow> 's auth_db \<Rightarrow> mfa_config option" where
  "findMfa userId s = List.find (\<lambda>m. mf_userId m = userId) (ad_mfa s)"

definition isMfaEnabled :: "uuid \<Rightarrow> 's auth_db \<Rightarrow> bool" where
  "isMfaEnabled userId s = (case findMfa userId s of None \<Rightarrow> False | Some m \<Rightarrow> mf_isEnabled m)"

definition upd_mfa :: "uuid \<Rightarrow> (mfa_config \<Rightarrow> mfa_config) \<Rightarrow> 's auth_db \<Rightarrow> 's auth_db" where
  "upd_mfa userId f s = s\<lparr>ad_mfa := upd_where (\<lambda>m. mf_userId m = userId) f (ad_mfa s)\<rparr>"

definition RECOVERY_CODE_COUNT :: nat where "RECOVERY_CODE_COUNT = 10"

definition otpauthUri :: "string \<Rightarrow> string \<Rightarrow> string" where
  "otpauthUri userEmail secret =
     ''otpauth://totp/'' @ encodeURIComponent ''Pine Admin'' @ '':'' @ encodeURIComponent userEmail @
     ''?secret='' @ secret @ ''&issuer='' @ encodeURIComponent ''Pine Admin'' @
     ''&algorithm=SHA1&digits='' @ decimal TOTP_DIGITS @ ''&period='' @ decimal (nat TOTP_PERIOD)"

definition generateSetup ::
  "mfa_env \<Rightarrow> uuid \<Rightarrow> string \<Rightarrow> 's auth_db \<Rightarrow> (auth_err + string \<times> string \<times> string) \<times> 's auth_db" where
  "generateSetup M userId userEmail s =
     (if isMfaEnabled userId s
      then (Inl (App (Validation (Msg ''MFA is already enabled. Reset it first before re-configuring.''))), s)
      else let secret = encodeBase32 (me_bytes M (ad_draws s) 20);
               uri = otpauthUri userEmail secret;
               iv = toHex (me_bytes M (ad_draws s + 1) 16);
               (encrypted, tag) = me_encrypt M iv secret;
               s1 = s\<lparr>ad_draws := ad_draws s + 2\<rparr>
           in (Inr (secret, uri, me_qr M uri),
               if findMfa userId s \<noteq> None
               then upd_mfa userId (\<lambda>m. m\<lparr>mf_totpSecretEnc := encrypted, mf_totpSecretIv := iv, mf_totpSecretTag := tag,
                      mf_isEnabled := False, mf_enabledAt := None, mf_recoveryCodes := [], mf_recoveryCodesUsedCount := 0\<rparr>) s1
               else s1\<lparr>ad_mfa := ad_mfa s1 @ [\<lparr>mf_userId = userId, mf_totpSecretEnc = encrypted, mf_totpSecretIv = iv,
                      mf_totpSecretTag = tag, mf_isEnabled = False, mf_enabledAt = None, mf_recoveryCodes = [],
                      mf_recoveryCodesUsedCount = 0, mf_recoveryCodesGeneratedAt = None\<rparr>]\<rparr>))"

definition recovery_code :: "mfa_env \<Rightarrow> nat \<Rightarrow> string" where
  "recovery_code M n =
     (let hex = toUpperCase (toHex (me_bytes M n 4)) in take 4 hex @ ''-'' @ take 4 (drop 4 hex))"

definition generateRecoveryCodes :: "mfa_env \<Rightarrow> 's auth_db \<Rightarrow> string list \<times> 's auth_db" where
  "generateRecoveryCodes M s =
     (map (\<lambda>i. recovery_code M (ad_draws s + i)) [0..<RECOVERY_CODE_COUNT], s\<lparr>ad_draws := ad_draws s + RECOVERY_CODE_COUNT\<rparr>)"

definition totp_check :: "'s auth_env \<Rightarrow> mfa_env \<Rightarrow> mfa_config \<Rightarrow> string \<Rightarrow> auth_err + bool" where
  "totp_check E M m code =
     (case me_decrypt M (mf_totpSecretEnc m) (mf_totpSecretIv m) (mf_totpSecretTag m) of
        None \<Rightarrow> Inl (App (PlainError (Msg ''Unsupported state or unable to authenticate data'')))
      | Some secret \<Rightarrow>
          (case verifyTotp (me_hmac_sha1 M) (ae_now E) secret code of
             None \<Rightarrow> Inl (App (PlainError (Msg ''RangeError'')))
           | Some b \<Rightarrow> Inr b))"

definition confirmSetup ::
  "'s auth_env \<Rightarrow> mfa_env \<Rightarrow> uuid \<Rightarrow> string \<Rightarrow> 's auth_db \<Rightarrow> (auth_err + string list) \<times> 's auth_db" where
  "confirmSetup E M userId code s =
     (case findMfa userId s of
        None \<Rightarrow> (Inl (App (NotFound (Msg ''MfaConfig''))), s)
      | Some m \<Rightarrow>
          if mf_isEnabled m then (Inl (App (Validation (Msg ''MFA is already enabled.''))), s)
          else (case totp_check E M m code of
             Inl e \<Rightarrow> (Inl e, s)
           | Inr False \<Rightarrow> (Inl (App (Validation (Msg
               ''Invalid verification code. Please check your authenticator app and try again.''))), s)
           | Inr True \<Rightarrow>
               let (codes, s1) = generateRecoveryCodes M s;
                   hashed = map (\<lambda>(i, c). ae_argon2 E (ad_draws s1 + i) c) (enumerate 0 codes);
                   s2 = s1\<lparr>ad_draws := ad_draws s1 + length codes\<rparr>
               in (Inr codes,
                   upd_mfa userId (\<lambda>m. m\<lparr>mf_isEnabled := True, mf_enabledAt := Some (ae_now E), mf_recoveryCodes := hashed,
                     mf_recoveryCodesGeneratedAt := Some (ae_now E)\<rparr>) s2)))"

section \<open>Verifying\<close>

definition verifyCode :: "'s auth_env \<Rightarrow> mfa_env \<Rightarrow> uuid \<Rightarrow> string \<Rightarrow> 's auth_db \<Rightarrow> auth_err + bool" where
  "verifyCode E M userId code s =
     (case findMfa userId s of
        Some m \<Rightarrow> if mf_isEnabled m then totp_check E M m code
                  else Inl (App (Validation (Msg ''MFA is not enabled for this account.'')))
      | None \<Rightarrow> Inl (App (Validation (Msg ''MFA is not enabled for this account.''))))"

text \<open>The loop over the stored hashes: the index of the first match, if any.\<close>

fun match_recovery :: "'s auth_env \<Rightarrow> string \<Rightarrow> nat \<Rightarrow> string list \<Rightarrow> auth_err + nat option" where
  "match_recovery E code i [] = Inr None"
| "match_recovery E code i (h # hs) =
     (if h = [] then match_recovery E code (i + 1) hs
      else case ae_argon2_verify E h code of
        None \<Rightarrow> Inl (App (PlainError (Msg ''argon2'')))
      | Some True \<Rightarrow> Inr (Some i)
      | Some False \<Rightarrow> match_recovery E code (i + 1) hs)"

definition verifyRecoveryCode ::
  "'s auth_env \<Rightarrow> uuid \<Rightarrow> string \<Rightarrow> 's auth_db \<Rightarrow> (auth_err + bool) \<times> 's auth_db" where
  "verifyRecoveryCode E userId code s =
     (case findMfa userId s of
        None \<Rightarrow> (Inl (App (Validation (Msg ''MFA is not enabled for this account.''))), s)
      | Some m \<Rightarrow>
          if \<not> mf_isEnabled m then (Inl (App (Validation (Msg ''MFA is not enabled for this account.''))), s)
          else (case match_recovery E code 0 (mf_recoveryCodes m) of
             Inl e \<Rightarrow> (Inl e, s)
           | Inr None \<Rightarrow> (Inr False, s)
           | Inr (Some i) \<Rightarrow>
               (Inr True, upd_mfa userId (\<lambda>x. x\<lparr>mf_recoveryCodes := (mf_recoveryCodes m)[i := []],
                  mf_recoveryCodesUsedCount := mf_recoveryCodesUsedCount m + 1\<rparr>) s)))"

definition getMfaStatus :: "uuid \<Rightarrow> 's auth_db \<Rightarrow> bool \<times> timestamp option \<times> int" where
  "getMfaStatus userId s =
     (case findMfa userId s of
        None \<Rightarrow> (False, None, 0)
      | Some m \<Rightarrow> (mf_isEnabled m, mf_enabledAt m,
          int (length (mf_recoveryCodes m)) - int (length (filter (\<lambda>c. c = []) (mf_recoveryCodes m)))))"

definition resetMfa :: "uuid \<Rightarrow> 's auth_db \<Rightarrow> (auth_err + unit) \<times> 's auth_db" where
  "resetMfa userId s =
     (if findMfa userId s = None then (Inl (App (NotFound (Msg ''MfaConfig''))), s)
      else (Inr (), s\<lparr>ad_mfa := filter (\<lambda>m. mf_userId m \<noteq> userId) (ad_mfa s)\<rparr>))"

section \<open>The token between the two steps\<close>

fun split_colon :: "string \<Rightarrow> string list" where
  "split_colon [] = [[]]"
| "split_colon (c # cs) =
     (if c = CHR '':'' then [] # split_colon cs
      else case split_colon cs of p # ps \<Rightarrow> (c # p) # ps | [] \<Rightarrow> [[c]])"

text \<open>\<open>parseInt\<close> reads the leading digits; without any it is \<open>NaN\<close>, which no instant exceeds.\<close>

definition parse_int :: "string \<Rightarrow> int option" where
  "parse_int s =
     (let t = dropWhile is_space s; neg = startsWith t ''-'';
          ds = takeWhile decimal_digit (if neg \<or> startsWith t ''+'' then drop 1 t else t)
      in if ds = [] then None else Some (if neg then - number_of ds else number_of ds))"

definition generateMfaToken :: "'s auth_env \<Rightarrow> mfa_env \<Rightarrow> uuid \<Rightarrow> string" where
  "generateMfaToken E M userId =
     (let payload = decimal userId @ '':'' @ show_int (ae_now E + 5 * 60 * 1000)
      in me_base64url M (payload @ '':'' @ me_token_mac M payload))"

definition verifyMfaToken :: "'s auth_env \<Rightarrow> mfa_env \<Rightarrow> string \<Rightarrow> auth_err + string" where
  "verifyMfaToken E M token =
     (let failure = Inl (Unauthorized (Plain ''Invalid or expired MFA token. Please log in again.'') UNAUTHORIZED)
      in case split_colon (me_unbase64url M token) of
           userId # expiresAtStr # signature # _ \<Rightarrow>
             if userId = [] \<or> expiresAtStr = [] \<or> signature = [] then failure
             else if timingSafeEqual signature (me_token_mac M (userId @ '':'' @ expiresAtStr)) \<noteq> Some True then failure
             else (case parse_int expiresAtStr of
                     Some e \<Rightarrow> if e < ae_now E then failure else Inr userId
                   | None \<Rightarrow> Inr userId)
         | _ \<Rightarrow> failure)"

section \<open>Sign-in\<close>

datatype mfa_required = MfaSetup | MfaVerify

record staff_profile =
  sp_id :: uuid
  sp_email :: "string option"
  sp_role :: role
  sp_isBrokerStaff :: bool
  sp_sections :: "string list option"
  sp_mustChangePassword :: bool

definition staffProfile :: "credential \<Rightarrow> user \<Rightarrow> staff_profile" where
  "staffProfile c u =
     \<lparr>sp_id = cr_id c, sp_email = cr_email c, sp_role = u_role u, sp_isBrokerStaff = cr_isBrokerStaff c,
      sp_sections = (if cr_isBrokerStaff c then Some (cr_staffSections c) else None),
      sp_mustChangePassword = cr_mustChangePassword c\<rparr>"

definition admin_audit :: "credential \<Rightarrow> user \<Rightarrow> string \<Rightarrow> 's auth_db \<Rightarrow> 's auth_db" where
  "admin_audit c u action =
     audit_log \<lparr>ax_actorId = cr_id c, ax_actorRole = Some (u_role u), ax_action = action,
       ax_resourceType = ''USER'', ax_resourceId = cr_id c\<rparr>"

definition admin_login ::
  "'s auth_env \<Rightarrow> mfa_env \<Rightarrow> string \<Rightarrow> string \<Rightarrow> 's auth_db
    \<Rightarrow> (auth_err + mfa_required \<times> string \<times> staff_profile) \<times> 's auth_db" where
  "admin_login E M email password s =
     (case findAccount s (\<lambda>c. cr_email c = Some email) of
        None \<Rightarrow> (Inl (Unauthorized (Plain ''Invalid email or password'') UNAUTHORIZED), s)
      | Some (c, u) \<Rightarrow>
          if \<not> password_verify E password (cr_passwordHash c)
          then (Inl (Unauthorized (Plain ''Invalid email or password'') UNAUTHORIZED), admin_audit c u ''ADMIN_LOGIN_FAILED'' s)
          else if \<not> IS_STAFF_ROLE (u_role u)
          then (Inl (App (Forbidden (Msg ''This account does not have admin access''))), admin_audit c u ''ADMIN_LOGIN_DENIED'' s)
          else if \<not> cr_isActive c then (Inl (App (Forbidden (Msg ''This account has been deactivated''))), s)
          else let mfaToken = generateMfaToken E M (cr_id c)
               in if \<not> isMfaEnabled (cr_id c) s
                  then (Inr (MfaSetup, mfaToken, staffProfile c u), admin_audit c u ''ADMIN_LOGIN_MFA_SETUP_REQUIRED'' s)
                  else (Inr (MfaVerify, mfaToken, staffProfile c u), s))"

definition admin_fingerprint :: "uuid \<Rightarrow> string" where
  "admin_fingerprint userId = ''admin-dashboard-'' @ decimal userId"

definition getOrCreateAdminDevice :: "'s auth_env \<Rightarrow> uuid \<Rightarrow> string option \<Rightarrow> 's auth_db \<Rightarrow> uuid \<times> 's auth_db" where
  "getOrCreateAdminDevice E userId ipAddress s =
     (case List.find (\<lambda>d. dv_userId d = userId \<and> dv_fingerprint d = admin_fingerprint userId) (ad_devices s) of
        Some existing \<Rightarrow>
          (dv_id existing,
           s\<lparr>ad_devices := upd_where (\<lambda>d. dv_id d = dv_id existing)
               (\<lambda>d. d\<lparr>dv_lastSeenAt := ae_now E, dv_lastSeenIp := (if ipAddress = None then dv_lastSeenIp d else ipAddress)\<rparr>)
               (ad_devices s)\<rparr>)
      | None \<Rightarrow>
          (ad_uid s,
           s\<lparr>ad_devices := ad_devices s @ [\<lparr>dv_id = ad_uid s, dv_userId = userId, dv_fingerprint = admin_fingerprint userId,
               dv_platform = ''web'', dv_osVersion = Some ''admin-dashboard'', dv_appVersion = None, dv_pushToken = None,
               dv_trustLevel = TRUSTED, dv_trustScore = 100, dv_firstSeenAt = ae_now E, dv_lastSeenAt = ae_now E,
               dv_lastSeenIp = ipAddress, dv_isRevoked = False, dv_revokedAt = None\<rparr>], ad_uid := ad_uid s + 1\<rparr>))"

text \<open>What \<open>completeMfaVerification\<close> and \<open>issueTokensForUser\<close> both end with.\<close>

definition issue_tokens ::
  "'s auth_env \<Rightarrow> credential \<Rightarrow> user \<Rightarrow> string option \<Rightarrow> string option \<Rightarrow> 's auth_db
    \<Rightarrow> (string \<times> string \<times> staff_profile) \<times> 's auth_db" where
  "issue_tokens E c u ipAddress userAgent s =
     (let (deviceId, s1) = getOrCreateAdminDevice E (cr_id c) ipAddress s;
          ((sessionId, refreshToken, accessToken, expiresIn), s2) = open_session E c u deviceId ipAddress userAgent s1
      in ((accessToken, refreshToken, staffProfile c u), admin_audit c u ''ADMIN_LOGIN_SUCCESS'' s2))"

definition completeMfaVerification ::
  "'s auth_env \<Rightarrow> mfa_env \<Rightarrow> string \<Rightarrow> string \<Rightarrow> string option \<Rightarrow> string option \<Rightarrow> 's auth_db
    \<Rightarrow> (auth_err + string \<times> string \<times> staff_profile) \<times> 's auth_db" where
  "completeMfaVerification E M mfaToken code ipAddress userAgent s =
     (case verifyMfaToken E M mfaToken of
        Inl e \<Rightarrow> (Inl e, s)
      | Inr userId \<Rightarrow>
          (case findAccount s (\<lambda>c. decimal (cr_id c) = userId) of
             None \<Rightarrow> (Inl (Unauthorized (Plain ''Invalid MFA token'') UNAUTHORIZED), s)
           | Some (c, u) \<Rightarrow>
               let totp = (case verifyCode E M (cr_id c) code s of Inr b \<Rightarrow> b | Inl _ \<Rightarrow> False)
               in and_then (if totp then (Inr True, s) else verifyRecoveryCode E (cr_id c) code s) (\<lambda>isValid s1.
                    if \<not> isValid
                    then (Inl (Unauthorized (Plain ''Invalid verification code'') UNAUTHORIZED), admin_audit c u ''ADMIN_MFA_FAILED'' s1)
                    else let (r, s2) = issue_tokens E c u ipAddress userAgent s1 in (Inr r, s2))))"

definition issueTokensForUser ::
  "'s auth_env \<Rightarrow> string \<Rightarrow> string option \<Rightarrow> string option \<Rightarrow> 's auth_db
    \<Rightarrow> (auth_err + string \<times> string \<times> staff_profile) \<times> 's auth_db" where
  "issueTokensForUser E userId ipAddress userAgent s =
     (case findAccount s (\<lambda>c. decimal (cr_id c) = userId) of
        None \<Rightarrow> (Inl (Unauthorized (Plain ''User not found'') UNAUTHORIZED), s)
      | Some (c, u) \<Rightarrow> let (r, s1) = issue_tokens E c u ipAddress userAgent s in (Inr r, s1))"

definition setupMfa ::
  "'s auth_env \<Rightarrow> mfa_env \<Rightarrow> string \<Rightarrow> 's auth_db \<Rightarrow> (auth_err + string \<times> string \<times> string) \<times> 's auth_db" where
  "setupMfa E M mfaToken s =
     (case verifyMfaToken E M mfaToken of
        Inl e \<Rightarrow> (Inl e, s)
      | Inr userId \<Rightarrow>
          (case findAccount s (\<lambda>c. decimal (cr_id c) = userId) of
             None \<Rightarrow> (Inl (App (PlainError (Msg ''User not found when resolving email for audit log''))), s)
           | Some (c, u) \<Rightarrow> generateSetup M (cr_id c) (case cr_email c of Some e \<Rightarrow> e | None \<Rightarrow> ''null'') s))"

definition confirmMfaSetup ::
  "'s auth_env \<Rightarrow> mfa_env \<Rightarrow> string \<Rightarrow> string \<Rightarrow> string option \<Rightarrow> string option \<Rightarrow> 's auth_db
    \<Rightarrow> (auth_err + (string \<times> string \<times> staff_profile) \<times> string list) \<times> 's auth_db" where
  "confirmMfaSetup E M mfaToken code ipAddress userAgent s =
     (case verifyMfaToken E M mfaToken of
        Inl e \<Rightarrow> (Inl e, s)
      | Inr userId \<Rightarrow>
          (case findAccount s (\<lambda>c. decimal (cr_id c) = userId) of
             None \<Rightarrow> (Inl (App (NotFound (Msg ''MfaConfig''))), s)
           | Some (c, u) \<Rightarrow>
               and_then (confirmSetup E M (cr_id c) code s) (\<lambda>codes s1.
                 let s2 = audit_log \<lparr>ax_actorId = cr_id c, ax_actorRole = None, ax_action = ''MFA_ENABLED'',
                            ax_resourceType = ''USER'', ax_resourceId = cr_id c\<rparr> s1
                 in and_then (issueTokensForUser E userId ipAddress userAgent s2) (\<lambda>tokens s3. (Inr (tokens, codes), s3)))))"

definition resetMfa_handler :: "authenticated_user \<Rightarrow> uuid \<Rightarrow> 's auth_db \<Rightarrow> (auth_err + unit) \<times> 's auth_db" where
  "resetMfa_handler admin userId s =
     (case rolesGuard (Some [SUPER_ADMIN]) (Some admin) of
        Inl e \<Rightarrow> (Inl (App e), s)
      | Inr _ \<Rightarrow>
          and_then (resetMfa userId s) (\<lambda>_ s1.
            (Inr (), audit_log \<lparr>ax_actorId = ru_id admin, ax_actorRole = Some (ru_role admin),
               ax_action = ''MFA_RESET_BY_ADMIN'', ax_resourceType = ''USER'', ax_resourceId = userId\<rparr> s1)))"

definition refreshTokens :: "'s auth_env \<Rightarrow> string \<Rightarrow> 's auth_db \<Rightarrow> (auth_err + string \<times> string) \<times> 's auth_db" where
  "refreshTokens E refreshToken s =
     and_then (rotateRefreshToken E refreshToken s) (\<lambda>(sessionId, userId, deviceId, newRefreshToken) s1.
       case findAccount s1 (\<lambda>c. cr_id c = userId) of
         None \<Rightarrow> (Inl (Unauthorized (Plain ''User not found'') UNAUTHORIZED), s1)
       | Some (c, u) \<Rightarrow>
           let ((accessToken, expiresIn), s2) =
                 signAccessToken E (cr_id c) (u_role u) sessionId deviceId (u_kycStatus u) s1
           in (Inr (accessToken, newRefreshToken), s2))"

definition admin_logout :: "'s auth_env \<Rightarrow> uuid \<Rightarrow> uuid \<Rightarrow> 's auth_db \<Rightarrow> 's auth_db" where
  "admin_logout E sessionId userId s =
     audit_log \<lparr>ax_actorId = userId, ax_actorRole = None, ax_action = ''ADMIN_LOGOUT'', ax_resourceType = ''SESSION'',
       ax_resourceId = sessionId\<rparr> (revokeSession E sessionId userId ''admin_logout'' s)"

section \<open>The second factor\<close>

locale mfa_runtime =
  fixes M :: mfa_env
  assumes base64_inverse: "me_unbase64url M (me_base64url M x) = x"
    and mac_hex: "me_token_mac M p \<noteq> []" "CHR '':'' \<notin> set (me_token_mac M p)"

lemma split_colon_plain: "CHR '':'' \<notin> set s \<Longrightarrow> split_colon s = [s]"
  by (induction s) auto

lemma split_colon_append: "CHR '':'' \<notin> set s \<Longrightarrow> split_colon (s @ CHR '':'' # r) = s # split_colon r"
  by (induction s) auto

lemma decimal_no_colon: "CHR '':'' \<notin> set (decimal n)"
  using decimal_digits [of n] by (auto simp: list_all_iff decimal_digit_def)

lemma show_int_no_colon: "CHR '':'' \<notin> set (show_int n)"
  by (simp add: show_int_def decimal_no_colon)

lemma decimal_not_Nil [simp]: "decimal n \<noteq> []"
  by (simp add: decimal.simps)

lemma parse_show_int: "0 \<le> n \<Longrightarrow> parse_int (show_int n) = Some n"
proof -
  assume n: "0 \<le> n"
  obtain c cs where d: "decimal (nat n) = c # cs" by (cases "decimal (nat n)") auto
  have all: "list_all decimal_digit (c # cs)" using decimal_digits [of "nat n"] d by simp
  then have c: "\<not> is_space c" "c \<noteq> CHR ''-''" "c \<noteq> CHR ''+''" by (auto simp: decimal_digit_def is_space_def)
  moreover have "takeWhile decimal_digit (c # cs) = c # cs" using all by (simp add: takeWhile_eq_all_conv list_all_iff)
  ultimately show ?thesis
    using n number_of_decimal [of "nat n"] by (simp add: parse_int_def show_int_def d startsWith_def Let_def)
qed

text \<open>The token handed out after the password check names its user for exactly five minutes:
  verified at any later instant it gives that user's id back up to the five minutes and is refused
  afterwards; a token that does not carry the server's own signature over its id and expiry is
  refused whatever it says.\<close>

lemma mfa_token_lives_five_minutes:
  assumes "mfa_runtime M" and "0 \<le> t"
  shows "verifyMfaToken (E\<lparr>ae_now := t'\<rparr>) M (generateMfaToken (E\<lparr>ae_now := t\<rparr>) M userId) =
      (if t' \<le> t + 5 * 60 * 1000 then Inr (decimal userId)
       else Inl (Unauthorized (Plain ''Invalid or expired MFA token. Please log in again.'') UNAUTHORIZED)) \<and>
    (\<forall>token u. verifyMfaToken E M token = Inr u \<longrightarrow>
      (\<exists>e rest. split_colon (me_unbase64url M token) = u # e # me_token_mac M (u @ '':'' @ e) # rest))"
proof
  let ?e = "show_int (t + 300000)"
  let ?p = "decimal userId @ '':'' @ ?e"
  have "split_colon (me_unbase64url M (me_base64url M (?p @ '':'' @ me_token_mac M ?p))) =
      [decimal userId, ?e, me_token_mac M ?p]"
    using mfa_runtime.mac_hex [OF assms(1)]
    by (simp add: mfa_runtime.base64_inverse [OF assms(1)] split_colon_append split_colon_plain decimal_no_colon show_int_no_colon)
  moreover have "parse_int ?e = Some (t + 300000)" using assms(2) by (intro parse_show_int) simp
  moreover have "?e \<noteq> []" by (simp add: show_int_def)
  ultimately show "verifyMfaToken (E\<lparr>ae_now := t'\<rparr>) M (generateMfaToken (E\<lparr>ae_now := t\<rparr>) M userId) =
      (if t' \<le> t + 5 * 60 * 1000 then Inr (decimal userId)
       else Inl (Unauthorized (Plain ''Invalid or expired MFA token. Please log in again.'') UNAUTHORIZED))"
    using mfa_runtime.mac_hex(1) [OF assms(1)]
    by (simp add: verifyMfaToken_def generateMfaToken_def timingSafeEqual_def Let_def)
  show "\<forall>token u. verifyMfaToken E M token = Inr u \<longrightarrow>
      (\<exists>e rest. split_colon (me_unbase64url M token) = u # e # me_token_mac M (u @ '':'' @ e) # rest)"
    by (auto simp: verifyMfaToken_def timingSafeEqual_def Let_def split: list.splits if_splits option.splits)
qed

definition sample_mfa :: mfa_env where
  "sample_mfa =
     \<lparr>me_hmac_sha1 = sample_hmac, me_bytes = (\<lambda>n k. replicate k (of_nat n)), me_encrypt = (\<lambda>iv p. (p, iv)),
      me_decrypt = (\<lambda>c iv tag. if tag = iv then Some c else None), me_token_mac = (\<lambda>p. ''mac'' @ filter decimal_digit p),
      me_base64url = rev, me_unbase64url = rev, me_qr = (\<lambda>u. u)\<rparr>"

interpretation sample_mfa: mfa_runtime sample_mfa
  by unfold_locales (auto simp: sample_mfa_def decimal_digit_def)

section \<open>Recovery codes\<close>

definition unused_codes :: "uuid \<Rightarrow> 's auth_db \<Rightarrow> nat" where
  "unused_codes userId s =
     (case findMfa userId s of None \<Rightarrow> 0 | Some m \<Rightarrow> length (filter (\<lambda>h. h \<noteq> []) (mf_recoveryCodes m)))"

fun recovery_attempts ::
  "'s auth_env \<Rightarrow> uuid \<Rightarrow> string list \<Rightarrow> 's auth_db \<Rightarrow> (auth_err + bool) list \<times> 's auth_db" where
  "recovery_attempts E userId [] s = ([], s)"
| "recovery_attempts E userId (code # codes) s =
     (let (r, s1) = verifyRecoveryCode E userId code s; (rs, s2) = recovery_attempts E userId codes s1 in (r # rs, s2))"

lemma match_recovery_Some:
  "match_recovery E code k hs = Inr (Some i) \<Longrightarrow>
     k \<le> i \<and> i - k < length hs \<and> hs ! (i - k) \<noteq> [] \<and> ae_argon2_verify E (hs ! (i - k)) code = Some True"
proof (induction hs arbitrary: k)
  case (Cons h hs)
  show ?case
  proof (cases "h \<noteq> [] \<and> ae_argon2_verify E h code = Some True")
    case True
    then show ?thesis using Cons.prems by auto
  next
    case False
    then have "match_recovery E code (k + 1) hs = Inr (Some i)"
      using Cons.prems by (auto split: if_splits option.splits bool.splits)
    from Cons.IH [OF this] show ?thesis by (auto simp: Suc_diff_le nth_Cons' not_le)
  qed
qed simp

lemma length_filter_blank:
  "i < length hs \<Longrightarrow> hs ! i \<noteq> [] \<Longrightarrow> Suc (length (filter (\<lambda>h. h \<noteq> []) (hs[i := []]))) = length (filter (\<lambda>h. h \<noteq> []) hs)"
proof (induction hs arbitrary: i)
  case (Cons h hs)
  then show ?case by (cases i) auto
qed simp

lemma recovery_step:
  assumes "verifyRecoveryCode E userId code s = (r, s')"
  shows "unused_codes userId s = (if r = Inr True then 1 else 0) + unused_codes userId s'"
proof (cases "r = Inr True")
  case True
  then obtain m i where m: "findMfa userId s = Some m" "match_recovery E code 0 (mf_recoveryCodes m) = Inr (Some i)"
    and s': "s' = upd_mfa userId (\<lambda>x. x\<lparr>mf_recoveryCodes := (mf_recoveryCodes m)[i := []],
                  mf_recoveryCodesUsedCount := mf_recoveryCodesUsedCount m + 1\<rparr>) s"
    using assms by (auto simp: verifyRecoveryCode_def split: option.splits sum.splits if_splits)
  have "\<exists>n. findMfa userId s' = Some (m\<lparr>mf_recoveryCodes := (mf_recoveryCodes m)[i := []], mf_recoveryCodesUsedCount := n\<rparr>)"
    using m(1) by (auto simp: s' findMfa_def upd_mfa_def find_upd_where)
  then show ?thesis
    using match_recovery_Some [OF m(2)] length_filter_blank [of i "mf_recoveryCodes m"] m(1) True
    by (auto simp: unused_codes_def)
next
  case False
  then have "s' = s" using assms by (auto simp: verifyRecoveryCode_def split: option.splits sum.splits if_splits)
  with False show ?thesis by simp
qed

text \<open>Every accepted recovery code uses up exactly one of the stored codes and every refused
  one none, so over any sequence of attempts the number accepted is the number of codes that went
  from unused to used, and never more than were issued.\<close>

lemma recovery_codes_run_out:
  "unused_codes userId s =
     length (filter (\<lambda>r. r = Inr True) (fst (recovery_attempts E userId codes s))) +
     unused_codes userId (snd (recovery_attempts E userId codes s))"
proof (induction codes arbitrary: s)
  case (Cons code codes)
  obtain r s1 where v: "verifyRecoveryCode E userId code s = (r, s1)" by (rule prod.exhaust)
  show ?case using recovery_step [OF v] Cons.IH [of s1] by (simp add: v case_prod_beta)
qed simp

section \<open>Staff sign in with two factors\<close>

definition totp_accepted :: "'s auth_env \<Rightarrow> mfa_env \<Rightarrow> mfa_config \<Rightarrow> string \<Rightarrow> bool" where
  "totp_accepted E M m code \<longleftrightarrow>
     (\<exists>secret. me_decrypt M (mf_totpSecretEnc m) (mf_totpSecretIv m) (mf_totpSecretTag m) = Some secret \<and>
        verifyTotp (me_hmac_sha1 M) (ae_now E) secret code = Some True)"

lemma verifyCode_True:
  "verifyCode E M u code s = Inr True \<Longrightarrow> \<exists>m. findMfa u s = Some m \<and> mf_isEnabled m \<and> totp_accepted E M m code"
  by (auto simp: verifyCode_def totp_check_def totp_accepted_def split: option.splits if_splits)

lemma verifyRecoveryCode_True:
  assumes "verifyRecoveryCode E u code s = (Inr True, s')"
  shows "\<exists>m i. findMfa u s = Some m \<and> mf_isEnabled m \<and> i < length (mf_recoveryCodes m) \<and>
    mf_recoveryCodes m ! i \<noteq> [] \<and> ae_argon2_verify E (mf_recoveryCodes m ! i) code = Some True"
proof -
  obtain m i where "findMfa u s = Some m" "mf_isEnabled m" "match_recovery E code 0 (mf_recoveryCodes m) = Inr (Some i)"
    using assms by (auto simp: verifyRecoveryCode_def split: option.splits sum.splits if_splits)
  with match_recovery_Some [of E code 0 "mf_recoveryCodes m" i] show ?thesis by auto
qed

lemma verifyMfaToken_Inr:
  assumes "verifyMfaToken E M token = Inr userId"
  shows "\<exists>expiry rest. split_colon (me_unbase64url M token) = userId # expiry # me_token_mac M (userId @ '':'' @ expiry) # rest \<and>
     (\<forall>e. parse_int expiry = Some e \<longrightarrow> ae_now E \<le> e)"
  using assms by (auto simp: verifyMfaToken_def timingSafeEqual_def Let_def not_less split: list.splits if_splits option.splits)

text \<open>C26. Staff cannot sign in with a password alone.  The customer login refuses every staff account and
  opens no session for it; the admin login never issues a token pair; and completing it succeeds only
  with a token that decodes to an account, an expiry that has not passed and the server's own
  signature over both, for an account with MFA enabled, and with a code that is a current TOTP code of
  its secret or an unused recovery code.\<close>

theorem staff_sign_in_needs_second_factor:
  shows "(\<forall>r s'. login E dto ip ua s = (Inr r, s') \<longrightarrow> \<not> IS_STAFF_ROLE (ud_role (rs_user r))) \<and>
    (\<forall>c u. findAccount s (\<lambda>c. cr_email c = Some email) = Some (c, u) \<and> IS_STAFF_ROLE (u_role u) \<and>
       lg_email dto = Some email \<and> email \<noteq> [] \<longrightarrow>
       (\<exists>e. login E dto ip ua s = (Inl e, s))) \<and>
    ad_sessions (snd (admin_login E M email password s)) = ad_sessions s \<and>
    (\<forall>r s'. completeMfaVerification E M token code ip ua s = (Inr r, s') \<longrightarrow>
      (\<exists>userId expiry rest c u m.
         split_colon (me_unbase64url M token) = userId # expiry # me_token_mac M (userId @ '':'' @ expiry) # rest \<and>
         (\<forall>e. parse_int expiry = Some e \<longrightarrow> ae_now E \<le> e) \<and>
         findAccount s (\<lambda>c. decimal (cr_id c) = userId) = Some (c, u) \<and>
         findMfa (cr_id c) s = Some m \<and> mf_isEnabled m \<and>
         (totp_accepted E M m code \<or>
          (\<exists>i. i < length (mf_recoveryCodes m) \<and> mf_recoveryCodes m ! i \<noteq> [] \<and>
             ae_argon2_verify E (mf_recoveryCodes m ! i) code = Some True))))"
proof (intro conjI allI impI)
  fix r s' assume "login E dto ip ua s = (Inr r, s')"
  then show "\<not> IS_STAFF_ROLE (ud_role (rs_user r))"
    by (auto simp: login_def Let_def user_dto_def split: option.splits sum.splits prod.splits if_splits)
next
  fix c u assume "findAccount s (\<lambda>c. cr_email c = Some email) = Some (c, u) \<and> IS_STAFF_ROLE (u_role u) \<and>
       lg_email dto = Some email \<and> email \<noteq> []"
  then show "\<exists>e. login E dto ip ua s = (Inl e, s)"
    by (auto simp: login_def validateCredentials_def falsy_def)
next
  show "ad_sessions (snd (admin_login E M email password s)) = ad_sessions s"
    by (auto simp: admin_login_def admin_audit_def audit_log_def Let_def split: option.splits)
next
  fix r s' assume r: "completeMfaVerification E M token code ip ua s = (Inr r, s')"
  then obtain userId c u where t: "verifyMfaToken E M token = Inr userId"
      "findAccount s (\<lambda>c. decimal (cr_id c) = userId) = Some (c, u)"
    by (auto simp: completeMfaVerification_def split: sum.splits option.splits)
  have "verifyCode E M (cr_id c) code s = Inr True \<or> fst (verifyRecoveryCode E (cr_id c) code s) = Inr True"
    using r t by (auto simp: completeMfaVerification_def and_then_def Let_def split: sum.splits if_splits prod.splits)
  then have "\<exists>m. findMfa (cr_id c) s = Some m \<and> mf_isEnabled m \<and>
         (totp_accepted E M m code \<or>
          (\<exists>i. i < length (mf_recoveryCodes m) \<and> mf_recoveryCodes m ! i \<noteq> [] \<and>
             ae_argon2_verify E (mf_recoveryCodes m ! i) code = Some True))"
    using verifyCode_True verifyRecoveryCode_True by (metis prod.collapse)
  with t(2) verifyMfaToken_Inr [OF t(1)] show "\<exists>userId expiry rest c u m.
         split_colon (me_unbase64url M token) = userId # expiry # me_token_mac M (userId @ '':'' @ expiry) # rest \<and>
         (\<forall>e. parse_int expiry = Some e \<longrightarrow> ae_now E \<le> e) \<and>
         findAccount s (\<lambda>c. decimal (cr_id c) = userId) = Some (c, u) \<and>
         findMfa (cr_id c) s = Some m \<and> mf_isEnabled m \<and>
         (totp_accepted E M m code \<or>
          (\<exists>i. i < length (mf_recoveryCodes m) \<and> mf_recoveryCodes m ! i \<noteq> [] \<and>
             ae_argon2_verify E (mf_recoveryCodes m ! i) code = Some True))"
    by blast
qed

section \<open>Every operation of the identity services\<close>

lemma admin_frames [session_frames]:
  "keeps_sessions s (snd (generateSetup M u em s))" "keeps_sessions s (snd (confirmSetup E' M u co s))"
  "keeps_sessions s (snd (verifyRecoveryCode E' u co s))" "keeps_sessions s (snd (resetMfa u s))"
  "keeps_sessions s (snd (getOrCreateAdminDevice E' u ip s))" "keeps_sessions s (snd (admin_login E' M em pw s))"
  "keeps_sessions s (snd (setupMfa E' M tok s))"
proof -
  show gen: "keeps_sessions s (snd (generateSetup M u em s))" for u em
    by (auto simp: keeps_sessions_def generateSetup_def upd_mfa_def Let_def split: prod.split)
  show "keeps_sessions s (snd (confirmSetup E' M u co s))"
    by (auto simp: keeps_sessions_def confirmSetup_def upd_mfa_def generateRecoveryCodes_def Let_def
        split: option.split sum.split bool.split)
  show "keeps_sessions s (snd (verifyRecoveryCode E' u co s))"
    by (auto simp: keeps_sessions_def verifyRecoveryCode_def upd_mfa_def split: option.split sum.split)
  show "keeps_sessions s (snd (resetMfa u s))" by (simp add: keeps_sessions_def resetMfa_def)
  show "keeps_sessions s (snd (getOrCreateAdminDevice E' u ip s))"
    by (auto simp: keeps_sessions_def getOrCreateAdminDevice_def split: option.split)
  show "keeps_sessions s (snd (admin_login E' M em pw s))"
    by (auto simp: keeps_sessions_def admin_login_def admin_audit_def audit_log_def Let_def split: option.split)
  show "keeps_sessions s (snd (setupMfa E' M tok s))"
    using gen by (auto simp: setupMfa_def frames(1) split: sum.split option.split)
qed

lemmas admin_frames_evolve [simp] = admin_frames [THEN keeps_sessions_evolves]

context auth_runtime
begin

lemma evolves_issue_tokens: "evolves E s (snd (issue_tokens (E\<lparr>ae_now := t\<rparr>) c u ip ua s))"
proof -
  have "evolves E s (snd (open_session (E\<lparr>ae_now := t\<rparr>) c u d ip ua (snd (getOrCreateAdminDevice (E\<lparr>ae_now := t\<rparr>) i ip s))))" for d i
    by (rule evolves_trans [OF _ evolves_open_session]) simp
  then show ?thesis
    unfolding issue_tokens_def admin_audit_def by (simp add: Let_def case_prod_beta frames_evolve_later)
qed

lemma evolves_completeMfa: "evolves E s (snd (completeMfaVerification (E\<lparr>ae_now := t\<rparr>) M tok co ip ua s))"
  unfolding completeMfaVerification_def admin_audit_def
  by (auto split: sum.split option.split intro!: evolves_and_then
      simp: Let_def case_prod_beta evolves_issue_tokens frames_evolve_later)

lemma evolves_issueTokensForUser: "evolves E s (snd (issueTokensForUser (E\<lparr>ae_now := t\<rparr>) u ip ua s))"
  unfolding issueTokensForUser_def by (auto split: option.split simp: case_prod_beta evolves_issue_tokens)

lemma evolves_confirmMfa: "evolves E s (snd (confirmMfaSetup (E\<lparr>ae_now := t\<rparr>) M tok co ip ua s))"
  unfolding confirmMfaSetup_def
  by (auto split: sum.split option.split intro!: evolves_and_then evolves_trans [OF _ evolves_issueTokensForUser]
      simp: Let_def frames_evolve_later)

lemma evolves_refreshTokens: "evolves E s (snd (refreshTokens (E\<lparr>ae_now := t\<rparr>) tok s))"
  unfolding refreshTokens_def
  by (rule evolves_and_then)
    (auto simp: Let_def case_prod_beta frames_evolve_later evolves_rotate split: option.split)

lemma evolves_resetMfa: "evolves E s (snd (resetMfa_handler a u s))"
  unfolding resetMfa_handler_def by (auto split: sum.split intro!: evolves_and_then)

lemma evolves_admin_logout: "evolves E s (admin_logout E' i u s)"
  unfolding admin_logout_def by (intro frames_evolve_later) simp

end

text \<open>One step: any operation, by anybody, at any instant.\<close>

inductive identity_step :: "'s auth_env \<Rightarrow> mfa_env \<Rightarrow> 's auth_db \<Rightarrow> 's auth_db \<Rightarrow> bool" for E M where
  register_step: "identity_step E M s (snd (register (E\<lparr>ae_now := t\<rparr>) dto ip ua s))"
| login_step: "identity_step E M s (snd (login (E\<lparr>ae_now := t\<rparr>) ldto ip ua s))"
| refresh_step: "identity_step E M s (snd (refresh (E\<lparr>ae_now := t\<rparr>) tok s))"
| logout_step: "identity_step E M s (logout (E\<lparr>ae_now := t\<rparr>) u i s)"
| forgot_step: "identity_step E M s (snd (forgotPassword (E\<lparr>ae_now := t\<rparr>) ph s))"
| reset_step: "identity_step E M s (snd (resetPassword (E\<lparr>ae_now := t\<rparr>) ph otp pw s))"
| change_step: "identity_step E M s (snd (changePassword (E\<lparr>ae_now := t\<rparr>) u i pw pw' s))"
| create_pin_step: "identity_step E M s (snd (createPin (E\<lparr>ae_now := t\<rparr>) u pin s))"
| verify_pin_step: "identity_step E M s (snd (verifyPin (E\<lparr>ae_now := t\<rparr>) u i pin s))"
| change_pin_step: "identity_step E M s (snd (changePin (E\<lparr>ae_now := t\<rparr>) u pin pin' s))"
| send_otp_step: "identity_step E M s (snd (sendOtp (E\<lparr>ae_now := t\<rparr>) d p u s))"
| verify_otp_step: "identity_step E M s (snd (verifyOtp (E\<lparr>ae_now := t\<rparr>) d p code u s))"
| profile_step: "identity_step E M s (snd (getProfile u s))"
| guard_step: "identity_step E M s (snd (jwtAuthGuard (E\<lparr>ae_now := t\<rparr>) pub h s))"
| revoke_session_step: "identity_step E M s (revokeSession (E\<lparr>ae_now := t\<rparr>) i u reason s)"
| revoke_all_step: "identity_step E M s (snd (revokeAllSessions (E\<lparr>ae_now := t\<rparr>) u ex reason s))"
| revoke_device_step: "identity_step E M s (snd (revokeDevice (E\<lparr>ae_now := t\<rparr>) u dev s))"
| admin_login_step: "identity_step E M s (snd (admin_login (E\<lparr>ae_now := t\<rparr>) M em pw s))"
| complete_mfa_step: "identity_step E M s (snd (completeMfaVerification (E\<lparr>ae_now := t\<rparr>) M tok code ip ua s))"
| setup_mfa_step: "identity_step E M s (snd (setupMfa (E\<lparr>ae_now := t\<rparr>) M tok s))"
| confirm_mfa_step: "identity_step E M s (snd (confirmMfaSetup (E\<lparr>ae_now := t\<rparr>) M tok code ip ua s))"
| reset_mfa_step: "identity_step E M s (snd (resetMfa_handler a u s))"
| admin_refresh_step: "identity_step E M s (snd (refreshTokens (E\<lparr>ae_now := t\<rparr>) tok s))"
| heartbeat_step: "identity_step E M s (recordActivity (E\<lparr>ae_now := t\<rparr>) i s)"
| admin_logout_step: "identity_step E M s (admin_logout (E\<lparr>ae_now := t\<rparr>) i u s)"

context auth_runtime
begin

lemma step_evolves: "identity_step E M s s' \<Longrightarrow> evolves E s s'"
  by (induction rule: identity_step.induct)
    (simp_all add: evolves_register evolves_login evolves_refresh evolves_logout evolves_forgotPassword
      evolves_resetPassword evolves_changePassword evolves_createPin evolves_verifyPin evolves_changePin
      evolves_sendOtp evolves_verifyOtp evolves_guard evolves_completeMfa evolves_confirmMfa evolves_resetMfa
      evolves_refreshTokens evolves_admin_logout)

lemma run_evolves: "(identity_step E M)\<^sup>*\<^sup>* s s' \<Longrightarrow> evolves E s s'"
  by (induction rule: rtranclp_induct) (auto intro: evolves_trans step_evolves)

lemma run_ok: "(identity_step E M)\<^sup>*\<^sup>* s0 s \<Longrightarrow> ad_sessions s0 = [] \<Longrightarrow> sessions_ok E s"
  using run_evolves [of M s0 s] by (auto simp: evolves_def sessions_ok_def)

end

text \<open>C24. A refresh token works once: in every state the identity services can reach from one
  without sessions, once a token has been exchanged it is refused as unknown by every later
  exchange, whatever operations ran in between and whoever ran them.\<close>

theorem refresh_token_works_once:
  assumes "auth_runtime E" and "ad_sessions s0 = []" and "(identity_step E M)\<^sup>*\<^sup>* s0 s"
    and "rotateRefreshToken (E\<lparr>ae_now := t\<rparr>) tok s = (Inr result, s1)" and "(identity_step E M)\<^sup>*\<^sup>* s1 s2"
  shows "rotateRefreshToken (E\<lparr>ae_now := t'\<rparr>) tok s2 =
    (Inl (Unauthorized (Plain ''Invalid refresh token'') TOKEN_INVALID), s2)"
proof -
  have "auth_runtime.dead_token E s1 (hashRefreshToken E tok)"
    by (rule auth_runtime.rotated_token_dies [OF assms(1) auth_runtime.run_ok [OF assms(1,3,2)] assms(4)])
  then have "auth_runtime.dead_token E s2 (hashRefreshToken E tok)"
    by (rule auth_runtime.dead_token_stays [OF assms(1) _ auth_runtime.run_evolves [OF assms(1,5)]])
  then show ?thesis by (rule auth_runtime.rotate_dead [OF assms(1)])
qed

text \<open>C25. Revocation is final: in every state the identity services can reach from one without
  sessions, a session that is revoked stays revoked through any later operations, no request is
  let through on it, and no exchange of a refresh token continues it.\<close>

theorem revoked_session_stays_dead:
  assumes "auth_runtime E" and "ad_sessions s0 = []" and "(identity_step E M)\<^sup>*\<^sup>* s0 s"
    and "x \<in> set (ad_sessions s)" and "se_isRevoked x" and "(identity_step E M)\<^sup>*\<^sup>* s s'"
  shows "validateSession (E\<lparr>ae_now := t\<rparr>) (se_id x) s' = (False, s') \<and>
    (\<forall>tok sid userId deviceId new s''.
       rotateRefreshToken (E\<lparr>ae_now := t\<rparr>) tok s' = (Inr (sid, userId, deviceId, new), s'') \<longrightarrow> sid \<noteq> se_id x)"
proof -
  obtain y where y: "findSession s' (se_id x) = Some y" "se_isRevoked y"
      "\<forall>z\<in>set (ad_sessions s'). se_id z = se_id x \<longrightarrow> z = y"
    using auth_runtime.revoked_stays [OF assms(1) auth_runtime.run_ok [OF assms(1,3,2)] assms(4,5)
        auth_runtime.run_evolves [OF assms(1,6)]] by blast
  have "sid \<noteq> se_id x" if r: "rotateRefreshToken (E\<lparr>ae_now := t\<rparr>) tok s' = (Inr (sid, userId, deviceId, new), s'')"
    for tok sid userId deviceId new s''
    by (rule auth_runtime.rotate_cases [OF assms(1), of t tok s']) (use r y in auto)
  then show ?thesis using auth_runtime.validate_revoked [OF assms(1) y(1,2)] by blast
qed

section \<open>Instances\<close>

definition sample_login :: login_dto where
  "sample_login =
     \<lparr>lg_email = None, lg_phone = Some ''0991234567'', lg_password = ''pw'', lg_deviceFingerprint = Some ''f'',
      lg_platform = None, lg_osVersion = None, lg_appVersion = None\<rparr>"

definition logged_in :: "kv auth_db" where
  "logged_in = snd (login (sample_env\<lparr>ae_now := 1\<rparr>) sample_login None None sample_auth)"

lemma logged_in_run: "(identity_step sample_env sample_mfa)\<^sup>*\<^sup>* sample_auth logged_in"
  unfolding logged_in_def by (rule r_into_rtranclp) (rule login_step)

theorem refresh_token_works_once_witness:
  "fst (rotateRefreshToken (sample_env\<lparr>ae_now := 3\<rparr>) ''0''
     (snd (rotateRefreshToken (sample_env\<lparr>ae_now := 2\<rparr>) ''0'' logged_in))) =
   Inl (Unauthorized (Plain ''Invalid refresh token'') TOKEN_INVALID)"
proof -
  have "fst (rotateRefreshToken (sample_env\<lparr>ae_now := 2\<rparr>) ''0'' logged_in) = Inr (9, 7, 8, ''3'')" by code_simp
  then have r: "rotateRefreshToken (sample_env\<lparr>ae_now := 2\<rparr>) ''0'' logged_in =
      (Inr (9, 7, 8, ''3''), snd (rotateRefreshToken (sample_env\<lparr>ae_now := 2\<rparr>) ''0'' logged_in))"
    by (simp add: prod_eq_iff)
  have "ad_sessions sample_auth = []" by (simp add: sample_auth_def)
  from refresh_token_works_once [OF sample.auth_runtime_axioms this logged_in_run r rtranclp.rtrancl_refl]
  show ?thesis by simp
qed

theorem revoked_session_stays_dead_witness:
  "fst (validateSession (sample_env\<lparr>ae_now := 4\<rparr>) 9 (logout (sample_env\<lparr>ae_now := 2\<rparr>) 7 9 logged_in)) = False"
proof -
  let ?s = "logout (sample_env\<lparr>ae_now := 2\<rparr>) 7 9 logged_in"
  have x: "hd (ad_sessions ?s) \<in> set (ad_sessions ?s)" "se_isRevoked (hd (ad_sessions ?s))" "se_id (hd (ad_sessions ?s)) = 9"
    by code_simp+
  have "ad_sessions sample_auth = []" by (simp add: sample_auth_def)
  moreover have "(identity_step sample_env sample_mfa)\<^sup>*\<^sup>* sample_auth ?s"
    by (rule rtranclp.rtrancl_into_rtrancl [OF logged_in_run logout_step])
  ultimately show ?thesis
    using revoked_session_stays_dead [OF sample.auth_runtime_axioms _ _ x(1,2) rtranclp.rtrancl_refl, of sample_auth sample_mfa 4]
    by (simp add: x(3))
qed

definition sample_staff :: "kv auth_db" where
  "sample_staff = sample_auth\<lparr>ad_db := empty_db\<lparr>db_users := [\<lparr>u_id = 7, u_role = BROKER, u_brokerId = Some 1,
     u_kycStatus = KYC_APPROVED, u_deletedAt = None\<rparr>]\<rparr>\<rparr>"

text \<open>A member of staff with MFA enabled and one recovery code left: the password is refused at the customer login,
  the admin login answers with a token and no session, and the token with the recovery code opens one.\<close>

definition sample_staff_mfa :: "kv auth_db" where
  "sample_staff_mfa = sample_staff\<lparr>ad_mfa := [\<lparr>mf_userId = 7, mf_totpSecretEnc = ''enc'', mf_totpSecretIv = ''iv'',
     mf_totpSecretTag = ''other'', mf_isEnabled = True, mf_enabledAt = None, mf_recoveryCodes = [[], ''#rescue''],
     mf_recoveryCodesUsedCount = 1, mf_recoveryCodesGeneratedAt = None\<rparr>]\<rparr>"

lemmas sample_staff_defs = findAccount_def sample_staff_mfa_def sample_staff_def sample_auth_def sample_credential_def findUser_def
  IS_STAFF_ROLE_def STAFF_ROLES_def

lemma sample_mfa_token: "verifyMfaToken sample_env sample_mfa (generateMfaToken sample_env sample_mfa 7) = Inr (decimal 7)"
  using conjunct1 [OF mfa_token_lives_five_minutes [OF sample_mfa.mfa_runtime_axioms, where t = 0 and t' = 0 and E = sample_env and userId = 7]]
  by (simp add: sample_env_def)

lemma sample_staff_flow:
  "map_sum id (\<lambda>(k, t, p). (k, t)) (fst (admin_login sample_env sample_mfa ''a@b.mw'' ''pw'' sample_staff_mfa)) =
     Inr (MfaVerify, generateMfaToken sample_env sample_mfa 7)"
  "\<exists>r s'. completeMfaVerification sample_env sample_mfa (generateMfaToken sample_env sample_mfa 7) ''rescue'' None None
     sample_staff_mfa = (Inr r, s')"
proof -
  show "map_sum id (\<lambda>(k, t, p). (k, t)) (fst (admin_login sample_env sample_mfa ''a@b.mw'' ''pw'' sample_staff_mfa)) =
     Inr (MfaVerify, generateMfaToken sample_env sample_mfa 7)"
    by (simp add: admin_login_def sample_staff_defs password_verify_def isMfaEnabled_def findMfa_def Let_def)
      (simp add: sample_env_def)
  have "fst (verifyRecoveryCode sample_env 7 ''rescue'' sample_staff_mfa) = Inr True" by code_simp
  moreover have "(case verifyCode sample_env sample_mfa 7 ''rescue'' sample_staff_mfa of Inr b \<Rightarrow> b | Inl _ \<Rightarrow> False) = False" by code_simp
  moreover have "\<exists>u. findAccount sample_staff_mfa (\<lambda>c. decimal (cr_id c) = decimal 7) = Some (sample_credential, u)"
    by (simp add: sample_staff_defs)
  moreover have "cr_id sample_credential = 7" by (simp add: sample_credential_def)
  ultimately show "\<exists>r s'. completeMfaVerification sample_env sample_mfa (generateMfaToken sample_env sample_mfa 7) ''rescue'' None None
     sample_staff_mfa = (Inr r, s')"
    by (cases "verifyRecoveryCode sample_env 7 ''rescue'' sample_staff_mfa")
      (auto simp: completeMfaVerification_def sample_mfa_token and_then_def Let_def split: prod.split)
qed

theorem staff_sign_in_needs_second_factor_witness:
  "let token = generateMfaToken sample_env sample_mfa 7
   in (\<exists>e. login sample_env (sample_login\<lparr>lg_email := Some ''a@b.mw''\<rparr>) None None sample_staff_mfa = (Inl e, sample_staff_mfa)) \<and>
      map_sum id (\<lambda>(k, t, p). (k, t)) (fst (admin_login sample_env sample_mfa ''a@b.mw'' ''pw'' sample_staff_mfa)) =
        Inr (MfaVerify, token) \<and>
      ad_sessions (snd (admin_login sample_env sample_mfa ''a@b.mw'' ''pw'' sample_staff_mfa)) = [] \<and>
      (\<exists>r s'. completeMfaVerification sample_env sample_mfa token ''rescue'' None None sample_staff_mfa = (Inr r, s')) \<and>
      (\<exists>userId expiry rest. split_colon (me_unbase64url sample_mfa token) =
         userId # expiry # me_token_mac sample_mfa (userId @ '':'' @ expiry) # rest) \<and>
      (\<exists>c m i. findMfa c sample_staff_mfa = Some m \<and> i < length (mf_recoveryCodes m) \<and> mf_recoveryCodes m ! i = ''#rescue'')"
proof -
  let ?t = "generateMfaToken sample_env sample_mfa 7"
  note T = staff_sign_in_needs_second_factor [of sample_env "sample_login\<lparr>lg_email := Some ''a@b.mw''\<rparr>" None None sample_staff_mfa
      "''a@b.mw''" sample_mfa "''pw''" ?t "''rescue''"]
  have "\<exists>c u. findAccount sample_staff_mfa (\<lambda>c. cr_email c = Some ''a@b.mw'') = Some (c, u) \<and> IS_STAFF_ROLE (u_role u)"
    by (simp add: sample_staff_defs)
  then have 1: "\<exists>e. login sample_env (sample_login\<lparr>lg_email := Some ''a@b.mw''\<rparr>) None None sample_staff_mfa = (Inl e, sample_staff_mfa)"
    using T by auto
  have "ad_sessions sample_staff_mfa = []" by (simp add: sample_staff_defs)
  with T have 2: "ad_sessions (snd (admin_login sample_env sample_mfa ''a@b.mw'' ''pw'' sample_staff_mfa)) = []" by simp
  obtain r s' where "completeMfaVerification sample_env sample_mfa ?t ''rescue'' None None sample_staff_mfa = (Inr r, s')"
    using sample_staff_flow(2) by blast
  note second = T [THEN conjunct2, THEN conjunct2, THEN conjunct2, rule_format, OF this]
  from second obtain userId expiry rest c u m where "findAccount sample_staff_mfa (\<lambda>c. decimal (cr_id c) = userId) = Some (c, u)" and
    tok: "split_colon (me_unbase64url sample_mfa ?t) = userId # expiry # me_token_mac sample_mfa (userId @ '':'' @ expiry) # rest"
    and m: "findMfa (cr_id c) sample_staff_mfa = Some m"
    and f: "totp_accepted sample_env sample_mfa m ''rescue'' \<or> (\<exists>i. i < length (mf_recoveryCodes m) \<and> mf_recoveryCodes m ! i \<noteq> [] \<and>
       ae_argon2_verify sample_env (mf_recoveryCodes m ! i) ''rescue'' = Some True)" by blast
  have "\<not> totp_accepted sample_env sample_mfa m ''rescue''"
    using m by (auto simp: findMfa_def sample_staff_mfa_def totp_accepted_def sample_mfa_def split: if_splits)
  with f obtain i where "i < length (mf_recoveryCodes m)" "mf_recoveryCodes m ! i = ''#rescue''" by (auto simp: sample_env_def)
  with 1 2 sample_staff_flow m tok show ?thesis unfolding Let_def by blast
qed

end
