(* ===== verification/KycStore.thy ===== *)
theory KycStore
  imports AdminAuth RiskPolicy
begin

text \<open>
  Identity verification (KYC): the domain types of \<^verbatim>\<open>src/modules/kyc/domain\<close>, the tables and the
  operations of \<^verbatim>\<open>src/modules/kyc/repositories/kyc.repository.ts\<close>.

  The state \<open>kyc_db\<close> adds the KYC tables to the identity state.  The JSON column
  \<open>ocrExtractedData\<close> is the record \<open>kyc_json\<close> with one field per key of the storage layout: every
  write of the repository is a spread over the value read before, so a key that is not written
  keeps its value.  Descriptions and evidence of a fraud flag are a constructor that carries their
  figures.  The metadata of audit entries is left out; writing an entry never fails the caller.
\<close>

section \<open>Domain\<close>

datatype kyc_stage = CREATED | ID_UPLOADED | SELFIE_UPLOADED | VALIDATING | ENHANCING | OCR_PROCESSING
  | FACE_EXTRACTING | FACE_MATCHING | FRAUD_CHECKING | SCORING | DECIDING | COMPLETE | STAGE_FAILED

datatype fraud_type = DUPLICATE_NATIONAL_ID | DUPLICATE_FACE | EXPIRED_DOCUMENT | SCREENSHOT_DETECTED
  | PHOTOCOPY_DETECTED | EDITED_IMAGE | LOW_RESOLUTION | MULTIPLE_FACES | IMPOSSIBLE_MATCH
  | REPEATED_ATTEMPTS | NO_FACE_DETECTED | BLURRY_DOCUMENT

datatype severity = LOW | MEDIUM | HIGH | CRITICAL

datatype flag_detail =
    IdUsedIn uuid uuid string
  | FaceMatches nat "(uuid \<times> rat) list"
  | ExpiredOn timestamp int
  | ResolutionTooLow int int
  | DocumentBlurry rat
  | SelfieBlurry rat
  | Attempts nat
  | FacesInId nat
  | NoFaceInId
  | NoFaceInSelfie
  | SimilarityTooLow rat

record fraud_flag =
  ff_type :: fraud_type
  ff_severity :: severity
  ff_detail :: flag_detail

record ocr_field =
  of_value :: string
  of_confidence :: rat
  of_rawValue :: "string option"

record mrz_summary =
  ms_checkDigitScore :: rat
  ms_rawLines :: "string list"

text \<open>\<open>oc_nationality\<close> and \<open>oc_mrz\<close> are the optional properties: \<open>None\<close> when the object has no such
  property.\<close>

record ocr_result =
  oc_fullName :: "ocr_field option"
  oc_nationalIdNumber :: "ocr_field option"
  oc_dateOfBirth :: "ocr_field option"
  oc_gender :: "ocr_field option"
  oc_address :: "ocr_field option"
  oc_documentNumber :: "ocr_field option"
  oc_expiryDate :: "ocr_field option"
  oc_nationality :: "ocr_field option option"
  oc_mrz :: "mrz_summary option"
  oc_overallConfidence :: rat
  oc_rawText :: string

record face_detection =
  fd_detected :: bool
  fd_faceCount :: nat
  fd_embedding :: "rat list option"
  fd_detectionConfidence :: rat
  fd_qualityScore :: rat

record face_match =
  fm_similarity :: rat
  fm_isMatch :: bool
  fm_confidence :: rat
  fm_idFace :: face_detection
  fm_selfieFace :: face_detection

record image_quality =
  iq_overallScore :: rat
  iq_sharpnessScore :: rat
  iq_brightnessScore :: rat
  iq_resolutionScore :: rat
  iq_width :: int
  iq_height :: int
  iq_passesMinimum :: bool

record extracted_address =
  ea_addressLine1 :: "string option"
  ea_addressLine2 :: "string option"
  ea_city :: "string option"
  ea_district :: "string option"
  ea_formatted :: "string option"
  ea_confidence :: rat

section \<open>Tables\<close>

record kyc_json =
  kj_stage :: "kyc_stage option"
  kj_fraudFlags :: "fraud_flag list option"
  kj_confidenceScore :: "rat option"
  kj_ocrConfidence :: "rat option"
  kj_faceMatchConfidence :: "rat option"
  kj_imageQualityScore :: "rat option"
  kj_documentQualityScore :: "rat option"
  kj_fraudScore :: "rat option"
  kj_reviewerNotes :: "string option"
  kj_ocr :: "ocr_result option"
  kj_extractedAddress :: "extracted_address option"
  kj_csdOverrides :: "(string \<times> string) list option"

definition empty_json :: kyc_json where
  "empty_json = \<lparr>kj_stage = None, kj_fraudFlags = None, kj_confidenceScore = None, kj_ocrConfidence = None,
     kj_faceMatchConfidence = None, kj_imageQualityScore = None, kj_documentQualityScore = None,
     kj_fraudScore = None, kj_reviewerNotes = None, kj_ocr = None, kj_extractedAddress = None,
     kj_csdOverrides = None\<rparr>"

datatype review_decision = REVIEW_APPROVED | REVIEW_REJECTED

record kyc_app =
  ka_id :: uuid
  ka_userId :: uuid
  ka_brokerId :: "uuid option"
  ka_status :: kyc_status
  ka_nationalIdNumber :: "string option"
  ka_dateOfBirth :: "timestamp option"
  ka_addressLine1 :: "string option"
  ka_addressLine2 :: "string option"
  ka_city :: "string option"
  ka_district :: "string option"
  ka_submittedAt :: timestamp
  ka_reviewedAt :: "timestamp option"
  ka_reviewedById :: "uuid option"
  ka_reviewDecision :: "review_decision option"
  ka_rejectionReason :: "string option"
  ka_json :: kyc_json
  ka_facialMatchScore :: "rat option"
  ka_createdAt :: timestamp
  ka_riskFlags :: "fraud_type list"
  ka_reviewerName :: "string option"
  ka_reviewNotes :: "string option"
  ka_requiredDocuments :: "string list option"
  ka_requestDocsMessage :: "string option"

datatype document_type = NATIONAL_ID | NATIONAL_ID_BACK | PASSPORT | DRIVERS_LICENSE | PROOF_OF_RESIDENCE | SELFIE

record kyc_doc =
  kd_id :: uuid
  kd_appId :: uuid
  kd_type :: document_type
  kd_storageBucket :: string
  kd_storageKey :: string
  kd_mimeType :: string
  kd_sizeBytes :: nat
  kd_contentHash :: "string option"
  kd_enhancedStorageKey :: "string option"
  kd_thumbnailStorageKey :: "string option"
  kd_uploadedAt :: timestamp

datatype face_source = FromNationalId | FromSelfie

record face_embedding =
  fe_id :: uuid
  fe_appId :: uuid
  fe_userId :: uuid
  fe_sourceType :: face_source
  fe_embedding :: "rat list"
  fe_detectionConfidence :: rat
  fe_qualityScore :: rat

datatype decision = AUTO_APPROVED | AUTO_MANUAL_REVIEW | AUTO_REJECTED

datatype kyc_action = KYC_STARTED | DOCUMENT_UPLOADED document_type | KYC_SUBMITTED_FOR_REVIEW
  | VERIFICATION_COMPLETE decision | VERIFICATION_PIPELINE_FAILED | DOCS_REQUESTED
  | ACTION_KYC_APPROVED | ACTION_KYC_REJECTED | KYC_DOCS_REQUESTED | KYC_STATUS_OVERRIDE kyc_status
  | KYC_CSD_FORM_EDITED

record kyc_audit =
  kx_action :: kyc_action
  kx_resourceId :: uuid
  kx_actorId :: uuid
  kx_actorRole :: "role option"

datatype kyc_event = KycStarted uuid uuid | KycDocumentUploaded uuid uuid document_type
  | KycSubmitted uuid uuid | KycVerificationComplete uuid uuid decision rat
  | KycApproved uuid | KycRejected uuid

record 's kyc_db =
  ky_auth :: "'s auth_db"
  ky_apps :: "kyc_app list"
  ky_docs :: "kyc_doc list"
  ky_embeddings :: "face_embedding list"
  ky_audit :: "kyc_audit list"
  ky_events :: "kyc_event list"
  ky_uid :: nat

abbreviation ky_users :: "'s kyc_db \<Rightarrow> user list" where
  "ky_users s \<equiv> db_users (ad_db (ky_auth s))"

definition kyc_emit :: "kyc_event \<Rightarrow> 's kyc_db \<Rightarrow> 's kyc_db" where
  "kyc_emit e s = s\<lparr>ky_events := ky_events s @ [e]\<rparr>"

text \<open>\<open>prisma.user.update\<close>: the row must exist.\<close>

definition update_kyc_user :: "uuid \<Rightarrow> (user \<Rightarrow> user) \<Rightarrow> 's kyc_db \<Rightarrow> (err + unit) \<times> 's kyc_db" where
  "update_kyc_user u f s =
     (if findUser (ad_db (ky_auth s)) u = None then (Inl (PrismaError ''P2025''), s)
      else (Inr (), s\<lparr>ky_auth := (ky_auth s)\<lparr>ad_db := (ad_db (ky_auth s))\<lparr>db_users :=
                        upd_where (\<lambda>x. u_id x = u) f (ky_users s)\<rparr>\<rparr>\<rparr>))"

section \<open>The repository\<close>

definition findApp :: "uuid \<Rightarrow> 's kyc_db \<Rightarrow> kyc_app option" where
  "findApp i s = List.find (\<lambda>a. ka_id a = i) (ky_apps s)"

text \<open>\<open>prisma.kycApplication.update\<close>: the row must exist.\<close>

definition update_app :: "uuid \<Rightarrow> (kyc_app \<Rightarrow> kyc_app) \<Rightarrow> 's kyc_db \<Rightarrow> (err + unit) \<times> 's kyc_db" where
  "update_app i f s =
     (if findApp i s = None then (Inl (PrismaError ''P2025''), s)
      else (Inr (), s\<lparr>ky_apps := upd_where (\<lambda>a. ka_id a = i) f (ky_apps s)\<rparr>))"

definition new_app :: "uuid \<Rightarrow> uuid \<Rightarrow> uuid option \<Rightarrow> timestamp \<Rightarrow> kyc_app" where
  "new_app i u b t =
     \<lparr>ka_id = i, ka_userId = u, ka_brokerId = b, ka_status = KYC_NOT_SUBMITTED, ka_nationalIdNumber = None,
      ka_dateOfBirth = None, ka_addressLine1 = None, ka_addressLine2 = None, ka_city = None, ka_district = None,
      ka_submittedAt = t, ka_reviewedAt = None, ka_reviewedById = None, ka_reviewDecision = None,
      ka_rejectionReason = None, ka_json = empty_json\<lparr>kj_stage := Some CREATED\<rparr>, ka_facialMatchScore = None,
      ka_createdAt = t, ka_riskFlags = [], ka_reviewerName = None, ka_reviewNotes = None,
      ka_requiredDocuments = None, ka_requestDocsMessage = None\<rparr>"

text \<open>The foreign key needs the user's row.\<close>

definition createApplication :: "timestamp \<Rightarrow> uuid \<Rightarrow> 's kyc_db \<Rightarrow> (err + uuid) \<times> 's kyc_db" where
  "createApplication t userId s =
     (if findUser (ad_db (ky_auth s)) userId = None then (Inl (PrismaError ''P2003''), s)
      else (Inr (ky_uid s),
            s\<lparr>ky_apps := ky_apps s @ [new_app (ky_uid s) userId (brokerIdOf (ad_db (ky_auth s)) userId) t],
              ky_uid := Suc (ky_uid s)\<rparr>))"

definition getApplicationByUserId :: "uuid \<Rightarrow> 's kyc_db \<Rightarrow> kyc_app option" where
  "getApplicationByUserId userId s =
     (case page_desc ka_createdAt 1 0 (filter (\<lambda>a. ka_userId a = userId) (ky_apps s)) of
        [] \<Rightarrow> None | a # _ \<Rightarrow> Some a)"

definition verificationStage :: "kyc_app \<Rightarrow> kyc_stage" where
  "verificationStage a = (case kj_stage (ka_json a) of Some g \<Rightarrow> g | None \<Rightarrow> CREATED)"

definition updateApplicationStage :: "uuid \<Rightarrow> kyc_stage \<Rightarrow> 's kyc_db \<Rightarrow> (err + unit) \<times> 's kyc_db" where
  "updateApplicationStage i stage s =
     update_app i (\<lambda>a. a\<lparr>ka_json := (ka_json a)\<lparr>kj_stage := Some stage\<rparr>\<rparr>) s"

text \<open>The optional last argument of \<open>updateApplicationStatus\<close>: \<open>None\<close> is an absent property, and a
  nullable property that is present may be null.\<close>

record app_patch =
  pt_nationalIdNumber :: "string option option"
  pt_dateOfBirth :: "timestamp option option"
  pt_facialMatchScore :: "rat option"
  pt_addressLine1 :: "string option option"
  pt_addressLine2 :: "string option option"
  pt_city :: "string option option"
  pt_district :: "string option option"
  pt_ocr :: "ocr_result option"
  pt_extractedAddress :: "extracted_address option"
  pt_confidenceScore :: "rat option"
  pt_ocrConfidence :: "rat option"
  pt_faceMatchConfidence :: "rat option"
  pt_imageQualityScore :: "rat option"
  pt_documentQualityScore :: "rat option"
  pt_fraudScore :: "rat option"

definition no_patch :: app_patch where
  "no_patch = \<lparr>pt_nationalIdNumber = None, pt_dateOfBirth = None, pt_facialMatchScore = None,
     pt_addressLine1 = None, pt_addressLine2 = None, pt_city = None, pt_district = None, pt_ocr = None,
     pt_extractedAddress = None, pt_confidenceScore = None, pt_ocrConfidence = None,
     pt_faceMatchConfidence = None, pt_imageQualityScore = None, pt_documentQualityScore = None,
     pt_fraudScore = None\<rparr>"

definition patched :: "'a option \<Rightarrow> 'a \<Rightarrow> 'a" where
  "patched p x = (case p of None \<Rightarrow> x | Some y \<Rightarrow> y)"

definition keep_new :: "'a option \<Rightarrow> 'a option \<Rightarrow> 'a option" where
  "keep_new p x = (case p of None \<Rightarrow> x | Some y \<Rightarrow> Some y)"

text \<open>\<open>for (const [k, v] of Object.entries(ocr)) merged[k] = v\<close>\<close>

definition merge_ocr :: "ocr_result option \<Rightarrow> ocr_result \<Rightarrow> ocr_result" where
  "merge_ocr old new =
     (case old of None \<Rightarrow> new
      | Some o1 \<Rightarrow> new\<lparr>oc_nationality := keep_new (oc_nationality new) (oc_nationality o1),
                        oc_mrz := keep_new (oc_mrz new) (oc_mrz o1)\<rparr>)"

definition merge_json :: "app_patch \<Rightarrow> kyc_json \<Rightarrow> kyc_json" where
  "merge_json d j =
     (if pt_ocr d = None \<and> pt_extractedAddress d = None \<and> pt_confidenceScore d = None then j
      else j\<lparr>kj_ocr := (case pt_ocr d of None \<Rightarrow> kj_ocr j | Some r \<Rightarrow> Some (merge_ocr (kj_ocr j) r)),
             kj_extractedAddress := keep_new (pt_extractedAddress d) (kj_extractedAddress j),
             kj_confidenceScore := keep_new (pt_confidenceScore d) (kj_confidenceScore j),
             kj_ocrConfidence := keep_new (pt_ocrConfidence d) (kj_ocrConfidence j),
             kj_faceMatchConfidence := keep_new (pt_faceMatchConfidence d) (kj_faceMatchConfidence j),
             kj_imageQualityScore := keep_new (pt_imageQualityScore d) (kj_imageQualityScore j),
             kj_documentQualityScore := keep_new (pt_documentQualityScore d) (kj_documentQualityScore j),
             kj_fraudScore := keep_new (pt_fraudScore d) (kj_fraudScore j)\<rparr>)"

definition patch_app :: "runtime \<Rightarrow> kyc_status \<Rightarrow> app_patch \<Rightarrow> kyc_app \<Rightarrow> kyc_app" where
  "patch_app R status d a =
     a\<lparr>ka_status := status,
       ka_nationalIdNumber := patched (pt_nationalIdNumber d) (ka_nationalIdNumber a),
       ka_dateOfBirth := patched (pt_dateOfBirth d) (ka_dateOfBirth a),
       ka_facialMatchScore := (case pt_facialMatchScore d of None \<Rightarrow> ka_facialMatchScore a | Some x \<Rightarrow> Some (num4 R x)),
       ka_addressLine1 := patched (pt_addressLine1 d) (ka_addressLine1 a),
       ka_addressLine2 := patched (pt_addressLine2 d) (ka_addressLine2 a),
       ka_city := patched (pt_city d) (ka_city a),
       ka_district := patched (pt_district d) (ka_district a),
       ka_json := merge_json d (ka_json a),
       ka_reviewedAt := (if status = KYC_APPROVED \<or> status = KYC_REJECTED then Some (now R) else ka_reviewedAt a),
       ka_reviewDecision := (if status = KYC_APPROVED then Some REVIEW_APPROVED
                             else if status = KYC_REJECTED then Some REVIEW_REJECTED else ka_reviewDecision a)\<rparr>"

definition updateApplicationStatus ::
  "runtime \<Rightarrow> uuid \<Rightarrow> kyc_status \<Rightarrow> app_patch \<Rightarrow> 's kyc_db \<Rightarrow> (err + unit) \<times> 's kyc_db" where
  "updateApplicationStatus R i status d s = update_app i (patch_app R status d) s"

definition createDocument ::
  "timestamp \<Rightarrow> uuid \<Rightarrow> document_type \<Rightarrow> string \<Rightarrow> string \<Rightarrow> string \<Rightarrow> nat \<Rightarrow> string option \<Rightarrow> 's kyc_db
    \<Rightarrow> (err + uuid) \<times> 's kyc_db" where
  "createDocument t appId typ bucket key mime sizeBytes contentHash s =
     (if findApp appId s = None then (Inl (PrismaError ''P2003''), s)
      else (Inr (ky_uid s),
            s\<lparr>ky_docs := ky_docs s @
                [\<lparr>kd_id = ky_uid s, kd_appId = appId, kd_type = typ, kd_storageBucket = bucket, kd_storageKey = key,
                  kd_mimeType = mime, kd_sizeBytes = sizeBytes, kd_contentHash = contentHash,
                  kd_enhancedStorageKey = None, kd_thumbnailStorageKey = None, kd_uploadedAt = t\<rparr>],
              ky_uid := Suc (ky_uid s)\<rparr>))"

definition getDocumentsByApplicationId :: "uuid \<Rightarrow> 's kyc_db \<Rightarrow> kyc_doc list" where
  "getDocumentsByApplicationId i s = filter (\<lambda>d. kd_appId d = i) (ky_docs s)"

definition getDocumentByType :: "uuid \<Rightarrow> document_type \<Rightarrow> 's kyc_db \<Rightarrow> kyc_doc option" where
  "getDocumentByType i typ s = List.find (\<lambda>d. kd_type d = typ) (getDocumentsByApplicationId i s)"

definition updateDocument ::
  "uuid \<Rightarrow> string option \<Rightarrow> string option \<Rightarrow> string option \<Rightarrow> 's kyc_db \<Rightarrow> (err + unit) \<times> 's kyc_db" where
  "updateDocument i enhancedKey thumbKey contentHash s =
     (if enhancedKey = None \<and> thumbKey = None \<and> contentHash = None then (Inr (), s)
      else if List.find (\<lambda>d. kd_id d = i) (ky_docs s) = None then (Inl (PrismaError ''P2025''), s)
      else (Inr (), s\<lparr>ky_docs := upd_where (\<lambda>d. kd_id d = i)
              (\<lambda>d. d\<lparr>kd_enhancedStorageKey := keep_new enhancedKey (kd_enhancedStorageKey d),
                      kd_thumbnailStorageKey := keep_new thumbKey (kd_thumbnailStorageKey d),
                      kd_contentHash := keep_new contentHash (kd_contentHash d)\<rparr>) (ky_docs s)\<rparr>))"

definition saveOcrResult :: "uuid \<Rightarrow> ocr_result \<Rightarrow> 's kyc_db \<Rightarrow> (err + unit) \<times> 's kyc_db" where
  "saveOcrResult i r s =
     update_app i (\<lambda>a. a\<lparr>ka_json := (ka_json a)\<lparr>kj_ocr := Some (merge_ocr (kj_ocr (ka_json a)) r)\<rparr>\<rparr>) s"

text \<open>A \<open>Float32Array\<close> keeps each number to single precision: \<open>fround\<close>.\<close>

definition saveFaceEmbedding ::
  "(rat \<Rightarrow> rat) \<Rightarrow> uuid \<Rightarrow> face_source \<Rightarrow> rat list \<Rightarrow> rat \<Rightarrow> rat \<Rightarrow> 's kyc_db \<Rightarrow> (err + uuid) \<times> 's kyc_db" where
  "saveFaceEmbedding fround i src embedding detectionConfidence qualityScore s =
     (case findApp i s of
        None \<Rightarrow> (Inl (PlainError (Msg ''KYC application not found'')), s)
      | Some a \<Rightarrow>
          (Inr (ky_uid s),
           s\<lparr>ky_embeddings := filter (\<lambda>e. \<not> (fe_appId e = i \<and> fe_sourceType e = src)) (ky_embeddings s) @
               [\<lparr>fe_id = ky_uid s, fe_appId = i, fe_userId = ka_userId a, fe_sourceType = src,
                 fe_embedding = map fround embedding, fe_detectionConfidence = detectionConfidence,
                 fe_qualityScore = qualityScore\<rparr>],
             ky_uid := Suc (ky_uid s)\<rparr>))"

definition getAllApprovedEmbeddings :: "'s kyc_db \<Rightarrow> (uuid \<times> uuid \<times> rat list) list" where
  "getAllApprovedEmbeddings s =
     map (\<lambda>e. (fe_id e, fe_userId e, fe_embedding e))
       (filter (\<lambda>e. fe_sourceType e = FromSelfie \<and>
                     (case findApp (fe_appId e) s of None \<Rightarrow> False | Some a \<Rightarrow> ka_status a = KYC_APPROVED))
          (ky_embeddings s))"

definition saveFraudFlags :: "uuid \<Rightarrow> fraud_flag list \<Rightarrow> 's kyc_db \<Rightarrow> (err + unit) \<times> 's kyc_db" where
  "saveFraudFlags i flags s =
     update_app i (\<lambda>a. a\<lparr>ka_json := (ka_json a)\<lparr>kj_fraudFlags := Some flags\<rparr>,
                          ka_riskFlags := map ff_type flags\<rparr>) s"

definition findApplicationByDocumentHash :: "string \<Rightarrow> 's kyc_db \<Rightarrow> uuid option" where
  "findApplicationByDocumentHash h s = map_option kd_appId (List.find (\<lambda>d. kd_contentHash d = Some h) (ky_docs s))"

definition findApplicationByNationalId :: "string \<Rightarrow> uuid \<Rightarrow> 's kyc_db \<Rightarrow> kyc_app option" where
  "findApplicationByNationalId n excluded s =
     List.find (\<lambda>a. ka_nationalIdNumber a = Some n \<and> ka_status a = KYC_APPROVED \<and> ka_id a \<noteq> excluded) (ky_apps s)"

definition countRecentApplicationsByUserId :: "timestamp \<Rightarrow> uuid \<Rightarrow> int \<Rightarrow> 's kyc_db \<Rightarrow> nat" where
  "countRecentApplicationsByUserId t userId withinHours s =
     length (filter (\<lambda>a. ka_userId a = userId \<and> t - withinHours * 3600000 \<le> ka_createdAt a) (ky_apps s))"

text \<open>The broker queue.  The application row and the broker of its owner.\<close>

definition in_scope :: "uuid option \<Rightarrow> kyc_app \<Rightarrow> 's kyc_db \<Rightarrow> bool" where
  "in_scope scope a s \<longleftrightarrow>
     (case scope of None \<Rightarrow> True | Some b \<Rightarrow> brokerIdOf (ad_db (ky_auth s)) (ka_userId a) = Some b)"

definition getQueuePage ::
  "int \<Rightarrow> int \<Rightarrow> kyc_status option \<Rightarrow> uuid option \<Rightarrow> 's kyc_db \<Rightarrow> kyc_app list \<times> nat \<times> int \<times> int" where
  "getQueuePage page0 limit0 status brokerId s =
     (let page = max 1 page0; limit = min (max 1 limit0) 200;
          rows = filter (\<lambda>a. (case status of None \<Rightarrow> True | Some k \<Rightarrow> ka_status a = k) \<and> in_scope brokerId a s) (ky_apps s);
          total = length rows
      in (page_desc ka_submittedAt (nat limit) (nat ((page - 1) * limit)) rows, total, page,
          - ((- int total) div limit)))"

definition getCountsByStatus :: "uuid option \<Rightarrow> 's kyc_db \<Rightarrow> kyc_status \<Rightarrow> nat" where
  "getCountsByStatus brokerId s k = length (filter (\<lambda>a. ka_status a = k \<and> in_scope brokerId a s) (ky_apps s))"

definition requestAdditionalDocuments ::
  "uuid \<Rightarrow> uuid \<Rightarrow> string \<Rightarrow> string list \<Rightarrow> string option \<Rightarrow> 's kyc_db \<Rightarrow> (err + unit) \<times> 's kyc_db" where
  "requestAdditionalDocuments i reviewerId reviewerName requiredDocuments message s =
     update_app i (\<lambda>a. a\<lparr>ka_status := KYC_ADDITIONAL_DOCS, ka_reviewedById := Some reviewerId,
                          ka_reviewerName := Some reviewerName, ka_requiredDocuments := Some requiredDocuments,
                          ka_requestDocsMessage := message\<rparr>) s"

definition recordAuditEntry :: "uuid \<Rightarrow> kyc_action \<Rightarrow> uuid \<Rightarrow> 's kyc_db \<Rightarrow> 's kyc_db" where
  "recordAuditEntry i action actorId s =
     s\<lparr>ky_audit := ky_audit s @ [\<lparr>kx_action = action, kx_resourceId = i, kx_actorId = actorId, kx_actorRole = None\<rparr>]\<rparr>"

definition getAuditHistory :: "uuid \<Rightarrow> 's kyc_db \<Rightarrow> kyc_audit list" where
  "getAuditHistory i s = rev (filter (\<lambda>e. kx_resourceId e = i) (ky_audit s))"

text \<open>The risk flags an application is shown with: the column, else the flags in the JSON value.\<close>

definition shown_riskFlags :: "kyc_app \<Rightarrow> fraud_type list option" where
  "shown_riskFlags a =
     (if ka_riskFlags a \<noteq> [] then Some (ka_riskFlags a)
      else case kj_fraudFlags (ka_json a) of
        Some (f # fs) \<Rightarrow> Some (map ff_type (f # fs)) | _ \<Rightarrow> None)"

end
