(* ===== verification/KycScore.thy ===== *)
theory KycScore
  imports KycStore
begin

text \<open>
  The automatic part of a KYC decision: \<^verbatim>\<open>face/face-matching.service.ts\<close>,
  \<^verbatim>\<open>fraud/fraud-detection.service.ts\<close> and \<^verbatim>\<open>fraud/confidence-engine.ts\<close> of \<^verbatim>\<open>src/modules/kyc\<close>.

  Scores are JavaScript numbers, computed with the operators \<open>nadd\<close>, \<open>nmul\<close>, \<open>ndiv\<close> of the runtime;
  what the bounds below need of them is the locale \<open>score_runtime\<close>: the operators are monotone on
  nonnegative numbers, exact on small integers, and off by at most a relative error of two to the
  minus fifty.  \<open>Math.sqrt\<close> and the local-time \<open>Date\<close> constructor are arguments.
\<close>

section \<open>Configuration\<close>

record kyc_config =
  kc_w_ocr :: rat
  kc_w_faceMatch :: rat
  kc_w_imageQuality :: rat
  kc_w_documentQuality :: rat
  kc_w_fraudRisk :: rat
  kc_autoApprove :: rat
  kc_autoReject :: rat
  kc_minFaceMatch :: rat
  kc_matchThreshold :: rat

definition kyc_defaults :: kyc_config where
  "kyc_defaults = \<lparr>kc_w_ocr = 30 / 100, kc_w_faceMatch = 40 / 100, kc_w_imageQuality = 15 / 100,
     kc_w_documentQuality = 10 / 100, kc_w_fraudRisk = 5 / 100, kc_autoApprove = 85 / 100,
     kc_autoReject = 60 / 100, kc_minFaceMatch = 70 / 100, kc_matchThreshold = 45 / 100\<rparr>"

text \<open>The constructor refuses weights that do not add up to one.\<close>

definition confidenceEngine :: "runtime \<Rightarrow> kyc_config \<Rightarrow> err + unit" where
  "confidenceEngine R C =
     (let weightSum = foldl (nadd R) 0 [kc_w_ocr C, kc_w_faceMatch C, kc_w_imageQuality C,
            kc_w_documentQuality C, kc_w_fraudRisk C]
      in if 1 / 1000 < \<bar>nsub R weightSum 1\<bar>
         then Inl (PlainError (Msg ''KYC confidence weights must sum to 1.0'')) else Inr ())"

text \<open>\<open>Math.round(x * 10000) / 10000\<close>\<close>

definition js_round4 :: "runtime \<Rightarrow> rat \<Rightarrow> rat" where
  "js_round4 R x = ndiv R (of_int \<lfloor>nmul R x 10000 + 1 / 2\<rfloor>) 10000"

section \<open>Face matching\<close>

fun cosine_sums :: "runtime \<Rightarrow> rat list \<Rightarrow> rat list \<Rightarrow> rat \<times> rat \<times> rat \<Rightarrow> rat \<times> rat \<times> rat" where
  "cosine_sums R (x # xs) (y # ys) (dotProduct, normA, normB) =
     cosine_sums R xs ys
       (nadd R dotProduct (nmul R x y), nadd R normA (nmul R x x), nadd R normB (nmul R y y))"
| "cosine_sums R _ _ acc = acc"

definition cosineSimilarity :: "runtime \<Rightarrow> (rat \<Rightarrow> rat) \<Rightarrow> rat list \<Rightarrow> rat list \<Rightarrow> err + rat" where
  "cosineSimilarity R mathSqrt a b =
     (if length a \<noteq> length b then Inl (PlainError (Msg ''Embedding dimension mismatch''))
      else let (dotProduct, normA, normB) = cosine_sums R a b (0, 0, 0);
               denominator = nmul R (mathSqrt normA) (mathSqrt normB)
           in Inr (if denominator = 0 then 0 else max 0 (min (ndiv R dotProduct denominator) 1)))"

definition compareFaces ::
  "runtime \<Rightarrow> (rat \<Rightarrow> rat) \<Rightarrow> kyc_config \<Rightarrow> face_detection \<Rightarrow> face_detection \<Rightarrow> err + face_match" where
  "compareFaces R mathSqrt C idFace selfieFace =
     (case (fd_embedding idFace, fd_embedding selfieFace) of
        (Some a, Some b) \<Rightarrow>
          (case cosineSimilarity R mathSqrt a b of
             Inl e \<Rightarrow> Inl e
           | Inr similarity \<Rightarrow>
               let isMatch = (kc_matchThreshold C \<le> similarity);
                   qualityFactor = min (fd_qualityScore idFace) (fd_qualityScore selfieFace);
                   confidence = min (nadd R (nmul R similarity (8 / 10)) (nmul R qualityFactor (2 / 10))) 1
               in Inr \<lparr>fm_similarity = js_round4 R similarity, fm_isMatch = isMatch,
                       fm_confidence = js_round4 R confidence, fm_idFace = idFace, fm_selfieFace = selfieFace\<rparr>)
      | _ \<Rightarrow> Inr \<lparr>fm_similarity = 0, fm_isMatch = False, fm_confidence = 0, fm_idFace = idFace,
                  fm_selfieFace = selfieFace\<rparr>)"

fun duplicate_matches ::
  "runtime \<Rightarrow> (rat \<Rightarrow> rat) \<Rightarrow> rat list \<Rightarrow> rat \<Rightarrow> (uuid \<times> uuid \<times> rat list) list \<Rightarrow> err + (uuid \<times> uuid \<times> rat) list" where
  "duplicate_matches R mathSqrt embedding threshold [] = Inr []"
| "duplicate_matches R mathSqrt embedding threshold ((i, u, e) # rest) =
     (case cosineSimilarity R mathSqrt embedding e of
        Inl x \<Rightarrow> Inl x
      | Inr similarity \<Rightarrow>
          (case duplicate_matches R mathSqrt embedding threshold rest of
             Inl x \<Rightarrow> Inl x
           | Inr ms \<Rightarrow> Inr (if threshold \<le> similarity then (i, u, js_round4 R similarity) # ms else ms)))"

definition findDuplicates ::
  "runtime \<Rightarrow> (rat \<Rightarrow> rat) \<Rightarrow> kyc_config \<Rightarrow> rat list \<Rightarrow> (uuid \<times> uuid \<times> rat list) list \<Rightarrow> rat option
    \<Rightarrow> err + (uuid \<times> uuid \<times> rat) list" where
  "findDuplicates R mathSqrt C embedding existing threshold =
     (case duplicate_matches R mathSqrt embedding (case threshold of Some x \<Rightarrow> x | None \<Rightarrow> kc_matchThreshold C) existing of
        Inl e \<Rightarrow> Inl e
      | Inr matches \<Rightarrow> Inr (sort_key (\<lambda>(i, u, sim). - sim) matches))"

section \<open>Fraud detection\<close>

record fraud_context =
  fx_applicationId :: uuid
  fx_userId :: uuid
  fx_ocrResult :: "ocr_result option"
  fx_faceMatchResult :: face_match
  fx_idImageQuality :: image_quality
  fx_selfieImageQuality :: image_quality
  fx_selfieEmbedding :: "rat list option"

text \<open>The value of an optional field; the empty string counts as no value.\<close>

definition field_text :: "ocr_field option \<Rightarrow> string option" where
  "field_text f = (case f of None \<Rightarrow> None | Some x \<Rightarrow> if of_value x = [] then None else Some (of_value x))"

definition checkDuplicateNationalId :: "fraud_context \<Rightarrow> 's kyc_db \<Rightarrow> fraud_flag list" where
  "checkDuplicateNationalId c s =
     (case Option.bind (fx_ocrResult c) (\<lambda>r. field_text (oc_nationalIdNumber r)) of
        None \<Rightarrow> []
      | Some n \<Rightarrow>
          (case findApplicationByNationalId n (fx_applicationId c) s of
             None \<Rightarrow> []
           | Some a \<Rightarrow> [\<lparr>ff_type = DUPLICATE_NATIONAL_ID, ff_severity = CRITICAL,
                         ff_detail = IdUsedIn (ka_id a) (ka_userId a) n\<rparr>]))"

definition checkDuplicateFace ::
  "runtime \<Rightarrow> (rat \<Rightarrow> rat) \<Rightarrow> kyc_config \<Rightarrow> fraud_context \<Rightarrow> 's kyc_db \<Rightarrow> err + fraud_flag list" where
  "checkDuplicateFace R mathSqrt C c s =
     (case fx_selfieEmbedding c of
        None \<Rightarrow> Inr []
      | Some embedding \<Rightarrow>
          let others = filter (\<lambda>(i, u, e). u \<noteq> fx_userId c) (getAllApprovedEmbeddings s)
          in if others = [] then Inr []
             else case findDuplicates R mathSqrt C embedding others (Some (55 / 100)) of
                    Inl e \<Rightarrow> Inl e
                  | Inr [] \<Rightarrow> Inr []
                  | Inr (d # ds) \<Rightarrow>
                      Inr [\<lparr>ff_type = DUPLICATE_FACE, ff_severity = CRITICAL,
                           ff_detail = FaceMatches (length (d # ds)) (map snd (take 3 (d # ds)))\<rparr>])"

text \<open>\<open>split('/')\<close>.\<close>

fun split_at_char :: "char \<Rightarrow> string \<Rightarrow> string list" where
  "split_at_char sep [] = [[]]"
| "split_at_char sep (c # cs) =
     (if c = sep then [] # split_at_char sep cs
      else case split_at_char sep cs of p # ps \<Rightarrow> (c # p) # ps | [] \<Rightarrow> [[c]])"

text \<open>\<open>localDate\<close> is \<open>new Date(year, month, day)\<close> in the time zone of the host, without a value for an
  invalid date; with a number that is not one the date is invalid too.\<close>

definition checkExpiredDocument ::
  "runtime \<Rightarrow> (int \<Rightarrow> int \<Rightarrow> int \<Rightarrow> timestamp option) \<Rightarrow> fraud_context \<Rightarrow> fraud_flag list" where
  "checkExpiredDocument R localDate c =
     (case Option.bind (fx_ocrResult c) (\<lambda>r. field_text (oc_expiryDate r)) of
        None \<Rightarrow> []
      | Some expiryStr \<Rightarrow>
          (case split_at_char (CHR ''/'') expiryStr of
             d # m # y # _ \<Rightarrow>
               (case (parse_int d, parse_int m, parse_int y) of
                  (Some day, Some month, Some year) \<Rightarrow>
                    (case localDate (if year < 100 then 2000 + year else year) (month - 1) day of
                       None \<Rightarrow> []
                     | Some expiryDate \<Rightarrow>
                         if expiryDate < now R
                         then [\<lparr>ff_type = EXPIRED_DOCUMENT, ff_severity = HIGH,
                                ff_detail = ExpiredOn expiryDate ((now R - expiryDate) div 86400000)\<rparr>]
                         else [])
                | _ \<Rightarrow> [])
           | _ \<Rightarrow> []))"

definition checkImageTampering :: "fraud_context \<Rightarrow> fraud_flag list" where
  "checkImageTampering c =
     (let q = fx_idImageQuality c; p = fx_selfieImageQuality c
      in (if iq_width q < 400 \<or> iq_height q < 300
          then [\<lparr>ff_type = LOW_RESOLUTION, ff_severity = MEDIUM, ff_detail = ResolutionTooLow (iq_width q) (iq_height q)\<rparr>]
          else []) @
         (if iq_sharpnessScore q < 15 / 100
          then [\<lparr>ff_type = BLURRY_DOCUMENT, ff_severity = MEDIUM, ff_detail = DocumentBlurry (iq_sharpnessScore q)\<rparr>]
          else []) @
         (if iq_sharpnessScore p < 15 / 100
          then [\<lparr>ff_type = BLURRY_DOCUMENT, ff_severity = MEDIUM, ff_detail = SelfieBlurry (iq_sharpnessScore p)\<rparr>]
          else []))"

definition checkRepeatedAttempts :: "runtime \<Rightarrow> fraud_context \<Rightarrow> 's kyc_db \<Rightarrow> fraud_flag list" where
  "checkRepeatedAttempts R c s =
     (let recentCount = countRecentApplicationsByUserId (now R) (fx_userId c) 24 s
      in if 3 < recentCount
         then [\<lparr>ff_type = REPEATED_ATTEMPTS, ff_severity = MEDIUM, ff_detail = Attempts recentCount\<rparr>] else [])"

definition checkFaceMatchAnomalies :: "fraud_context \<Rightarrow> fraud_flag list" where
  "checkFaceMatchAnomalies c =
     (let m = fx_faceMatchResult c
      in (if 1 < fd_faceCount (fm_idFace m)
          then [\<lparr>ff_type = MULTIPLE_FACES, ff_severity = MEDIUM, ff_detail = FacesInId (fd_faceCount (fm_idFace m))\<rparr>]
          else []) @
         (if \<not> fd_detected (fm_idFace m)
          then [\<lparr>ff_type = NO_FACE_DETECTED, ff_severity = HIGH, ff_detail = NoFaceInId\<rparr>] else []) @
         (if \<not> fd_detected (fm_selfieFace m)
          then [\<lparr>ff_type = NO_FACE_DETECTED, ff_severity = HIGH, ff_detail = NoFaceInSelfie\<rparr>] else []) @
         (if fd_detected (fm_idFace m) \<and> fd_detected (fm_selfieFace m) \<and> fm_similarity m < 25 / 100
          then [\<lparr>ff_type = IMPOSSIBLE_MATCH, ff_severity = CRITICAL, ff_detail = SimilarityTooLow (fm_similarity m)\<rparr>]
          else []))"

primrec severityWeight :: "severity \<Rightarrow> rat" where
  "severityWeight LOW = 5 / 100"
| "severityWeight MEDIUM = 15 / 100"
| "severityWeight HIGH = 35 / 100"
| "severityWeight CRITICAL = 60 / 100"

definition computeRiskScore :: "runtime \<Rightarrow> fraud_flag list \<Rightarrow> rat" where
  "computeRiskScore R flags =
     (if flags = [] then 0
      else min (js_round2 R (foldl (\<lambda>acc f. nadd R acc (severityWeight (ff_severity f))) 0 flags)) 1)"

definition runAllChecks ::
  "runtime \<Rightarrow> (rat \<Rightarrow> rat) \<Rightarrow> (int \<Rightarrow> int \<Rightarrow> int \<Rightarrow> timestamp option) \<Rightarrow> kyc_config \<Rightarrow> fraud_context \<Rightarrow> 's kyc_db
    \<Rightarrow> err + fraud_flag list \<times> rat \<times> bool" where
  "runAllChecks R mathSqrt localDate C c s =
     (case checkDuplicateFace R mathSqrt C c s of
        Inl e \<Rightarrow> Inl e
      | Inr duplicateFaceFlags \<Rightarrow>
          let flags = checkDuplicateNationalId c s @ duplicateFaceFlags @ checkExpiredDocument R localDate c @
                checkImageTampering c @ checkRepeatedAttempts R c s @ checkFaceMatchAnomalies c
          in Inr (flags, computeRiskScore R flags,
                  list_ex (\<lambda>f. ff_severity f = CRITICAL \<or> ff_severity f = HIGH) flags))"

section \<open>The confidence engine\<close>

datatype decision_reason =
    CriticalFlag flag_detail
  | ProvidersUnavailable
  | BelowRejection rat rat
  | HighFlag flag_detail
  | AboveApproval rat rat rat rat
  | BetweenThresholds rat rat rat
  | DuplicateRequest
  | PipelineUnavailable

record kyc_scores =
  sc_ocr :: rat
  sc_faceMatch :: rat
  sc_imageQuality :: rat
  sc_documentQuality :: rat
  sc_fraudRisk :: rat

record score_result =
  sr_compositeScore :: rat
  sr_scores :: kyc_scores
  sr_decision :: decision
  sr_decisionReason :: decision_reason

definition computeOcrScore :: "ocr_result option \<Rightarrow> rat" where
  "computeOcrScore r = (case r of None \<Rightarrow> 0 | Some x \<Rightarrow> oc_overallConfidence x)"

definition computeFaceMatchScore :: "runtime \<Rightarrow> face_match \<Rightarrow> rat" where
  "computeFaceMatchScore R m = (if \<not> fm_isMatch m then nmul R (fm_similarity m) (5 / 10) else fm_confidence m)"

definition computeImageQualityScore :: "image_quality \<Rightarrow> image_quality \<Rightarrow> rat" where
  "computeImageQualityScore p q = min (iq_overallScore p) (iq_overallScore q)"

definition extracted :: "ocr_field option list \<Rightarrow> rat" where
  "extracted fs = of_nat (length (filter (\<lambda>f. f \<noteq> None) fs))"

definition computeDocumentQualityScore :: "runtime \<Rightarrow> ocr_result option \<Rightarrow> rat" where
  "computeDocumentQualityScore R r =
     (case r of None \<Rightarrow> 0
      | Some x \<Rightarrow>
          nadd R (nmul R (ndiv R (extracted [oc_fullName x, oc_nationalIdNumber x, oc_dateOfBirth x]) 3) (8 / 10))
            (nmul R (ndiv R (extracted [oc_gender x, oc_address x, oc_expiryDate x]) 3) (2 / 10)))"

definition makeDecision :: "kyc_config \<Rightarrow> rat \<Rightarrow> rat \<Rightarrow> fraud_flag list \<Rightarrow> decision \<times> decision_reason" where
  "makeDecision C compositeScore faceMatchScore flags =
     (case filter (\<lambda>f. ff_severity f = CRITICAL) flags of
        f # _ \<Rightarrow> (AUTO_REJECTED, CriticalFlag (ff_detail f))
      | [] \<Rightarrow>
          if compositeScore = 0 then (AUTO_MANUAL_REVIEW, ProvidersUnavailable)
          else if compositeScore < kc_autoReject C then (AUTO_REJECTED, BelowRejection compositeScore (kc_autoReject C))
          else case filter (\<lambda>f. ff_severity f = HIGH) flags of
            f # _ \<Rightarrow> (AUTO_MANUAL_REVIEW, HighFlag (ff_detail f))
          | [] \<Rightarrow>
              if kc_autoApprove C \<le> compositeScore \<and> kc_minFaceMatch C \<le> faceMatchScore
              then (AUTO_APPROVED, AboveApproval compositeScore (kc_autoApprove C) faceMatchScore (kc_minFaceMatch C))
              else (AUTO_MANUAL_REVIEW, BetweenThresholds compositeScore (kc_autoReject C) (kc_autoApprove C)))"

definition compositeOf :: "runtime \<Rightarrow> kyc_config \<Rightarrow> rat \<Rightarrow> rat \<Rightarrow> rat \<Rightarrow> rat \<Rightarrow> rat \<Rightarrow> rat" where
  "compositeOf R C ocr face photo document fraud =
     nadd R (nadd R (nadd R (nadd R (nmul R ocr (kc_w_ocr C)) (nmul R face (kc_w_faceMatch C)))
       (nmul R photo (kc_w_imageQuality C))) (nmul R document (kc_w_documentQuality C)))
       (nmul R fraud (kc_w_fraudRisk C))"

definition computeScore ::
  "runtime \<Rightarrow> kyc_config \<Rightarrow> ocr_result option \<Rightarrow> face_match \<Rightarrow> image_quality \<Rightarrow> image_quality \<Rightarrow> fraud_flag list
    \<Rightarrow> rat \<Rightarrow> score_result" where
  "computeScore R C ocrResult faceMatch idQuality selfieQuality flags riskScore =
     (let ocrScore = computeOcrScore ocrResult;
          faceMatchScore = computeFaceMatchScore R faceMatch;
          imageQualityScore = computeImageQualityScore idQuality selfieQuality;
          documentQualityScore = computeDocumentQualityScore R ocrResult;
          fraudRiskScore = max 0 (nsub R 1 riskScore);
          roundedComposite =
            js_round4 R (compositeOf R C ocrScore faceMatchScore imageQualityScore documentQualityScore fraudRiskScore);
          (dec, reason) = makeDecision C roundedComposite faceMatchScore flags
      in \<lparr>sr_compositeScore = roundedComposite,
          sr_scores = \<lparr>sc_ocr = js_round4 R ocrScore, sc_faceMatch = js_round4 R faceMatchScore,
            sc_imageQuality = js_round4 R imageQualityScore, sc_documentQuality = js_round4 R documentQualityScore,
            sc_fraudRisk = js_round4 R fraudRiskScore\<rparr>,
          sr_decision = dec, sr_decisionReason = reason\<rparr>)"

section \<open>What the scores rely on\<close>

locale score_runtime = numeric_runtime +
  assumes nmul_mono: "0 \<le> x \<Longrightarrow> x \<le> x' \<Longrightarrow> 0 \<le> y \<Longrightarrow> y \<le> y' \<Longrightarrow> nmul R x y \<le> nmul R x' y'"
    and ndiv_mono: "x \<le> x' \<Longrightarrow> 0 < y \<Longrightarrow> ndiv R x y \<le> ndiv R x' y"
    and nmul_int: "\<bar>m * n\<bar> < 2 ^ 53 \<Longrightarrow> nmul R (of_int m) (of_int n) = of_int (m * n)"
    and nmul_0: "nmul R 0 y = 0"
    and ndiv_0: "ndiv R 0 y = 0"
    and ndiv_self: "y \<noteq> 0 \<Longrightarrow> ndiv R y y = 1"
    and nadd_err: "\<bar>nadd R x y - (x + y)\<bar> \<le> (\<bar>x\<bar> + \<bar>y\<bar> + 1) / 2 ^ 50"
    and nsub_err: "\<bar>nsub R x y - (x - y)\<bar> \<le> (\<bar>x\<bar> + \<bar>y\<bar> + 1) / 2 ^ 50"
    and nmul_err: "\<bar>nmul R x y - x * y\<bar> \<le> (\<bar>x * y\<bar> + 1) / 2 ^ 50"
    and ndiv_err: "\<bar>ndiv R x y - x / y\<bar> \<le> (\<bar>x / y\<bar> + 1) / 2 ^ 50"

interpretation pgs: score_runtime "pg_runtime t"
  by unfold_locales (auto simp: pg_runtime_def mult_mono divide_right_mono)

context score_runtime
begin

lemma nmul_nonneg: "0 \<le> x \<Longrightarrow> 0 \<le> y \<Longrightarrow> 0 \<le> nmul R x y"
  using nmul_mono [of 0 x 0 y] nmul_0 [of 0] by simp

lemma nadd_nonneg: "0 \<le> x \<Longrightarrow> 0 \<le> y \<Longrightarrow> 0 \<le> nadd R x y"
  using nadd_mono [of 0 x 0 y] nadd_0 [of 0] by simp

lemma nadd_ge: "0 \<le> y \<Longrightarrow> x \<le> nadd R x y"
  using nadd_mono [of x x 0 y] nadd_0 [of x] by simp

lemma ndiv_nonneg: "0 \<le> x \<Longrightarrow> 0 < y \<Longrightarrow> 0 \<le> ndiv R x y"
  using ndiv_mono [of 0 x y] by (simp add: ndiv_0)

text \<open>Results of the operators on scores, up to a billionth.\<close>

lemma error_near:
  fixes r e k :: rat
  assumes "\<bar>r - e\<bar> \<le> (k + 1) / 2 ^ 50" and "k \<le> 20000"
  shows "e - 1 / 1000000000 \<le> r \<and> r \<le> e + 1 / 1000000000"
proof -
  have "(k + 1) / 2 ^ 50 \<le> 20001 / 2 ^ 50" using assms(2) by (intro divide_right_mono) simp_all
  also have "\<dots> \<le> 1 / 1000000000" by simp
  finally show ?thesis using assms(1) by linarith
qed

lemma near_nmul:
  "\<bar>x * y\<bar> \<le> 20000 \<Longrightarrow> x * y - 1 / 1000000000 \<le> nmul R x y \<and> nmul R x y \<le> x * y + 1 / 1000000000"
  by (rule error_near [OF nmul_err])

lemma near_nadd:
  "\<bar>x\<bar> + \<bar>y\<bar> \<le> 20000 \<Longrightarrow> x + y - 1 / 1000000000 \<le> nadd R x y \<and> nadd R x y \<le> x + y + 1 / 1000000000"
  by (rule error_near [OF nadd_err])

lemma near_nsub:
  "\<bar>x\<bar> + \<bar>y\<bar> \<le> 20000 \<Longrightarrow> x - y - 1 / 1000000000 \<le> nsub R x y \<and> nsub R x y \<le> x - y + 1 / 1000000000"
  by (rule error_near [OF nsub_err])

lemma near_ndiv:
  "\<bar>x / y\<bar> \<le> 20000 \<Longrightarrow> x / y - 1 / 1000000000 \<le> ndiv R x y \<and> ndiv R x y \<le> x / y + 1 / 1000000000"
  by (rule error_near [OF ndiv_err])

lemma js_round4_unit:
  assumes "0 \<le> x" "x \<le> 1000000012 / 1000000000"
  shows "0 \<le> js_round4 R x" "js_round4 R x \<le> 1" "x - 1 / 10000 \<le> js_round4 R x" "js_round4 R x \<le> x + 1 / 10000"
proof -
  let ?n = "\<lfloor>nmul R x 10000 + 1 / 2\<rfloor>"
  have "\<bar>x * 10000\<bar> \<le> 20000" using assms by simp
  note near = near_nmul [OF this]
  then have n: "0 \<le> ?n" "?n \<le> 10000"
    using nmul_nonneg [of x 10000] assms by linarith+
  then have r: "0 \<le> (of_int ?n :: rat)" "(of_int ?n :: rat) \<le> 10000" by linarith+
  then have "\<bar>of_int ?n / 10000 :: rat\<bar> \<le> 20000" by simp
  note d = near_ndiv [OF this]
  show "0 \<le> js_round4 R x" unfolding js_round4_def by (rule ndiv_nonneg) (use r in simp_all)
  show "js_round4 R x \<le> 1"
    using ndiv_mono [OF r(2), of 10000] ndiv_self [of 10000] by (simp add: js_round4_def)
  have f: "of_int ?n \<le> nmul R x 10000 + 1 / 2" "nmul R x 10000 - 1 / 2 \<le> of_int ?n" by linarith+
  show "x - 1 / 10000 \<le> js_round4 R x" "js_round4 R x \<le> x + 1 / 10000"
    using near d f unfolding js_round4_def by linarith+
qed

lemma js_round2_near:
  assumes "0 \<le> x" "x \<le> 100"
  shows "0 \<le> js_round2 R x" "x - 6 / 1000 \<le> js_round2 R x" "js_round2 R x \<le> x + 6 / 1000"
proof -
  let ?n = "\<lfloor>nmul R x 100 + 1 / 2\<rfloor>"
  have "\<bar>x * 100\<bar> \<le> 20000" using assms by simp
  note near = near_nmul [OF this]
  then have n: "0 \<le> ?n" "?n \<le> 10001" using nmul_nonneg [of x 100] assms by linarith+
  then have r: "0 \<le> (of_int ?n :: rat)" "(of_int ?n :: rat) \<le> 10001" by linarith+
  then have "\<bar>of_int ?n / 100 :: rat\<bar> \<le> 20000" by simp
  note d = near_ndiv [OF this]
  show "0 \<le> js_round2 R x" unfolding js_round2_def by (rule ndiv_nonneg) (use r in simp_all)
  have f: "of_int ?n \<le> nmul R x 100 + 1 / 2" "nmul R x 100 - 1 / 2 \<le> of_int ?n" by linarith+
  show "x - 6 / 1000 \<le> js_round2 R x" "js_round2 R x \<le> x + 6 / 1000"
    using near d f unfolding js_round2_def by linarith+
qed

lemma weighted_near:
  assumes "0 \<le> x" "x \<le> 2" "0 \<le> w" "w \<le> 100"
  shows "0 \<le> nmul R x (w / 100)" "x * w / 100 - 1 / 1000000000 \<le> nmul R x (w / 100)"
    "nmul R x (w / 100) \<le> x * w / 100 + 1 / 1000000000" "nmul R x (w / 100) \<le> 3"
proof -
  have "0 \<le> x * w" "x * w \<le> 2 * 100" using assms mult_mono [of x 2 w 100] by auto
  moreover from this have "\<bar>x * (w / 100)\<bar> \<le> 20000" by simp
  note near_nmul [OF this]
  ultimately show "x * w / 100 - 1 / 1000000000 \<le> nmul R x (w / 100)"
    "nmul R x (w / 100) \<le> x * w / 100 + 1 / 1000000000" "nmul R x (w / 100) \<le> 3" by auto
  show "0 \<le> nmul R x (w / 100)" using assms by (simp add: nmul_nonneg)
qed

lemma sum_near:
  assumes "0 \<le> x" "x \<le> 1000" "0 \<le> y" "y \<le> 1000"
  shows "0 \<le> nadd R x y" "x + y - 1 / 1000000000 \<le> nadd R x y" "nadd R x y \<le> x + y + 1 / 1000000000"
  using assms near_nadd [of x y] by (auto simp: nadd_nonneg)

lemma composite_near:
  assumes "0 \<le> a" "a \<le> 2" "0 \<le> b" "b \<le> 2" "0 \<le> c" "c \<le> 2" "0 \<le> d" "d \<le> 2" "0 \<le> e" "e \<le> 2"
  shows "a * 30 / 100 + b * 40 / 100 + c * 15 / 100 + d * 10 / 100 + e * 5 / 100 - 1 / 100000000 \<le> compositeOf R kyc_defaults a b c d e"
    and "compositeOf R kyc_defaults a b c d e \<le> a * 30 / 100 + b * 40 / 100 + c * 15 / 100 + d * 10 / 100 + e * 5 / 100 + 1 / 100000000"
    and "0 \<le> compositeOf R kyc_defaults a b c d e"
proof -
  define ma mb mc md me where m_defs: "ma = nmul R a (30 / 100)" "mb = nmul R b (40 / 100)" "mc = nmul R c (15 / 100)"
    "md = nmul R d (10 / 100)" "me = nmul R e (5 / 100)"
  have ma: "0 \<le> ma" "ma \<le> 3" "a * 30 / 100 - 1 / 1000000000 \<le> ma" "ma \<le> a * 30 / 100 + 1 / 1000000000"
    unfolding m_defs using weighted_near [OF assms(1,2), of 30] by auto
  have mb: "0 \<le> mb" "mb \<le> 3" "b * 40 / 100 - 1 / 1000000000 \<le> mb" "mb \<le> b * 40 / 100 + 1 / 1000000000"
    unfolding m_defs using weighted_near [OF assms(3,4), of 40] by auto
  have mc: "0 \<le> mc" "mc \<le> 3" "c * 15 / 100 - 1 / 1000000000 \<le> mc" "mc \<le> c * 15 / 100 + 1 / 1000000000"
    unfolding m_defs using weighted_near [OF assms(5,6), of 15] by auto
  have md: "0 \<le> md" "md \<le> 3" "d * 10 / 100 - 1 / 1000000000 \<le> md" "md \<le> d * 10 / 100 + 1 / 1000000000"
    unfolding m_defs using weighted_near [OF assms(7,8), of 10] by auto
  have me: "0 \<le> me" "me \<le> 3" "e * 5 / 100 - 1 / 1000000000 \<le> me" "me \<le> e * 5 / 100 + 1 / 1000000000"
    unfolding m_defs using weighted_near [OF assms(9,10), of 5] by auto
  define s1 s2 s3 where s_defs: "s1 = nadd R ma mb" "s2 = nadd R s1 mc" "s3 = nadd R s2 md"
  have 1: "0 \<le> s1" "ma + mb - 1 / 1000000000 \<le> s1" "s1 \<le> ma + mb + 1 / 1000000000"
    unfolding s_defs using sum_near [of ma mb] ma mb by auto
  have 2: "0 \<le> s2" "s1 + mc - 1 / 1000000000 \<le> s2" "s2 \<le> s1 + mc + 1 / 1000000000"
    unfolding s_defs(2) using sum_near [of s1 mc] ma mb mc 1 by auto
  have 3: "0 \<le> s3" "s2 + md - 1 / 1000000000 \<le> s3" "s3 \<le> s2 + md + 1 / 1000000000"
    unfolding s_defs(3) using sum_near [of s2 md] ma mb mc md 1 2 by auto
  have 4: "0 \<le> nadd R s3 me" "s3 + me - 1 / 1000000000 \<le> nadd R s3 me" "nadd R s3 me \<le> s3 + me + 1 / 1000000000"
    using sum_near [of s3 me] ma mb mc md me 1 2 3 by auto
  have c: "compositeOf R kyc_defaults a b c d e = nadd R s3 me"
    by (simp add: compositeOf_def kyc_defaults_def s_defs m_defs)
  show "0 \<le> compositeOf R kyc_defaults a b c d e" unfolding c by (rule 4)
  show "a * 30 / 100 + b * 40 / 100 + c * 15 / 100 + d * 10 / 100 + e * 5 / 100 - 1 / 100000000 \<le> compositeOf R kyc_defaults a b c d e"
    unfolding c using ma(3,4) mb(3,4) mc(3,4) md(3,4) me(3,4) 1(2,3) 2(2,3) 3(2,3) 4(2,3) by linarith
  show "compositeOf R kyc_defaults a b c d e \<le> a * 30 / 100 + b * 40 / 100 + c * 15 / 100 + d * 10 / 100 + e * 5 / 100 + 1 / 100000000"
    unfolding c using ma(3,4) mb(3,4) mc(3,4) md(3,4) me(3,4) 1(2,3) 2(2,3) 3(2,3) 4(2,3) by linarith
qed

lemma documentQuality_range:
  "0 \<le> computeDocumentQualityScore R r" "computeDocumentQualityScore R r \<le> 1 + 1 / 100000000"
proof -
  have third: "0 \<le> ndiv R (extracted [x, y, z]) 3" "ndiv R (extracted [x, y, z]) 3 \<le> 1" for x y z :: "ocr_field option"
  proof -
    have e: "0 \<le> extracted [x, y, z]" "extracted [x, y, z] \<le> 3" by (auto simp: extracted_def)
    show "0 \<le> ndiv R (extracted [x, y, z]) 3" using e by (simp add: ndiv_nonneg)
    show "ndiv R (extracted [x, y, z]) 3 \<le> 1" using ndiv_mono [OF e(2), of 3] ndiv_self [of 3] by simp
  qed
  have "0 \<le> computeDocumentQualityScore R r \<and> computeDocumentQualityScore R r \<le> 1 + 1 / 100000000"
  proof (cases r)
    case (Some x)
    let ?p = "ndiv R (extracted [oc_fullName x, oc_nationalIdNumber x, oc_dateOfBirth x]) 3"
    let ?q = "ndiv R (extracted [oc_gender x, oc_address x, oc_expiryDate x]) 3"
    have p: "0 \<le> ?p" "?p \<le> 1" and q: "0 \<le> ?q" "?q \<le> 1" by (rule third)+
    have p': "0 \<le> nmul R ?p (80 / 100)" "nmul R ?p (80 / 100) \<le> 80 / 100 + 1 / 1000000000"
      using weighted_near [of ?p 80] p by auto
    have q': "0 \<le> nmul R ?q (20 / 100)" "nmul R ?q (20 / 100) \<le> 20 / 100 + 1 / 1000000000"
      using weighted_near [of ?q 20] q by auto
    have "0 \<le> nadd R (nmul R ?p (80 / 100)) (nmul R ?q (20 / 100)) \<and>
        nadd R (nmul R ?p (80 / 100)) (nmul R ?q (20 / 100)) \<le> 1 + 1 / 100000000"
      using sum_near [of "nmul R ?p (80 / 100)" "nmul R ?q (20 / 100)"] p' q' by auto
    then show ?thesis by (simp add: Some computeDocumentQualityScore_def)
  qed (simp add: computeDocumentQualityScore_def)
  then show "0 \<le> computeDocumentQualityScore R r" "computeDocumentQualityScore R r \<le> 1 + 1 / 100000000" by auto
qed

lemma cosine_range: "cosineSimilarity R mathSqrt a b = Inr x \<Longrightarrow> 0 \<le> x \<and> x \<le> 1"
  by (auto simp: cosineSimilarity_def Let_def split: if_splits prod.splits)

lemma compareFaces_range:
  assumes "compareFaces R mathSqrt C f g = Inr m" and "0 \<le> fd_qualityScore f" and "0 \<le> fd_qualityScore g"
  shows "0 \<le> fm_similarity m \<and> fm_similarity m \<le> 1 \<and> 0 \<le> fm_confidence m \<and> fm_confidence m \<le> 1"
proof (cases "fd_embedding f = None \<or> fd_embedding g = None")
  case True
  then show ?thesis using assms(1) by (auto simp: compareFaces_def split: option.splits)
next
  case False
  then obtain a b where e: "fd_embedding f = Some a" "fd_embedding g = Some b" by auto
  with assms(1) obtain x where x: "cosineSimilarity R mathSqrt a b = Inr x"
    by (auto simp: compareFaces_def split: sum.splits)
  let ?c = "min (nadd R (nmul R x (8 / 10)) (nmul R (min (fd_qualityScore f) (fd_qualityScore g)) (2 / 10))) 1"
  have m: "fm_similarity m = js_round4 R x" "fm_confidence m = js_round4 R ?c"
    using assms(1) e x by (auto simp: compareFaces_def Let_def)
  have "0 \<le> ?c" using cosine_range [OF x] assms(2,3) by (auto intro!: nadd_nonneg nmul_nonneg)
  then show ?thesis using js_round4_unit [of x] js_round4_unit [of ?c] cosine_range [OF x] by (simp add: m)
qed

lemma faceMatchScore_range:
  assumes "0 \<le> fm_similarity m" "fm_similarity m \<le> 1" "0 \<le> fm_confidence m" "fm_confidence m \<le> 1"
  shows "0 \<le> computeFaceMatchScore R m \<and> computeFaceMatchScore R m \<le> 1"
  using assms weighted_near [of "fm_similarity m" 50] by (simp add: computeFaceMatchScore_def)

lemma fraudScore_range:
  assumes "0 \<le> x" "x \<le> 1"
  shows "0 \<le> max 0 (nsub R 1 x)" "max 0 (nsub R 1 x) \<le> 1 - x + 1 / 1000000000"
  using near_nsub [of 1 x] assms by auto

lemma weights_ge: "x \<le> foldl (\<lambda>acc f. nadd R acc (severityWeight (ff_severity f))) x flags"
proof (induction flags arbitrary: x)
  case (Cons f flags)
  have "0 \<le> severityWeight (ff_severity f)" by (cases "ff_severity f") simp_all
  then have "x \<le> nadd R x (severityWeight (ff_severity f))" by (rule nadd_ge)
  also note Cons.IH
  finally show ?case by simp
qed simp

lemma js_round2_mono: "0 \<le> x \<Longrightarrow> x \<le> y \<Longrightarrow> js_round2 R x \<le> js_round2 R y"
  unfolding js_round2_def
  by (intro ndiv_mono) (auto intro!: floor_mono add_mono nmul_mono)

lemma riskScore_nonneg: "0 \<le> computeRiskScore R flags"
  using js_round2_near(1) [of 0] js_round2_mono [OF _ weights_ge [of 0 flags]] by (simp add: computeRiskScore_def)

lemma riskScore_le_1: "computeRiskScore R flags \<le> 1"
  by (simp add: computeRiskScore_def)

text \<open>Without a face in either picture two high flags end the list, and the risk is at least 0.69.\<close>

lemma riskScore_two_high:
  assumes "flags = fs @ [f, g]" and "ff_severity f = HIGH" and "ff_severity g = HIGH"
  shows "69 / 100 \<le> computeRiskScore R flags"
proof -
  let ?h = "35 / 100 :: rat" and ?x = "foldl (\<lambda>acc f. nadd R acc (severityWeight (ff_severity f))) 0 fs"
  have x: "0 \<le> ?x" by (rule weights_ge)
  have 1: "0 \<le> nadd R 0 ?h" "?h - 1 / 1000000000 \<le> nadd R 0 ?h" "nadd R 0 ?h \<le> ?h + 1 / 1000000000"
    using sum_near [of 0 ?h] by auto
  have 2: "0 \<le> nadd R (nadd R 0 ?h) ?h" "699 / 1000 \<le> nadd R (nadd R 0 ?h) ?h" "nadd R (nadd R 0 ?h) ?h \<le> 1"
    using sum_near [of "nadd R 0 ?h" ?h] 1 by auto
  have "nadd R (nadd R 0 ?h) ?h \<le> nadd R (nadd R ?x ?h) ?h" using x by (intro nadd_mono) simp_all
  then have "js_round2 R (nadd R (nadd R 0 ?h) ?h) \<le> js_round2 R (nadd R (nadd R ?x ?h) ?h)"
    using 2 by (intro js_round2_mono) simp_all
  moreover have "69 / 100 \<le> js_round2 R (nadd R (nadd R 0 ?h) ?h)"
    using js_round2_near(2) [of "nadd R (nadd R 0 ?h) ?h"] 2 by simp
  ultimately show ?thesis using assms by (simp add: computeRiskScore_def)
qed

end

section \<open>Decisions\<close>

lemma no_flag_of: "filter (\<lambda>f. ff_severity f = v) flags = [] \<longleftrightarrow> \<not> list_ex (\<lambda>f. ff_severity f = v) flags"
  by (induction flags) auto

lemma makeDecision_approved:
  "fst (makeDecision C x y flags) = AUTO_APPROVED \<longleftrightarrow>
     \<not> list_ex (\<lambda>f. ff_severity f = CRITICAL) flags \<and> \<not> list_ex (\<lambda>f. ff_severity f = HIGH) flags \<and>
     x \<noteq> 0 \<and> kc_autoReject C \<le> x \<and> kc_autoApprove C \<le> x \<and> kc_minFaceMatch C \<le> y"
  unfolding makeDecision_def no_flag_of [symmetric]
  by (cases "filter (\<lambda>f. ff_severity f = CRITICAL) flags"; cases "filter (\<lambda>f. ff_severity f = HIGH) flags")
    (simp_all add: not_less)

lemma makeDecision_rejected:
  "fst (makeDecision C x y flags) = AUTO_REJECTED \<longleftrightarrow>
     list_ex (\<lambda>f. ff_severity f = CRITICAL) flags \<or> x \<noteq> 0 \<and> x < kc_autoReject C"
  unfolding makeDecision_def
  using no_flag_of [of CRITICAL flags]
  by (cases "filter (\<lambda>f. ff_severity f = CRITICAL) flags"; cases "filter (\<lambda>f. ff_severity f = HIGH) flags")
    (simp_all add: not_less)

lemma computeScore_parts:
  assumes "r = computeScore R C ocrResult faceMatch idQuality selfieQuality flags riskScore"
  shows "sr_compositeScore r = js_round4 R (compositeOf R C (computeOcrScore ocrResult)
      (computeFaceMatchScore R faceMatch) (computeImageQualityScore idQuality selfieQuality)
      (computeDocumentQualityScore R ocrResult) (max 0 (nsub R 1 riskScore)))"
    and "sr_decision r = fst (makeDecision C (sr_compositeScore r) (computeFaceMatchScore R faceMatch) flags)"
    and "sr_decisionReason r = snd (makeDecision C (sr_compositeScore r) (computeFaceMatchScore R faceMatch) flags)"
  using assms by (simp_all add: computeScore_def Let_def case_prod_beta)

definition unit_score :: "rat \<Rightarrow> bool" where
  "unit_score x \<longleftrightarrow> 0 \<le> x \<and> x \<le> 1"

definition ocr_in_range :: "ocr_result option \<Rightarrow> bool" where
  "ocr_in_range r \<longleftrightarrow> (case r of None \<Rightarrow> True | Some x \<Rightarrow> unit_score (oc_overallConfidence x))"

context score_runtime
begin

lemma composite_range:
  assumes "compareFaces R mathSqrt kyc_defaults f g = Inr m" and "0 \<le> fd_qualityScore f" and "0 \<le> fd_qualityScore g"
    and "ocr_in_range ocr" and "unit_score (iq_overallScore p)" and "unit_score (iq_overallScore q)"
    and "r = computeScore R kyc_defaults ocr m p q flags (computeRiskScore R flags)"
    and "e = computeOcrScore ocr * 30 / 100 + computeFaceMatchScore R m * 40 / 100 + computeImageQualityScore p q * 15 / 100 +
           computeDocumentQualityScore R ocr * 10 / 100 + max 0 (nsub R 1 (computeRiskScore R flags)) * 5 / 100"
  shows "unit_score (sr_compositeScore r)" and "e - 2 / 10000 \<le> sr_compositeScore r" and "sr_compositeScore r \<le> e + 2 / 10000"
proof -
  let ?a = "computeOcrScore ocr" and ?b = "computeFaceMatchScore R m" and ?c = "computeImageQualityScore p q"
  let ?d = "computeDocumentQualityScore R ocr" and ?e = "max 0 (nsub R 1 (computeRiskScore R flags))"
  have a: "0 \<le> ?a" "?a \<le> 1" using assms(4) by (auto simp: ocr_in_range_def unit_score_def computeOcrScore_def split: option.splits)
  have "0 \<le> fm_similarity m" "fm_similarity m \<le> 1" "0 \<le> fm_confidence m" "fm_confidence m \<le> 1"
    using compareFaces_range [OF assms(1-3)] by auto
  then have b: "0 \<le> ?b" "?b \<le> 1" using faceMatchScore_range by auto
  have c: "0 \<le> ?c" "?c \<le> 1" using assms(5,6) by (auto simp: unit_score_def computeImageQualityScore_def)
  have d: "0 \<le> ?d" "?d \<le> 1 + 1 / 100000000" by (rule documentQuality_range)+
  have e: "0 \<le> ?e" "?e \<le> 1 + 1 / 1000000000"
    using fraudScore_range [OF riskScore_nonneg riskScore_le_1, of flags] riskScore_nonneg [of flags] by linarith+
  define k where "k = compositeOf R kyc_defaults ?a ?b ?c ?d ?e"
  have k: "e - 1 / 100000000 \<le> k" "k \<le> e + 1 / 100000000" "0 \<le> k"
    unfolding k_def assms(8) using composite_near [of ?a ?b ?c ?d ?e] a b c d e by auto
  have up: "x * 30 / 100 + y * 40 / 100 + z * 15 / 100 + v * 10 / 100 + w * 5 / 100 \<le> 1 + 1 / 500000000"
    if "x \<le> 1" "y \<le> 1" "z \<le> 1" "v \<le> 1 + 1 / 100000000" "w \<le> 1 + 1 / 1000000000" for x y z v w :: rat
    using that by linarith
  have "e \<le> 1 + 1 / 500000000" unfolding assms(8) by (rule up [OF a(2) b(2) c(2) d(2) e(2)])
  then have k1: "k \<le> 1000000012 / 1000000000" using k(2) by linarith
  have r: "sr_compositeScore r = js_round4 R k" by (simp only: computeScore_parts(1) [OF assms(7)] k_def)
  show "unit_score (sr_compositeScore r)" unfolding r unit_score_def using js_round4_unit(1,2) [OF k(3) k1] by simp
  show "e - 2 / 10000 \<le> sr_compositeScore r" "sr_compositeScore r \<le> e + 2 / 10000"
    unfolding r using js_round4_unit(3,4) [OF k(3) k1] k by linarith+
qed

text \<open>A score without a match stays below the threshold for a face.\<close>

lemma approval_needs_match:
  assumes "0 \<le> fm_similarity m" "fm_similarity m \<le> 1" and "kc_minFaceMatch kyc_defaults \<le> computeFaceMatchScore R m"
  shows "fm_isMatch m"
  using assms weighted_near [of "fm_similarity m" 50]
  by (auto simp: kyc_defaults_def computeFaceMatchScore_def split: if_splits)

text \<open>When no face was found in either picture the engine rejects, however good everything else is.\<close>

lemma faceless_rejected:
  assumes faces: "fd_embedding f = None" "fd_embedding g = None" "\<not> fd_detected f" "\<not> fd_detected g"
      "0 \<le> fd_qualityScore f" "0 \<le> fd_qualityScore g" "compareFaces R mathSqrt kyc_defaults f g = Inr m"
    and ranges: "ocr_in_range ocr" "unit_score (iq_overallScore p)" "unit_score (iq_overallScore q)"
      "1 / 100 \<le> computeImageQualityScore p q"
    and flags: "flags = fs @ checkFaceMatchAnomalies c" "fx_faceMatchResult c = m"
    and r: "r = computeScore R kyc_defaults ocr m p q flags (computeRiskScore R flags)"
  shows "sr_decision r = AUTO_REJECTED"
proof -
  let ?a = "computeOcrScore ocr" and ?c = "computeImageQualityScore p q"
  let ?d = "computeDocumentQualityScore R ocr" and ?e = "max 0 (nsub R 1 (computeRiskScore R flags))"
  have m: "m = \<lparr>fm_similarity = 0, fm_isMatch = False, fm_confidence = 0, fm_idFace = f, fm_selfieFace = g\<rparr>"
    using faces by (simp add: compareFaces_def)
  then have face: "computeFaceMatchScore R m = 0" by (simp add: computeFaceMatchScore_def nmul_0)
  have "\<exists>ms. checkFaceMatchAnomalies c = ms @ [\<lparr>ff_type = NO_FACE_DETECTED, ff_severity = HIGH, ff_detail = NoFaceInId\<rparr>,
      \<lparr>ff_type = NO_FACE_DETECTED, ff_severity = HIGH, ff_detail = NoFaceInSelfie\<rparr>]"
    using faces(3,4) flags(2) m by (simp add: checkFaceMatchAnomalies_def)
  then have risk: "69 / 100 \<le> computeRiskScore R flags"
    using flags(1) riskScore_two_high by (metis append.assoc fraud_flag.select_convs(2))
  have e: "0 \<le> ?e" "?e \<le> 32 / 100"
    using fraudScore_range [OF riskScore_nonneg riskScore_le_1, of flags] risk by linarith+
  have a: "0 \<le> ?a" "?a \<le> 1" using ranges(1) by (auto simp: ocr_in_range_def unit_score_def computeOcrScore_def split: option.splits)
  have c: "?c \<le> 1" using ranges(2) by (auto simp: unit_score_def computeImageQualityScore_def)
  note d = documentQuality_range [of ocr]
  note k = composite_range [OF faces(7,5,6) ranges(1-3) r refl, unfolded face]
  have arith: "0 < y \<and> y < 60 / 100"
    if "x * 30 / 100 + 0 * 40 / 100 + z * 15 / 100 + v * 10 / 100 + w * 5 / 100 - 2 / 10000 \<le> y"
      "y \<le> x * 30 / 100 + 0 * 40 / 100 + z * 15 / 100 + v * 10 / 100 + w * 5 / 100 + 2 / 10000"
      "0 \<le> x" "x \<le> 1" "1 / 100 \<le> z" "z \<le> 1" "0 \<le> v" "v \<le> 1 + 1 / 100000000" "0 \<le> w" "w \<le> 32 / 100"
    for x y z v w :: rat
    using that by linarith
  have "0 < sr_compositeScore r \<and> sr_compositeScore r < 60 / 100"
    by (rule arith [OF k(2,3) a ranges(4) c d e])
  then show ?thesis
    by (simp add: computeScore_parts(2) [OF r] makeDecision_rejected) (simp add: kyc_defaults_def)
qed

end

text \<open>C23. The automatic decision, with the default weights and thresholds and whatever the providers
  measured within their ranges: the composite score lies between zero and one and is the weighted mean
  of the five sub-scores up to two ten-thousandths; the application is approved exactly when no high or
  critical flag was raised, the composite reaches 0.85 and the two faces match with a confidence of at
  least 0.70; it is rejected exactly when a critical flag was raised or a composite other than zero is
  below 0.60; everything else goes to a person.\<close>

theorem automatic_decision_sound:
  assumes "score_runtime R"
    and "compareFaces R mathSqrt kyc_defaults idFace selfieFace = Inr m"
    and "0 \<le> fd_qualityScore idFace" and "0 \<le> fd_qualityScore selfieFace"
    and "ocr_in_range ocr" and "unit_score (iq_overallScore p)" and "unit_score (iq_overallScore q)"
    and "r = computeScore R kyc_defaults ocr m p q flags (computeRiskScore R flags)"
    and "mean = computeOcrScore ocr * 30 / 100 + computeFaceMatchScore R m * 40 / 100 +
           computeImageQualityScore p q * 15 / 100 + computeDocumentQualityScore R ocr * 10 / 100 +
           max 0 (nsub R 1 (computeRiskScore R flags)) * 5 / 100"
  shows "unit_score (sr_compositeScore r) \<and> mean - 2 / 10000 \<le> sr_compositeScore r \<and>
      sr_compositeScore r \<le> mean + 2 / 10000 \<and>
      (sr_decision r = AUTO_APPROVED \<longleftrightarrow>
         \<not> list_ex (\<lambda>f. ff_severity f = CRITICAL) flags \<and> \<not> list_ex (\<lambda>f. ff_severity f = HIGH) flags \<and>
         85 / 100 \<le> sr_compositeScore r \<and> fm_isMatch m \<and> 70 / 100 \<le> fm_confidence m) \<and>
      (sr_decision r = AUTO_REJECTED \<longleftrightarrow>
         list_ex (\<lambda>f. ff_severity f = CRITICAL) flags \<or>
         sr_compositeScore r \<noteq> 0 \<and> sr_compositeScore r < 60 / 100)"
proof -
  note range = score_runtime.composite_range [OF assms]
  have m: "0 \<le> fm_similarity m" "fm_similarity m \<le> 1"
    using score_runtime.compareFaces_range [OF assms(1-4)] by auto
  have face: "70 / 100 \<le> computeFaceMatchScore R m \<longleftrightarrow> fm_isMatch m \<and> 70 / 100 \<le> fm_confidence m"
    using score_runtime.approval_needs_match [OF assms(1) m]
    by (cases "fm_isMatch m") (auto simp: kyc_defaults_def computeFaceMatchScore_def)
  note dec = computeScore_parts(2) [OF assms(8)]
  have thresholds: "kc_autoApprove kyc_defaults = 85 / 100" "kc_autoReject kyc_defaults = 60 / 100"
      "kc_minFaceMatch kyc_defaults = 70 / 100"
    by (simp_all add: kyc_defaults_def)
  have approved: "sr_decision r = AUTO_APPROVED \<longleftrightarrow>
      \<not> list_ex (\<lambda>f. ff_severity f = CRITICAL) flags \<and> \<not> list_ex (\<lambda>f. ff_severity f = HIGH) flags \<and>
      85 / 100 \<le> sr_compositeScore r \<and> fm_isMatch m \<and> 70 / 100 \<le> fm_confidence m"
    unfolding dec makeDecision_approved thresholds face by auto
  have "sr_decision r = AUTO_REJECTED \<longleftrightarrow>
      list_ex (\<lambda>f. ff_severity f = CRITICAL) flags \<or> sr_compositeScore r \<noteq> 0 \<and> sr_compositeScore r < 60 / 100"
    unfolding dec makeDecision_rejected thresholds ..
  with range approved show ?thesis by blast
qed

definition sample_face :: face_detection where
  "sample_face = \<lparr>fd_detected = True, fd_faceCount = 1, fd_embedding = Some [1, 0],
     fd_detectionConfidence = 9 / 10, fd_qualityScore = 9 / 10\<rparr>"

definition sample_quality :: image_quality where
  "sample_quality = \<lparr>iq_overallScore = 9 / 10, iq_sharpnessScore = 8 / 10, iq_brightnessScore = 8 / 10,
     iq_resolutionScore = 1, iq_width = 1600, iq_height = 1200, iq_passesMinimum = True\<rparr>"

definition sample_field :: "string \<Rightarrow> ocr_field" where
  "sample_field v = \<lparr>of_value = v, of_confidence = 9 / 10, of_rawValue = None\<rparr>"

definition sample_ocr :: ocr_result where
  "sample_ocr = \<lparr>oc_fullName = Some (sample_field ''Jane Banda''), oc_nationalIdNumber = Some (sample_field ''AB12CD34''),
     oc_dateOfBirth = Some (sample_field ''01/02/1990''), oc_gender = Some (sample_field ''F''), oc_address = None,
     oc_documentNumber = None, oc_expiryDate = Some (sample_field ''01/02/2030''), oc_nationality = None,
     oc_mrz = None, oc_overallConfidence = 9 / 10, oc_rawText = []\<rparr>"

definition sample_match :: face_match where
  "sample_match = \<lparr>fm_similarity = 1, fm_isMatch = True, fm_confidence = 98 / 100, fm_idFace = sample_face,
     fm_selfieFace = sample_face\<rparr>"

lemma sample_faces_match: "compareFaces (pg_runtime 0) (\<lambda>x. x) kyc_defaults sample_face sample_face = Inr sample_match"
  by (simp add: compareFaces_def sample_face_def sample_match_def cosineSimilarity_def pg_runtime_def kyc_defaults_def
      js_round4_def floor_eq_iff)

lemma sample_ranges:
  "0 \<le> fd_qualityScore sample_face" "ocr_in_range (Some sample_ocr)" "unit_score (iq_overallScore sample_quality)"
  by (simp_all add: sample_face_def ocr_in_range_def unit_score_def sample_ocr_def sample_quality_def)

theorem automatic_decision_sound_witness:
  "sr_decision (computeScore (pg_runtime 0) kyc_defaults (Some sample_ocr) sample_match sample_quality sample_quality []
      (computeRiskScore (pg_runtime 0) [])) = AUTO_APPROVED \<and>
   unit_score (sr_compositeScore (computeScore (pg_runtime 0) kyc_defaults (Some sample_ocr) sample_match sample_quality
      sample_quality [] (computeRiskScore (pg_runtime 0) [])))"
proof -
  note it = automatic_decision_sound [OF pgs.score_runtime_axioms sample_faces_match sample_ranges(1,1,2,3,3) refl refl,
      where flags = "[]"]
  have mean: "89 / 100 \<le> computeOcrScore (Some sample_ocr) * 30 / 100 +
      computeFaceMatchScore (pg_runtime 0) sample_match * 40 / 100 +
      computeImageQualityScore sample_quality sample_quality * 15 / 100 +
      computeDocumentQualityScore (pg_runtime 0) (Some sample_ocr) * 10 / 100 +
      max 0 (nsub (pg_runtime 0) 1 (computeRiskScore (pg_runtime 0) [])) * 5 / 100"
    by code_simp
  have "fm_isMatch sample_match" "70 / 100 \<le> fm_confidence sample_match" by (simp_all add: sample_match_def)
  with it mean show ?thesis by simp
qed

end
