(* ===== verification/Mrz.thy ===== *)
theory Mrz
  imports KycScore
begin

text \<open>
  The machine-readable zone of an identity card: \<^verbatim>\<open>ocr/mrz.parser.ts\<close> and \<^verbatim>\<open>ocr/ocr-merge.util.ts\<close>
  of \<^verbatim>\<open>src/modules/kyc\<close>.  Text is a list of eight-bit characters, of which the letters are the ASCII
  ones; \<open>CHR 0xAB\<close> is the left guillemet.  Each regular expression replacement of the parser is a recursive function over the
  characters, leftmost match first.  \<open>parse\<close> returns no value where the code returns its \<open>EMPTY\<close> result.
\<close>

section \<open>Check digits\<close>

definition mrz_value :: "char \<Rightarrow> nat" where
  "mrz_value c =
     (let k = of_char c
      in if 48 \<le> k \<and> k \<le> 57 then k - 48 else if 65 \<le> k \<and> k \<le> 90 then k - 55 else 0)"

definition mrz_weight :: "nat \<Rightarrow> nat" where
  "mrz_weight i = [7, 3, 1] ! (i mod 3)"

fun check_sum :: "nat \<Rightarrow> string \<Rightarrow> nat" where
  "check_sum i [] = 0"
| "check_sum i (c # cs) = mrz_value c * mrz_weight i + check_sum (Suc i) cs"

definition checkDigit :: "string \<Rightarrow> string" where
  "checkDigit field = decimal (check_sum 0 field mod 10)"

section \<open>Finding the lines\<close>

definition is_upper :: "char \<Rightarrow> bool" where
  "is_upper c \<longleftrightarrow> 65 \<le> (of_char c :: nat) \<and> (of_char c :: nat) \<le> 90"

definition kl :: "char \<Rightarrow> bool" where
  "kl c \<longleftrightarrow> c = CHR ''K'' \<or> c = CHR ''L''"

text \<open>\<open>s.replace(/<[KL](?=<|$)/g, '<<')\<close>\<close>

fun fill_pass1 :: "string \<Rightarrow> string" where
  "fill_pass1 (a # c # r) =
     (if a = CHR ''<'' \<and> kl c \<and> (r = [] \<or> hd r = CHR ''<'') then CHR ''<'' # CHR ''<'' # fill_pass1 r
      else a # fill_pass1 (c # r))"
| "fill_pass1 s = s"

text \<open>\<open>.replace(/(?:^|<)[KL]</g, (m) => m.replace(/[KL]/, '<'))\<close>\<close>

fun fill_pass2_mid :: "string \<Rightarrow> string" where
  "fill_pass2_mid (a # c # b # r) =
     (if a = CHR ''<'' \<and> kl c \<and> b = CHR ''<'' then ''<<<'' @ fill_pass2_mid r
      else a # fill_pass2_mid (c # b # r))"
| "fill_pass2_mid s = s"

definition fill_pass2 :: "string \<Rightarrow> string" where
  "fill_pass2 s =
     (case s of c # b # r \<Rightarrow> if kl c \<and> b = CHR ''<'' then ''<<'' @ fill_pass2_mid r else fill_pass2_mid s
      | _ \<Rightarrow> s)"

definition kl_count :: "string \<Rightarrow> nat" where
  "kl_count s = length (filter kl s)"

lemma kl_fill [simp]: "\<not> kl (CHR ''<'')"
  by (simp add: kl_def)

lemma kl_count_simps [simp]:
  "kl_count [] = 0" "kl_count (c # s) = (if kl c then Suc (kl_count s) else kl_count s)"
  by (simp_all add: kl_count_def)

lemma fill_pass1_count: "kl_count (fill_pass1 s) \<le> kl_count s \<and> (kl_count (fill_pass1 s) = kl_count s \<longrightarrow> fill_pass1 s = s)"
  by (induction s rule: fill_pass1.induct) auto

lemma fill_pass2_mid_count:
  "kl_count (fill_pass2_mid s) \<le> kl_count s \<and> (kl_count (fill_pass2_mid s) = kl_count s \<longrightarrow> fill_pass2_mid s = s)"
  by (induction s rule: fill_pass2_mid.induct) auto

lemma fill_pass2_count: "kl_count (fill_pass2 s) \<le> kl_count s \<and> (kl_count (fill_pass2 s) = kl_count s \<longrightarrow> fill_pass2 s = s)"
proof (cases "\<exists>c r. s = c # CHR ''<'' # r \<and> kl c")
  case True
  then obtain c r where "s = c # CHR ''<'' # r" "kl c" by blast
  then show ?thesis using fill_pass2_mid_count [of r] by (simp add: fill_pass2_def)
next
  case False
  then have "fill_pass2 s = fill_pass2_mid s" by (cases s rule: remdups_adj.cases) (auto simp: fill_pass2_def)
  then show ?thesis using fill_pass2_mid_count [of s] by simp
qed

lemma fill_passes_shrink:
  assumes "fill_pass2 (fill_pass1 s) \<noteq> s"
  shows "kl_count (fill_pass2 (fill_pass1 s)) < kl_count s"
proof -
  have "kl_count (fill_pass1 s) \<noteq> kl_count s \<or> kl_count (fill_pass2 (fill_pass1 s)) \<noteq> kl_count (fill_pass1 s)"
    using assms fill_pass1_count [of s] fill_pass2_count [of "fill_pass1 s"] by auto
  then show ?thesis using fill_pass1_count [of s] fill_pass2_count [of "fill_pass1 s"] by linarith
qed

text \<open>The loop \<open>while (prev !== s)\<close>: every round that changes the line turns a letter into a filler.\<close>

function fix_fillers :: "string \<Rightarrow> string" where
  "fix_fillers s = (let s' = fill_pass2 (fill_pass1 s) in if s' = s then s else fix_fillers s')"
  by auto
termination
  by (relation "measure kl_count") (auto simp: fill_passes_shrink)

declare fix_fillers.simps [simp del]

text \<open>\<open>s.replace(/[KL]{2,}[A-Z]?$/g, (m) => '<'.repeat(m.length))\<close>: the longest tail of that form.\<close>

definition noise_tail :: "string \<Rightarrow> bool" where
  "noise_tail s \<longleftrightarrow> 2 \<le> length s \<and> list_all kl s \<or> 3 \<le> length s \<and> list_all kl (butlast s) \<and> is_upper (last s)"

fun blank_tail :: "string \<Rightarrow> string" where
  "blank_tail [] = []"
| "blank_tail (c # s) = (if noise_tail (c # s) then replicate (length (c # s)) (CHR ''<'') else c # blank_tail s)"

fun index_of :: "string \<Rightarrow> string \<Rightarrow> nat option" where
  "index_of pat [] = (if pat = [] then Some 0 else None)"
| "index_of pat (c # s) = (if startsWith (c # s) pat then Some 0 else map_option Suc (index_of pat s))"

definition reanchor :: "string \<Rightarrow> string" where
  "reanchor s =
     (case index_of ''MWI'' s of
        Some i \<Rightarrow> if startsWith s ''I<'' \<and> 2 < i \<and> i \<le> 4 then ''I<'' @ drop i s else s
      | None \<Rightarrow> s)"

definition clean_line :: "string \<Rightarrow> string" where
  "clean_line l =
     reanchor (blank_tail (fix_fillers
       (filter (\<lambda>c. is_upper c \<or> decimal_digit c \<or> c = CHR ''<'')
          (filter (\<lambda>c. \<not> is_space c)
             (concat (map (\<lambda>c. if c = CHR 0xAB then ''<<'' else [c]) (toUpperCase l)))))))"

definition padTo30 :: "string \<Rightarrow> string" where
  "padTo30 line = (if 30 \<le> length line then take 30 line else line @ replicate (30 - length line) (CHR ''<''))"

definition document_line :: "string \<Rightarrow> bool" where
  "document_line l \<longleftrightarrow> (case l of a # b # _ \<Rightarrow> a = CHR ''I'' \<and> (b = CHR ''<'' \<or> is_upper b) | _ \<Rightarrow> False)"

definition mrzLike :: "string \<Rightarrow> bool" where
  "mrzLike l \<longleftrightarrow> CHR ''<'' \<in> set l \<and> 22 \<le> length l \<and> length l \<le> 34 \<or> document_line l"

fun mrz_window :: "string list \<Rightarrow> (string \<times> string \<times> string) option" where
  "mrz_window (a # b # c # rest) =
     (if mrzLike a \<and> mrzLike b \<and> mrzLike c then Some (padTo30 a, padTo30 b, padTo30 c)
      else mrz_window (b # c # rest))"
| "mrz_window _ = None"

definition mrz_fallback :: "string list \<Rightarrow> (string \<times> string \<times> string) option" where
  "mrz_fallback candidates =
     (case dropWhile (\<lambda>l. \<not> (document_line l \<and> CHR ''<'' \<in> set l)) candidates of
        a # b # c # _ \<Rightarrow> Some (padTo30 a, padTo30 b, padTo30 c) | _ \<Rightarrow> None)"

definition findMrzLines :: "string \<Rightarrow> (string \<times> string \<times> string) option" where
  "findMrzLines rawText =
     (let candidates = filter (\<lambda>l. 22 \<le> length l) (map clean_line (split_at_char (CHR 10) rawText))
      in case mrz_window candidates of Some w \<Rightarrow> Some w | None \<Rightarrow> mrz_fallback candidates)"

section \<open>Reading the fields\<close>

definition fixNumeric :: "string \<Rightarrow> string" where
  "fixNumeric = map (\<lambda>c. if c \<in> set ''OQD<'' then CHR ''0'' else if c \<in> set ''IL'' then CHR ''1''
     else if c = CHR ''Z'' then CHR ''2'' else if c = CHR ''S'' then CHR ''5'' else if c = CHR ''B'' then CHR ''8''
     else if c = CHR ''G'' then CHR ''6'' else c)"

definition fixAlpha :: "string \<Rightarrow> string" where
  "fixAlpha s = filter (\<lambda>c. c \<noteq> CHR ''<'')
     (map (\<lambda>c. if c = CHR ''0'' then CHR ''O'' else if c = CHR ''1'' then CHR ''I'' else if c = CHR ''5'' then CHR ''S''
        else if c = CHR ''8'' then CHR ''B'' else if c = CHR ''2'' then CHR ''Z'' else if c = CHR ''6'' then CHR ''G'' else c) s)"

datatype date_kind = BirthDate | ExpiryDate

definition mrzDateToDisplay :: "int \<Rightarrow> string \<Rightarrow> date_kind \<Rightarrow> string" where
  "mrzDateToDisplay nowYear yymmdd kind =
     take 2 (drop 4 yymmdd) @ ''/'' @ take 2 (drop 2 yymmdd) @ ''/'' @
     (case parse_int (take 2 yymmdd) of
        None \<Rightarrow> ''NaN''
      | Some yy \<Rightarrow> show_int ((if kind = BirthDate \<and> nowYear mod 100 < yy then 1900 else 2000) + yy))"

fun split_words :: "string \<Rightarrow> string list" where
  "split_words [] = [[]]"
| "split_words (c # cs) =
     (if is_space c then [] # split_words cs
      else case split_words cs of p # ps \<Rightarrow> (c # p) # ps | [] \<Rightarrow> [[c]])"

definition join :: "string \<Rightarrow> string list \<Rightarrow> string" where
  "join sep ws = (case ws of [] \<Rightarrow> [] | w # r \<Rightarrow> w @ concat (map (\<lambda>x. sep @ x) r))"

definition titleCase :: "string \<Rightarrow> string" where
  "titleCase s = join '' '' (map (\<lambda>w. take 1 w @ toLowerCase (drop 1 w)) (filter (\<lambda>w. w \<noteq> []) (split_words s)))"

text \<open>\<open>split('<<')\<close>\<close>

fun split_fill :: "string \<Rightarrow> string list" where
  "split_fill (a # b # cs) =
     (if a = CHR ''<'' \<and> b = CHR ''<'' then [] # split_fill cs
      else case split_fill (b # cs) of p # ps \<Rightarrow> (a # p) # ps | [] \<Rightarrow> [[a]])"
| "split_fill s = [s]"

definition or_null :: "string \<Rightarrow> string option" where
  "or_null s = (if s = [] then None else Some s)"

definition strip_fill :: "string \<Rightarrow> string" where
  "strip_fill = filter (\<lambda>c. c \<noteq> CHR ''<'')"

definition name_part :: "string \<Rightarrow> string" where
  "name_part s = titleCase (trimText (map (\<lambda>c. if c = CHR ''<'' then CHR '' '' else c) s))"

record mrz_result =
  mr_documentCode :: "string option"
  mr_issuingCountry :: "string option"
  mr_documentNumber :: "(string \<times> bool) option"
  mr_optionalData1 :: "string option"
  mr_birthDate :: "(string \<times> bool) option"
  mr_sex :: "string option"
  mr_expiryDate :: "(string \<times> bool) option"
  mr_nationality :: "string option"
  mr_surname :: "string option"
  mr_givenNames :: "string option"
  mr_checkDigitScore :: rat
  mr_rawLines :: "string list"

definition mrz_fields :: "runtime \<Rightarrow> int \<Rightarrow> string \<Rightarrow> string \<Rightarrow> string \<Rightarrow> mrz_result" where
  "mrz_fields R nowYear l1 l2 l3 =
     (let docNumRaw = take 9 (drop 5 l1);
          docNumValid = (checkDigit docNumRaw = [l1 ! 14]);
          birthRaw = fixNumeric (take 6 l2);
          birthValid = (checkDigit birthRaw = [l2 ! 6]);
          expiryRaw = fixNumeric (take 6 (drop 8 l2));
          expiryValid = (checkDigit expiryRaw = [l2 ! 14]);
          parts = split_fill (filter (\<lambda>c. is_upper c \<or> c = CHR ''<'') l3);
          surname = name_part (hd parts);
          givenNames = (case tl parts of [] \<Rightarrow> [] | g # _ \<Rightarrow> name_part g);
          checks = [docNumValid, birthValid, expiryValid]
      in \<lparr>mr_documentCode = or_null (strip_fill (take 2 l1)),
          mr_issuingCountry = or_null (fixAlpha (take 3 (drop 2 l1))),
          mr_documentNumber = (if strip_fill docNumRaw = [] then None else Some (strip_fill docNumRaw, docNumValid)),
          mr_optionalData1 = or_null (strip_fill (take 15 (drop 15 l1))),
          mr_birthDate = (if length birthRaw = 6
                          then Some (mrzDateToDisplay nowYear birthRaw BirthDate, birthValid) else None),
          mr_sex = (if l2 ! 7 = CHR ''M'' \<or> l2 ! 7 = CHR ''F'' then Some [l2 ! 7] else None),
          mr_expiryDate = (if length expiryRaw = 6
                           then Some (mrzDateToDisplay nowYear expiryRaw ExpiryDate, expiryValid) else None),
          mr_nationality = or_null (fixAlpha (take 3 (drop 15 l2))),
          mr_surname = or_null surname, mr_givenNames = or_null givenNames,
          mr_checkDigitScore = ndiv R (of_nat (length (filter id checks))) 3, mr_rawLines = [l1, l2, l3]\<rparr>)"

text \<open>Lines whose check digits all fail and that name nobody are taken for something else.\<close>

definition parse_lines :: "runtime \<Rightarrow> int \<Rightarrow> string \<times> string \<times> string \<Rightarrow> mrz_result option" where
  "parse_lines R nowYear lines =
     (let (l1, l2, l3) = lines; m = mrz_fields R nowYear l1 l2 l3
      in if mr_checkDigitScore m = 0 \<and> mr_surname m = None then None else Some m)"

definition mrz_parse :: "runtime \<Rightarrow> int \<Rightarrow> string \<Rightarrow> mrz_result option" where
  "mrz_parse R nowYear rawText = Option.bind (findMrzLines rawText) (parse_lines R nowYear)"

section \<open>Merging with the front of the card\<close>

definition mrzField :: "(string \<times> bool) option \<Rightarrow> ocr_field option" where
  "mrzField f =
     map_option (\<lambda>(v, valid). \<lparr>of_value = v, of_confidence = (if valid then 99 / 100 else 4 / 10), of_rawValue = Some v\<rparr>) f"

definition pick :: "ocr_field option \<Rightarrow> ocr_field option \<Rightarrow> ocr_field option" where
  "pick a b =
     (case (a, b) of (None, _) \<Rightarrow> b | (_, None) \<Rightarrow> a
      | (Some x, Some y) \<Rightarrow> if of_confidence x \<le> of_confidence y then b else a)"

definition plain_field :: "string option \<Rightarrow> rat \<Rightarrow> ocr_field option" where
  "plain_field v conf = map_option (\<lambda>x. \<lparr>of_value = x, of_confidence = conf, of_rawValue = Some x\<rparr>) v"

definition text_of :: "string option \<Rightarrow> string" where
  "text_of v = (case v of None \<Rightarrow> [] | Some x \<Rightarrow> x)"

definition mrz_name :: "mrz_result \<Rightarrow> ocr_field option" where
  "mrz_name m =
     (if mr_surname m = None \<and> mr_givenNames m = None then None
      else Some \<lparr>of_value = join '' '' (filter (\<lambda>x. x \<noteq> []) [text_of (mr_givenNames m), text_of (mr_surname m)]),
                 of_confidence = 9 / 10, of_rawValue = Some (text_of (mr_surname m) @ ''<<'' @ text_of (mr_givenNames m))\<rparr>)"

definition field_confidences :: "ocr_field option list \<Rightarrow> rat list" where
  "field_confidences fs = filter (\<lambda>c. 0 < c) (map of_confidence (List.map_filter id fs))"

definition average :: "runtime \<Rightarrow> rat list \<Rightarrow> rat" where
  "average R cs = (if cs = [] then 0 else ndiv R (foldl (nadd R) 0 cs) (of_nat (length cs)))"

definition mergeOcrWithMrz :: "runtime \<Rightarrow> ocr_result \<Rightarrow> mrz_result \<Rightarrow> ocr_result" where
  "mergeOcrWithMrz R front mrz =
     (let fullName = pick (oc_fullName front) (mrz_name mrz);
          nationalIdNumber = pick (oc_nationalIdNumber front) (plain_field (mr_optionalData1 mrz) (85 / 100));
          dateOfBirth = pick (oc_dateOfBirth front) (mrzField (mr_birthDate mrz));
          gender = pick (oc_gender front) (plain_field (mr_sex mrz) (95 / 100));
          documentNumber = pick (oc_documentNumber front) (mrzField (mr_documentNumber mrz));
          expiryDate = pick (oc_expiryDate front) (mrzField (mr_expiryDate mrz));
          frontNationality = (case oc_nationality front of None \<Rightarrow> None | Some n \<Rightarrow> n);
          avg = average R (field_confidences [fullName, nationalIdNumber, dateOfBirth, gender, documentNumber, expiryDate]);
          mrzFloor = nmul R (mr_checkDigitScore mrz) (92 / 100)
      in \<lparr>oc_fullName = fullName, oc_nationalIdNumber = nationalIdNumber, oc_dateOfBirth = dateOfBirth,
          oc_gender = gender, oc_address = oc_address front, oc_documentNumber = documentNumber,
          oc_expiryDate = expiryDate,
          oc_nationality = Some (pick frontNationality (plain_field (mr_nationality mrz) (95 / 100))),
          oc_mrz = Some \<lparr>ms_checkDigitScore = mr_checkDigitScore mrz, ms_rawLines = mr_rawLines mrz\<rparr>,
          oc_overallConfidence = js_round2 R (max avg mrzFloor), oc_rawText = oc_rawText front\<rparr>)"

section \<open>Errors a check digit finds\<close>

lemma mrz_weight_cases: "mrz_weight i = 7 \<and> i mod 3 = 0 \<or> mrz_weight i = 3 \<and> i mod 3 = 1 \<or> mrz_weight i = 1 \<and> i mod 3 = 2"
proof -
  have "i mod 3 = 0 \<or> i mod 3 = 1 \<or> i mod 3 = 2" by linarith
  then show ?thesis by (auto simp: mrz_weight_def)
qed

lemma check_sum_split: "check_sum i (xs @ ys) = check_sum i xs + check_sum (i + length xs) ys"
  by (induction xs arbitrary: i) auto

lemma checkDigit_eq: "checkDigit x = checkDigit y \<longleftrightarrow> check_sum 0 x mod 10 = check_sum 0 y mod 10"
proof -
  have "a = b" if "decimal a = decimal b" for a b
    using that by (metis number_of_decimal of_nat_eq_iff)
  then show ?thesis by (auto simp: checkDigit_def)
qed

lemma digit_value:
  assumes "decimal_digit c"
  shows "mrz_value c < 10" and "char_of (48 + mrz_value c) = c"
  using assms by (auto simp: mrz_value_def decimal_digit_def Let_def)

lemma digit_value_inj: "decimal_digit c \<Longrightarrow> decimal_digit d \<Longrightarrow> mrz_value c = mrz_value d \<Longrightarrow> c = d"
  by (metis digit_value(2))

lemma mod10_dvd: "a mod 10 = b mod 10 \<longleftrightarrow> 10 dvd int a - int b" for a b :: nat
proof -
  have "a mod 10 = b mod 10 \<longleftrightarrow> int (a mod 10) = int (b mod 10)" by (simp only: of_nat_eq_iff)
  also have "\<dots> \<longleftrightarrow> int a mod 10 = int b mod 10" by (simp only: zmod_int of_nat_numeral)
  also have "\<dots> \<longleftrightarrow> 10 dvd int a - int b" by (rule mod_eq_dvd_iff)
  finally show ?thesis .
qed

lemma weighted_digit_inj:
  assumes "w = 7 \<or> w = 3 \<or> w = (1::nat)" and "a < 10" and "b < 10" and "(k + a * w) mod 10 = (k + b * w) mod 10"
  shows "a = b"
proof -
  have "10 dvd int (k + a * w) - int (k + b * w)" using assms(4) by (simp only: mod10_dvd)
  then have "10 dvd (int a - int b) * int w" by (simp add: left_diff_distrib)
  then have "10 dvd int a - int b" using assms(1) by (elim disjE; simp; presburger)
  then show ?thesis using assms(2,3) by presburger
qed

lemma checkDigit_substitution:
  assumes "i < length field" and "decimal_digit (field ! i)" and "decimal_digit d"
  shows "checkDigit (field[i := d]) = checkDigit field \<longleftrightarrow> d = field ! i"
proof -
  let ?k = "check_sum 0 (take i field) + check_sum (Suc i) (drop (Suc i) field)"
  have f: "field = take i field @ field ! i # drop (Suc i) field" using assms(1) by (rule id_take_nth_drop)
  have sum: "check_sum 0 (take i field @ c # drop (Suc i) field) = ?k + mrz_value c * mrz_weight i" for c
    using assms(1) by (simp add: check_sum_split)
  have "check_sum 0 field = ?k + mrz_value (field ! i) * mrz_weight i" using sum [of "field ! i"] f by simp
  moreover have "check_sum 0 (field[i := d]) = ?k + mrz_value d * mrz_weight i"
    using sum [of d] assms(1) by (simp add: upd_conv_take_nth_drop)
  moreover have "mrz_weight i = 7 \<or> mrz_weight i = 3 \<or> mrz_weight i = 1" using mrz_weight_cases by blast
  ultimately show ?thesis
    using weighted_digit_inj [of "mrz_weight i" "mrz_value d" "mrz_value (field ! i)" ?k] digit_value(1) assms(2,3)
      digit_value_inj by (auto simp: checkDigit_eq)
qed

lemma multiple_of_ten:
  "10 dvd x * (3 - 7) \<longleftrightarrow> 5 dvd x" "10 dvd x * (1 - 3) \<longleftrightarrow> 5 dvd x" "10 dvd x * (7 - 1) \<longleftrightarrow> 5 dvd x" for x :: int
  by presburger+

lemma weight_steps:
  "u = 7 \<and> w = 3 \<or> u = 3 \<and> w = 1 \<or> u = 1 \<and> w = (7::nat) \<Longrightarrow> 10 dvd x * (int w - int u) \<longleftrightarrow> 5 dvd x"
  using multiple_of_ten [of x] by (elim disjE conjE) simp_all

lemma checkDigit_transposition:
  assumes "decimal_digit a" and "decimal_digit b"
  shows "checkDigit (xs @ b # a # ys) = checkDigit (xs @ a # b # ys) \<longleftrightarrow> 5 dvd int (mrz_value a) - int (mrz_value b)"
proof -
  let ?n = "length xs" and ?va = "mrz_value a" and ?vb = "mrz_value b"
  let ?k = "check_sum 0 xs + check_sum (Suc (Suc ?n)) ys"
  let ?u = "mrz_weight ?n" and ?w = "mrz_weight (Suc ?n)"
  have "(Suc ?n) mod 3 = (if ?n mod 3 = 2 then 0 else Suc (?n mod 3))" by (simp add: mod_Suc)
  then have w: "?u = 7 \<and> ?w = 3 \<or> ?u = 3 \<and> ?w = 1 \<or> ?u = 1 \<and> ?w = 7"
    using mrz_weight_cases [of ?n] mrz_weight_cases [of "Suc ?n"] by auto
  have "checkDigit (xs @ b # a # ys) = checkDigit (xs @ a # b # ys) \<longleftrightarrow>
      (?k + ?vb * ?u + ?va * ?w) mod 10 = (?k + ?va * ?u + ?vb * ?w) mod 10"
    by (simp add: checkDigit_eq check_sum_split add_ac)
  also have "\<dots> \<longleftrightarrow> 10 dvd int (?k + ?vb * ?u + ?va * ?w) - int (?k + ?va * ?u + ?vb * ?w)"
    by (rule mod10_dvd)
  also have "\<dots> \<longleftrightarrow> 10 dvd (int ?va - int ?vb) * (int ?w - int ?u)"
    by (simp add: algebra_simps)
  also have "\<dots> \<longleftrightarrow> 5 dvd int ?va - int ?vb"
    using weight_steps [OF w] .
  finally show ?thesis .
qed

lemma not_digits:
  "\<not> decimal_digit (CHR ''O'')" "\<not> decimal_digit (CHR ''Q'')" "\<not> decimal_digit (CHR ''D'')" "\<not> decimal_digit (CHR ''<'')"
  "\<not> decimal_digit (CHR ''I'')" "\<not> decimal_digit (CHR ''L'')" "\<not> decimal_digit (CHR ''Z'')" "\<not> decimal_digit (CHR ''S'')"
  "\<not> decimal_digit (CHR ''B'')" "\<not> decimal_digit (CHR ''G'')"
  by (simp_all add: decimal_digit_def)

lemma fixNumeric_digit: "decimal_digit d \<Longrightarrow> fixNumeric [d] = [d]"
proof -
  assume d: "decimal_digit d"
  have "d \<noteq> c" if "\<not> decimal_digit c" for c using d that by blast
  note this [OF not_digits(1)] this [OF not_digits(2)] this [OF not_digits(3)] this [OF not_digits(4)] this [OF not_digits(5)]
    this [OF not_digits(6)] this [OF not_digits(7)] this [OF not_digits(8)] this [OF not_digits(9)] this [OF not_digits(10)]
  then show ?thesis by (simp add: fixNumeric_def)
qed

lemma fixNumeric_update:
  "decimal_digit d \<Longrightarrow> fixNumeric (xs[i := d]) = (fixNumeric xs)[i := d]"
  using fixNumeric_digit [of d] by (auto simp: fixNumeric_def map_update)

lemma fixNumeric_nth: "i < length xs \<Longrightarrow> decimal_digit (xs ! i) \<Longrightarrow> fixNumeric xs ! i = xs ! i"
  using fixNumeric_digit [of "xs ! i"] by (auto simp: fixNumeric_def)

lemma parse_lines_checked:
  assumes "parse_lines R y (l1, l2, l3) = Some m" and "length l1 = 30" and "length l2 = 30"
  shows "map_option snd (mr_birthDate m) = Some (checkDigit (fixNumeric (take 6 l2)) = [l2 ! 6])"
    and "map_option snd (mr_expiryDate m) = Some (checkDigit (fixNumeric (take 6 (drop 8 l2))) = [l2 ! 14])"
    and "mr_documentNumber m \<noteq> None \<Longrightarrow>
      map_option snd (mr_documentNumber m) = Some (checkDigit (take 9 (drop 5 l1)) = [l1 ! 14])"
proof -
  have m: "m = mrz_fields R y l1 l2 l3" using assms(1) by (simp add: parse_lines_def Let_def split: if_split_asm)
  have "length (fixNumeric (take 6 l2)) = 6" "length (fixNumeric (take 6 (drop 8 l2))) = 6"
    using assms(3) by (simp_all add: fixNumeric_def)
  then show "map_option snd (mr_birthDate m) = Some (checkDigit (fixNumeric (take 6 l2)) = [l2 ! 6])"
    and "map_option snd (mr_expiryDate m) = Some (checkDigit (fixNumeric (take 6 (drop 8 l2))) = [l2 ! 14])"
    by (simp_all add: m mrz_fields_def Let_def)
  show "mr_documentNumber m \<noteq> None \<Longrightarrow>
      map_option snd (mr_documentNumber m) = Some (checkDigit (take 9 (drop 5 l1)) = [l1 ! 14])"
    unfolding m mrz_fields_def Let_def mrz_result.select_convs by (simp split: if_split_asm)
qed

lemma wrong_digit_fails:
  assumes "checkDigit x = [c]" and "i < length x" and "decimal_digit (x ! i)" and "decimal_digit d" and "d \<noteq> x ! i"
  shows "checkDigit (x[i := d]) \<noteq> [c]"
  using checkDigit_substitution [OF assms(2-4)] assms(1,5) by simp

lemma numeric_field_update:
  assumes "k + n \<le> length l" and "k \<le> i" and "i < k + n" and "decimal_digit (l ! i)" and "decimal_digit d"
  shows "fixNumeric (take n (drop k (l[i := d]))) = (fixNumeric (take n (drop k l)))[i - k := d]"
    and "i - k < length (fixNumeric (take n (drop k l)))"
    and "fixNumeric (take n (drop k l)) ! (i - k) = l ! i"
proof -
  show "fixNumeric (take n (drop k (l[i := d]))) = (fixNumeric (take n (drop k l)))[i - k := d]"
    using assms by (simp add: drop_update_swap take_update_swap fixNumeric_update)
  show "i - k < length (fixNumeric (take n (drop k l)))" using assms by (simp add: fixNumeric_def)
  show "fixNumeric (take n (drop k l)) ! (i - k) = l ! i"
    using assms fixNumeric_nth [of "i - k" "take n (drop k l)"] by simp
qed

text \<open>A misread digit in one of the three checked fields of the machine-readable zone is always noticed:
  from lines whose field passes its check digit, replacing any one digit of the document number, the date of
  birth or the expiry date by another digit gives lines whose field is reported as failing its check.
  Exchanging two neighbouring digits is noticed too, unless they differ by exactly five.\<close>

lemma mrz_misread_digit_noticed:
  assumes lines: "length l1 = 30" "length l2 = 30" "decimal_digit d"
    and m: "parse_lines R y (l1, l2, l3) = Some m"
    and passed: "mr_documentNumber m = Some (v1, True)" "mr_birthDate m = Some (v2, True)" "mr_expiryDate m = Some (v3, True)"
  shows "(5 \<le> i \<and> i < 14 \<and> decimal_digit (l1 ! i) \<and> d \<noteq> l1 ! i \<and> parse_lines R y (l1[i := d], l2, l3) = Some m1 \<and>
          mr_documentNumber m1 \<noteq> None \<longrightarrow> map_option snd (mr_documentNumber m1) = Some False) \<and>
      (j < 6 \<and> decimal_digit (l2 ! j) \<and> d \<noteq> l2 ! j \<and> parse_lines R y (l1, l2[j := d], l3) = Some m2 \<longrightarrow>
          map_option snd (mr_birthDate m2) = Some False) \<and>
      (8 \<le> k \<and> k < 14 \<and> decimal_digit (l2 ! k) \<and> d \<noteq> l2 ! k \<and> parse_lines R y (l1, l2[k := d], l3) = Some m3 \<longrightarrow>
          map_option snd (mr_expiryDate m3) = Some False) \<and>
      (decimal_digit a \<and> decimal_digit b \<longrightarrow>
          (checkDigit (xs @ b # a # ys) = checkDigit (xs @ a # b # ys) \<longleftrightarrow> 5 dvd int (mrz_value a) - int (mrz_value b)))"
proof (intro conjI impI; (elim conjE)?)
  have doc: "checkDigit (take 9 (drop 5 l1)) = [l1 ! 14]"
    using parse_lines_checked(3) [OF m lines(1,2)] passed(1) by simp
  show "map_option snd (mr_documentNumber m1) = Some False"
    if i: "5 \<le> i" "i < 14" "decimal_digit (l1 ! i)" "d \<noteq> l1 ! i"
      and p: "parse_lines R y (l1[i := d], l2, l3) = Some m1" "mr_documentNumber m1 \<noteq> None"
  proof -
    have "take 9 (drop 5 (l1[i := d])) = (take 9 (drop 5 l1))[i - 5 := d]"
      using i by (simp add: drop_update_swap take_update_swap)
    moreover have "checkDigit ((take 9 (drop 5 l1))[i - 5 := d]) \<noteq> [l1 ! 14]"
      using i lines by (intro wrong_digit_fails [OF doc]) auto
    ultimately show ?thesis using parse_lines_checked(3) [OF p(1)] p(2) lines i by simp
  qed
  show "map_option snd (mr_birthDate m2) = Some False"
    if j: "j < 6" "decimal_digit (l2 ! j)" "d \<noteq> l2 ! j" and p: "parse_lines R y (l1, l2[j := d], l3) = Some m2"
  proof -
    have ok: "checkDigit (fixNumeric (take 6 (drop 0 l2))) = [l2 ! 6]"
      using parse_lines_checked(1) [OF m lines(1,2)] passed(2) by simp
    note u = numeric_field_update [of 0 6 l2 j d] 
    have "checkDigit (fixNumeric (take 6 (drop 0 (l2[j := d])))) \<noteq> [l2 ! 6]"
      using u j lines wrong_digit_fails [OF ok, of j d] by simp
    then show ?thesis using parse_lines_checked(1) [OF p] lines j by simp
  qed
  show "map_option snd (mr_expiryDate m3) = Some False"
    if k: "8 \<le> k" "k < 14" "decimal_digit (l2 ! k)" "d \<noteq> l2 ! k" and p: "parse_lines R y (l1, l2[k := d], l3) = Some m3"
  proof -
    have ok: "checkDigit (fixNumeric (take 6 (drop 8 l2))) = [l2 ! 14]"
      using parse_lines_checked(2) [OF m lines(1,2)] passed(3) by simp
    note u = numeric_field_update [of 8 6 l2 k d] 
    have "checkDigit (fixNumeric (take 6 (drop 8 (l2[k := d])))) \<noteq> [l2 ! 14]"
      using u k lines wrong_digit_fails [OF ok, of "k - 8" d] by simp
    then show ?thesis using parse_lines_checked(2) [OF p] lines k by simp
  qed
  show "checkDigit (xs @ b # a # ys) = checkDigit (xs @ a # b # ys) \<longleftrightarrow> 5 dvd int (mrz_value a) - int (mrz_value b)"
    if "decimal_digit a" "decimal_digit b"
    using that by (rule checkDigit_transposition)
qed

abbreviation sample_l1 :: string where "sample_l1 \<equiv> ''I<MWID231458907<<<<<<<<<<<<<<<''"
abbreviation sample_l2 :: string where "sample_l2 \<equiv> ''7408122F1204159MWI<<<<<<<<<<<6''"
abbreviation sample_l3 :: string where "sample_l3 \<equiv> ''BANDA<<JANE<MARIA<<<<<<<<<<<<<''"

lemma sample_mrz_parsed:
  "parse_lines (pg_runtime 0) 2026 (l1, l2, sample_l3) = Some (mrz_fields (pg_runtime 0) 2026 l1 l2 sample_l3)"
proof -
  have "name_part (hd (split_fill (filter (\<lambda>c. is_upper c \<or> c = CHR ''<'') sample_l3))) \<noteq> []" by code_simp
  then have "mr_surname (mrz_fields (pg_runtime 0) 2026 l1 l2 sample_l3) \<noteq> None"
    unfolding mrz_fields_def Let_def mrz_result.select_convs by (simp only: or_null_def if_False option.distinct not_False_eq_True)
  then show ?thesis unfolding parse_lines_def Let_def prod.case by (simp only: if_False simp_thms)
qed

lemma sample_mrz_passes:
  "mr_documentNumber (mrz_fields (pg_runtime 0) 2026 sample_l1 l2 sample_l3) = Some (''D23145890'', True)"
  "mr_birthDate (mrz_fields (pg_runtime 0) 2026 l1 sample_l2 sample_l3) =
     Some (mrzDateToDisplay 2026 (fixNumeric (take 6 sample_l2)) BirthDate, True)"
  "mr_expiryDate (mrz_fields (pg_runtime 0) 2026 l1 sample_l2 sample_l3) =
     Some (mrzDateToDisplay 2026 (fixNumeric (take 6 (drop 8 sample_l2))) ExpiryDate, True)"
proof -
  have "strip_fill (take 9 (drop 5 sample_l1)) = ''D23145890''" "checkDigit (take 9 (drop 5 sample_l1)) = [sample_l1 ! 14]"
    by code_simp+
  then show "mr_documentNumber (mrz_fields (pg_runtime 0) 2026 sample_l1 l2 sample_l3) = Some (''D23145890'', True)"
    unfolding mrz_fields_def Let_def mrz_result.select_convs by (simp only: list.distinct if_False refl)
  have "length (fixNumeric (take 6 sample_l2)) = 6" "checkDigit (fixNumeric (take 6 sample_l2)) = [sample_l2 ! 6]"
    "length (fixNumeric (take 6 (drop 8 sample_l2))) = 6" "checkDigit (fixNumeric (take 6 (drop 8 sample_l2))) = [sample_l2 ! 14]"
    by code_simp+
  then show "mr_birthDate (mrz_fields (pg_runtime 0) 2026 l1 sample_l2 sample_l3) =
      Some (mrzDateToDisplay 2026 (fixNumeric (take 6 sample_l2)) BirthDate, True)"
    "mr_expiryDate (mrz_fields (pg_runtime 0) 2026 l1 sample_l2 sample_l3) =
     Some (mrzDateToDisplay 2026 (fixNumeric (take 6 (drop 8 sample_l2))) ExpiryDate, True)"
    unfolding mrz_fields_def Let_def mrz_result.select_convs by (simp_all only: if_True refl)
qed

section \<open>The merged extraction\<close>

text \<open>A field that passed its check digit replaces the front's reading up to confidence 0.99.\<close>

lemma merge_prefers_checked:
  assumes "mr_birthDate mrz = Some (v, True)"
    and "case oc_dateOfBirth front of None \<Rightarrow> True | Some f \<Rightarrow> of_confidence f \<le> 99 / 100"
  shows "map_option of_value (oc_dateOfBirth (mergeOcrWithMrz R front mrz)) = Some v"
  using assms by (cases "oc_dateOfBirth front") (simp_all add: mergeOcrWithMrz_def Let_def mrzField_def pick_def)

text \<open>A one-letter given name \<open>K\<close> between fillers is taken for noise and lost.\<close>

lemma initial_lost: "fix_fillers ''BANDA<<K<MARIA'' = ''BANDA<<<<MARIA''"
proof -
  have "fill_pass2 (fill_pass1 ''BANDA<<K<MARIA'') = ''BANDA<<<<MARIA''"
    "fill_pass2 (fill_pass1 ''BANDA<<<<MARIA'') = ''BANDA<<<<MARIA''" by code_simp+
  then show ?thesis by (simp add: fix_fillers.simps [of "''BANDA<<K<MARIA''"] fix_fillers.simps [of "''BANDA<<<<MARIA''"])
qed

text \<open>The loop ends in a line that neither replacement changes.\<close>

lemma fix_fillers_stable: "fill_pass2 (fill_pass1 (fix_fillers s)) = fix_fillers s"
proof (induction s rule: fix_fillers.induct)
  case (1 s)
  show ?case
  proof (cases "fill_pass2 (fill_pass1 s) = s")
    case True
    then show ?thesis by (simp add: fix_fillers.simps [of s])
  next
    case False
    then have "fix_fillers s = fix_fillers (fill_pass2 (fill_pass1 s))" by (simp add: fix_fillers.simps [of s])
    with 1 [OF refl False] show ?thesis by simp
  qed
qed

definition field_in_range :: "ocr_field option \<Rightarrow> bool" where
  "field_in_range f \<longleftrightarrow> (case f of None \<Rightarrow> True | Some x \<Rightarrow> unit_score (of_confidence x))"

definition fields_in_range :: "ocr_result \<Rightarrow> bool" where
  "fields_in_range r \<longleftrightarrow> list_all field_in_range
     [oc_fullName r, oc_nationalIdNumber r, oc_dateOfBirth r, oc_gender r, oc_documentNumber r, oc_expiryDate r]"

lemma field_ranges:
  "field_in_range a \<Longrightarrow> field_in_range b \<Longrightarrow> field_in_range (pick a b)"
  "field_in_range (mrzField d)" "0 \<le> c \<Longrightarrow> c \<le> 1 \<Longrightarrow> field_in_range (plain_field v c)" "field_in_range (mrz_name m)"
  by (auto simp: field_in_range_def pick_def mrzField_def plain_field_def mrz_name_def unit_score_def split: option.splits)

lemma field_confidences_range:
  "list_all field_in_range fs \<Longrightarrow> list_all unit_score (field_confidences fs)" "length (field_confidences fs) \<le> length fs"
proof -
  show "list_all field_in_range fs \<Longrightarrow> list_all unit_score (field_confidences fs)"
    by (induction fs) (auto simp: field_confidences_def field_in_range_def map_filter_def split: option.splits)
  have "length (List.map_filter id fs) \<le> length fs" by (simp add: map_filter_def)
  then show "length (field_confidences fs) \<le> length fs"
    using length_filter_le [of "\<lambda>c. 0 < c" "map of_confidence (List.map_filter id fs)"]
    unfolding field_confidences_def length_map by (rule le_trans [rotated])
qed

context score_runtime
begin

lemma sum_of_units:
  assumes "list_all unit_score cs" and "0 \<le> x" and "x + 2 * of_nat (length cs) \<le> 900"
  shows "0 \<le> foldl (nadd R) x cs \<and> foldl (nadd R) x cs \<le> x + of_nat (length cs) * (1 + 1 / 1000000000)"
  using assms
proof (induction cs arbitrary: x)
  case (Cons c cs)
  have c: "0 \<le> c" "c \<le> 1" using Cons.prems(1) by (auto simp: unit_score_def)
  let ?y = "nadd R x c"
  have y: "0 \<le> ?y" "?y \<le> x + c + 1 / 1000000000" using sum_near [of x c] c Cons.prems(2,3) by auto
  then have "?y + 2 * of_nat (length cs) \<le> 900" using Cons.prems(3) c by simp
  with Cons.IH [of ?y] Cons.prems(1) y(1)
  have IH: "0 \<le> foldl (nadd R) ?y cs" "foldl (nadd R) ?y cs \<le> ?y + of_nat (length cs) * (1 + 1 / 1000000000)" by auto
  have "x + of_nat (length (c # cs)) * (1 + 1 / 1000000000) =
      x + (1 + 1 / 1000000000) + of_nat (length cs) * (1 + 1 / 1000000000)"
    by (simp only: list.size of_nat_Suc of_nat_add of_nat_1 distrib_right mult_1 add.assoc add.commute)
  with IH y(2) c(2) show ?case unfolding foldl_Cons by linarith
qed simp

lemma average_range:
  assumes "list_all unit_score cs" and "length cs \<le> 100"
  shows "0 \<le> average R cs" and "average R cs \<le> 1 + 1 / 100000000"
proof -
  have "0 \<le> average R cs \<and> average R cs \<le> 1 + 1 / 100000000"
  proof (cases "cs = []")
    case False
    let ?n = "of_nat (length cs) :: rat"
    have n: "0 < ?n" "?n \<le> 100" using False assms(2) by simp_all
    have s: "0 \<le> foldl (nadd R) 0 cs" "foldl (nadd R) 0 cs \<le> ?n * (1 + 1 / 1000000000)"
      using sum_of_units [OF assms(1), of 0] n by auto
    have "ndiv R (foldl (nadd R) 0 cs) ?n \<le> ndiv R (?n * (1 + 1 / 1000000000)) ?n" using s(2) n(1) by (rule ndiv_mono)
    also have "\<dots> \<le> (1 + 1 / 1000000000) + 1 / 1000000000"
      using near_ndiv [of "?n * (1 + 1 / 1000000000)" ?n] n by simp
    finally show ?thesis using False ndiv_nonneg [OF s(1) n(1)] by (simp add: average_def)
  qed (simp add: average_def)
  then show "0 \<le> average R cs" and "average R cs \<le> 1 + 1 / 100000000" by auto
qed

lemma js_round2_unit:
  assumes "0 \<le> x" "x \<le> 1 + 1 / 100000000"
  shows "0 \<le> js_round2 R x" and "js_round2 R x \<le> 1"
proof -
  let ?n = "\<lfloor>nmul R x 100 + 1 / 2\<rfloor>"
  have "\<bar>x * 100\<bar> \<le> 20000" using assms by simp
  from near_nmul [OF this] have "0 \<le> ?n" "?n \<le> 100" using nmul_nonneg [of x 100] assms by linarith+
  then have "(of_int ?n :: rat) \<le> 100" by linarith
  then show "js_round2 R x \<le> 1" using ndiv_mono [of "of_int ?n" 100 100] ndiv_self [of 100] by (simp add: js_round2_def)
  show "0 \<le> js_round2 R x" using assms by (intro js_round2_near) simp_all
qed

text \<open>The merged confidence stays between zero and one.\<close>

lemma merge_in_range:
  assumes "fields_in_range front" and "parse_lines R y ls = Some mrz"
  shows "ocr_in_range (Some (mergeOcrWithMrz R front mrz))"
proof -
  obtain l1 l2 l3 where "ls = (l1, l2, l3)" by (cases ls)
  then have m: "mrz = mrz_fields R y l1 l2 l3" using assms(2) by (simp add: parse_lines_def Let_def split: if_split_asm)
  have "mr_checkDigitScore mrz = ndiv R (of_nat n) 3 \<Longrightarrow> n \<le> 3 \<Longrightarrow> unit_score (mr_checkDigitScore mrz)" for n :: nat
    using ndiv_mono [of "of_nat n" 3 3] ndiv_self [of 3] ndiv_nonneg [of "of_nat n" 3] by (simp add: unit_score_def)
  then have score: "unit_score (mr_checkDigitScore mrz)"
    unfolding m mrz_fields_def Let_def mrz_result.select_convs by simp
  then have floor: "0 \<le> nmul R (mr_checkDigitScore mrz) (92 / 100)" "nmul R (mr_checkDigitScore mrz) (92 / 100) \<le> 1"
    using weighted_near [of "mr_checkDigitScore mrz" 92] by (auto simp: unit_score_def)
  define fs where "fs = [pick (oc_fullName front) (mrz_name mrz),
      pick (oc_nationalIdNumber front) (plain_field (mr_optionalData1 mrz) (85 / 100)),
      pick (oc_dateOfBirth front) (mrzField (mr_birthDate mrz)), pick (oc_gender front) (plain_field (mr_sex mrz) (95 / 100)),
      pick (oc_documentNumber front) (mrzField (mr_documentNumber mrz)),
      pick (oc_expiryDate front) (mrzField (mr_expiryDate mrz))]"
  have "list_all field_in_range fs"
    using assms(1) by (auto simp: fs_def fields_in_range_def intro!: field_ranges)
  then have avg: "0 \<le> average R (field_confidences fs)" "average R (field_confidences fs) \<le> 1 + 1 / 100000000"
    using average_range [OF field_confidences_range(1)] field_confidences_range(2) [of fs] by (auto simp: fs_def)
  have "oc_overallConfidence (mergeOcrWithMrz R front mrz) =
      js_round2 R (max (average R (field_confidences fs)) (nmul R (mr_checkDigitScore mrz) (92 / 100)))"
    by (simp add: mergeOcrWithMrz_def Let_def fs_def)
  then show ?thesis
    using js_round2_unit [of "max (average R (field_confidences fs)) (nmul R (mr_checkDigitScore mrz) (92 / 100))"] avg floor
    by (simp add: ocr_in_range_def unit_score_def)
qed

end

end
