(* ===== verification/Kyc.thy ===== *)
theory Kyc
  imports Mrz
begin

text \<open>
  The KYC workflow: \<^verbatim>\<open>services/kyc-workflow.service.ts\<close> and \<^verbatim>\<open>controllers/kyc.controller.ts\<close> of
  \<^verbatim>\<open>src/modules/kyc\<close> and the upload validation of \<^verbatim>\<open>src/infrastructure/storage/file-validation.util.ts\<close>.
  What brokers and staff do with an application is in \<open>KycReview\<close>.

  The providers the workflow is given (image processing, OCR, face recognition, object storage, the
  text of a PDF and the address heuristics) are fields of \<open>kyc_env\<close>; each may throw, which is its
  left value.  The stages of the pipeline are separate definitions, sequenced by \<open>and_then\<close>: the
  writes made before an exception stay, as in the code.
\<close>

section \<open>Environment\<close>

datatype enhance_mode = EnhanceJpeg | EnhanceSelfie | EnhancePng

record 's kyc_env =
  ke_R :: runtime
  ke_config :: kyc_config
  ke_sqrt :: "rat \<Rightarrow> rat"
  ke_fround :: "rat \<Rightarrow> rat"
  ke_localDate :: "int \<Rightarrow> int \<Rightarrow> int \<Rightarrow> timestamp option"
  ke_nowYear :: int
  ke_redis :: "'s redis"
  ke_setnx :: "timestamp \<Rightarrow> string \<Rightarrow> string \<Rightarrow> int \<Rightarrow> 's \<Rightarrow> bool \<times> 's"
  ke_sha256 :: "byte list \<Rightarrow> string"
  ke_upload :: "string \<Rightarrow> string \<Rightarrow> byte list \<Rightarrow> err + string \<times> string"
  ke_signedUrl :: "string \<Rightarrow> err + string"
  ke_fetch :: "string \<Rightarrow> err + bool \<times> byte list"
  ke_enhance :: "enhance_mode \<Rightarrow> byte list \<Rightarrow> err + byte list"
  ke_analyzeQuality :: "byte list \<Rightarrow> err + image_quality"
  ke_thumbnail :: "byte list \<Rightarrow> err + byte list"
  ke_ocrReady :: bool
  ke_extractFields :: "byte list \<Rightarrow> err + ocr_result"
  ke_extractMrzText :: "(byte list \<Rightarrow> err + string) option"
  ke_extractRawText :: "byte list \<Rightarrow> err + string"
  ke_pdfText :: "byte list \<Rightarrow> err + string"
  ke_extractAddress :: "string \<Rightarrow> extracted_address"
  ke_faceReady :: bool
  ke_detectAndEmbed :: "byte list \<Rightarrow> err + face_detection"

definition lift_sum :: "'e + 'a \<Rightarrow> 's \<Rightarrow> ('e + 'a) \<times> 's" where
  "lift_sum m s = (m, s)"

definition bind_sum :: "'e + 'a \<Rightarrow> ('a \<Rightarrow> 'e + 'b) \<Rightarrow> 'e + 'b" where
  "bind_sum m f = (case m of Inl e \<Rightarrow> Inl e | Inr x \<Rightarrow> f x)"

section \<open>Upload validation\<close>

definition MAX_UPLOAD_SIZE :: nat where "MAX_UPLOAD_SIZE = 10 * 1024 * 1024"

record file_signature =
  fs_mimeType :: string
  fs_extensions :: "string list"
  fs_signature :: "byte list"

definition ALLOWED_SIGNATURES :: "file_signature list" where
  "ALLOWED_SIGNATURES =
     [\<lparr>fs_mimeType = ''image/jpeg'', fs_extensions = [''.jpg'', ''.jpeg''], fs_signature = [0xff, 0xd8, 0xff]\<rparr>,
      \<lparr>fs_mimeType = ''image/png'', fs_extensions = [''.png''],
       fs_signature = [0x89, 0x50, 0x4e, 0x47, 0x0d, 0x0a, 0x1a, 0x0a]\<rparr>,
      \<lparr>fs_mimeType = ''application/pdf'', fs_extensions = [''.pdf''], fs_signature = [0x25, 0x50, 0x44, 0x46]\<rparr>]"

text \<open>\<open>/\.[^./\\]+$/\<close> on the lower-case name: the characters after the last dot, when there are some and
  no slash is among them.\<close>

definition extractExtension :: "string \<Rightarrow> string" where
  "extractExtension fileName =
     (let n = toLowerCase fileName; tail = rev (takeWhile (\<lambda>c. c \<noteq> CHR ''.'') (rev n))
      in if CHR ''.'' \<in> set n \<and> tail \<noteq> [] \<and> CHR ''/'' \<notin> set tail \<and> CHR 92 \<notin> set tail then CHR ''.'' # tail else [])"

definition validateUploadedFile :: "string \<Rightarrow> string \<Rightarrow> byte list \<Rightarrow> string list \<Rightarrow> nat \<Rightarrow> err + unit" where
  "validateUploadedFile fileName declaredMimeType buffer allowedMimeTypes maxSizeBytes =
     (if buffer = [] then Inl (Validation (Msg ''Uploaded file is empty''))
      else if maxSizeBytes < length buffer then Inl (Validation (Msg ''File exceeds the maximum allowed size''))
      else
        let extension = extractExtension fileName;
            candidates = filter (\<lambda>g. fs_mimeType g = declaredMimeType \<and>
              (extension = [] \<or> extension \<in> set (fs_extensions g))) ALLOWED_SIGNATURES
        in if candidates = [] then Inl (Validation (Msg ''Unsupported file type''))
           else if declaredMimeType \<notin> set allowedMimeTypes
           then Inl (Validation (Msg ''File type is not allowed for this upload target''))
           else if \<not> list_ex (\<lambda>g. take (length (fs_signature g)) buffer = fs_signature g) candidates
           then Inl (Validation (Msg ''File content does not match its declared type (failed signature check)''))
           else Inr ())"

section \<open>Applications and documents\<close>

primrec STAGE_ORDER :: "kyc_stage \<Rightarrow> nat" where
  "STAGE_ORDER CREATED = 0"
| "STAGE_ORDER ID_UPLOADED = 1"
| "STAGE_ORDER SELFIE_UPLOADED = 2"
| "STAGE_ORDER VALIDATING = 3"
| "STAGE_ORDER ENHANCING = 4"
| "STAGE_ORDER OCR_PROCESSING = 5"
| "STAGE_ORDER FACE_EXTRACTING = 6"
| "STAGE_ORDER FACE_MATCHING = 7"
| "STAGE_ORDER FRAUD_CHECKING = 8"
| "STAGE_ORDER SCORING = 9"
| "STAGE_ORDER DECIDING = 10"
| "STAGE_ORDER COMPLETE = 11"
| "STAGE_ORDER STAGE_FAILED = 12"

definition RESUMABLE :: "kyc_status list" where
  "RESUMABLE = [KYC_NOT_SUBMITTED, KYC_PENDING, KYC_ADDITIONAL_DOCS, KYC_MANUAL_REVIEW]"

definition startApplication :: "'s kyc_env \<Rightarrow> uuid \<Rightarrow> 's kyc_db \<Rightarrow> (err + uuid) \<times> 's kyc_db" where
  "startApplication E userId s =
     (let fresh = and_then (createApplication (now (ke_R E)) userId s) (\<lambda>i s1.
            (Inr i, kyc_emit (KycStarted i userId) (recordAuditEntry i KYC_STARTED userId s1)))
      in case getApplicationByUserId userId s of
           None \<Rightarrow> fresh
         | Some a \<Rightarrow>
             if ka_status a \<in> set RESUMABLE then (Inr (ka_id a), s)
             else if ka_status a = KYC_APPROVED
             then (Inl (Conflict (Msg ''KYC is already approved for this account'')), s)
             else fresh)"

definition stageAdvancement :: "document_type \<Rightarrow> kyc_stage option" where
  "stageAdvancement typ =
     (case typ of NATIONAL_ID \<Rightarrow> Some ID_UPLOADED | NATIONAL_ID_BACK \<Rightarrow> Some ID_UPLOADED
      | SELFIE \<Rightarrow> Some SELFIE_UPLOADED | _ \<Rightarrow> None)"

primrec document_dir :: "document_type \<Rightarrow> string" where
  "document_dir NATIONAL_ID = ''national_id''"
| "document_dir NATIONAL_ID_BACK = ''national_id_back''"
| "document_dir PASSPORT = ''passport''"
| "document_dir DRIVERS_LICENSE = ''drivers_license''"
| "document_dir PROOF_OF_RESIDENCE = ''proof_of_residence''"
| "document_dir SELFIE = ''selfie''"

definition uploadDocument ::
  "'s kyc_env \<Rightarrow> uuid \<Rightarrow> uuid \<Rightarrow> document_type \<Rightarrow> string \<Rightarrow> string \<Rightarrow> byte list \<Rightarrow> 's kyc_db \<Rightarrow> (err + uuid) \<times> 's kyc_db" where
  "uploadDocument E applicationId userId typ fileName mimeType buffer s =
     (case findApp applicationId s of
        None \<Rightarrow> (Inl (PlainError (Msg ''Application not found or unauthorized'')), s)
      | Some app \<Rightarrow>
          if ka_userId app \<noteq> userId then (Inl (PlainError (Msg ''Application not found or unauthorized'')), s)
          else
            let allowedMimeTypes = [''image/jpeg'', ''image/png''] @
                  (if typ = PROOF_OF_RESIDENCE then [''application/pdf''] else [])
            in and_then (lift_sum (validateUploadedFile fileName mimeType buffer allowedMimeTypes MAX_UPLOAD_SIZE) s) (\<lambda>_ s1.
               and_then (lift_sum (ke_upload E (decimal userId @ ''/'' @ decimal applicationId @ ''/'' @ document_dir typ)
                   fileName buffer) s1) (\<lambda>(key, bucket) s2.
               and_then (createDocument (now (ke_R E)) applicationId typ bucket key mimeType (length buffer)
                   (Some (ke_sha256 E buffer)) s2) (\<lambda>docId s3.
               and_then (case stageAdvancement typ of
                   None \<Rightarrow> (Inr (), s3)
                 | Some proposed \<Rightarrow>
                     if STAGE_ORDER (verificationStage app) < STAGE_ORDER proposed
                     then updateApplicationStage applicationId proposed s3 else (Inr (), s3)) (\<lambda>_ s4.
               (Inr docId, kyc_emit (KycDocumentUploaded applicationId docId typ)
                  (recordAuditEntry applicationId (DOCUMENT_UPLOADED typ) userId s4)))))))"

section \<open>The verification pipeline\<close>

definition downloadBuffer :: "'s kyc_env \<Rightarrow> string \<Rightarrow> err + byte list" where
  "downloadBuffer E url =
     bind_sum (ke_fetch E url) (\<lambda>(responseOk, body).
       if responseOk then Inr body else Inl (PlainError (Msg ''Failed to download file'')))"

definition download_doc :: "'s kyc_env \<Rightarrow> kyc_doc \<Rightarrow> err + byte list" where
  "download_doc E d = bind_sum (ke_signedUrl E (kd_storageKey d)) (downloadBuffer E)"

definition updateUserKycStatus :: "uuid \<Rightarrow> kyc_status \<Rightarrow> 's kyc_db \<Rightarrow> (err + unit) \<times> 's kyc_db" where
  "updateUserKycStatus userId status = update_kyc_user userId (\<lambda>u. u\<lparr>u_kycStatus := status\<rparr>)"

text \<open>\<open>Date.UTC(year, month, day)\<close>, month counted from zero and carried into the year; two-digit years
  are years of the twentieth century, and a date beyond the range of \<open>Date\<close> is invalid.\<close>

definition day_of_year_start :: "int \<Rightarrow> int" where
  "day_of_year_start y = 365 * (y - 1970) + (y - 1969) div 4 - (y - 1901) div 100 + (y - 1601) div 400"

definition leap_year :: "int \<Rightarrow> bool" where
  "leap_year y \<longleftrightarrow> 4 dvd y \<and> (\<not> 100 dvd y \<or> 400 dvd y)"

definition days_before_month :: "int \<Rightarrow> int \<Rightarrow> int" where
  "days_before_month y m =
     [0, 31, 59, 90, 120, 151, 181, 212, 243, 273, 304, 334] ! nat m + (if 2 \<le> m \<and> leap_year y then 1 else 0)"

definition date_utc :: "int \<Rightarrow> int \<Rightarrow> int \<Rightarrow> timestamp option" where
  "date_utc year month day =
     (let y0 = (if 0 \<le> year \<and> year \<le> 99 then 1900 + year else year);
          y = y0 + month div 12; m = month mod 12;
          t = (day_of_year_start y + days_before_month y m + day - 1) * 86400000
      in if \<bar>t\<bar> \<le> 8640000000000000 then Some t else None)"

text \<open>The outer option is \<open>null\<close>, the inner one an invalid date.\<close>

definition parseDate :: "string \<Rightarrow> timestamp option option" where
  "parseDate dateStr =
     (case split_at_char (CHR ''/'') dateStr of
        d # m # y # _ \<Rightarrow>
          Some (case (parse_int d, parse_int m, parse_int y) of
                  (Some day, Some month, Some rawYear) \<Rightarrow>
                    date_utc (if rawYear < 100 then if rawYear \<le> 30 then 2000 + rawYear else 1900 + rawYear else rawYear)
                      (month - 1) day
                | _ \<Rightarrow> None)
      | _ \<Rightarrow> None)"

text \<open>The date column refuses an invalid date.\<close>

definition dob_column :: "ocr_result \<Rightarrow> err + timestamp option" where
  "dob_column r =
     (case field_text (oc_dateOfBirth r) of
        None \<Rightarrow> Inr None
      | Some v \<Rightarrow>
          (case parseDate v of
             None \<Rightarrow> Inr None
           | Some None \<Rightarrow> Inl (PrismaError ''Invalid value for argument'')
           | Some (Some t) \<Rightarrow> Inr (Some t)))"

record enhanced_images =
  ei_id :: "byte list"
  ei_selfie :: "byte list"
  ei_idForOcr :: "byte list"
  ei_idQuality :: image_quality
  ei_selfieQuality :: image_quality

definition enhance_images :: "'s kyc_env \<Rightarrow> kyc_doc \<Rightarrow> kyc_doc \<Rightarrow> err + enhanced_images \<times> byte list \<times> byte list" where
  "enhance_images E idDoc selfieDoc =
     bind_sum (ke_signedUrl E (kd_storageKey idDoc)) (\<lambda>idUrl.
     bind_sum (ke_signedUrl E (kd_storageKey selfieDoc)) (\<lambda>selfieUrl.
     bind_sum (downloadBuffer E idUrl) (\<lambda>idBuffer.
     bind_sum (downloadBuffer E selfieUrl) (\<lambda>selfieBuffer.
     bind_sum (ke_enhance E EnhanceJpeg idBuffer) (\<lambda>enhancedId.
     bind_sum (ke_enhance E EnhanceSelfie selfieBuffer) (\<lambda>enhancedSelfie.
     bind_sum (ke_enhance E EnhancePng idBuffer) (\<lambda>enhancedIdForOcr.
     bind_sum (ke_analyzeQuality E enhancedId) (\<lambda>idQuality.
     bind_sum (ke_analyzeQuality E enhancedSelfie) (\<lambda>selfieQuality.
     bind_sum (ke_thumbnail E enhancedId) (\<lambda>idThumb.
     bind_sum (ke_thumbnail E enhancedSelfie) (\<lambda>selfieThumb.
       Inr (\<lparr>ei_id = enhancedId, ei_selfie = enhancedSelfie, ei_idForOcr = enhancedIdForOcr,
             ei_idQuality = idQuality, ei_selfieQuality = selfieQuality\<rparr>, idThumb, selfieThumb))))))))))))"

definition enhancing_stage ::
  "'s kyc_env \<Rightarrow> uuid \<Rightarrow> uuid \<Rightarrow> kyc_doc \<Rightarrow> kyc_doc \<Rightarrow> 's kyc_db \<Rightarrow> (err + enhanced_images) \<times> 's kyc_db" where
  "enhancing_stage E applicationId userId idDoc selfieDoc s =
     (let prefix = decimal userId @ ''/'' @ decimal applicationId
      in and_then (updateApplicationStage applicationId ENHANCING s) (\<lambda>_ s1.
         and_then (lift_sum (enhance_images E idDoc selfieDoc) s1) (\<lambda>(im, idThumb, selfieThumb) s2.
         and_then (lift_sum (ke_upload E (prefix @ ''/enhanced'') ''id-enhanced.jpg'' (ei_id im)) s2) (\<lambda>(idKey, b1) s3.
         and_then (lift_sum (ke_upload E (prefix @ ''/enhanced'') ''selfie-enhanced.jpg'' (ei_selfie im)) s3) (\<lambda>(selfieKey, b2) s4.
         and_then (lift_sum (ke_upload E (prefix @ ''/thumbnails'') ''id-thumb.jpg'' idThumb) s4) (\<lambda>(idThumbKey, b3) s5.
         and_then (lift_sum (ke_upload E (prefix @ ''/thumbnails'') ''selfie-thumb.jpg'' selfieThumb) s5) (\<lambda>(selfieThumbKey, b4) s6.
         and_then (updateDocument (kd_id idDoc) (Some idKey) (Some idThumbKey) None s6) (\<lambda>_ s7.
         and_then (updateDocument (kd_id selfieDoc) (Some selfieKey) (Some selfieThumbKey) None s7) (\<lambda>_ s8.
           (Inr im, s8))))))))))"

text \<open>The text of the back of the card.  An exception here is caught: the front's reading stays.\<close>

definition back_text :: "'s kyc_env \<Rightarrow> kyc_doc \<Rightarrow> err + string" where
  "back_text E d =
     bind_sum (download_doc E d) (\<lambda>buffer.
     bind_sum (ke_enhance E EnhancePng buffer) (\<lambda>enhancedBack.
       case ke_extractMrzText E of Some f \<Rightarrow> f enhancedBack | None \<Rightarrow> ke_extractRawText E enhancedBack))"

definition merge_back :: "'s kyc_env \<Rightarrow> kyc_doc option \<Rightarrow> ocr_result \<Rightarrow> ocr_result" where
  "merge_back E idBackDoc front =
     (case idBackDoc of
        None \<Rightarrow> front
      | Some d \<Rightarrow>
          (case back_text E d of
             Inl _ \<Rightarrow> front
           | Inr t \<Rightarrow>
               (case mrz_parse (ke_R E) (ke_nowYear E) t of
                  None \<Rightarrow> front | Some m \<Rightarrow> mergeOcrWithMrz (ke_R E) front m)))"

definition ocr_stage ::
  "'s kyc_env \<Rightarrow> uuid \<Rightarrow> kyc_doc option \<Rightarrow> byte list \<Rightarrow> 's kyc_db \<Rightarrow> (err + ocr_result option) \<times> 's kyc_db" where
  "ocr_stage E applicationId idBackDoc picture s =
     and_then (updateApplicationStage applicationId OCR_PROCESSING s) (\<lambda>_ s1.
       if \<not> ke_ocrReady E then (Inr None, s1)
       else
         and_then (lift_sum (ke_extractFields E picture) s1) (\<lambda>front s2.
           let ocrResult = merge_back E idBackDoc front
           in and_then (saveOcrResult applicationId ocrResult s2) (\<lambda>_ s3.
              and_then (lift_sum (dob_column ocrResult) s3) (\<lambda>dob s4.
              and_then (updateApplicationStatus (ke_R E) applicationId KYC_PENDING
                  (no_patch\<lparr>pt_nationalIdNumber := Some (map_option of_value (oc_nationalIdNumber ocrResult)),
                            pt_dateOfBirth := Some dob, pt_ocr := Some ocrResult,
                            pt_ocrConfidence := Some (oc_overallConfidence ocrResult)\<rparr>) s4) (\<lambda>_ s5.
                (Inr (Some ocrResult), s5))))))"

definition extractAddressFromProof :: "'s kyc_env \<Rightarrow> kyc_doc \<Rightarrow> err + extracted_address option" where
  "extractAddressFromProof E d =
     bind_sum (download_doc E d) (\<lambda>buffer.
     bind_sum (if kd_mimeType d = ''application/pdf'' then ke_pdfText E buffer
               else bind_sum (ke_enhance E EnhancePng buffer) (ke_extractRawText E)) (\<lambda>t.
       Inr (if trimText t = [] then None else Some (ke_extractAddress E t))))"

text \<open>Any exception of this stage is caught and the pipeline goes on.\<close>

definition address_stage :: "'s kyc_env \<Rightarrow> uuid \<Rightarrow> kyc_doc option \<Rightarrow> 's kyc_db \<Rightarrow> 's kyc_db" where
  "address_stage E applicationId porDoc s =
     (case porDoc of
        None \<Rightarrow> s
      | Some d \<Rightarrow>
          if \<not> ke_ocrReady E then s
          else case extractAddressFromProof E d of
            Inr (Some a) \<Rightarrow>
              if ea_formatted a = None \<or> ea_formatted a = Some [] then s
              else snd (updateApplicationStatus (ke_R E) applicationId KYC_PENDING
                     (no_patch\<lparr>pt_addressLine1 := Some (ea_addressLine1 a), pt_addressLine2 := Some (ea_addressLine2 a),
                               pt_city := Some (ea_city a), pt_district := Some (ea_district a),
                               pt_extractedAddress := Some a\<rparr>) s)
          | _ \<Rightarrow> s)"

definition no_face :: face_detection where
  "no_face = \<lparr>fd_detected = False, fd_faceCount = 0, fd_embedding = None, fd_detectionConfidence = 0, fd_qualityScore = 0\<rparr>"

definition save_embedding ::
  "'s kyc_env \<Rightarrow> uuid \<Rightarrow> face_source \<Rightarrow> face_detection \<Rightarrow> 's kyc_db \<Rightarrow> (err + unit) \<times> 's kyc_db" where
  "save_embedding E applicationId src f s =
     (case fd_embedding f of
        None \<Rightarrow> (Inr (), s)
      | Some v \<Rightarrow> and_then (saveFaceEmbedding (ke_fround E) applicationId src v (fd_detectionConfidence f) (fd_qualityScore f) s)
                    (\<lambda>_ s1. (Inr (), s1)))"

definition face_stage ::
  "'s kyc_env \<Rightarrow> uuid \<Rightarrow> enhanced_images \<Rightarrow> 's kyc_db \<Rightarrow> (err + face_detection \<times> face_detection) \<times> 's kyc_db" where
  "face_stage E applicationId im s =
     and_then (updateApplicationStage applicationId FACE_EXTRACTING s) (\<lambda>_ s1.
       if \<not> ke_faceReady E then (Inr (no_face, no_face), s1)
       else
         and_then (lift_sum (ke_detectAndEmbed E (ei_id im)) s1) (\<lambda>idFace s2.
         and_then (lift_sum (ke_detectAndEmbed E (ei_selfie im)) s2) (\<lambda>selfieFace s3.
           (Inr (idFace, selfieFace),
            snd (and_then (save_embedding E applicationId FromNationalId idFace s3) (\<lambda>_ s4.
                   save_embedding E applicationId FromSelfie selfieFace s4))))))"

record verification_result =
  vr_confidenceScore :: rat
  vr_decision :: decision
  vr_decisionReason :: decision_reason
  vr_fraudFlags :: "fraud_flag list"

definition fraud_stage ::
  "'s kyc_env \<Rightarrow> uuid \<Rightarrow> uuid \<Rightarrow> ocr_result option \<Rightarrow> enhanced_images \<Rightarrow> face_detection \<times> face_detection \<Rightarrow> 's kyc_db
    \<Rightarrow> (err + face_match \<times> fraud_flag list \<times> rat) \<times> 's kyc_db" where
  "fraud_stage E applicationId userId ocrResult im faces s =
     (let R = ke_R E; (idFace, selfieFace) = faces
      in and_then (updateApplicationStage applicationId FACE_MATCHING s) (\<lambda>_ s1.
         and_then (lift_sum (compareFaces R (ke_sqrt E) (ke_config E) idFace selfieFace) s1) (\<lambda>m s2.
         and_then (updateApplicationStatus R applicationId KYC_PENDING
             (no_patch\<lparr>pt_facialMatchScore := Some (fm_similarity m), pt_faceMatchConfidence := Some (fm_confidence m)\<rparr>) s2) (\<lambda>_ s3.
         and_then (updateApplicationStage applicationId FRAUD_CHECKING s3) (\<lambda>_ s4.
         and_then (lift_sum (runAllChecks R (ke_sqrt E) (ke_localDate E) (ke_config E)
             \<lparr>fx_applicationId = applicationId, fx_userId = userId, fx_ocrResult = ocrResult, fx_faceMatchResult = m,
              fx_idImageQuality = ei_idQuality im, fx_selfieImageQuality = ei_selfieQuality im,
              fx_selfieEmbedding = fd_embedding selfieFace\<rparr> s4) s4) (\<lambda>(flags, riskScore, blocksApproval) s5.
         and_then (if flags = [] then (Inr (), s5) else saveFraudFlags applicationId flags s5) (\<lambda>_ s6.
           (Inr (m, flags, riskScore), s6))))))))"

definition status_of :: "decision \<Rightarrow> kyc_status" where
  "status_of d = (case d of AUTO_APPROVED \<Rightarrow> KYC_APPROVED | AUTO_REJECTED \<Rightarrow> KYC_REJECTED | AUTO_MANUAL_REVIEW \<Rightarrow> KYC_PENDING)"

definition decision_stage ::
  "'s kyc_env \<Rightarrow> uuid \<Rightarrow> uuid \<Rightarrow> ocr_result option \<Rightarrow> enhanced_images \<Rightarrow> face_match \<times> fraud_flag list \<times> rat \<Rightarrow> 's kyc_db
    \<Rightarrow> (err + verification_result) \<times> 's kyc_db" where
  "decision_stage E applicationId userId ocrResult im checked s =
     (let R = ke_R E; (m, flags, riskScore) = checked
      in and_then (updateApplicationStage applicationId SCORING s) (\<lambda>_ s1.
         let scoring = computeScore R (ke_config E) ocrResult m (ei_idQuality im) (ei_selfieQuality im) flags riskScore;
             status = status_of (sr_decision scoring)
         in and_then (updateApplicationStage applicationId DECIDING s1) (\<lambda>_ s2.
            and_then (updateApplicationStatus R applicationId status
                (no_patch\<lparr>pt_confidenceScore := Some (sr_compositeScore scoring),
                          pt_imageQualityScore := Some (sc_imageQuality (sr_scores scoring)),
                          pt_documentQualityScore := Some (sc_documentQuality (sr_scores scoring)),
                          pt_fraudScore := Some riskScore\<rparr>) s2) (\<lambda>_ s3.
            and_then (if status = KYC_APPROVED \<or> status = KYC_REJECTED then updateUserKycStatus userId status s3
                      else (Inr (), s3)) (\<lambda>_ s4.
            and_then (updateApplicationStage applicationId COMPLETE s4) (\<lambda>_ s5.
              let s6 = recordAuditEntry applicationId (VERIFICATION_COMPLETE (sr_decision scoring)) userId s5;
                  s7 = kyc_emit (KycVerificationComplete applicationId userId (sr_decision scoring) (sr_compositeScore scoring)) s6;
                  s8 = (case sr_decision scoring of AUTO_APPROVED \<Rightarrow> kyc_emit (KycApproved userId) s7
                        | AUTO_REJECTED \<Rightarrow> kyc_emit (KycRejected userId) s7 | AUTO_MANUAL_REVIEW \<Rightarrow> s7)
              in (Inr \<lparr>vr_confidenceScore = sr_compositeScore scoring, vr_decision = sr_decision scoring,
                       vr_decisionReason = sr_decisionReason scoring, vr_fraudFlags = flags\<rparr>, s8)))))))"

definition pipeline_body ::
  "'s kyc_env \<Rightarrow> uuid \<Rightarrow> uuid \<Rightarrow> kyc_doc list \<Rightarrow> kyc_doc \<Rightarrow> kyc_doc \<Rightarrow> 's kyc_db \<Rightarrow> (err + verification_result) \<times> 's kyc_db" where
  "pipeline_body E applicationId userId documents idDoc selfieDoc s =
     and_then (enhancing_stage E applicationId userId idDoc selfieDoc s) (\<lambda>im s1.
     and_then (ocr_stage E applicationId (List.find (\<lambda>d. kd_type d = NATIONAL_ID_BACK) documents) (ei_idForOcr im) s1) (\<lambda>ocrResult s2.
     let s3 = address_stage E applicationId (List.find (\<lambda>d. kd_type d = PROOF_OF_RESIDENCE) documents) s2
     in and_then (face_stage E applicationId im s3) (\<lambda>faces s4.
        and_then (fraud_stage E applicationId userId ocrResult im faces s4) (\<lambda>checked s5.
          decision_stage E applicationId userId ocrResult im checked s5))))"

text \<open>\<open>submit\<close> puts the application into the broker's queue before the providers are asked.\<close>

definition submit_for_review :: "'s kyc_env \<Rightarrow> uuid \<Rightarrow> uuid \<Rightarrow> 's kyc_db \<Rightarrow> (err + unit) \<times> 's kyc_db" where
  "submit_for_review E applicationId userId s =
     and_then (updateApplicationStatus (ke_R E) applicationId KYC_PENDING no_patch s) (\<lambda>_ s1.
     and_then (updateUserKycStatus userId KYC_PENDING s1) (\<lambda>_ s2.
       (Inr (), kyc_emit (KycSubmitted applicationId userId)
          (recordAuditEntry applicationId KYC_SUBMITTED_FOR_REVIEW userId s2))))"

definition runPipeline ::
  "'s kyc_env \<Rightarrow> uuid \<Rightarrow> uuid \<Rightarrow> 's kyc_db \<Rightarrow> (err + verification_result) \<times> 's kyc_db" where
  "runPipeline E applicationId userId s =
     (case findApp applicationId s of
        None \<Rightarrow> (Inl (PlainError (Msg ''Application not found or unauthorized'')), s)
      | Some app \<Rightarrow>
          if ka_userId app \<noteq> userId then (Inl (PlainError (Msg ''Application not found or unauthorized'')), s)
          else
            let documents = getDocumentsByApplicationId applicationId s
            in case (List.find (\<lambda>d. kd_type d = NATIONAL_ID) documents, List.find (\<lambda>d. kd_type d = SELFIE) documents) of
                 (Some idDoc, Some selfieDoc) \<Rightarrow>
                   and_then (submit_for_review E applicationId userId s) (\<lambda>_ s1.
                     case pipeline_body E applicationId userId documents idDoc selfieDoc s1 of
                       (Inr r, s2) \<Rightarrow> (Inr r, s2)
                     | (Inl e, s2) \<Rightarrow>
                         and_then (updateApplicationStage applicationId STAGE_FAILED s2) (\<lambda>_ s3.
                           (Inr \<lparr>vr_confidenceScore = 0, vr_decision = AUTO_MANUAL_REVIEW,
                                 vr_decisionReason = PipelineUnavailable, vr_fraudFlags = []\<rparr>,
                            recordAuditEntry applicationId VERIFICATION_PIPELINE_FAILED userId s3)))
               | _ \<Rightarrow> (Inl (PlainError (Msg ''Both national ID and selfie must be uploaded before processing'')), s))"

definition lockKey :: "uuid \<Rightarrow> string" where
  "lockKey applicationId = ''kyc:pipeline:lock:'' @ decimal applicationId"

definition lockValue :: "uuid \<Rightarrow> timestamp \<Rightarrow> string" where
  "lockValue userId startTime = decimal userId @ '':'' @ show_int startTime"

abbreviation ky_redis :: "'s kyc_db \<Rightarrow> 's" where
  "ky_redis s \<equiv> ad_redis (ky_auth s)"

definition set_redis :: "'s \<Rightarrow> 's kyc_db \<Rightarrow> 's kyc_db" where
  "set_redis q s = s\<lparr>ky_auth := (ky_auth s)\<lparr>ad_redis := q\<rparr>\<rparr>"

definition acquire_lock :: "'s kyc_env \<Rightarrow> uuid \<Rightarrow> uuid \<Rightarrow> 's kyc_db \<Rightarrow> bool \<times> 's kyc_db" where
  "acquire_lock E applicationId userId s =
     (let (taken, q) = ke_setnx E (now (ke_R E)) (lockKey applicationId) (lockValue userId (now (ke_R E))) 600 (ky_redis s)
      in (taken, set_redis q s))"

definition release_lock :: "'s kyc_env \<Rightarrow> uuid \<Rightarrow> 's kyc_db \<Rightarrow> 's kyc_db" where
  "release_lock E applicationId s = set_redis (rdel (ke_redis E) [lockKey applicationId] (ky_redis s)) s"

definition duplicate_result :: verification_result where
  "duplicate_result = \<lparr>vr_confidenceScore = 0, vr_decision = AUTO_MANUAL_REVIEW, vr_decisionReason = DuplicateRequest,
     vr_fraudFlags = []\<rparr>"

definition processVerification ::
  "'s kyc_env \<Rightarrow> uuid \<Rightarrow> uuid \<Rightarrow> 's kyc_db \<Rightarrow> (err + verification_result) \<times> 's kyc_db" where
  "processVerification E applicationId userId s =
     (let (lockAcquired, s1) = acquire_lock E applicationId userId s
      in if \<not> lockAcquired then (Inr duplicate_result, s1)
         else let (r, s2) = runPipeline E applicationId userId s1 in (r, release_lock E applicationId s2))"

section \<open>What the stages leave alone\<close>

text \<open>\<open>pending_frame i s s'\<close>: only the row of application \<open>i\<close> changed, by an update that keeps its keys and its
  reviewer and leaves the status or sets it to pending; users, audit log and events are untouched.\<close>

definition keeps_row :: "(kyc_app \<Rightarrow> kyc_app) \<Rightarrow> bool" where
  "keeps_row f \<longleftrightarrow> (\<forall>a. ka_id (f a) = ka_id a \<and> ka_userId (f a) = ka_userId a \<and> ka_brokerId (f a) = ka_brokerId a \<and>
     ka_reviewedById (f a) = ka_reviewedById a \<and> (ka_status (f a) = ka_status a \<or> ka_status (f a) = KYC_PENDING))"

definition pending_frame :: "uuid \<Rightarrow> 's kyc_db \<Rightarrow> 's kyc_db \<Rightarrow> bool" where
  "pending_frame i s s' \<longleftrightarrow>
     ky_auth s' = ky_auth s \<and> ky_audit s' = ky_audit s \<and> ky_events s' = ky_events s \<and>
     (\<exists>f. keeps_row f \<and> ky_apps s' = upd_where (\<lambda>a. ka_id a = i) f (ky_apps s)) \<and>
     filter (\<lambda>e. fe_appId e \<noteq> i) (ky_embeddings s') = filter (\<lambda>e. fe_appId e \<noteq> i) (ky_embeddings s)"

lemma upd_where_true: "upd_where P (\<lambda>a. a) xs = xs"
  by (simp add: upd_where_def)

lemma pending_refl: "pending_frame i s s"
  by (auto simp: pending_frame_def keeps_row_def upd_where_true intro!: exI [of _ "\<lambda>a. a"])

lemma upd_where_twice:
  assumes "\<And>a. k (f a) = k a"
  shows "upd_where (\<lambda>a. k a = i) g (upd_where (\<lambda>a. k a = i) f xs) = upd_where (\<lambda>a. k a = i) (g \<circ> f) xs"
  using assms by (simp add: upd_where_def)

lemma pending_trans:
  assumes "pending_frame i s s1" and "pending_frame i s1 s2"
  shows "pending_frame i s s2"
proof -
  obtain f g where f: "keeps_row f" "ky_apps s1 = upd_where (\<lambda>a. ka_id a = i) f (ky_apps s)"
    and g: "keeps_row g" "ky_apps s2 = upd_where (\<lambda>a. ka_id a = i) g (ky_apps s1)"
    using assms by (auto simp: pending_frame_def)
  have "ky_apps s2 = upd_where (\<lambda>a. ka_id a = i) (g \<circ> f) (ky_apps s)"
    using f g upd_where_twice [of ka_id f i g] by (simp add: keeps_row_def)
  moreover have "keeps_row (g \<circ> f)" using f(1) g(1) by (simp add: keeps_row_def) metis
  ultimately show ?thesis using assms by (auto simp: pending_frame_def)
qed

text \<open>A relation between the states before and after an operation that is reflexive and transitive holds of a
  sequence of operations when it holds of each.\<close>

locale state_frame =
  fixes Q :: "'x \<Rightarrow> 'x \<Rightarrow> bool"
  assumes Q_refl: "Q s s" and Q_trans: "Q s s1 \<Longrightarrow> Q s1 s2 \<Longrightarrow> Q s s2"
begin

lemma seq:
  assumes "Q s (snd m)" and "\<And>x s1. Q s1 (snd (f x s1))"
  shows "Q s (snd (and_then m f))"
proof (cases m)
  case (Pair r s1)
  then show ?thesis using assms(1) Q_trans [OF _ assms(2)] by (cases r) auto
qed

lemma branch: "(c \<Longrightarrow> Q s (snd a)) \<Longrightarrow> (\<not> c \<Longrightarrow> Q s (snd b)) \<Longrightarrow> Q s (snd (if c then a else b))"
  by simp

lemma leaf: "Q s s' \<Longrightarrow> Q s (snd (x, s'))"
  by simp

lemma lifted: "Q s (snd (lift_sum m s))"
  by (simp add: lift_sum_def Q_refl)

end

interpretation pending: state_frame "pending_frame i" for i :: uuid
  by unfold_locales (fact pending_refl, fact pending_trans)

lemma pending_update_app: "keeps_row f \<Longrightarrow> pending_frame i s (snd (update_app i f s))"
  by (auto simp: update_app_def pending_refl) (auto simp: pending_frame_def)

lemma keeps_row_patch: "keeps_row (patch_app R KYC_PENDING d)"
  by (simp add: keeps_row_def patch_app_def)

lemma pending_ops:
  "pending_frame i s (snd (updateApplicationStage i g s))"
  "pending_frame i s (snd (updateApplicationStatus R i KYC_PENDING d s))"
  "pending_frame i s (snd (saveOcrResult i r s))"
  "pending_frame i s (snd (saveFraudFlags i flags s))"
  "pending_frame i s (snd (updateDocument doc k t h s))"
  "pending_frame i s (snd (saveFaceEmbedding fr i src v c q s))"
proof -
  show "pending_frame i s (snd (updateDocument doc k t h s))"
    by (auto simp: updateDocument_def pending_refl) (auto simp: pending_frame_def keeps_row_def upd_where_true intro!: exI [of _ "\<lambda>a. a"])
  show "pending_frame i s (snd (saveFaceEmbedding fr i src v c q s))"
    by (auto simp: saveFaceEmbedding_def pending_refl split: option.split)
      (auto simp: pending_frame_def keeps_row_def upd_where_true intro!: exI [of _ "\<lambda>a. a"] filter_cong)
qed (auto simp: updateApplicationStage_def updateApplicationStatus_def saveOcrResult_def saveFraudFlags_def keeps_row_def
    intro!: pending_update_app keeps_row_patch)

lemma pending_save_embedding: "pending_frame i s (snd (save_embedding E i src f s))"
  by (auto simp: save_embedding_def pending_refl split: option.split intro!: pending.seq pending_ops)

lemma pending_stages:
  "pending_frame i s (snd (enhancing_stage E i u idDoc selfieDoc s))"
  "pending_frame i s (snd (ocr_stage E i back picture s))"
  "pending_frame i s (address_stage E i por s)"
  "pending_frame i s (snd (face_stage E i im s))"
  "pending_frame i s (snd (fraud_stage E i u ocr im faces s))"
proof -
  note intros = pending.seq pending_ops pending.lifted pending.branch pending.leaf pending_save_embedding pending_refl
  show "pending_frame i s (snd (enhancing_stage E i u idDoc selfieDoc s))"
    unfolding enhancing_stage_def Let_def case_prod_beta by (intro intros)
  show "pending_frame i s (snd (ocr_stage E i back picture s))"
    unfolding ocr_stage_def Let_def by (intro intros)
  show "pending_frame i s (address_stage E i por s)"
    unfolding address_stage_def by (auto simp: pending_refl pending_ops split: option.split sum.split)
  show "pending_frame i s (snd (face_stage E i im s))"
    unfolding face_stage_def by (intro intros)
  show "pending_frame i s (snd (fraud_stage E i u ocr im faces s))"
    unfolding fraud_stage_def Let_def case_prod_beta by (intro intros)
qed

section \<open>What a run of the pipeline ends in\<close>

lemma framed_app:
  assumes "pending_frame i s s'"
  shows "ky_auth s' = ky_auth s" "ky_audit s' = ky_audit s" "j \<noteq> i \<Longrightarrow> findApp j s' = findApp j s"
    "findApp i s = Some a \<Longrightarrow> \<exists>a'. findApp i s' = Some a' \<and> ka_userId a' = ka_userId a \<and>
       ka_reviewedById a' = ka_reviewedById a \<and> (ka_status a = KYC_PENDING \<longrightarrow> ka_status a' = KYC_PENDING)"
proof -
  obtain f where f: "keeps_row f" "ky_apps s' = upd_where (\<lambda>a. ka_id a = i) f (ky_apps s)"
    and rest: "ky_auth s' = ky_auth s" "ky_audit s' = ky_audit s"
    using assms by (auto simp: pending_frame_def)
  show "ky_auth s' = ky_auth s" "ky_audit s' = ky_audit s" by (rule rest)+
  have id: "\<And>x. ka_id (f x) = ka_id x" using f(1) by (simp add: keeps_row_def)
  show "j \<noteq> i \<Longrightarrow> findApp j s' = findApp j s"
    by (simp add: findApp_def f(2) find_upd_where [where k = ka_id, OF id] option.map_ident)
  show "findApp i s = Some a \<Longrightarrow> \<exists>a'. findApp i s' = Some a' \<and> ka_userId a' = ka_userId a \<and>
       ka_reviewedById a' = ka_reviewedById a \<and> (ka_status a = KYC_PENDING \<longrightarrow> ka_status a' = KYC_PENDING)"
    using f(1) by (simp add: findApp_def f(2) find_upd_where [where k = ka_id, OF id] keeps_row_def) metis
qed

lemma find_app_simps:
  "(\<And>a. ka_id (f a) = ka_id a) \<Longrightarrow>
     findApp j (s\<lparr>ky_apps := upd_where (\<lambda>a. ka_id a = i) f (ky_apps s)\<rparr>) = map_option (\<lambda>a. if j = i then f a else a) (findApp j s)"
  "findApp j (s\<lparr>ky_auth := x\<rparr>) = findApp j s" "findApp j (recordAuditEntry i act u s) = findApp j s"
  "findApp j (kyc_emit e s) = findApp j s"
  by (simp_all add: findApp_def find_upd_where recordAuditEntry_def kyc_emit_def)

text \<open>The application \<open>i\<close> of user \<open>u\<close> has the status of the decision and the stage \<open>g\<close>, the account agrees with
  it, and every other application and user is as before.\<close>

definition decided :: "uuid \<Rightarrow> uuid \<Rightarrow> decision \<Rightarrow> kyc_stage \<Rightarrow> 's kyc_db \<Rightarrow> 's kyc_db \<Rightarrow> bool" where
  "decided i u d g s s' \<longleftrightarrow>
     (\<exists>a a'. findApp i s = Some a \<and> findApp i s' = Some a' \<and> ka_status a' = status_of d \<and> verificationStage a' = g \<and>
        ka_userId a' = ka_userId a \<and> ka_reviewedById a' = ka_reviewedById a) \<and>
     map_option u_kycStatus (findUser (ad_db (ky_auth s')) u) = Some (status_of d) \<and>
     (\<forall>j. j \<noteq> i \<longrightarrow> findApp j s' = findApp j s) \<and>
     (\<forall>v. v \<noteq> u \<longrightarrow> findUser (ad_db (ky_auth s')) v = findUser (ad_db (ky_auth s)) v)"

definition audit_row :: "kyc_action \<Rightarrow> uuid \<Rightarrow> uuid \<Rightarrow> kyc_audit" where
  "audit_row act i u = \<lparr>kx_action = act, kx_resourceId = i, kx_actorId = u, kx_actorRole = None\<rparr>"

lemma computeScore_reason: "sr_decisionReason (computeScore R C ocr m p q flags risk) \<noteq> PipelineUnavailable"
  unfolding computeScore_def Let_def makeDecision_def by (simp split: list.split)

lemma app_step:
  assumes "findApp i s = Some a" and "\<And>a. ka_id (f a) = ka_id a"
  shows "\<exists>s'. update_app i f s = (Inr (), s') \<and> findApp i s' = Some (f a) \<and> (\<forall>j. j \<noteq> i \<longrightarrow> findApp j s' = findApp j s) \<and>
      ky_auth s' = ky_auth s \<and> ky_audit s' = ky_audit s"
  using assms by (simp add: update_app_def find_app_simps option.map_ident)

lemma stage_step:
  assumes "findApp i s = Some a"
  shows "\<exists>s'. updateApplicationStage i g s = (Inr (), s') \<and>
      findApp i s' = Some (a\<lparr>ka_json := (ka_json a)\<lparr>kj_stage := Some g\<rparr>\<rparr>) \<and> (\<forall>j. j \<noteq> i \<longrightarrow> findApp j s' = findApp j s) \<and>
      ky_auth s' = ky_auth s \<and> ky_audit s' = ky_audit s"
  using assms unfolding updateApplicationStage_def by (rule app_step) simp

lemma patch_app_simps:
  "ka_id (patch_app R st d a) = ka_id a" "ka_userId (patch_app R st d a) = ka_userId a"
  "ka_status (patch_app R st d a) = st" "ka_reviewedById (patch_app R st d a) = ka_reviewedById a"
  by (simp_all add: patch_app_def)

lemma status_step:
  assumes "findApp i s = Some a"
  shows "\<exists>s'. updateApplicationStatus R i st d s = (Inr (), s') \<and>
      findApp i s' = Some (patch_app R st d a) \<and> (\<forall>j. j \<noteq> i \<longrightarrow> findApp j s' = findApp j s) \<and>
      ky_auth s' = ky_auth s \<and> ky_audit s' = ky_audit s"
  using assms unfolding updateApplicationStatus_def by (rule app_step) (simp add: patch_app_simps)

lemma user_step:
  assumes "findUser (ad_db (ky_auth s)) u = Some x"
  shows "\<exists>s'. updateUserKycStatus u st s = (Inr (), s') \<and> (\<forall>j. findApp j s' = findApp j s) \<and> ky_audit s' = ky_audit s \<and>
      findUser (ad_db (ky_auth s')) u = Some (x\<lparr>u_kycStatus := st\<rparr>) \<and>
      (\<forall>v. v \<noteq> u \<longrightarrow> findUser (ad_db (ky_auth s')) v = findUser (ad_db (ky_auth s)) v)"
  using assms
  by (simp add: updateUserKycStatus_def update_kyc_user_def findUser_def find_upd_where option.map_ident find_app_simps)

lemma log_simps:
  "ky_auth (recordAuditEntry i act u s) = ky_auth s" "ky_audit (recordAuditEntry i act u s) = ky_audit s @ [audit_row act i u]"
  "ky_auth (kyc_emit e s) = ky_auth s" "ky_audit (kyc_emit e s) = ky_audit s"
  by (simp_all add: recordAuditEntry_def kyc_emit_def audit_row_def)

lemma decision_outcome:
  assumes a: "findApp i s = Some a" and x: "findUser (ad_db (ky_auth s)) u = Some x" and p: "u_kycStatus x = KYC_PENDING"
  shows "\<exists>r s'. decision_stage E i u ocr im checked s = (Inr r, s') \<and> decided i u (vr_decision r) COMPLETE s s' \<and>
      vr_decisionReason r \<noteq> PipelineUnavailable \<and>
      ky_audit s' = ky_audit s @ [audit_row (VERIFICATION_COMPLETE (vr_decision r)) i u]"
proof -
  obtain m flags risk where c: "checked = (m, flags, risk)" by (rule prod_cases3)
  define sc where "sc = computeScore (ke_R E) (ke_config E) ocr m (ei_idQuality im) (ei_selfieQuality im) flags risk"
  define st where "st = status_of (sr_decision sc)"
  obtain s1 where s1: "updateApplicationStage i SCORING s = (Inr (), s1)" "ky_auth s1 = ky_auth s" "ky_audit s1 = ky_audit s"
      "\<And>j. j \<noteq> i \<Longrightarrow> findApp j s1 = findApp j s" and a1: "findApp i s1 = Some (a\<lparr>ka_json := (ka_json a)\<lparr>kj_stage := Some SCORING\<rparr>\<rparr>)"
    using stage_step [OF a] by blast
  obtain s2 where s2: "updateApplicationStage i DECIDING s1 = (Inr (), s2)" "ky_auth s2 = ky_auth s1" "ky_audit s2 = ky_audit s1"
      "\<And>j. j \<noteq> i \<Longrightarrow> findApp j s2 = findApp j s1" "findApp i s2 = Some (a\<lparr>ka_json := (ka_json a)\<lparr>kj_stage := Some DECIDING\<rparr>\<rparr>)"
    using stage_step [OF a1, of DECIDING] by auto
  define a2 where "a2 = a\<lparr>ka_json := (ka_json a)\<lparr>kj_stage := Some DECIDING\<rparr>\<rparr>"
  have a2: "ka_userId a2 = ka_userId a" "ka_reviewedById a2 = ka_reviewedById a" by (simp_all add: a2_def)
  define d where "d = no_patch\<lparr>pt_confidenceScore := Some (sr_compositeScore sc),
      pt_imageQualityScore := Some (sc_imageQuality (sr_scores sc)),
      pt_documentQualityScore := Some (sc_documentQuality (sr_scores sc)), pt_fraudScore := Some risk\<rparr>"
  obtain s3 where s3: "updateApplicationStatus (ke_R E) i st d s2 = (Inr (), s3)" "ky_auth s3 = ky_auth s2" "ky_audit s3 = ky_audit s2"
      "\<And>j. j \<noteq> i \<Longrightarrow> findApp j s3 = findApp j s2" "findApp i s3 = Some (patch_app (ke_R E) st d a2)"
    using status_step [OF s2(5)] unfolding a2_def by blast
  obtain s4 where s4: "(if st = KYC_APPROVED \<or> st = KYC_REJECTED then updateUserKycStatus u st s3 else (Inr (), s3)) = (Inr (), s4)"
      "ky_audit s4 = ky_audit s3" "\<And>j. findApp j s4 = findApp j s3"
      "map_option u_kycStatus (findUser (ad_db (ky_auth s4)) u) = Some st"
      "\<And>v. v \<noteq> u \<Longrightarrow> findUser (ad_db (ky_auth s4)) v = findUser (ad_db (ky_auth s3)) v"
  proof (cases "st = KYC_PENDING")
    case True
    with x p that [of s3] show ?thesis by (simp add: s3 s2 s1)
  next
    case False
    then have "st = KYC_APPROVED \<or> st = KYC_REJECTED" by (auto simp: st_def status_of_def split: decision.splits)
    then show ?thesis using user_step [of s3 u x st] x that by (auto simp: s3 s2 s1)
  qed
  obtain a5 s5 where s5: "updateApplicationStage i COMPLETE s4 = (Inr (), s5)" "ky_auth s5 = ky_auth s4" "ky_audit s5 = ky_audit s4"
      "\<And>j. j \<noteq> i \<Longrightarrow> findApp j s5 = findApp j s4" "findApp i s5 = Some a5" "ka_userId a5 = ka_userId a"
      "ka_reviewedById a5 = ka_reviewedById a" "ka_status a5 = st" "verificationStage a5 = COMPLETE"
  proof -
    have "findApp i s4 = Some (patch_app (ke_R E) st d a2)" by (simp add: s4(3) s3(5))
    from stage_step [OF this, of COMPLETE] show ?thesis by (auto intro!: that simp: patch_app_simps verificationStage_def a2)
  qed
  have "decision_stage E i u ocr im checked s =
      (Inr \<lparr>vr_confidenceScore = sr_compositeScore sc, vr_decision = sr_decision sc,
            vr_decisionReason = sr_decisionReason sc, vr_fraudFlags = flags\<rparr>,
       (let s7 = kyc_emit (KycVerificationComplete i u (sr_decision sc) (sr_compositeScore sc))
                (recordAuditEntry i (VERIFICATION_COMPLETE (sr_decision sc)) u s5)
        in case sr_decision sc of AUTO_APPROVED \<Rightarrow> kyc_emit (KycApproved u) s7
           | AUTO_REJECTED \<Rightarrow> kyc_emit (KycRejected u) s7 | AUTO_MANUAL_REVIEW \<Rightarrow> s7))"
    unfolding decision_stage_def c prod.case Let_def sc_def [symmetric] st_def [symmetric] d_def [symmetric]
    by (simp only: s1(1) s2(1) s3(1) s4(1) s5(1) and_then_simps)
  moreover have "sr_decisionReason sc \<noteq> PipelineUnavailable" by (simp add: sc_def computeScore_reason)
  ultimately show ?thesis using a s1 s2 s3 s4 s5
    by (auto simp: decided_def Let_def find_app_simps log_simps st_def split: decision.split)
qed

lemma and_then_Inr: "and_then m f = (Inr y, s') \<Longrightarrow> \<exists>x s1. m = (Inr x, s1) \<and> f x s1 = (Inr y, s')"
  by (auto simp: and_then_def split: prod.splits sum.splits)

lemma and_then_Inl:
  "and_then m f = (Inl e, s') \<Longrightarrow> m = (Inl e, s') \<or> (\<exists>x s1. m = (Inr x, s1) \<and> f x s1 = (Inl e, s'))"
  by (auto simp: and_then_def split: prod.splits sum.splits)

text \<open>Up to the decision the pipeline only prepares it.\<close>

definition before_decision ::
  "'s kyc_env \<Rightarrow> uuid \<Rightarrow> uuid \<Rightarrow> kyc_doc list \<Rightarrow> kyc_doc \<Rightarrow> kyc_doc \<Rightarrow> 's kyc_db
    \<Rightarrow> (err + ocr_result option \<times> enhanced_images \<times> (face_match \<times> fraud_flag list \<times> rat)) \<times> 's kyc_db" where
  "before_decision E i u documents idDoc selfieDoc s =
     and_then (enhancing_stage E i u idDoc selfieDoc s) (\<lambda>im s1.
     and_then (ocr_stage E i (List.find (\<lambda>d. kd_type d = NATIONAL_ID_BACK) documents) (ei_idForOcr im) s1) (\<lambda>ocrResult s2.
     and_then (Inr (), address_stage E i (List.find (\<lambda>d. kd_type d = PROOF_OF_RESIDENCE) documents) s2) (\<lambda>_ s3.
     and_then (face_stage E i im s3) (\<lambda>faces s4.
     and_then (fraud_stage E i u ocrResult im faces s4) (\<lambda>checked s5. (Inr (ocrResult, im, checked), s5))))))"

lemma and_then_assoc: "and_then (and_then m f) g = and_then m (\<lambda>x s. and_then (f x s) g)"
  by (auto simp: and_then_def split: prod.splits sum.splits)

lemma pipeline_split:
  "pipeline_body E i u documents idDoc selfieDoc s =
     and_then (before_decision E i u documents idDoc selfieDoc s)
       (\<lambda>(ocr, im, checked) s5. decision_stage E i u ocr im checked s5)"
  by (simp add: pipeline_body_def before_decision_def and_then_assoc Let_def)

lemma pending_before: "pending_frame i s (snd (before_decision E i u documents idDoc selfieDoc s))"
  unfolding before_decision_def by (intro pending.seq pending_stages pending.leaf pending_refl)

lemma submit_outcome:
  assumes a: "findApp i s = Some a" and x: "findUser (ad_db (ky_auth s)) u = Some x"
  shows "\<exists>s'. submit_for_review E i u s = (Inr (), s') \<and> findApp i s' = Some (patch_app (ke_R E) KYC_PENDING no_patch a) \<and>
      (\<forall>j. j \<noteq> i \<longrightarrow> findApp j s' = findApp j s) \<and> ky_audit s' = ky_audit s @ [audit_row KYC_SUBMITTED_FOR_REVIEW i u] \<and>
      findUser (ad_db (ky_auth s')) u = Some (x\<lparr>u_kycStatus := KYC_PENDING\<rparr>) \<and>
      (\<forall>v. v \<noteq> u \<longrightarrow> findUser (ad_db (ky_auth s')) v = findUser (ad_db (ky_auth s)) v)"
proof -
  obtain s1 where s1: "updateApplicationStatus (ke_R E) i KYC_PENDING no_patch s = (Inr (), s1)"
      "findApp i s1 = Some (patch_app (ke_R E) KYC_PENDING no_patch a)" "\<forall>j. j \<noteq> i \<longrightarrow> findApp j s1 = findApp j s"
      "ky_auth s1 = ky_auth s" "ky_audit s1 = ky_audit s"
    using status_step [OF a] by blast
  obtain s2 where s2: "updateUserKycStatus u KYC_PENDING s1 = (Inr (), s2)" "\<forall>j. findApp j s2 = findApp j s1"
      "ky_audit s2 = ky_audit s1" "findUser (ad_db (ky_auth s2)) u = Some (x\<lparr>u_kycStatus := KYC_PENDING\<rparr>)"
      "\<forall>v. v \<noteq> u \<longrightarrow> findUser (ad_db (ky_auth s2)) v = findUser (ad_db (ky_auth s1)) v"
    using user_step [of s1 u x KYC_PENDING] x s1(4) by auto
  show ?thesis using s1 s2 by (simp add: submit_for_review_def find_app_simps log_simps)
qed

lemma body_outcome:
  assumes a: "findApp i s = Some a" and st: "ka_status a = KYC_PENDING" and x: "findUser (ad_db (ky_auth s)) u = Some x"
    and p: "u_kycStatus x = KYC_PENDING"
  obtains (failed) e s' where "pipeline_body E i u documents idDoc selfieDoc s = (Inl e, s')" "pending_frame i s s'"
  | (run) r s' where "pipeline_body E i u documents idDoc selfieDoc s = (Inr r, s')"
      "decided i u (vr_decision r) COMPLETE s s'" "vr_decisionReason r \<noteq> PipelineUnavailable"
      "ky_audit s' = ky_audit s @ [audit_row (VERIFICATION_COMPLETE (vr_decision r)) i u]"
proof -
  obtain res s5 where b: "before_decision E i u documents idDoc selfieDoc s = (res, s5)" by (rule prod.exhaust)
  have fr: "pending_frame i s s5" using pending_before [of i s E u documents idDoc selfieDoc] by (simp add: b)
  show thesis
  proof (cases res)
    case (Inl e)
    with b fr show ?thesis by (intro failed [of e s5]) (simp_all add: pipeline_split)
  next
    case (Inr prep)
    obtain ocr im checked where prep: "prep = (ocr, im, checked)" by (rule prod_cases3)
    obtain a5 where a5: "findApp i s5 = Some a5" "ka_userId a5 = ka_userId a" "ka_reviewedById a5 = ka_reviewedById a"
      using framed_app(4) [OF fr a] by blast
    obtain r s' where r: "decision_stage E i u ocr im checked s5 = (Inr r, s')" "decided i u (vr_decision r) COMPLETE s5 s'"
      "vr_decisionReason r \<noteq> PipelineUnavailable"
      "ky_audit s' = ky_audit s5 @ [audit_row (VERIFICATION_COMPLETE (vr_decision r)) i u]"
      using decision_outcome [OF a5(1), of u x E ocr im checked] x p framed_app(1) [OF fr] by auto
    have "decided i u (vr_decision r) COMPLETE s s'"
      using r(2) a a5 framed_app(1,3) [OF fr] by (auto simp: decided_def)
    with b r Inr prep framed_app(2) [OF fr] show ?thesis by (intro run [of r s']) (simp_all add: pipeline_split)
  qed
qed

lemma run_outcome:
  assumes a: "findApp i s = Some a" and owner: "ka_userId a = u" and user: "findUser (ad_db (ky_auth s)) u = Some x"
    and docs: "getDocumentByType i NATIONAL_ID s = Some idDoc" "getDocumentByType i SELFIE s = Some selfieDoc"
  shows "\<exists>r s'. runPipeline E i u s = (Inr r, s') \<and>
      decided i u (vr_decision r) (if vr_decisionReason r = PipelineUnavailable then STAGE_FAILED else COMPLETE) s s' \<and>
      (vr_decisionReason r = PipelineUnavailable \<longrightarrow> vr_decision r = AUTO_MANUAL_REVIEW) \<and>
      ky_audit s' = ky_audit s @ [audit_row KYC_SUBMITTED_FOR_REVIEW i u,
        audit_row (if vr_decisionReason r = PipelineUnavailable then VERIFICATION_PIPELINE_FAILED
                   else VERIFICATION_COMPLETE (vr_decision r)) i u]"
proof -
  obtain s1 where s1: "submit_for_review E i u s = (Inr (), s1)"
      "findApp i s1 = Some (patch_app (ke_R E) KYC_PENDING no_patch a)" "\<forall>j. j \<noteq> i \<longrightarrow> findApp j s1 = findApp j s"
      "ky_audit s1 = ky_audit s @ [audit_row KYC_SUBMITTED_FOR_REVIEW i u]"
      "findUser (ad_db (ky_auth s1)) u = Some (x\<lparr>u_kycStatus := KYC_PENDING\<rparr>)"
      "\<forall>v. v \<noteq> u \<longrightarrow> findUser (ad_db (ky_auth s1)) v = findUser (ad_db (ky_auth s)) v"
    using submit_outcome [OF a user, of E] by blast
  define documents where "documents = getDocumentsByApplicationId i s"
  have found: "List.find (\<lambda>d. kd_type d = NATIONAL_ID) documents = Some idDoc"
      "List.find (\<lambda>d. kd_type d = SELFIE) documents = Some selfieDoc"
    using docs by (simp_all add: getDocumentByType_def documents_def)
  note run = runPipeline_def a option.case documents_def [symmetric] owner Let_def found prod.case s1(1) and_then_simps
  show ?thesis
  proof (rule body_outcome [OF s1(2) _ s1(5)])
    fix e s2 assume body: "pipeline_body E i u documents idDoc selfieDoc s1 = (Inl e, s2)" and fr: "pending_frame i s1 s2"
    obtain a2 where a2: "findApp i s2 = Some a2" "ka_userId a2 = ka_userId a" "ka_reviewedById a2 = ka_reviewedById a"
        "ka_status a2 = KYC_PENDING"
      using framed_app(4) [OF fr s1(2)] by (auto simp: patch_app_simps)
    obtain s3 where s3: "updateApplicationStage i STAGE_FAILED s2 = (Inr (), s3)"
        "findApp i s3 = Some (a2\<lparr>ka_json := (ka_json a2)\<lparr>kj_stage := Some STAGE_FAILED\<rparr>\<rparr>)"
        "\<forall>j. j \<noteq> i \<longrightarrow> findApp j s3 = findApp j s2" "ky_auth s3 = ky_auth s2" "ky_audit s3 = ky_audit s2"
      using stage_step [OF a2(1)] by blast
    have "runPipeline E i u s = (Inr \<lparr>vr_confidenceScore = 0, vr_decision = AUTO_MANUAL_REVIEW,
        vr_decisionReason = PipelineUnavailable, vr_fraudFlags = []\<rparr>, recordAuditEntry i VERIFICATION_PIPELINE_FAILED u s3)"
      by (simp add: run body s3)
    then show ?thesis using a a2 s1 s3 framed_app(1,2,3) [OF fr]
      by (simp add: decided_def find_app_simps log_simps status_of_def verificationStage_def)
  next
    fix r s2 assume body: "pipeline_body E i u documents idDoc selfieDoc s1 = (Inr r, s2)"
      "decided i u (vr_decision r) COMPLETE s1 s2" "vr_decisionReason r \<noteq> PipelineUnavailable"
      "ky_audit s2 = ky_audit s1 @ [audit_row (VERIFICATION_COMPLETE (vr_decision r)) i u]"
    have "runPipeline E i u s = (Inr r, s2)" by (simp add: run body)
    then show ?thesis using a s1 body by (auto simp: decided_def patch_app_simps)
  qed (simp_all add: patch_app_simps)
qed


section \<open>What an automatic approval rests on\<close>

definition keeps_number :: "uuid \<Rightarrow> 's kyc_db \<Rightarrow> 's kyc_db \<Rightarrow> bool" where
  "keeps_number i s s' \<longleftrightarrow> map_option ka_nationalIdNumber (findApp i s') = map_option ka_nationalIdNumber (findApp i s)"

interpretation number: state_frame "keeps_number i" for i :: uuid
  by unfold_locales (simp_all add: keeps_number_def)

lemma number_update_app:
  assumes "\<And>a. ka_id (f a) = ka_id a" and "\<And>a. ka_nationalIdNumber (f a) = ka_nationalIdNumber a"
  shows "keeps_number i s (snd (update_app i f s))"
  using assms by (simp add: keeps_number_def update_app_def find_app_simps option.map_comp comp_def)

lemma number_patch:
  "pt_nationalIdNumber d = None \<Longrightarrow> keeps_number i s (snd (updateApplicationStatus R i st d s))"
  unfolding updateApplicationStatus_def by (rule number_update_app) (simp_all add: patch_app_def patched_def)

lemma number_ops:
  "keeps_number i s (snd (updateApplicationStage i g s))"
  "keeps_number i s (snd (saveFraudFlags i flags s))"
  "keeps_number i s (snd (saveFaceEmbedding fr i src v c q s))"
proof -
  show "keeps_number i s (snd (saveFaceEmbedding fr i src v c q s))"
    by (simp add: keeps_number_def saveFaceEmbedding_def findApp_def split: option.split)
qed (auto simp: updateApplicationStage_def saveFraudFlags_def intro!: number_update_app)

lemma number_stages:
  "keeps_number i s (address_stage E i por s)"
  "keeps_number i s (snd (face_stage E i im s))"
  "keeps_number i s (snd (fraud_stage E i u ocr im faces s))"
proof -
  have save: "keeps_number i s (snd (save_embedding E i src f s))" for src f and s :: "'a kyc_db"
    by (auto simp: save_embedding_def number.Q_refl split: option.split intro!: number.seq number_ops)
  have patches: "pt_nationalIdNumber no_patch = None" by (simp add: no_patch_def)
  note intros = number.seq number_ops number.lifted number.branch number.leaf save number.Q_refl
  show "keeps_number i s (address_stage E i por s)"
    unfolding address_stage_def by (auto simp: number.Q_refl patches intro!: number_patch split: option.split sum.split)
  show "keeps_number i s (snd (face_stage E i im s))"
    unfolding face_stage_def by (intro intros)
  show "keeps_number i s (snd (fraud_stage E i u ocr im faces s))"
    unfolding fraud_stage_def Let_def case_prod_beta by (intro intros number_patch) (simp_all add: patches)
qed

lemma ocr_stage_trace:
  assumes "ocr_stage E i back picture s = (Inr ocr, s')" and "findApp i s \<noteq> None"
  shows "(ocr = None \<and> \<not> ke_ocrReady E) \<or>
    (\<exists>r front a. ocr = Some r \<and> ke_ocrReady E \<and> ke_extractFields E picture = Inr front \<and> r = merge_back E back front \<and>
       findApp i s' = Some a \<and> ka_nationalIdNumber a = map_option of_value (oc_nationalIdNumber r))"
proof -
  obtain s1 where s1: "updateApplicationStage i OCR_PROCESSING s = (Inr (), s1)" "findApp i s1 \<noteq> None"
    and rest: "(if \<not> ke_ocrReady E then (Inr None, s1) else
         and_then (lift_sum (ke_extractFields E picture) s1) (\<lambda>front s2.
           let ocrResult = merge_back E back front
           in and_then (saveOcrResult i ocrResult s2) (\<lambda>_ s3.
              and_then (lift_sum (dob_column ocrResult) s3) (\<lambda>dob s4.
              and_then (updateApplicationStatus (ke_R E) i KYC_PENDING
                  (no_patch\<lparr>pt_nationalIdNumber := Some (map_option of_value (oc_nationalIdNumber ocrResult)),
                            pt_dateOfBirth := Some dob, pt_ocr := Some ocrResult,
                            pt_ocrConfidence := Some (oc_overallConfidence ocrResult)\<rparr>) s4) (\<lambda>_ s5.
                (Inr (Some ocrResult), s5)))))) = (Inr ocr, s')"
    using and_then_Inr [OF assms(1) [unfolded ocr_stage_def]] stage_step [of i s] assms(2) by fastforce
  show ?thesis
  proof (cases "ke_ocrReady E")
    case True
    then show ?thesis using rest
      by (auto dest!: and_then_Inr simp: lift_sum_def Let_def updateApplicationStatus_def update_app_def find_app_simps
          patch_app_def patched_def split: if_split_asm)
  qed (use rest in simp)
qed

definition fraud_context_of ::
  "uuid \<Rightarrow> uuid \<Rightarrow> ocr_result option \<Rightarrow> face_match \<Rightarrow> enhanced_images \<Rightarrow> face_detection \<Rightarrow> fraud_context" where
  "fraud_context_of i u ocr m im selfieFace =
     \<lparr>fx_applicationId = i, fx_userId = u, fx_ocrResult = ocr, fx_faceMatchResult = m, fx_idImageQuality = ei_idQuality im,
      fx_selfieImageQuality = ei_selfieQuality im, fx_selfieEmbedding = fd_embedding selfieFace\<rparr>"

lemma fraud_stage_trace:
  assumes "fraud_stage E i u ocr im (idFace, selfieFace) s = (Inr (m, flags, risk), s')"
  shows "compareFaces (ke_R E) (ke_sqrt E) (ke_config E) idFace selfieFace = Inr m"
    and "\<exists>s4 b. pending_frame i s s4 \<and>
      runAllChecks (ke_R E) (ke_sqrt E) (ke_localDate E) (ke_config E) (fraud_context_of i u ocr m im selfieFace) s4 =
        Inr (flags, risk, b)"
proof -
  define before where "before m0 t = and_then (updateApplicationStatus (ke_R E) i KYC_PENDING
      (no_patch\<lparr>pt_facialMatchScore := Some (fm_similarity m0), pt_faceMatchConfidence := Some (fm_confidence m0)\<rparr>) t) (\<lambda>_ s3.
      updateApplicationStage i FRAUD_CHECKING s3)" for m0 :: face_match and t :: "'a kyc_db"
  have "fraud_stage E i u ocr im (idFace, selfieFace) s =
     and_then (updateApplicationStage i FACE_MATCHING s) (\<lambda>_ s1.
     and_then (lift_sum (compareFaces (ke_R E) (ke_sqrt E) (ke_config E) idFace selfieFace) s1) (\<lambda>m s2.
     and_then (before m s2) (\<lambda>_ s4.
     and_then (lift_sum (runAllChecks (ke_R E) (ke_sqrt E) (ke_localDate E) (ke_config E)
         (fraud_context_of i u ocr m im selfieFace) s4) s4) (\<lambda>(flags, riskScore, blocksApproval) s5.
     and_then (if flags = [] then (Inr (), s5) else saveFraudFlags i flags s5) (\<lambda>_ s6. (Inr (m, flags, riskScore), s6))))))"
    by (simp add: fraud_stage_def before_def fraud_context_of_def and_then_assoc Let_def)
  from assms [unfolded this] obtain s1 s2 s4 b where
      "updateApplicationStage i FACE_MATCHING s = (Inr (), s1)"
    and m: "compareFaces (ke_R E) (ke_sqrt E) (ke_config E) idFace selfieFace = Inr m" and "before m s1 = (Inr (), s4)"
    and c: "runAllChecks (ke_R E) (ke_sqrt E) (ke_localDate E) (ke_config E) (fraud_context_of i u ocr m im selfieFace) s4 =
        Inr (flags, risk, b)"
    by (auto dest!: and_then_Inr simp: lift_sum_def)
  moreover have "pending_frame i s (snd (and_then (updateApplicationStage i FACE_MATCHING s) (\<lambda>_ t. before m t)))"
    unfolding before_def by (intro pending.seq pending_ops)
  ultimately show "\<exists>s4 b. pending_frame i s s4 \<and>
      runAllChecks (ke_R E) (ke_sqrt E) (ke_localDate E) (ke_config E) (fraud_context_of i u ocr m im selfieFace) s4 =
        Inr (flags, risk, b)"
    by auto
  show "compareFaces (ke_R E) (ke_sqrt E) (ke_config E) idFace selfieFace = Inr m" by (rule m)
qed

text \<open>Without a critical flag the identity is new: neither the number nor the face belongs to an approved
  application.\<close>

lemma duplicate_matches_none:
  "duplicate_matches R mathSqrt v t existing = Inr [] \<Longrightarrow> (j, w, e) \<in> set existing \<Longrightarrow>
     \<exists>sim. cosineSimilarity R mathSqrt v e = Inr sim \<and> sim < t"
  by (induction existing) (auto split: sum.splits if_split_asm)

lemma no_critical_new_number:
  assumes "runAllChecks R mathSqrt localDate C c s = Inr (flags, risk, b)"
    and "\<not> list_ex (\<lambda>f. ff_severity f = CRITICAL) flags"
    and "fx_ocrResult c = Some r" and "map_option of_value (oc_nationalIdNumber r) = Some n" and "n \<noteq> []"
    and "findApp j s = Some other" and "j \<noteq> fx_applicationId c" and "ka_status other = KYC_APPROVED"
  shows "ka_nationalIdNumber other \<noteq> Some n"
proof -
  have "findApplicationByNationalId n (fx_applicationId c) s = None"
    using assms(1-5) by (cases "findApplicationByNationalId n (fx_applicationId c) s")
      (auto simp: runAllChecks_def checkDuplicateNationalId_def field_text_def Let_def split: sum.splits)
  moreover have "other \<in> set (ky_apps s)" "ka_id other = j"
    using assms(6) by (auto simp: findApp_def find_Some_iff)
  ultimately show ?thesis using assms(7,8) by (auto simp: findApplicationByNationalId_def find_None_iff)
qed

lemma no_critical_new_face:
  assumes "runAllChecks R mathSqrt localDate C c s = Inr (flags, risk, b)"
    and "\<not> list_ex (\<lambda>f. ff_severity f = CRITICAL) flags" and v: "fx_selfieEmbedding c = Some v"
    and "(k, w, e) \<in> set (getAllApprovedEmbeddings s)" and "w \<noteq> fx_userId c"
  shows "\<exists>sim. cosineSimilarity R mathSqrt v e = Inr sim \<and> sim < 55 / 100"
proof -
  let ?others = "filter (\<lambda>(i, u, e). u \<noteq> fx_userId c) (getAllApprovedEmbeddings s)"
  have other: "(k, w, e) \<in> set ?others" using assms(4,5) by simp
  then have some: "?others \<noteq> []" by (metis empty_iff list.set(1))
  have none: "checkDuplicateFace R mathSqrt C c s = Inr []"
    using assms(1,2) v some unfolding runAllChecks_def checkDuplicateFace_def Let_def
    by (auto split: sum.splits list.splits)
  then have "findDuplicates R mathSqrt C v ?others (Some (55 / 100)) = Inr []"
    using v some by (auto simp: checkDuplicateFace_def Let_def split: sum.splits list.splits)
  then have "duplicate_matches R mathSqrt v (55 / 100) ?others = Inr []"
    by (auto simp: findDuplicates_def split: sum.splits) (metis length_0_conv length_sort)
  from duplicate_matches_none [OF this other] show ?thesis .
qed

lemma decision_fields:
  assumes "decision_stage E i u ocr im (m, flags, risk) s = (Inr r, s')"
    and "sc = computeScore (ke_R E) (ke_config E) ocr m (ei_idQuality im) (ei_selfieQuality im) flags risk"
  shows "vr_decision r = sr_decision sc" and "vr_confidenceScore r = sr_compositeScore sc" and "vr_fraudFlags r = flags"
  using assms(1) unfolding decision_stage_def Let_def prod.case assms(2) [symmetric] by (auto dest!: and_then_Inr)

lemma number_decision: "keeps_number i s (snd (decision_stage E i u ocr im checked s))"
proof -
  have user: "keeps_number i t (snd (updateUserKycStatus u st t))" for st and t :: "'a kyc_db"
    by (simp add: keeps_number_def updateUserKycStatus_def update_kyc_user_def find_app_simps)
  have logged: "keeps_number i t (snd (x, case d of AUTO_APPROVED \<Rightarrow> kyc_emit e1 (kyc_emit e (recordAuditEntry j act v t))
      | AUTO_MANUAL_REVIEW \<Rightarrow> kyc_emit e (recordAuditEntry j act v t)
      | AUTO_REJECTED \<Rightarrow> kyc_emit e2 (kyc_emit e (recordAuditEntry j act v t))))" for x :: "err + 'c" and d e e1 e2 j act v and t :: "'a kyc_db"
    by (simp add: keeps_number_def find_app_simps split: decision.split)
  have patches: "pt_nationalIdNumber no_patch = None" by (simp add: no_patch_def)
  show ?thesis unfolding decision_stage_def Let_def case_prod_beta
    by (intro number.seq number_ops number.branch user logged number.leaf number.Q_refl number_patch) (simp_all add: patches)
qed

lemma before_trace:
  assumes "before_decision E i u documents idDoc selfieDoc s = (Inr (ocr, im, checked), s5)"
  obtains t1 t2 s1 s2 s4 idFace selfieFace where
    "enhance_images E idDoc selfieDoc = Inr (im, t1, t2)" "pending_frame i s s1"
    "ocr_stage E i (List.find (\<lambda>d. kd_type d = NATIONAL_ID_BACK) documents) (ei_idForOcr im) s1 = (Inr ocr, s2)"
    "keeps_number i s2 s5" "pending_frame i s s4" "ke_faceReady E \<or> idFace = no_face \<and> selfieFace = no_face"
    "ke_faceReady E \<Longrightarrow> ke_detectAndEmbed E (ei_id im) = Inr idFace \<and> ke_detectAndEmbed E (ei_selfie im) = Inr selfieFace"
    "fraud_stage E i u ocr im (idFace, selfieFace) s4 = (Inr checked, s5)"
proof -
  obtain s1 s2 s4 faces where st: "enhancing_stage E i u idDoc selfieDoc s = (Inr im, s1)"
    "ocr_stage E i (List.find (\<lambda>d. kd_type d = NATIONAL_ID_BACK) documents) (ei_idForOcr im) s1 = (Inr ocr, s2)"
    "face_stage E i im (address_stage E i (List.find (\<lambda>d. kd_type d = PROOF_OF_RESIDENCE) documents) s2) = (Inr faces, s4)"
    "fraud_stage E i u ocr im faces s4 = (Inr checked, s5)"
    using assms unfolding before_decision_def by (auto dest!: and_then_Inr)
  let ?por = "List.find (\<lambda>d. kd_type d = PROOF_OF_RESIDENCE) documents"
  obtain idFace selfieFace where f: "faces = (idFace, selfieFace)" by (rule prod.exhaust)
  obtain t1 t2 where im: "enhance_images E idDoc selfieDoc = Inr (im, t1, t2)"
    using st(1) unfolding enhancing_stage_def Let_def by (auto dest!: and_then_Inr simp: lift_sum_def)
  have p1: "pending_frame i s s1" using pending_stages(1) [of i s E u idDoc selfieDoc] st(1) by simp
  have "pending_frame i s1 s2" using pending_stages(2) [of i s1 E] st(2) by (metis snd_conv)
  moreover have "pending_frame i s2 (address_stage E i ?por s2)" by (rule pending_stages)
  moreover have "pending_frame i (address_stage E i ?por s2) s4"
    using pending_stages(4) [of i _ E im] st(3) by (metis snd_conv)
  ultimately have p4: "pending_frame i s s4" using p1 pending_trans by blast
  have "keeps_number i s2 (address_stage E i ?por s2)" "keeps_number i (address_stage E i ?por s2) s4" "keeps_number i s4 s5"
    using number_stages(1) [of i s2 E] number_stages(2) [of i _ E im] number_stages(3) [of i s4 E u ocr im faces] st(3,4)
    by (metis snd_conv)+
  then have n: "keeps_number i s2 s5" using number.Q_trans by blast
  have "ke_faceReady E \<or> idFace = no_face \<and> selfieFace = no_face"
    "ke_faceReady E \<Longrightarrow> ke_detectAndEmbed E (ei_id im) = Inr idFace \<and> ke_detectAndEmbed E (ei_selfie im) = Inr selfieFace"
    using st(3) f unfolding face_stage_def
    by (auto dest!: and_then_Inr simp: lift_sum_def split: if_split_asm)
  with im p1 st(2,4) n p4 f show thesis by (intro that [of t1 t2 s1 s2 s4 idFace selfieFace]) auto
qed

text \<open>What the providers promise: scores between zero and one.\<close>

definition providers_in_range :: "'s kyc_env \<Rightarrow> bool" where
  "providers_in_range E \<longleftrightarrow>
     (\<forall>b f. ke_detectAndEmbed E b = Inr f \<longrightarrow> 0 \<le> fd_qualityScore f) \<and>
     (\<forall>b q. ke_analyzeQuality E b = Inr q \<longrightarrow> unit_score (iq_overallScore q))"

lemma quality_in_range:
  assumes "enhance_images E idDoc selfieDoc = Inr (im, t1, t2)" and "providers_in_range E"
  shows "unit_score (iq_overallScore (ei_idQuality im))" and "unit_score (iq_overallScore (ei_selfieQuality im))"
  using assms by (auto simp: enhance_images_def bind_sum_def providers_in_range_def split: sum.splits)

lemma approval_gates:
  assumes R: "score_runtime R" and m: "compareFaces R mathSqrt kyc_defaults idFace selfieFace = Inr m"
    and q: "0 \<le> fd_qualityScore idFace" "0 \<le> fd_qualityScore selfieFace"
      "unit_score (iq_overallScore p)" "unit_score (iq_overallScore p')"
    and r: "r = computeScore R kyc_defaults ocr m p p' flags (computeRiskScore R flags)"
    and ok: "sr_decision r = AUTO_APPROVED"
  shows "85 / 100 \<le> sr_compositeScore r" "\<not> list_ex (\<lambda>f. ff_severity f = CRITICAL) flags"
    "\<not> list_ex (\<lambda>f. ff_severity f = HIGH) flags" "fm_isMatch m" "ocr \<noteq> None"
proof -
  have gates: "\<not> list_ex (\<lambda>f. ff_severity f = CRITICAL) flags" "\<not> list_ex (\<lambda>f. ff_severity f = HIGH) flags"
      "kc_autoApprove kyc_defaults \<le> sr_compositeScore r" "kc_minFaceMatch kyc_defaults \<le> computeFaceMatchScore R m"
    using ok unfolding computeScore_parts(2) [OF r] makeDecision_approved by auto
  then show "85 / 100 \<le> sr_compositeScore r" "\<not> list_ex (\<lambda>f. ff_severity f = CRITICAL) flags"
    "\<not> list_ex (\<lambda>f. ff_severity f = HIGH) flags" by (simp_all add: kyc_defaults_def)
  note mr = score_runtime.compareFaces_range [OF R m q(1,2)]
  then show "fm_isMatch m" using score_runtime.approval_needs_match [OF R _ _ gates(4)] by blast
  show "ocr \<noteq> None"
  proof
    assume none: "ocr = None"
    note k = score_runtime.composite_range(3) [OF R m q(1,2) _ q(3,4) r refl]
    have b: "computeFaceMatchScore R m \<le> 1" using score_runtime.faceMatchScore_range [OF R] mr by blast
    have c: "computeImageQualityScore p p' \<le> 1" using q(3,4) by (auto simp: unit_score_def computeImageQualityScore_def)
    have e: "max 0 (nsub R 1 (computeRiskScore R flags)) \<le> 1 + 1 / 1000000000"
      using score_runtime.fraudScore_range(2) [OF R score_runtime.riskScore_nonneg [OF R] score_runtime.riskScore_le_1 [OF R], of flags]
        score_runtime.riskScore_nonneg [OF R, of flags] by linarith
    have arith: "y < 85 / 100" if "y \<le> 0 * 30 / 100 + x * 40 / 100 + z * 15 / 100 + v * 10 / 100 + w * 5 / 100 + 2 / 10000"
        "x \<le> 1" "z \<le> 1" "v \<le> 1 + 1 / 100000000" "w \<le> 1 + 1 / 1000000000" for x y z v w :: rat
      using that by linarith
    have "sr_compositeScore r < 85 / 100"
      by (rule arith [OF _ b c score_runtime.documentQuality_range(2) [OF R, of ocr] e])
        (use k none in \<open>simp add: ocr_in_range_def computeOcrScore_def\<close>)
    with \<open>85 / 100 \<le> sr_compositeScore r\<close> show False by simp
  qed
qed

lemma run_trace:
  assumes "runPipeline E i u s = (Inr r, s')" and "vr_decision r = AUTO_APPROVED"
  obtains a idDoc selfieDoc s1 where "findApp i s = Some a" "ka_userId a = u"
    "getDocumentByType i NATIONAL_ID s = Some idDoc" "getDocumentByType i SELFIE s = Some selfieDoc"
    "submit_for_review E i u s = (Inr (), s1)"
    "pipeline_body E i u (getDocumentsByApplicationId i s) idDoc selfieDoc s1 = (Inr r, s')"
proof -
  obtain a where a: "findApp i s = Some a" "ka_userId a = u"
    using assms(1) by (auto simp: runPipeline_def split: option.splits if_split_asm)
  obtain idDoc selfieDoc where docs: "getDocumentByType i NATIONAL_ID s = Some idDoc" "getDocumentByType i SELFIE s = Some selfieDoc"
    using assms(1) a by (auto simp: runPipeline_def getDocumentByType_def Let_def split: option.splits)
  obtain s1 where s1: "submit_for_review E i u s = (Inr (), s1)"
    and rest: "(case pipeline_body E i u (getDocumentsByApplicationId i s) idDoc selfieDoc s1 of
                       (Inr r, s2) \<Rightarrow> (Inr r, s2)
                     | (Inl e, s2) \<Rightarrow>
                         and_then (updateApplicationStage i STAGE_FAILED s2) (\<lambda>_ s3.
                           (Inr \<lparr>vr_confidenceScore = 0, vr_decision = AUTO_MANUAL_REVIEW,
                                 vr_decisionReason = PipelineUnavailable, vr_fraudFlags = []\<rparr>,
                            recordAuditEntry i VERIFICATION_PIPELINE_FAILED u s3))) = (Inr r, s')"
    using assms(1) a docs by (auto simp: runPipeline_def getDocumentByType_def Let_def dest!: and_then_Inr)
  have "pipeline_body E i u (getDocumentsByApplicationId i s) idDoc selfieDoc s1 = (Inr r, s')"
    using rest assms(2) by (auto split: prod.splits sum.splits dest!: and_then_Inr)
  with a docs s1 show thesis by (rule that)
qed

lemma submit_trace:
  assumes "submit_for_review E i u s = (Inr (), s1)" and "findApp i s = Some a"
  shows "findApp i s1 = Some (patch_app (ke_R E) KYC_PENDING no_patch a)" "ky_embeddings s1 = ky_embeddings s"
    "j \<noteq> i \<Longrightarrow> findApp j s1 = findApp j s"
  using assms by (auto dest!: and_then_Inr simp: submit_for_review_def updateApplicationStatus_def update_app_def
      updateUserKycStatus_def update_kyc_user_def find_app_simps patch_app_simps option.map_ident kyc_emit_def
      recordAuditEntry_def findApp_def find_upd_where split: if_split_asm)

lemma frame_embedding:
  assumes "pending_frame i s s'" and "row \<in> set (ky_embeddings s)" and "fe_appId row \<noteq> i"
  shows "row \<in> set (ky_embeddings s')"
proof -
  have "row \<in> set (filter (\<lambda>e. fe_appId e \<noteq> i) (ky_embeddings s))" using assms(2,3) by simp
  then show ?thesis using assms(1) by (metis (mono_tags, lifting) filter_is_subset pending_frame_def subsetD)
qed

lemma approved_embedding_listed:
  assumes "row \<in> set (ky_embeddings s)" "fe_sourceType row = FromSelfie" "findApp (fe_appId row) s = Some a"
    "ka_status a = KYC_APPROVED"
  shows "(fe_id row, fe_userId row, fe_embedding row) \<in> set (getAllApprovedEmbeddings s)"
  using assms by (force simp: getAllApprovedEmbeddings_def)

lemma approval_evidence:
  assumes body: "pipeline_body E i u documents idDoc selfieDoc s1 = (Inr r, s')" and ok: "vr_decision r = AUTO_APPROVED"
    and a1: "findApp i s1 = Some a1" and R: "score_runtime (ke_R E)" and C: "ke_config E = kyc_defaults"
    and range: "providers_in_range E"
  obtains im t1 t2 idFace selfieFace x v similarity m risk b t rd a' where
    "enhance_images E idDoc selfieDoc = Inr (im, t1, t2)" "ke_ocrReady E" "ke_faceReady E"
    "ke_detectAndEmbed E (ei_id im) = Inr idFace" "ke_detectAndEmbed E (ei_selfie im) = Inr selfieFace"
    "fd_embedding idFace = Some x" "fd_embedding selfieFace = Some v"
    "cosineSimilarity (ke_R E) (ke_sqrt E) x v = Inr similarity" "45 / 100 \<le> similarity" "85 / 100 \<le> vr_confidenceScore r"
    "\<not> list_ex (\<lambda>f. ff_severity f = CRITICAL) (vr_fraudFlags r)" "\<not> list_ex (\<lambda>f. ff_severity f = HIGH) (vr_fraudFlags r)"
    "pending_frame i s1 t" "runAllChecks (ke_R E) (ke_sqrt E) (ke_localDate E) kyc_defaults
        (fraud_context_of i u (Some rd) m im selfieFace) t = Inr (vr_fraudFlags r, risk, b)"
    "findApp i s' = Some a'" "ka_nationalIdNumber a' = map_option of_value (oc_nationalIdNumber rd)"
proof -
  obtain ocr im m flags risk s5 where pre:
      "before_decision E i u documents idDoc selfieDoc s1 = (Inr (ocr, im, (m, flags, risk)), s5)"
    and dec: "decision_stage E i u ocr im (m, flags, risk) s5 = (Inr r, s')"
    using and_then_Inr [OF body [unfolded pipeline_split]] by auto
  from pre show thesis
  proof (rule before_trace)
    fix t1 t2 s2 s3 s4 idFace selfieFace
    assume im: "enhance_images E idDoc selfieDoc = Inr (im, t1, t2)" and fr2: "pending_frame i s1 s2"
      and ocr: "ocr_stage E i (List.find (\<lambda>d. kd_type d = NATIONAL_ID_BACK) documents) (ei_idForOcr im) s2 = (Inr ocr, s3)"
      and num: "keeps_number i s3 s5" and fr4: "pending_frame i s1 s4" and ready: "ke_faceReady E \<or> idFace = no_face \<and> selfieFace = no_face"
      and faces: "ke_faceReady E \<Longrightarrow> ke_detectAndEmbed E (ei_id im) = Inr idFace \<and> ke_detectAndEmbed E (ei_selfie im) = Inr selfieFace"
      and fraud: "fraud_stage E i u ocr im (idFace, selfieFace) s4 = (Inr (m, flags, risk), s5)"
    have m: "compareFaces (ke_R E) (ke_sqrt E) kyc_defaults idFace selfieFace = Inr m"
      using fraud_stage_trace(1) [OF fraud] by (simp add: C)
    obtain t b where fr: "pending_frame i s4 t" and checks: "runAllChecks (ke_R E) (ke_sqrt E) (ke_localDate E) kyc_defaults
        (fraud_context_of i u ocr m im selfieFace) t = Inr (flags, risk, b)"
      using fraud_stage_trace(2) [OF fraud] by (auto simp: C)
    have risk: "risk = computeRiskScore (ke_R E) flags" using checks by (auto simp: runAllChecks_def Let_def split: sum.splits)
    have q: "0 \<le> fd_qualityScore idFace" "0 \<le> fd_qualityScore selfieFace"
      using ready faces range by (auto simp: providers_in_range_def no_face_def)
    note fields = decision_fields [OF dec refl, unfolded C risk]
    note gates = approval_gates [OF R m q quality_in_range [OF im range] refl ok [unfolded fields(1)]]
    obtain x v similarity where e: "fd_embedding idFace = Some x" "fd_embedding selfieFace = Some v"
        "cosineSimilarity (ke_R E) (ke_sqrt E) x v = Inr similarity" "45 / 100 \<le> similarity"
      using m gates(4) by (auto simp: compareFaces_def kyc_defaults_def split: option.splits sum.splits)
    have face: "ke_faceReady E" using ready e(1) by (auto simp: no_face_def)
    obtain a2 where a2: "findApp i s2 \<noteq> None" using framed_app(4) [OF fr2 a1] by auto
    obtain rd front a3 where rd: "ocr = Some rd" "ke_ocrReady E" "findApp i s3 = Some a3"
        "ka_nationalIdNumber a3 = map_option of_value (oc_nationalIdNumber rd)"
      using ocr_stage_trace [OF ocr a2] gates(5) by auto
    have kept: "keeps_number i s3 s'"
      using number.Q_trans [OF num] number_decision [of i s5 E u ocr im "(m, flags, risk)"] dec by simp
    then obtain a' where a': "findApp i s' = Some a'" "ka_nationalIdNumber a' = map_option of_value (oc_nationalIdNumber rd)"
      using rd(3,4) by (auto simp: keeps_number_def)
    show thesis
      by (rule that [OF im rd(2) face _ _ e _ _ _ pending_trans [OF fr4 fr] _ a'])
        (use faces [OF face] gates(1-3) checks rd(1) in \<open>simp_all add: fields(2,3)\<close>)
  qed
qed

text \<open>C19. What an automatic approval rests on, with the default configuration and providers whose scores lie
  between zero and one: both the OCR and the face provider ran, the score reaches 0.85, no high or
  critical flag was raised, the number read from the card (when one was read) belongs to no other
  approved application, the faces found in the card and in the selfie are similar to at least 0.45, and
  the selfie is less than 0.55 similar to the selfie of every approved application of another person.\<close>

theorem automatic_approval_gated:
  assumes run: "runPipeline E i u s = (Inr r, s')" and ok: "vr_decision r = AUTO_APPROVED"
    and R: "score_runtime (ke_R E)" and C: "ke_config E = kyc_defaults" and range: "providers_in_range E"
  shows "ke_ocrReady E \<and> ke_faceReady E \<and> 85 / 100 \<le> vr_confidenceScore r \<and>
      \<not> list_ex (\<lambda>f. ff_severity f = CRITICAL \<or> ff_severity f = HIGH) (vr_fraudFlags r) \<and>
      (\<exists>a. findApp i s' = Some a \<and>
         (\<forall>n j other. ka_nationalIdNumber a = Some n \<and> n \<noteq> [] \<and> j \<noteq> i \<and> findApp j s = Some other \<and> ka_status other = KYC_APPROVED
            \<longrightarrow> ka_nationalIdNumber other \<noteq> Some n)) \<and>
      (\<exists>idDoc selfieDoc im thumbs idFace selfieFace x v similarity.
         getDocumentByType i NATIONAL_ID s = Some idDoc \<and> getDocumentByType i SELFIE s = Some selfieDoc \<and>
         enhance_images E idDoc selfieDoc = Inr (im, thumbs) \<and>
         ke_detectAndEmbed E (ei_id im) = Inr idFace \<and> ke_detectAndEmbed E (ei_selfie im) = Inr selfieFace \<and>
         fd_embedding idFace = Some x \<and> fd_embedding selfieFace = Some v \<and>
         cosineSimilarity (ke_R E) (ke_sqrt E) x v = Inr similarity \<and> 45 / 100 \<le> similarity \<and>
         (\<forall>row other. row \<in> set (ky_embeddings s) \<and> fe_sourceType row = FromSelfie \<and> fe_userId row \<noteq> u \<and> fe_appId row \<noteq> i \<and>
            findApp (fe_appId row) s = Some other \<and> ka_status other = KYC_APPROVED
            \<longrightarrow> (\<exists>c. cosineSimilarity (ke_R E) (ke_sqrt E) v (fe_embedding row) = Inr c \<and> c < 55 / 100)))"
proof -
  obtain a idDoc selfieDoc s1 where a: "findApp i s = Some a" and
    docs: "getDocumentByType i NATIONAL_ID s = Some idDoc" "getDocumentByType i SELFIE s = Some selfieDoc" and
    s1: "submit_for_review E i u s = (Inr (), s1)" and
    body: "pipeline_body E i u (getDocumentsByApplicationId i s) idDoc selfieDoc s1 = (Inr r, s')"
    by (rule run_trace [OF run ok])
  note s1 = submit_trace [OF s1 a]
  from body ok s1(1) R C range show ?thesis
  proof (rule approval_evidence)
    fix im t1 t2 idFace selfieFace x v similarity m risk b t rd a'
    assume im: "enhance_images E idDoc selfieDoc = Inr (im, t1, t2)" and ready: "ke_ocrReady E" "ke_faceReady E"
      and faces: "ke_detectAndEmbed E (ei_id im) = Inr idFace" "ke_detectAndEmbed E (ei_selfie im) = Inr selfieFace"
      and e: "fd_embedding idFace = Some x" "fd_embedding selfieFace = Some v"
        "cosineSimilarity (ke_R E) (ke_sqrt E) x v = Inr similarity" "45 / 100 \<le> similarity"
      and score: "85 / 100 \<le> vr_confidenceScore r"
      and gates: "\<not> list_ex (\<lambda>f. ff_severity f = CRITICAL) (vr_fraudFlags r)" "\<not> list_ex (\<lambda>f. ff_severity f = HIGH) (vr_fraudFlags r)"
      and frt: "pending_frame i s1 t" and checks: "runAllChecks (ke_R E) (ke_sqrt E) (ke_localDate E) kyc_defaults
        (fraud_context_of i u (Some rd) m im selfieFace) t = Inr (vr_fraudFlags r, risk, b)"
      and a': "findApp i s' = Some a'" "ka_nationalIdNumber a' = map_option of_value (oc_nationalIdNumber rd)"
    have others: "findApp j t = findApp j s" if "j \<noteq> i" for j using framed_app(3) [OF frt that] s1(3) [OF that] by simp
    have number: "ka_nationalIdNumber other \<noteq> Some n"
      if "ka_nationalIdNumber a' = Some n" "n \<noteq> []" "j \<noteq> i" "findApp j s = Some other" "ka_status other = KYC_APPROVED" for n j other
      using no_critical_new_number [OF checks gates(1), of rd n j other] that a'(2) others [of j]
      by (simp add: fraud_context_of_def)
    have picture: "\<exists>c. cosineSimilarity (ke_R E) (ke_sqrt E) v (fe_embedding row) = Inr c \<and> c < 55 / 100"
      if "row \<in> set (ky_embeddings s)" "fe_sourceType row = FromSelfie" "fe_userId row \<noteq> u" "fe_appId row \<noteq> i"
        "findApp (fe_appId row) s = Some other" "ka_status other = KYC_APPROVED" for row other
    proof -
      have "row \<in> set (ky_embeddings t)" using frame_embedding [OF frt, of row] that(1,4) s1(2) by simp
      then have "(fe_id row, fe_userId row, fe_embedding row) \<in> set (getAllApprovedEmbeddings t)"
        by (rule approved_embedding_listed) (use that others [of "fe_appId row"] in simp_all)
      from no_critical_new_face [OF checks gates(1) _ this] that(3) e(2) show ?thesis by (simp add: fraud_context_of_def)
    qed
    have clean: "\<not> list_ex (\<lambda>f. ff_severity f = CRITICAL \<or> ff_severity f = HIGH) (vr_fraudFlags r)"
      using gates by (auto simp: list_ex_iff)
    have n: "\<exists>a. findApp i s' = Some a \<and>
         (\<forall>n j other. ka_nationalIdNumber a = Some n \<and> n \<noteq> [] \<and> j \<noteq> i \<and> findApp j s = Some other \<and> ka_status other = KYC_APPROVED
            \<longrightarrow> ka_nationalIdNumber other \<noteq> Some n)"
      using a'(1) number by blast
    show ?thesis
      by (intro conjI ready score clean n
          exI [of _ idDoc] exI [of _ selfieDoc] exI [of _ im] exI [of _ "(t1, t2)"] exI [of _ idFace] exI [of _ selfieFace]
          exI [of _ x] exI [of _ v] exI [of _ similarity] docs im e faces)
        (use picture in blast)
  qed
qed

text \<open>A customer with the card and the selfie uploaded, and providers that read both well.\<close>

definition sample_kyc_env :: "kv kyc_env" where
  "sample_kyc_env =
     \<lparr>ke_R = pg_runtime 1000, ke_config = kyc_defaults, ke_sqrt = (\<lambda>x. x), ke_fround = (\<lambda>x. x),
      ke_localDate = (\<lambda>y m d. Some 2000), ke_nowYear = 2026, ke_redis = kv_redis,
      ke_setnx = (\<lambda>t k v ttl q. case rget kv_redis t k q of Some _ \<Rightarrow> (False, q) | None \<Rightarrow> (True, rsetex kv_redis t k ttl v q)),
      ke_sha256 = (\<lambda>b. ''h''), ke_upload = (\<lambda>dir name b. Inr (dir @ name, ''kyc'')), ke_signedUrl = Inr,
      ke_fetch = (\<lambda>url. Inr (True, [1])), ke_enhance = (\<lambda>mode b. Inr b), ke_analyzeQuality = (\<lambda>b. Inr sample_quality),
      ke_thumbnail = Inr, ke_ocrReady = True, ke_extractFields = (\<lambda>b. Inr sample_ocr), ke_extractMrzText = None,
      ke_extractRawText = (\<lambda>b. Inr []), ke_pdfText = (\<lambda>b. Inr []),
      ke_extractAddress = (\<lambda>t. \<lparr>ea_addressLine1 = None, ea_addressLine2 = None, ea_city = None, ea_district = None,
        ea_formatted = None, ea_confidence = 0\<rparr>),
      ke_faceReady = True, ke_detectAndEmbed = (\<lambda>b. Inr sample_face)\<rparr>"

definition sample_doc :: "uuid \<Rightarrow> document_type \<Rightarrow> kyc_doc" where
  "sample_doc i typ = \<lparr>kd_id = i, kd_appId = 1, kd_type = typ, kd_storageBucket = ''kyc'', kd_storageKey = ''k'',
     kd_mimeType = ''image/jpeg'', kd_sizeBytes = 1, kd_contentHash = None, kd_enhancedStorageKey = None,
     kd_thumbnailStorageKey = None, kd_uploadedAt = 0\<rparr>"

definition sample_kyc :: "kv kyc_db" where
  "sample_kyc = \<lparr>ky_auth = sample_auth, ky_apps = [new_app 1 7 None 0], ky_docs = [sample_doc 2 NATIONAL_ID, sample_doc 3 SELFIE],
     ky_embeddings = [], ky_audit = [], ky_events = [], ky_uid = 4\<rparr>"

lemma sample_documents:
  "getDocumentByType 1 NATIONAL_ID sample_kyc = Some (sample_doc 2 NATIONAL_ID)"
  "getDocumentByType 1 SELFIE sample_kyc = Some (sample_doc 3 SELFIE)"
  "findApp 1 sample_kyc = Some (new_app 1 7 None 0)"
  by (simp_all add: getDocumentByType_def getDocumentsByApplicationId_def sample_kyc_def sample_doc_def findApp_def new_app_def)

lemma sample_account:
  "findUser (ad_db (ky_auth sample_kyc)) 7 = Some \<lparr>u_id = 7, u_role = CUSTOMER, u_brokerId = None,
     u_kycStatus = KYC_APPROVED, u_deletedAt = None\<rparr>"
  by (simp add: sample_kyc_def sample_auth_def findUser_def)

lemma sample_run: "map_sum (\<lambda>_. ()) vr_decision (fst (runPipeline sample_kyc_env 1 7 sample_kyc)) = Inr AUTO_APPROVED"
  by code_simp


theorem automatic_approval_gated_witness:
  "\<exists>r s'. runPipeline sample_kyc_env 1 7 sample_kyc = (Inr r, s') \<and> vr_decision r = AUTO_APPROVED \<and>
     85 / 100 \<le> vr_confidenceScore r \<and> \<not> list_ex (\<lambda>f. ff_severity f = CRITICAL \<or> ff_severity f = HIGH) (vr_fraudFlags r)"
proof -
  obtain r s' where run: "runPipeline sample_kyc_env 1 7 sample_kyc = (Inr r, s')" "vr_decision r = AUTO_APPROVED"
    using sample_run by (cases "runPipeline sample_kyc_env 1 7 sample_kyc"; cases "fst (runPipeline sample_kyc_env 1 7 sample_kyc)") auto
  have "score_runtime (ke_R sample_kyc_env)" "ke_config sample_kyc_env = kyc_defaults" "providers_in_range sample_kyc_env"
    using sample_ranges by (auto simp: sample_kyc_env_def providers_in_range_def intro: pgs.score_runtime_axioms)
  from automatic_approval_gated [OF run this] run show ?thesis by blast
qed

end
