(* ===== verification/KycReview.thy ===== *)
theory KycReview
  imports Kyc
begin

text \<open>
  Who decides about an application: the broker's decisions of
  \<^verbatim>\<open>src/modules/admin/controllers/admin-kyc.controller.ts\<close> with
  \<^verbatim>\<open>src/modules/brokers/services/broker-scope.service.ts\<close>, the status override of
  \<^verbatim>\<open>admin-users.controller.ts\<close>, and the customer's endpoints of
  \<^verbatim>\<open>src/modules/kyc/controllers/kyc.controller.ts\<close>; then the applications as a transition system, in which
  every approval can be traced to an entry of the audit log.

  Each handler is the whole route: the permission its decorator asks for, the checks in the order of
  the code, the writes, the event and the audit entry.  Columns no code of the repository writes (the tier
  and the liveness score) are left out of the rows that are shown.
\<close>

section \<open>Broker scope\<close>

definition resolveScope :: "authenticated_user \<Rightarrow> 's kyc_db \<Rightarrow> err + uuid option" where
  "resolveScope admin s =
     (if ru_role admin \<noteq> BROKER then Inr None
      else case brokerIdOf (ad_db (ky_auth s)) (ru_id admin) of
        None \<Rightarrow> Inl (Forbidden (Msg ''Your account is not associated with a broker. Contact the platform administrator.''))
      | Some b \<Rightarrow>
          (case findBroker (ad_db (ky_auth s)) b of
             None \<Rightarrow> Inr (Some b)
           | Some x \<Rightarrow> if b_isActive x then Inr (Some b)
                        else Inl (Forbidden (Msg ''Your broker has been deactivated.''))))"

definition requireBrokerActor :: "authenticated_user \<Rightarrow> 's kyc_db \<Rightarrow> err + uuid option" where
  "requireBrokerActor admin s =
     (if ru_role admin \<noteq> BROKER
      then Inl (Forbidden (Msg ''Platform administrators have read-only access to broker operations. Only the owning broker can perform this action.''))
      else resolveScope admin s)"

definition assertUserInScope :: "uuid option \<Rightarrow> uuid \<Rightarrow> 's kyc_db \<Rightarrow> err + unit" where
  "assertUserInScope scope target s =
     (case scope of
        None \<Rightarrow> Inr ()
      | Some b \<Rightarrow> if brokerIdOf (ad_db (ky_auth s)) target = Some b then Inr ()
                   else Inl (Forbidden (Msg ''Resource not accessible'')))"

section \<open>What the reviewer is shown\<close>

definition isTerminal :: "kyc_status \<Rightarrow> bool" where
  "isTerminal k \<longleftrightarrow> k = KYC_APPROVED \<or> k = KYC_REJECTED"

definition isHumanReviewed :: "kyc_app \<Rightarrow> bool" where
  "isHumanReviewed a \<longleftrightarrow> isTerminal (ka_status a) \<and> ka_reviewedById a \<noteq> None"

definition REQUEST_DOCS_ALLOWED :: "kyc_status list" where
  "REQUEST_DOCS_ALLOWED = [KYC_PENDING, KYC_MANUAL_REVIEW, KYC_ADDITIONAL_DOCS]"

definition toPercent :: "runtime \<Rightarrow> rat option \<Rightarrow> rat option" where
  "toPercent R v = map_option (\<lambda>x. js_round2 R (nmul R x 100)) v"

record shown_ocr =
  so_fullName :: "string option"
  so_dateOfBirth :: "string option"
  so_nationalId :: "string option"
  so_documentNumber :: "string option"
  so_expiryDate :: "string option"
  so_address :: "string option"
  so_nationality :: "string option"
  so_gender :: "string option"

definition extractOcrData :: "ocr_result option \<Rightarrow> shown_ocr option" where
  "extractOcrData ocr =
     (case ocr of
        None \<Rightarrow> None
      | Some r \<Rightarrow>
          let fullName = field_text (oc_fullName r); dateOfBirth = field_text (oc_dateOfBirth r);
              nationalId = field_text (oc_nationalIdNumber r); documentNumber = field_text (oc_documentNumber r)
          in if fullName = None \<and> dateOfBirth = None \<and> nationalId = None \<and> documentNumber = None then None
             else Some \<lparr>so_fullName = fullName, so_dateOfBirth = dateOfBirth, so_nationalId = nationalId,
                        so_documentNumber = documentNumber, so_expiryDate = field_text (oc_expiryDate r),
                        so_address = field_text (oc_address r),
                        so_nationality = Option.bind (oc_nationality r) field_text, so_gender = field_text (oc_gender r)\<rparr>)"

definition extractOcrFieldConfidences :: "runtime \<Rightarrow> ocr_result option \<Rightarrow> (string \<times> int) list option" where
  "extractOcrFieldConfidences R ocr =
     (case ocr of
        None \<Rightarrow> None
      | Some r \<Rightarrow>
          let out = List.map_filter (\<lambda>(key, f). map_option (\<lambda>x. (key, \<lfloor>nmul R (of_confidence x) 100 + 1 / 2\<rfloor>)) f)
                [(''fullName'', oc_fullName r), (''nationalIdNumber'', oc_nationalIdNumber r),
                 (''dateOfBirth'', oc_dateOfBirth r), (''gender'', oc_gender r), (''documentNumber'', oc_documentNumber r),
                 (''expiryDate'', oc_expiryDate r), (''nationality'', Option.bind (oc_nationality r) (\<lambda>x. x))]
          in if out = [] then None else Some out)"

text \<open>The repository's mapper: the row with what it derives from the JSON value and the joined user.\<close>

record app_record =
  ar_row :: kyc_app
  ar_verificationStage :: kyc_stage
  ar_riskFlags :: "fraud_type list option"
  ar_reviewerNotes :: "string option"
  ar_firstName :: "string option"
  ar_lastName :: "string option"
  ar_email :: "string option"
  ar_emailVerified :: "bool option"
  ar_phone :: "string option"
  ar_phoneVerified :: "bool option"
  ar_documentType :: "document_type option"

definition account_of :: "uuid \<Rightarrow> 's kyc_db \<Rightarrow> credential option" where
  "account_of u s = List.find (\<lambda>c. cr_id c = u) (ad_credentials (ky_auth s))"

definition firstDocumentType :: "uuid \<Rightarrow> 's kyc_db \<Rightarrow> document_type option" where
  "firstDocumentType i s = (case getDocumentsByApplicationId i s of [] \<Rightarrow> None | d # _ \<Rightarrow> Some (kd_type d))"

definition mapApplication :: "'s kyc_db \<Rightarrow> kyc_app \<Rightarrow> app_record" where
  "mapApplication s a =
     (let c = account_of (ka_userId a) s
      in \<lparr>ar_row = a, ar_verificationStage = verificationStage a, ar_riskFlags = shown_riskFlags a,
          ar_reviewerNotes = (case ka_reviewNotes a of None \<Rightarrow> kj_reviewerNotes (ka_json a) | Some n \<Rightarrow> Some n),
          ar_firstName = map_option cr_firstName c, ar_lastName = map_option cr_lastName c,
          ar_email = Option.bind c cr_email, ar_emailVerified = map_option (\<lambda>x. cr_emailVerifiedAt x \<noteq> None) c,
          ar_phone = map_option cr_phone c, ar_phoneVerified = map_option (\<lambda>x. cr_phoneVerifiedAt x \<noteq> None) c,
          ar_documentType = firstDocumentType (ka_id a) s\<rparr>)"

text \<open>Rows after the cursor, oldest first; an unknown cursor leaves none.\<close>

definition getPendingApplications :: "nat \<Rightarrow> uuid option \<Rightarrow> 's kyc_db \<Rightarrow> app_record list" where
  "getPendingApplications limit cursor s =
     (let rows = sort_key ka_submittedAt (filter (\<lambda>a. ka_status a = KYC_PENDING) (ky_apps s))
      in map (mapApplication s) (take limit (case cursor of None \<Rightarrow> rows | Some c \<Rightarrow> drop 1 (dropWhile (\<lambda>a. ka_id a \<noteq> c) rows))))"

definition recordReview ::
  "runtime \<Rightarrow> uuid \<Rightarrow> string \<Rightarrow> review_decision \<Rightarrow> string option \<Rightarrow> string option \<Rightarrow> 's kyc_db \<Rightarrow> (err + unit) \<times> 's kyc_db" where
  "recordReview R i reviewerName dec reason notes s =
     update_app i (\<lambda>a. a\<lparr>ka_reviewedAt := Some (now R), ka_reviewedById := None, ka_reviewDecision := Some dec,
        ka_rejectionReason := reason, ka_reviewerName := Some reviewerName, ka_reviewNotes := notes,
        ka_json := (ka_json a)\<lparr>kj_reviewerNotes := notes\<rparr>\<rparr>) s"

record application_row =
  aw_id :: uuid
  aw_userId :: uuid
  aw_userName :: string
  aw_userEmail :: "string option"
  aw_userPhone :: string
  aw_city :: "string option"
  aw_emailVerified :: bool
  aw_phoneVerified :: bool
  aw_documentType :: "document_type option"
  aw_nationalIdNumber :: "string option"
  aw_ocrConfidence :: "rat option"
  aw_facialMatchScore :: "rat option"
  aw_riskFlags :: "fraud_type list"
  aw_status :: kyc_status
  aw_reviewDecision :: "review_decision option"
  aw_reviewerName :: "string option"
  aw_reviewNotes :: "string option"
  aw_reviewedAt :: "timestamp option"
  aw_submittedAt :: timestamp

text \<open>\<open>buildApplicationRow\<close> on a mapped record, the way \<open>getQueue\<close> calls it.  A match score of zero is a number
  here, and counts as no score.\<close>

definition buildApplicationRow :: "runtime \<Rightarrow> app_record \<Rightarrow> application_row" where
  "buildApplicationRow R r =
     (let a = ar_row r; str = (\<lambda>v. case v of None \<Rightarrow> [] | Some x \<Rightarrow> x);
          name = trimText (str (ar_firstName r) @ '' '' @ str (ar_lastName r))
      in \<lparr>aw_id = ka_id a, aw_userId = ka_userId a, aw_userName = (if name = [] then ''Unknown'' else name),
          aw_userEmail = ar_email r, aw_userPhone = str (ar_phone r), aw_city = ka_city a,
          aw_emailVerified = (ar_emailVerified r = Some True), aw_phoneVerified = (ar_phoneVerified r = Some True),
          aw_documentType = ar_documentType r, aw_nationalIdNumber = ka_nationalIdNumber a,
          aw_ocrConfidence = toPercent R (kj_ocrConfidence (ka_json a)),
          aw_facialMatchScore = toPercent R (if ka_facialMatchScore a = Some 0 then None else ka_facialMatchScore a),
          aw_riskFlags = (case ar_riskFlags r of None \<Rightarrow> [] | Some fs \<Rightarrow> fs), aw_status = ka_status a,
          aw_reviewDecision = ka_reviewDecision a, aw_reviewerName = ka_reviewerName a,
          aw_reviewNotes = (case ka_reviewNotes a of None \<Rightarrow> kj_reviewerNotes (ka_json a) | Some n \<Rightarrow> Some n),
          aw_reviewedAt = ka_reviewedAt a, aw_submittedAt = ka_submittedAt a\<rparr>)"

definition page_param :: "int \<Rightarrow> string option \<Rightarrow> int" where
  "page_param deflt v =
     (case v of None \<Rightarrow> deflt
      | Some x \<Rightarrow> (case parse_int x of None \<Rightarrow> deflt | Some n \<Rightarrow> if n = 0 then deflt else n))"

definition kyc_status_of :: "string \<Rightarrow> kyc_status option" where
  "kyc_status_of x =
     map_of [(''NOT_SUBMITTED'', KYC_NOT_SUBMITTED), (''PENDING'', KYC_PENDING), (''APPROVED'', KYC_APPROVED),
       (''REJECTED'', KYC_REJECTED), (''ADDITIONAL_DOCS'', KYC_ADDITIONAL_DOCS), (''MANUAL_REVIEW'', KYC_MANUAL_REVIEW)] x"

text \<open>A status the repository does not know is no filter.\<close>

definition getQueue ::
  "runtime \<Rightarrow> authenticated_user \<Rightarrow> string option \<Rightarrow> string option \<Rightarrow> string option \<Rightarrow> 's kyc_db
    \<Rightarrow> err + application_row list \<times> nat \<times> int \<times> int" where
  "getQueue R admin pageStr limitStr status s =
     bind_sum (permissionsGuard (Some [KYC_REVIEW]) (Some admin)) (\<lambda>_.
     bind_sum (resolveScope admin s) (\<lambda>scope.
       let page = max 1 (page_param 1 pageStr); limit = min (max 1 (page_param 50 limitStr)) 200;
           (apps, total, _, totalPages) =
             getQueuePage page limit (Option.bind status (\<lambda>x. kyc_status_of (toUpperCase x))) scope s
       in Inr (map (\<lambda>a. buildApplicationRow R (mapApplication s a)) apps, total, page, totalPages)))"

definition getCounts :: "authenticated_user \<Rightarrow> 's kyc_db \<Rightarrow> err + (kyc_status \<Rightarrow> nat)" where
  "getCounts admin s =
     bind_sum (permissionsGuard (Some [KYC_REVIEW]) (Some admin)) (\<lambda>_.
     bind_sum (resolveScope admin s) (\<lambda>scope.
       let notSubmittedCount = length (filter (\<lambda>u. u_kycStatus u = KYC_NOT_SUBMITTED \<and>
             (case scope of None \<Rightarrow> True | Some b \<Rightarrow> u_brokerId u = Some b \<and> u_role u = CUSTOMER)) (ky_users s))
       in Inr (\<lambda>k. (if k = KYC_NOT_SUBMITTED then notSubmittedCount else 0) + getCountsByStatus scope s k)))"

section \<open>Decisions\<close>

definition findScopedApplication :: "uuid \<Rightarrow> authenticated_user \<Rightarrow> 's kyc_db \<Rightarrow> err + kyc_app" where
  "findScopedApplication i admin s =
     bind_sum (resolveScope admin s) (\<lambda>scope.
       case List.find (\<lambda>a. ka_id a = i \<and> in_scope scope a s) (ky_apps s) of
         None \<Rightarrow> Inl (NotFound (Msg ''KYC application not found''))
       | Some a \<Rightarrow> Inr a)"

definition getReviewerName :: "authenticated_user \<Rightarrow> 's kyc_db \<Rightarrow> string" where
  "getReviewerName admin s =
     (case account_of (ru_id admin) s of
        Some c \<Rightarrow>
          if cr_firstName c \<noteq> [] \<or> cr_lastName c \<noteq> [] then trimText (cr_firstName c @ '' '' @ cr_lastName c)
          else (case ru_email admin of Some m \<Rightarrow> m | None \<Rightarrow> decimal (ru_id admin))
      | None \<Rightarrow> (case ru_email admin of Some m \<Rightarrow> m | None \<Rightarrow> decimal (ru_id admin)))"

text \<open>The transaction of a decision: both rows or none.\<close>

definition decide_tx :: "uuid \<Rightarrow> (kyc_app \<Rightarrow> kyc_app) \<Rightarrow> uuid \<Rightarrow> kyc_status \<Rightarrow> 's kyc_db \<Rightarrow> (err + unit) \<times> 's kyc_db" where
  "decide_tx i f u status s =
     (case and_then (update_app i f s) (\<lambda>_ s1. updateUserKycStatus u status s1) of
        (Inr _, s2) \<Rightarrow> (Inr (), s2) | (Inl e, _) \<Rightarrow> (Inl e, s))"

definition admin_log :: "kyc_action \<Rightarrow> uuid \<Rightarrow> authenticated_user \<Rightarrow> 's kyc_db \<Rightarrow> 's kyc_db" where
  "admin_log act resource admin s =
     s\<lparr>ky_audit := ky_audit s @ [\<lparr>kx_action = act, kx_resourceId = resource, kx_actorId = ru_id admin,
         kx_actorRole = Some (ru_role admin)\<rparr>]\<rparr>"

text \<open>The checks every decision starts with.\<close>

definition decidable_application :: "uuid \<Rightarrow> authenticated_user \<Rightarrow> 's kyc_db \<Rightarrow> err + kyc_app" where
  "decidable_application i admin s =
     bind_sum (requireBrokerActor admin s) (\<lambda>_.
     bind_sum (findScopedApplication i admin s) (\<lambda>app.
       if isHumanReviewed app
       then Inl (Conflict (Msg ''This application has already been reviewed by a person and cannot be changed.''))
       else Inr app))"

definition approve ::
  "runtime \<Rightarrow> uuid \<Rightarrow> string option \<Rightarrow> authenticated_user \<Rightarrow> 's kyc_db \<Rightarrow> (err + uuid \<times> string) \<times> 's kyc_db" where
  "approve R i notes admin s =
     and_then (lift_sum (permissionsGuard (Some [KYC_APPROVE]) (Some admin)) s) (\<lambda>_ s0.
     and_then (lift_sum (decidable_application i admin s0) s0) (\<lambda>app s1.
       let reviewerName = getReviewerName admin s1
       in and_then (decide_tx i (\<lambda>a. a\<lparr>ka_status := KYC_APPROVED, ka_reviewDecision := Some REVIEW_APPROVED,
              ka_reviewedAt := Some (now R), ka_reviewedById := Some (ru_id admin), ka_reviewerName := Some reviewerName,
              ka_reviewNotes := notes\<rparr>) (ka_userId app) KYC_APPROVED s1) (\<lambda>_ s2.
            (Inr (ka_userId app, reviewerName),
             admin_log ACTION_KYC_APPROVED i admin (kyc_emit (KycApproved (ka_userId app)) s2)))))"

definition reject ::
  "runtime \<Rightarrow> uuid \<Rightarrow> string \<Rightarrow> string option \<Rightarrow> authenticated_user \<Rightarrow> 's kyc_db \<Rightarrow> (err + uuid \<times> string) \<times> 's kyc_db" where
  "reject R i reason notes admin s =
     and_then (lift_sum (permissionsGuard (Some [KYC_APPROVE]) (Some admin)) s) (\<lambda>_ s0.
     if length reason < 10 \<or> 1000 < length reason then (Inl (BadRequest (Msg ''Validation failed'')), s0)
     else if trimText reason = [] then (Inl (Validation (Msg ''Reason is required.'')), s0)
     else
     and_then (lift_sum (decidable_application i admin s0) s0) (\<lambda>app s1.
       let reviewerName = getReviewerName admin s1
       in and_then (decide_tx i (\<lambda>a. a\<lparr>ka_status := KYC_REJECTED, ka_reviewDecision := Some REVIEW_REJECTED,
              ka_reviewedAt := Some (now R), ka_reviewedById := Some (ru_id admin), ka_reviewerName := Some reviewerName,
              ka_reviewNotes := notes, ka_rejectionReason := Some reason\<rparr>) (ka_userId app) KYC_REJECTED s1) (\<lambda>_ s2.
            (Inr (ka_userId app, reviewerName),
             admin_log ACTION_KYC_REJECTED i admin (kyc_emit (KycRejected (ka_userId app)) s2)))))"

definition VALID_DOCUMENT_SLOTS :: "string list" where
  "VALID_DOCUMENT_SLOTS = [''ID_FRONT'', ''ID_BACK'', ''NATIONAL_ID'', ''NATIONAL_ID_BACK'', ''PASSPORT_FRONT'',
     ''PASSPORT_BACK'', ''DRIVERS_LICENSE_FRONT'', ''DRIVERS_LICENSE_BACK'', ''SELFIE'', ''LIVENESS'', ''PROOF_OF_ADDRESS'']"

definition requestDocs ::
  "uuid \<Rightarrow> string list \<Rightarrow> string option \<Rightarrow> authenticated_user \<Rightarrow> 's kyc_db \<Rightarrow> (err + string) \<times> 's kyc_db" where
  "requestDocs i requiredDocuments message admin s =
     and_then (lift_sum (permissionsGuard (Some [KYC_APPROVE]) (Some admin)) s) (\<lambda>_ s0.
     if requiredDocuments = [] \<or> 5 < length requiredDocuments \<or> \<not> set requiredDocuments \<subseteq> set VALID_DOCUMENT_SLOTS
     then (Inl (BadRequest (Msg ''Validation failed'')), s0)
     else
     and_then (lift_sum (requireBrokerActor admin s0) s0) (\<lambda>_ s1.
     and_then (lift_sum (findScopedApplication i admin s1) s1) (\<lambda>app s2.
       if isTerminal (ka_status app)
       then (Inl (Conflict (Msg ''Cannot request documents for an application that has already been approved or rejected.'')), s2)
       else if ka_status app \<notin> set REQUEST_DOCS_ALLOWED
       then (Inl (Conflict (Msg ''Cannot request documents when application status is NOT_SUBMITTED.'')), s2)
       else
         let reviewerName = getReviewerName admin s2
         in and_then (requestAdditionalDocuments i (ru_id admin) reviewerName requiredDocuments message s2) (\<lambda>_ s3.
            and_then (updateUserKycStatus (ka_userId app) KYC_ADDITIONAL_DOCS s3) (\<lambda>_ s4.
              (Inr reviewerName,
               admin_log KYC_DOCS_REQUESTED i admin (recordAuditEntry i DOCS_REQUESTED (ru_id admin) s4)))))))"

definition saveOverrides :: "uuid \<Rightarrow> (string \<times> string) list \<Rightarrow> 's kyc_db \<Rightarrow> (err + unit) \<times> 's kyc_db" where
  "saveOverrides i overrides s =
     (if findApp i s = None then (Inl (PlainError (Msg ''KYC application not found'')), s)
      else update_app i (\<lambda>a. a\<lparr>ka_json := (ka_json a)\<lparr>kj_csdOverrides :=
             Some (filter (\<lambda>(k, v). trimText v \<noteq> []) overrides)\<rparr>\<rparr>) s)"

definition saveCsdData :: "uuid \<Rightarrow> (string \<times> string) list option \<Rightarrow> authenticated_user \<Rightarrow> 's kyc_db \<Rightarrow> (err + unit) \<times> 's kyc_db" where
  "saveCsdData i overrides admin s =
     and_then (lift_sum (permissionsGuard (Some [KYC_REVIEW]) (Some admin)) s) (\<lambda>_ s0.
     and_then (lift_sum (findScopedApplication i admin s0) s0) (\<lambda>_ s1.
     and_then (saveOverrides i (case overrides of None \<Rightarrow> [] | Some fs \<Rightarrow> fs) s1) (\<lambda>_ s2.
       (Inr (), admin_log KYC_CSD_FORM_EDITED i admin s2))))"

text \<open>\<open>updateKycStatus\<close>, the override: every application of the user gets the status, whatever it was.\<close>

definition validStatus :: "string \<Rightarrow> kyc_status option" where
  "validStatus status =
     map_of [(''NOT_SUBMITTED'', KYC_NOT_SUBMITTED), (''PENDING'', KYC_PENDING), (''APPROVED'', KYC_APPROVED),
       (''REJECTED'', KYC_REJECTED)] status"

definition updateKycStatus ::
  "runtime \<Rightarrow> uuid \<Rightarrow> string \<Rightarrow> authenticated_user \<Rightarrow> 's kyc_db \<Rightarrow> (err + unit) \<times> 's kyc_db" where
  "updateKycStatus R userId status admin s =
     and_then (lift_sum (permissionsGuard (Some [USERS_MANAGE]) (Some admin)) s) (\<lambda>_ s0.
     and_then (lift_sum (bind_sum (resolveScope admin s0) (\<lambda>scope. assertUserInScope scope userId s0)) s0) (\<lambda>_ s1.
       case findUser (ad_db (ky_auth s1)) userId of
         None \<Rightarrow> (Inl (NotFound (Msg ''User not found'')), s1)
       | Some user \<Rightarrow>
           (case validStatus status of
              None \<Rightarrow> (Inl (PlainError (Msg ''Invalid KYC status'')), s1)
            | Some k \<Rightarrow>
                and_then (updateUserKycStatus userId k s1) (\<lambda>_ s2.
                  (Inr (), admin_log (KYC_STATUS_OVERRIDE k) userId admin
                    (s2\<lparr>ky_apps := upd_where (\<lambda>a. ka_userId a = userId) (\<lambda>a. a\<lparr>ka_status := k, ka_reviewedAt := Some (now R),
                          ka_reviewedById := Some (ru_id admin)\<rparr>) (ky_apps s2)\<rparr>))))))"

section \<open>The customer's endpoints\<close>

record verify_job =
  vj_jobId :: string
  vj_applicationId :: uuid
  vj_userId :: uuid

definition own_application :: "uuid \<Rightarrow> uuid \<Rightarrow> 's kyc_db \<Rightarrow> err + kyc_app" where
  "own_application i u s =
     (case findApp i s of
        None \<Rightarrow> Inl (NotFound (Msg ''Application not found''))
      | Some a \<Rightarrow> if ka_userId a = u then Inr a else Inl (NotFound (Msg ''Application not found'')))"

definition has_document :: "document_type \<Rightarrow> uuid \<Rightarrow> 's kyc_db \<Rightarrow> bool" where
  "has_document typ i s = list_ex (\<lambda>d. kd_type d = typ) (getDocumentsByApplicationId i s)"

text \<open>What the two endpoints hand to the queue.\<close>

definition process :: "uuid \<Rightarrow> uuid \<Rightarrow> 's kyc_db \<Rightarrow> err + verify_job" where
  "process i u s =
     bind_sum (own_application i u s) (\<lambda>_.
       if \<not> has_document NATIONAL_ID i s \<or> \<not> has_document SELFIE i s
       then Inl (BadRequest (Msg ''Both national ID and selfie must be uploaded before processing''))
       else Inr \<lparr>vj_jobId = ''kyc-verify-'' @ decimal i, vj_applicationId = i, vj_userId = u\<rparr>)"

definition retry :: "runtime \<Rightarrow> uuid \<Rightarrow> uuid \<Rightarrow> 's kyc_db \<Rightarrow> err + verify_job" where
  "retry R i u s =
     bind_sum (own_application i u s) (\<lambda>_.
       Inr \<lparr>vj_jobId = ''kyc-retry-'' @ decimal i @ ''-'' @ show_int (now R), vj_applicationId = i, vj_userId = u\<rparr>)"

text \<open>\<open>KycProcessor.process\<close>\<close>

definition process_job :: "'s kyc_env \<Rightarrow> verify_job \<Rightarrow> 's kyc_db \<Rightarrow> (err + unit) \<times> 's kyc_db" where
  "process_job E j s = and_then (processVerification E (vj_applicationId j) (vj_userId j) s) (\<lambda>_ s1. (Inr (), s1))"

record status_response =
  sx_applicationId :: "uuid option"
  sx_status :: kyc_status
  sx_verificationStage :: "kyc_stage option"
  sx_confidenceScore :: "rat option"
  sx_submittedAt :: "timestamp option"
  sx_hasIdDocument :: bool
  sx_hasSelfie :: bool
  sx_canProcess :: bool

definition getStatus :: "uuid \<Rightarrow> 's kyc_db \<Rightarrow> status_response" where
  "getStatus u s =
     (case getApplicationByUserId u s of
        None \<Rightarrow> \<lparr>sx_applicationId = None, sx_status = KYC_NOT_SUBMITTED, sx_verificationStage = None, sx_confidenceScore = None,
                 sx_submittedAt = None, sx_hasIdDocument = False, sx_hasSelfie = False, sx_canProcess = False\<rparr>
      | Some a \<Rightarrow>
          let hasId = has_document NATIONAL_ID (ka_id a) s; hasSelfie = has_document SELFIE (ka_id a) s
          in \<lparr>sx_applicationId = Some (ka_id a), sx_status = ka_status a, sx_verificationStage = Some (verificationStage a),
              sx_confidenceScore = kj_confidenceScore (ka_json a), sx_submittedAt = Some (ka_submittedAt a),
              sx_hasIdDocument = hasId, sx_hasSelfie = hasSelfie,
              sx_canProcess = (hasId \<and> hasSelfie \<and> ka_status a \<in> {KYC_NOT_SUBMITTED, KYC_ADDITIONAL_DOCS})\<rparr>)"

record result_response =
  rr_decision :: decision
  rr_confidenceScore :: rat
  rr_decisionReason :: string
  rr_ocr :: rat
  rr_faceMatch :: rat
  rr_imageQuality :: rat
  rr_documentQuality :: rat
  rr_fraudRisk :: rat
  rr_fraudFlagCount :: nat
  rr_extractedName :: "string option"
  rr_extractedIdNumber :: "string option"
  rr_faceMatchSimilarity :: "rat option"

definition getResult :: "uuid \<Rightarrow> uuid \<Rightarrow> 's kyc_db \<Rightarrow> err + result_response" where
  "getResult i u s =
     bind_sum (own_application i u s) (\<lambda>a.
       let score = (\<lambda>v. case v of None \<Rightarrow> 0 | Some x \<Rightarrow> x); j = ka_json a
       in Inr \<lparr>rr_decision = (if ka_status a = KYC_APPROVED then AUTO_APPROVED
                              else if ka_status a = KYC_REJECTED then AUTO_REJECTED else AUTO_MANUAL_REVIEW),
               rr_confidenceScore = score (kj_confidenceScore j),
               rr_decisionReason = (case ka_rejectionReason a of None \<Rightarrow> [] | Some r \<Rightarrow> r),
               rr_ocr = score (kj_ocrConfidence j), rr_faceMatch = score (kj_faceMatchConfidence j),
               rr_imageQuality = score (kj_imageQualityScore j), rr_documentQuality = score (kj_documentQualityScore j),
               rr_fraudRisk = score (kj_fraudScore j),
               rr_fraudFlagCount = (case shown_riskFlags a of None \<Rightarrow> 0 | Some fs \<Rightarrow> length fs),
               rr_extractedName = Option.bind (kj_ocr j) (\<lambda>r. map_option of_value (oc_fullName r)),
               rr_extractedIdNumber = ka_nationalIdNumber a, rr_faceMatchSimilarity = ka_facialMatchScore a\<rparr>)"

text \<open>The linked bank account.  \<open>/.(?=.{4})/g\<close> on the digits of the number: all but the last four.\<close>

definition maskAccountNumber :: "string \<Rightarrow> string" where
  "maskAccountNumber n = replicate (length n - 4) (CHR ''*'') @ drop (length n - 4) n"

record linked_bank =
  lb_id :: uuid
  lb_userId :: uuid
  lb_bankName :: string
  lb_accountName :: string
  lb_accountNumberMasked :: string
  lb_accountNumberEncrypted :: string
  lb_isPrimary :: bool
  lb_createdAt :: timestamp
  lb_deleted :: bool

definition submitBankAccount ::
  "(string \<Rightarrow> string) \<Rightarrow> timestamp \<Rightarrow> uuid \<Rightarrow> uuid \<Rightarrow> uuid \<Rightarrow> string \<Rightarrow> string \<Rightarrow> string \<Rightarrow> 's kyc_db \<Rightarrow> linked_bank list \<Rightarrow> err + linked_bank list" where
  "submitBankAccount encrypt t newId u i bankName accountName accountNumber s banks =
     (if \<not> (list_all decimal_digit accountNumber \<and> 10 \<le> length accountNumber \<and> length accountNumber \<le> 20 \<and>
            bankName \<noteq> [] \<and> accountName \<noteq> [])
      then Inl (BadRequest (Msg ''Validation failed''))
      else if List.find (\<lambda>a. ka_id a = i \<and> ka_userId a = u) (ky_apps s) = None
      then Inl (NotFound (Msg ''KYC application not found''))
      else case List.find (\<lambda>b. lb_userId b = u \<and> \<not> lb_deleted b) banks of
        Some existing \<Rightarrow>
          Inr (upd_where (\<lambda>b. lb_id b = lb_id existing) (\<lambda>b. b\<lparr>lb_bankName := bankName, lb_accountName := accountName,
                 lb_accountNumberMasked := maskAccountNumber accountNumber,
                 lb_accountNumberEncrypted := encrypt accountNumber, lb_isPrimary := True\<rparr>) banks)
      | None \<Rightarrow>
          Inr (banks @ [\<lparr>lb_id = newId, lb_userId = u, lb_bankName = bankName, lb_accountName = accountName,
                         lb_accountNumberMasked = maskAccountNumber accountNumber,
                         lb_accountNumberEncrypted = encrypt accountNumber, lb_isPrimary = True, lb_createdAt = t, lb_deleted = False\<rparr>]))"

section \<open>Applications as a transition system\<close>

inductive kyc_step :: "'s kyc_env \<Rightarrow> 's kyc_db \<Rightarrow> 's kyc_db \<Rightarrow> bool" for E :: "'s kyc_env" where
  step_start: "kyc_step E s (snd (startApplication (E\<lparr>ke_R := R\<rparr>) u s))"
| step_upload: "kyc_step E s (snd (uploadDocument (E\<lparr>ke_R := R\<rparr>) i u typ fileName mimeType buffer s))"
| step_verify: "kyc_step E s (snd (process_job (E\<lparr>ke_R := R\<rparr>) j s))"
| step_approve: "kyc_step E s (snd (approve R i notes admin s))"
| step_reject: "kyc_step E s (snd (reject R i reason notes admin s))"
| step_requestDocs: "kyc_step E s (snd (requestDocs i docs message admin s))"
| step_override: "kyc_step E s (snd (updateKycStatus R u status admin s))"
| step_csd: "kyc_step E s (snd (saveCsdData i overrides admin s))"

section \<open>Every approval is accounted for\<close>

text \<open>An entry of the log that stands for an approval of application \<open>i\<close> of user \<open>u\<close>: the pipeline's decision, a
  broker's, or an override of the user's status by somebody who may manage users.\<close>

definition approves :: "uuid \<Rightarrow> uuid \<Rightarrow> kyc_audit \<Rightarrow> bool" where
  "approves i u e \<longleftrightarrow>
     kx_action e = VERIFICATION_COMPLETE AUTO_APPROVED \<and> kx_resourceId e = i \<or>
     kx_action e = ACTION_KYC_APPROVED \<and> kx_resourceId e = i \<and> kx_actorRole e = Some BROKER \<or>
     kx_action e = KYC_STATUS_OVERRIDE KYC_APPROVED \<and> kx_resourceId e = u \<and>
       (\<exists>r. kx_actorRole e = Some r \<and> USERS_MANAGE \<in> set (ROLE_PERMISSIONS r))"

definition overridden :: "uuid \<Rightarrow> kyc_audit \<Rightarrow> bool" where
  "overridden u e \<longleftrightarrow> kx_action e = KYC_STATUS_OVERRIDE KYC_APPROVED \<and> kx_resourceId e = u \<and>
     (\<exists>r. kx_actorRole e = Some r \<and> USERS_MANAGE \<in> set (ROLE_PERMISSIONS r))"

definition app_keys :: "'s kyc_db \<Rightarrow> (uuid \<times> uuid) set" where
  "app_keys s = (\<lambda>a. (ka_id a, ka_userId a)) ` set (ky_apps s)"

definition approved_apps :: "'s kyc_db \<Rightarrow> (uuid \<times> uuid) set" where
  "approved_apps s = (\<lambda>a. (ka_id a, ka_userId a)) ` {a \<in> set (ky_apps s). ka_status a = KYC_APPROVED}"

definition approved_users :: "'s kyc_db \<Rightarrow> uuid set" where
  "approved_users s = u_id ` {x \<in> set (ky_users s). u_kycStatus x = KYC_APPROVED}"

definition accountable :: "'s kyc_db \<Rightarrow> bool" where
  "accountable s \<longleftrightarrow>
     (\<forall>(i, u)\<in>approved_apps s. \<exists>e\<in>set (ky_audit s). approves i u e) \<and>
     (\<forall>u\<in>approved_users s. \<exists>e\<in>set (ky_audit s). overridden u e \<or> (\<exists>i. (i, u) \<in> app_keys s \<and> approves i u e))"

text \<open>An operation that approves nobody: the log only grows, no application is lost or changes its owner,
  and what is approved after it was approved before.\<close>

definition harmless :: "'s kyc_db \<Rightarrow> 's kyc_db \<Rightarrow> bool" where
  "harmless s s' \<longleftrightarrow> set (ky_audit s) \<subseteq> set (ky_audit s') \<and> app_keys s \<subseteq> app_keys s' \<and>
     approved_apps s' \<subseteq> approved_apps s \<and> approved_users s' \<subseteq> approved_users s"

interpretation harmless: state_frame harmless
  by unfold_locales (auto simp: harmless_def)

lemma accountable_harmless: "accountable s \<Longrightarrow> harmless s s' \<Longrightarrow> accountable s'"
  unfolding accountable_def harmless_def by blast

text \<open>An operation that approves application \<open>i\<close> of user \<open>u\<close> at most, and says so.\<close>

definition one_approval :: "uuid \<Rightarrow> uuid \<Rightarrow> 's kyc_db \<Rightarrow> 's kyc_db \<Rightarrow> bool" where
  "one_approval i u s s' \<longleftrightarrow> set (ky_audit s) \<subseteq> set (ky_audit s') \<and> app_keys s \<subseteq> app_keys s' \<and>
     (\<forall>v. (i, v) \<in> app_keys s' \<longrightarrow> (\<exists>e\<in>set (ky_audit s'). approves i v e)) \<and> (i, u) \<in> app_keys s' \<and>
     approved_apps s' \<subseteq> approved_apps s \<union> {(j, v) \<in> app_keys s'. j = i} \<and> approved_users s' \<subseteq> insert u (approved_users s)"

lemma accountable_one_approval:
  assumes "accountable s" and o: "one_approval i u s s'"
  shows "accountable s'"
  unfolding accountable_def
proof (intro conjI ballI)
  fix p assume "p \<in> approved_apps s'"
  moreover obtain j v where p: "p = (j, v)" by (rule prod.exhaust)
  ultimately consider "(j, v) \<in> approved_apps s" | "j = i" "(i, v) \<in> app_keys s'" using o by (auto simp: one_approval_def)
  then show "case p of (j, v) \<Rightarrow> \<exists>e\<in>set (ky_audit s'). approves j v e"
  proof cases
    case 1
    then obtain e where "e \<in> set (ky_audit s)" "approves j v e" using assms(1) by (auto simp: accountable_def)
    then show ?thesis using o p by (auto simp: one_approval_def)
  next
    case 2
    then show ?thesis using o p by (simp add: one_approval_def)
  qed
next
  fix v assume v: "v \<in> approved_users s'"
  show "\<exists>e\<in>set (ky_audit s'). overridden v e \<or> (\<exists>j. (j, v) \<in> app_keys s' \<and> approves j v e)"
  proof (cases "v = u")
    case True
    then show ?thesis using o unfolding one_approval_def by blast
  next
    case False
    then have "v \<in> approved_users s" using v o by (auto simp: one_approval_def)
    then have "\<exists>e\<in>set (ky_audit s). overridden v e \<or> (\<exists>j. (j, v) \<in> app_keys s \<and> approves j v e)"
      using assms(1) by (simp add: accountable_def)
    then show ?thesis using o unfolding one_approval_def by (meson subsetD)
  qed
qed

lemma keys_upd_where:
  assumes "\<And>a. ka_id (f a) = ka_id a" and "\<And>a. ka_userId (f a) = ka_userId a"
  shows "(\<lambda>a. (ka_id a, ka_userId a)) ` set (upd_where P f xs) = (\<lambda>a. (ka_id a, ka_userId a)) ` set xs"
proof -
  have "map (\<lambda>a. (ka_id a, ka_userId a)) (upd_where P f xs) = map (\<lambda>a. (ka_id a, ka_userId a)) xs"
    using assms by (intro map_upd_where) simp
  then show ?thesis by (metis set_map)
qed

lemma approved_upd_where:
  assumes "\<And>a. ka_id (f a) = ka_id a" and "\<And>a. ka_userId (f a) = ka_userId a"
    and "\<And>a. ka_status (f a) = KYC_APPROVED \<Longrightarrow> ka_status a = KYC_APPROVED"
  shows "(\<lambda>a. (ka_id a, ka_userId a)) ` {a \<in> set (upd_where P f xs). ka_status a = KYC_APPROVED} \<subseteq>
    (\<lambda>a. (ka_id a, ka_userId a)) ` {a \<in> set xs. ka_status a = KYC_APPROVED}"
  using assms by (auto simp: upd_where_def split: if_split_asm)

lemma harmless_apps:
  assumes "ky_apps s' = upd_where P f (ky_apps s)" "ky_auth s' = ky_auth s" "set (ky_audit s) \<subseteq> set (ky_audit s')"
    and "\<And>a. ka_id (f a) = ka_id a" and "\<And>a. ka_userId (f a) = ka_userId a"
    and "\<And>a. ka_status (f a) = KYC_APPROVED \<Longrightarrow> ka_status a = KYC_APPROVED"
  shows "harmless s s'"
  using assms approved_upd_where [OF assms(4-6), of P "ky_apps s"]
  by (simp add: harmless_def app_keys_def approved_apps_def approved_users_def keys_upd_where)

lemma harmless_pending: "pending_frame i s s' \<Longrightarrow> harmless s s'"
  by (auto simp: pending_frame_def keeps_row_def intro!: harmless_apps) (metis kyc_status.distinct(11))+

lemma harmless_same:
  "ky_apps s' = ky_apps s \<Longrightarrow> ky_auth s' = ky_auth s \<Longrightarrow> set (ky_audit s) \<subseteq> set (ky_audit s') \<Longrightarrow> harmless s s'"
  by (simp add: harmless_def app_keys_def approved_apps_def approved_users_def)

lemma harmless_update_app:
  assumes "\<And>a. ka_id (f a) = ka_id a" and "\<And>a. ka_userId (f a) = ka_userId a"
    and "\<And>a. ka_status (f a) = KYC_APPROVED \<Longrightarrow> ka_status a = KYC_APPROVED"
  shows "harmless s (snd (update_app i f s))"
proof (cases "findApp i s = None")
  case False
  then show ?thesis using assms by (auto simp: update_app_def intro: harmless_apps)
qed (simp add: update_app_def harmless.Q_refl)

lemma harmless_user:
  assumes "k \<noteq> KYC_APPROVED"
  shows "harmless s (snd (updateUserKycStatus u k s))"
  using assms by (auto simp: updateUserKycStatus_def update_kyc_user_def harmless.Q_refl)
    (auto simp: harmless_def app_keys_def approved_apps_def approved_users_def upd_where_def split: if_split_asm)

lemma harmless_log:
  "harmless s (recordAuditEntry i act u s)" "harmless s (kyc_emit e s)" "harmless s (admin_log act i admin s)"
  "harmless s (set_redis q s)"
  by (auto simp: recordAuditEntry_def kyc_emit_def admin_log_def set_redis_def harmless_def app_keys_def
      approved_apps_def approved_users_def)

lemmas harmless_intros = harmless.seq harmless.lifted harmless.branch harmless.leaf harmless.Q_refl

lemma harmless_submit: "harmless s (snd (submit_for_review E i u s))"
proof -
  have "harmless s (snd (updateApplicationStatus (ke_R E) i KYC_PENDING no_patch s))" for s :: "'a kyc_db"
    unfolding updateApplicationStatus_def by (rule harmless_update_app) (simp_all add: patch_app_simps)
  moreover have "harmless t (snd (Inr (), kyc_emit e (recordAuditEntry i act u t)))" for e act and t :: "'a kyc_db"
    by (simp add: harmless.Q_trans [OF harmless_log(1) harmless_log(2)])
  ultimately show ?thesis unfolding submit_for_review_def by (intro harmless_intros harmless_user) simp_all
qed

text \<open>At most the application \<open>i\<close> and the account \<open>u\<close> become approved.\<close>

definition touches :: "uuid \<Rightarrow> uuid \<Rightarrow> 's kyc_db \<Rightarrow> 's kyc_db \<Rightarrow> bool" where
  "touches i u s s' \<longleftrightarrow> set (ky_audit s) \<subseteq> set (ky_audit s') \<and> app_keys s' = app_keys s \<and>
     approved_apps s' \<subseteq> approved_apps s \<union> {(j, v) \<in> app_keys s. j = i} \<and> approved_users s' \<subseteq> insert u (approved_users s)"

interpretation touches: state_frame "touches i u" for i u :: uuid
  by unfold_locales (auto simp: touches_def)

lemma touches_update_app:
  assumes "\<And>a. ka_id (f a) = ka_id a" and "\<And>a. ka_userId (f a) = ka_userId a"
  shows "touches i u s (snd (update_app i f s))"
proof (cases "findApp i s = None")
  case False
  have "(\<lambda>a. (ka_id a, ka_userId a)) ` {a \<in> set (upd_where (\<lambda>a. ka_id a = i) f (ky_apps s)). ka_status a = KYC_APPROVED} \<subseteq>
      approved_apps s \<union> {(j, v) \<in> app_keys s. j = i}"
    using assms by (auto simp: approved_apps_def app_keys_def upd_where_def)
  with False keys_upd_where [OF assms] show ?thesis
    by (auto simp: update_app_def touches_def app_keys_def approved_users_def approved_apps_def)
qed (simp add: update_app_def touches.Q_refl)

lemma touches_user: "touches i u s (snd (updateUserKycStatus u k s))"
  by (auto simp: updateUserKycStatus_def update_kyc_user_def touches.Q_refl)
    (auto simp: touches_def app_keys_def approved_apps_def approved_users_def upd_where_def split: if_split_asm)

lemma touches_log:
  "touches i u s (recordAuditEntry j act v s)" "touches i u s (kyc_emit e s)" "touches i u s (admin_log act j admin s)"
  by (auto simp: recordAuditEntry_def kyc_emit_def admin_log_def touches_def app_keys_def approved_apps_def approved_users_def)

lemma touches_decision: "touches i u s (snd (decision_stage E i u ocr im checked s))"
proof -
  have stage: "touches i u t (snd (updateApplicationStage i g t))" for g and t :: "'a kyc_db"
    unfolding updateApplicationStage_def by (rule touches_update_app) simp_all
  have status: "touches i u t (snd (updateApplicationStatus R i k d t))" for R k d and t :: "'a kyc_db"
    unfolding updateApplicationStatus_def by (rule touches_update_app) (simp_all add: patch_app_simps)
  have logged: "touches i u t (snd (x, case d of AUTO_APPROVED \<Rightarrow> kyc_emit e1 (kyc_emit e (recordAuditEntry j act v t))
      | AUTO_MANUAL_REVIEW \<Rightarrow> kyc_emit e (recordAuditEntry j act v t)
      | AUTO_REJECTED \<Rightarrow> kyc_emit e2 (kyc_emit e (recordAuditEntry j act v t))))" for x :: "err + 'c" and d e e1 e2 j act v and t :: "'a kyc_db"
    by (cases d) (auto simp: recordAuditEntry_def kyc_emit_def touches_def app_keys_def approved_apps_def approved_users_def)
  show ?thesis unfolding decision_stage_def Let_def case_prod_beta
    by (intro touches.seq stage status touches.branch touches_user logged touches.leaf touches.Q_refl)
qed

lemma harmless_decision:
  assumes "fst (decision_stage E i u ocr im checked s) = Inr r" and "vr_decision r \<noteq> AUTO_APPROVED"
  shows "harmless s (snd (decision_stage E i u ocr im checked s))"
proof -
  obtain m flags risk where c: "checked = (m, flags, risk)" by (rule prod_cases3)
  define sc where "sc = computeScore (ke_R E) (ke_config E) ocr m (ei_idQuality im) (ei_selfieQuality im) flags risk"
  have "vr_decision r = sr_decision sc"
    using decision_fields(1) [of E i u ocr im m flags risk s r _ sc] assms(1) by (metis c sc_def prod.collapse)
  then have st: "status_of (sr_decision sc) \<noteq> KYC_APPROVED" using assms(2) by (auto simp: status_of_def split: decision.splits)
  have stage: "harmless t (snd (updateApplicationStage i g t))" for g and t :: "'a kyc_db"
    unfolding updateApplicationStage_def by (rule harmless_update_app) simp_all
  have status: "harmless t (snd (updateApplicationStatus R i (status_of (sr_decision sc)) d t))" for R d and t :: "'a kyc_db"
    unfolding updateApplicationStatus_def by (rule harmless_update_app) (use st in \<open>simp_all add: patch_app_simps\<close>)
  have logged: "harmless t (snd (x, case d of AUTO_APPROVED \<Rightarrow> kyc_emit e1 (kyc_emit e (recordAuditEntry j act v t))
      | AUTO_MANUAL_REVIEW \<Rightarrow> kyc_emit e (recordAuditEntry j act v t)
      | AUTO_REJECTED \<Rightarrow> kyc_emit e2 (kyc_emit e (recordAuditEntry j act v t))))" for x :: "err + 'c" and d e e1 e2 j act v and t :: "'a kyc_db"
    by (cases d) (auto simp: recordAuditEntry_def kyc_emit_def harmless_def app_keys_def approved_apps_def approved_users_def)
  show ?thesis unfolding decision_stage_def Let_def c prod.case sc_def [symmetric]
    by (intro harmless.seq stage status harmless.branch harmless_user [OF st] logged harmless.leaf harmless.Q_refl)
qed

lemma accountable_touches:
  assumes "accountable s" and "touches i u s s'" and "(i, u) \<in> app_keys s" and "e \<in> set (ky_audit s')" and "\<And>v. approves i v e"
  shows "accountable s'"
proof (rule accountable_one_approval [OF assms(1)])
  have "\<exists>e\<in>set (ky_audit s'). approves i v e" for v using assms(4,5) by blast
  then show "one_approval i u s s'" using assms(2,3) unfolding one_approval_def touches_def by simp
qed

lemma findApp_key: "findApp i s = Some a \<Longrightarrow> (i, ka_userId a) \<in> app_keys s"
  by (auto simp: findApp_def find_Some_iff app_keys_def)

lemma decision_accountable:
  assumes "accountable s" and a: "findApp i s = Some a" "ka_userId a = u" and x: "findUser (ad_db (ky_auth s)) u = Some x" "u_kycStatus x = KYC_PENDING"
  shows "accountable (snd (decision_stage E i u ocr im checked s))"
proof -
  obtain r s' where d: "decision_stage E i u ocr im checked s = (Inr r, s')"
    and log: "ky_audit s' = ky_audit s @ [audit_row (VERIFICATION_COMPLETE (vr_decision r)) i u]"
    using decision_outcome [OF a(1) x] by blast
  show ?thesis
  proof (cases "vr_decision r = AUTO_APPROVED")
    case True
    have "accountable s'"
      by (rule accountable_touches [OF assms(1), where e = "audit_row (VERIFICATION_COMPLETE AUTO_APPROVED) i u"])
        (use touches_decision [of i u s E ocr im checked] findApp_key [OF a(1)] a(2) d log True in
          \<open>simp_all add: approves_def audit_row_def\<close>)
    then show ?thesis by (simp add: d)
  next
    case False
    then show ?thesis using harmless_decision [of E i u ocr im checked s r] accountable_harmless [OF assms(1)] d by simp
  qed
qed

lemma body_accountable:
  assumes "accountable s" and a: "findApp i s = Some a" "ka_userId a = u" and x: "findUser (ad_db (ky_auth s)) u = Some x" "u_kycStatus x = KYC_PENDING"
  shows "accountable (snd (pipeline_body E i u documents idDoc selfieDoc s))"
proof -
  obtain res t where b: "before_decision E i u documents idDoc selfieDoc s = (res, t)" by (rule prod.exhaust)
  have fr: "pending_frame i s t" using pending_before [of i s E u documents idDoc selfieDoc] by (simp add: b)
  have acc: "accountable t" by (rule accountable_harmless [OF assms(1) harmless_pending [OF fr]])
  obtain a' where a': "findApp i t = Some a'" "ka_userId a' = u" using framed_app(4) [OF fr a(1)] a(2) by auto
  show ?thesis
  proof (cases res)
    case (Inr prep)
    obtain ocr im checked where "prep = (ocr, im, checked)" by (rule prod_cases3)
    then show ?thesis using decision_accountable [OF acc a', of x E ocr im checked] x framed_app(1) [OF fr]
      by (simp add: pipeline_split b Inr)
  qed (simp add: pipeline_split b acc)
qed

lemma submit_user:
  assumes "submit_for_review E i u s = (Inr (), s1)" and "findApp i s = Some a"
  shows "\<exists>x. findUser (ad_db (ky_auth s1)) u = Some x \<and> u_kycStatus x = KYC_PENDING"
proof (cases "findUser (ad_db (ky_auth s)) u")
  case None
  then show ?thesis using assms
    by (auto dest!: and_then_Inr simp: submit_for_review_def updateApplicationStatus_def update_app_def
        updateUserKycStatus_def update_kyc_user_def split: if_split_asm)
next
  case (Some x)
  then show ?thesis using submit_outcome [OF assms(2) Some, of E] assms(1) by auto
qed

lemma run_cases:
  obtains (refused) "snd (runPipeline E i u s) = s"
    | (run) a documents idDoc selfieDoc where "findApp i s = Some a" "ka_userId a = u"
        "runPipeline E i u s = and_then (submit_for_review E i u s) (\<lambda>_ s1.
           case pipeline_body E i u documents idDoc selfieDoc s1 of
             (Inr r, s2) \<Rightarrow> (Inr r, s2)
           | (Inl e, s2) \<Rightarrow> and_then (updateApplicationStage i STAGE_FAILED s2) (\<lambda>_ s3.
               (Inr \<lparr>vr_confidenceScore = 0, vr_decision = AUTO_MANUAL_REVIEW, vr_decisionReason = PipelineUnavailable,
                     vr_fraudFlags = []\<rparr>, recordAuditEntry i VERIFICATION_PIPELINE_FAILED u s3)))"
proof (cases "\<exists>a idDoc selfieDoc. findApp i s = Some a \<and> ka_userId a = u \<and>
    getDocumentByType i NATIONAL_ID s = Some idDoc \<and> getDocumentByType i SELFIE s = Some selfieDoc")
  case True
  then obtain a idDoc selfieDoc where a: "findApp i s = Some a" "ka_userId a = u"
    "getDocumentByType i NATIONAL_ID s = Some idDoc" "getDocumentByType i SELFIE s = Some selfieDoc" by blast
  show thesis by (rule run [OF a(1,2)]) (use a in \<open>simp add: runPipeline_def getDocumentByType_def Let_def\<close>)
next
  case False
  then show thesis
    by (intro refused) (auto simp: runPipeline_def getDocumentByType_def Let_def split: option.split)
qed

lemma run_accountable:
  assumes "accountable s"
  shows "accountable (snd (runPipeline E i u s))"
proof (rule run_cases [of E i u s])
  assume "snd (runPipeline E i u s) = s"
  then show ?thesis using assms by simp
next
  fix a documents idDoc selfieDoc
  assume run: "findApp i s = Some a" "ka_userId a = u" "runPipeline E i u s = and_then (submit_for_review E i u s) (\<lambda>_ s1.
           case pipeline_body E i u documents idDoc selfieDoc s1 of
             (Inr r, s2) \<Rightarrow> (Inr r, s2)
           | (Inl e, s2) \<Rightarrow> and_then (updateApplicationStage i STAGE_FAILED s2) (\<lambda>_ s3.
               (Inr \<lparr>vr_confidenceScore = 0, vr_decision = AUTO_MANUAL_REVIEW, vr_decisionReason = PipelineUnavailable,
                     vr_fraudFlags = []\<rparr>, recordAuditEntry i VERIFICATION_PIPELINE_FAILED u s3)))"
  obtain res s1 where s1: "submit_for_review E i u s = (res, s1)" by (rule prod.exhaust)
  have acc: "accountable s1" using accountable_harmless [OF assms harmless_submit [of s E i u]] by (simp add: s1)
  show ?thesis
  proof (cases res)
    case (Inr y)
    then have sub: "submit_for_review E i u s = (Inr (), s1)" using s1 by simp
    obtain x where x: "findUser (ad_db (ky_auth s1)) u = Some x" "u_kycStatus x = KYC_PENDING"
      using submit_user [OF sub run(1)] by blast
    obtain res2 s2 where b: "pipeline_body E i u documents idDoc selfieDoc s1 = (res2, s2)" by (rule prod.exhaust)
    have acc2: "accountable s2"
      using body_accountable [OF acc submit_trace(1) [OF sub run(1)] _ x, of E documents idDoc selfieDoc] run(2)
      by (simp add: b patch_app_simps)
    have stage: "harmless s2 (snd (updateApplicationStage i STAGE_FAILED s2))"
      unfolding updateApplicationStage_def by (rule harmless_update_app) simp_all
    have "harmless s2 (snd (and_then (updateApplicationStage i STAGE_FAILED s2) (\<lambda>_ s3. (x :: err + verification_result,
        recordAuditEntry i VERIFICATION_PIPELINE_FAILED u s3))))" for x
      by (intro harmless.seq stage harmless.leaf harmless_log)
    then show ?thesis using accountable_harmless [OF acc2] acc2 by (cases res2) (simp_all add: run(3) sub b)
  qed (simp add: run(3) s1 acc)
qed

lemma process_accountable:
  assumes "accountable s"
  shows "accountable (snd (process_job E j s))"
proof -
  let ?i = "vj_applicationId j" and ?u = "vj_userId j"
  obtain taken s1 where l: "acquire_lock E ?i ?u s = (taken, s1)" by (rule prod.exhaust)
  have s1: "accountable s1"
    using l accountable_harmless [OF assms harmless_log(4)] by (auto simp: acquire_lock_def Let_def case_prod_beta)
  obtain r s2 where run: "runPipeline E ?i ?u s1 = (r, s2)" by (rule prod.exhaust)
  have s2: "accountable s2" using run_accountable [OF s1, of E ?i ?u] by (simp add: run)
  have "accountable (release_lock E ?i s2)"
    unfolding release_lock_def by (rule accountable_harmless [OF s2 harmless_log(4)])
  with s1 show ?thesis
    by (cases r) (simp_all add: process_job_def processVerification_def l run and_then_def split: sum.split)
qed

lemma harmless_create:
  "harmless s (snd (createApplication t u s))" "harmless s (snd (createDocument t i typ bucket key mime n h s))"
  by (auto simp: createApplication_def createDocument_def harmless_def app_keys_def approved_apps_def approved_users_def new_app_def)

lemma harmless_customer:
  "harmless s (snd (startApplication E u s))" "harmless s (snd (uploadDocument E i u typ fileName mimeType buffer s))"
proof -
  have stage: "harmless t (snd (updateApplicationStage j g t))" for j g and t :: "'a kyc_db"
    unfolding updateApplicationStage_def by (rule harmless_update_app) simp_all
  have logged: "harmless t (snd (x, kyc_emit e (recordAuditEntry j act v t)))" for x :: "err + 'c" and e j act v and t :: "'a kyc_db"
    using harmless.Q_trans [OF harmless_log(1) harmless_log(2)] by simp
  have fresh: "harmless s (snd (and_then (createApplication (now (ke_R E)) u s) (\<lambda>i s1.
            (Inr i, kyc_emit (KycStarted i u) (recordAuditEntry i KYC_STARTED u s1)))))"
    by (intro harmless.seq harmless_create logged)
  show "harmless s (snd (startApplication E u s))"
    unfolding startApplication_def Let_def using fresh by (simp add: harmless.Q_refl split: option.split)
  have advance: "harmless t (snd (case stageAdvancement typ of None \<Rightarrow> (Inr (), t)
      | Some proposed \<Rightarrow> if STAGE_ORDER (verificationStage app) < STAGE_ORDER proposed
          then updateApplicationStage i proposed t else (Inr (), t)))" for app and t :: "'a kyc_db"
    using stage by (simp add: harmless.Q_refl split: option.split)
  show "harmless s (snd (uploadDocument E i u typ fileName mimeType buffer s))"
  proof (cases "findApp i s")
    case (Some app)
    show ?thesis unfolding uploadDocument_def Let_def Some option.case case_prod_beta
      by (intro harmless.branch harmless.seq harmless.lifted harmless_create advance logged harmless.leaf harmless.Q_refl)
  qed (simp add: uploadDocument_def harmless.Q_refl)
qed

lemma harmless_reviews:
  "harmless s (snd (reject R i reason notes admin s))" "harmless s (snd (requestDocs i docs message admin s))"
  "harmless s (snd (saveCsdData i overrides admin s))"
proof -
  have decide: "harmless t (snd (decide_tx i f u KYC_REJECTED t))"
    if "\<And>a. ka_id (f a) = ka_id a" "\<And>a. ka_userId (f a) = ka_userId a" "\<And>a. ka_status (f a) \<noteq> KYC_APPROVED" for f u and t :: "'a kyc_db"
  proof -
    have "harmless t (snd (and_then (update_app i f t) (\<lambda>_ t1. updateUserKycStatus u KYC_REJECTED t1)))"
      by (intro harmless.seq harmless_update_app harmless_user) (use that in auto)
    then show ?thesis by (auto simp: decide_tx_def harmless.Q_refl split: prod.split sum.split)
  qed
  have emitted: "harmless t (snd (x, admin_log act j admin (kyc_emit e t)))" for x :: "err + 'c" and act j e and t :: "'a kyc_db"
    using harmless.Q_trans [OF harmless_log(2) harmless_log(3)] by simp
  show "harmless s (snd (reject R i reason notes admin s))"
    unfolding reject_def Let_def by (intro harmless_intros decide emitted) simp_all
  have logged: "harmless t (snd (x, admin_log act j admin (recordAuditEntry j act2 v t)))" for x :: "err + 'c" and act act2 j v and t :: "'a kyc_db"
    using harmless.Q_trans [OF harmless_log(1) harmless_log(3)] by simp
  have ask: "harmless t (snd (requestAdditionalDocuments i v name docs message t))" for v name and t :: "'a kyc_db"
    unfolding requestAdditionalDocuments_def by (rule harmless_update_app) simp_all
  show "harmless s (snd (requestDocs i docs message admin s))"
    unfolding requestDocs_def Let_def by (intro harmless_intros ask harmless_user logged) simp_all
  have save: "harmless t (snd (saveOverrides i os t))" for os and t :: "'a kyc_db"
    unfolding saveOverrides_def by (intro harmless_intros harmless_update_app) simp_all
  show "harmless s (snd (saveCsdData i overrides admin s))"
    unfolding saveCsdData_def by (intro harmless_intros save harmless_log)
qed

lemma decidable_trace:
  assumes "decidable_application i admin s = Inr app"
  shows "ru_role admin = BROKER" "app \<in> set (ky_apps s)" "ka_id app = i" "\<not> isHumanReviewed app"
    "\<exists>b. brokerIdOf (ad_db (ky_auth s)) (ru_id admin) = Some b \<and> brokerIdOf (ad_db (ky_auth s)) (ka_userId app) = Some b \<and>
       (\<forall>x. findBroker (ad_db (ky_auth s)) b = Some x \<longrightarrow> b_isActive x)"
proof -
  obtain scope where sc: "requireBrokerActor admin s = Inr scope" and f: "findScopedApplication i admin s = Inr app"
    and n: "\<not> isHumanReviewed app"
    using assms by (auto simp: decidable_application_def bind_sum_def split: sum.splits if_split_asm)
  have r: "ru_role admin = BROKER" "resolveScope admin s = Inr scope" using sc by (auto simp: requireBrokerActor_def split: if_split_asm)
  obtain b where b: "brokerIdOf (ad_db (ky_auth s)) (ru_id admin) = Some b" "scope = Some b"
      "\<forall>x. findBroker (ad_db (ky_auth s)) b = Some x \<longrightarrow> b_isActive x"
    using r by (auto simp: resolveScope_def split: option.splits if_split_asm)
  have app: "List.find (\<lambda>a. ka_id a = i \<and> in_scope (Some b) a s) (ky_apps s) = Some app"
    using f r(2) b(2) by (auto simp: findScopedApplication_def bind_sum_def split: option.splits)
  then have "app \<in> set (ky_apps s)" "ka_id app = i" "brokerIdOf (ad_db (ky_auth s)) (ka_userId app) = Some b"
    by (auto simp: find_Some_iff in_scope_def)
  with r n b show "ru_role admin = BROKER" "app \<in> set (ky_apps s)" "ka_id app = i" "\<not> isHumanReviewed app"
    "\<exists>b. brokerIdOf (ad_db (ky_auth s)) (ru_id admin) = Some b \<and> brokerIdOf (ad_db (ky_auth s)) (ka_userId app) = Some b \<and>
       (\<forall>x. findBroker (ad_db (ky_auth s)) b = Some x \<longrightarrow> b_isActive x)" by auto
qed

lemma decide_tx_cases:
  obtains (failed) e where "decide_tx i f u k s = (Inl e, s)"
  | (committed) s1 s2 where "decide_tx i f u k s = (Inr (), s2)" "update_app i f s = (Inr (), s1)" "updateUserKycStatus u k s1 = (Inr (), s2)"
proof -
  obtain r1 s1 where 1: "update_app i f s = (r1, s1)" by (rule prod.exhaust)
  obtain r2 s2 where 2: "updateUserKycStatus u k s1 = (r2, s2)" by (rule prod.exhaust)
  show thesis using 1 2 failed committed by (cases r1; cases r2) (simp_all add: decide_tx_def)
qed

lemma approve_accountable:
  assumes "accountable s"
  shows "accountable (snd (approve R i notes admin s))"
proof (cases "permissionsGuard (Some [KYC_APPROVE]) (Some admin)"; cases "decidable_application i admin s")
  fix y app assume g: "permissionsGuard (Some [KYC_APPROVE]) (Some admin) = Inr y" and d: "decidable_application i admin s = Inr app"
  note app = decidable_trace [OF d]
  define f where "f a = a\<lparr>ka_status := KYC_APPROVED, ka_reviewDecision := Some REVIEW_APPROVED,
      ka_reviewedAt := Some (now R), ka_reviewedById := Some (ru_id admin), ka_reviewerName := Some (getReviewerName admin s),
      ka_reviewNotes := notes\<rparr>" for a :: kyc_app
  note run = approve_def g d lift_sum_def and_then_simps Let_def f_def [symmetric]
  show ?thesis
  proof (rule decide_tx_cases [of i f "ka_userId app" KYC_APPROVED s])
    fix e assume "decide_tx i f (ka_userId app) KYC_APPROVED s = (Inl e, s)"
    then show ?thesis using assms by (simp add: run)
  next
    fix s1 s2 assume t: "decide_tx i f (ka_userId app) KYC_APPROVED s = (Inr (), s2)" "update_app i f s = (Inr (), s1)"
        "updateUserKycStatus (ka_userId app) KYC_APPROVED s1 = (Inr (), s2)"
    let ?s' = "admin_log ACTION_KYC_APPROVED i admin (kyc_emit (KycApproved (ka_userId app)) s2)"
    have "touches i (ka_userId app) s s1" using touches_update_app [of f i "ka_userId app" s] t(2) by (simp add: f_def)
    moreover have "touches i (ka_userId app) s1 s2" using touches_user [of i "ka_userId app" s1 KYC_APPROVED] t(3) by simp
    ultimately have "touches i (ka_userId app) s ?s'"
      using touches.Q_trans touches_log(2,3) by meson
    moreover have "(i, ka_userId app) \<in> app_keys s" using app(2,3) by (auto simp: app_keys_def)
    ultimately have "accountable ?s'"
      by (rule accountable_touches [OF assms, where e = "\<lparr>kx_action = ACTION_KYC_APPROVED, kx_resourceId = i,
            kx_actorId = ru_id admin, kx_actorRole = Some (ru_role admin)\<rparr>"])
        (use app(1) in \<open>simp_all add: admin_log_def approves_def\<close>)
    then show ?thesis by (simp add: run t(1))
  qed
qed (simp_all add: approve_def lift_sum_def assms)

lemma override_cases:
  obtains (refused) "snd (updateKycStatus R u status admin s) = s"
    | (written) k s2 where "USERS_MANAGE \<in> set (ROLE_PERMISSIONS (ru_role admin))" "updateUserKycStatus u k s = (Inr (), s2)"
        "snd (updateKycStatus R u status admin s) = admin_log (KYC_STATUS_OVERRIDE k) u admin
          (s2\<lparr>ky_apps := upd_where (\<lambda>a. ka_userId a = u) (\<lambda>a. a\<lparr>ka_status := k, ka_reviewedAt := Some (now R),
             ka_reviewedById := Some (ru_id admin)\<rparr>) (ky_apps s2)\<rparr>)"
proof (cases "permissionsGuard (Some [USERS_MANAGE]) (Some admin)")
  case (Inl e)
  then show thesis by (intro refused) (simp add: updateKycStatus_def lift_sum_def)
next
  case (Inr y)
  then have perm: "USERS_MANAGE \<in> set (ROLE_PERMISSIONS (ru_role admin))" by (simp add: permissionsGuard_def split: if_split_asm)
  show thesis
  proof (cases "bind_sum (resolveScope admin s) (\<lambda>scope. assertUserInScope scope u s)")
    case Inl2: (Inl e)
    then show thesis by (intro refused) (simp add: updateKycStatus_def lift_sum_def Inr)
  next
    case Inr2: (Inr z)
    show thesis
    proof (cases "findUser (ad_db (ky_auth s)) u")
      case None
      then show thesis by (intro refused) (simp add: updateKycStatus_def lift_sum_def Inr Inr2)
    next
      case (Some x)
      note run = updateKycStatus_def lift_sum_def Inr Inr2 Some
      show thesis
      proof (cases "validStatus status")
        case None
        then show thesis by (intro refused) (simp add: run)
      next
        case k: (Some k)
        obtain s2 where w: "updateUserKycStatus u k s = (Inr (), s2)" using user_step [OF Some, of k] by blast
        show thesis by (rule written [OF perm w]) (simp add: run k w)
      qed
    qed
  qed
qed

lemma accountable_user_override:
  assumes acc: "accountable s" and log: "set (ky_audit s) \<subseteq> set (ky_audit s')" and keys: "app_keys s' = app_keys s"
    and users: "approved_users s' \<subseteq> insert u (approved_users s)" and apps: "approved_apps s' \<subseteq> approved_apps s \<union> {(j, v). v = u}"
    and e: "e \<in> set (ky_audit s')" "\<And>i. approves i u e" "overridden u e"
  shows "accountable s'"
proof -
  have "\<exists>e\<in>set (ky_audit s'). approves j v e" if "(j, v) \<in> approved_apps s'" for j v
  proof (cases "v = u")
    case True
    then show ?thesis using e(1,2) by blast
  next
    case False
    then have "(j, v) \<in> approved_apps s" using apps that by blast
    then obtain e where "e \<in> set (ky_audit s)" "approves j v e" using acc by (auto simp: accountable_def)
    then show ?thesis using log by blast
  qed
  moreover have "\<exists>e\<in>set (ky_audit s'). overridden v e \<or> (\<exists>i. (i, v) \<in> app_keys s' \<and> approves i v e)"
    if "v \<in> approved_users s'" for v
  proof (cases "v = u")
    case True
    then show ?thesis using e(1,3) by blast
  next
    case False
    then have "v \<in> approved_users s" using users that by blast
    then have "\<exists>e\<in>set (ky_audit s). overridden v e \<or> (\<exists>i. (i, v) \<in> app_keys s \<and> approves i v e)"
      using acc by (simp add: accountable_def)
    then show ?thesis unfolding keys using log by blast
  qed
  ultimately show ?thesis unfolding accountable_def by blast
qed

lemma override_accountable:
  assumes "accountable s"
  shows "accountable (snd (updateKycStatus R u status admin s))"
proof (rule override_cases [of R u status admin s])
  fix k s2 assume perm: "USERS_MANAGE \<in> set (ROLE_PERMISSIONS (ru_role admin))" and w: "updateUserKycStatus u k s = (Inr (), s2)"
    and s': "snd (updateKycStatus R u status admin s) = admin_log (KYC_STATUS_OVERRIDE k) u admin
          (s2\<lparr>ky_apps := upd_where (\<lambda>a. ka_userId a = u) (\<lambda>a. a\<lparr>ka_status := k, ka_reviewedAt := Some (now R),
             ka_reviewedById := Some (ru_id admin)\<rparr>) (ky_apps s2)\<rparr>)" (is "_ = ?s'")
  show ?thesis
  proof (cases "k = KYC_APPROVED")
    case False
    have "harmless s s2" using harmless_user [OF False, of s u] w by simp
    moreover have "harmless s2 ?s'" by (rule harmless_apps [where P = "\<lambda>a. ka_userId a = u" and
          f = "\<lambda>a. a\<lparr>ka_status := k, ka_reviewedAt := Some (now R), ka_reviewedById := Some (ru_id admin)\<rparr>"])
        (use False in \<open>auto simp: admin_log_def\<close>)
    ultimately show ?thesis using accountable_harmless [OF assms] harmless.Q_trans by (metis s')
  next
    case True
    let ?e = "\<lparr>kx_action = KYC_STATUS_OVERRIDE KYC_APPROVED, kx_resourceId = u, kx_actorId = ru_id admin, kx_actorRole = Some (ru_role admin)\<rparr>"
    have e: "?e \<in> set (ky_audit ?s')" "approves i u ?e" "overridden u ?e" for i
      using perm True by (simp_all add: admin_log_def approves_def overridden_def)
    have s2: "ky_apps s2 = ky_apps s" "ky_audit s2 = ky_audit s" "approved_users s2 \<subseteq> insert u (approved_users s)"
      using w by (auto simp: updateUserKycStatus_def update_kyc_user_def approved_users_def upd_where_def split: if_split_asm)
    have keys: "app_keys ?s' = app_keys s" by (simp add: s2 admin_log_def app_keys_def keys_upd_where)
    have log: "set (ky_audit s) \<subseteq> set (ky_audit ?s')" and users: "approved_users ?s' \<subseteq> insert u (approved_users s)"
      using s2 by (auto simp: admin_log_def approved_users_def)
    have apps: "approved_apps ?s' \<subseteq> approved_apps s \<union> {(j, v). v = u}"
      using s2 by (auto simp: admin_log_def approved_apps_def upd_where_def)
    have "accountable ?s'" by (rule accountable_user_override [OF assms log keys users apps e])
    then show ?thesis by (simp only: s')
  qed
qed (use assms in simp)

inductive_cases kyc_stepE: "kyc_step E s s'"

lemma kyc_step_accountable: "kyc_step E s s' \<Longrightarrow> accountable s \<Longrightarrow> accountable s'"
  by (erule kyc_stepE)
    (simp_all add: process_accountable approve_accountable override_accountable
      accountable_harmless [OF _ harmless_customer(1)] accountable_harmless [OF _ harmless_customer(2)]
      accountable_harmless [OF _ harmless_reviews(1)] accountable_harmless [OF _ harmless_reviews(2)]
      accountable_harmless [OF _ harmless_reviews(3)])

lemma history_accountable: "(kyc_step E)\<^sup>*\<^sup>* s0 s \<Longrightarrow> accountable s0 \<Longrightarrow> accountable s"
  by (induction rule: rtranclp_induct) (auto intro: kyc_step_accountable)


definition fresh_kyc :: "kv kyc_db" where
  "fresh_kyc = sample_kyc\<lparr>ky_auth := sample_auth\<lparr>ad_db := empty_db\<lparr>db_users :=
     [\<lparr>u_id = 7, u_role = CUSTOMER, u_brokerId = Some 1, u_kycStatus = KYC_NOT_SUBMITTED, u_deletedAt = None\<rparr>,
      \<lparr>u_id = 8, u_role = BROKER, u_brokerId = Some 1, u_kycStatus = KYC_NOT_SUBMITTED, u_deletedAt = None\<rparr>]\<rparr>\<rparr>\<rparr>"

definition sample_broker :: authenticated_user where
  "sample_broker = \<lparr>ru_id = 8, ru_phone = [], ru_email = None, ru_role = BROKER, ru_sessionId = 1, ru_deviceId = 1,
     ru_kycStatus = KYC_NOT_SUBMITTED\<rparr>"


section \<open>The owning broker decides\<close>

lemma decide_tx_outcome:
  assumes "decide_tx i f u k s = (Inr (), s')" and "\<And>a. ka_id (f a) = ka_id a"
  shows "ky_apps s' = upd_where (\<lambda>a. ka_id a = i) f (ky_apps s)" "ky_audit s' = ky_audit s"
    "map_option u_kycStatus (findUser (ad_db (ky_auth s')) u) = Some k"
    "v \<noteq> u \<Longrightarrow> findUser (ad_db (ky_auth s')) v = findUser (ad_db (ky_auth s)) v"
  using assms by (auto simp: decide_tx_def update_app_def updateUserKycStatus_def update_kyc_user_def findUser_def
      find_upd_where option.map_ident and_then_def split: if_split_asm)

text \<open>What a decision with status \<open>k\<close> by \<open>admin\<close> leaves.\<close>

definition decided_by :: "uuid \<Rightarrow> kyc_status \<Rightarrow> authenticated_user \<Rightarrow> kyc_app \<Rightarrow> 's kyc_db \<Rightarrow> 's kyc_db \<Rightarrow> bool" where
  "decided_by i k admin app s s' \<longleftrightarrow>
     (\<forall>a\<in>set (ky_apps s'). ka_id a = i \<longrightarrow> ka_status a = k \<and> ka_reviewedById a = Some (ru_id admin)) \<and>
     (\<forall>j. j \<noteq> i \<longrightarrow> findApp j s' = findApp j s) \<and>
     map_option u_kycStatus (findUser (ad_db (ky_auth s')) (ka_userId app)) = Some k \<and>
     (\<forall>v. v \<noteq> ka_userId app \<longrightarrow> findUser (ad_db (ky_auth s')) v = findUser (ad_db (ky_auth s)) v)"

lemma decide_tx_decided:
  assumes t: "decide_tx i f (ka_userId app) k s = (Inr (), s')" and f: "\<And>a. ka_id (f a) = ka_id a" "\<And>a. ka_status (f a) = k"
    "\<And>a. ka_reviewedById (f a) = Some (ru_id admin)"
  shows "decided_by i k admin app s s'"
proof -
  note o = decide_tx_outcome [OF t f(1)]
  have "findApp j s' = findApp j s" if "j \<noteq> i" for j
    using that by (simp add: findApp_def o(1) find_upd_where f(1) option.map_ident)
  moreover have "ka_status a = k \<and> ka_reviewedById a = Some (ru_id admin)" if "a \<in> set (ky_apps s')" "ka_id a = i" for a
    using that f by (auto simp: o(1) set_upd_where)
  ultimately show ?thesis using o(3,4) unfolding decided_by_def by blast
qed

lemma decided_by_logged: "decided_by i k admin app s (admin_log act j admin2 (kyc_emit e s')) = decided_by i k admin app s s'"
  by (simp add: decided_by_def admin_log_def kyc_emit_def findApp_def)

lemma broker_decision:
  assumes "and_then (lift_sum (permissionsGuard (Some [KYC_APPROVE]) (Some admin)) s) (\<lambda>_ s0.
      if c then (Inl e1, s0) else if c2 then (Inl e2, s0) else
      and_then (lift_sum (decidable_application i admin s0) s0) (\<lambda>app s1.
        and_then (decide_tx i (f app s1) (ka_userId app) k s1) (\<lambda>_ s2. (Inr (x app s1), admin_log act i admin (kyc_emit (ev app) s2))))) =
      (res, s')"
    and f: "\<And>app t a. ka_id (f app t a) = ka_id a" "\<And>app t a. ka_status (f app t a) = k"
      "\<And>app t a. ka_reviewedById (f app t a) = Some (ru_id admin)"
  shows "(\<exists>e. res = Inl e \<and> s' = s) \<or> (\<exists>app. decidable_application i admin s = Inr app \<and> decided_by i k admin app s s')"
proof (cases "permissionsGuard (Some [KYC_APPROVE]) (Some admin)"; cases "decidable_application i admin s")
  fix y app assume g: "permissionsGuard (Some [KYC_APPROVE]) (Some admin) = Inr y" and d: "decidable_application i admin s = Inr app"
  show ?thesis
  proof (rule decide_tx_cases [of i "f app s" "ka_userId app" k s])
    fix s1 s2 assume t: "decide_tx i (f app s) (ka_userId app) k s = (Inr (), s2)"
    have "decided_by i k admin app s s2" by (rule decide_tx_decided [OF t f])
    then show ?thesis using assms(1) t d by (auto simp: g d lift_sum_def decided_by_logged split: if_split_asm)
  qed (use assms(1) in \<open>auto simp: g d lift_sum_def split: if_split_asm\<close>)
qed (use assms(1) in \<open>auto simp: lift_sum_def split: if_split_asm\<close>)



text \<open>A decision of a person does not last: its applicant may run the pipeline again, which writes its own
  decision over the person's and leaves the person's name on it.\<close>

lemma retry_reopens:
  assumes a: "findApp i s = Some a" "ka_userId a = u" and human: "isHumanReviewed a"
    and x: "findUser (ad_db (ky_auth s)) u = Some x"
    and docs: "getDocumentByType i NATIONAL_ID s = Some idDoc" "getDocumentByType i SELFIE s = Some selfieDoc"
  shows "\<exists>j r s' a'. retry R i u s = Inr j \<and> runPipeline E (vj_applicationId j) (vj_userId j) s = (Inr r, s') \<and>
      findApp i s' = Some a' \<and> ka_status a' = status_of (vr_decision r) \<and> ka_reviewedById a' = ka_reviewedById a"
proof -
  obtain r s' where "runPipeline E i u s = (Inr r, s')"
    "decided i u (vr_decision r) (if vr_decisionReason r = PipelineUnavailable then STAGE_FAILED else COMPLETE) s s'"
    using run_outcome [OF a x docs, of E] by blast
  then show ?thesis using a by (auto simp: retry_def own_application_def bind_sum_def decided_def)
qed

text \<open>A customer who has started an application and not submitted it is counted twice.\<close>

lemma unsubmitted_counted_twice:
  assumes "getCounts admin s = Inr counts" and "ru_role admin \<noteq> BROKER"
  shows "counts KYC_NOT_SUBMITTED = length (filter (\<lambda>u. u_kycStatus u = KYC_NOT_SUBMITTED) (ky_users s)) +
    length (filter (\<lambda>a. ka_status a = KYC_NOT_SUBMITTED) (ky_apps s))"
  using assms by (auto simp: getCounts_def bind_sum_def resolveScope_def getCountsByStatus_def in_scope_def split: sum.splits)

text \<open>The masked number keeps its length and shows the last four digits only.\<close>

lemma mask_account_number:
  assumes "4 \<le> length n"
  shows "length (maskAccountNumber n) = length n" and "drop (length n - 4) (maskAccountNumber n) = drop (length n - 4) n"
    and "k < length n - 4 \<Longrightarrow> maskAccountNumber n ! k = CHR ''*''"
  using assms by (simp_all add: maskAccountNumber_def nth_append)

end
