(* ===== verification/KycReconcile.thy ===== *)
theory KycReconcile
  imports KycReview
begin

text \<open>
  Reconciling what the document says with what the applicant typed:
  \<^verbatim>\<open>src/modules/kyc/services/kyc-reconciliation.service.ts\<close>, and the data side of
  \<^verbatim>\<open>csd-form.service.ts\<close> and \<^verbatim>\<open>bank-account-crypto.service.ts\<close>.  The names are compared token by token with
  the Levenshtein distance, whose table is shown to hold the least number of single-character edits.

  Text is over the characters of Latin-1: \<open>strip_marks\<close> is \<open>toUpperCase().normalize('NFD')\<close> with the combining
  marks removed, on those characters.
\<close>

section \<open>Levenshtein distance\<close>

text \<open>One row of the table: \<open>dp[i][1..]\<close> from \<open>dp[i-1]\<close>, with the cell to the left in hand.\<close>

fun next_cells :: "char \<Rightarrow> string \<Rightarrow> nat list \<Rightarrow> nat \<Rightarrow> nat list" where
  "next_cells x (y # ys) (diag # up # ps) left =
     (let cell = min (min (up + 1) (left + 1)) (diag + (if x = y then 0 else 1))
      in cell # next_cells x ys (up # ps) cell)"
| "next_cells x _ _ left = []"

fun dp_rows :: "nat \<Rightarrow> string \<Rightarrow> string \<Rightarrow> nat list \<Rightarrow> nat list" where
  "dp_rows i [] b row = row"
| "dp_rows i (x # a) b row = dp_rows (Suc i) a b (Suc i # next_cells x b row (Suc i))"

definition levenshtein :: "string \<Rightarrow> string \<Rightarrow> nat" where
  "levenshtein a b = last (dp_rows 0 a b [0..<length b + 1])"

section \<open>Names\<close>

definition tokenSim :: "runtime \<Rightarrow> string \<Rightarrow> string \<Rightarrow> rat" where
  "tokenSim R a b =
     (if a = b then 1 else nsub R 1 (ndiv R (of_nat (levenshtein a b)) (of_nat (max (length a) (length b)))))"

definition strip_marks :: "string \<Rightarrow> string" where
  "strip_marks s =
     concat (map (\<lambda>c. let n = of_char c :: nat; b = (if 224 \<le> n \<and> n \<noteq> 247 \<and> n \<noteq> 255 then n - 32 else n) in
       if n = 223 then ''SS'' else if n = 255 then ''Y''
       else if 192 \<le> b \<and> b \<le> 197 then ''A'' else if b = 199 then ''C'' else if 200 \<le> b \<and> b \<le> 203 then ''E''
       else if 204 \<le> b \<and> b \<le> 207 then ''I'' else if b = 209 then ''N'' else if 210 \<le> b \<and> b \<le> 214 then ''O''
       else if 217 \<le> b \<and> b \<le> 220 then ''U'' else if b = 221 then ''Y'' else [c]) (toUpperCase s))"

definition name_tokens :: "string \<Rightarrow> string list" where
  "name_tokens s =
     filter (\<lambda>t. 1 < length t) (split_words (map (\<lambda>c. if 65 \<le> (of_char c :: nat) \<and> (of_char c :: nat) \<le> 90 \<or> is_space c
       then c else CHR '' '') (strip_marks s)))"

definition token_matched :: "runtime \<Rightarrow> string list \<Rightarrow> string \<Rightarrow> bool" where
  "token_matched R tb t = (8 / 10 \<le> foldl (\<lambda>m u. max m (tokenSim R t u)) 0 tb)"

definition nameSimilarity :: "runtime \<Rightarrow> string \<Rightarrow> string \<Rightarrow> rat" where
  "nameSimilarity R a b =
     (let ta = name_tokens a; tb = name_tokens b
      in if ta = [] \<or> tb = [] then 0
         else ndiv R (of_nat (length (filter (token_matched R tb) ta))) (of_nat (length ta)))"

section \<open>Fields\<close>

datatype field_source = FromRegistration | FromMrz | FromOcr | Reconciled | NoSource

record reconciled_field =
  rf_value :: "string option"
  rf_source :: field_source
  rf_confidence :: int
  rf_registrationValue :: "string option"
  rf_extractedValue :: "string option"
  rf_matchesRegistration :: "bool option"

definition no_field :: reconciled_field where
  "no_field = \<lparr>rf_value = None, rf_source = NoSource, rf_confidence = 0, rf_registrationValue = None,
     rf_extractedValue = None, rf_matchesRegistration = None\<rparr>"

definition trimmed :: "string option \<Rightarrow> string option" where
  "trimmed v = (case v of None \<Rightarrow> None | Some x \<Rightarrow> if trimText x = [] then None else Some (trimText x))"

definition math_round :: "rat \<Rightarrow> int" where
  "math_round x = \<lfloor>x + 1 / 2\<rfloor>"

definition from_document :: "runtime \<Rightarrow> string \<Rightarrow> rat \<Rightarrow> reconciled_field" where
  "from_document R ext conf = no_field\<lparr>rf_value := Some ext, rf_source := FromOcr,
     rf_confidence := math_round (nmul R conf 100), rf_extractedValue := Some ext\<rparr>"

definition reconcileText :: "runtime \<Rightarrow> string option \<Rightarrow> string option \<Rightarrow> rat \<Rightarrow> reconciled_field" where
  "reconcileText R registration extractedText extractedConf =
     (case (trimmed registration, trimmed extractedText) of
        (Some reg, Some ext) \<Rightarrow>
          let sim = nameSimilarity R reg ext
          in if 8 / 10 \<le> sim
             then \<lparr>rf_value = Some reg, rf_source = Reconciled,
                   rf_confidence = min 100 (math_round (nadd R 70 (nmul R sim 30))), rf_registrationValue = Some reg,
                   rf_extractedValue = Some ext, rf_matchesRegistration = Some True\<rparr>
             else \<lparr>rf_value = Some reg, rf_source = FromRegistration, rf_confidence = 75, rf_registrationValue = Some reg,
                   rf_extractedValue = Some ext, rf_matchesRegistration = Some False\<rparr>
      | (Some reg, None) \<Rightarrow> no_field\<lparr>rf_value := Some reg, rf_source := FromRegistration, rf_confidence := 80,
                               rf_registrationValue := Some reg\<rparr>
      | (None, Some ext) \<Rightarrow> from_document R ext extractedConf
      | (None, None) \<Rightarrow> no_field)"

definition reconcileExact :: "runtime \<Rightarrow> string option \<Rightarrow> string option \<Rightarrow> rat \<Rightarrow> reconciled_field" where
  "reconcileExact R registration extractedText extractedConf =
     (case (trimmed registration, trimmed extractedText) of
        (Some reg, Some ext) \<Rightarrow>
          if toUpperCase reg = toUpperCase ext
          then \<lparr>rf_value = Some reg, rf_source = Reconciled, rf_confidence = 99, rf_registrationValue = Some reg,
                rf_extractedValue = Some ext, rf_matchesRegistration = Some True\<rparr>
          else \<lparr>rf_value = Some reg, rf_source = FromRegistration, rf_confidence = 80, rf_registrationValue = Some reg,
                rf_extractedValue = Some ext, rf_matchesRegistration = Some False\<rparr>
      | (Some reg, None) \<Rightarrow> no_field\<lparr>rf_value := Some reg, rf_source := FromRegistration, rf_confidence := 90,
                               rf_registrationValue := Some reg\<rparr>
      | (None, Some ext) \<Rightarrow> from_document R ext extractedConf
      | (None, None) \<Rightarrow> no_field)"

definition extractionOnly :: "runtime \<Rightarrow> string option \<Rightarrow> rat \<Rightarrow> reconciled_field" where
  "extractionOnly R v conf =
     (case v of
        None \<Rightarrow> no_field
      | Some x \<Rightarrow>
          if x = [] then no_field
          else no_field\<lparr>rf_value := Some x, rf_source := (if 9 / 10 \<le> conf then FromMrz else FromOcr),
                 rf_confidence := math_round (nmul R conf 100), rf_extractedValue := Some x\<rparr>)"

definition fieldValue :: "ocr_field option \<Rightarrow> string option" where
  "fieldValue f = trimmed (map_option of_value f)"

definition fieldConfidence :: "ocr_field option \<Rightarrow> rat" where
  "fieldConfidence f = (case f of None \<Rightarrow> 5 / 10 | Some x \<Rightarrow> of_confidence x)"

definition normalizeGender :: "string option \<Rightarrow> string option" where
  "normalizeGender g =
     (case g of None \<Rightarrow> None
      | Some x \<Rightarrow>
          let v = toUpperCase (trimText x)
          in if v = ''M'' \<or> v = ''MALE'' then Some ''M'' else if v = ''F'' \<or> v = ''FEMALE'' then Some ''F'' else None)"

section \<open>Dates\<close>

text \<open>\<open>/(\d{1,2})[\/.\-](\d{1,2})[\/.\-](\d{2,4})/\<close>: the first match, each part as long as it can be.\<close>

definition digit_runs :: "nat list \<Rightarrow> string \<Rightarrow> (string \<times> string) list" where
  "digit_runs ks s = map (\<lambda>k. (take k s, drop k s)) (filter (\<lambda>k. k \<le> length s \<and> list_all decimal_digit (take k s)) ks)"

definition date_separated :: "string \<Rightarrow> bool" where
  "date_separated s = (case s of [] \<Rightarrow> False | c # _ \<Rightarrow> c \<in> {CHR ''/'', CHR ''.'', CHR ''-''})"

definition date_at :: "string \<Rightarrow> (string \<times> string \<times> string) list" where
  "date_at s =
     [(d, m, y). (d, r1) \<leftarrow> digit_runs [2, 1] s, date_separated r1,
                 (m, r2) \<leftarrow> digit_runs [2, 1] (drop 1 r1), date_separated r2,
                 (y, _) \<leftarrow> digit_runs [4, 3, 2] (drop 1 r2)]"

fun date_match :: "string \<Rightarrow> (string \<times> string \<times> string) option" where
  "date_match [] = None"
| "date_match (c # cs) = (case date_at (c # cs) of x # _ \<Rightarrow> Some x | [] \<Rightarrow> date_match cs)"

definition normalizeDobString :: "string option \<Rightarrow> string option" where
  "normalizeDobString v =
     (case v of
        None \<Rightarrow> None
      | Some s \<Rightarrow>
          if s = [] then None
          else (case date_match s of
             None \<Rightarrow> Some s
           | Some (d, m, y) \<Rightarrow>
               let yyyy = (if length y = 2 then (if 30 < number_of y then ''19'' else ''20'') @ y else y)
               in Some (padStart 2 (CHR ''0'') d @ ''/'' @ padStart 2 (CHR ''0'') m @ ''/'' @ yyyy)))"

text \<open>\<open>getUTCFullYear\<close>, \<open>getUTCMonth\<close> and \<open>getUTCDate\<close> of an instant.\<close>

definition utc_year :: "int \<Rightarrow> int" where
  "utc_year days =
     (let g = 1970 + (400 * days) div 146097
      in if days < day_of_year_start g then g - 1 else if day_of_year_start (g + 1) \<le> days then g + 1 else g)"

definition utc_month :: "int \<Rightarrow> int \<Rightarrow> int" where
  "utc_month y doy = int (length (filter (\<lambda>m. days_before_month y m \<le> doy) [1, 2, 3, 4, 5, 6, 7, 8, 9, 10, 11]))"

definition utc_date :: "timestamp \<Rightarrow> int \<times> int \<times> int" where
  "utc_date t =
     (let days = t div 86400000; y = utc_year days; doy = days - day_of_year_start y; m = utc_month y doy
      in (y, m, doy - days_before_month y m + 1))"

definition formatDate :: "timestamp \<Rightarrow> string" where
  "formatDate t =
     (let (y, m, d) = utc_date t
      in padStart 2 (CHR ''0'') (show_int d) @ ''/'' @ padStart 2 (CHR ''0'') (show_int (m + 1)) @ ''/'' @ show_int y)"

section \<open>The reconciled identity\<close>

record reconciled_address =
  ra_addressLine1 :: "string option"
  ra_addressLine2 :: "string option"
  ra_city :: "string option"
  ra_district :: "string option"
  ra_formatted :: "string option"
  ra_confidence :: "int option"
  ra_source :: field_source

record reconciled_identity =
  ri_fullName :: reconciled_field
  ri_dateOfBirth :: reconciled_field
  ri_gender :: reconciled_field
  ri_nationalId :: reconciled_field
  ri_documentNumber :: reconciled_field
  ri_expiryDate :: reconciled_field
  ri_nationality :: reconciled_field
  ri_email :: reconciled_field
  ri_phone :: reconciled_field
  ri_address :: reconciled_address
  ri_mismatchFlags :: "string list"

definition first_some :: "'a option \<Rightarrow> 'a option \<Rightarrow> 'a option" where
  "first_some a b = (case a of None \<Rightarrow> b | Some x \<Rightarrow> Some x)"

definition nonblank :: "string option list \<Rightarrow> string list" where
  "nonblank vs = List.map_filter (\<lambda>v. case v of Some x \<Rightarrow> if x = [] then None else Some x | None \<Rightarrow> None) vs"

definition formatted_address :: "kyc_app \<Rightarrow> string option" where
  "formatted_address a =
     (case Option.bind (kj_extractedAddress (ka_json a)) ea_formatted of
        Some f \<Rightarrow> Some f
      | None \<Rightarrow> let j = join '', '' (nonblank [ka_addressLine1 a, ka_addressLine2 a, ka_city a])
                 in if j = [] then None else Some j)"

definition kyc_reconcile :: "runtime \<Rightarrow> credential \<Rightarrow> kyc_app \<Rightarrow> reconciled_identity" where
  "kyc_reconcile R c a =
     (let ocr = (\<lambda>f. Option.bind (kj_ocr (ka_json a)) f);
          fullName = reconcileText R (Some (trimText (cr_firstName c @ '' '' @ cr_lastName c)))
            (fieldValue (ocr oc_fullName)) (fieldConfidence (ocr oc_fullName));
          dateOfBirth = reconcileExact R (map_option formatDate (cr_dateOfBirth c))
            (first_some (map_option formatDate (ka_dateOfBirth a)) (normalizeDobString (fieldValue (ocr oc_dateOfBirth))))
            (fieldConfidence (ocr oc_dateOfBirth));
          gender = reconcileExact R (normalizeGender (cr_gender c)) (normalizeGender (fieldValue (ocr oc_gender)))
            (fieldConfidence (ocr oc_gender));
          nationality = ocr (\<lambda>r. Option.bind (oc_nationality r) (\<lambda>x. x));
          formatted = formatted_address a
      in \<lparr>ri_fullName = fullName, ri_dateOfBirth = dateOfBirth, ri_gender = gender,
          ri_nationalId = extractionOnly R (first_some (ka_nationalIdNumber a) (fieldValue (ocr oc_nationalIdNumber)))
            (fieldConfidence (ocr oc_nationalIdNumber)),
          ri_documentNumber = extractionOnly R (fieldValue (ocr oc_documentNumber)) (fieldConfidence (ocr oc_documentNumber)),
          ri_expiryDate = extractionOnly R (fieldValue (ocr oc_expiryDate)) (fieldConfidence (ocr oc_expiryDate)),
          ri_nationality = extractionOnly R (fieldValue nationality) (fieldConfidence nationality),
          ri_email = no_field\<lparr>rf_value := cr_email c, rf_source := FromRegistration,
            rf_confidence := (if cr_email c = None \<or> cr_email c = Some [] then 0 else 100), rf_registrationValue := cr_email c\<rparr>,
          ri_phone = no_field\<lparr>rf_value := Some (cr_phone c), rf_source := FromRegistration, rf_confidence := 100,
            rf_registrationValue := Some (cr_phone c)\<rparr>,
          ri_address = \<lparr>ra_addressLine1 = ka_addressLine1 a, ra_addressLine2 = ka_addressLine2 a, ra_city = ka_city a,
            ra_district = ka_district a, ra_formatted = formatted,
            ra_confidence = map_option (\<lambda>x. math_round (nmul R (ea_confidence x) 100)) (kj_extractedAddress (ka_json a)),
            ra_source = (if formatted = None \<or> formatted = Some [] then NoSource else FromOcr)\<rparr>,
          ri_mismatchFlags =
            (if rf_matchesRegistration fullName = Some False then [''fullName''] else []) @
            (if rf_matchesRegistration dateOfBirth = Some False then [''dateOfBirth''] else []) @
            (if rf_matchesRegistration gender = Some False then [''gender''] else [])\<rparr>)"

section \<open>The CSD form\<close>

definition word_char :: "char \<Rightarrow> bool" where
  "word_char c \<longleftrightarrow> decimal_digit c \<or> c = CHR ''_'' \<or>
     65 \<le> (of_char c :: nat) \<and> (of_char c :: nat) \<le> 90 \<or> 97 \<le> (of_char c :: nat) \<and> (of_char c :: nat) \<le> 122"

definition skip_dot :: "string \<Rightarrow> string" where
  "skip_dot s = (if startsWith s ''.'' then drop 1 s else s)"

text \<open>\<open>/\bP\.?\s*O\.?\s*Box|Private\s+Bag/i\<close> on the upper-case text, at one position and at any.\<close>

definition postal_at :: "bool \<Rightarrow> string \<Rightarrow> bool" where
  "postal_at inWord s \<longleftrightarrow>
     \<not> inWord \<and> startsWith s ''P'' \<and>
       (let r = dropWhile is_space (skip_dot (drop 1 s))
        in startsWith r ''O'' \<and> startsWith (dropWhile is_space (skip_dot (drop 1 r))) ''BOX'') \<or>
     startsWith s ''PRIVATE'' \<and> (let r = drop 7 s in r \<noteq> [] \<and> is_space (hd r) \<and> startsWith (dropWhile is_space r) ''BAG'')"

fun postal_match :: "bool \<Rightarrow> string \<Rightarrow> bool" where
  "postal_match inWord [] = False"
| "postal_match inWord (c # cs) = (postal_at inWord (c # cs) \<or> postal_match (word_char c) cs)"

definition postalFrom :: "string option \<Rightarrow> string" where
  "postalFrom formatted =
     (case formatted of
        None \<Rightarrow> []
      | Some f \<Rightarrow> toUpperCase (join '', '' (filter (\<lambda>p. postal_match False (toUpperCase p))
                    (map trimText (split_at_char (CHR '','') f)))))"

definition isMalawiPhone :: "string \<Rightarrow> bool" where
  "isMalawiPhone phone = startsWith (filter (\<lambda>c. \<not> is_space c \<and> c \<noteq> CHR ''-'') phone) ''+265''"

definition or_empty :: "string option \<Rightarrow> string" where
  "or_empty v = (case v of None \<Rightarrow> [] | Some x \<Rightarrow> x)"

definition csd_base :: "reconciled_identity \<Rightarrow> string \<Rightarrow> (linked_bank \<times> string option) option \<Rightarrow> (string \<times> string) list" where
  "csd_base r phone bank =
     (let local = isMalawiPhone phone; ocrNationality = rf_value (ri_nationality r)
      in [(''fullName'', toUpperCase (or_empty (rf_value (ri_fullName r)))),
          (''gender'', or_empty (rf_value (ri_gender r))),
          (''idType'', ''NATIONAL ID''),
          (''idNumber'', toUpperCase (or_empty (rf_value (ri_nationalId r)))),
          (''dateOfBirth'', or_empty (rf_value (ri_dateOfBirth r))),
          (''nationality'', toUpperCase (if local then ''MALAWIAN'' else or_empty ocrNationality)),
          (''investorType'', if local then ''LOCAL'' else
             (case ocrNationality of Some n \<Rightarrow> if n \<noteq> [] \<and> n \<noteq> ''MWI'' then ''FOREIGN'' else ''LOCAL'' | None \<Rightarrow> ''LOCAL'')),
          (''physicalAddress'', toUpperCase (or_empty (ra_formatted (ri_address r)))),
          (''postalAddress'', postalFrom (ra_formatted (ri_address r))),
          (''telephone'', or_empty (rf_value (ri_phone r))),
          (''cellphone'', or_empty (rf_value (ri_phone r))),
          (''email'', toUpperCase (or_empty (rf_value (ri_email r)))),
          (''bankName'', toUpperCase (case bank of None \<Rightarrow> [] | Some (b, _) \<Rightarrow> lb_bankName b)),
          (''bankBranchCode'', []),
          (''accountNumber'', case bank of None \<Rightarrow> [] | Some (b, Some n) \<Rightarrow> n | Some (b, None) \<Rightarrow> lb_accountNumberMasked b),
          (''accountName'', toUpperCase (case bank of None \<Rightarrow> [] | Some (b, _) \<Rightarrow> lb_accountName b))])"

definition apply_overrides :: "(string \<times> string) list \<Rightarrow> (string \<times> string) list \<Rightarrow> (string \<times> string) list" where
  "apply_overrides overrides base =
     map (\<lambda>(key, v). (key, case map_of overrides key of None \<Rightarrow> v | Some ov \<Rightarrow> if trimText ov = [] then v else ov)) base"

definition resolveCsdFields ::
  "runtime \<Rightarrow> credential \<Rightarrow> kyc_app \<Rightarrow> (linked_bank \<times> string option) option \<Rightarrow> (string \<times> string) list \<Rightarrow> (string \<times> string) list" where
  "resolveCsdFields R c a bank overrides = apply_overrides overrides (csd_base (kyc_reconcile R c a) (cr_phone c) bank)"

text \<open>\<open>iv:tag:cipher\<close>; anything that is not in three parts, or that the cipher does not authenticate, is no
  number.\<close>

definition bank_encrypt :: "(string \<Rightarrow> string \<times> string) \<Rightarrow> string \<Rightarrow> string \<Rightarrow> string" where
  "bank_encrypt seal iv plain = (let (tag, cipher) = seal plain in iv @ '':'' @ tag @ '':'' @ cipher)"

definition bank_decrypt :: "(string \<Rightarrow> string \<Rightarrow> string \<Rightarrow> string option) \<Rightarrow> string \<Rightarrow> string option" where
  "bank_decrypt unseal payload =
     (if payload = [] then None
      else case split_at_char (CHR '':'') payload of [iv, tag, cipher] \<Rightarrow> unseal iv tag cipher | _ \<Rightarrow> None)"

definition primary_bank :: "uuid \<Rightarrow> linked_bank list \<Rightarrow> linked_bank option" where
  "primary_bank u banks =
     (let mine = sort_key lb_createdAt (filter (\<lambda>b. lb_userId b = u \<and> \<not> lb_deleted b) banks)
      in case filter lb_isPrimary mine @ filter (\<lambda>b. \<not> lb_isPrimary b) mine of [] \<Rightarrow> None | b # _ \<Rightarrow> Some b)"

definition resolveFields ::
  "runtime \<Rightarrow> (string \<Rightarrow> string \<Rightarrow> string \<Rightarrow> string option) \<Rightarrow> uuid \<Rightarrow> linked_bank list \<Rightarrow> 's kyc_db \<Rightarrow> err + (string \<times> string) list" where
  "resolveFields R unseal i banks s =
     (case findApp i s of
        None \<Rightarrow> Inl (PlainError (Msg ''KYC application not found''))
      | Some a \<Rightarrow>
          (case account_of (ka_userId a) s of
             None \<Rightarrow> Inl (PlainError (Msg ''KYC application not found''))
           | Some c \<Rightarrow>
               Inr (resolveCsdFields R c a
                      (map_option (\<lambda>b. (b, bank_decrypt unseal (lb_accountNumberEncrypted b))) (primary_bank (ka_userId a) banks))
                      (case kj_csdOverrides (ka_json a) of None \<Rightarrow> [] | Some os \<Rightarrow> os))))"

section \<open>The distance is the least number of edits\<close>

fun edit_distance :: "'a list \<Rightarrow> 'a list \<Rightarrow> nat" where
  "edit_distance [] ys = length ys"
| "edit_distance xs [] = length xs"
| "edit_distance (x # xs) (y # ys) =
     min (min (edit_distance xs (y # ys) + 1) (edit_distance (x # xs) ys + 1))
       (edit_distance xs ys + (if x = y then 0 else 1))"

lemma edit_distance_Nil [simp]: "edit_distance xs [] = length xs"
  by (cases xs) simp_all

inductive edit :: "'a list \<Rightarrow> 'a list \<Rightarrow> bool" where
  edit_insert: "edit (us @ vs) (us @ x # vs)"
| edit_delete: "edit (us @ x # vs) (us @ vs)"
| edit_replace: "edit (us @ x # vs) (us @ y # vs)"

lemma edit_distance_drop: "edit_distance vs ys \<le> edit_distance (x # vs) ys + 1" "edit_distance vs (y # ys) \<le> edit_distance vs ys + 1"
proof -
  have right: "edit_distance vs (y # ys) \<le> edit_distance vs ys + 1" for vs ys :: "'a list" and y
    by (cases vs) auto
  show "edit_distance vs (y # ys) \<le> edit_distance vs ys + 1" by (rule right)
  show "edit_distance vs ys \<le> edit_distance (x # vs) ys + 1"
  proof (induction ys)
    case (Cons y ys)
    then show ?case using right [of vs y ys] by auto
  qed simp
qed

lemma edit_distance_lipschitz: "edit xs xs' \<Longrightarrow> edit_distance xs' ys \<le> edit_distance xs ys + 1"
proof (induction rule: edit.induct)
  case (edit_insert us vs x)
  show ?case
  proof (induction us arbitrary: ys)
    case Nil
    show ?case by (cases ys) auto
  next
    case outer: (Cons u us)
    show ?case
    proof (induction ys)
      case (Cons y ys)
      then show ?case using outer.IH [of "y # ys"] outer.IH [of ys] by auto
    qed (use outer.IH [of "[]"] in simp)
  qed
next
  case (edit_delete us x vs)
  show ?case
  proof (induction us arbitrary: ys)
    case Nil
    show ?case using edit_distance_drop(1) by simp
  next
    case outer: (Cons u us)
    show ?case
    proof (induction ys)
      case (Cons y ys)
      then show ?case using outer.IH [of "y # ys"] outer.IH [of ys] by auto
    qed (use outer.IH [of "[]"] in simp)
  qed
next
  case (edit_replace us x vs y)
  show ?case
  proof (induction us arbitrary: ys)
    case Nil
    show ?case by (induction ys) auto
  next
    case outer: (Cons u us)
    show ?case
    proof (induction ys)
      case (Cons z ys)
      then show ?case using outer.IH [of "z # ys"] outer.IH [of ys] by auto
    qed (use outer.IH [of "[]"] in simp)
  qed
qed

lemma edit_distance_self: "edit_distance xs xs = 0"
  by (induction xs) auto

lemma edit_distance_le: "(edit ^^ n) xs ys \<Longrightarrow> edit_distance xs ys \<le> n"
proof (induction n arbitrary: xs)
  case 0
  then show ?case by (simp add: edit_distance_self)
next
  case (Suc n)
  then obtain zs where "edit xs zs" "(edit ^^ n) zs ys" by (metis relpowp_Suc_E2)
  moreover have "edit zs xs" using \<open>edit xs zs\<close> by (cases rule: edit.cases) (auto intro: edit.intros)
  ultimately show ?case using Suc.IH edit_distance_lipschitz [of zs xs ys] by fastforce
qed

lemma edit_Cons: "edit xs ys \<Longrightarrow> edit (z # xs) (z # ys)"
proof (induction rule: edit.induct)
  case (edit_insert us vs x) show ?case using edit.edit_insert [of "z # us" vs x] by simp
next
  case (edit_delete us x vs) show ?case using edit.edit_delete [of "z # us" x vs] by simp
next
  case (edit_replace us x vs y) show ?case using edit.edit_replace [of "z # us" x vs y] by simp
qed

lemma edits_Cons: "(edit ^^ n) xs ys \<Longrightarrow> (edit ^^ n) (z # xs) (z # ys)"
  by (induction n arbitrary: ys) (auto dest: edit_Cons)

lemma edits_step: "edit xs zs \<Longrightarrow> (edit ^^ n) zs ys \<Longrightarrow> (edit ^^ Suc n) xs ys"
  by (rule relpowp_Suc_I2)

lemma edit_head:
  "edit (x # xs) xs" "edit xs (y # xs)" "edit (x # xs) (y # xs)"
  using edit_delete [of "[]" x xs] edit_insert [of "[]" xs y] edit_replace [of "[]" x xs y] by simp_all

lemma edits_reached: "(edit ^^ edit_distance xs ys) xs ys"
proof (induction xs ys rule: edit_distance.induct)
  case (1 ys)
  show ?case
  proof (induction ys)
    case (Cons y ys)
    then show ?case using edit_head(2) [of ys y] by (auto intro: relpowp_Suc_I)
  qed simp
next
  case (2 x xs)
  have "(edit ^^ length zs) zs []" for zs :: "'a list"
    by (induction zs) (simp, metis edits_step edit_head(1) length_Cons)
  then show ?case by (metis edit_distance_Nil)
next
  case (3 x xs y ys)
  let ?del = "edit_distance xs (y # ys)" and ?ins = "edit_distance (x # xs) ys" and ?sub = "edit_distance xs ys"
  have del: "(edit ^^ (?del + 1)) (x # xs) (y # ys)" using edits_step [OF edit_head(1) 3(1)] by simp
  have ins: "(edit ^^ (?ins + 1)) (x # xs) (y # ys)" using relpowp_Suc_I [OF 3(2) edit_head(2) [of ys y]] by simp
  have sub: "(edit ^^ (?sub + (if x = y then 0 else 1))) (x # xs) (y # ys)"
    using edits_Cons [OF 3(3), of y] edits_step [OF edit_head(3) [of x xs y] edits_Cons [OF 3(3), of y]] by simp
  consider "edit_distance (x # xs) (y # ys) = ?del + 1" | "edit_distance (x # xs) (y # ys) = ?ins + 1"
    | "edit_distance (x # xs) (y # ys) = ?sub + (if x = y then 0 else 1)"
    by (simp only: edit_distance.simps min_def) presburger
  then show ?case using del ins sub by cases (simp_all del: edit_distance.simps)
qed

lemma edit_rev: "edit xs ys \<Longrightarrow> edit (rev xs) (rev ys)"
proof (induction rule: edit.induct)
  case (edit_insert us vs x) show ?case using edit.edit_insert [of "rev vs" "rev us" x] by simp
next
  case (edit_delete us x vs) show ?case using edit.edit_delete [of "rev vs" x "rev us"] by simp
next
  case (edit_replace us x vs y) show ?case using edit.edit_replace [of "rev vs" x "rev us" y] by simp
qed

lemma edits_rev: "(edit ^^ n) xs ys \<Longrightarrow> (edit ^^ n) (rev xs) (rev ys)"
  by (induction n arbitrary: ys) (auto dest: edit_rev)

lemma edit_distance_rev: "edit_distance (rev xs) (rev ys) = edit_distance xs ys"
proof (rule antisym)
  show "edit_distance (rev xs) (rev ys) \<le> edit_distance xs ys" by (intro edit_distance_le edits_rev edits_reached)
  show "edit_distance xs ys \<le> edit_distance (rev xs) (rev ys)"
    using edits_rev [OF edits_reached, of "rev xs" "rev ys"] by (intro edit_distance_le) simp
qed

text \<open>A row of the table holds the distances of the prefix read so far to the prefixes of the other word.\<close>

lemma next_cells_distances:
  "next_cells x ys (map (\<lambda>j. edit_distance p (rev (pre @ take j ys))) [0..<Suc (length ys)]) (edit_distance (x # p) (rev pre)) =
     map (\<lambda>j. edit_distance (x # p) (rev (pre @ take (Suc j) ys))) [0..<length ys]"
proof (induction ys arbitrary: pre)
  case (Cons y ys)
  have row: "map (\<lambda>j. edit_distance p (rev (pre @ take j (y # ys)))) [0..<Suc (length (y # ys))] =
      edit_distance p (rev pre) # map (\<lambda>j. edit_distance p (rev ((pre @ [y]) @ take j ys))) [0..<Suc (length ys)]"
    by (simp add: map_upt_Suc del: upt_Suc)
  have up: "map (\<lambda>j. edit_distance p (rev ((pre @ [y]) @ take j ys))) [0..<Suc (length ys)] =
      edit_distance p (y # rev pre) # map (\<lambda>j. edit_distance p (rev ((pre @ [y]) @ take (Suc j) ys))) [0..<length ys]"
    by (simp add: map_upt_Suc del: upt_Suc)
  have right: "map (\<lambda>j. edit_distance (x # p) (rev (pre @ take (Suc j) (y # ys)))) [0..<length (y # ys)] =
      edit_distance (x # p) (y # rev pre) # map (\<lambda>j. edit_distance (x # p) (rev ((pre @ [y]) @ take (Suc j) ys))) [0..<length ys]"
    by (simp add: map_upt_Suc del: upt_Suc)
  show ?case unfolding row up right using Cons.IH [of "pre @ [y]", unfolded up]
    by (simp add: Let_def del: upt_Suc)
qed simp

lemma dp_rows_distances:
  "dp_rows (length p) a b (map (\<lambda>j. edit_distance p (rev (take j b))) [0..<Suc (length b)]) =
     map (\<lambda>j. edit_distance (rev a @ p) (rev (take j b))) [0..<Suc (length b)]"
proof (induction a arbitrary: p)
  case (Cons x a)
  have "Suc (length p) # next_cells x b (map (\<lambda>j. edit_distance p (rev (take j b))) [0..<Suc (length b)]) (Suc (length p)) =
      map (\<lambda>j. edit_distance (x # p) (rev (take j b))) [0..<Suc (length b)]"
    using next_cells_distances [of x b p "[]"] by (simp add: map_upt_Suc del: upt_Suc)
  then show ?case using Cons.IH [of "x # p"] by (simp del: upt_Suc)
qed simp

lemma levenshtein_distance: "levenshtein a b = edit_distance a b"
proof -
  have first: "[0..<length b + 1] = map (\<lambda>j. edit_distance [] (rev (take j b))) [0..<Suc (length b)]"
    by (rule nth_equalityI) (simp_all del: upt_Suc)
  have "dp_rows 0 a b [0..<length b + 1] = map (\<lambda>j. edit_distance (rev a) (rev (take j b))) [0..<Suc (length b)]"
    using dp_rows_distances [of "[]" a b] unfolding first by simp
  then have "levenshtein a b = edit_distance (rev a) (rev b)" unfolding levenshtein_def by simp
  then show ?thesis by (simp add: edit_distance_rev)
qed

text \<open>C34. The table of the name comparison computes the edit distance: the first word can be turned into the second
  by as many insertions, deletions and replacements of one character as the function returns, and by no
  fewer.\<close>

theorem levenshtein_least_edits:
  "(edit ^^ levenshtein a b) a b \<and> (\<forall>n. (edit ^^ n) a b \<longrightarrow> levenshtein a b \<le> n)"
  using edits_reached edit_distance_le by (auto simp: levenshtein_distance)

theorem levenshtein_least_edits_witness:
  "levenshtein ''BANDA'' ''BNDAA'' = 2 \<and> (edit ^^ 2) ''BANDA'' ''BNDAA'' \<and> \<not> (edit ^^ 1) ''BANDA'' ''BNDAA''"
proof -
  have "levenshtein ''BANDA'' ''BNDAA'' = 2" by code_simp
  with levenshtein_least_edits [of "''BANDA''" "''BNDAA''"] show ?thesis by (metis not_less_eq_eq numeral_2_eq_2 One_nat_def)
qed

section \<open>Dates survive the form\<close>

lemma day_of_year_start_near:
  "365 * k + (k * 97) div 400 - 3 \<le> day_of_year_start (1970 + k)" "day_of_year_start (1970 + k) \<le> 365 * k + (k * 97) div 400 + 3"
  unfolding day_of_year_start_def by simp_all

lemma utc_year_correct: "day_of_year_start (utc_year d) \<le> d \<and> d < day_of_year_start (utc_year d + 1)"
proof -
  let ?k = "(400 * d) div 146097"
  have k: "146097 * ?k \<le> 400 * d" "400 * d < 146097 * (?k + 1)" by simp_all
  have lo: "day_of_year_start (1970 + ?k - 1) \<le> d"
    using day_of_year_start_near(2) [of "?k - 1"] k by simp
  have hi: "d < day_of_year_start (1970 + ?k + 1 + 1)"
    using day_of_year_start_near(1) [of "?k + 2"] k by simp
  show ?thesis using lo hi by (simp add: utc_year_def Let_def)
qed

lemma utc_month_range: "0 \<le> utc_month y doy" "utc_month y doy \<le> 11"
proof -
  show "0 \<le> utc_month y doy" by (simp add: utc_month_def)
  have "length (filter (\<lambda>m. days_before_month y m \<le> doy) [1, 2, 3, 4, 5, 6, 7, 8, 9, 10, 11 :: int]) \<le> length [1, 2, 3, 4, 5, 6, 7, 8, 9, 10, 11 :: int]"
    by (rule length_filter_le)
  then show "utc_month y doy \<le> 11" by (simp add: utc_month_def)
qed

lemma utc_month_start: "0 \<le> doy \<Longrightarrow> days_before_month y (utc_month y doy) \<le> doy"
  by (auto simp: utc_month_def days_before_month_def split: if_split)

lemma date_utc_date:
  assumes "utc_date t = (y, m, d)" and "t mod 86400000 = 0" and "100 \<le> y" and "\<bar>t\<bar> \<le> 8640000000000000"
  shows "date_utc y m d = Some t" and "0 \<le> m" and "m \<le> 11" and "1 \<le> d"
proof -
  define days where "days = t div 86400000"
  have t: "t = days * 86400000" using assms(2) by (auto simp: days_def)
  have u: "y = utc_year days" "m = utc_month y (days - day_of_year_start y)"
      "d = days - day_of_year_start y - days_before_month y m + 1"
    using assms(1) by (auto simp: utc_date_def Let_def days_def)
  note y = utc_year_correct [of days, folded u(1)]
  show m: "0 \<le> m" "m \<le> 11" using utc_month_range u(2) by auto
  show "1 \<le> d" using utc_month_start [of "days - day_of_year_start y" y] y by (simp add: u(3) u(2) [symmetric])
  have "m div 12 = 0" "m mod 12 = m" using m by simp_all
  then show "date_utc y m d = Some t" using assms(3,4) by (simp add: date_utc_def Let_def u(3) t)
qed

lemma split_at_char_append: "sep \<notin> set u \<Longrightarrow> split_at_char sep (u @ sep # v) = u # split_at_char sep v"
  "sep \<notin> set u \<Longrightarrow> split_at_char sep u = [u]"
  by (induction u) auto

lemma show_int_digits: "0 \<le> n \<Longrightarrow> list_all decimal_digit (show_int n)"
  by (simp add: show_int_def decimal_digits)

lemma parse_padded:
  assumes "0 \<le> n"
  shows "parse_int (padStart k (CHR ''0'') (show_int n)) = Some n" and "CHR ''/'' \<notin> set (padStart k (CHR ''0'') (show_int n))"
proof -
  let ?z = "replicate (k - length (show_int n)) (CHR ''0'')"
  let ?s = "?z @ show_int n"
  have digits: "list_all decimal_digit ?s" using show_int_digits [OF assms] by (auto simp: decimal_digit_def list_all_iff)
  have "number_of (replicate j (CHR ''0'') @ ds) = number_of ds" for j ds
    by (induction j) (simp_all add: number_of_def)
  then have zeros: "number_of (?z @ ds) = number_of ds" for ds by blast
  obtain c cs where s: "?s = c # cs" using show_int_def [of n] assms by (cases ?s) auto
  have c: "\<not> is_space c" "c \<noteq> CHR ''-''" "c \<noteq> CHR ''+''" using digits s by (auto simp: decimal_digit_def is_space_def)
  have "takeWhile decimal_digit ?s = ?s" using digits by (simp add: takeWhile_eq_all_conv list_all_iff)
  moreover have "number_of ?s = n" using zeros assms number_of_decimal [of "nat n"] by (simp add: show_int_def)
  ultimately show "parse_int (padStart k (CHR ''0'') (show_int n)) = Some n"
    using c s by (simp add: parse_int_def padStart_def startsWith_def Let_def)
  show "CHR ''/'' \<notin> set (padStart k (CHR ''0'') (show_int n))"
  proof
    assume "CHR ''/'' \<in> set (padStart k (CHR ''0'') (show_int n))"
    then have "decimal_digit (CHR ''/'')" using digits unfolding padStart_def list_all_iff by blast
    then show False by (simp add: decimal_digit_def)
  qed
qed

text \<open>A date of birth survives being printed on the form and read back by the pipeline: for every midnight (UTC) of
  the range of \<open>Date\<close> whose year is not below 100, reading the day, month and year that the form shows
  gives the same instant.\<close>

lemma birth_date_roundtrip:
  assumes "t mod 86400000 = 0" and "\<bar>t\<bar> \<le> 8640000000000000" and "100 \<le> fst (utc_date t)"
  shows "parseDate (formatDate t) = Some (Some t)"
proof -
  obtain y m d where u: "utc_date t = (y, m, d)" by (rule prod_cases3)
  note date = date_utc_date [OF u assms(1) _ assms(2)]
  have y: "100 \<le> y" using assms(3) by (simp add: u)
  have year: "padStart 0 (CHR ''0'') (show_int y) = show_int y" by (simp add: padStart_def)
  have parts: "split_at_char (CHR ''/'') (formatDate t) =
      [padStart 2 (CHR ''0'') (show_int d), padStart 2 (CHR ''0'') (show_int (m + 1)), show_int y]"
    using parse_padded(2) [of d 2] parse_padded(2) [of "m + 1" 2] parse_padded(2) [of y 0] date y
    by (simp add: formatDate_def u split_at_char_append year)
  show ?thesis
    using parse_padded(1) [of d 2] parse_padded(1) [of "m + 1" 2] parse_padded(1) [of y 0] date y
    by (simp add: parseDate_def parts year)
qed

section \<open>What the form shows\<close>

text \<open>What was typed at registration stands, whatever was read from the document; a conflict is flagged exactly when
  both are there and disagree.\<close>

lemma registration_stands:
  assumes "trimmed reg = Some v"
  shows "rf_value (reconcileText R reg ext c) = Some v" and "rf_value (reconcileExact R reg ext c) = Some v"
    and "rf_matchesRegistration (reconcileText R reg ext c) = Some False \<longleftrightarrow>
      (\<exists>w. trimmed ext = Some w \<and> nameSimilarity R v w < 8 / 10)"
    and "rf_matchesRegistration (reconcileExact R reg ext c) = Some False \<longleftrightarrow>
      (\<exists>w. trimmed ext = Some w \<and> toUpperCase v \<noteq> toUpperCase w)"
  using assms by (auto simp: reconcileText_def reconcileExact_def no_field_def Let_def split: option.split)

lemma overrides_win:
  assumes "(key, v) \<in> set (csd_base r phone bank)" and "map_of overrides key = Some ov" and "trimText ov \<noteq> []"
  shows "(key, ov) \<in> set (apply_overrides overrides (csd_base r phone bank))"
  using assms by (force simp: apply_overrides_def)

lemma overrides_keep_keys: "map fst (apply_overrides overrides base) = map fst base"
  by (simp add: apply_overrides_def comp_def case_prod_beta)

lemma saved_overrides_not_blank:
  assumes "saveOverrides i overrides s = (Inr (), s')" and "findApp i s' = Some a" and "kj_csdOverrides (ka_json a) = Some os"
    and "(k, v) \<in> set os"
  shows "trimText v \<noteq> []"
  using assms by (auto simp: saveOverrides_def update_app_def find_app_simps split: if_split_asm)

lemma bank_number_roundtrip:
  assumes "seal plain = (tag, cipher)" and "unseal iv tag cipher = Some plain"
    and "CHR '':'' \<notin> set iv" "CHR '':'' \<notin> set tag" "CHR '':'' \<notin> set cipher"
  shows "bank_decrypt unseal (bank_encrypt seal iv plain) = Some plain"
  using assms by (simp add: bank_decrypt_def bank_encrypt_def split_at_char_append)

end
