(* ===== verification/Spec2Isabelle.thy ===== *)
theory Spec2Isabelle
  imports Money Reach KycReconcile
begin

text \<open>
  A verification of the Pine brokerage backend, the NestJS service under \<^verbatim>\<open>src/src\<close>: customers of a stock broker
  hold a wallet, pay in by card, withdraw, buy and sell listed shares, invest in treasury bills and receive
  dividends, after their identity has been verified.  The development models the code that decides about money,
  shares, sessions and identity, whole handlers with their guards and error branches; it proves that the books
  are kept, and states exactly where they are not.

  \<^bold>\<open>The program.\<close>  A request handler of a service reads and writes a PostgreSQL database through Prisma.  The
  wallet service (\<^verbatim>\<open>modules/wallet\<close>) owns balances, the double-entry ledger, holds and deposits; the trading
  services (\<^verbatim>\<open>modules/trading\<close>) take an order from draft to execution and settlement, calling the wallet's holds
  and the fee, risk and platform policies of \<^verbatim>\<open>modules/brokers\<close>; settlement runs from an event the execution
  engine emits; treasury (\<^verbatim>\<open>modules/treasury\<close>) and corporate actions (\<^verbatim>\<open>modules/dividends\<close>) move money and shares
  through the same tables; card payments (\<^verbatim>\<open>modules/payments\<close>) drive the Mastercard gateway
  (\<^verbatim>\<open>modules/mastercard-gateway\<close>) and credit the wallet through its deposit pipeline.  Who may call any of this is
  decided by the identity services (\<^verbatim>\<open>modules/auth\<close>) for customers and the two-step staff login of
  \<^verbatim>\<open>modules/admin\<close>: sessions with rotating refresh tokens, one-time codes in Redis, a transaction PIN, devices,
  TOTP codes and recovery codes.  Identity verification (\<^verbatim>\<open>modules/kyc\<close>) runs uploaded documents through image,
  text and face providers, checks for fraud, scores and decides; brokers review what is left and can be
  overridden by staff who manage users (\<^verbatim>\<open>modules/admin\<close>).

  \<^bold>\<open>State and conventions.\<close>  The record \<open>db\<close> of \<open>Store\<close> has one list per table, in insertion order, a counter for
  primary keys, the caches the services keep in memory and the events emitted.  Amounts are rationals; the
  arithmetic of the host (decimal.js, IEEE doubles, the \<open>Decimal(18,4)\<close> columns) is a record \<open>runtime\<close> whose laws
  are the locale \<open>numeric_runtime\<close> of \<open>Prelude\<close>, interpreted on the concrete \<open>pg_runtime\<close>.  A handler inside a
  database transaction returns an error or the new state; one outside it returns both, because its earlier
  writes stay.  Prisma's exceptions, the HTTP exceptions and plain errors are the datatype \<open>err\<close>.  Where a
  transaction may be refused at commit, or a retry finds another state, the outcome is an argument.

  \<^bold>\<open>Theories.\<close>
  \<^item> \<open>Prelude\<close>: the runtime and its laws, decimal places and rounding, table updates, JSON.
  \<^item> \<open>Money\<close>: \<^verbatim>\<open>shared/money/money.ts\<close>.  Every operation yields a well-formed amount.
  \<^item> \<open>OrderLifecycle\<close>: \<^verbatim>\<open>trading/domain/order-lifecycle.ts\<close>.  Every history the table allows passes through
    validation and submission before a fill, never leaves a terminal state, and is bounded but for repeated
    partial fills.
  \<^item> \<open>TtlCache\<close>, \<open>Fees\<close>: the cache interface of the policy services as a locale, interpreted on the fee and risk
    caches; fee policies and the fee calculator.  Tiers are unique, fees are exact for rates of at most two places,
    a breakdown conserves the gross amount, a changed policy is seen after the time to live.
  \<^item> \<open>Store\<close>, \<open>RiskPolicy\<close>, \<open>Ledger\<close>: the tables and the wallet repository; deposit limits and concentration; the
    invariant \<open>books_ok\<close> (every wallet equals its ledger, every transaction balances) and the locale
    \<open>money_movement\<close>, the contract of a posting, interpreted for deposits, withdrawals, settlements and dividends.
  \<^item> \<open>Wallet\<close>: the services of \<^verbatim>\<open>modules/wallet\<close>.  Deposits and withdrawals happen once and balance, holds never
    exceed the balance, the displayed balance is the one checked, reconciliation reports the exact difference
    between a wallet and its ledger.
  \<^item> \<open>TradingRepo\<close>, \<open>Orders\<close>, \<open>Settlement\<close>, \<open>System\<close>: \<^verbatim>\<open>modules/trading\<close>.  Validation is sound, a submission holds the
    money or leaves no hold, execution and settlement happen once and atomically; an executed order settles, or
    fails and stays filled when the wallet does not cover it at the price of the execution (the locale
    \<open>instant_fill\<close>, interpreted on the two broker adapters).
  \<^item> \<open>Treasury\<close>, \<open>Dividends\<close>: investments hold their principal; dividends are paid at most once over any number
    of runs, and for the amount owed; splits and bonus issues change exactly the positions they should (the locale \<open>holding_action\<close>).
  \<^item> \<open>SavedCards\<close>, \<open>Gateway\<close>, \<open>CardPayments\<close>: card storage and its encryption, the Luhn check, the mock gateway; the
    gateway client; the payment flows.  A charge is for the stored amount, once, after the authentication of
    its own order was read, and the answer to the customer agrees with the wallet.
  \<^item> \<open>Reach\<close>: all operations as one transition system \<open>pine_step\<close>, of the program as it is and with regular figures
    (below); the abstract bank that runs with regular figures refine, from a fresh database exact reconciliation,
    and the card flows as runs of it.
  \<^item> \<open>Totp\<close>, \<open>Otp\<close>: Base32 and RFC 6238 codes over 32-bit words; one-time codes over the locale \<open>redis_server\<close>, as
    whole calls and as single commands that can overlap.  The codec loses nothing, a code is accepted in its
    window, guesses are bounded.
  \<^item> \<open>Sessions\<close>, \<open>Identity\<close>, \<open>Auth\<close>: sessions, tokens and devices with the relation \<open>evolves\<close> that bounds what an
    operation does to the sessions table (in the locale \<open>auth_runtime\<close>); phone numbers, passwords, PINs and
    users; every flow of the customer surface and the guards.  Three wrong PINs lock, a password change ends
    sessions, only live sessions are admitted.
  \<^item> \<open>AdminAuth\<close>: MFA and the staff login, and all identity operations as one transition system \<open>identity_step\<close>.  A
    refresh token works once, a revoked session stays dead, staff need a second factor, recovery codes are used
    up.

  \<^item> \<open>KycStore\<close>, \<open>KycScore\<close>, \<open>Mrz\<close>, \<open>Kyc\<close>: the KYC tables; face matching, fraud checks and the confidence engine over
    the locale \<open>score_runtime\<close>; the machine-readable zone; the workflow.  The decision follows the thresholds, the
    pipeline always decides, an automatic approval has passed every gate (the locale \<open>state_frame\<close> carries what
    the stages leave alone).
  \<^item> \<open>KycReview\<close>, \<open>KycReconcile\<close>: decisions of brokers and staff, and all KYC operations as one transition system
    \<open>kyc_step\<close> in which every approval has an entry of the audit log; the comparison of typed and read names and
    the data side of the CSD form.

  \<^bold>\<open>Parameters.\<close>  The remote gateway is a function of the requests sent so far; the broker adapter is a function
  of the order; the cipher is a pair of functions with the round trip AES-GCM documents; random ids, the clock
  and configuration are arguments.  No property assumes anything of the gateway.  Redis is a record of commands
  with the laws of \<open>redis_server\<close>; Argon2, SHA-256 and the random source are fields of \<open>auth_env\<close> with the laws of
  \<open>auth_runtime\<close> (a hashed secret verifies, no two drawn tokens share a digest); JWT, HMAC, AES-GCM and base64url
  are fields without laws, except that base64url decodes what it encodes where a token is read back.  Image
  processing, OCR, face recognition, object storage, the text of a PDF, the address heuristics, the square root and
  local dates are fields of \<open>kyc_env\<close>; where a bound is claimed, their scores lie between zero and one.  Text of
  documents is over Latin-1.

  \<^bold>\<open>Bounds.\<close>  Fee and settlement arithmetic is exact for prices of at most four places and orders within the
  limits the validation service admits; deposits are up to a billion Kwacha, well above the five million the
  request validation admits.  The figures are called regular when no fee of a trade lies half-way
  between two amounts of the ledger and a sale covers its fees (\<open>event_ok\<close>), deposit fees have at most four places and
  are at most a hundred per cent (\<open>fee_state_ok\<close>), deposits and withdrawals are positive amounts of at most four places
  (\<open>deposit_amount\<close>, \<open>withdrawal_amount\<close>) and the columns hold the figures of a dividend (\<open>dividend_payable\<close>).  The code
  does not enforce these; a property that needs them says so, and the lemmas on flaws show what happens otherwise.  The retry loop of settlement runs at most four times, as a measure shows; every other loop is a
  fold over a table.

  \<^bold>\<open>What the lemmas about flaws show.\<close>  Besides the properties the theories keep concrete runs of behaviour the
  code does not intend: a rounding tie between ledger and balance (\<open>Settlement.tie_trade_discrepancy\<close>), a sale whose
  fees overdraw the wallet (\<open>Settlement.sale_overdraws\<close>), a purchase left filled and unsettled after a price rise
  (\<open>System.price_rise_strands_order\<close>), an
  investment of money a withdrawal has claimed (\<open>Treasury.invest_ignores_pending_withdrawal\<close>), a dividend lost after
  a failed commit (\<open>Dividends.dividend_lost_after_conflict\<close>), references that share a gateway order
  (\<open>Gateway.order_id_collision\<close>), a saved card charged without authentication and a charge credited to another
  customer with the same key (\<open>CardPayments.saved_card_skips_authentication\<close>, \<open>CardPayments.shared_key_credits_other\<close>),
  one-time code guesses beyond the limit, overlapping or late (\<open>Otp.overlapping_guesses_exceed_limit\<close>,
  \<open>Otp.late_guess_exceeds_limit\<close>), PIN guesses outside the lockout (\<open>Auth.changePin_ignores_lockout\<close>), applicants
  rejected because no face provider is deployed (\<open>KycScore.faceless_rejected\<close>), an initial erased from a name
  (\<open>Mrz.initial_lost\<close>), a decided application run again (\<open>KycReview.retry_reopens\<close>) and a customer counted twice
  (\<open>KycReview.unsubmitted_counted_twice\<close>).

  \<^bold>\<open>Not modelled.\<close>  Routing, dependency wiring and request validation by decorators; log lines and
  message delivery; the providers for images, OCR and faces and the heuristics that find fields in the text of a
  card, which rest on image and model libraries (the KYC workflow around them is modelled); market data scraping; read-only reporting and back-office screens.  Concurrency is modelled at the grain of database
  transactions: handlers interleave between transactions, never inside one, and one-time codes also between single
  Redis commands.  The commands of any other call happen at one instant.
\<close>

end
